(* ===== verification/Go_Prelude.thy ===== *)
theory Go_Prelude
  imports Main "HOL-Library.Char_ord" "HOL-Library.List_Lexorder" "HOL-Library.Sublist"
begin

text \<open>
  What the component theories share: the Go values and library functions the sources use,
  as executable definitions, and the generic lemmas on them.

  \<^item> A Go string is a list of bytes, that is a \<open>string\<close> (a \<open>char\<close> of HOL is a byte).
    \<open>strings.TrimSpace\<close> trims the UTF-8 encodings of every Unicode space; \<open>strings.ToLower\<close>
    and \<open>strings.EqualFold\<close> are modelled on ASCII letters, which is what HTTP header names
    are made of, and leave other bytes unchanged.
  \<^item> A Go map is an association list with distinct keys (\<^term>\<open>map_of\<close> is the lookup); where
    the source ranges over a map the list order is the iteration order the runtime chose, and
    where it ranges over \<open>slices.Sorted(maps.Keys(m))\<close> the model uses \<open>sorted_keys\<close>.
  \<^item> A Go \<open>error\<close> result is \<open>'e option\<close> (\<^term>\<open>None\<close> is \<open>nil\<close>); a value with an error is
    \<open>'e + 'a\<close>.
\<close>

named_theorems lifecycle_simps \<open>tables of the task and step lifecycles\<close>
named_theorems go_string_simps \<open>definitions of the string library\<close>

type_synonym 'v gomap = "(string \<times> 'v) list"

section \<open>Errors\<close>

text \<open>\<open>if err := a; err != nil { return err }; return b\<close>\<close>

definition seq_err :: "'e option \<Rightarrow> 'e option \<Rightarrow> 'e option" where
  "seq_err a b = (case a of Some e \<Rightarrow> Some e | None \<Rightarrow> b)"

text \<open>\<open>if cond { return err }; rest\<close>\<close>

definition guard_err :: "bool \<Rightarrow> 'e \<Rightarrow> 'e option \<Rightarrow> 'e option" where
  "guard_err c e rest = (if c then Some e else rest)"

text \<open>A loop that returns the first error its body reports.\<close>

fun first_error :: "('a \<Rightarrow> 'e option) \<Rightarrow> 'a list \<Rightarrow> 'e option" where
  "first_error f [] = None"
| "first_error f (x # xs) = seq_err (f x) (first_error f xs)"

lemma seq_err_simps [simp]:
  "seq_err None b = b" "seq_err (Some e) b = Some e"
  by (simp_all add: seq_err_def)

lemma seq_err_None [simp]: "seq_err a b = None \<longleftrightarrow> a = None \<and> b = None"
  by (cases a) auto

lemma guard_err_None [simp]: "guard_err c e r = None \<longleftrightarrow> \<not> c \<and> r = None"
  by (simp add: guard_err_def)

lemma guard_err_simps [simp]:
  "guard_err False e r = r" "guard_err True e r = Some e"
  by (simp_all add: guard_err_def)

lemma first_error_None [simp]: "first_error f xs = None \<longleftrightarrow> (\<forall>x\<in>set xs. f x = None)"
  by (induction xs) auto

lemma first_error_Some: "first_error f xs = Some e \<Longrightarrow> \<exists>x\<in>set xs. f x = Some e"
proof (induction xs)
  case (Cons x xs)
  then show ?case by (cases "f x") auto
qed simp

lemma first_error_cong [fundef_cong]:
  assumes "xs = ys" and "\<And>x. x \<in> set ys \<Longrightarrow> f x = g x"
  shows "first_error f xs = first_error g ys"
  using assms(2) unfolding assms(1) by (induction ys) auto

section \<open>Strings\<close>

definition byte_of :: "char \<Rightarrow> nat" where
  "byte_of c = of_char c"

definition has_prefix :: "string \<Rightarrow> string \<Rightarrow> bool" where
  "has_prefix s p \<longleftrightarrow> take (length p) s = p"

definition has_suffix :: "string \<Rightarrow> string \<Rightarrow> bool" where
  "has_suffix s p \<longleftrightarrow> length p \<le> length s \<and> drop (length s - length p) s = p"

definition trim_suffix :: "string \<Rightarrow> string \<Rightarrow> string" where
  "trim_suffix s p = (if has_suffix s p then take (length s - length p) s else s)"

fun contains_sub :: "string \<Rightarrow> string \<Rightarrow> bool" where
  "contains_sub [] p \<longleftrightarrow> p = []"
| "contains_sub (c # s) p \<longleftrightarrow> has_prefix (c # s) p \<or> contains_sub s p"

text \<open>\<open>strings.Split\<close> and \<open>strings.SplitSeq\<close> with a separator of one byte: always at least
  one part, and joining the parts again gives the string.\<close>

fun split_byte :: "char \<Rightarrow> string \<Rightarrow> string list" where
  "split_byte c [] = [[]]"
| "split_byte c (x # xs) =
     (if x = c then [] # split_byte c xs
      else (case split_byte c xs of [] \<Rightarrow> [[x]] | p # ps \<Rightarrow> (x # p) # ps))"

text \<open>\<open>strings.IndexByte\<close>: \<^term>\<open>None\<close> is -1.\<close>

fun index_byte :: "string \<Rightarrow> char \<Rightarrow> nat option" where
  "index_byte [] c = None"
| "index_byte (x # xs) c = (if x = c then Some 0 else map_option Suc (index_byte xs c))"

text \<open>\<open>strings.Cut\<close> with a separator of one byte: before, after, found.\<close>

definition cut_byte :: "string \<Rightarrow> char \<Rightarrow> string \<times> string \<times> bool" where
  "cut_byte s c = (case index_byte s c of
       None \<Rightarrow> (s, [], False)
     | Some i \<Rightarrow> (take i s, drop (Suc i) s, True))"

definition lower_char :: "char \<Rightarrow> char" where
  "lower_char c = (if 65 \<le> byte_of c \<and> byte_of c \<le> 90 then char_of (byte_of c + 32) else c)"

definition to_lower :: "string \<Rightarrow> string" where
  "to_lower s = map lower_char s"

definition equal_fold :: "string \<Rightarrow> string \<Rightarrow> bool" where
  "equal_fold s t \<longleftrightarrow> to_lower s = to_lower t"

text \<open>The UTF-8 encodings of the code points \<open>unicode.IsSpace\<close> accepts.\<close>

definition space_encodings :: "string list" where
  "space_encodings =
     map (\<lambda>b. [char_of b]) [9::nat, 10, 11, 12, 13, 32]
     @ map (map char_of) [[0xC2::nat, 0x85], [0xC2, 0xA0], [0xE1, 0x9A, 0x80],
          [0xE2, 0x80, 0xA8], [0xE2, 0x80, 0xA9], [0xE2, 0x80, 0xAF],
          [0xE2, 0x81, 0x9F], [0xE3, 0x80, 0x80]]
     @ map (\<lambda>b. map char_of [0xE2::nat, 0x80, b]) [0x80..<0x8B]"

lemma space_encodings_nonempty: "w \<in> set space_encodings \<Longrightarrow> w \<noteq> []"
  by (auto simp: space_encodings_def)

function trim_left :: "string \<Rightarrow> string" where
  "trim_left s = (case find (has_prefix s) space_encodings of
       Some w \<Rightarrow> trim_left (drop (length w) s)
     | None \<Rightarrow> s)"
  by pat_completeness auto
termination
proof (relation "measure length")
  fix s w
  assume "find (has_prefix s) space_encodings = Some w"
  then have w: "has_prefix s w" "w \<in> set space_encodings"
    by (auto simp: find_Some_iff)
  then have "w \<noteq> []" by (blast dest: space_encodings_nonempty)
  with w have "0 < length w" "s \<noteq> []" by (auto simp: has_prefix_def)
  then show "(drop (length w) s, s) \<in> measure length"
    by simp
qed simp

function trim_right :: "string \<Rightarrow> string" where
  "trim_right s = (case find (has_suffix s) space_encodings of
       Some w \<Rightarrow> trim_right (take (length s - length w) s)
     | None \<Rightarrow> s)"
  by pat_completeness auto
termination
proof (relation "measure length")
  fix s w
  assume "find (has_suffix s) space_encodings = Some w"
  then have w: "has_suffix s w" "w \<in> set space_encodings"
    by (auto simp: find_Some_iff)
  then have "w \<noteq> []" by (blast dest: space_encodings_nonempty)
  moreover from this w have "s \<noteq> []" by (auto simp: has_suffix_def)
  ultimately show "(take (length s - length w) s, s) \<in> measure length"
    by (simp add: diff_less)
qed simp

declare trim_left.simps [simp del] trim_right.simps [simp del]

definition trim_space :: "string \<Rightarrow> string" where
  "trim_space s = trim_right (trim_left s)"

definition blank :: "string \<Rightarrow> bool" where
  "blank s \<longleftrightarrow> trim_space s = []"

text \<open>The whole byte alphabet of an ASCII identifier class.\<close>

definition is_lower :: "char \<Rightarrow> bool" where
  "is_lower c \<longleftrightarrow> 97 \<le> byte_of c \<and> byte_of c \<le> 122"

definition is_upper :: "char \<Rightarrow> bool" where
  "is_upper c \<longleftrightarrow> 65 \<le> byte_of c \<and> byte_of c \<le> 90"

definition is_digit :: "char \<Rightarrow> bool" where
  "is_digit c \<longleftrightarrow> 48 \<le> byte_of c \<and> byte_of c \<le> 57"

text \<open>\<open>strconv.Atoi\<close>: an optional sign and decimal digits, within 64 bits.\<close>

definition digits_value :: "string \<Rightarrow> int" where
  "digits_value ds = foldl (\<lambda>n d. 10 * n + (int (byte_of d) - 48)) 0 ds"

definition atoi :: "string \<Rightarrow> int option" where
  "atoi s =
    (let neg = (s \<noteq> [] \<and> hd s = CHR ''-'');
         ds = (if s \<noteq> [] \<and> (hd s = CHR ''-'' \<or> hd s = CHR ''+'') then tl s else s);
         n = (if neg then - digits_value ds else digits_value ds)
     in if ds \<noteq> [] \<and> list_all is_digit ds \<and> - (2 ^ 63) \<le> n \<and> n < 2 ^ 63 then Some n else None)"

lemmas char_class_defs = is_lower_def is_upper_def is_digit_def byte_of_def

subsection \<open>Facts on strings\<close>

lemma trim_left_Nil [simp]: "trim_left [] = []"
  by (simp add: trim_left.simps space_encodings_def has_prefix_def)

lemma trim_right_Nil [simp]: "trim_right [] = []"
  by (simp add: trim_right.simps space_encodings_def has_suffix_def)

lemma trim_left_stop: "find (has_prefix s) space_encodings = None \<Longrightarrow> trim_left s = s"
  by (subst trim_left.simps) simp

lemma trim_right_stop: "find (has_suffix s) space_encodings = None \<Longrightarrow> trim_right s = s"
  by (subst trim_right.simps) simp

lemma trim_left_done: "find (has_prefix (trim_left s)) space_encodings = None"
proof (induction s rule: trim_left.induct)
  case (1 s)
  then show ?case by (cases "find (has_prefix s) space_encodings") (simp_all add: trim_left.simps [of s])
qed

lemma trim_right_done: "find (has_suffix (trim_right s)) space_encodings = None"
proof (induction s rule: trim_right.induct)
  case (1 s)
  then show ?case by (cases "find (has_suffix s) space_encodings") (simp_all add: trim_right.simps [of s])
qed

lemma trim_right_prefix: "prefix (trim_right s) s"
proof (induction s rule: trim_right.induct)
  case (1 s)
  then show ?case
    by (cases "find (has_suffix s) space_encodings")
       (auto simp: trim_right.simps [of s] intro: prefix_order.trans take_is_prefix)
qed

lemma has_prefix_iff: "has_prefix s p \<longleftrightarrow> prefix p s"
  by (auto simp: has_prefix_def prefix_def) (metis append_take_drop_id)

lemma trim_space_idem [simp]: "trim_space (trim_space s) = trim_space s"
proof -
  let ?t = "trim_left s"
  have "find (has_prefix (trim_right ?t)) space_encodings = None"
    using trim_left_done [of s] trim_right_prefix [of ?t]
    by (auto simp: find_None_iff has_prefix_iff dest: prefix_order.trans)
  then have "trim_left (trim_right ?t) = trim_right ?t" by (rule trim_left_stop)
  moreover have "trim_right (trim_right ?t) = trim_right ?t" using trim_right_done by (rule trim_right_stop)
  ultimately show ?thesis by (simp add: trim_space_def)
qed

text \<open>A text of visible ASCII characters has nothing to trim.\<close>

definition ascii_visible :: "char \<Rightarrow> bool" where
  "ascii_visible c \<longleftrightarrow> 33 \<le> byte_of c \<and> byte_of c \<le> 126"

lemma space_not_visible: "w \<in> set space_encodings \<Longrightarrow> \<not> ascii_visible (hd w) \<and> \<not> ascii_visible (last w)"
  by (auto simp: space_encodings_def ascii_visible_def byte_of_def)

lemma trim_space_visible:
  assumes "\<forall>c\<in>set s. ascii_visible c"
  shows "trim_space s = s"
proof -
  have pre: "\<not> has_prefix s w" if "w \<in> set space_encodings" for w
  proof
    assume "has_prefix s w"
    then have "w \<noteq> []" "set w \<subseteq> set s"
      using that space_encodings_nonempty by (auto simp: has_prefix_iff dest: set_mono_prefix)
    with assms space_not_visible [OF that] show False by (meson hd_in_set subsetD)
  qed
  have suf: "\<not> has_suffix s w" if "w \<in> set space_encodings" for w
  proof
    assume "has_suffix s w"
    then have "set w \<subseteq> set s" by (metis has_suffix_def set_drop_subset)
    moreover have "w \<noteq> []" using that by (rule space_encodings_nonempty)
    ultimately show False using assms space_not_visible [OF that] by (meson last_in_set subsetD)
  qed
  have "trim_left s = s" using pre by (intro trim_left_stop) (auto simp: find_None_iff)
  moreover have "trim_right s = s" using suf by (intro trim_right_stop) (auto simp: find_None_iff)
  ultimately show ?thesis by (simp add: trim_space_def)
qed

lemma not_blank_visible: "s \<noteq> [] \<Longrightarrow> \<forall>c\<in>set s. ascii_visible c \<Longrightarrow> \<not> blank s"
  by (simp add: blank_def trim_space_visible)

lemma trim_space_Nil [simp]: "trim_space [] = []"
  by (simp add: trim_space_def)

lemma blank_Nil [simp]: "blank []"
  by (simp add: blank_def)

lemma lower_char_idem [simp]: "lower_char (lower_char c) = lower_char c"
  by (auto simp: lower_char_def byte_of_def)

lemma to_lower_idem [simp]: "to_lower (to_lower s) = to_lower s"
  by (simp add: to_lower_def)

lemma equal_fold_equivalence:
  "equal_fold s s"
  "equal_fold s t \<Longrightarrow> equal_fold t s"
  "equal_fold s t \<Longrightarrow> equal_fold t u \<Longrightarrow> equal_fold s u"
  by (simp_all add: equal_fold_def)

lemma split_byte_nonempty [simp]: "split_byte c s \<noteq> []"
  by (induction s) (auto split: list.splits)

lemma split_byte_absent: "c \<notin> set s \<Longrightarrow> split_byte c s = [s]"
  by (induction s) auto

lemma split_byte_parts: "p \<in> set (split_byte c s) \<Longrightarrow> c \<notin> set p"
proof (induction s arbitrary: p)
  case (Cons x xs)
  obtain q qs where q: "split_byte c xs = q # qs"
    by (cases "split_byte c xs") auto
  show ?case
    using Cons.prems Cons.IH [of p] Cons.IH [of q] q by (cases "x = c") auto
qed simp

lemma split_byte_append:
  "c \<notin> set p \<Longrightarrow> split_byte c (p @ c # s) = p # split_byte c s"
  by (induction p) auto

lemma split_byte_join:
  assumes "\<And>p. p \<in> set (q # ps) \<Longrightarrow> c \<notin> set p"
  shows "split_byte c (concat (map (\<lambda>p. p @ [c]) ps) @ q) = ps @ [q]"
  using assms by (induction ps) (auto simp: split_byte_absent split_byte_append)

lemma index_byte_Some:
  "index_byte s c = Some i \<longleftrightarrow> i < length s \<and> s ! i = c \<and> c \<notin> set (take i s)"
proof (induction s arbitrary: i)
  case (Cons x xs)
  show ?case
  proof (cases i)
    case 0
    then show ?thesis using Cons.IH by auto
  next
    case (Suc j)
    then show ?thesis using Cons.IH [of j] by auto
  qed
qed simp

lemma index_byte_None: "index_byte s c = None \<longleftrightarrow> c \<notin> set s"
  by (induction s) auto

lemma prefix_concat: "prefix xs ys \<Longrightarrow> prefix (concat xs) (concat ys)"
  by (auto simp: prefix_def)

section \<open>Maps\<close>

definition sorted_keys :: "'v gomap \<Rightarrow> string list" where
  "sorted_keys m = sort (remdups (map fst m))"

text \<open>\<open>m[k] = v\<close>: the entry is overwritten in place, or added.\<close>

fun map_put :: "'k \<Rightarrow> 'v \<Rightarrow> ('k \<times> 'v) list \<Rightarrow> ('k \<times> 'v) list" where
  "map_put k v [] = [(k, v)]"
| "map_put k v ((k', v') # m) = (if k = k' then (k, v) # m else (k', v') # map_put k v m)"

lemma map_of_map_put [simp]: "map_of (map_put k v m) = (map_of m)(k \<mapsto> v)"
  by (induction m) (auto simp: fun_eq_iff)

lemma fst_set_map_put [simp]: "fst ` set (map_put k v m) = insert k (fst ` set m)"
proof -
  have "dom (map_of (map_put k v m)) = insert k (dom (map_of m))" by simp
  then show ?thesis by (simp only: dom_map_of_conv_image_fst)
qed

lemma distinct_map_put: "distinct (map fst m) \<Longrightarrow> distinct (map fst (map_put k v m))"
  by (induction m) auto

lemma map_put_pairs: "set (map_put k v m) \<subseteq> insert (k, v) (set m)"
  by (induction k v m rule: map_put.induct) auto

lemma set_sorted_keys [simp]: "set (sorted_keys m) = dom (map_of m)"
  by (simp add: sorted_keys_def dom_map_of_conv_image_fst)

lemma sorted_keys_sorted: "sorted (sorted_keys m)" "distinct (sorted_keys m)"
  by (simp_all add: sorted_keys_def)

text \<open>The sorted keys, and so every loop over them, depend on the map only and not on the
  order its entries are listed in.\<close>

lemma sorted_keys_map_of: "map_of m = map_of m' \<Longrightarrow> sorted_keys m = sorted_keys m'"
  by (rule sorted_distinct_set_unique) (simp_all add: sorted_keys_sorted)

section \<open>UTF-8\<close>

text \<open>\<open>utf8.DecodeRuneInString\<close>: the size of the first rune; an invalid or short sequence has
  size 1, the empty string size 0.\<close>

definition cont_byte :: "nat \<Rightarrow> nat \<Rightarrow> string \<Rightarrow> nat \<Rightarrow> bool" where
  "cont_byte lo hi s i \<longleftrightarrow> i < length s \<and> lo \<le> byte_of (s ! i) \<and> byte_of (s ! i) \<le> hi"

definition rune_lo :: "nat \<Rightarrow> nat" where
  "rune_lo b = (if b = 0xE0 then 0xA0 else if b = 0xF0 then 0x90 else 0x80)"

definition rune_hi :: "nat \<Rightarrow> nat" where
  "rune_hi b = (if b = 0xED then 0x9F else if b = 0xF4 then 0x8F else 0xBF)"

definition rune2 :: "string \<Rightarrow> nat \<Rightarrow> bool" where
  "rune2 s b \<longleftrightarrow> 0xC2 \<le> b \<and> b \<le> 0xDF \<and> cont_byte 0x80 0xBF s 1"

definition rune3 :: "string \<Rightarrow> nat \<Rightarrow> bool" where
  "rune3 s b \<longleftrightarrow> 0xE0 \<le> b \<and> b \<le> 0xEF \<and> cont_byte (rune_lo b) (rune_hi b) s 1
     \<and> cont_byte 0x80 0xBF s 2"

definition rune4 :: "string \<Rightarrow> nat \<Rightarrow> bool" where
  "rune4 s b \<longleftrightarrow> 0xF0 \<le> b \<and> b \<le> 0xF4 \<and> cont_byte (rune_lo b) (rune_hi b) s 1
     \<and> cont_byte 0x80 0xBF s 2 \<and> cont_byte 0x80 0xBF s 3"

fun rune_size :: "string \<Rightarrow> nat" where
  "rune_size [] = 0"
| "rune_size (c # cs) =
    (if rune2 (c # cs) (byte_of c) then 2
     else if rune3 (c # cs) (byte_of c) then 3
     else if rune4 (c # cs) (byte_of c) then 4
     else 1)"

lemma rune_length:
  "rune2 s b \<Longrightarrow> 2 \<le> length s" "rune3 s b \<Longrightarrow> 3 \<le> length s" "rune4 s b \<Longrightarrow> 4 \<le> length s"
  unfolding rune2_def rune3_def rune4_def cont_byte_def by linarith+

lemma rune_size_bounds:
  "s \<noteq> [] \<Longrightarrow> 0 < rune_size s" "rune_size s \<le> length s" "rune_size s \<le> 4"
  using rune_length [of s] by (cases s; fastforce)+

function runes :: "string \<Rightarrow> string list" where
  "runes s = (if s = [] then [] else take (rune_size s) s # runes (drop (rune_size s) s))"
  by pat_completeness auto
termination
proof (relation "measure length")
  fix s :: string assume "s \<noteq> []"
  then show "(drop (rune_size s) s, s) \<in> measure length"
    using rune_size_bounds(1) [of s] by simp
qed simp

declare runes.simps [simp del]

lemma runes_Nil [simp]: "runes [] = []"
  by (simp add: runes.simps)

lemma concat_runes [simp]: "concat (runes s) = s"
proof (induction s rule: runes.induct)
  case (1 s)
  then show ?case by (cases "s = []") (simp_all add: runes.simps [of s])
qed

section \<open>Searching lists\<close>

lemma find_append: "find P (xs @ ys) = (case find P xs of None \<Rightarrow> find P ys | Some x \<Rightarrow> Some x)"
  by (induction xs) auto

lemma find_SomeD: "find P xs = Some x \<Longrightarrow> x \<in> set xs \<and> P x"
  by (induction xs) (auto split: if_splits)

section \<open>Decimal numbers\<close>

text \<open>What \<open>%d\<close> and \<open>strconv.Itoa\<close> print.\<close>

fun nat_dec :: "nat \<Rightarrow> string" where
  "nat_dec n = (if n < 10 then [char_of (48 + n)] else nat_dec (n div 10) @ [char_of (48 + n mod 10)])"

declare nat_dec.simps [simp del]

definition int_dec :: "int \<Rightarrow> string" where
  "int_dec i = (if i < 0 then CHR ''-'' # nat_dec (nat (- i)) else nat_dec (nat i))"

lemma nat_dec_nonempty [simp]: "nat_dec n \<noteq> []"
  by (subst nat_dec.simps) simp

text \<open>A slice that may be nil, read as a list.\<close>

definition slice :: "'a list option \<Rightarrow> 'a list" where
  "slice xs = (case xs of None \<Rightarrow> [] | Some ys \<Rightarrow> ys)"

lemma slice_simps [simp]: "slice None = []" "slice (Some ys) = ys"
  by (simp_all add: slice_def)

end
