(* ===== verification/Task_State.thy ===== *)
theory Task_State
  imports Go_Prelude
begin

text \<open>
  The task and step lifecycles of \<open>internal/taskstate\<close>: the statuses and operator actions, the
  two transition tables, the checks the services run against them and the presentation
  catalogs. Statuses, actions and modes are the strings the store persists.
\<close>

section \<open>Actions and statuses (taskstate.go)\<close>

definition ActionCancel :: string where [lifecycle_simps]: "ActionCancel = ''cancel''"
definition ActionStop :: string where [lifecycle_simps]: "ActionStop = ''stop''"
definition ActionApprove :: string where [lifecycle_simps]: "ActionApprove = ''approve''"
definition ActionReject :: string where [lifecycle_simps]: "ActionReject = ''reject''"
definition ActionRereview :: string where [lifecycle_simps]: "ActionRereview = ''rereview''"
definition ActionRetry :: string where [lifecycle_simps]: "ActionRetry = ''retry''"
definition ActionAbandon :: string where [lifecycle_simps]: "ActionAbandon = ''abandon''"
definition ActionMerge :: string where [lifecycle_simps]: "ActionMerge = ''merge''"
definition ActionOpenPR :: string where [lifecycle_simps]: "ActionOpenPR = ''open_pr''"
definition ActionOpenIssue :: string where [lifecycle_simps]: "ActionOpenIssue = ''open_issue''"
definition ActionArchive :: string where [lifecycle_simps]: "ActionArchive = ''archive''"

definition Queued :: string where [lifecycle_simps]: "Queued = ''queued''"
definition Running :: string where [lifecycle_simps]: "Running = ''running''"
definition WaitingHuman :: string where [lifecycle_simps]: "WaitingHuman = ''waiting_human''"
definition PROpen :: string where [lifecycle_simps]: "PROpen = ''pr_open''"
definition Merged :: string where [lifecycle_simps]: "Merged = ''merged''"
definition Parked :: string where [lifecycle_simps]: "Parked = ''parked''"
definition Dead :: string where [lifecycle_simps]: "Dead = ''dead''"
definition Rejected :: string where [lifecycle_simps]: "Rejected = ''rejected''"
definition Declined :: string where [lifecycle_simps]: "Declined = ''closed_wont_do''"
definition Completed :: string where [lifecycle_simps]: "Completed = ''completed''"

definition Terminal :: "string \<Rightarrow> bool" where
  "Terminal status \<longleftrightarrow> status \<in> set [Merged, Rejected, Dead, Declined, Completed]"

definition Actions :: "string \<Rightarrow> string list" where
  "Actions status =
    (if status = Queued then [ActionCancel, ActionReject]
     else if status = Running then [ActionStop, ActionReject]
     else if status = WaitingHuman then [ActionApprove, ActionReject, ActionRereview]
     else if status = Parked then [ActionRetry, ActionAbandon, ActionReject]
     else if status = PROpen then [ActionMerge, ActionOpenPR, ActionOpenIssue, ActionReject]
     else if status \<in> set [Merged, Rejected, Dead, Declined, Completed] then [ActionArchive]
     else [])"

definition ActionTarget :: "string \<Rightarrow> string option" where
  "ActionTarget action =
    (if action \<in> set [ActionApprove, ActionRetry, ActionRereview] then Some Queued
     else if action = ActionStop then Some Parked
     else if action \<in> set [ActionCancel, ActionReject, ActionAbandon] then Some Declined
     else if action = ActionMerge then Some Merged
     else None)"

datatype lifecycle_error =
    ActionNotAvailable string string
  | NotAwaitingApproval string
  | NotParked string
  | CannotDecline string
  | StepExecutionNotRunning string
  | StepUnderTerminalParent

definition CheckAction :: "string \<Rightarrow> string \<Rightarrow> lifecycle_error option" where
  "CheckAction status action =
    (if action \<in> set (Actions status) then None else Some (ActionNotAvailable action status))"

definition CheckApprove :: "string \<Rightarrow> lifecycle_error option" where
  "CheckApprove status = (if status \<noteq> WaitingHuman then Some (NotAwaitingApproval status) else None)"

definition CheckRetry :: "string \<Rightarrow> lifecycle_error option" where
  "CheckRetry status = (if status \<noteq> Parked then Some (NotParked status) else None)"

definition CheckDecline :: "string \<Rightarrow> lifecycle_error option" where
  "CheckDecline status =
    (if list_ex (\<lambda>a. a \<in> set [ActionCancel, ActionStop, ActionReject, ActionAbandon]) (Actions status)
     then None else Some (CannotDecline status))"

section \<open>Retry modes and park classes\<close>

definition RetryRefreshOntoBase :: string where
  [lifecycle_simps]: "RetryRefreshOntoBase = ''refresh_onto_base''"
definition RetryContinuePushedWork :: string where
  [lifecycle_simps]: "RetryContinuePushedWork = ''continue_pushed_work''"

definition NormalizeRetryMode :: "string \<Rightarrow> string" where
  "NormalizeRetryMode mode =
    (if mode = RetryContinuePushedWork then RetryContinuePushedWork else RetryRefreshOntoBase)"

definition ResolveRetryMode :: "string \<Rightarrow> string option" where
  "ResolveRetryMode mode =
    (if mode = [] \<or> mode = RetryRefreshOntoBase then Some RetryRefreshOntoBase
     else if mode = RetryContinuePushedWork then Some RetryContinuePushedWork
     else None)"

definition ParkNeedsHuman :: string where [lifecycle_simps]: "ParkNeedsHuman = ''needs_human''"
definition ParkTransient :: string where [lifecycle_simps]: "ParkTransient = ''transient''"
definition ParkTerminal :: string where [lifecycle_simps]: "ParkTerminal = ''terminal''"

definition NormalizeParkClass :: "string \<Rightarrow> string" where
  "NormalizeParkClass class =
    (if class = ParkTransient \<or> class = ParkTerminal then class else ParkNeedsHuman)"

section \<open>Presentation catalogs\<close>

record RetryModeMeta =
  rm_id :: string
  rm_label :: string
  rm_default :: bool
  rm_requires_branch :: bool

definition RetryModes :: "RetryModeMeta list" where
  "RetryModes =
    [\<lparr>rm_id = RetryRefreshOntoBase, rm_label = ''Refresh onto base'',
      rm_default = True, rm_requires_branch = False\<rparr>,
     \<lparr>rm_id = RetryContinuePushedWork, rm_label = ''Continue pushed work'',
      rm_default = False, rm_requires_branch = True\<rparr>]"

record StatusMeta =
  sm_id :: string
  sm_label :: string
  sm_kind :: string
  sm_needs_you :: bool

definition status_meta :: "string \<Rightarrow> string \<Rightarrow> string \<Rightarrow> bool \<Rightarrow> StatusMeta" where
  [lifecycle_simps]: "status_meta i l k n = \<lparr>sm_id = i, sm_label = l, sm_kind = k, sm_needs_you = n\<rparr>"

definition Statuses :: "StatusMeta list" where
  "Statuses =
    [status_meta Queued ''Queued'' ''idle'' False,
     status_meta Running ''Working'' ''info'' False,
     status_meta WaitingHuman ''Waiting for you'' ''warn'' True,
     status_meta PROpen ''In review'' ''ok'' False,
     status_meta Merged ''Merged'' ''ok'' False,
     status_meta Completed ''Done'' ''ok'' False,
     status_meta Parked ''Parked'' ''warn'' True,
     status_meta Dead ''Stopped (too many retries)'' ''danger'' False,
     status_meta Rejected ''Rejected'' ''danger'' False,
     status_meta Declined ''Won't do'' ''idle'' False]"

record ActionMeta =
  am_id :: string
  am_label :: string
  am_kind :: string

definition action_meta :: "string \<Rightarrow> string \<Rightarrow> string \<Rightarrow> ActionMeta" where
  [lifecycle_simps]: "action_meta i l k = \<lparr>am_id = i, am_label = l, am_kind = k\<rparr>"

definition ActionCatalog :: "ActionMeta list" where
  "ActionCatalog =
    [action_meta ActionCancel ''Cancel'' ''quiet'',
     action_meta ActionStop ''Stop'' ''primary'',
     action_meta ActionApprove ''Approve'' ''primary'',
     action_meta ActionRereview ''Re-review'' ''quiet'',
     action_meta ActionReject ''Reject'' ''quiet'',
     action_meta ActionRetry ''Retry'' ''primary'',
     action_meta ActionAbandon ''Abandon'' ''quiet'',
     action_meta ActionArchive ''Archive'' ''quiet'',
     action_meta ActionMerge ''Merge'' ''primary'',
     action_meta ActionOpenPR ''Open PR'' ''link'',
     action_meta ActionOpenIssue ''Open issue'' ''link'']"

section \<open>Transition tables (transitions.go)\<close>

definition StepPending :: string where [lifecycle_simps]: "StepPending = ''pending''"
definition StepRunning :: string where [lifecycle_simps]: "StepRunning = ''running''"
definition StepSucceeded :: string where [lifecycle_simps]: "StepSucceeded = ''succeeded''"
definition StepFailed :: string where [lifecycle_simps]: "StepFailed = ''failed''"
definition StepCancelled :: string where [lifecycle_simps]: "StepCancelled = ''cancelled''"
definition StepInterrupted :: string where [lifecycle_simps]: "StepInterrupted = ''interrupted''"
definition StepSkipped :: string where [lifecycle_simps]: "StepSkipped = ''skipped''"

definition executionTransitions :: "(string list) gomap" where
  "executionTransitions =
    [(Queued, [Running, Declined]),
     (Running, [Queued, WaitingHuman, PROpen, Completed, Parked, Declined]),
     (WaitingHuman, [Queued, Declined]),
     (Parked, [Queued, Dead, Declined]),
     (PROpen, [Merged, Rejected, Queued, Declined]),
     (Merged, []), (Rejected, []), (Dead, []), (Declined, []), (Completed, [])]"

definition stepTransitions :: "(string list) gomap" where
  "stepTransitions =
    [(StepPending, [StepRunning, StepCancelled]),
     (StepRunning, [StepSucceeded, StepFailed, StepCancelled, StepInterrupted, StepSkipped]),
     (StepSucceeded, []), (StepFailed, []), (StepCancelled, []), (StepInterrupted, []),
     (StepSkipped, [])]"

text \<open>Indexing a Go map at a missing key gives the zero value, here the empty slice.\<close>

definition row_of :: "(string list) gomap \<Rightarrow> string \<Rightarrow> string list" where
  "row_of table k = (case map_of table k of Some row \<Rightarrow> row | None \<Rightarrow> [])"

definition CanTransition :: "string \<Rightarrow> string \<Rightarrow> bool" where
  "CanTransition from to \<longleftrightarrow> to \<in> set (row_of executionTransitions from)"

definition CanStepTransition :: "string \<Rightarrow> string \<Rightarrow> bool" where
  "CanStepTransition from to \<longleftrightarrow> to \<in> set (row_of stepTransitions from)"

definition StepTerminal :: "string \<Rightarrow> bool" where
  "StepTerminal status \<longleftrightarrow>
     status \<in> set [StepSucceeded, StepFailed, StepCancelled, StepInterrupted, StepSkipped]"

definition CheckStepStart :: "string \<Rightarrow> bool \<Rightarrow> lifecycle_error option" where
  "CheckStepStart executionStatus parentTerminal =
    (if executionStatus \<noteq> Running then Some (StepExecutionNotRunning executionStatus)
     else if parentTerminal then Some StepUnderTerminalParent
     else None)"

section \<open>Facts on the tables\<close>

definition known_status :: "string \<Rightarrow> bool" where
  "known_status s \<longleftrightarrow> s \<in> fst ` set executionTransitions"

definition known_step_status :: "string \<Rightarrow> bool" where
  "known_step_status s \<longleftrightarrow> s \<in> fst ` set stepTransitions"

lemmas exec_table = CanTransition_def row_of_def executionTransitions_def
lemmas step_table = CanStepTransition_def row_of_def stepTransitions_def

text \<open>The execution table as an explicit list of edges: the form the store proofs use.\<close>

lemma CanTransition_iff:
  "CanTransition f t \<longleftrightarrow>
     (f = Queued \<and> (t = Running \<or> t = Declined)) \<or>
     (f = Running \<and> (t = Queued \<or> t = WaitingHuman \<or> t = PROpen \<or> t = Completed \<or> t = Parked \<or> t = Declined)) \<or>
     (f = WaitingHuman \<and> (t = Queued \<or> t = Declined)) \<or>
     (f = Parked \<and> (t = Queued \<or> t = Dead \<or> t = Declined)) \<or>
     (f = PROpen \<and> (t = Merged \<or> t = Rejected \<or> t = Queued \<or> t = Declined))"
  by (simp add: exec_table lifecycle_simps)

lemma CanStepTransition_iff:
  "CanStepTransition f t \<longleftrightarrow>
     (f = StepPending \<and> (t = StepRunning \<or> t = StepCancelled)) \<or>
     (f = StepRunning \<and> (t = StepSucceeded \<or> t = StepFailed \<or> t = StepCancelled
                          \<or> t = StepInterrupted \<or> t = StepSkipped))"
  by (simp add: step_table lifecycle_simps)

lemma known_status_iff:
  "known_status s \<longleftrightarrow> s \<in> {Queued, Running, WaitingHuman, Parked, PROpen, Merged, Rejected, Dead, Declined, Completed}"
  by (simp add: known_status_def executionTransitions_def)

lemma known_step_status_iff:
  "known_step_status s \<longleftrightarrow> s = StepPending \<or> s = StepRunning \<or> StepTerminal s"
  by (auto simp: known_step_status_def stepTransitions_def StepTerminal_def)

lemma CanTransition_known: "CanTransition f t \<Longrightarrow> known_status f \<and> known_status t"
  by (auto simp: CanTransition_iff known_status_iff)

lemma Terminal_no_transition: "Terminal s \<Longrightarrow> \<not> CanTransition s t"
  by (auto simp: Terminal_def CanTransition_iff lifecycle_simps)

lemma StepTerminal_no_transition: "StepTerminal s \<Longrightarrow> \<not> CanStepTransition s t"
  by (auto simp: StepTerminal_def CanStepTransition_iff lifecycle_simps)

lemma CanStepTransition_Terminal: "CanStepTransition s t \<Longrightarrow> StepTerminal t \<or> t = StepRunning \<and> s = StepPending"
  by (auto simp: StepTerminal_def CanStepTransition_iff)

text \<open>The lifecycle as a step relation and what it reaches from a freshly queued task.\<close>

inductive exec_step :: "string \<Rightarrow> string \<Rightarrow> bool" where
  move: "CanTransition s t \<Longrightarrow> exec_step s t"

inductive reachable_status :: "string \<Rightarrow> bool" where
  enqueued: "reachable_status Queued"
| moved: "reachable_status s \<Longrightarrow> exec_step s t \<Longrightarrow> reachable_status t"

inductive_cases exec_stepE: "exec_step s t"

lemma reachable_status_move: "reachable_status s \<Longrightarrow> CanTransition s t \<Longrightarrow> reachable_status t"
  by (blast intro: moved move)

lemma reachable_statusI:
  "reachable_status Running" "reachable_status WaitingHuman" "reachable_status PROpen"
  "reachable_status Completed" "reachable_status Parked" "reachable_status Declined"
  "reachable_status Dead" "reachable_status Merged" "reachable_status Rejected"
proof -
  note m = reachable_status_move
  show run: "reachable_status Running"
    by (rule m [OF enqueued]) (simp add: CanTransition_iff)
  show "reachable_status WaitingHuman" "reachable_status Completed" "reachable_status Declined"
    by (rule m [OF run]; simp add: CanTransition_iff)+
  show pr: "reachable_status PROpen" and pk: "reachable_status Parked"
    by (rule m [OF run]; simp add: CanTransition_iff)+
  show "reachable_status Dead"
    by (rule m [OF pk]) (simp add: CanTransition_iff)
  show "reachable_status Merged" "reachable_status Rejected"
    by (rule m [OF pr]; simp add: CanTransition_iff)+
qed

lemma reachable_status_known: "reachable_status s \<Longrightarrow> known_status s"
proof (induction rule: reachable_status.induct)
  case enqueued
  show ?case by (simp add: known_status_iff)
next
  case (moved s t)
  then show ?case by (blast elim: exec_stepE dest: CanTransition_known)
qed

section \<open>Properties\<close>

text \<open>Every operator action the table offers in a status is a legal move of the lifecycle: the
  status the action moves a task to is one the transition table routes from there, and an
  action that changes no status (archive and the forge links) is offered with no target.\<close>

theorem actions_are_legal_moves:
  "\<forall>a \<in> set (Actions s). case ActionTarget a of
      Some t \<Rightarrow> CanTransition s t
    | None \<Rightarrow> a \<in> {ActionArchive, ActionOpenPR, ActionOpenIssue}"
  by (simp add: Actions_def ActionTarget_def CanTransition_iff lifecycle_simps)

theorem actions_are_legal_moves_witness:
  "ActionStop \<in> set (Actions Running) \<and> ActionTarget ActionStop = Some Parked \<and> CanTransition Running Parked"
proof -
  have a: "ActionStop \<in> set (Actions Running)"
    by (simp add: Actions_def lifecycle_simps)
  have t: "ActionTarget ActionStop = Some Parked"
    by (simp add: ActionTarget_def lifecycle_simps)
  show ?thesis using a t actions_are_legal_moves [of Running, rule_format, OF a] by simp
qed

text \<open>The statuses a task can be in are exactly those of the table, every one of them is
  reached from queued, a status is terminal exactly when the table routes nothing out of it, and
  from every other status a task can always be declined.\<close>

theorem lifecycle_reachability:
  "(reachable_status s \<longleftrightarrow> known_status s)
   \<and> (known_status s \<longrightarrow> (Terminal s \<longleftrightarrow> (\<forall>t. \<not> CanTransition s t)))
   \<and> (known_status s \<longrightarrow> \<not> Terminal s \<longrightarrow> CanTransition s Declined)"
proof (intro conjI impI)
  show "reachable_status s \<longleftrightarrow> known_status s"
    using reachable_statusI enqueued reachable_status_known by (auto simp: known_status_iff)
  show out: "CanTransition s Declined" if "known_status s" "\<not> Terminal s"
    using that by (auto simp: known_status_iff Terminal_def CanTransition_iff)
  show "Terminal s \<longleftrightarrow> (\<forall>t. \<not> CanTransition s t)" if "known_status s"
    using that out Terminal_no_transition by blast
qed

theorem lifecycle_reachability_witness:
  "known_status Parked \<and> \<not> Terminal Parked \<and> CanTransition Parked Declined \<and> reachable_status Parked"
proof -
  have "known_status Parked" "\<not> Terminal Parked"
    by (simp_all add: known_status_iff Terminal_def lifecycle_simps)
  then show ?thesis using lifecycle_reachability [of Parked] by simp
qed

text \<open>Declining is allowed exactly for the known statuses that are not terminal, whichever of
  the four operator controls is offered there.\<close>

theorem CheckDecline_iff: "CheckDecline s = None \<longleftrightarrow> known_status s \<and> \<not> Terminal s"
  by (auto simp: CheckDecline_def Actions_def known_status_iff Terminal_def lifecycle_simps)

fun step_chain :: "string \<Rightarrow> string list \<Rightarrow> bool" where
  "step_chain s [] \<longleftrightarrow> True"
| "step_chain s (t # ts) \<longleftrightarrow> CanStepTransition s t \<and> step_chain t ts"

text \<open>A step's status changes at most twice: a chain of legal step moves from any status has
  at most two moves, and the only second move is out of running into a terminal status.\<close>

theorem step_moves_at_most_twice:
  "step_chain s ts \<Longrightarrow> length ts \<le> 2 \<and> (ts \<noteq> [] \<longrightarrow> StepTerminal (last ts) \<or> ts = [StepRunning])"
proof (induction s ts rule: step_chain.induct)
  case (2 s t ts)
  then have st: "CanStepTransition s t" and ch: "step_chain t ts" by simp_all
  show ?case
  proof (cases "StepTerminal t")
    case True
    with ch have "ts = []" by (cases ts) (auto dest: StepTerminal_no_transition)
    with True show ?thesis by simp
  next
    case False
    with st have t: "t = StepRunning" by (auto dest: CanStepTransition_Terminal)
    show ?thesis
    proof (cases ts)
      case (Cons u us)
      with ch t have u: "StepTerminal u"
        by (auto dest!: CanStepTransition_Terminal simp: lifecycle_simps)
      with ch Cons have "us = []" by (cases us) (auto dest: StepTerminal_no_transition)
      with u Cons show ?thesis by simp
    qed (simp add: t)
  qed
qed simp

theorem step_moves_at_most_twice_witness:
  "step_chain StepPending [StepRunning, StepFailed] \<and> StepTerminal (last [StepRunning, StepFailed])"
proof -
  have c: "step_chain StepPending [StepRunning, StepFailed]"
    by (simp add: CanStepTransition_iff)
  show ?thesis using c step_moves_at_most_twice [OF c] by simp
qed

text \<open>The presentation catalogs and the tables name the same vocabulary: the status catalog
  lists each status of the transition table once, the action catalog lists each action some
  status offers once, and the retry catalog lists exactly the modes that resolve, with the
  default being the mode the empty string means.\<close>

theorem catalogs_match_tables:
  "distinct (map sm_id Statuses) \<and> set (map sm_id Statuses) = {s. known_status s}
   \<and> distinct (map am_id ActionCatalog) \<and> set (map am_id ActionCatalog) = (\<Union>s. set (Actions s))
   \<and> set (map rm_id RetryModes) = {m. \<exists>x. ResolveRetryMode x = Some m}
   \<and> map rm_id (filter rm_default RetryModes) = [the (ResolveRetryMode [])]"
proof (intro conjI)
  show "set (map sm_id Statuses) = {s. known_status s}"
    by (auto simp: Statuses_def status_meta_def known_status_iff)
  show "set (map am_id ActionCatalog) = (\<Union>s. set (Actions s))"
  proof
    have eqs: "set (Actions Queued) = {ActionCancel, ActionReject}"
      "set (Actions Running) = {ActionStop, ActionReject}"
      "set (Actions WaitingHuman) = {ActionApprove, ActionReject, ActionRereview}"
      "set (Actions Parked) = {ActionRetry, ActionAbandon, ActionReject}"
      "set (Actions PROpen) = {ActionMerge, ActionOpenPR, ActionOpenIssue, ActionReject}"
      "set (Actions Dead) = {ActionArchive}"
      by (simp_all add: Actions_def lifecycle_simps)
    have "set (map am_id ActionCatalog) =
        \<Union> (set ` Actions ` {Queued, Running, WaitingHuman, Parked, PROpen, Dead})"
      by (auto simp: ActionCatalog_def action_meta_def eqs)
    then show "set (map am_id ActionCatalog) \<subseteq> (\<Union>s. set (Actions s))" by blast
    show "(\<Union>s. set (Actions s)) \<subseteq> set (map am_id ActionCatalog)"
      by (auto simp: Actions_def ActionCatalog_def action_meta_def split: if_splits)
  qed
  have "ResolveRetryMode RetryRefreshOntoBase = Some RetryRefreshOntoBase"
    "ResolveRetryMode RetryContinuePushedWork = Some RetryContinuePushedWork"
    by (simp_all add: ResolveRetryMode_def lifecycle_simps)
  moreover have "ResolveRetryMode x = Some m \<Longrightarrow> m = RetryRefreshOntoBase \<or> m = RetryContinuePushedWork" for x m
    by (simp add: ResolveRetryMode_def split: if_splits)
  ultimately show "set (map rm_id RetryModes) = {m. \<exists>x. ResolveRetryMode x = Some m}"
    unfolding RetryModes_def by (simp, blast)
qed (simp_all add: Statuses_def ActionCatalog_def RetryModes_def ResolveRetryMode_def lifecycle_simps)

text \<open>Normalisation agrees with validation and never invents a value: a mode that validates
  normalises to itself, and a park class is stored as one of the three known ones.\<close>

lemma ResolveRetryMode_normal: "ResolveRetryMode m = Some r \<Longrightarrow> NormalizeRetryMode m = r"
  by (auto simp: ResolveRetryMode_def NormalizeRetryMode_def lifecycle_simps split: if_splits)

lemma NormalizeRetryMode_resolves: "ResolveRetryMode (NormalizeRetryMode m) = Some (NormalizeRetryMode m)"
  by (simp add: ResolveRetryMode_def NormalizeRetryMode_def lifecycle_simps)

lemma NormalizeParkClass_range:
  "NormalizeParkClass c \<in> {ParkNeedsHuman, ParkTransient, ParkTerminal}"
  "NormalizeParkClass (NormalizeParkClass c) = NormalizeParkClass c"
  by (simp_all add: NormalizeParkClass_def)

end
