(* ===== verification/Review_Gate.thy ===== *)
theory Review_Gate
  imports Go_Prelude Task_State
begin

text \<open>
  The operator-approval gate of a review (\<open>domain/workflow/task/review_gate.go\<close>): the document an
  operator answers, which findings an approval posts, and the keys a selection may name
  (\<open>selectedFindingKeys\<close> of \<open>domain/taskactions/service.go\<close>). A slice that may be nil is an option;
  \<open>marshal\<close> and \<open>unmarshal\<close> stand for \<open>encoding/json\<close> at the document's type.
\<close>

record ReviewGateFinding =
  gf_key :: string
  gf_finding :: string

record ReviewGate =
  rg_findings :: "ReviewGateFinding list option"
  rg_head :: string
  rg_owner :: string
  rg_repo :: string
  rg_pr :: int
  rg_workflow :: string
  rg_outcome :: string
  rg_selection :: "string list option"
  rg_instructions :: string

definition GateApprove :: string where "GateApprove = ActionApprove"
definition GateRereview :: string where "GateRereview = ActionRereview"
definition MaxRereviewRounds :: int where "MaxRereviewRounds = 2"

definition Approved :: "ReviewGate \<Rightarrow> bool" where
  "Approved g \<longleftrightarrow> rg_outcome g = GateApprove"

definition Offered :: "ReviewGate \<Rightarrow> bool" where
  "Offered g \<longleftrightarrow> slice (rg_findings g) \<noteq> []"

definition OfferedKeys :: "ReviewGate \<Rightarrow> string list" where
  "OfferedKeys g = map gf_key (slice (rg_findings g))"

definition Posted :: "ReviewGate \<Rightarrow> ReviewGateFinding list" where
  "Posted g =
    (if \<not> Approved g then []
     else if slice (rg_selection g) = [] then slice (rg_findings g)
     else filter (\<lambda>f. gf_key f \<in> set (slice (rg_selection g))) (slice (rg_findings g)))"

definition gateIsZero :: "ReviewGate \<Rightarrow> bool" where
  "gateIsZero g \<longleftrightarrow> rg_outcome g = [] \<and> rg_instructions g = [] \<and> rg_selection g = None
     \<and> rg_head g = [] \<and> rg_owner g = [] \<and> rg_repo g = [] \<and> rg_pr g = 0
     \<and> rg_workflow g = [] \<and> rg_findings g = None"

definition EncodeReviewGate :: "(ReviewGate \<Rightarrow> string option) \<Rightarrow> ReviewGate \<Rightarrow> string" where
  "EncodeReviewGate marshal g =
    (if gateIsZero g then [] else (case marshal g of None \<Rightarrow> [] | Some data \<Rightarrow> data))"

definition DecodeReviewGate :: "(string \<Rightarrow> ReviewGate option) \<Rightarrow> string \<Rightarrow> ReviewGate option" where
  "DecodeReviewGate unmarshal stored = (if stored = [] then None else unmarshal stored)"

text \<open>The keys an approval selects: all offered ones by default, else the requested ones, of which
  the first that was not offered is refused.\<close>

definition selectedFindingKeys :: "ReviewGate \<Rightarrow> string list \<Rightarrow> string + string list" where
  "selectedFindingKeys g requested =
    (if requested = [] then Inr (OfferedKeys g)
     else (case find (\<lambda>k. k \<notin> set (OfferedKeys g)) requested of
         Some k \<Rightarrow> Inl k
       | None \<Rightarrow> Inr requested))"

text \<open>The document an approval writes back.\<close>

definition approved_gate :: "ReviewGate \<Rightarrow> string list \<Rightarrow> ReviewGate" where
  "approved_gate g selection =
     g\<lparr>rg_outcome := GateApprove, rg_selection := Some selection, rg_instructions := []\<rparr>"

definition rereview_gate :: "ReviewGate \<Rightarrow> string \<Rightarrow> ReviewGate" where
  "rereview_gate g instructions =
     g\<lparr>rg_outcome := GateRereview, rg_instructions := trim_space instructions,
       rg_findings := None, rg_selection := None\<rparr>"

section \<open>Facts\<close>

lemma selectedFindingKeys_subset:
  "selectedFindingKeys g requested = Inr sel \<Longrightarrow> set sel \<subseteq> set (OfferedKeys g)"
  by (auto simp: selectedFindingKeys_def find_None_iff split: if_splits option.splits)

lemma selectedFindingKeys_nonempty:
  "selectedFindingKeys g requested = Inr sel \<Longrightarrow> Offered g \<Longrightarrow> sel \<noteq> []"
  by (auto simp: selectedFindingKeys_def Offered_def OfferedKeys_def split: if_splits option.splits)

lemma Posted_approved:
  assumes "selectedFindingKeys g requested = Inr sel" and "Offered g"
  shows "Posted (approved_gate g sel)
    = filter (\<lambda>f. requested = [] \<or> gf_key f \<in> set requested) (slice (rg_findings g))"
proof -
  have ne: "sel \<noteq> []" using assms by (rule selectedFindingKeys_nonempty)
  have "filter (\<lambda>f. gf_key f \<in> set sel) (slice (rg_findings g))
      = filter (\<lambda>f. requested = [] \<or> gf_key f \<in> set requested) (slice (rg_findings g))"
    using assms(1)
    by (auto simp: selectedFindingKeys_def OfferedKeys_def split: if_splits option.splits intro!: filter_cong)
  with ne show ?thesis by (simp add: Posted_def approved_gate_def Approved_def)
qed

lemma EncodeReviewGate_round:
  assumes "marshal g = Some s" and "s \<noteq> []" and "unmarshal s = Some g" and "\<not> gateIsZero g"
  shows "DecodeReviewGate unmarshal (EncodeReviewGate marshal g) = Some g"
  using assms by (simp add: EncodeReviewGate_def DecodeReviewGate_def)

end
