(* ===== verification/Task_Rows.thy ===== *)
theory Task_Rows
  imports Task_State
begin

text \<open>
  The rows of the State Store database and the statements the store runs on them
  (\<open>internal/infrastructure/postgres/postgresdb\<close>). A table is the list of its rows; an UPDATE is
  \<open>update_tasks\<close> or \<open>update_steps\<close> with the WHERE clause as a predicate, and its row count is the
  number of rows the clause selects. Timestamps (\<open>updated_at\<close>, \<open>started_at\<close>, \<open>finished_at\<close>) and
  the workspace columns, which no modelled operation reads, are left out; integer columns are
  \<^typ>\<open>int\<close>. JSON columns hold the text (\<open>inputs\<close>, \<open>outputs\<close>, \<open>review_gate\<close>, \<open>resume_results\<close>), and
  \<open>pending_reviews\<close>, a JSON array of texts, is the list of them.
\<close>

section \<open>Clipping (clip.go)\<close>

text \<open>\<open>clip\<close> walks the string rune by rune and stops before the rune that would pass the bound.\<close>

function clip_pos :: "string \<Rightarrow> nat \<Rightarrow> nat \<Rightarrow> nat" where
  "clip_pos s n pos =
    (if pos < length s
     then (let size = rune_size (drop pos s) in
           if pos + size > n then pos else clip_pos s n (pos + size))
     else pos)"
  by pat_completeness auto
termination
proof (relation "measure (\<lambda>(s, n, pos). length s - pos)")
  fix s :: string and n pos x :: nat
  assume a: "pos < length s" and x: "x = rune_size (drop pos s)"
  then have "0 < x" using rune_size_bounds(1) [of "drop pos s"] by simp
  with a show "((s, n, pos + x), (s, n, pos)) \<in> measure (\<lambda>(s, n, pos). length s - pos)"
    by simp
qed simp

declare clip_pos.simps [simp del]

definition clip :: "string \<Rightarrow> nat \<Rightarrow> string" where
  "clip s n = (if length s \<le> n then s else take (clip_pos s n 0) s)"

section \<open>Rows\<close>

record task_row =
  t_id :: int
  t_owner :: string
  t_repo :: string
  t_issue :: int
  t_title :: string
  t_body :: string
  t_labels :: string
  t_status :: string
  t_workflow :: string
  t_def_version :: int
  t_def_digest :: string
  t_def_yaml :: string
  t_branch :: string
  t_plan :: string
  t_notes :: string
  t_pr :: int
  t_tokens :: int
  t_iterations :: int
  t_attempt :: int
  t_park_reason :: string
  t_park_class :: string
  t_retry_count :: int
  t_retry_mode :: string
  t_resume_from :: string
  t_resume_results :: string
  t_watch_comment :: int
  t_review_cursor :: int
  t_source :: string
  t_identity :: string
  t_org :: string
  t_binding :: string
  t_binding_version :: int
  t_inputs :: string
  t_outputs :: string
  t_review_payload :: string
  t_pending_reviews :: "string list"
  t_review_gate :: string
  t_rereview_rounds :: int
  t_remediation_rounds :: int
  t_call_parent :: int
  t_call_depth :: int
  t_call_key :: string
  t_origin :: string
  t_outcome_posted :: bool

text \<open>A row as INSERT leaves it: the column defaults of the migrations.\<close>

definition default_row :: task_row where
  "default_row = \<lparr>t_id = 0, t_owner = [], t_repo = [], t_issue = 0, t_title = [], t_body = [],
     t_labels = [], t_status = Queued, t_workflow = [], t_def_version = 0, t_def_digest = [],
     t_def_yaml = [], t_branch = [], t_plan = [], t_notes = [], t_pr = 0, t_tokens = 0,
     t_iterations = 0, t_attempt = 0, t_park_reason = [], t_park_class = ParkNeedsHuman,
     t_retry_count = 0, t_retry_mode = [], t_resume_from = [], t_resume_results = ''{}'',
     t_watch_comment = 0, t_review_cursor = 0, t_source = ''forge'', t_identity = [],
     t_org = ''org-sys'', t_binding = [], t_binding_version = 0, t_inputs = [], t_outputs = [],
     t_review_payload = [], t_pending_reviews = [], t_review_gate = [], t_rereview_rounds = 0,
     t_remediation_rounds = 0, t_call_parent = 0, t_call_depth = 0, t_call_key = [],
     t_origin = [], t_outcome_posted = False\<rparr>"

record step_row =
  s_id :: int
  s_org :: string
  s_execution :: int
  s_attempt :: int
  s_parent :: int
  s_depth :: int
  s_kind :: string
  s_name :: string
  s_called :: int
  s_status :: string
  s_detail :: string
  s_tokens :: int
  s_results :: "string option"

record transition_row =
  r_task :: int
  r_from :: string
  r_to :: string
  r_detail :: string
  r_org :: string

datatype event_value = EvInt int | EvBool bool | EvText string

record event =
  e_id :: int
  e_kind :: string
  e_task :: int
  e_repo :: string
  e_issue :: int
  e_workflow :: string
  e_stage :: string
  e_attempt :: int
  e_actor :: string
  e_actor_kind :: string
  e_principal :: string
  e_detail :: string
  e_data :: "event_value gomap"

definition no_event :: event where
  "no_event = \<lparr>e_id = 0, e_kind = [], e_task = 0, e_repo = [], e_issue = 0, e_workflow = [],
     e_stage = [], e_attempt = 0, e_actor = [], e_actor_kind = [], e_principal = [], e_detail = [],
     e_data = []\<rparr>"

text \<open>The database. \<open>db_agents\<close> and \<open>db_members\<close> are the identity to org assignments the task
  inserts read, \<open>db_members\<close> in the order of the query; the counters are the identity columns.\<close>

record db =
  tasks :: "task_row list"
  steps :: "step_row list"
  transitions :: "transition_row list"
  db_events :: "event list"
  next_task :: int
  next_step :: int
  next_event :: int
  db_agents :: "string gomap"
  db_members :: "string gomap"

definition empty_db :: db where
  "empty_db = \<lparr>tasks = [], steps = [], transitions = [], db_events = [], next_task = 1,
     next_step = 1, next_event = 1, db_agents = [], db_members = []\<rparr>"

definition task_by_id :: "db \<Rightarrow> int \<Rightarrow> task_row option" where
  "task_by_id d i = find (\<lambda>r. t_id r = i) (tasks d)"

definition step_by_id :: "db \<Rightarrow> int \<Rightarrow> step_row option" where
  "step_by_id d i = find (\<lambda>r. s_id r = i) (steps d)"

definition update_tasks :: "(task_row \<Rightarrow> bool) \<Rightarrow> (task_row \<Rightarrow> task_row) \<Rightarrow> db \<Rightarrow> db" where
  "update_tasks P f d = d\<lparr>tasks := map (\<lambda>r. if P r then f r else r) (tasks d)\<rparr>"

definition update_steps :: "(step_row \<Rightarrow> bool) \<Rightarrow> (step_row \<Rightarrow> step_row) \<Rightarrow> db \<Rightarrow> db" where
  "update_steps P f d = d\<lparr>steps := map (\<lambda>r. if P r then f r else r) (steps d)\<rparr>"

definition matches :: "('r \<Rightarrow> bool) \<Rightarrow> 'r list \<Rightarrow> nat" where
  "matches P rs = length (filter P rs)"

section \<open>Task statements (tasks.sql.go)\<close>

definition owner_org :: "db \<Rightarrow> string \<Rightarrow> string" where
  "owner_org d who = (case map_of (db_agents d) who of
       Some g \<Rightarrow> g
     | None \<Rightarrow> (case map_of (db_members d) who of Some g \<Rightarrow> g | None \<Rightarrow> ''org-sys''))"

definition in_scope :: "string option \<Rightarrow> task_row \<Rightarrow> bool" where
  "in_scope scope r \<longleftrightarrow> (case scope of None \<Rightarrow> True | Some g \<Rightarrow> t_org r = g)"

definition append_task :: "task_row \<Rightarrow> db \<Rightarrow> db" where
  "append_task r d = d\<lparr>tasks := tasks d @ [r\<lparr>t_id := next_task d\<rparr>], next_task := next_task d + 1\<rparr>"

text \<open>The unique constraint on (org, identity, owner, repo, issue number).\<close>

definition same_issue_key :: "task_row \<Rightarrow> task_row \<Rightarrow> bool" where
  "same_issue_key a b \<longleftrightarrow> t_org a = t_org b \<and> t_identity a = t_identity b \<and> t_owner a = t_owner b
     \<and> t_repo a = t_repo b \<and> t_issue a = t_issue b"

definition next_chat_issue :: "db \<Rightarrow> string \<Rightarrow> string \<Rightarrow> int \<Rightarrow> int" where
  "next_chat_issue d ow rp fallback =
    (let ns = map t_issue (filter (\<lambda>r. t_owner r = ow \<and> t_repo r = rp \<and> t_source r = ''chat'') (tasks d))
     in (case ns of [] \<Rightarrow> fallback | n # ms \<Rightarrow> fold max ms n) + 1)"

definition claim_row :: "task_row \<Rightarrow> task_row" where
  "claim_row r = r\<lparr>t_status := ''running'', t_attempt := t_attempt r + 1, t_outputs := []\<rparr>"

definition q_ClaimNextTask :: "db \<Rightarrow> task_row option \<times> db" where
  "q_ClaimNextTask d =
    (case sort (map t_id (filter (\<lambda>r. t_status r = ''queued'') (tasks d))) of
       [] \<Rightarrow> (None, d)
     | i # _ \<Rightarrow> (let d' = update_tasks (\<lambda>r. t_id r = i) claim_row d in (task_by_id d' i, d')))"

definition claims_issue :: "string \<Rightarrow> string \<Rightarrow> int \<Rightarrow> task_row \<Rightarrow> bool" where
  "claims_issue ow rp n r \<longleftrightarrow> t_owner r = ow \<and> t_repo r = rp \<and> t_issue r = n \<and> t_status r = ''queued''"

text \<open>The UPDATE claims every row its WHERE clause selects; \<open>:one\<close> reads the first of them.\<close>

definition q_ClaimByIssue :: "string \<Rightarrow> string \<Rightarrow> int \<Rightarrow> db \<Rightarrow> task_row option \<times> db" where
  "q_ClaimByIssue ow rp n d =
    (map_option claim_row (find (claims_issue ow rp n) (tasks d)),
     update_tasks (claims_issue ow rp n) claim_row d)"

definition q_TransitionTask :: "int \<Rightarrow> string \<Rightarrow> string \<Rightarrow> string \<Rightarrow> string \<Rightarrow> db \<Rightarrow> nat \<times> db" where
  "q_TransitionTask i to reason cls from d =
    (let P = (\<lambda>r. t_id r = i \<and> t_status r = from);
         f = (\<lambda>r. r\<lparr>t_status := to,
                t_park_reason := (if to = ''parked'' then reason else t_park_reason r),
                t_park_class := (if to = ''parked'' then cls else t_park_class r)\<rparr>)
     in (matches P (tasks d), update_tasks P f d))"

definition q_ParkTask :: "int \<Rightarrow> string \<Rightarrow> string \<Rightarrow> string \<Rightarrow> db \<Rightarrow> nat \<times> db" where
  "q_ParkTask i reason cls from d =
    (let P = (\<lambda>r. t_id r = i \<and> t_status r = from);
         f = (\<lambda>r. r\<lparr>t_status := ''parked'', t_park_reason := reason, t_park_class := cls\<rparr>)
     in (matches P (tasks d), update_tasks P f d))"

definition q_InsertTransition :: "int \<Rightarrow> string \<Rightarrow> string \<Rightarrow> string \<Rightarrow> db \<Rightarrow> db" where
  "q_InsertTransition i from to detail d =
    d\<lparr>transitions := transitions d @
        map (\<lambda>r. \<lparr>r_task = t_id r, r_from = from, r_to = to, r_detail = detail, r_org = t_org r\<rparr>)
          (filter (\<lambda>r. t_id r = i) (tasks d))\<rparr>"

definition q_BeginRemediationTask :: "int \<Rightarrow> string \<Rightarrow> db \<Rightarrow> nat \<times> db" where
  "q_BeginRemediationTask i payload d =
    (let P = (\<lambda>r. t_id r = i \<and> t_status r = ''pr_open'');
         f = (\<lambda>r. r\<lparr>t_status := ''queued'', t_workflow := ''remediate'', t_park_reason := [],
                t_park_class := ''needs_human'', t_review_payload := payload,
                t_retry_mode := ''continue_pushed_work'', t_resume_from := [], t_resume_results := ''{}''\<rparr>)
     in (matches P (tasks d), update_tasks P f d))"

definition q_AppendPendingReview :: "int \<Rightarrow> string \<Rightarrow> db \<Rightarrow> nat \<times> db" where
  "q_AppendPendingReview i payload d =
    (let P = (\<lambda>r. t_id r = i \<and> t_status r \<in> set [''queued'', ''running''] \<and> t_workflow r = ''remediate'');
         f = (\<lambda>r. r\<lparr>t_pending_reviews :=
                (if t_review_payload r = payload then t_pending_reviews r
                 else if payload \<in> set (t_pending_reviews r) then t_pending_reviews r
                 else t_pending_reviews r @ [payload])\<rparr>)
     in (matches P (tasks d), update_tasks P f d))"

definition q_PromotePendingReview :: "int \<Rightarrow> db \<Rightarrow> nat \<times> db" where
  "q_PromotePendingReview i d =
    (let P = (\<lambda>r. t_id r = i \<and> t_status r = ''pr_open'' \<and> t_workflow r = ''remediate''
                \<and> t_pending_reviews r \<noteq> []);
         f = (\<lambda>r. r\<lparr>t_status := ''queued'', t_workflow := ''remediate'', t_park_reason := [],
                t_park_class := ''needs_human'',
                t_review_payload := hd (t_pending_reviews r), t_pending_reviews := tl (t_pending_reviews r),
                t_retry_mode := ''continue_pushed_work'', t_resume_from := [], t_resume_results := ''{}''\<rparr>)
     in (matches P (tasks d), update_tasks P f d))"

definition q_SetReviewCursors :: "int \<Rightarrow> int \<Rightarrow> int \<Rightarrow> db \<Rightarrow> nat \<times> db" where
  "q_SetReviewCursors i reviewCursor commentCursor d =
    (let P = (\<lambda>r. t_id r = i \<and> t_status r = ''pr_open'');
         f = (\<lambda>r. r\<lparr>t_review_cursor := reviewCursor, t_watch_comment := commentCursor\<rparr>)
     in (matches P (tasks d), update_tasks P f d))"

definition keep_or :: "string \<Rightarrow> string \<Rightarrow> string" where
  "keep_or new old = (if new = [] then old else new)"

definition q_RequeueTask :: "int \<Rightarrow> string \<Rightarrow> string \<Rightarrow> db \<Rightarrow> nat \<times> db" where
  "q_RequeueTask i wfl from d =
    (let P = (\<lambda>r. t_id r = i \<and> t_status r = from);
         f = (\<lambda>r. r\<lparr>t_status := ''queued'', t_workflow := keep_or wfl (t_workflow r),
                t_park_reason := [], t_park_class := ''needs_human''\<rparr>)
     in (matches P (tasks d), update_tasks P f d))"

definition q_RetryTask :: "int \<Rightarrow> string \<Rightarrow> string \<Rightarrow> string \<Rightarrow> string \<Rightarrow> string \<Rightarrow> db \<Rightarrow> nat \<times> db" where
  "q_RetryTask i wfl from mode resumeFrom results d =
    (let P = (\<lambda>r. t_id r = i \<and> t_status r = from);
         f = (\<lambda>r. r\<lparr>t_status := ''queued'', t_retry_count := t_retry_count r + 1,
                t_workflow := keep_or wfl (t_workflow r), t_retry_mode := mode,
                t_resume_from := resumeFrom, t_resume_results := results,
                t_park_reason := [], t_park_class := ''needs_human''\<rparr>)
     in (matches P (tasks d), update_tasks P f d))"

definition q_RespondReviewGateTask :: "int \<Rightarrow> string \<Rightarrow> string \<Rightarrow> bool \<Rightarrow> int \<Rightarrow> db \<Rightarrow> nat \<times> db" where
  "q_RespondReviewGateTask i from gate rereview cap d =
    (let P = (\<lambda>r. t_id r = i \<and> t_status r = from \<and> (\<not> rereview \<or> t_rereview_rounds r < cap));
         f = (\<lambda>r. r\<lparr>t_status := ''queued'', t_review_gate := gate,
                t_rereview_rounds := t_rereview_rounds r + (if rereview then 1 else 0),
                t_park_reason := [], t_park_class := ''needs_human''\<rparr>)
     in (matches P (tasks d), update_tasks P f d))"

definition delete_tasks :: "(task_row \<Rightarrow> bool) \<Rightarrow> db \<Rightarrow> nat \<times> db" where
  "delete_tasks P d = (matches P (tasks d), d\<lparr>tasks := filter (\<lambda>r. \<not> P r) (tasks d)\<rparr>)"

definition q_ArchiveTaskDelete :: "int \<Rightarrow> string \<Rightarrow> db \<Rightarrow> nat \<times> db" where
  "q_ArchiveTaskDelete i st d = delete_tasks (\<lambda>r. t_id r = i \<and> t_status r = st) d"

definition q_ClearTerminalTasks :: "string option \<Rightarrow> db \<Rightarrow> nat \<times> db" where
  "q_ClearTerminalTasks scope d = delete_tasks (\<lambda>r.
     t_status r \<in> set [''merged'', ''rejected'', ''dead'', ''closed_wont_do'', ''completed'']
     \<and> in_scope scope r) d"

definition q_RecoverStaleTasks :: "db \<Rightarrow> nat \<times> db" where
  "q_RecoverStaleTasks d =
    (matches (\<lambda>r. t_status r = ''running'') (tasks d),
     update_tasks (\<lambda>r. t_status r = ''running'') (\<lambda>r. r\<lparr>t_status := ''queued''\<rparr>) d)"

text \<open>The columns a workflow run writes back; an empty definition keeps the stored pin.\<close>

definition updated_row :: "task_row \<Rightarrow> task_row \<Rightarrow> task_row" where
  "updated_row t r =
    (let keep = (t_def_yaml t = []) in
     r\<lparr>t_workflow := t_workflow t, t_branch := t_branch t, t_plan := t_plan t, t_notes := t_notes t,
       t_pr := t_pr t, t_tokens := t_tokens t, t_iterations := t_iterations t,
       t_park_reason := t_park_reason t, t_watch_comment := t_watch_comment t,
       t_retry_count := t_retry_count t, t_remediation_rounds := t_remediation_rounds t,
       t_review_payload := t_review_payload t,
       t_def_version := (if keep then t_def_version r else t_def_version t),
       t_def_digest := (if keep then t_def_digest r else t_def_digest t),
       t_def_yaml := (if keep then t_def_yaml r else t_def_yaml t),
       t_outputs := t_outputs t, t_review_gate := t_review_gate t,
       t_rereview_rounds := t_rereview_rounds t, t_retry_mode := t_retry_mode t\<rparr>)"

definition q_UpdateTask :: "task_row \<Rightarrow> db \<Rightarrow> db" where
  "q_UpdateTask t d = update_tasks (\<lambda>r. t_id r = t_id t) (updated_row t) d"

section \<open>Step and event statements (steps.sql.go, events.sql.go)\<close>

definition open_step :: "step_row \<Rightarrow> bool" where
  "open_step r \<longleftrightarrow> s_status r \<in> set [''pending'', ''running'']"

definition attempt_open :: "int \<Rightarrow> int \<Rightarrow> step_row \<Rightarrow> bool" where
  "attempt_open ex att r \<longleftrightarrow> s_execution r = ex \<and> s_attempt r = att \<and> open_step r"

definition q_CancelAttemptSteps :: "int \<Rightarrow> int \<Rightarrow> db \<Rightarrow> step_row list \<times> db" where
  "q_CancelAttemptSteps ex att d =
    (filter (attempt_open ex att) (steps d),
     update_steps (attempt_open ex att) (\<lambda>r. r\<lparr>s_status := ''cancelled''\<rparr>) d)"

definition q_InterruptAttemptSteps :: "int \<Rightarrow> int \<Rightarrow> db \<Rightarrow> step_row list \<times> db" where
  "q_InterruptAttemptSteps ex att d =
    (let P = (\<lambda>r. s_execution r = ex \<and> s_attempt r = att \<and> s_status r = ''running'')
     in (filter P (steps d), update_steps P (\<lambda>r. r\<lparr>s_status := ''interrupted''\<rparr>) d))"

definition q_WaitingCallSteps :: "int \<Rightarrow> int \<Rightarrow> db \<Rightarrow> int list" where
  "q_WaitingCallSteps ex att d =
    map s_called (filter (\<lambda>r. attempt_open ex att r \<and> s_kind r = ''call'' \<and> s_called r \<noteq> 0) (steps d))"

definition q_InsertStepExecution :: "step_row \<Rightarrow> db \<Rightarrow> int \<times> db" where
  "q_InsertStepExecution r d =
    (next_step d, d\<lparr>steps := steps d @ [r\<lparr>s_id := next_step d, s_status := ''pending''\<rparr>],
       next_step := next_step d + 1\<rparr>)"

definition q_StartStepExecution :: "int \<Rightarrow> db \<Rightarrow> nat \<times> db" where
  "q_StartStepExecution i d =
    (let P = (\<lambda>r. s_id r = i \<and> s_status r = ''pending'')
     in (matches P (steps d), update_steps P (\<lambda>r. r\<lparr>s_status := ''running''\<rparr>) d))"

definition q_FinishStepExecution :: "int \<Rightarrow> string \<Rightarrow> string \<Rightarrow> string \<Rightarrow> int \<Rightarrow> string option \<Rightarrow> db \<Rightarrow> nat \<times> db" where
  "q_FinishStepExecution i from to detail tokens results d =
    (let P = (\<lambda>r. s_id r = i \<and> s_status r = from)
     in (matches P (steps d), update_steps P (\<lambda>r. r\<lparr>s_status := to, s_detail := detail,
           s_tokens := tokens, s_results := results\<rparr>) d))"

text \<open>The most recent finished run of a root stage: greatest attempt, then greatest id.\<close>

definition later_run :: "step_row \<Rightarrow> step_row \<Rightarrow> bool" where
  "later_run a b \<longleftrightarrow> s_attempt a > s_attempt b \<or> (s_attempt a = s_attempt b \<and> s_id a > s_id b)"

definition q_LatestStageResults :: "int \<Rightarrow> string \<Rightarrow> db \<Rightarrow> step_row option" where
  "q_LatestStageResults ex name d =
    (case filter (\<lambda>r. s_execution r = ex \<and> s_depth r = 0 \<and> s_kind r = ''stage'' \<and> s_name r = name
                      \<and> s_status r \<in> set [''succeeded'', ''failed'']) (steps d) of
       [] \<Rightarrow> None
     | r # rs \<Rightarrow> Some (fold (\<lambda>a b. if later_run a b then a else b) rs r))"

text \<open>\<open>insertEventQ\<close>: the detail is clipped and the row draws the next id.\<close>

definition insertEventQ :: "event \<Rightarrow> db \<Rightarrow> int \<times> db" where
  "insertEventQ e d =
    (next_event d,
     d\<lparr>db_events := db_events d @ [e\<lparr>e_id := next_event d, e_detail := clip (e_detail e) 4000\<rparr>],
       next_event := next_event d + 1\<rparr>)"

section \<open>Facts on statements\<close>

lemma update_tasks_simps [simp]:
  "tasks (update_tasks P f d) = map (\<lambda>r. if P r then f r else r) (tasks d)"
  "steps (update_tasks P f d) = steps d"
  "transitions (update_tasks P f d) = transitions d"
  "db_events (update_tasks P f d) = db_events d"
  "next_task (update_tasks P f d) = next_task d"
  "next_step (update_tasks P f d) = next_step d"
  "next_event (update_tasks P f d) = next_event d"
  "db_agents (update_tasks P f d) = db_agents d"
  "db_members (update_tasks P f d) = db_members d"
  by (simp_all add: update_tasks_def)

lemma update_steps_simps [simp]:
  "steps (update_steps P f d) = map (\<lambda>r. if P r then f r else r) (steps d)"
  "tasks (update_steps P f d) = tasks d"
  "transitions (update_steps P f d) = transitions d"
  "db_events (update_steps P f d) = db_events d"
  "next_task (update_steps P f d) = next_task d"
  "next_step (update_steps P f d) = next_step d"
  "next_event (update_steps P f d) = next_event d"
  "db_agents (update_steps P f d) = db_agents d"
  "db_members (update_steps P f d) = db_members d"
  by (simp_all add: update_steps_def)

lemma update_tasks_miss: "r \<in> set (tasks d) \<Longrightarrow> \<not> P r \<Longrightarrow> r \<in> set (tasks (update_tasks P f d))"
  by (force simp del: if_image_distrib)

lemma update_tasks_hit: "r \<in> set (tasks d) \<Longrightarrow> P r \<Longrightarrow> f r \<in> set (tasks (update_tasks P f d))"
  by (force simp del: if_image_distrib)

lemma q_InsertTransition_simps [simp]:
  "tasks (q_InsertTransition i f t m d) = tasks d"
  "steps (q_InsertTransition i f t m d) = steps d"
  "db_events (q_InsertTransition i f t m d) = db_events d"
  "next_task (q_InsertTransition i f t m d) = next_task d"
  "next_step (q_InsertTransition i f t m d) = next_step d"
  "next_event (q_InsertTransition i f t m d) = next_event d"
  by (simp_all add: q_InsertTransition_def)

lemma q_InsertTransition_audit:
  assumes "r \<in> set (tasks d)" and "t_id r = i"
  shows "\<exists>x\<in>set (transitions (q_InsertTransition i f t m d)). r_task x = i \<and> r_from x = f \<and> r_to x = t"
  using assms by (intro bexI [of _ "\<lparr>r_task = i, r_from = f, r_to = t, r_detail = m, r_org = t_org r\<rparr>"])
    (auto simp: q_InsertTransition_def image_iff)

lemma insertEventQ_simps [simp]:
  "tasks (snd (insertEventQ e d)) = tasks d"
  "steps (snd (insertEventQ e d)) = steps d"
  "transitions (snd (insertEventQ e d)) = transitions d"
  "next_task (snd (insertEventQ e d)) = next_task d"
  "next_step (snd (insertEventQ e d)) = next_step d"
  by (simp_all add: insertEventQ_def)

lemma matches_pos: "0 < matches P rs \<longleftrightarrow> (\<exists>r\<in>set rs. P r)"
  unfolding matches_def by (induction rs) auto

lemma matches_zero [simp]: "matches P rs = 0 \<longleftrightarrow> (\<forall>r\<in>set rs. \<not> P r)"
  using matches_pos [of P rs] by auto

lemma task_by_id_Some:
  "task_by_id d i = Some r \<Longrightarrow> r \<in> set (tasks d) \<and> t_id r = i"
  by (auto simp: task_by_id_def find_Some_iff)

lemma task_by_id_None: "task_by_id d i = None \<longleftrightarrow> (\<forall>r\<in>set (tasks d). t_id r \<noteq> i)"
  by (auto simp: task_by_id_def find_None_iff)

lemma find_map_if:
  assumes "\<And>r. Q (if P r then f r else r) \<longleftrightarrow> Q r"
  shows "find Q (map (\<lambda>r. if P r then f r else r) rs) = map_option (\<lambda>r. if P r then f r else r) (find Q rs)"
  by (induction rs) (use assms in auto)

lemma task_by_id_update:
  assumes "\<And>r. t_id (f r) = t_id r"
  shows "task_by_id (update_tasks P f d) i = map_option (\<lambda>r. if P r then f r else r) (task_by_id d i)"
  unfolding task_by_id_def update_tasks_simps by (rule find_map_if) (use assms in auto)

lemma task_by_id_cong: "tasks d' = tasks d \<Longrightarrow> task_by_id d' i = task_by_id d i"
  by (simp add: task_by_id_def)

lemma task_by_id_InsertTransition [simp]: "task_by_id (q_InsertTransition i f t m d) j = task_by_id d j"
  by (rule task_by_id_cong) simp

lemma task_by_id_matches: "task_by_id d i = Some r \<Longrightarrow> P r \<Longrightarrow> 0 < matches P (tasks d)"
  by (auto simp: matches_pos dest: task_by_id_Some)

lemma step_by_id_Some:
  "step_by_id d i = Some r \<Longrightarrow> r \<in> set (steps d) \<and> s_id r = i"
  by (auto simp: step_by_id_def find_Some_iff)

lemma open_step_iff: "open_step r \<longleftrightarrow> s_status r = StepPending \<or> s_status r = StepRunning"
  by (simp add: open_step_def lifecycle_simps)

text \<open>With distinct ids, the row found by an id is the only row with that id.\<close>

lemma task_by_id_eq:
  assumes "distinct (map t_id (tasks d))" and "r \<in> set (tasks d)"
  shows "task_by_id d (t_id r) = Some r"
proof -
  have "task_by_id d (t_id r) \<noteq> None" using assms(2) by (auto simp: task_by_id_None)
  then obtain q where q: "task_by_id d (t_id r) = Some q" by auto
  then have "q \<in> set (tasks d)" "t_id q = t_id r" by (auto dest: task_by_id_Some)
  with assms have "q = r" by (auto simp: distinct_map dest: inj_onD)
  with q show ?thesis by simp
qed

section \<open>Clipping never splits a rune\<close>

text \<open>What a clipped text is: the longest run of whole runes that fits the bound.\<close>

fun fit_runes :: "string list \<Rightarrow> nat \<Rightarrow> string list" where
  "fit_runes [] n = []"
| "fit_runes (r # rs) n = (if length r \<le> n then r # fit_runes rs (n - length r) else [])"

lemma fit_runes_length: "length (concat (fit_runes rs n)) \<le> n"
  by (induction rs n rule: fit_runes.induct) auto

lemma fit_runes_prefix: "prefix (fit_runes rs n) rs"
  by (induction rs n rule: fit_runes.induct) auto

lemma runes_drop:
  "pos < length s \<Longrightarrow>
   runes (drop pos s) = take (rune_size (drop pos s)) (drop pos s) # runes (drop (pos + rune_size (drop pos s)) s)"
  by (subst runes.simps) (simp add: add.commute)

lemma clip_pos_fit:
  "pos \<le> n \<Longrightarrow> pos \<le> length s \<Longrightarrow>
   take (clip_pos s n pos) s = take pos s @ concat (fit_runes (runes (drop pos s)) (n - pos))"
proof (induction s n pos rule: clip_pos.induct)
  case (1 s n pos)
  show ?case
  proof (cases "pos < length s")
    case True
    let ?k = "rune_size (drop pos s)"
    have k: "?k \<le> length s - pos"
      using rune_size_bounds(2) [of "drop pos s"] by simp
    show ?thesis
    proof (cases "pos + ?k > n")
      case True
      then have "\<not> ?k \<le> n - pos" using "1.prems" by simp
      with True \<open>pos < length s\<close> k show ?thesis
        by (simp add: clip_pos.simps [of s n pos] runes_drop)
    next
      case False
      have "take (clip_pos s n (pos + ?k)) s
          = take (pos + ?k) s @ concat (fit_runes (runes (drop (pos + ?k) s)) (n - (pos + ?k)))"
        by (rule "1.IH" [OF True refl False]) (use False k True in auto)
      moreover have "take (pos + ?k) s = take pos s @ take ?k (drop pos s)"
        by (simp add: take_add)
      ultimately show ?thesis
        using True False k by (simp add: clip_pos.simps [of s n pos] runes_drop)
    qed
  next
    case False
    with "1.prems" have "pos = length s" by simp
    then show ?thesis by (simp add: clip_pos.simps [of s n "length s"])
  qed
qed

lemma clip_fit: "\<not> length s \<le> n \<Longrightarrow> clip s n = concat (fit_runes (runes s) n)"
  using clip_pos_fit [of 0 n s] by (simp add: clip_def)

text \<open>A clipped text is at most the bound long, is a prefix of the text, is the whole text when
  that fits, and otherwise consists of whole leading runes, so no UTF-8 sequence is split.\<close>

theorem clip_whole_runes:
  "length (clip s n) \<le> n \<and> prefix (clip s n) s \<and> (length s \<le> n \<longrightarrow> clip s n = s)
   \<and> (\<exists>rs. prefix rs (runes s) \<and> clip s n = concat rs)"
proof (cases "length s \<le> n")
  case True
  then show ?thesis by (auto simp: clip_def intro: exI [of _ "runes s"])
next
  case False
  have p: "prefix (fit_runes (runes s) n) (runes s)" by (rule fit_runes_prefix)
  moreover from p have "prefix (concat (fit_runes (runes s) n)) s"
    using prefix_concat by fastforce
  ultimately show ?thesis
    using False fit_runes_length [of "runes s" n] by (auto simp: clip_fit)
qed

theorem clip_whole_runes_witness:
  "length ''ab'' \<le> 4 \<and> clip ''ab'' 4 = ''ab'' \<and> length (clip ''abcdef'' 4) \<le> 4"
proof -
  have l: "length ''ab'' \<le> 4" by simp
  show ?thesis
    using l clip_whole_runes [of "''ab''" 4] clip_whole_runes [of "''abcdef''" 4] by blast
qed

end
