(* ===== verification/Task_Store.thy ===== *)
theory Task_Store
  imports Task_Rows
begin

text \<open>
  The PostgreSQL State Store's task and step operations (\<open>store.go\<close>, \<open>steps.go\<close>). An operation is
  one transaction: it takes the database and gives either an error, with the database rolled back
  to what it was, or the result and the new database. Failures of the database itself are not
  modelled: they too leave the database as it was.
\<close>

datatype store_error =
    ErrStaleTransition
  | ErrIllegalTransition
  | ErrInvalidStep
  | ErrResumeIncomplete
  | ErrRereviewCapReached
  | ErrCallNotYours
  | ErrCallCallerNotRunning
  | ErrCallDepthExceeded
  | ErrOtherOrg string
  | ErrUniqueViolation
  | ErrNoRows
  | ErrOutputsTooLarge nat
  | ErrNoReviewPayload
  | ErrDecodeReviewPayload
  | ErrCallees "(int \<times> store_error) list"

definition syntheticIssueNumberBase :: int where
  "syntheticIssueNumberBase = 1000000000000000"

definition structuredPayloadBytes :: nat where
  "structuredPayloadBytes = 4000"

definition MaxCallDepth :: int where
  "MaxCallDepth = 5"

section \<open>Transitions (store.go)\<close>

definition guardTransition :: "db \<Rightarrow> int \<Rightarrow> string \<Rightarrow> string \<Rightarrow> store_error option" where
  "guardTransition d i from to = (case task_by_id d i of
       None \<Rightarrow> Some ErrStaleTransition
     | Some r \<Rightarrow>
         if t_status r \<noteq> from then Some ErrStaleTransition
         else if \<not> CanTransition from to then Some ErrIllegalTransition
         else None)"

text \<open>The shape every guarded write has: the guard, one counted update, its audit row.\<close>

definition guarded_write ::
    "int \<Rightarrow> string \<Rightarrow> string \<Rightarrow> string \<Rightarrow> (db \<Rightarrow> nat \<times> db) \<Rightarrow> db \<Rightarrow> store_error + db" where
  "guarded_write i from to detail update d = (case guardTransition d i from to of
       Some e \<Rightarrow> Inl e
     | None \<Rightarrow> (case update d of (n, d1) \<Rightarrow>
         if n = 0 then Inl ErrStaleTransition
         else Inr (q_InsertTransition i from to detail d1)))"

definition promote_next_review :: "int \<Rightarrow> db \<Rightarrow> db" where
  "promote_next_review i d = (case q_PromotePendingReview i d of (n, d1) \<Rightarrow>
     if n > 0 then q_InsertTransition i PROpen Queued ''queued the next review'' d1 else d1)"

definition Transition :: "int \<Rightarrow> string \<Rightarrow> string \<Rightarrow> string \<Rightarrow> db \<Rightarrow> store_error + db" where
  "Transition i from to detail d =
    (case guarded_write i from to (clip detail 4000)
            (q_TransitionTask i to (clip detail 4000) ParkNeedsHuman from) d of
       Inl e \<Rightarrow> Inl e
     | Inr d1 \<Rightarrow> Inr (if to = PROpen then promote_next_review i d1 else d1))"

definition ParkTask :: "int \<Rightarrow> string \<Rightarrow> string \<Rightarrow> string \<Rightarrow> db \<Rightarrow> store_error + db" where
  "ParkTask i from detail cls d =
    guarded_write i from Parked (clip detail 4000)
      (q_ParkTask i (clip detail 4000) (NormalizeParkClass cls) from) d"

definition Update :: "task_row \<Rightarrow> db \<Rightarrow> store_error + db" where
  "Update t d =
    (if length (t_outputs t) > structuredPayloadBytes then Inl (ErrOutputsTooLarge (length (t_outputs t)))
     else Inr (q_UpdateTask (t\<lparr>t_park_reason := clip (t_park_reason t) 4000\<rparr>) d))"

definition BeginRemediation :: "int \<Rightarrow> string \<Rightarrow> db \<Rightarrow> store_error + db" where
  "BeginRemediation i payload d = (case guardTransition d i PROpen Queued of
       None \<Rightarrow> (case q_BeginRemediationTask i (clip payload 4000) d of (n, d1) \<Rightarrow>
         if n = 0 then Inl ErrStaleTransition
         else Inr (q_InsertTransition i PROpen Queued ''review reaction queued remediation'' d1))
     | Some e \<Rightarrow>
         if e \<noteq> ErrStaleTransition then Inl e
         else (case q_AppendPendingReview i (clip payload 4000) d of (n, d1) \<Rightarrow>
           if n = 0 then Inl ErrStaleTransition else Inr d1))"

subsection \<open>Review units (remediate.go)\<close>

text \<open>A review unit is stored as JSON text; \<open>unmarshal\<close> and \<open>marshal\<close> stand for \<open>encoding/json\<close> at this
  type.\<close>

record ReviewUnitComment =
  rc_id :: int
  rc_path :: string
  rc_line :: int
  rc_body :: string

record ReviewUnit =
  ru_review :: int
  ru_author :: string
  ru_state :: string
  ru_body :: string
  ru_comments :: "ReviewUnitComment list"

definition DecodeReviewUnit :: "(string \<Rightarrow> ReviewUnit option) \<Rightarrow> string \<Rightarrow> store_error + ReviewUnit" where
  "DecodeReviewUnit unmarshal payload =
    (if payload = [] then Inl ErrNoReviewPayload
     else (case unmarshal payload of None \<Rightarrow> Inl ErrDecodeReviewPayload | Some u \<Rightarrow> Inr u))"

definition EncodeReviewUnit :: "(ReviewUnit \<Rightarrow> string option) \<Rightarrow> ReviewUnit \<Rightarrow> string option" where
  "EncodeReviewUnit marshal u = marshal u"

definition add_comment :: "ReviewUnitComment \<Rightarrow> ReviewUnitComment list \<Rightarrow> ReviewUnitComment list" where
  "add_comment c cs = (if list_ex (\<lambda>e. rc_id e = rc_id c) cs then cs else cs @ [c])"

definition mergeReviewComments ::
    "(string \<Rightarrow> ReviewUnit option) \<Rightarrow> (ReviewUnit \<Rightarrow> string option) \<Rightarrow> string \<Rightarrow> ReviewUnit \<Rightarrow> string \<times> bool" where
  "mergeReviewComments unmarshal marshal payload incoming =
    (case DecodeReviewUnit unmarshal payload of
       Inl _ \<Rightarrow> (payload, False)
     | Inr u \<Rightarrow>
         if ru_review u \<noteq> ru_review incoming then (payload, False)
         else (case EncodeReviewUnit marshal (u\<lparr>ru_comments := fold add_comment (ru_comments incoming) (ru_comments u)\<rparr>) of
                 None \<Rightarrow> (payload, False)
               | Some encoded \<Rightarrow> (encoded, True)))"

fun merge_pending ::
    "(string \<Rightarrow> ReviewUnit option) \<Rightarrow> (ReviewUnit \<Rightarrow> string option) \<Rightarrow> string list \<Rightarrow> ReviewUnit \<Rightarrow> string list \<times> bool" where
  "merge_pending unmarshal marshal [] incoming = ([], False)"
| "merge_pending unmarshal marshal (p # ps) incoming =
    (case mergeReviewComments unmarshal marshal p incoming of
       (p', True) \<Rightarrow> (p' # ps, True)
     | (p', False) \<Rightarrow> (case merge_pending unmarshal marshal ps incoming of (ps', b) \<Rightarrow> (p' # ps', b)))"

definition UpdateReviewPayload ::
    "(string \<Rightarrow> ReviewUnit option) \<Rightarrow> (ReviewUnit \<Rightarrow> string option) \<Rightarrow> int \<Rightarrow> string \<Rightarrow> db \<Rightarrow> store_error + db" where
  "UpdateReviewPayload unmarshal marshal i payload d =
    (case DecodeReviewUnit unmarshal payload of
       Inl e \<Rightarrow> Inl e
     | Inr incoming \<Rightarrow> (case task_by_id d i of
         None \<Rightarrow> Inl ErrStaleTransition
       | Some row \<Rightarrow>
           if t_workflow row \<noteq> ''remediate'' then Inl ErrStaleTransition
           else (case (if t_status row = Queued then mergeReviewComments unmarshal marshal (t_review_payload row) incoming
                       else (t_review_payload row, False)) of (active, merged) \<Rightarrow>
             (case (if merged then (t_pending_reviews row, True)
                    else merge_pending unmarshal marshal (t_pending_reviews row) incoming) of (pending, merged') \<Rightarrow>
               if \<not> merged' then Inl ErrStaleTransition
               else Inr (update_tasks (\<lambda>r. t_id r = i)
                           (\<lambda>r. r\<lparr>t_review_payload := clip active 4000, t_pending_reviews := pending\<rparr>) d)))))"

definition SetReviewCursors :: "int \<Rightarrow> int \<Rightarrow> int \<Rightarrow> db \<Rightarrow> store_error + db" where
  "SetReviewCursors i reviewCursor commentCursor d =
    (case q_SetReviewCursors i reviewCursor commentCursor d of (n, d1) \<Rightarrow>
       if n = 0 then Inl ErrStaleTransition else Inr d1)"

definition Requeue :: "int \<Rightarrow> string \<Rightarrow> string \<Rightarrow> db \<Rightarrow> store_error + db" where
  "Requeue i from wfl d =
    guarded_write i from Queued (''requeued '' @ wfl) (q_RequeueTask i wfl from) d"

record Resume =
  resume_From :: string
  resume_After :: string

definition resumeResults :: "db \<Rightarrow> int \<Rightarrow> Resume \<Rightarrow> store_error + string" where
  "resumeResults d i resume =
    (if resume_From resume = [] \<or> resume_After resume = [] then Inr ''{}''
     else (case q_LatestStageResults i (resume_After resume) d of
         None \<Rightarrow> Inl ErrResumeIncomplete
       | Some row \<Rightarrow> (case s_results row of
           None \<Rightarrow> Inl ErrResumeIncomplete
         | Some results \<Rightarrow> Inr results)))"

definition RetryTask :: "int \<Rightarrow> string \<Rightarrow> string \<Rightarrow> string \<Rightarrow> Resume \<Rightarrow> db \<Rightarrow> store_error + db" where
  "RetryTask i from wfl mode resume d = (case guardTransition d i from Queued of
       Some e \<Rightarrow> Inl e
     | None \<Rightarrow> (case resumeResults d i resume of
         Inl e \<Rightarrow> Inl e
       | Inr results \<Rightarrow>
           guarded_write i from Queued (''retried '' @ wfl)
             (q_RetryTask i wfl from mode (resume_From resume) results) d))"

definition RespondReviewGate :: "int \<Rightarrow> string \<Rightarrow> string \<Rightarrow> bool \<Rightarrow> int \<Rightarrow> db \<Rightarrow> store_error + db" where
  "RespondReviewGate i from gate rereview maxRounds d = (case guardTransition d i from Queued of
       Some e \<Rightarrow> Inl e
     | None \<Rightarrow> (case task_by_id d i of
         None \<Rightarrow> Inl ErrStaleTransition
       | Some row \<Rightarrow>
           if rereview \<and> t_rereview_rounds row \<ge> maxRounds then Inl ErrRereviewCapReached
           else guarded_write i from Queued
                  (if rereview then ''operator requested a re-review''
                   else ''operator approved the review gate'')
                  (q_RespondReviewGateTask i from gate rereview maxRounds) d))"

definition ArchiveTask :: "int \<Rightarrow> string \<Rightarrow> event \<Rightarrow> db \<Rightarrow> store_error + (int \<times> db)" where
  "ArchiveTask i from audit d = (case insertEventQ audit d of (eid, d1) \<Rightarrow>
     (case q_ArchiveTaskDelete i from d1 of (n, d2) \<Rightarrow>
        if n = 0 then Inl ErrStaleTransition else Inr (eid, d2)))"

definition ClearTerminalTasks :: "string option \<Rightarrow> db \<Rightarrow> nat \<times> db" where
  "ClearTerminalTasks scope d = q_ClearTerminalTasks scope d"

section \<open>Enqueueing and claiming (store.go)\<close>

definition issue_row :: "db \<Rightarrow> string \<Rightarrow> string \<Rightarrow> int \<Rightarrow> string \<Rightarrow> string \<Rightarrow> string \<Rightarrow> string \<Rightarrow> task_row" where
  "issue_row d ow rp n title body labels who =
     default_row\<lparr>t_owner := ow, t_repo := rp, t_issue := n, t_title := title, t_body := body,
       t_labels := labels, t_identity := who, t_org := owner_org d who\<rparr>"

definition EnqueueIssue ::
    "string \<Rightarrow> string \<Rightarrow> int \<Rightarrow> string \<Rightarrow> string \<Rightarrow> string \<Rightarrow> string \<Rightarrow> db \<Rightarrow> bool \<times> db" where
  "EnqueueIssue ow rp n title body labels who d =
    (let r = issue_row d ow rp n title body labels who
     in if list_ex (same_issue_key r) (tasks d) then (False, d) else (True, append_task r d))"

definition chat_row :: "db \<Rightarrow> string \<Rightarrow> string \<Rightarrow> string \<Rightarrow> string \<Rightarrow> string \<Rightarrow> string \<Rightarrow> string \<Rightarrow> string \<Rightarrow> task_row" where
  "chat_row d ow rp title body wfl who origin inputs =
     default_row\<lparr>t_owner := ow, t_repo := rp,
       t_issue := next_chat_issue d ow rp (syntheticIssueNumberBase - 1),
       t_title := title, t_body := body, t_labels := ''chat'', t_workflow := wfl,
       t_source := ''chat'', t_identity := who, t_org := owner_org d who,
       t_inputs := inputs, t_origin := origin\<rparr>"

definition EnqueueChatTask ::
    "string option \<Rightarrow> string \<Rightarrow> string \<Rightarrow> string \<Rightarrow> string \<Rightarrow> string \<Rightarrow> string \<Rightarrow> string \<Rightarrow> string \<Rightarrow> db
     \<Rightarrow> store_error + (task_row \<times> db)" where
  "EnqueueChatTask scope ow rp title body wfl who origin inputs d =
    (let r = chat_row d ow rp title body wfl who origin inputs
     in if \<not> in_scope scope r then Inl (ErrOtherOrg who)
        else if list_ex (same_issue_key r) (tasks d) then Inl ErrUniqueViolation
        else Inr (r\<lparr>t_id := next_task d\<rparr>, append_task r d))"

definition EnqueueBindingTask ::
    "string option \<Rightarrow> string \<Rightarrow> string \<Rightarrow> string \<Rightarrow> string \<Rightarrow> string \<Rightarrow> string \<Rightarrow> string \<Rightarrow> int \<Rightarrow> string \<Rightarrow> db
     \<Rightarrow> store_error + (task_row \<times> db)" where
  "EnqueueBindingTask scope ow rp title body wfl who binding version inputs d =
    (case EnqueueChatTask scope ow rp title body wfl who [] inputs d of
       Inl e \<Rightarrow> Inl e
     | Inr (r, d1) \<Rightarrow>
         (let stamp = (\<lambda>x. x\<lparr>t_binding := binding, t_binding_version := version\<rparr>)
          in Inr (stamp r, update_tasks (\<lambda>x. t_id x = t_id r) stamp d1)))"

definition ClaimNext :: "db \<Rightarrow> task_row option \<times> db" where
  "ClaimNext d = q_ClaimNextTask d"

definition ClaimByIssue :: "string \<Rightarrow> string \<Rightarrow> int \<Rightarrow> db \<Rightarrow> task_row option \<times> db" where
  "ClaimByIssue ow rp n d = q_ClaimByIssue ow rp n d"

section \<open>Reads (store.go)\<close>

definition TaskByID :: "string option \<Rightarrow> db \<Rightarrow> int \<Rightarrow> task_row option" where
  "TaskByID scope d i = find (\<lambda>r. t_id r = i \<and> in_scope scope r) (tasks d)"

definition OpenTaskByPR :: "string option \<Rightarrow> db \<Rightarrow> string \<Rightarrow> string \<Rightarrow> int \<Rightarrow> task_row option" where
  "OpenTaskByPR scope d ow rp n = find (\<lambda>r. t_owner r = ow \<and> t_repo r = rp \<and> t_pr r = n
     \<and> t_status r = PROpen \<and> in_scope scope r) (tasks d)"

definition StatusCounts :: "string option \<Rightarrow> db \<Rightarrow> int gomap" where
  "StatusCounts scope d =
    (let rs = filter (in_scope scope) (tasks d)
     in map (\<lambda>s. (s, int (matches (\<lambda>r. t_status r = s) rs))) (remdups (map t_status rs)))"

definition ActiveTasksByOrigin :: "string option \<Rightarrow> db \<Rightarrow> string \<Rightarrow> task_row list" where
  "ActiveTasksByOrigin scope d origin =
    sort_key t_id (filter (\<lambda>r. t_origin r = origin \<and> t_origin r \<noteq> []
       \<and> t_status r \<in> set [''queued'', ''running''] \<and> in_scope scope r) (tasks d))"

definition UnpostedOutcomes :: "string option \<Rightarrow> db \<Rightarrow> task_row list" where
  "UnpostedOutcomes scope d =
    take 50 (sort_key t_id (filter (\<lambda>r. t_origin r \<noteq> [] \<and> \<not> t_outcome_posted r
       \<and> t_status r \<in> set [''merged'', ''rejected'', ''dead'', ''closed_wont_do'', ''completed'']
       \<and> in_scope scope r) (tasks d)))"

definition MarkOutcomePosted :: "int \<Rightarrow> db \<Rightarrow> db" where
  "MarkOutcomePosted i d = update_tasks (\<lambda>r. t_id r = i) (\<lambda>r. r\<lparr>t_outcome_posted := True\<rparr>) d"

section \<open>Workflow calls (store.go)\<close>

text \<open>A live child of a call site: the row the partial unique index on (caller, key) holds.\<close>

definition live_child :: "int \<Rightarrow> string \<Rightarrow> task_row \<Rightarrow> bool" where
  "live_child caller key r \<longleftrightarrow> t_call_parent r = caller \<and> t_call_key r = key \<and> key \<noteq> []
     \<and> t_status r \<notin> set [''dead'', ''closed_wont_do'']"

definition callee_row :: "db \<Rightarrow> task_row \<Rightarrow> string \<Rightarrow> string \<Rightarrow> string \<Rightarrow> string \<Rightarrow> string \<Rightarrow> task_row" where
  "callee_row d caller key wfl title body inputs =
     default_row\<lparr>t_owner := t_owner caller, t_repo := t_repo caller,
       t_issue := next_chat_issue d (t_owner caller) (t_repo caller) (syntheticIssueNumberBase - 1),
       t_title := title, t_body := body, t_labels := ''chat'', t_workflow := wfl,
       t_source := ''chat'', t_identity := t_identity caller, t_org := t_org caller,
       t_inputs := inputs, t_call_parent := t_id caller, t_call_depth := t_call_depth caller + 1,
       t_call_key := key\<rparr>"

definition callRefusal :: "string option \<Rightarrow> db \<Rightarrow> int \<Rightarrow> store_error" where
  "callRefusal scope d caller = (case TaskByID scope d caller of
       None \<Rightarrow> ErrCallNotYours
     | Some r \<Rightarrow> if t_status r \<noteq> ''running'' then ErrCallCallerNotRunning else ErrCallDepthExceeded)"

definition StartCall ::
    "string option \<Rightarrow> int \<Rightarrow> string \<Rightarrow> string \<Rightarrow> string \<Rightarrow> string \<Rightarrow> string \<Rightarrow> db \<Rightarrow> store_error + (task_row \<times> db)" where
  "StartCall scope caller key wfl title body inputs d = (case task_by_id d caller of
       None \<Rightarrow> Inl (callRefusal scope d caller)
     | Some c \<Rightarrow>
         if \<not> (t_status c = ''running'' \<and> t_call_depth c + 1 \<le> MaxCallDepth) then Inl (callRefusal scope d caller)
         else (case find (live_child caller key) (tasks d) of
             Some child \<Rightarrow> Inr (child, d)
           | None \<Rightarrow>
               (let r = callee_row d c key wfl title body inputs
                in if list_ex (same_issue_key r) (tasks d) then Inl ErrUniqueViolation
                   else Inr (r\<lparr>t_id := next_task d\<rparr>, append_task r d))))"

definition CallStatus :: "string option \<Rightarrow> db \<Rightarrow> int \<Rightarrow> int \<Rightarrow> store_error + (string \<times> string \<times> string)" where
  "CallStatus scope d caller callee = (case TaskByID scope d callee of
       None \<Rightarrow> Inl ErrCallNotYours
     | Some r \<Rightarrow>
         if t_call_parent r \<noteq> caller then Inl ErrCallNotYours
         else Inr (t_status r,
           (case rev (filter (\<lambda>x. r_task x = callee) (transitions d)) of [] \<Rightarrow> [] | x # _ \<Rightarrow> r_detail x),
           t_outputs r))"

section \<open>Steps (steps.go)\<close>

definition StepKindStage :: string where "StepKindStage = ''stage''"
definition StepKindAgent :: string where "StepKindAgent = ''agent''"
definition StepKindCall :: string where "StepKindCall = ''call''"

definition ValidStepKind :: "string \<Rightarrow> bool" where
  "ValidStepKind kind \<longleftrightarrow> kind \<in> set [StepKindStage, StepKindAgent, StepKindCall]"

record StepStart =
  ss_execution :: int
  ss_attempt :: int
  ss_parent :: int
  ss_kind :: string
  ss_name :: string
  ss_called :: int

record StepFinish =
  sf_step :: int
  sf_execution :: int
  sf_from :: string
  sf_to :: string
  sf_detail :: string
  sf_tokens :: int
  sf_results :: "string option"

definition KindStageStart :: string where "KindStageStart = ''stage_start''"
definition KindStageFinish :: string where "KindStageFinish = ''stage_finish''"

definition stepEvent :: "string \<Rightarrow> task_row \<Rightarrow> int \<Rightarrow> string \<Rightarrow> event_value gomap \<Rightarrow> event" where
  "stepEvent kind ex attempt stage data =
     no_event\<lparr>e_kind := kind, e_task := t_id ex, e_repo := t_owner ex @ ''/'' @ t_repo ex,
       e_issue := t_issue ex, e_workflow := t_workflow ex, e_attempt := attempt, e_stage := stage,
       e_data := data\<rparr>"

definition stepEventData :: "string \<Rightarrow> int \<Rightarrow> string \<Rightarrow> event_value gomap" where
  "stepEventData to durationMS detail = (''duration_ms'', EvInt durationMS) #
    (if to = StepFailed then [(''error'', EvText detail)]
     else if to = StepInterrupted then [(''interrupted'', EvBool True)]
     else if to = StepSkipped then [(''skipped'', EvBool True), (''when'', EvText detail)]
     else [])"

definition verifyCallStep :: "db \<Rightarrow> StepStart \<Rightarrow> store_error option" where
  "verifyCallStep d start =
    (if ss_called start = 0 then None
     else (case task_by_id d (ss_called start) of
         None \<Rightarrow> Some ErrStaleTransition
       | Some callee \<Rightarrow> if t_call_parent callee \<noteq> ss_execution start then Some ErrStaleTransition else None))"

text \<open>The depth of the new step and whether its parent has finished.\<close>

definition startParent :: "db \<Rightarrow> StepStart \<Rightarrow> store_error + (int \<times> bool)" where
  "startParent d start =
    (if ss_parent start = 0 then Inr (0, False)
     else (case step_by_id d (ss_parent start) of
         None \<Rightarrow> Inl ErrStaleTransition
       | Some p \<Rightarrow>
           if s_execution p \<noteq> ss_execution start \<or> s_attempt p \<noteq> ss_attempt start then Inl ErrStaleTransition
           else Inr (s_depth p + 1, StepTerminal (s_status p))))"

definition step_row_of :: "task_row \<Rightarrow> StepStart \<Rightarrow> int \<Rightarrow> step_row" where
  "step_row_of ex start depth = \<lparr>s_id = 0, s_org = t_org ex, s_execution = t_id ex, s_attempt = t_attempt ex,
     s_parent = ss_parent start, s_depth = depth, s_kind = ss_kind start, s_name = ss_name start,
     s_called = ss_called start, s_status = StepPending, s_detail = [], s_tokens = 0, s_results = None\<rparr>"

definition StartStep :: "StepStart \<Rightarrow> db \<Rightarrow> store_error + (int \<times> event \<times> db)" where
  "StartStep start d =
    (if \<not> ValidStepKind (ss_kind start) then Inl ErrInvalidStep
     else (case task_by_id d (ss_execution start) of
         None \<Rightarrow> Inl ErrStaleTransition
       | Some ex \<Rightarrow>
           if t_attempt ex \<noteq> ss_attempt start then Inl ErrStaleTransition
           else (case verifyCallStep d start of
               Some e \<Rightarrow> Inl e
             | None \<Rightarrow> (case startParent d start of
                 Inl e \<Rightarrow> Inl e
               | Inr (depth, underTerminal) \<Rightarrow>
                   if CheckStepStart (t_status ex) underTerminal \<noteq> None then Inl ErrIllegalTransition
                   else (case q_InsertStepExecution (step_row_of ex start depth) d of (sid, d1) \<Rightarrow>
                     (case q_StartStepExecution sid d1 of (n, d2) \<Rightarrow>
                        if n = 0 then Inl ErrStaleTransition
                        else (let ev = stepEvent KindStageStart ex (t_attempt ex) (ss_name start) [] in
                          (case insertEventQ ev d2 of (eid, d3) \<Rightarrow> Inr (sid, ev\<lparr>e_id := eid\<rparr>, d3)))))))))"

text \<open>\<open>durationMS\<close> is the elapsed time the clock gives.\<close>

definition FinishStep :: "string option \<Rightarrow> int \<Rightarrow> StepFinish \<Rightarrow> db \<Rightarrow> store_error + (event \<times> db)" where
  "FinishStep scope durationMS finish d = (case step_by_id d (sf_step finish) of
       None \<Rightarrow> Inl ErrStaleTransition
     | Some st \<Rightarrow>
         if s_execution st \<noteq> sf_execution finish \<or> s_status st \<noteq> sf_from finish then Inl ErrStaleTransition
         else if \<not> CanStepTransition (sf_from finish) (sf_to finish) then Inl ErrIllegalTransition
         else (case TaskByID scope d (s_execution st) of
             None \<Rightarrow> Inl ErrNoRows
           | Some ex \<Rightarrow> (case q_FinishStepExecution (sf_step finish) (sf_from finish) (sf_to finish)
                               (clip (sf_detail finish) 4000) (sf_tokens finish) (sf_results finish) d of (n, d1) \<Rightarrow>
               if n = 0 then Inl ErrStaleTransition
               else (let ev = stepEvent KindStageFinish ex (s_attempt st) (s_name st)
                            (stepEventData (sf_to finish) durationMS (sf_detail finish)) in
                 (case insertEventQ ev d1 of (eid, d2) \<Rightarrow> Inr (ev\<lparr>e_id := eid\<rparr>, d2))))))"

definition ListSteps :: "string option \<Rightarrow> db \<Rightarrow> int \<Rightarrow> int \<Rightarrow> step_row list" where
  "ListSteps scope d ex attempt =
    sort_key (\<lambda>r. s_attempt r) (sort_key s_id
      (filter (\<lambda>r. s_execution r = ex \<and> (attempt = 0 \<or> s_attempt r = attempt)
                  \<and> (case scope of None \<Rightarrow> True | Some g \<Rightarrow> s_org r = g)) (steps d)))"

section \<open>Cancellation and recovery (steps.go, store.go)\<close>

text \<open>The events of a sweep: one \<open>stage_finish\<close> per closed step.\<close>

definition sweep_events :: "task_row \<Rightarrow> string \<Rightarrow> step_row list \<Rightarrow> db \<Rightarrow> db" where
  "sweep_events ex marker closed d =
     fold (\<lambda>st d. snd (insertEventQ (stepEvent KindStageFinish ex (t_attempt ex) (s_name st)
                                       [(marker, EvBool True)]) d)) closed d"

text \<open>The transaction of one \<open>CancelExecution\<close>: the closed steps and the callees the execution was
  waiting on, read before the sweep closes their call steps.\<close>

definition cancel_tx :: "int \<Rightarrow> string \<Rightarrow> string \<Rightarrow> db \<Rightarrow> store_error + (step_row list \<times> int list \<times> db)" where
  "cancel_tx i reason to d = (case task_by_id d i of
       None \<Rightarrow> Inl ErrStaleTransition
     | Some ex \<Rightarrow>
         if \<not> CanTransition (t_status ex) to then Inl ErrIllegalTransition
         else (let waiting = q_WaitingCallSteps i (t_attempt ex) d in
           (case q_CancelAttemptSteps i (t_attempt ex) d of (closed, d1) \<Rightarrow>
             (let d2 = sweep_events ex ''cancelled'' closed d1 in
               (case q_TransitionTask i to (clip reason 4000) ParkNeedsHuman (t_status ex) d2 of (n, d3) \<Rightarrow>
                  if n = 0 then Inl ErrStaleTransition
                  else Inr (closed, waiting,
                    q_InsertTransition i (t_status ex) to (clip reason 4000) d3))))))"

text \<open>\<open>CancelExecution\<close> commits its own transaction and then cancels each waited callee in a
  transaction of its own; a failing callee is reported and the others go on. The recursion
  carries fuel, one unit per nesting level; \<open>CancelExecution_enough\<close> below shows that the number
  of open steps is enough.\<close>

fun cancel_fuel :: "nat \<Rightarrow> int \<Rightarrow> string \<Rightarrow> string \<Rightarrow> db \<Rightarrow> (db \<times> int list \<times> store_error option) option"
and cancelWaitedCallees :: "nat \<Rightarrow> int list \<Rightarrow> string \<Rightarrow> string \<Rightarrow> db \<Rightarrow> (db \<times> (int \<times> store_error) list) option" where
  "cancel_fuel 0 i reason to d = None"
| "cancel_fuel (Suc n) i reason to d = (case cancel_tx i reason to d of
       Inl e \<Rightarrow> Some (d, [], Some e)
     | Inr (closed, waiting, d1) \<Rightarrow>
         (case cancelWaitedCallees n waiting reason to d1 of
            None \<Rightarrow> None
          | Some (d2, failures) \<Rightarrow>
              Some (d2, map s_id closed, if failures = [] then None else Some (ErrCallees failures))))"
| "cancelWaitedCallees n [] reason to d = Some (d, [])"
| "cancelWaitedCallees n (c # cs) reason to d = (case cancel_fuel n c reason to d of
       None \<Rightarrow> None
     | Some (d1, _, err) \<Rightarrow>
         (case cancelWaitedCallees n cs reason to d1 of
            None \<Rightarrow> None
          | Some (d2, failures) \<Rightarrow>
              Some (d2, (case err of None \<Rightarrow> failures | Some e \<Rightarrow> (c, e) # failures))))"

definition open_count :: "db \<Rightarrow> nat" where
  "open_count d = matches open_step (steps d)"

definition CancelExecution :: "int \<Rightarrow> string \<Rightarrow> string \<Rightarrow> db \<Rightarrow> db \<times> int list \<times> store_error option" where
  "CancelExecution i reason to d = the (cancel_fuel (Suc (open_count d)) i reason to d)"

definition recover_one :: "task_row \<Rightarrow> db \<Rightarrow> db" where
  "recover_one ex d = (case q_InterruptAttemptSteps (t_id ex) (t_attempt ex) d of (closed, d1) \<Rightarrow>
     q_InsertTransition (t_id ex) Running Queued ''re-queued after a crashed or replaced daemon''
       (sweep_events ex ''interrupted'' closed d1))"

definition RecoverStale :: "db \<Rightarrow> nat \<times> db" where
  "RecoverStale d =
     q_RecoverStaleTasks (fold recover_one (filter (\<lambda>r. t_status r = ''running'') (tasks d)) d)"

end
