(* ===== verification/Task_Actions.thy ===== *)
theory Task_Actions
  imports Review_Gate Task_Store
begin

text \<open>
  Operator task actions (\<open>domain/taskactions/service.go\<close>): the service chat and the dashboard share.
  The State Store it writes through is a record of operations over a state \<open>'s\<close>, the service's own
  interface; the callbacks it was wired with are options, nil being \<open>None\<close>, and what it calls is
  recorded in order. The last section is the adapter that gives it the PostgreSQL store
  (\<open>infrastructure/taskactions/store.go\<close>).
\<close>

section \<open>Data\<close>

record Task =
  a_id :: int
  a_owner :: string
  a_repo :: string
  a_identity :: string
  a_status :: string
  a_park_reason :: string
  a_issue :: int
  a_retry_count :: int
  a_pr :: int
  a_forge :: bool
  a_branch :: string
  a_retry_mode :: string
  a_gate :: string
  a_rereviews :: int
  a_stages :: "string list"
  a_attempt :: int

record ActionPayload =
  p_instructions :: string
  p_findings :: "string list"
  p_retry_mode :: string
  p_resume_from :: string

record Actor =
  ac_identity :: string
  ac_kind :: string
  ac_principal :: string

definition no_actor :: Actor where
  "no_actor = \<lparr>ac_identity = [], ac_kind = [], ac_principal = []\<rparr>"

datatype conflict =
    NotAllowed lifecycle_error
  | NoReviewGate
  | NeedsInstructions
  | RereviewsUsed
  | FindingNotOffered string
  | UnknownRetryMode string
  | NoSuchStep string
  | AmbiguousStep string
  | NoPushedBranch
  | MaxRetriesReached int int
  | NothingToResume string
  | NoPullRequest
  | MergeRefused int

datatype action_error =
    ErrNotFound int
  | ErrOtherIdentity string string
  | ErrConflict conflict
  | ErrUnavailable
  | ErrUnsupported string
  | ErrStore store_error

record 's Store =
  st_TaskByID :: "int \<Rightarrow> 's \<Rightarrow> store_error + Task option"
  st_Transition :: "int \<Rightarrow> string \<Rightarrow> string \<Rightarrow> string \<Rightarrow> 's \<Rightarrow> store_error + 's"
  st_Requeue :: "int \<Rightarrow> string \<Rightarrow> string \<Rightarrow> 's \<Rightarrow> store_error + 's"
  st_RetryTask :: "int \<Rightarrow> string \<Rightarrow> string \<Rightarrow> string \<Rightarrow> Resume \<Rightarrow> 's \<Rightarrow> store_error + 's"
  st_RespondReviewGate :: "int \<Rightarrow> string \<Rightarrow> string \<Rightarrow> bool \<Rightarrow> int \<Rightarrow> 's \<Rightarrow> store_error + 's"
  st_ArchiveTask :: "int \<Rightarrow> string \<Rightarrow> event \<Rightarrow> 's \<Rightarrow> store_error + (int \<times> 's)"
  st_InsertEvent :: "event \<Rightarrow> 's \<Rightarrow> store_error + (int \<times> 's)"
  st_CancelExecution :: "int \<Rightarrow> string \<Rightarrow> string \<Rightarrow> 's \<Rightarrow> 's \<times> int list \<times> store_error option"

text \<open>A callback's result is a function of its arguments: it is called at most once per action.
  \<open>True\<close> is success. \<open>sv_marshal\<close> and \<open>sv_unmarshal\<close> stand for \<open>encoding/json\<close> on the gate document.\<close>

record 's Service =
  sv_store :: "'s Store"
  sv_MaxRetries :: "(Task \<Rightarrow> int) option"
  sv_CancelTask :: "(int \<Rightarrow> bool) option"
  sv_CloseIssue :: "(string \<Rightarrow> string \<Rightarrow> int \<Rightarrow> string \<Rightarrow> bool) option"
  sv_ClosePR :: "(string \<Rightarrow> string \<Rightarrow> int \<Rightarrow> string \<Rightarrow> bool) option"
  sv_MergePR :: "(string \<Rightarrow> string \<Rightarrow> int \<Rightarrow> bool) option"
  sv_RemoveLogs :: "(int \<Rightarrow> bool) option"
  sv_RemoveWorktree :: "(Task \<Rightarrow> bool) option"
  sv_Publish :: bool
  sv_Warn :: bool
  sv_marshal :: "ReviewGate \<Rightarrow> string option"
  sv_unmarshal :: "string \<Rightarrow> ReviewGate option"

datatype call =
    CancelledRun int
  | ClosedIssue string string int string
  | ClosedPR string string int string
  | MergedPR string string int
  | RemovedLogs int
  | RemovedWorktree int
  | Published event
  | Warned string int

record 's world =
  w_store :: 's
  w_calls :: "call list"

definition called :: "call \<Rightarrow> 's world \<Rightarrow> 's world" where
  "called c w = w\<lparr>w_calls := w_calls w @ [c]\<rparr>"

section \<open>Actors\<close>

definition KindUser :: string where "KindUser = ''user''"

definition Human :: "Actor \<Rightarrow> bool" where
  "Human a \<longleftrightarrow> ac_kind a = KindUser"

definition Attributed :: "Actor \<Rightarrow> bool" where
  "Attributed a \<longleftrightarrow> trim_space (ac_identity a) \<noteq> []"

definition describe :: "Actor \<Rightarrow> string \<Rightarrow> string" where
  "describe a verb =
    (if \<not> Attributed a then verb @ '' with no recorded actor''
     else (let text = verb @ '' by '' @ ac_identity a;
               text = (if ac_kind a \<noteq> [] then text @ '' ('' @ ac_kind a @ '')'' else text)
           in if ac_principal a \<noteq> [] then text @ '', authorised by '' @ ac_principal a
              else text @ '', no authorising principal''))"

definition approvedKind :: "Actor \<Rightarrow> string" where
  "approvedKind a = (if Human a then ''human_approved'' else if Attributed a then ''agent_approved'' else ''task_approved'')"

definition rejectedKind :: "Actor \<Rightarrow> string" where
  "rejectedKind a = (if Human a then ''human_rejected'' else if Attributed a then ''agent_rejected'' else ''task_rejected'')"

definition rereviewedKind :: "Actor \<Rightarrow> string" where
  "rereviewedKind a = (if Human a then ''human_rereviewed'' else if Attributed a then ''agent_rereviewed'' else ''task_rereviewed'')"

definition attributed :: "Task \<Rightarrow> Actor \<Rightarrow> event" where
  "attributed t a = no_event\<lparr>e_task := a_id t, e_repo := a_owner t @ ''/'' @ a_repo t, e_issue := a_issue t,
     e_attempt := a_attempt t, e_actor := ac_identity a, e_actor_kind := ac_kind a, e_principal := ac_principal a\<rparr>"

section \<open>Effects\<close>

definition warn :: "'s Service \<Rightarrow> string \<Rightarrow> int \<Rightarrow> 's world \<Rightarrow> 's world" where
  "warn sv msg i w = (if sv_Warn sv then called (Warned msg i) w else w)"

definition emit :: "'s Service \<Rightarrow> event \<Rightarrow> 's world \<Rightarrow> 's world" where
  "emit sv e w =
    (let (e1, w1) =
       (if e_id e = 0 then
          (case st_InsertEvent (sv_store sv) e (w_store w) of
             Inl _ \<Rightarrow> (e, warn sv ''operator activity persistence failed'' (e_task e) w)
           | Inr (i, s1) \<Rightarrow> (e\<lparr>e_id := i\<rparr>, w\<lparr>w_store := s1\<rparr>))
        else (e, w))
     in if sv_Publish sv then called (Published e1) w1 else w1)"

definition deliver :: "'s Service \<Rightarrow> int \<Rightarrow> 's world \<Rightarrow> 's world" where
  "deliver sv i w = (case sv_CancelTask sv of None \<Rightarrow> w | Some _ \<Rightarrow> called (CancelledRun i) w)"

definition closeRejectedPR :: "'s Service \<Rightarrow> Task \<Rightarrow> Actor \<Rightarrow> string \<Rightarrow> 's world \<Rightarrow> 's world" where
  "closeRejectedPR sv t a verb w = (case sv_ClosePR sv of
     None \<Rightarrow> warn sv ''task rejected but no forge is wired; its pull request stays open'' (a_id t) w
   | Some close \<Rightarrow>
       (let comment = ''Closing: this task was '' @ verb @ '' in archie ('' @ describe a ''actioned'' @ '').'';
            w1 = called (ClosedPR (a_owner t) (a_repo t) (a_pr t) comment) w
        in if \<not> close (a_owner t) (a_repo t) (a_pr t) comment
           then warn sv ''closing rejected task's pull request failed; it stays open'' (a_id t) w1
           else emit sv (no_event\<lparr>e_task := a_id t, e_kind := ''pr_closed'',
                  e_detail := ''closed pull request #'' @ int_dec (a_pr t),
                  e_data := [(''pr_number'', EvInt (a_pr t))]\<rparr>) w1))"

definition closeRejectedIssue :: "'s Service \<Rightarrow> Task \<Rightarrow> Actor \<Rightarrow> string \<Rightarrow> 's world \<Rightarrow> 's world" where
  "closeRejectedIssue sv t a verb w = (case sv_CloseIssue sv of
     None \<Rightarrow> warn sv ''task rejected but no forge is wired; the issue stays open and will be re-polled'' (a_id t) w
   | Some close \<Rightarrow>
       (let comment = ''Closing: this task was '' @ verb @ '' in archie ('' @ describe a ''actioned''
              @ ''). Reopen the issue to have archie pick it up again.'';
            w1 = called (ClosedIssue (a_owner t) (a_repo t) (a_issue t) comment) w
        in if \<not> close (a_owner t) (a_repo t) (a_issue t) comment
           then warn sv ''closing rejected issue failed; it stays open and will be re-polled'' (a_id t) w1
           else w1))"

section \<open>Actions\<close>

record outcome =
  o_event :: event
  o_verb :: string

text \<open>A handler's result: the outcome or the error, and the world as it left it.\<close>

type_synonym 's handled = "(action_error + outcome) \<times> 's world"

definition wrote :: "'s world \<Rightarrow> outcome \<Rightarrow> store_error + 's \<Rightarrow> 's handled" where
  "wrote w oc res = (case res of Inl e \<Rightarrow> (Inl (ErrStore e), w) | Inr s \<Rightarrow> (Inr oc, w\<lparr>w_store := s\<rparr>))"

definition cancelled :: "'s Service \<Rightarrow> int \<Rightarrow> string \<Rightarrow> string \<Rightarrow> 's world \<Rightarrow> store_error option \<times> 's world" where
  "cancelled sv i reason to w =
    (case st_CancelExecution (sv_store sv) i reason to (w_store w) of (s, _, err) \<Rightarrow> (err, w\<lparr>w_store := s\<rparr>))"

definition applyApprove :: "'s Service \<Rightarrow> Task \<Rightarrow> Actor \<Rightarrow> outcome \<Rightarrow> ActionPayload \<Rightarrow> 's world \<Rightarrow> 's handled" where
  "applyApprove sv t a oc res w =
    (let oc = oc\<lparr>o_event := (o_event oc)\<lparr>e_kind := approvedKind a, e_detail := describe a ''approved''\<rparr>\<rparr>;
         requeue = wrote w oc (st_Requeue (sv_store sv) (a_id t) (a_status t) [] (w_store w))
     in case DecodeReviewGate (sv_unmarshal sv) (a_gate t) of
          None \<Rightarrow> requeue
        | Some gate \<Rightarrow>
            if \<not> Offered gate then requeue
            else (case selectedFindingKeys gate (p_findings res) of
                Inl k \<Rightarrow> (Inl (ErrConflict (FindingNotOffered k)), w)
              | Inr selection \<Rightarrow>
                  wrote w (oc\<lparr>o_event := (o_event oc)\<lparr>e_detail := describe a ''approved'' @ '' (''
                      @ int_dec (int (length selection)) @ '' of '' @ int_dec (int (length (slice (rg_findings gate))))
                      @ '' finding(s) selected)''\<rparr>\<rparr>)
                    (st_RespondReviewGate (sv_store sv) (a_id t) (a_status t)
                       (EncodeReviewGate (sv_marshal sv) (approved_gate gate selection)) False MaxRereviewRounds (w_store w))))"

definition applyRereview :: "'s Service \<Rightarrow> Task \<Rightarrow> Actor \<Rightarrow> outcome \<Rightarrow> ActionPayload \<Rightarrow> 's world \<Rightarrow> 's handled" where
  "applyRereview sv t a oc res w =
    (case DecodeReviewGate (sv_unmarshal sv) (a_gate t) of
       None \<Rightarrow> (Inl (ErrConflict NoReviewGate), w)
     | Some gate \<Rightarrow>
         if \<not> Offered gate then (Inl (ErrConflict NoReviewGate), w)
         else if blank (p_instructions res) then (Inl (ErrConflict NeedsInstructions), w)
         else if a_rereviews t \<ge> MaxRereviewRounds then (Inl (ErrConflict RereviewsUsed), w)
         else wrote w (oc\<lparr>o_event := (o_event oc)\<lparr>e_kind := rereviewedKind a, e_detail := describe a ''requested a re-review''\<rparr>\<rparr>)
                (st_RespondReviewGate (sv_store sv) (a_id t) (a_status t)
                   (EncodeReviewGate (sv_marshal sv) (rereview_gate gate (p_instructions res))) True MaxRereviewRounds (w_store w)))"

definition countOf :: "string list \<Rightarrow> string \<Rightarrow> nat" where
  "countOf stages name = matches (\<lambda>s. s = name) stages"

definition index_of :: "string list \<Rightarrow> string \<Rightarrow> nat option" where
  "index_of xs x = find (\<lambda>i. xs ! i = x) [0..<length xs]"

definition resumePoint :: "string list \<Rightarrow> string \<Rightarrow> conflict + Resume" where
  "resumePoint stages from =
    (if from = [] then Inr \<lparr>resume_From = [], resume_After = []\<rparr>
     else (case index_of stages from of
         None \<Rightarrow> Inl (NoSuchStep from)
       | Some at \<Rightarrow>
           (let after = (if at > 0 then stages ! (at - 1) else []) in
            case find (\<lambda>name. name \<noteq> [] \<and> countOf stages name > 1) [from, after] of
              Some name \<Rightarrow> Inl (AmbiguousStep name)
            | None \<Rightarrow> Inr \<lparr>resume_From = from, resume_After = after\<rparr>)))"

definition retry_mode_for :: "Task \<Rightarrow> ActionPayload \<Rightarrow> conflict + (string \<times> Resume)" where
  "retry_mode_for t res =
    (let requested = (if p_retry_mode res = [] then a_retry_mode t else p_retry_mode res) in
     case ResolveRetryMode requested of
       None \<Rightarrow> Inl (UnknownRetryMode requested)
     | Some mode \<Rightarrow> (case resumePoint (a_stages t) (p_resume_from res) of
         Inl c \<Rightarrow> Inl c
       | Inr resume \<Rightarrow>
           if resume_From resume \<noteq> [] \<and> a_owner t \<noteq> [] \<and> blank (a_branch t) then Inl NoPushedBranch
           else (let mode' = (if resume_From resume \<noteq> [] \<and> a_owner t \<noteq> [] then RetryContinuePushedWork else mode)
                 in if mode' = RetryContinuePushedWork \<and> blank (a_branch t) then Inl NoPushedBranch
                    else Inr (mode', resume))))"

definition applyRetry :: "'s Service \<Rightarrow> Task \<Rightarrow> Actor \<Rightarrow> outcome \<Rightarrow> ActionPayload \<Rightarrow> 's world \<Rightarrow> 's handled" where
  "applyRetry sv t a oc res w = (case retry_mode_for t res of
     Inl c \<Rightarrow> (Inl (ErrConflict c), w)
   | Inr (mode, resume) \<Rightarrow>
       (let limit = (case sv_MaxRetries sv of None \<Rightarrow> 0 | Some f \<Rightarrow> f t) in
        if limit > 0 \<and> a_retry_count t \<ge> limit then
          (let reason = ''max retries reached ('' @ int_dec (a_retry_count t) @ ''/'' @ int_dec limit @ '')'';
               w1 = (case st_Transition (sv_store sv) (a_id t) ''parked'' ''dead'' reason (w_store w) of
                       Inl _ \<Rightarrow> warn sv ''transition to dead failed'' (a_id t) w
                     | Inr s \<Rightarrow> emit sv ((o_event oc)\<lparr>e_kind := ''task_dead'', e_detail := reason\<rparr>) (w\<lparr>w_store := s\<rparr>))
           in (Inl (ErrConflict (MaxRetriesReached (a_retry_count t) limit)), w1))
        else (case st_RetryTask (sv_store sv) (a_id t) ''parked'' [] mode resume (w_store w) of
            Inl ErrResumeIncomplete \<Rightarrow> (Inl (ErrConflict (NothingToResume (resume_After resume))), w)
          | Inl e \<Rightarrow> (Inl (ErrStore e), w)
          | Inr s \<Rightarrow>
              (Inr (oc\<lparr>o_event := (o_event oc)\<lparr>e_kind := ''task_retried'', e_detail := describe a ''retried'',
                   e_data := [(''retry_count'', EvInt (a_retry_count t + 1)), (''previous_reason'', EvText (a_park_reason t)),
                              (''retry_mode'', EvText mode)]
                     @ (if resume_From resume \<noteq> [] then [(''resume_from'', EvText (resume_From resume))] else [])\<rparr>\<rparr>),
               w\<lparr>w_store := s\<rparr>))))"

definition declined :: string where "declined = the (ActionTarget ActionReject)"
definition parked :: string where "parked = the (ActionTarget ActionStop)"

definition applyStop :: "'s Service \<Rightarrow> Task \<Rightarrow> Actor \<Rightarrow> outcome \<Rightarrow> 's world \<Rightarrow> 's handled" where
  "applyStop sv t a oc w = (case sv_CancelTask sv of
     None \<Rightarrow> (Inl ErrUnavailable, w)
   | Some cancel \<Rightarrow>
       (let detail = describe a ''stopped'' @ ''; recoverable work remains parked'' in
        case cancelled sv (a_id t) detail parked w of
          (Some e, w1) \<Rightarrow> (Inl (ErrStore e), w1)
        | (None, w1) \<Rightarrow>
            (Inr (oc\<lparr>o_event := (o_event oc)\<lparr>e_kind := ''task_stopped'',
               e_detail := (if cancel (a_id t) then detail
                            else ''no active execution was found; recoverable work was parked, '' @ describe a ''stopped'')\<rparr>\<rparr>),
             called (CancelledRun (a_id t)) w1)))"

definition applyReject :: "'s Service \<Rightarrow> Task \<Rightarrow> Actor \<Rightarrow> outcome \<Rightarrow> 's world \<Rightarrow> 's handled" where
  "applyReject sv t a oc w = (case cancelled sv (a_id t) (describe a ''rejected'') declined w of
     (Some e, w1) \<Rightarrow> (Inl (ErrStore e), w1)
   | (None, w1) \<Rightarrow>
       (Inr \<lparr>o_event = (o_event oc)\<lparr>e_kind := rejectedKind a, e_detail := describe a ''rejected''\<rparr>, o_verb = ''declined''\<rparr>,
        deliver sv (a_id t) w1))"

definition applyCancelOrAbandon :: "'s Service \<Rightarrow> Task \<Rightarrow> string \<Rightarrow> Actor \<Rightarrow> outcome \<Rightarrow> 's world \<Rightarrow> 's handled" where
  "applyCancelOrAbandon sv t action a oc w =
    (if action = ActionAbandon then
       (case cancelled sv (a_id t) (describe a ''abandoned'') declined w of
          (Some e, w1) \<Rightarrow> (Inl (ErrStore e), w1)
        | (None, w1) \<Rightarrow>
            (Inr (oc\<lparr>o_event := (o_event oc)\<lparr>e_kind := ''task_abandoned'', e_detail := describe a ''abandoned''\<rparr>\<rparr>), w1))
     else
       (case cancelled sv (a_id t) (describe a ''cancelled'') declined w of
          (Some e, w1) \<Rightarrow> (Inl (ErrStore e), w1)
        | (None, w1) \<Rightarrow>
            (Inr \<lparr>o_event = (o_event oc)\<lparr>e_kind := ''task_cancelled'', e_detail := describe a ''cancelled''\<rparr>, o_verb = ''cancelled''\<rparr>,
             deliver sv (a_id t) w1)))"

definition applyMerge :: "'s Service \<Rightarrow> Task \<Rightarrow> Actor \<Rightarrow> outcome \<Rightarrow> 's world \<Rightarrow> 's handled" where
  "applyMerge sv t a oc w = (case sv_MergePR sv of
     None \<Rightarrow> (Inl ErrUnavailable, w)
   | Some merge \<Rightarrow>
       if a_pr t \<le> 0 then (Inl (ErrConflict NoPullRequest), w)
       else (let w1 = called (MergedPR (a_owner t) (a_repo t) (a_pr t)) w in
         if \<not> merge (a_owner t) (a_repo t) (a_pr t) then (Inl (ErrConflict (MergeRefused (a_pr t))), w1)
         else (let detail = describe a (''merged pull request #'' @ int_dec (a_pr t)) in
           wrote w1 (oc\<lparr>o_event := (o_event oc)\<lparr>e_kind := ''pr_merge_requested'', e_detail := detail,
                        e_data := [(''pr_number'', EvInt (a_pr t))]\<rparr>\<rparr>)
             (st_Transition (sv_store sv) (a_id t) (a_status t) (the (ActionTarget ActionMerge)) detail (w_store w1)))))"

definition applyArchive :: "'s Service \<Rightarrow> Task \<Rightarrow> Actor \<Rightarrow> outcome \<Rightarrow> 's world \<Rightarrow> 's handled" where
  "applyArchive sv t a oc w =
    (let ev = (o_event oc)\<lparr>e_kind := ''task_archive_requested'', e_detail := describe a ''archive requested''\<rparr> in
     case st_ArchiveTask (sv_store sv) (a_id t) (a_status t) ev (w_store w) of
       Inl e \<Rightarrow> (Inl (ErrStore e), w)
     | Inr (i, s) \<Rightarrow>
         (let w1 = w\<lparr>w_store := s\<rparr>;
              w2 = (case sv_RemoveLogs sv of None \<Rightarrow> w1
                    | Some rm \<Rightarrow> (let w' = called (RemovedLogs (a_id t)) w1 in
                        if rm (a_id t) then w' else warn sv ''task log cleanup failed'' (a_id t) w'));
              w3 = (case sv_RemoveWorktree sv of None \<Rightarrow> w2
                    | Some rm \<Rightarrow> (let w' = called (RemovedWorktree (a_id t)) w2 in
                        if rm t then w' else warn sv ''task worktree cleanup failed'' (a_id t) w'))
          in (Inr (oc\<lparr>o_event := ev\<lparr>e_id := i\<rparr>\<rparr>), w3)))"

definition apply_action :: "'s Service \<Rightarrow> Task \<Rightarrow> Actor \<Rightarrow> string \<Rightarrow> ActionPayload \<Rightarrow> 's world \<Rightarrow> 's handled" where
  "apply_action sv t a action res w =
    (let oc = \<lparr>o_event = attributed t a, o_verb = []\<rparr> in
     if action = ActionApprove then applyApprove sv t a oc res w
     else if action = ActionRereview then applyRereview sv t a oc res w
     else if action = ActionRetry then applyRetry sv t a oc res w
     else if action = ActionStop then applyStop sv t a oc w
     else if action = ActionReject then applyReject sv t a oc w
     else if action = ActionCancel \<or> action = ActionAbandon then applyCancelOrAbandon sv t action a oc w
     else if action = ActionArchive then applyArchive sv t a oc w
     else if action = ActionMerge then applyMerge sv t a oc w
     else (Inl (ErrUnsupported action), w))"

definition after_apply :: "'s Service \<Rightarrow> Task \<Rightarrow> Actor \<Rightarrow> outcome \<Rightarrow> 's world \<Rightarrow> 's world" where
  "after_apply sv t a oc w =
    (let w1 = (if o_verb oc \<noteq> [] \<and> a_status t = PROpen \<and> a_pr t > 0 then closeRejectedPR sv t a (o_verb oc) w else w);
         w2 = (if o_verb oc \<noteq> [] \<and> a_forge t then closeRejectedIssue sv t a (o_verb oc) w1 else w1)
     in emit sv (o_event oc) w2)"

definition Apply ::
    "'s Service \<Rightarrow> string option \<Rightarrow> Actor \<Rightarrow> int \<Rightarrow> string \<Rightarrow> ActionPayload \<Rightarrow> 's world \<Rightarrow> action_error option \<times> 's world" where
  "Apply sv scope a i action res w =
    (case st_TaskByID (sv_store sv) i (w_store w) of
       Inl e \<Rightarrow> (Some (ErrStore e), w)
     | Inr None \<Rightarrow> (Some (ErrNotFound i), w)
     | Inr (Some t) \<Rightarrow>
         if scope \<noteq> None \<and> Some (a_identity t) \<noteq> scope then (Some (ErrOtherIdentity (a_identity t) (the scope)), w)
         else (case CheckAction (a_status t) action of
             Some e \<Rightarrow> (Some (ErrConflict (NotAllowed e)), w)
           | None \<Rightarrow> (case apply_action sv t a action res w of
               (Inl e, w1) \<Rightarrow> (Some e, w1)
             | (Inr oc, w1) \<Rightarrow> (None, after_apply sv t a oc w1))))"

definition Withdraw :: "'s Service \<Rightarrow> int \<Rightarrow> string \<Rightarrow> 's world \<Rightarrow> action_error option \<times> 's world" where
  "Withdraw sv i reason w =
    (case st_TaskByID (sv_store sv) i (w_store w) of
       Inl e \<Rightarrow> (Some (ErrStore e), w)
     | Inr None \<Rightarrow> (None, w)
     | Inr (Some t) \<Rightarrow>
         if (a_status t \<noteq> Queued \<and> a_status t \<noteq> Running) \<or> a_pr t > 0 then (None, w)
         else (let ev = (attributed t no_actor)\<lparr>e_kind := ''task_withdrawn'', e_detail := ''issue withdrawn: '' @ reason,
                         e_data := [(''reason'', EvText reason)]\<rparr> in
           case cancelled sv (a_id t) (e_detail ev) declined w of
             (Some e, w1) \<Rightarrow> (Some (ErrStore e), w1)
           | (None, w1) \<Rightarrow> (None, emit sv ev (deliver sv (a_id t) w1))))"

section \<open>The PostgreSQL store as the service sees it\<close>

text \<open>\<open>stages\<close> reads the stage names of a pinned definition; one that does not parse has none.\<close>

definition task_view :: "(string \<Rightarrow> string list) \<Rightarrow> task_row \<Rightarrow> Task" where
  "task_view stages r = \<lparr>a_id = t_id r, a_owner = t_owner r, a_repo = t_repo r, a_identity = t_identity r,
     a_status = t_status r, a_park_reason = t_park_reason r, a_issue = t_issue r, a_retry_count = t_retry_count r,
     a_pr = t_pr r, a_forge = (t_source r \<noteq> ''chat''), a_branch = t_branch r, a_retry_mode = t_retry_mode r,
     a_gate = t_review_gate r, a_rereviews = t_rereview_rounds r, a_stages = stages (t_def_yaml r),
     a_attempt = t_attempt r\<rparr>"

definition pg_store :: "(string \<Rightarrow> string list) \<Rightarrow> string option \<Rightarrow> db Store" where
  "pg_store stages scope = \<lparr>
     st_TaskByID = (\<lambda>i d. Inr (map_option (task_view stages) (TaskByID scope d i))),
     st_Transition = Transition, st_Requeue = Requeue, st_RetryTask = RetryTask,
     st_RespondReviewGate = RespondReviewGate, st_ArchiveTask = ArchiveTask,
     st_InsertEvent = (\<lambda>e d. Inr (insertEventQ e d)), st_CancelExecution = CancelExecution\<rparr>"

end
