(* ===== verification/Task_Store_Inv.thy ===== *)
theory Task_Store_Inv
  imports Task_Store
begin

text \<open>
  The State Store's invariant and what every operation does to the rows: ids stay unique, every
  status is one the lifecycle knows, the audit log holds legal moves only and is append-only, step
  trees stay inside one attempt, and a task's or step's status moves only along its transition
  table. Each statement is proved for the primitive statements first and composed with
  \<open>good_trans\<close>.
\<close>

section \<open>The invariant\<close>

definition legal_row :: "transition_row \<Rightarrow> bool" where
  "legal_row x \<longleftrightarrow> CanTransition (r_from x) (r_to x)"

definition parent_ok :: "step_row list \<Rightarrow> step_row \<Rightarrow> bool" where
  "parent_ok ss s \<longleftrightarrow>
    (if s_parent s = 0 then s_depth s = 0
     else \<exists>p\<in>set ss. s_id p = s_parent s \<and> s_id p < s_id s \<and> s_execution p = s_execution s
            \<and> s_attempt p = s_attempt s \<and> s_depth s = s_depth p + 1)"

definition row_ok :: "db \<Rightarrow> task_row \<Rightarrow> bool" where
  "row_ok d r \<longleftrightarrow> 0 < t_id r \<and> t_id r < next_task d \<and> known_status (t_status r)
     \<and> 0 \<le> t_call_depth r \<and> t_call_depth r \<le> MaxCallDepth"

definition step_ok :: "db \<Rightarrow> step_row \<Rightarrow> bool" where
  "step_ok d s \<longleftrightarrow> 0 < s_id s \<and> s_id s < next_step d \<and> known_step_status (s_status s)
     \<and> ValidStepKind (s_kind s) \<and> parent_ok (steps d) s"

text \<open>A call site has at most one live child: what the partial unique index enforces.\<close>

definition live_call :: "task_row \<Rightarrow> bool" where
  "live_call r \<longleftrightarrow> live_child (t_call_parent r) (t_call_key r) r"

definition unique_calls :: "task_row list \<Rightarrow> bool" where
  "unique_calls ts \<longleftrightarrow> (\<forall>r\<in>set ts. \<forall>q\<in>set ts. live_call r \<and> live_call q
     \<and> t_call_parent q = t_call_parent r \<and> t_call_key q = t_call_key r \<longrightarrow> q = r)"

definition wf_db :: "db \<Rightarrow> bool" where
  "wf_db d \<longleftrightarrow> 0 < next_task d \<and> 0 < next_step d
     \<and> distinct (map t_id (tasks d)) \<and> (\<forall>r\<in>set (tasks d). row_ok d r)
     \<and> distinct (map s_id (steps d)) \<and> (\<forall>s\<in>set (steps d). step_ok d s)
     \<and> (\<forall>x\<in>set (transitions d). legal_row x) \<and> unique_calls (tasks d)"

definition task_evolves :: "task_row \<Rightarrow> task_row \<Rightarrow> bool" where
  "task_evolves r r' \<longleftrightarrow> t_id r' = t_id r \<and> t_org r' = t_org r \<and> t_call_parent r' = t_call_parent r
     \<and> t_call_depth r' = t_call_depth r \<and> t_call_key r' = t_call_key r
     \<and> t_attempt r \<le> t_attempt r' \<and> CanTransition\<^sup>*\<^sup>* (t_status r) (t_status r')"

definition step_evolves :: "step_row \<Rightarrow> step_row \<Rightarrow> bool" where
  "step_evolves s s' \<longleftrightarrow> s' = s \<or>
     (s_id s' = s_id s \<and> s_execution s' = s_execution s \<and> s_attempt s' = s_attempt s
      \<and> s_parent s' = s_parent s \<and> s_depth s' = s_depth s \<and> s_kind s' = s_kind s
      \<and> s_name s' = s_name s \<and> s_called s' = s_called s
      \<and> CanStepTransition\<^sup>+\<^sup>+ (s_status s) (s_status s'))"

definition steps_evolve :: "step_row list \<Rightarrow> step_row list \<Rightarrow> bool" where
  "steps_evolve ss ss' \<longleftrightarrow> (\<exists>ys zs. ss' = ys @ zs \<and> list_all2 step_evolves ss ys)"

definition evolves :: "db \<Rightarrow> db \<Rightarrow> bool" where
  "evolves d d' \<longleftrightarrow> next_task d \<le> next_task d'
     \<and> (\<forall>r'\<in>set (tasks d'). (\<exists>r\<in>set (tasks d). task_evolves r r') \<or> next_task d \<le> t_id r')
     \<and> steps_evolve (steps d) (steps d')
     \<and> prefix (transitions d) (transitions d') \<and> prefix (db_events d) (db_events d')"

definition good :: "db \<Rightarrow> db \<Rightarrow> bool" where
  "good d d' \<longleftrightarrow> wf_db d' \<and> evolves d d'"

section \<open>The preorder\<close>

lemma task_evolves_refl [simp, intro]: "task_evolves r r"
  by (simp add: task_evolves_def)

lemma task_evolves_trans: "task_evolves a b \<Longrightarrow> task_evolves b c \<Longrightarrow> task_evolves a c"
  by (auto simp: task_evolves_def)

lemma step_evolves_refl [simp, intro]: "step_evolves s s"
  by (simp add: step_evolves_def)

lemma step_evolves_trans: "step_evolves a b \<Longrightarrow> step_evolves b c \<Longrightarrow> step_evolves a c"
  unfolding step_evolves_def by (auto intro: tranclp_trans)

lemma list_all2_step_evolves_refl [simp]: "list_all2 step_evolves ss ss"
  by (simp add: list_all2_refl)

lemma steps_evolve_append [simp]: "steps_evolve ss (ss @ zs)"
  unfolding steps_evolve_def by (intro exI [of _ ss] exI [of _ zs]) simp

lemma steps_evolve_refl [simp]: "steps_evolve ss ss"
  using steps_evolve_append [of ss "[]"] by simp

lemma steps_evolve_trans:
  assumes "steps_evolve a b" and "steps_evolve b c"
  shows "steps_evolve a c"
proof -
  from assms obtain y1 z1 y2 z2 where
    s: "b = y1 @ z1" "list_all2 step_evolves a y1" "c = y2 @ z2" "list_all2 step_evolves b y2"
    unfolding steps_evolve_def by blast
  then obtain u v where uv: "y2 = u @ v" "list_all2 step_evolves y1 u"
    by (auto simp: list_all2_append1)
  have "list_all2 step_evolves a u"
    by (rule list_all2_trans [OF step_evolves_trans s(2) uv(2)])
  with s(3) uv(1) show ?thesis unfolding steps_evolve_def by auto
qed

lemma evolves_refl [simp, intro]: "evolves d d"
  by (auto simp: evolves_def)

lemma evolves_trans:
  assumes "evolves a b" and "evolves b c"
  shows "evolves a c"
proof -
  have "steps_evolve (steps a) (steps c)"
    using assms unfolding evolves_def by (blast intro: steps_evolve_trans)
  moreover have "(\<exists>r\<in>set (tasks a). task_evolves r r') \<or> next_task a \<le> t_id r'"
    if "r' \<in> set (tasks c)" for r'
  proof -
    from that assms(2) consider q where "q \<in> set (tasks b)" "task_evolves q r'" | "next_task b \<le> t_id r'"
      unfolding evolves_def by blast
    then show ?thesis
    proof cases
      case 1
      with assms(1) consider r where "r \<in> set (tasks a)" "task_evolves r q" | "next_task a \<le> t_id q"
        unfolding evolves_def by blast
      then show ?thesis
        using 1 by cases (auto intro: task_evolves_trans simp: task_evolves_def)
    next
      case 2
      with assms(1) show ?thesis by (auto simp: evolves_def)
    qed
  qed
  ultimately show ?thesis
    using assms unfolding evolves_def by (auto intro: prefix_order.trans)
qed

lemma good_refl: "wf_db d \<Longrightarrow> good d d"
  by (simp add: good_def)

lemma good_wf: "good d d' \<Longrightarrow> wf_db d'"
  by (simp add: good_def)

lemma good_trans: "good a b \<Longrightarrow> good b c \<Longrightarrow> good a c"
  unfolding good_def by (blast intro: evolves_trans)

section \<open>Primitive statements\<close>

text \<open>An UPDATE of tasks is good when each row it selects evolves.\<close>

lemma known_rtrancl: "CanTransition\<^sup>*\<^sup>* a b \<Longrightarrow> known_status a \<Longrightarrow> known_status b"
  by (induction rule: rtranclp_induct) (auto dest: CanTransition_known)

lemma Terminal_stays: "CanTransition\<^sup>*\<^sup>* a b \<Longrightarrow> Terminal a \<Longrightarrow> b = a"
  by (induction rule: rtranclp_induct) (auto dest: Terminal_no_transition)

lemma live_call_back:
  assumes "task_evolves r r'" and "live_call r'"
  shows "live_call r"
proof (rule ccontr)
  assume n: "\<not> live_call r"
  with assms have "t_status r = ''dead'' \<or> t_status r = ''closed_wont_do''"
    by (auto simp: live_call_def live_child_def task_evolves_def)
  then have "Terminal (t_status r)" by (auto simp: Terminal_def lifecycle_simps)
  with assms(1) have "t_status r' = t_status r" by (auto simp: task_evolves_def dest: Terminal_stays)
  with assms n show False by (auto simp: live_call_def live_child_def task_evolves_def)
qed

lemma unique_calls_map:
  assumes u: "unique_calls ts" and ev: "\<And>r. r \<in> set ts \<Longrightarrow> task_evolves r (g r)"
  shows "unique_calls (map g ts)"
proof -
  have "g q = g r" if "r \<in> set ts" "q \<in> set ts" "live_call (g r)" "live_call (g q)"
      "t_call_parent (g q) = t_call_parent (g r)" "t_call_key (g q) = t_call_key (g r)" for r q
  proof -
    have "live_call r" "live_call q" using that ev live_call_back by blast+
    moreover have "t_call_parent q = t_call_parent r" "t_call_key q = t_call_key r"
      using that ev by (auto simp: task_evolves_def)
    ultimately have "q = r" using u that(1,2) by (auto simp: unique_calls_def)
    then show ?thesis by simp
  qed
  then show ?thesis by (auto simp: unique_calls_def)
qed

lemma unique_calls_subset: "unique_calls ts \<Longrightarrow> set us \<subseteq> set ts \<Longrightarrow> unique_calls us"
  by (auto simp: unique_calls_def)

lemma good_update_tasks:
  assumes wf: "wf_db d" and f: "\<And>r. r \<in> set (tasks d) \<Longrightarrow> P r \<Longrightarrow> task_evolves r (f r)"
  shows "good d (update_tasks P f d)"
proof -
  let ?g = "\<lambda>r. if P r then f r else r"
  have ev: "task_evolves r (?g r)" if "r \<in> set (tasks d)" for r
    using f [OF that] by auto
  have ids: "map t_id (map ?g (tasks d)) = map t_id (tasks d)"
    using ev by (auto simp: task_evolves_def)
  have rows: "row_ok d (?g r)" if "r \<in> set (tasks d)" for r
    using wf that ev [OF that] known_rtrancl unfolding wf_db_def row_ok_def task_evolves_def by metis
  have "\<forall>r\<in>set (map ?g (tasks d)). row_ok (update_tasks P f d) r"
    unfolding set_map using rows by (auto simp: row_ok_def simp del: if_image_distrib)
  moreover have "unique_calls (map ?g (tasks d))"
    using wf ev by (intro unique_calls_map) (auto simp: wf_db_def)
  ultimately have "wf_db (update_tasks P f d)"
    using wf unfolding wf_db_def step_ok_def update_tasks_simps ids by blast
  moreover have "evolves d (update_tasks P f d)"
    unfolding evolves_def using ev by fastforce
  ultimately show ?thesis by (simp add: good_def)
qed

lemma good_update_steps:
  assumes wf: "wf_db d"
    and f: "\<And>s. s \<in> set (steps d) \<Longrightarrow> P s \<Longrightarrow> step_evolves s (f s) \<and> known_step_status (s_status (f s))"
  shows "good d (update_steps P f d)"
proof -
  let ?g = "\<lambda>s. if P s then f s else s"
  have ev: "step_evolves s (?g s)" if "s \<in> set (steps d)" for s
    using f [OF that] by auto
  have same: "s_id (?g s) = s_id s" "s_execution (?g s) = s_execution s" "s_attempt (?g s) = s_attempt s"
      "s_parent (?g s) = s_parent s" "s_depth (?g s) = s_depth s" "s_kind (?g s) = s_kind s"
    if "s \<in> set (steps d)" for s
    using ev [OF that] by (auto simp: step_evolves_def)
  have ids: "map s_id (map ?g (steps d)) = map s_id (steps d)"
    using same by auto
  have par: "parent_ok (map ?g (steps d)) (?g s)" if s: "s \<in> set (steps d)" and p: "parent_ok (steps d) s" for s
  proof (cases "s_parent s = 0")
    case True
    with p show ?thesis by (simp add: parent_ok_def same [OF s])
  next
    case False
    with p obtain q where q: "q \<in> set (steps d)" "s_id q = s_parent s" "s_id q < s_id s"
        "s_execution q = s_execution s" "s_attempt q = s_attempt s" "s_depth s = s_depth q + 1"
      by (auto simp: parent_ok_def)
    then have "?g q \<in> set (map ?g (steps d))" by simp
    then show ?thesis
      using False q unfolding parent_ok_def same [OF s] by (auto simp: same simp del: set_map intro!: bexI [of _ "?g q"])
  qed
  have ok: "step_ok (update_steps P f d) (?g s)" if s: "s \<in> set (steps d)" for s
  proof -
    from wf s have "step_ok d s" by (simp add: wf_db_def)
    then show ?thesis using par [OF s] same [OF s] f [OF s] by (auto simp: step_ok_def)
  qed
  have "\<forall>s\<in>set (map ?g (steps d)). step_ok (update_steps P f d) s"
    unfolding set_map using ok by blast
  then have "wf_db (update_steps P f d)"
    using wf unfolding wf_db_def row_ok_def update_steps_simps ids by blast
  moreover have "list_all2 step_evolves (steps d) (map ?g (steps d))"
    using ev by (simp add: list_all2_map2 list.rel_refl_strong)
  then have "steps_evolve (steps d) (map ?g (steps d))"
    unfolding steps_evolve_def by (intro exI [of _ "map ?g (steps d)"] exI [of _ "[]"]) simp
  then have "evolves d (update_steps P f d)"
    by (auto simp: evolves_def)
  ultimately show ?thesis by (simp add: good_def)
qed

lemma good_InsertTransition:
  assumes "wf_db d" and "CanTransition from to"
  shows "good d (q_InsertTransition i from to m d)"
  using assms unfolding good_def wf_db_def evolves_def row_ok_def step_ok_def
  by (auto simp: q_InsertTransition_def legal_row_def)

lemma good_audited:
  "good d d1 \<Longrightarrow> CanTransition from to \<Longrightarrow> good d (q_InsertTransition i from to m d1)"
  by (blast intro: good_trans good_InsertTransition good_wf)

lemma good_insertEventQ: "wf_db d \<Longrightarrow> good d (snd (insertEventQ e d))"
  unfolding good_def wf_db_def evolves_def row_ok_def step_ok_def
  by (auto simp: insertEventQ_def)

lemma good_delete_tasks: "wf_db d \<Longrightarrow> good d (snd (delete_tasks P d))"
  unfolding good_def wf_db_def evolves_def row_ok_def step_ok_def
  by (auto simp: delete_tasks_def distinct_map_filter intro: unique_calls_subset)

lemma unique_calls_append:
  assumes "unique_calls ts" and "t_call_key r = [] \<or> find (live_child (t_call_parent r) (t_call_key r)) ts = None"
  shows "unique_calls (ts @ [r])"
proof -
  have "\<not> live_call r \<or> \<not> live_call q \<or> t_call_parent q \<noteq> t_call_parent r \<or> t_call_key q \<noteq> t_call_key r"
    if "q \<in> set ts" for q
    using assms(2) that by (auto simp: live_call_def live_child_def find_None_iff)
  with assms(1) show ?thesis unfolding unique_calls_def by fastforce
qed

lemma good_append_task:
  assumes wf: "wf_db d" and "known_status (t_status r)" "0 \<le> t_call_depth r" "t_call_depth r \<le> MaxCallDepth"
    and "t_call_key r = [] \<or> find (live_child (t_call_parent r) (t_call_key r)) (tasks d) = None"
  shows "good d (append_task r d)"
proof -
  have "unique_calls (tasks d @ [r\<lparr>t_id := next_task d\<rparr>])"
    using assms by (intro unique_calls_append) (auto simp: wf_db_def)
  then show ?thesis
    using assms unfolding good_def wf_db_def evolves_def row_ok_def step_ok_def
    by (auto simp: append_task_def)
qed

lemma good_insert_step:
  assumes wf: "wf_db d" and "ValidStepKind (s_kind r)"
    and par: "s_parent r = 0 \<longrightarrow> s_depth r = 0"
      "s_parent r \<noteq> 0 \<longrightarrow> (\<exists>p\<in>set (steps d). s_id p = s_parent r \<and> s_execution p = s_execution r
          \<and> s_attempt p = s_attempt r \<and> s_depth r = s_depth p + 1)"
  shows "good d (snd (q_InsertStepExecution r d))"
proof -
  let ?d' = "snd (q_InsertStepExecution r d)"
  let ?n = "r\<lparr>s_id := next_step d, s_status := ''pending''\<rparr>"
  have st: "steps ?d' = steps d @ [?n]" "next_step ?d' = next_step d + 1" "tasks ?d' = tasks d"
      "next_task ?d' = next_task d" "transitions ?d' = transitions d" "db_events ?d' = db_events d"
    by (simp_all add: q_InsertStepExecution_def)
  have ids: "0 < s_id s" "s_id s < next_step d" "parent_ok (steps d) s" if "s \<in> set (steps d)" for s
    using wf that by (auto simp: wf_db_def step_ok_def)
  have "parent_ok (steps d @ [?n]) s" if "s \<in> set (steps d)" for s
    using ids(3) [OF that] by (auto simp: parent_ok_def split: if_splits)
  moreover have "parent_ok (steps d @ [?n]) ?n"
    using par ids(2) by (auto simp: parent_ok_def)
  moreover have "known_step_status ''pending''"
    by (simp add: known_step_status_iff lifecycle_simps)
  ultimately have "wf_db ?d'"
    using wf assms(2) unfolding wf_db_def step_ok_def row_ok_def st by fastforce
  moreover have "evolves d ?d'"
    unfolding evolves_def st by auto
  ultimately show ?thesis by (simp add: good_def)
qed

section \<open>Statements and operations\<close>

text \<open>A write that moves the status along the table, or leaves it, and keeps what identifies the
  row.\<close>

lemma task_evolvesI:
  assumes "t_id r' = t_id r" "t_org r' = t_org r" "t_call_parent r' = t_call_parent r"
    "t_call_depth r' = t_call_depth r" "t_call_key r' = t_call_key r" "t_attempt r \<le> t_attempt r'"
    and "t_status r' = t_status r \<or> CanTransition (t_status r) (t_status r')"
  shows "task_evolves r r'"
  using assms by (auto simp: task_evolves_def)

lemma step_evolvesI:
  assumes "s_id s' = s_id s" "s_execution s' = s_execution s" "s_attempt s' = s_attempt s"
    "s_parent s' = s_parent s" "s_depth s' = s_depth s" "s_kind s' = s_kind s" "s_name s' = s_name s"
    "s_called s' = s_called s" and "CanStepTransition (s_status s) (s_status s')"
  shows "step_evolves s s'"
  using assms by (auto simp: step_evolves_def)

lemma legal_pairs [simp]:
  "CanTransition ''queued'' ''running''" "CanTransition ''pr_open'' ''queued''"
  "CanTransition ''running'' ''queued''"
  by (simp_all add: CanTransition_iff lifecycle_simps)

lemma legal_step_pairs [simp]:
  "CanStepTransition ''pending'' ''running''" "CanStepTransition ''pending'' ''cancelled''"
  "CanStepTransition ''running'' ''cancelled''" "CanStepTransition ''running'' ''interrupted''"
  by (simp_all add: CanStepTransition_iff lifecycle_simps)

lemma known_step_status_after: "CanStepTransition a b \<Longrightarrow> known_step_status b"
  by (auto simp: CanStepTransition_iff known_step_status_iff StepTerminal_def)

lemma good_q_TransitionTask:
  "wf_db d \<Longrightarrow> CanTransition from to \<Longrightarrow> good d (snd (q_TransitionTask i to m c from d))"
  unfolding q_TransitionTask_def Let_def snd_conv
  by (rule good_update_tasks) (auto intro: task_evolvesI)

lemma good_q_ParkTask:
  "wf_db d \<Longrightarrow> CanTransition from Parked \<Longrightarrow> good d (snd (q_ParkTask i m c from d))"
  unfolding q_ParkTask_def Let_def snd_conv Parked_def
  by (rule good_update_tasks) (auto intro: task_evolvesI)

lemma good_q_RequeueTask:
  "wf_db d \<Longrightarrow> CanTransition from Queued \<Longrightarrow> good d (snd (q_RequeueTask i w from d))"
  unfolding q_RequeueTask_def Let_def snd_conv Queued_def
  by (rule good_update_tasks) (auto intro: task_evolvesI)

lemma good_q_RetryTask:
  "wf_db d \<Longrightarrow> CanTransition from Queued \<Longrightarrow> good d (snd (q_RetryTask i w from m rf rs d))"
  unfolding q_RetryTask_def Let_def snd_conv Queued_def
  by (rule good_update_tasks) (auto intro: task_evolvesI)

lemma good_q_RespondReviewGateTask:
  "wf_db d \<Longrightarrow> CanTransition from Queued \<Longrightarrow> good d (snd (q_RespondReviewGateTask i from g b c d))"
  unfolding q_RespondReviewGateTask_def Let_def snd_conv Queued_def
  by (rule good_update_tasks) (auto intro: task_evolvesI)

lemma good_q_BeginRemediationTask: "wf_db d \<Longrightarrow> good d (snd (q_BeginRemediationTask i p d))"
  unfolding q_BeginRemediationTask_def Let_def snd_conv
  by (rule good_update_tasks) (auto intro: task_evolvesI)

lemma good_q_AppendPendingReview: "wf_db d \<Longrightarrow> good d (snd (q_AppendPendingReview i p d))"
  unfolding q_AppendPendingReview_def Let_def snd_conv
  by (rule good_update_tasks) (auto intro: task_evolvesI)

lemma good_q_PromotePendingReview: "wf_db d \<Longrightarrow> good d (snd (q_PromotePendingReview i d))"
  unfolding q_PromotePendingReview_def Let_def snd_conv
  by (rule good_update_tasks) (auto intro: task_evolvesI)

lemma good_q_SetReviewCursors: "wf_db d \<Longrightarrow> good d (snd (q_SetReviewCursors i a b d))"
  unfolding q_SetReviewCursors_def Let_def snd_conv
  by (rule good_update_tasks) (auto intro: task_evolvesI)

lemma good_q_UpdateTask: "wf_db d \<Longrightarrow> good d (q_UpdateTask t d)"
  unfolding q_UpdateTask_def
  by (rule good_update_tasks) (auto simp: updated_row_def Let_def intro: task_evolvesI)

lemma good_claim:
  "wf_db d \<Longrightarrow> (\<And>r. r \<in> set (tasks d) \<Longrightarrow> P r \<Longrightarrow> t_status r = ''queued'') \<Longrightarrow> good d (update_tasks P claim_row d)"
  by (rule good_update_tasks) (auto simp: claim_row_def intro: task_evolvesI)

lemma good_q_CancelAttemptSteps: "wf_db d \<Longrightarrow> good d (snd (q_CancelAttemptSteps ex a d))"
  unfolding q_CancelAttemptSteps_def snd_conv
  by (rule good_update_steps)
     (auto simp: attempt_open_def open_step_def intro: step_evolvesI known_step_status_after [OF legal_step_pairs(3)])

lemma good_q_InterruptAttemptSteps: "wf_db d \<Longrightarrow> good d (snd (q_InterruptAttemptSteps ex a d))"
  unfolding q_InterruptAttemptSteps_def Let_def snd_conv
  by (rule good_update_steps) (auto intro: step_evolvesI known_step_status_after [OF legal_step_pairs(4)])

lemma good_q_StartStepExecution: "wf_db d \<Longrightarrow> good d (snd (q_StartStepExecution i d))"
  unfolding q_StartStepExecution_def Let_def snd_conv
  by (rule good_update_steps) (auto intro: step_evolvesI known_step_status_after [OF legal_step_pairs(1)])

lemma good_q_FinishStepExecution:
  "wf_db d \<Longrightarrow> CanStepTransition from to \<Longrightarrow> good d (snd (q_FinishStepExecution i from to m k rs d))"
  unfolding q_FinishStepExecution_def Let_def snd_conv
  by (rule good_update_steps) (auto intro: step_evolvesI known_step_status_after)

lemma good_sweep_events: "wf_db d \<Longrightarrow> good d (sweep_events ex m ss d)"
  unfolding sweep_events_def
proof (induction ss arbitrary: d)
  case (Cons s ss)
  have "good d (snd (insertEventQ (stepEvent KindStageFinish ex (t_attempt ex) (s_name s) [(m, EvBool True)]) d))"
    using Cons.prems by (rule good_insertEventQ)
  with Cons.IH show ?case by (auto intro: good_trans good_wf)
qed (simp add: good_refl)

subsection \<open>Guarded writes\<close>

lemma guardTransition_None:
  "guardTransition d i from to = None \<longleftrightarrow>
     CanTransition from to \<and> (\<exists>r. task_by_id d i = Some r \<and> t_status r = from)"
  by (auto simp: guardTransition_def split: option.splits)

lemma good_guarded_write:
  assumes "wf_db d" and "guarded_write i from to m u d = Inr d'"
    and "CanTransition from to \<Longrightarrow> good d (snd (u d))"
  shows "good d d'"
proof -
  from assms(2) have g: "guardTransition d i from to = None" and d': "d' = q_InsertTransition i from to m (snd (u d))"
    by (auto simp: guarded_write_def split: option.splits prod.splits if_splits)
  from g have c: "CanTransition from to" by (simp add: guardTransition_None)
  then have "good d (snd (u d))" by (rule assms(3))
  then show ?thesis unfolding d' using c by (rule good_audited)
qed

lemma good_promote_next_review:
  assumes "wf_db d"
  shows "good d (promote_next_review i d)"
proof -
  have g: "good d (snd (q_PromotePendingReview i d))" using assms by (rule good_q_PromotePendingReview)
  have c: "CanTransition PROpen Queued" by (simp add: lifecycle_simps)
  show ?thesis
    using g good_audited [OF g c] by (cases "q_PromotePendingReview i d") (simp add: promote_next_review_def)
qed

lemma good_Transition:
  assumes "wf_db d" and "Transition i from to m d = Inr d'"
  shows "good d d'"
proof -
  from assms(2) obtain d1 where
    w: "guarded_write i from to (clip m 4000) (q_TransitionTask i to (clip m 4000) ParkNeedsHuman from) d = Inr d1"
    and d': "d' = (if to = PROpen then promote_next_review i d1 else d1)"
    by (auto simp: Transition_def split: sum.splits)
  have "good d d1" by (rule good_guarded_write [OF assms(1) w good_q_TransitionTask [OF assms(1)]])
  then show ?thesis
    unfolding d' using good_promote_next_review good_wf good_trans by auto
qed

lemma good_ParkTask: "wf_db d \<Longrightarrow> ParkTask i from m c d = Inr d' \<Longrightarrow> good d d'"
  unfolding ParkTask_def by (rule good_guarded_write) (auto intro: good_q_ParkTask)

lemma good_Requeue: "wf_db d \<Longrightarrow> Requeue i from w d = Inr d' \<Longrightarrow> good d d'"
  unfolding Requeue_def by (rule good_guarded_write) (auto intro: good_q_RequeueTask)

lemma good_RetryTask:
  assumes "wf_db d" and "RetryTask i from w m r d = Inr d'"
  shows "good d d'"
proof -
  from assms(2) obtain rs where
    "guarded_write i from Queued (''retried '' @ w) (q_RetryTask i w from m (resume_From r) rs) d = Inr d'"
    by (auto simp: RetryTask_def split: option.splits sum.splits)
  from good_guarded_write [OF assms(1) this good_q_RetryTask [OF assms(1)]] show ?thesis .
qed

lemma good_RespondReviewGate:
  assumes "wf_db d" and "RespondReviewGate i from g b c d = Inr d'"
  shows "good d d'"
proof -
  from assms(2) obtain m where
    "guarded_write i from Queued m (q_RespondReviewGateTask i from g b c) d = Inr d'"
    by (auto simp: RespondReviewGate_def split: option.splits if_splits)
  from good_guarded_write [OF assms(1) this good_q_RespondReviewGateTask [OF assms(1)]] show ?thesis .
qed

lemma good_Update: "wf_db d \<Longrightarrow> Update t d = Inr d' \<Longrightarrow> good d d'"
  by (auto simp: Update_def good_q_UpdateTask split: if_splits)

lemma good_BeginRemediation:
  assumes "wf_db d" and "BeginRemediation i p d = Inr d'"
  shows "good d d'"
proof (cases "guardTransition d i PROpen Queued")
  case None
  with assms(2) have "d' = q_InsertTransition i PROpen Queued ''review reaction queued remediation''
      (snd (q_BeginRemediationTask i (clip p 4000) d))"
    by (auto simp: BeginRemediation_def split: prod.splits if_splits)
  moreover from None have "CanTransition PROpen Queued" by (simp add: guardTransition_None)
  ultimately show ?thesis
    using assms(1) by (simp add: good_audited good_q_BeginRemediationTask)
next
  case (Some e)
  with assms(2) have "d' = snd (q_AppendPendingReview i (clip p 4000) d)"
    by (auto simp: BeginRemediation_def split: prod.splits if_splits)
  then show ?thesis using assms(1) by (simp add: good_q_AppendPendingReview)
qed

lemma good_SetReviewCursors: "wf_db d \<Longrightarrow> SetReviewCursors i a b d = Inr d' \<Longrightarrow> good d d'"
  using good_q_SetReviewCursors [of d i a b]
  by (auto simp: SetReviewCursors_def split: prod.splits if_splits)

lemma good_UpdateReviewPayload:
  assumes "wf_db d" and "UpdateReviewPayload um ma i p d = Inr d'"
  shows "good d d'"
proof -
  from assms(2) obtain a ps where
    d': "d' = update_tasks (\<lambda>r. t_id r = i) (\<lambda>r. r\<lparr>t_review_payload := a, t_pending_reviews := ps\<rparr>) d"
    by (auto simp: UpdateReviewPayload_def split: sum.splits option.splits if_splits prod.splits)
  show ?thesis unfolding d' using assms(1) by (rule good_update_tasks) (auto intro: task_evolvesI)
qed

lemma good_ArchiveTask:
  assumes "wf_db d" and "ArchiveTask i from e d = Inr (eid, d')"
  shows "good d d'"
proof -
  have g: "good d (snd (insertEventQ e d))" using assms(1) by (rule good_insertEventQ)
  have "d' = snd (delete_tasks (\<lambda>r. t_id r = i \<and> t_status r = from) (snd (insertEventQ e d)))"
    using assms(2) by (auto simp: ArchiveTask_def q_ArchiveTaskDelete_def split: prod.splits if_splits)
  with g show ?thesis by (auto intro: good_trans good_delete_tasks good_wf)
qed

lemma good_ClearTerminalTasks: "wf_db d \<Longrightarrow> good d (snd (ClearTerminalTasks scope d))"
  unfolding ClearTerminalTasks_def q_ClearTerminalTasks_def by (rule good_delete_tasks)

subsection \<open>Enqueueing, claiming and calls\<close>

lemma known_queued [simp]: "known_status Queued"
  by (simp add: known_status_iff)

lemma good_EnqueueIssue: "wf_db d \<Longrightarrow> good d (snd (EnqueueIssue ow rp n t b l w d))"
  by (auto simp: EnqueueIssue_def Let_def good_refl issue_row_def default_row_def MaxCallDepth_def
           intro!: good_append_task)

lemma good_chat_append: "wf_db d \<Longrightarrow> good d (append_task (chat_row d ow rp t b wfl w og inp) d)"
  by (rule good_append_task) (auto simp: chat_row_def default_row_def MaxCallDepth_def)

lemma good_EnqueueChatTask:
  "wf_db d \<Longrightarrow> EnqueueChatTask sc ow rp t b wfl w og inp d = Inr (r, d') \<Longrightarrow> good d d'"
  by (auto simp: EnqueueChatTask_def Let_def good_chat_append split: if_splits)

lemma good_EnqueueBindingTask:
  assumes "wf_db d" and "EnqueueBindingTask sc ow rp t b wfl w bi v inp d = Inr (r, d')"
  shows "good d d'"
proof -
  from assms(2) obtain q d1 where
    e: "EnqueueChatTask sc ow rp t b wfl w [] inp d = Inr (q, d1)" and
    d': "d' = update_tasks (\<lambda>x. t_id x = t_id q) (\<lambda>x. x\<lparr>t_binding := bi, t_binding_version := v\<rparr>) d1"
    by (auto simp: EnqueueBindingTask_def Let_def split: sum.splits)
  from e assms(1) have g: "good d d1" by (blast intro: good_EnqueueChatTask)
  then have "good d1 d'"
    unfolding d' by (intro good_update_tasks) (auto intro: good_wf task_evolvesI)
  with g show ?thesis by (rule good_trans)
qed

lemma good_ClaimNext:
  assumes "wf_db d"
  shows "good d (snd (ClaimNext d))"
proof (cases "sort (map t_id (filter (\<lambda>r. t_status r = ''queued'') (tasks d)))")
  case Nil
  with assms show ?thesis by (simp add: ClaimNext_def q_ClaimNextTask_def good_refl)
next
  case (Cons i js)
  then have "i \<in> set (sort (map t_id (filter (\<lambda>r. t_status r = ''queued'') (tasks d))))" by simp
  then obtain q where q: "q \<in> set (tasks d)" "t_id q = i" "t_status q = ''queued''" by auto
  with assms have "t_status r = ''queued''" if "r \<in> set (tasks d)" "t_id r = i" for r
    using that by (auto simp: wf_db_def distinct_map dest: inj_onD)
  with assms have "good d (update_tasks (\<lambda>r. t_id r = i) claim_row d)" by (rule good_claim)
  with Cons show ?thesis by (simp add: ClaimNext_def q_ClaimNextTask_def Let_def)
qed

lemma good_ClaimByIssue: "wf_db d \<Longrightarrow> good d (snd (ClaimByIssue ow rp n d))"
  unfolding ClaimByIssue_def q_ClaimByIssue_def snd_conv
  by (rule good_claim) (auto simp: claims_issue_def)

lemma good_MarkOutcomePosted: "wf_db d \<Longrightarrow> good d (MarkOutcomePosted i d)"
  unfolding MarkOutcomePosted_def by (rule good_update_tasks) (auto intro: task_evolvesI)

lemma StartCall_Inr:
  assumes "StartCall sc i key wfl t b inp d = Inr (r, d')"
  obtains c where "task_by_id d i = Some c" "t_status c = ''running''" "t_call_depth c + 1 \<le> MaxCallDepth"
    "find (live_child i key) (tasks d) = Some r \<and> d' = d
     \<or> find (live_child i key) (tasks d) = None \<and> d' = append_task (callee_row d c key wfl t b inp) d
       \<and> r = (callee_row d c key wfl t b inp)\<lparr>t_id := next_task d\<rparr>"
  using assms by (auto simp: StartCall_def Let_def split: option.splits if_splits)

lemma good_StartCall:
  assumes "wf_db d" and "StartCall sc i key wfl t b inp d = Inr (r, d')"
  shows "good d d'"
proof -
  from assms(2) obtain c where c: "task_by_id d i = Some c" "t_call_depth c + 1 \<le> MaxCallDepth"
    and d': "d' = d \<or> find (live_child i key) (tasks d) = None \<and> d' = append_task (callee_row d c key wfl t b inp) d"
    by (rule StartCall_Inr) blast
  from c(1) assms(1) have "0 \<le> t_call_depth c" "t_id c = i"
    by (auto simp: wf_db_def row_ok_def dest: task_by_id_Some)
  with c(2) assms(1) d' show ?thesis
    by (auto simp: callee_row_def default_row_def good_refl intro!: good_append_task)
qed

subsection \<open>Steps, cancellation and recovery\<close>

lemma StartStep_Inr:
  assumes "StartStep st d = Inr (sid, ev, d')"
  obtains ex depth where "ValidStepKind (ss_kind st)" "task_by_id d (ss_execution st) = Some ex"
    "t_attempt ex = ss_attempt st" "startParent d st = Inr (depth, False)" "t_status ex = Running"
    "d' = snd (insertEventQ (stepEvent KindStageStart ex (t_attempt ex) (ss_name st) [])
            (snd (q_StartStepExecution (next_step d) (snd (q_InsertStepExecution (step_row_of ex st depth) d)))))"
    "sid = next_step d"
  using assms
  by (auto simp: StartStep_def Let_def CheckStepStart_def q_InsertStepExecution_def
           split: if_splits option.splits sum.splits prod.splits)

lemma good_StartStep:
  assumes "wf_db d" and "StartStep st d = Inr (sid, ev, d')"
  shows "good d d'"
proof -
  from assms(2) obtain ex depth where s: "ValidStepKind (ss_kind st)"
      "task_by_id d (ss_execution st) = Some ex" "t_attempt ex = ss_attempt st"
      "startParent d st = Inr (depth, False)"
    and d': "d' = snd (insertEventQ (stepEvent KindStageStart ex (t_attempt ex) (ss_name st) [])
            (snd (q_StartStepExecution (next_step d) (snd (q_InsertStepExecution (step_row_of ex st depth) d)))))"
    by (rule StartStep_Inr)
  have "t_id ex = ss_execution st" using s(2) by (auto dest: task_by_id_Some)
  with s have "good d (snd (q_InsertStepExecution (step_row_of ex st depth) d))"
    using assms(1)
    by (intro good_insert_step)
       (auto simp: step_row_of_def startParent_def dest!: step_by_id_Some split: if_splits option.splits)
  then show ?thesis
    unfolding d' using good_q_StartStepExecution good_insertEventQ good_trans good_wf by meson
qed

lemma FinishStep_Inr:
  assumes "FinishStep sc ms f d = Inr (ev, d')"
  obtains st ex where "step_by_id d (sf_step f) = Some st" "TaskByID sc d (s_execution st) = Some ex"
    "s_execution st = sf_execution f" "s_status st = sf_from f" "CanStepTransition (sf_from f) (sf_to f)"
    "d' = snd (insertEventQ (stepEvent KindStageFinish ex (s_attempt st) (s_name st)
            (stepEventData (sf_to f) ms (sf_detail f))) (snd (q_FinishStepExecution (sf_step f) (sf_from f) (sf_to f)
              (clip (sf_detail f) 4000) (sf_tokens f) (sf_results f) d)))"
proof -
  from assms obtain st ex where
    "step_by_id d (sf_step f) = Some st" "TaskByID sc d (s_execution st) = Some ex"
    by (auto simp: FinishStep_def split: if_splits option.splits)
  with assms that [OF this] show thesis
    by (auto simp: FinishStep_def Let_def split: if_splits prod.splits)
qed

lemma good_FinishStep:
  assumes "wf_db d" and "FinishStep sc ms f d = Inr (ev, d')"
  shows "good d d'"
proof -
  from assms(2) obtain st :: step_row and ex where c: "CanStepTransition (sf_from f) (sf_to f)"
    and d': "d' = snd (insertEventQ (stepEvent KindStageFinish ex (s_attempt st) (s_name st)
            (stepEventData (sf_to f) ms (sf_detail f))) (snd (q_FinishStepExecution (sf_step f) (sf_from f) (sf_to f)
              (clip (sf_detail f) 4000) (sf_tokens f) (sf_results f) d)))"
    by (rule FinishStep_Inr) iprover
  show ?thesis
    unfolding d' using good_q_FinishStepExecution [OF assms(1) c] good_insertEventQ good_trans good_wf by meson
qed

lemma cancel_tx_Inr:
  assumes "cancel_tx i m to d = Inr (closed, waiting, d')"
  obtains ex d2 where "task_by_id d i = Some ex" "CanTransition (t_status ex) to"
    "waiting = q_WaitingCallSteps i (t_attempt ex) d"
    "closed = fst (q_CancelAttemptSteps i (t_attempt ex) d)"
    "d2 = sweep_events ex ''cancelled'' closed (snd (q_CancelAttemptSteps i (t_attempt ex) d))"
    "d' = q_InsertTransition i (t_status ex) to (clip m 4000)
            (snd (q_TransitionTask i to (clip m 4000) ParkNeedsHuman (t_status ex) d2))"
  using assms
  by (auto simp: cancel_tx_def Let_def split: if_splits option.splits prod.splits)

lemma good_cancel_tx:
  assumes "wf_db d" and "cancel_tx i m to d = Inr (closed, waiting, d')"
  shows "good d d'"
proof -
  from assms(2) obtain ex d2 where c: "CanTransition (t_status ex) to"
    and d2: "d2 = sweep_events ex ''cancelled'' closed (snd (q_CancelAttemptSteps i (t_attempt ex) d))"
    and d': "d' = q_InsertTransition i (t_status ex) to (clip m 4000)
            (snd (q_TransitionTask i to (clip m 4000) ParkNeedsHuman (t_status ex) d2))"
    by (rule cancel_tx_Inr)
  have "good d d2"
    unfolding d2 using good_q_CancelAttemptSteps [OF assms(1)] good_sweep_events good_trans good_wf by meson
  then have "good d (snd (q_TransitionTask i to (clip m 4000) ParkNeedsHuman (t_status ex) d2))"
    using c good_q_TransitionTask good_trans good_wf by meson
  then show ?thesis unfolding d' using c by (rule good_audited)
qed

lemma good_cancel_fuel:
  "wf_db d \<Longrightarrow> cancel_fuel n i m to d = Some (d', ids, err) \<Longrightarrow> good d d'"
  "wf_db d \<Longrightarrow> cancelWaitedCallees n cs m to d = Some (d', fs) \<Longrightarrow> good d d'"
proof (induction n i m to d and n cs m to d arbitrary: d' ids err and d' fs
       rule: cancel_fuel_cancelWaitedCallees.induct)
  case (2 n i m to d)
  show ?case
  proof (cases "cancel_tx i m to d")
    case (Inl e)
    with 2 show ?thesis by (simp add: good_refl)
  next
    case (Inr r)
    obtain closed waiting d1 where r: "r = (closed, waiting, d1)" by (cases r)
    have g: "good d d1" using "2.prems"(1) Inr unfolding r by (rule good_cancel_tx)
    from "2.prems"(2) Inr r obtain fs where w: "cancelWaitedCallees n waiting m to d1 = Some (d', fs)"
      by (auto split: option.splits)
    show ?thesis
      by (rule good_trans [OF g "2.IH" [OF Inr r [symmetric] refl good_wf [OF g] w]])
  qed
next
  case (4 n c cs m to d)
  from "4.prems"(2) obtain d1 ids err fs where
    a: "cancel_fuel n c m to d = Some (d1, ids, err)" and b: "cancelWaitedCallees n cs m to d1 = Some (d', fs)"
    by (auto split: option.splits)
  have g: "good d d1" by (rule "4.IH"(1) [OF "4.prems"(1) a])
  show ?case by (rule good_trans [OF g "4.IH"(2) [OF a refl refl good_wf [OF g] b]])
qed (simp_all add: good_refl)

lemma good_recover_one: "wf_db d \<Longrightarrow> good d (recover_one ex d)"
proof -
  assume wfd: "wf_db d"
  have c: "CanTransition Running Queued" by (simp add: lifecycle_simps)
  have "good d (sweep_events ex ''interrupted'' (fst (q_InterruptAttemptSteps (t_id ex) (t_attempt ex) d))
                 (snd (q_InterruptAttemptSteps (t_id ex) (t_attempt ex) d)))"
    using good_q_InterruptAttemptSteps [OF wfd] good_sweep_events good_trans good_wf by meson
  from good_audited [OF this c] show ?thesis
    by (cases "q_InterruptAttemptSteps (t_id ex) (t_attempt ex) d") (simp add: recover_one_def)
qed

lemma good_fold_recover: "wf_db d \<Longrightarrow> good d (fold recover_one xs d)"
  by (induction xs arbitrary: d) (auto intro: good_refl good_trans good_recover_one good_wf)

lemma good_RecoverStale: "wf_db d \<Longrightarrow> good d (snd (RecoverStale d))"
proof -
  assume wfd: "wf_db d"
  let ?d = "fold recover_one (filter (\<lambda>r. t_status r = ''running'') (tasks d)) d"
  have g: "good d ?d" using wfd by (rule good_fold_recover)
  then have "good ?d (snd (q_RecoverStaleTasks ?d))"
    unfolding q_RecoverStaleTasks_def snd_conv
    by (intro good_update_tasks) (auto intro: good_wf task_evolvesI)
  with g show ?thesis unfolding RecoverStale_def by (rule good_trans)
qed

end
