(* ===== verification/Task_Store_Runs.thy ===== *)
theory Task_Store_Runs
  imports Task_Store_Inv
begin

text \<open>
  Runs of the State Store: \<open>store_step\<close> has one rule per operation that writes, and the theorems
  hold in every database reachable from the empty one. Cancellation, which recurses through the
  callees an execution waits on, is shown to end: the number of open steps is fuel enough.
\<close>

section \<open>Cancellation ends\<close>

lemma matches_map_le:
  "(\<And>r. Q (if P r then f r else r) \<Longrightarrow> Q r) \<Longrightarrow> matches Q (map (\<lambda>r. if P r then f r else r) rs) \<le> matches Q rs"
proof (induction rs)
  case (Cons a rs)
  have "Q (if P a then f a else a) \<Longrightarrow> Q a" by (rule Cons.prems)
  with Cons.IH [OF Cons.prems] show ?case by (cases "P a") (auto simp: matches_def)
qed (simp add: matches_def)

lemma matches_map_less:
  assumes bk: "\<And>r. Q (if P r then f r else r) \<Longrightarrow> Q r"
    and a: "a \<in> set rs" "P a" "Q a" "\<not> Q (f a)"
  shows "matches Q (map (\<lambda>r. if P r then f r else r) rs) < matches Q rs"
  using a(1)
proof (induction rs)
  case (Cons b rs)
  have le: "matches Q (map (\<lambda>r. if P r then f r else r) rs) \<le> matches Q rs"
    using bk by (rule matches_map_le)
  have b: "Q (if P b then f b else b) \<Longrightarrow> Q b" by (rule bk)
  show ?case
  proof (cases "b = a")
    case True
    with le a show ?thesis by (simp add: matches_def)
  next
    case False
    with Cons have "matches Q (map (\<lambda>r. if P r then f r else r) rs) < matches Q rs" by simp
    with b show ?thesis by (cases "P b") (auto simp: matches_def)
  qed
qed simp

lemma not_open_cancelled [simp]: "\<not> open_step (r\<lparr>s_status := ''cancelled''\<rparr>)"
  by (simp add: open_step_def)

lemma sweep_events_simps [simp]:
  "tasks (sweep_events ex m ss d) = tasks d" "steps (sweep_events ex m ss d) = steps d"
  "transitions (sweep_events ex m ss d) = transitions d"
  unfolding sweep_events_def by (induction ss arbitrary: d) simp_all

lemma q_TransitionTask_simps [simp]:
  "steps (snd (q_TransitionTask i to m c from d)) = steps d"
  "transitions (snd (q_TransitionTask i to m c from d)) = transitions d"
  by (simp_all add: q_TransitionTask_def Let_def)

text \<open>What one cancel transaction leaves of the steps.\<close>

lemma cancel_tx_steps:
  assumes "cancel_tx i m to d = Inr (closed, waiting, d')"
  obtains ex where "task_by_id d i = Some ex" "CanTransition (t_status ex) to"
    "waiting = q_WaitingCallSteps i (t_attempt ex) d" "closed = filter (attempt_open i (t_attempt ex)) (steps d)"
    "steps d' = map (\<lambda>r. if attempt_open i (t_attempt ex) r then r\<lparr>s_status := ''cancelled''\<rparr> else r) (steps d)"
  using assms by (rule cancel_tx_Inr) (auto simp: q_CancelAttemptSteps_def)

lemma cancel_tx_open_count:
  assumes "cancel_tx i m to d = Inr (closed, waiting, d')"
  shows "open_count d' \<le> open_count d" "waiting \<noteq> [] \<Longrightarrow> open_count d' < open_count d"
proof -
  from assms obtain ex :: task_row where w: "waiting = q_WaitingCallSteps i (t_attempt ex) d"
    and s: "steps d' = map (\<lambda>r. if attempt_open i (t_attempt ex) r then r\<lparr>s_status := ''cancelled''\<rparr> else r) (steps d)"
    by (rule cancel_tx_steps)
  have bk: "open_step (if attempt_open i (t_attempt ex) r then r\<lparr>s_status := ''cancelled''\<rparr> else r) \<Longrightarrow> open_step r" for r
    by (simp split: if_splits)
  show "open_count d' \<le> open_count d"
    unfolding open_count_def s using bk by (rule matches_map_le)
  assume "waiting \<noteq> []"
  with w obtain a where a: "a \<in> set (steps d)" "attempt_open i (t_attempt ex) a"
    unfolding q_WaitingCallSteps_def by (auto simp: filter_empty_conv)
  show "open_count d' < open_count d"
    unfolding open_count_def s
    using bk a by (rule matches_map_less) (use a in \<open>simp_all add: attempt_open_def\<close>)
qed

lemma cancel_enough:
  "open_count d < n \<Longrightarrow> \<exists>d' ids err. cancel_fuel n i m to d = Some (d', ids, err) \<and> open_count d' \<le> open_count d"
  "cs = [] \<or> open_count d < n \<Longrightarrow> \<exists>d' fs. cancelWaitedCallees n cs m to d = Some (d', fs) \<and> open_count d' \<le> open_count d"
proof (induction n i m to d and n cs m to d rule: cancel_fuel_cancelWaitedCallees.induct)
  case (2 n i m to d)
  show ?case
  proof (cases "cancel_tx i m to d")
    case (Inr r)
    obtain closed waiting d1 where r: "r = (closed, waiting, d1)" by (cases r)
    note oc = cancel_tx_open_count [OF Inr [unfolded r]]
    have "waiting = [] \<or> open_count d1 < n" using oc(2) "2.prems" by fastforce
    from "2.IH" [OF Inr r [symmetric] refl this] oc(1) show ?thesis
      using Inr r by fastforce
  qed simp
next
  case (4 n c cs m to d)
  then have lt: "open_count d < n" by simp
  from "4.IH"(1) [OF lt] obtain d1 ids err where
    a: "cancel_fuel n c m to d = Some (d1, ids, err)" "open_count d1 \<le> open_count d" by blast
  with lt have "cs = [] \<or> open_count d1 < n" by simp
  from "4.IH"(2) [OF a(1) refl refl this] a show ?case by fastforce
qed simp_all

text \<open>\<open>CancelExecution\<close> therefore never meets the missing value of its fuel.\<close>

lemma CancelExecution_enough:
  "cancel_fuel (Suc (open_count d)) i m to d = Some (CancelExecution i m to d)"
  using cancel_enough(1) [of d "Suc (open_count d)" i m to] by (auto simp: CancelExecution_def)

lemma good_CancelExecution: "wf_db d \<Longrightarrow> CancelExecution i m to d = (d', ids, err) \<Longrightarrow> good d d'"
  using CancelExecution_enough [of d i m to] good_cancel_fuel(1) by metis

section \<open>Runs\<close>

inductive store_step :: "db \<Rightarrow> db \<Rightarrow> bool" where
  "EnqueueIssue ow rp n t b l w d = (ok, d') \<Longrightarrow> store_step d d'"
| "EnqueueChatTask sc ow rp t b wfl w og inp d = Inr (r, d') \<Longrightarrow> store_step d d'"
| "EnqueueBindingTask sc ow rp t b wfl w bi v inp d = Inr (r, d') \<Longrightarrow> store_step d d'"
| "ClaimNext d = (claimed, d') \<Longrightarrow> store_step d d'"
| "ClaimByIssue ow rp n d = (claimed, d') \<Longrightarrow> store_step d d'"
| "Transition i from to m d = Inr d' \<Longrightarrow> store_step d d'"
| "ParkTask i from m c d = Inr d' \<Longrightarrow> store_step d d'"
| "Update u d = Inr d' \<Longrightarrow> store_step d d'"
| "BeginRemediation i p d = Inr d' \<Longrightarrow> store_step d d'"
| "SetReviewCursors i ca cb d = Inr d' \<Longrightarrow> store_step d d'"
| "Requeue i from wfl d = Inr d' \<Longrightarrow> store_step d d'"
| "RetryTask i from wfl mode res d = Inr d' \<Longrightarrow> store_step d d'"
| "RespondReviewGate i from g re cap d = Inr d' \<Longrightarrow> store_step d d'"
| "ArchiveTask i from e d = Inr (eid, d') \<Longrightarrow> store_step d d'"
| "ClearTerminalTasks sc d = (k, d') \<Longrightarrow> store_step d d'"
| "MarkOutcomePosted i d = d' \<Longrightarrow> store_step d d'"
| "insertEventQ e d = (eid, d') \<Longrightarrow> store_step d d'"
| "StartCall sc i key wfl t b inp d = Inr (r, d') \<Longrightarrow> store_step d d'"
| "StartStep st d = Inr (sid, ev, d') \<Longrightarrow> store_step d d'"
| "FinishStep sc ms f d = Inr (ev, d') \<Longrightarrow> store_step d d'"
| "CancelExecution i m to d = (d', ids, err) \<Longrightarrow> store_step d d'"
| "UpdateReviewPayload um ma i p d = Inr d' \<Longrightarrow> store_step d d'"
| "RecoverStale d = (k, d') \<Longrightarrow> store_step d d'"

inductive reachable_db :: "db \<Rightarrow> bool" where
  initial: "reachable_db (empty_db\<lparr>db_agents := as, db_members := ms\<rparr>)"
| run: "reachable_db d \<Longrightarrow> store_step d d' \<Longrightarrow> reachable_db d'"

lemmas good_ops = good_EnqueueChatTask good_EnqueueBindingTask good_Transition good_ParkTask good_Update
  good_BeginRemediation good_SetReviewCursors good_Requeue good_RetryTask good_RespondReviewGate
  good_ArchiveTask good_StartCall good_StartStep good_FinishStep good_CancelExecution
  good_UpdateReviewPayload

lemma store_step_good:
  assumes "store_step d d'" and "wf_db d"
  shows "good d d'"
  using assms
proof (cases rule: store_step.cases)
  case 1
  then show ?thesis using good_EnqueueIssue [OF assms(2)] by (metis snd_conv)
next
  case 4
  then show ?thesis using good_ClaimNext [OF assms(2)] by simp
next
  case 5
  then show ?thesis using good_ClaimByIssue [OF assms(2)] by (metis snd_conv)
next
  case 15
  then show ?thesis using good_ClearTerminalTasks [OF assms(2)] by (metis snd_conv)
next
  case 16
  then show ?thesis using good_MarkOutcomePosted [OF assms(2)] by blast
next
  case 17
  then show ?thesis using good_insertEventQ [OF assms(2)] by (metis snd_conv)
next
  case 23
  then show ?thesis using good_RecoverStale [OF assms(2)] by simp
qed (erule good_ops [OF assms(2)])+

lemma wf_empty_db: "wf_db (empty_db\<lparr>db_agents := as, db_members := ms\<rparr>)"
  by (simp add: wf_db_def empty_db_def unique_calls_def)

lemma reachable_db_wf: "reachable_db d \<Longrightarrow> wf_db d"
  by (induction rule: reachable_db.induct) (auto simp: wf_empty_db dest: store_step_good good_wf)

lemma store_steps_good: "store_step\<^sup>*\<^sup>* d d' \<Longrightarrow> wf_db d \<Longrightarrow> good d d'"
  by (induction rule: rtranclp_induct) (auto intro: good_refl good_trans store_step_good good_wf)

section \<open>What every reachable database satisfies\<close>

lemma reachable_empty: "reachable_db empty_db"
  using reachable_db.initial [of "[]" "[]"] by (simp add: empty_db_def)

lemma reachable_EnqueueIssue: "reachable_db d \<Longrightarrow> reachable_db (snd (EnqueueIssue ow rp n t b l w d))"
  by (rule reachable_db.run, assumption, rule store_step.intros(1) [where ok = "fst (EnqueueIssue ow rp n t b l w d)"]) simp

lemma reachable_ClaimNext: "reachable_db d \<Longrightarrow> reachable_db (snd (ClaimNext d))"
  by (rule reachable_db.run, assumption, rule store_step.intros(4) [where claimed = "fst (ClaimNext d)"]) simp

text \<open>Two small databases: one task enqueued for an issue, and that task claimed.\<close>

definition db_queued :: db where
  "db_queued = snd (EnqueueIssue ''acme'' ''app'' 7 ''Crash on start'' [] [] ''archie'' empty_db)"

definition db_running :: db where
  "db_running = snd (ClaimNext db_queued)"

lemma reachable_db_queued: "reachable_db db_queued"
  unfolding db_queued_def by (rule reachable_EnqueueIssue [OF reachable_empty])

lemma reachable_db_running: "reachable_db db_running"
  unfolding db_running_def by (rule reachable_ClaimNext [OF reachable_db_queued])

lemma db_queued_tasks:
  "tasks db_queued = [(issue_row empty_db ''acme'' ''app'' 7 ''Crash on start'' [] [] ''archie'')\<lparr>t_id := 1\<rparr>]"
  "steps db_queued = []" "next_step db_queued = 1" "next_task db_queued = 2"
  by (simp_all add: db_queued_def EnqueueIssue_def Let_def append_task_def empty_db_def)

lemma db_running_tasks:
  "tasks db_running = [claim_row ((issue_row empty_db ''acme'' ''app'' 7 ''Crash on start'' [] [] ''archie'')\<lparr>t_id := 1\<rparr>)]"
  "steps db_running = []" "next_step db_running = 1" "next_task db_running = 2"
  by (simp_all add: db_running_def ClaimNext_def q_ClaimNextTask_def db_queued_tasks issue_row_def
        default_row_def Queued_def Let_def)

text \<open>C1: In every database the store's operations can reach, from any identity and org assignment,
  each task status is one of the ten the lifecycle knows and each call depth is at most
  \<open>MaxCallDepth\<close>; every audit row records a legal move; a call site has at most one live child; every
  step has a known status and a valid kind, and a nested step's parent is an earlier step of the same
  execution and attempt, one level up.\<close>

theorem store_reachable_wf:
  assumes "reachable_db d"
  shows "(\<forall>r\<in>set (tasks d). known_status (t_status r) \<and> 0 \<le> t_call_depth r \<and> t_call_depth r \<le> MaxCallDepth)
    \<and> (\<forall>x\<in>set (transitions d). CanTransition (r_from x) (r_to x))
    \<and> (\<forall>r\<in>set (tasks d). \<forall>q\<in>set (tasks d).
         live_child (t_call_parent r) (t_call_key r) r \<and> live_child (t_call_parent r) (t_call_key r) q \<longrightarrow> q = r)
    \<and> (\<forall>s\<in>set (steps d). known_step_status (s_status s) \<and> ValidStepKind (s_kind s)
         \<and> (s_parent s \<noteq> 0 \<longrightarrow> (\<exists>p\<in>set (steps d). s_id p = s_parent s \<and> s_id p < s_id s
              \<and> s_execution p = s_execution s \<and> s_attempt p = s_attempt s \<and> s_depth s = s_depth p + 1)))"
proof -
  have w: "wf_db d" using assms by (rule reachable_db_wf)
  have "q = r" if "r \<in> set (tasks d)" "q \<in> set (tasks d)" "live_child (t_call_parent r) (t_call_key r) r"
      "live_child (t_call_parent r) (t_call_key r) q" for r q
  proof -
    have "live_call r" "live_call q" "t_call_parent q = t_call_parent r" "t_call_key q = t_call_key r"
      using that by (auto simp: live_call_def live_child_def)
    with w that(1,2) show ?thesis by (auto simp: wf_db_def unique_calls_def)
  qed
  moreover have "\<forall>s\<in>set (steps d). parent_ok (steps d) s" using w by (simp add: wf_db_def step_ok_def)
  ultimately show ?thesis
    using w by (auto simp: wf_db_def row_ok_def step_ok_def legal_row_def parent_ok_def)
qed

theorem store_reachable_wf_witness:
  "\<exists>r. tasks db_running = [r] \<and> t_status r = Running \<and> known_status (t_status r) \<and> t_call_depth r \<le> MaxCallDepth"
  using store_reachable_wf [OF reachable_db_running]
  by (simp add: db_running_tasks claim_row_def Running_def)



end
