(* ===== verification/Task_Store_Behaviour.thy ===== *)
theory Task_Store_Behaviour
  imports Task_Store_Runs
begin

text \<open>
  What each operation of the State Store does: the rows it writes on success and the error it
  gives on every other branch.
\<close>

section \<open>Cancellation\<close>

lemma CanTransition_irrefl: "\<not> CanTransition s s"
  by (auto simp: CanTransition_iff lifecycle_simps)

lemma cancel_tx_keeps:
  assumes "cancel_tx j m to d = Inr (closed, waiting, d')"
  shows "r \<in> set (tasks d) \<Longrightarrow> t_status r = to \<Longrightarrow> r \<in> set (tasks d')"
    and "s \<in> set (steps d') \<Longrightarrow> open_step s \<Longrightarrow> s \<in> set (steps d)"
proof -
  from assms obtain ex d2 where c: "CanTransition (t_status ex) to"
    and d2: "d2 = sweep_events ex ''cancelled'' closed (snd (q_CancelAttemptSteps j (t_attempt ex) d))"
    and d': "d' = q_InsertTransition j (t_status ex) to (clip m 4000)
            (snd (q_TransitionTask j to (clip m 4000) ParkNeedsHuman (t_status ex) d2))"
    by (rule cancel_tx_Inr)
  from c have ne: "t_status ex \<noteq> to" using CanTransition_irrefl by auto
  assume r: "r \<in> set (tasks d)" "t_status r = to"
  have "tasks d2 = tasks d" by (simp add: d2 q_CancelAttemptSteps_def)
  with r ne show "r \<in> set (tasks d')"
    unfolding d' q_InsertTransition_simps q_TransitionTask_def Let_def snd_conv
    by (intro update_tasks_miss) auto
next
  assume s: "s \<in> set (steps d')" "open_step s"
  from assms obtain ex :: task_row where
    "steps d' = map (\<lambda>r. if attempt_open j (t_attempt ex) r then r\<lparr>s_status := ''cancelled''\<rparr> else r) (steps d)"
    by (rule cancel_tx_steps)
  with s show "s \<in> set (steps d)" by auto
qed

lemma cancel_fuel_keeps:
  "cancel_fuel n i m to d = Some (d', ids, err) \<Longrightarrow>
     (\<forall>r\<in>set (tasks d). t_status r = to \<longrightarrow> r \<in> set (tasks d'))
     \<and> (\<forall>s\<in>set (steps d'). open_step s \<longrightarrow> s \<in> set (steps d))"
  "cancelWaitedCallees n cs m to d = Some (d', fs) \<Longrightarrow>
     (\<forall>r\<in>set (tasks d). t_status r = to \<longrightarrow> r \<in> set (tasks d'))
     \<and> (\<forall>s\<in>set (steps d'). open_step s \<longrightarrow> s \<in> set (steps d))"
proof (induction n i m to d and n cs m to d arbitrary: d' ids err and d' fs
       rule: cancel_fuel_cancelWaitedCallees.induct)
  case (2 n i m to d)
  show ?case
  proof (cases "cancel_tx i m to d")
    case (Inl e)
    with 2 show ?thesis by simp
  next
    case (Inr r)
    obtain closed waiting d1 where r: "r = (closed, waiting, d1)" by (cases r)
    from "2.prems" Inr r obtain fs where w: "cancelWaitedCallees n waiting m to d1 = Some (d', fs)"
      by (auto split: option.splits)
    from "2.IH" [OF Inr r [symmetric] refl w] show ?thesis
      using cancel_tx_keeps [OF Inr [unfolded r]] by blast
  qed
next
  case (4 n c cs m to d)
  from "4.prems" obtain d1 ids err fs where
    a: "cancel_fuel n c m to d = Some (d1, ids, err)" and b: "cancelWaitedCallees n cs m to d1 = Some (d', fs)"
    by (auto split: option.splits)
  from "4.IH"(1) [OF a] "4.IH"(2) [OF a refl refl b] show ?case by blast
qed simp_all

lemma CancelExecution_unfold:
  "CancelExecution i m to d = (case cancel_tx i m to d of
     Inl e \<Rightarrow> (d, [], Some e)
   | Inr (closed, waiting, d1) \<Rightarrow>
       (case the (cancelWaitedCallees (open_count d) waiting m to d1) of (d2, fs) \<Rightarrow>
          (d2, map s_id closed, if fs = [] then None else Some (ErrCallees fs))))"
  using CancelExecution_enough [of d i m to]
  by (auto simp: CancelExecution_def split: sum.splits option.splits prod.splits)

text \<open>After its own transaction a cancelled execution is in the target status, its audit row is
  written and its attempt has no open step.\<close>

lemma cancel_tx_effect:
  assumes w: "wf_db d" and tx: "cancel_tx i m to d = Inr (closed, waiting, d1)" and ex: "task_by_id d i = Some ex"
  shows "\<exists>r\<in>set (tasks d1). t_id r = i \<and> t_status r = to \<and> t_attempt r = t_attempt ex"
    "\<forall>s\<in>set (steps d1). \<not> attempt_open i (t_attempt ex) s"
    "\<exists>x\<in>set (transitions d1). r_task x = i \<and> r_from x = t_status ex \<and> r_to x = to"
proof -
  from tx ex obtain d2 where
    d2: "d2 = sweep_events ex ''cancelled'' closed (snd (q_CancelAttemptSteps i (t_attempt ex) d))"
    and d1: "d1 = q_InsertTransition i (t_status ex) to (clip m 4000)
            (snd (q_TransitionTask i to (clip m 4000) ParkNeedsHuman (t_status ex) d2))"
    by (auto elim: cancel_tx_Inr)
  have e: "ex \<in> set (tasks d2)" "t_id ex = i"
    using task_by_id_Some [OF ex] by (simp_all add: d2 q_CancelAttemptSteps_def)
  let ?f = "\<lambda>r. r\<lparr>t_status := to, t_park_reason := if to = ''parked'' then clip m 4000 else t_park_reason r,
      t_park_class := if to = ''parked'' then ParkNeedsHuman else t_park_class r\<rparr>"
  have "?f ex \<in> set (tasks d1)"
    unfolding d1 q_InsertTransition_simps q_TransitionTask_def Let_def snd_conv
    by (rule update_tasks_hit) (use e in auto)
  with e(2) obtain r where r: "r \<in> set (tasks d1)" "t_id r = i" "t_status r = to" "t_attempt r = t_attempt ex"
    by fastforce
  then show "\<exists>r\<in>set (tasks d1). t_id r = i \<and> t_status r = to \<and> t_attempt r = t_attempt ex" by blast
  from tx ex have "steps d1 = map (\<lambda>r. if attempt_open i (t_attempt ex) r then r\<lparr>s_status := ''cancelled''\<rparr> else r) (steps d)"
    by (elim cancel_tx_steps) simp
  moreover have "\<not> attempt_open i (t_attempt ex) (s\<lparr>s_status := ''cancelled''\<rparr>)" for s
    by (simp add: attempt_open_def)
  ultimately show "\<forall>s\<in>set (steps d1). \<not> attempt_open i (t_attempt ex) s"
    by (auto simp del: if_image_distrib split: if_splits)
  from r(1,2) show "\<exists>x\<in>set (transitions d1). r_task x = i \<and> r_from x = t_status ex \<and> r_to x = to"
    unfolding d1 by (intro q_InsertTransition_audit) simp_all
qed

text \<open>C24: cancelling an execution always ends, whatever the callees it waits on and even if calls form
  a cycle. Either the transaction is refused with an error and the database is unchanged, or
  the task is left in the target status with its audit row written, exactly the open steps of its
  attempt are reported closed and none of them is open; the only error then possible is the list of
  callees that could not be cancelled.\<close>

theorem CancelExecution_closes:
  assumes "reachable_db d" and "CancelExecution i m to d = (d', ids, err)"
  shows "(\<exists>e. cancel_tx i m to d = Inl e \<and> d' = d \<and> ids = [] \<and> err = Some e)
    \<or> (\<exists>ex r. task_by_id d i = Some ex \<and> CanTransition (t_status ex) to
         \<and> task_by_id d' i = Some r \<and> t_status r = to \<and> t_attempt r = t_attempt ex
         \<and> (\<exists>x\<in>set (transitions d'). r_task x = i \<and> r_from x = t_status ex \<and> r_to x = to)
         \<and> ids = map s_id (filter (attempt_open i (t_attempt ex)) (steps d))
         \<and> (\<forall>s\<in>set (steps d'). \<not> attempt_open i (t_attempt ex) s)
         \<and> (err = None \<or> (\<exists>fs. fs \<noteq> [] \<and> err = Some (ErrCallees fs))))"
proof (cases "cancel_tx i m to d")
  case (Inl e)
  with assms(2) show ?thesis by (simp add: CancelExecution_unfold)
next
  case (Inr res)
  obtain closed waiting d1 where tx: "cancel_tx i m to d = Inr (closed, waiting, d1)"
    using Inr by (cases res) auto
  have w: "wf_db d" using assms(1) by (rule reachable_db_wf)
  have w': "wf_db d'" using good_CancelExecution [OF w assms(2)] by (rule good_wf)
  from tx obtain ex where ex: "task_by_id d i = Some ex" "CanTransition (t_status ex) to"
    "closed = filter (attempt_open i (t_attempt ex)) (steps d)" by (rule cancel_tx_steps)
  from CancelExecution_enough [of d i m to] assms(2) tx obtain fs where
    c: "cancelWaitedCallees (open_count d) waiting m to d1 = Some (d', fs)" and
    ids: "ids = map s_id closed" and err: "err = (if fs = [] then None else Some (ErrCallees fs))"
    by (auto split: option.splits)
  note keeps = cancel_fuel_keeps(2) [OF c]
  note eff = cancel_tx_effect [OF w tx ex(1)]
  from eff(1) keeps obtain r where r: "r \<in> set (tasks d')" "t_id r = i" "t_status r = to" "t_attempt r = t_attempt ex"
    by blast
  with w' have found: "task_by_id d' i = Some r" using task_by_id_eq by (auto simp: wf_db_def)
  have "good d1 d'" by (rule good_cancel_fuel(2) [OF good_wf [OF good_cancel_tx [OF w tx]] c])
  then have "set (transitions d1) \<subseteq> set (transitions d')" by (auto simp: good_def evolves_def dest: set_mono_prefix)
  with eff(3) have audit: "\<exists>x\<in>set (transitions d'). r_task x = i \<and> r_from x = t_status ex \<and> r_to x = to" by blast
  have closed: "\<forall>s\<in>set (steps d'). \<not> attempt_open i (t_attempt ex) s"
    using eff(2) keeps by (auto simp: attempt_open_def)
  show ?thesis
    using ex found r audit closed ids err by (intro disjI2 exI [of _ ex] exI [of _ r]) auto
qed

theorem CancelExecution_closes_witness:
  "\<exists>r. task_by_id (fst (CancelExecution 1 ''stop'' Declined db_running)) 1 = Some r \<and> t_status r = Declined"
proof -
  obtain d' ids err where c: "CancelExecution 1 ''stop'' Declined db_running = (d', ids, err)"
    by (cases "CancelExecution 1 ''stop'' Declined db_running") auto
  have "cancel_tx 1 ''stop'' Declined db_running \<noteq> Inl e" for e
    by (simp add: cancel_tx_def db_running_tasks task_by_id_def q_CancelAttemptSteps_def q_TransitionTask_def
          Let_def claim_row_def lifecycle_simps CanTransition_iff)
  with CancelExecution_closes [OF reachable_db_running c] c show ?thesis by auto
qed

section \<open>Guarded writes\<close>

text \<open>A guarded write whose update selects the row by id and expected status is decided by the guard
  alone.\<close>

lemma guarded_write_spec:
  assumes n: "(\<exists>r. task_by_id d i = Some r \<and> t_status r = from) \<longrightarrow> 0 < fst (u d)"
  shows "guarded_write i from to m u d = (case task_by_id d i of
      None \<Rightarrow> Inl ErrStaleTransition
    | Some r \<Rightarrow> if t_status r \<noteq> from then Inl ErrStaleTransition
        else if \<not> CanTransition from to then Inl ErrIllegalTransition
        else Inr (q_InsertTransition i from to m (snd (u d))))"
  using n by (auto simp: guarded_write_def guardTransition_def split: option.splits prod.splits)

lemma q_TransitionTask_found:
  "task_by_id (snd (q_TransitionTask i to m c from d)) j
   = map_option (\<lambda>r. if t_id r = i \<and> t_status r = from
       then r\<lparr>t_status := to, t_park_reason := (if to = ''parked'' then m else t_park_reason r),
              t_park_class := (if to = ''parked'' then c else t_park_class r)\<rparr> else r) (task_by_id d j)"
  unfolding q_TransitionTask_def Let_def snd_conv by (rule task_by_id_update) simp

lemma q_PromotePendingReview_found:
  "task_by_id (snd (q_PromotePendingReview i d)) j
   = map_option (\<lambda>r. if t_id r = i \<and> t_status r = ''pr_open'' \<and> t_workflow r = ''remediate'' \<and> t_pending_reviews r \<noteq> []
       then r\<lparr>t_status := ''queued'', t_workflow := ''remediate'', t_park_reason := [], t_park_class := ''needs_human'',
              t_review_payload := hd (t_pending_reviews r), t_pending_reviews := tl (t_pending_reviews r),
              t_retry_mode := ''continue_pushed_work'', t_resume_from := [], t_resume_results := ''{}''\<rparr>
       else r) (task_by_id d j)"
  unfolding q_PromotePendingReview_def Let_def snd_conv by (rule task_by_id_update) simp

lemma found_other:
  assumes "j \<noteq> i"
  shows "task_by_id (snd (q_TransitionTask i to m c from d)) j = task_by_id d j"
    and "task_by_id (snd (q_PromotePendingReview i d)) j = task_by_id d j"
  using assms by (auto simp: q_TransitionTask_found q_PromotePendingReview_found map_option_case
      split: option.splits dest: task_by_id_Some)

lemma promote_next_review_found:
  "task_by_id (promote_next_review i d) j = task_by_id (snd (q_PromotePendingReview i d)) j"
  by (simp add: promote_next_review_def split: prod.splits)

text \<open>C25: \<open>Transition\<close> moves one task. It is refused as stale when the task is gone or no longer in the
  expected status, and as illegal when the table has no such move; otherwise it succeeds, the task
  is in the new status, every other task is as it was, and a remediating task that opens its pull
  request with reviews waiting is queued again at once with the first of them.\<close>

theorem Transition_moves_one_task:
  "case task_by_id d i of
     None \<Rightarrow> Transition i from to m d = Inl ErrStaleTransition
   | Some r \<Rightarrow>
       if t_status r \<noteq> from then Transition i from to m d = Inl ErrStaleTransition
       else if \<not> CanTransition from to then Transition i from to m d = Inl ErrIllegalTransition
       else \<exists>d' r'. Transition i from to m d = Inr d' \<and> task_by_id d' i = Some r'
         \<and> (if to = PROpen \<and> t_workflow r = ''remediate'' \<and> t_pending_reviews r \<noteq> []
            then t_status r' = Queued \<and> t_review_payload r' = hd (t_pending_reviews r)
                 \<and> t_pending_reviews r' = tl (t_pending_reviews r)
            else t_status r' = to \<and> t_pending_reviews r' = t_pending_reviews r)
         \<and> (\<forall>j. j \<noteq> i \<longrightarrow> task_by_id d' j = task_by_id d j)"
proof -
  let ?u = "q_TransitionTask i to (clip m 4000) ParkNeedsHuman from"
  let ?d1 = "q_InsertTransition i from to (clip m 4000) (snd (?u d))"
  have "(\<exists>r. task_by_id d i = Some r \<and> t_status r = from) \<longrightarrow> 0 < fst (?u d)"
    by (auto simp: q_TransitionTask_def Let_def matches_pos dest: task_by_id_Some)
  note gw = guarded_write_spec [of d i "from" ?u, OF this]
  show ?thesis
  proof (cases "task_by_id d i")
    case None
    then show ?thesis by (simp add: Transition_def gw)
  next
    case (Some r)
    then have "t_id r = i" by (simp add: task_by_id_Some)
    moreover have "Transition i from to m d = Inr (if to = PROpen then promote_next_review i ?d1 else ?d1)"
      if "t_status r = from" "CanTransition from to"
      using Some that by (simp add: Transition_def gw)
    ultimately show ?thesis
      using Some by (auto simp: Transition_def gw promote_next_review_found found_other
            q_TransitionTask_found [where j = i] q_PromotePendingReview_found [where j = i] PROpen_def Queued_def)
  qed
qed

theorem Transition_moves_one_task_witness:
  "\<exists>d' r'. Transition 1 Running PROpen ''opened'' db_running = Inr d' \<and> task_by_id d' 1 = Some r' \<and> t_status r' = PROpen"
  using Transition_moves_one_task [of 1 Running PROpen "''opened''" db_running]
  by (auto simp: db_running_tasks task_by_id_def claim_row_def issue_row_def default_row_def lifecycle_simps
        CanTransition_iff)

section \<open>Calls\<close>

text \<open>A call step is exactly-once. Starting the same call again, with any workflow, title, body or
  inputs, gives the child the first start created and writes nothing, as long as the caller is
  still running; the child is queued in the caller's org and repository, one call level below it.\<close>

theorem StartCall_once:
  assumes "reachable_db d" and "key \<noteq> []" and "StartCall sc i key wfl t b inp d = Inr (r, d')"
  shows "StartCall sc i key wfl' t' b' inp' d' = Inr (r, d') \<and> r \<in> set (tasks d')
    \<and> t_call_parent r = i \<and> t_call_key r = key
    \<and> (d' \<noteq> d \<longrightarrow> (\<exists>c. task_by_id d i = Some c \<and> t_status r = Queued \<and> t_call_depth r = t_call_depth c + 1
          \<and> t_org r = t_org c \<and> t_identity r = t_identity c \<and> t_owner r = t_owner c \<and> t_repo r = t_repo c))"
proof -
  from assms(3) obtain c where c: "task_by_id d i = Some c" "t_status c = ''running''" "t_call_depth c + 1 \<le> MaxCallDepth"
    and alt: "find (live_child i key) (tasks d) = Some r \<and> d' = d
     \<or> find (live_child i key) (tasks d) = None \<and> d' = append_task (callee_row d c key wfl t b inp) d
       \<and> r = (callee_row d c key wfl t b inp)\<lparr>t_id := next_task d\<rparr>"
    by (rule StartCall_Inr)
  have ci: "t_id c = i" using task_by_id_Some [OF c(1)] by simp
  from alt show ?thesis
  proof
    assume old: "find (live_child i key) (tasks d) = Some r \<and> d' = d"
    then have "r \<in> set (tasks d) \<and> live_child i key r" by (auto simp: find_Some_iff)
    with old show ?thesis using c by (simp add: StartCall_def live_child_def)
  next
    assume new: "find (live_child i key) (tasks d) = None \<and> d' = append_task (callee_row d c key wfl t b inp) d
       \<and> r = (callee_row d c key wfl t b inp)\<lparr>t_id := next_task d\<rparr>"
    then have ts: "tasks d' = tasks d @ [r]" by (simp add: append_task_def)
    have live: "live_child i key r"
      using new assms(2) ci by (simp add: live_child_def callee_row_def default_row_def lifecycle_simps)
    from new ts live have "find (live_child i key) (tasks d') = Some r"
      by (simp add: find_append)
    moreover from c(1) ts have "task_by_id d' i = Some c" by (simp add: task_by_id_def find_append)
    ultimately show ?thesis
      using c new ts ci by (auto simp: StartCall_def callee_row_def default_row_def)
  qed
qed

theorem StartCall_once_witness:
  "\<exists>r d'. StartCall None 1 ''1/build'' ''implement'' ''t'' ''b'' ''{}'' db_running = Inr (r, d')
    \<and> StartCall None 1 ''1/build'' ''implement'' ''u'' ''c'' ''{}'' d' = Inr (r, d')"
proof -
  have "\<exists>r d'. StartCall None 1 ''1/build'' ''implement'' ''t'' ''b'' ''{}'' db_running = Inr (r, d')"
    by (simp add: StartCall_def db_running_tasks task_by_id_def claim_row_def issue_row_def default_row_def
          MaxCallDepth_def live_child_def Let_def same_issue_key_def callee_row_def next_chat_issue_def
          syntheticIssueNumberBase_def)
  then obtain r d' where "StartCall None 1 ''1/build'' ''implement'' ''t'' ''b'' ''{}'' db_running = Inr (r, d')"
    by blast
  with StartCall_once [OF reachable_db_running _ this] show ?thesis by blast
qed

section \<open>Retry, review gates and remediation\<close>

lemma later_run_fold:
  assumes "\<And>a b. P a \<Longrightarrow> P b \<Longrightarrow> P (if later_run a b then a else b)" and "P r" and "\<forall>x\<in>set rs. P x"
  shows "P (fold (\<lambda>a b. if later_run a b then a else b) rs r)"
  using assms(2,3) by (induction rs arbitrary: r) (use assms(1) in auto)

lemma later_run_trans: "later_run a b \<Longrightarrow> \<not> later_run c b \<Longrightarrow> \<not> later_run c a"
  by (auto simp: later_run_def)

lemma later_run_refl: "\<not> later_run a a"
  by (simp add: later_run_def)

lemma later_run_fold_max:
  "\<forall>x\<in>insert r (set rs). \<not> later_run x (fold (\<lambda>a b. if later_run a b then a else b) rs r)"
proof (induction rs arbitrary: r)
  case (Cons a rs)
  let ?b = "if later_run a r then a else r"
  have ih: "\<not> later_run ?b (fold (\<lambda>a b. if later_run a b then a else b) rs ?b)"
    "\<forall>x\<in>set rs. \<not> later_run x (fold (\<lambda>a b. if later_run a b then a else b) rs ?b)"
    using Cons.IH [of ?b] by auto
  define m where "m = fold (\<lambda>a b. if later_run a b then a else b) rs ?b"
  have "\<not> later_run ?b m" using ih(1) unfolding m_def .
  then have "\<not> later_run a m \<and> \<not> later_run r m"
    by (auto simp: later_run_def split: if_splits)
  with ih(2) have "\<forall>x\<in>insert r (set (a # rs)). \<not> later_run x m" unfolding m_def by simp
  then show ?case by (simp add: m_def)
qed (simp add: later_run_refl)

lemma q_LatestStageResults_Some:
  assumes "q_LatestStageResults ex name d = Some s"
  shows "s \<in> set (steps d) \<and> s_execution s = ex \<and> s_depth s = 0 \<and> s_kind s = ''stage'' \<and> s_name s = name
    \<and> s_status s \<in> {StepSucceeded, StepFailed}
    \<and> (\<forall>q\<in>set (steps d). s_execution q = ex \<and> s_depth q = 0 \<and> s_kind q = ''stage'' \<and> s_name q = name
         \<and> s_status q \<in> {StepSucceeded, StepFailed} \<longrightarrow> \<not> later_run q s)"
proof -
  let ?P = "\<lambda>r. s_execution r = ex \<and> s_depth r = 0 \<and> s_kind r = ''stage'' \<and> s_name r = name
      \<and> s_status r \<in> set [''succeeded'', ''failed'']"
  from assms obtain r rs where f: "filter ?P (steps d) = r # rs"
    and s: "s = fold (\<lambda>a b. if later_run a b then a else b) rs r"
    by (auto simp: q_LatestStageResults_def split: list.splits)
  have mem: "x \<in> set (r # rs) \<longleftrightarrow> x \<in> set (steps d) \<and> ?P x" for x
    using arg_cong [OF f, of set] by auto
  have "s \<in> set (steps d) \<and> ?P s"
    unfolding s by (rule later_run_fold) (use mem in auto)
  moreover have "\<not> later_run q s" if "q \<in> set (steps d)" "?P q" for q
    using later_run_fold_max [of r rs] that mem [of q] unfolding s by auto
  ultimately show ?thesis by (auto simp: StepSucceeded_def StepFailed_def)
qed

lemma q_RetryTask_found:
  "task_by_id (snd (q_RetryTask i wfl from mode rf rs d)) j
   = map_option (\<lambda>r. if t_id r = i \<and> t_status r = from
       then r\<lparr>t_status := ''queued'', t_retry_count := t_retry_count r + 1,
              t_workflow := keep_or wfl (t_workflow r), t_retry_mode := mode, t_resume_from := rf,
              t_resume_results := rs, t_park_reason := [], t_park_class := ''needs_human''\<rparr>
       else r) (task_by_id d j)"
  unfolding q_RetryTask_def Let_def snd_conv by (rule task_by_id_update) simp

text \<open>C26: a retry that succeeds queues the task again with one more retry counted, its park cleared
  and the mode and resume point recorded. When it resumes after a step, the results it carries are
  those of a finished run of that root stage, succeeded or failed, that recorded its results, and no
  finished run of the stage is later by attempt and then by id; with no resume point it carries none.\<close>

theorem RetryTask_resumes:
  assumes "RetryTask i from wfl mode resume d = Inr d'"
  shows "\<exists>r r'. task_by_id d i = Some r \<and> t_status r = from \<and> CanTransition from Queued
    \<and> task_by_id d' i = Some r' \<and> t_status r' = Queued \<and> t_retry_count r' = t_retry_count r + 1
    \<and> t_retry_mode r' = mode \<and> t_resume_from r' = resume_From resume \<and> t_park_reason r' = []
    \<and> (if resume_From resume = [] \<or> resume_After resume = [] then t_resume_results r' = ''{}''
       else \<exists>s\<in>set (steps d). s_execution s = i \<and> s_depth s = 0 \<and> s_kind s = ''stage'' \<and> s_name s = resume_After resume
         \<and> s_status s \<in> {''succeeded'', ''failed''} \<and> s_results s = Some (t_resume_results r')
         \<and> (\<forall>q\<in>set (steps d). s_execution q = i \<and> s_depth q = 0 \<and> s_kind q = ''stage''
              \<and> s_name q = resume_After resume \<and> s_status q \<in> {''succeeded'', ''failed''}
              \<longrightarrow> s_attempt q < s_attempt s \<or> s_attempt q = s_attempt s \<and> s_id q \<le> s_id s))"
proof -
  from assms obtain res where
    g: "guardTransition d i from Queued = None" and res: "resumeResults d i resume = Inr res" and
    w: "guarded_write i from Queued (''retried '' @ wfl)
          (q_RetryTask i wfl from mode (resume_From resume) res) d = Inr d'"
    by (auto simp: RetryTask_def split: option.splits sum.splits)
  from g obtain r where r: "task_by_id d i = Some r" "t_status r = from" "CanTransition from Queued"
    by (auto simp: guardTransition_None)
  from w have "d' = q_InsertTransition i from Queued (''retried '' @ wfl)
      (snd (q_RetryTask i wfl from mode (resume_From resume) res d))"
    by (auto simp: guarded_write_def split: option.splits prod.splits if_splits)
  then have f: "task_by_id d' i = Some (r\<lparr>t_status := ''queued'', t_retry_count := t_retry_count r + 1,
      t_workflow := keep_or wfl (t_workflow r), t_retry_mode := mode, t_resume_from := resume_From resume,
      t_resume_results := res, t_park_reason := [], t_park_class := ''needs_human''\<rparr>)"
    using r task_by_id_Some [OF r(1)] by (simp add: q_RetryTask_found)
  have "if resume_From resume = [] \<or> resume_After resume = [] then res = ''{}''
       else \<exists>s. q_LatestStageResults i (resume_After resume) d = Some s \<and> s_results s = Some res"
    using res by (auto simp: resumeResults_def split: if_splits option.splits)
  moreover have "\<not> later_run q s \<longleftrightarrow> s_attempt q < s_attempt s \<or> s_attempt q = s_attempt s \<and> s_id q \<le> s_id s" for q s
    by (auto simp: later_run_def)
  ultimately show ?thesis
    using r f q_LatestStageResults_Some [of i "resume_After resume" d]
    by (auto simp: Queued_def StepSucceeded_def StepFailed_def split: if_splits)
qed

text \<open>A parked task whose \<open>plan\<close> stage succeeded, retried from the stage after it.\<close>

definition db_parked :: db where
  "db_parked = db_running\<lparr>
     tasks := map (\<lambda>r. r\<lparr>t_status := Parked\<rparr>) (tasks db_running),
     steps := [\<lparr>s_id = 1, s_org = ''org-sys'', s_execution = 1, s_attempt = 1, s_parent = 0, s_depth = 0,
       s_kind = ''stage'', s_name = ''plan'', s_called = 0, s_status = StepSucceeded, s_detail = [],
       s_tokens = 10, s_results = Some ''{plan}''\<rparr>]\<rparr>"

theorem RetryTask_resumes_witness:
  "\<exists>d' r'. RetryTask 1 Parked [] RetryContinuePushedWork \<lparr>resume_From = ''build'', resume_After = ''plan''\<rparr> db_parked = Inr d'
    \<and> task_by_id d' 1 = Some r' \<and> t_status r' = Queued \<and> t_retry_count r' = 1"
proof -
  let ?R = "\<lparr>resume_From = ''build'', resume_After = ''plan''\<rparr>"
  have t: "task_by_id db_parked 1 = Some ((claim_row ((issue_row empty_db ''acme'' ''app'' 7 ''Crash on start'' [] [] ''archie'')\<lparr>t_id := 1\<rparr>))\<lparr>t_status := Parked\<rparr>)"
    by (simp add: db_parked_def db_running_tasks task_by_id_def claim_row_def)
  have "\<exists>d'. RetryTask 1 Parked [] RetryContinuePushedWork ?R db_parked = Inr d'"
    using t by (simp add: RetryTask_def guarded_write_def guardTransition_def q_RetryTask_def Let_def
        matches_pos resumeResults_def q_LatestStageResults_def db_parked_def db_running_tasks
        CanTransition_iff StepSucceeded_def claim_row_def)
  then obtain d' where "RetryTask 1 Parked [] RetryContinuePushedWork ?R db_parked = Inr d'" ..
  with RetryTask_resumes [OF this] t show ?thesis
    by (auto simp: claim_row_def issue_row_def default_row_def)
qed

end
