(* ===== verification/Task_Store_Recovery.thy ===== *)
theory Task_Store_Recovery
  imports Task_Store_Behaviour
begin

text \<open>
  The rest of the State Store's behaviour: review gates and review reactions, starting steps,
  claiming, and what a restarted daemon recovers.
\<close>

section \<open>Review gates and reactions\<close>

lemma q_RespondReviewGateTask_found:
  "task_by_id (snd (q_RespondReviewGateTask i from g re cap d)) j
   = map_option (\<lambda>r. if t_id r = i \<and> t_status r = from \<and> (\<not> re \<or> t_rereview_rounds r < cap)
       then r\<lparr>t_status := ''queued'', t_review_gate := g,
              t_rereview_rounds := t_rereview_rounds r + (if re then 1 else 0),
              t_park_reason := [], t_park_class := ''needs_human''\<rparr>
       else r) (task_by_id d j)"
  unfolding q_RespondReviewGateTask_def Let_def snd_conv by (rule task_by_id_update) simp

text \<open>A response to a review gate counts a re-review and cannot pass the cap. For a task in the
  expected status from which it may be queued, a re-review at the cap is refused with
  \<open>ErrRereviewCapReached\<close>; any other response queues the task with the new gate, one more round if
  it asks for a re-review and the same number if it approves.\<close>

theorem RespondReviewGate_cap:
  assumes "task_by_id d i = Some r" and "t_status r = from" and "CanTransition from Queued"
  shows "if re \<and> cap \<le> t_rereview_rounds r then RespondReviewGate i from g re cap d = Inl ErrRereviewCapReached
    else \<exists>d' r'. RespondReviewGate i from g re cap d = Inr d' \<and> task_by_id d' i = Some r'
      \<and> t_status r' = Queued \<and> t_review_gate r' = g
      \<and> t_rereview_rounds r' = (if re then t_rereview_rounds r + 1 else t_rereview_rounds r)
      \<and> (re \<longrightarrow> t_rereview_rounds r' \<le> cap)"
proof -
  let ?u = "q_RespondReviewGateTask i from g re cap"
  have gd: "guardTransition d i from Queued = None" using assms by (simp add: guardTransition_None)
  have id: "r \<in> set (tasks d)" "t_id r = i" using task_by_id_Some [OF assms(1)] by auto
  show ?thesis
  proof (cases "re \<and> cap \<le> t_rereview_rounds r")
    case True
    with gd assms(1) show ?thesis by (simp add: RespondReviewGate_def)
  next
    case False
    with id assms(2) have "0 < fst (?u d)"
      unfolding q_RespondReviewGateTask_def Let_def fst_conv matches_pos by (intro bexI [of _ r]) auto
    with gd assms(1) False have
      "\<exists>m. RespondReviewGate i from g re cap d = Inr (q_InsertTransition i from Queued m (snd (?u d)))"
      by (cases "?u d") (auto simp: RespondReviewGate_def guarded_write_def simp del: split_paired_Ex)
    with False assms id show ?thesis
      by (auto simp: q_RespondReviewGateTask_found Queued_def)
  qed
qed

theorem RespondReviewGate_cap_witness:
  "RespondReviewGate 1 Parked ''{}'' True 0 db_parked = Inl ErrRereviewCapReached
   \<and> (\<exists>d' r'. RespondReviewGate 1 Parked ''{}'' True 2 db_parked = Inr d' \<and> task_by_id d' 1 = Some r'
        \<and> t_rereview_rounds r' = 1)"
proof -
  obtain r where r: "task_by_id db_parked 1 = Some r" "t_status r = Parked" "t_rereview_rounds r = 0"
    by (simp add: db_parked_def db_running_tasks task_by_id_def claim_row_def issue_row_def default_row_def)
  have c: "CanTransition Parked Queued" by (simp add: CanTransition_iff)
  show ?thesis
    using RespondReviewGate_cap [OF r(1,2) c, where re = True and g = "''{}''" and cap = 0]
      RespondReviewGate_cap [OF r(1,2) c, where re = True and g = "''{}''" and cap = 2] r(3) by auto
qed

lemma update_tasks_id:
  assumes "\<And>r. r \<in> set (tasks d) \<Longrightarrow> P r \<Longrightarrow> f r = r"
  shows "update_tasks P f d = d"
proof -
  have "map (\<lambda>r. if P r then f r else r) (tasks d) = tasks d" using assms by (intro map_idI) auto
  then show ?thesis by (simp add: update_tasks_def)
qed

lemma AppendPendingReview_id:
  assumes "\<And>r. r \<in> set (tasks d) \<Longrightarrow> t_id r = i \<Longrightarrow> t_review_payload r = p \<or> p \<in> set (t_pending_reviews r)"
  shows "snd (q_AppendPendingReview i p d) = d"
  unfolding q_AppendPendingReview_def Let_def snd_conv
  by (rule update_tasks_id) (use assms in auto)

text \<open>C27: delivering the same review reaction twice has the effect of delivering it once: the second
  delivery succeeds and leaves the database as the first one left it.\<close>

theorem BeginRemediation_idempotent:
  assumes "reachable_db d" and "BeginRemediation i payload d = Inr d'"
  shows "BeginRemediation i payload d' = Inr d'"
proof -
  let ?p = "clip payload 4000"
  have w: "wf_db d" using assms(1) by (rule reachable_db_wf)
  have w': "wf_db d'" using good_BeginRemediation [OF w assms(2)] by (rule good_wf)
  have "\<exists>r'. task_by_id d' i = Some r' \<and> t_status r' \<in> {''queued'', ''running''} \<and> t_workflow r' = ''remediate''
      \<and> (t_review_payload r' = ?p \<or> ?p \<in> set (t_pending_reviews r'))"
  proof (cases "guardTransition d i PROpen Queued")
    case None
    then obtain r where r: "task_by_id d i = Some r" "t_status r = ''pr_open''" "t_id r = i"
      by (auto simp: guardTransition_None PROpen_def dest: task_by_id_Some)
    from None assms(2) have "d' = q_InsertTransition i PROpen Queued ''review reaction queued remediation''
        (snd (q_BeginRemediationTask i ?p d))"
      by (auto simp: BeginRemediation_def split: prod.splits if_splits)
    with r show ?thesis
      by (simp add: q_BeginRemediationTask_def Let_def task_by_id_update)
  next
    case (Some e)
    with assms(2) have d': "d' = snd (q_AppendPendingReview i ?p d)" and n: "fst (q_AppendPendingReview i ?p d) \<noteq> 0"
      by (auto simp: BeginRemediation_def split: prod.splits if_splits)
    from n obtain r where r: "r \<in> set (tasks d)" "t_id r = i" "t_status r \<in> {''queued'', ''running''}" "t_workflow r = ''remediate''"
      by (auto simp: q_AppendPendingReview_def Let_def)
    with w have "task_by_id d i = Some r" using task_by_id_eq by (auto simp: wf_db_def)
    with r d' show ?thesis
      by (auto simp: q_AppendPendingReview_def Let_def task_by_id_update)
  qed
  then obtain r' where r': "task_by_id d' i = Some r'" "t_status r' \<in> {''queued'', ''running''}"
      "t_workflow r' = ''remediate''" "t_review_payload r' = ?p \<or> ?p \<in> set (t_pending_reviews r')" by blast
  have in': "r' \<in> set (tasks d')" "t_id r' = i" using task_by_id_Some [OF r'(1)] by auto
  have only: "r = r'" if "r \<in> set (tasks d')" "t_id r = i" for r
    using that in' w' by (auto simp: wf_db_def distinct_map dest: inj_onD)
  have "guardTransition d' i PROpen Queued = Some ErrStaleTransition"
    using r'(1,2) by (auto simp: guardTransition_def PROpen_def)
  moreover have "snd (q_AppendPendingReview i ?p d') = d'"
    using only r'(4) by (intro AppendPendingReview_id) blast
  moreover have "0 < fst (q_AppendPendingReview i ?p d')"
    unfolding q_AppendPendingReview_def Let_def fst_conv matches_pos
    using in' r'(2,3) by (intro bexI [of _ r']) auto
  ultimately show ?thesis
    by (cases "q_AppendPendingReview i ?p d'") (simp add: BeginRemediation_def)
qed

definition db_pr_open :: db where
  "db_pr_open = (case Transition 1 Running PROpen [] db_running of Inl _ \<Rightarrow> db_running | Inr d \<Rightarrow> d)"

lemma reachable_db_pr_open: "reachable_db db_pr_open"
  unfolding db_pr_open_def
  by (auto split: sum.splits intro: reachable_db_running reachable_db.run [OF reachable_db_running] store_step.intros(6))

lemma db_pr_open_row:
  "map t_status (tasks db_pr_open) = [''pr_open'']" "map t_id (tasks db_pr_open) = [1]"
  by (simp_all add: db_pr_open_def Transition_def guarded_write_def guardTransition_def db_running_tasks
        task_by_id_def claim_row_def issue_row_def default_row_def lifecycle_simps CanTransition_iff
        q_TransitionTask_def Let_def matches_def promote_next_review_def q_PromotePendingReview_def)

theorem BeginRemediation_idempotent_witness:
  "\<exists>d'. BeginRemediation 1 ''please rename'' db_pr_open = Inr d' \<and> BeginRemediation 1 ''please rename'' d' = Inr d'"
proof -
  from db_pr_open_row obtain r where "tasks db_pr_open = [r]" "t_status r = ''pr_open''" "t_id r = 1" by auto
  then have "\<exists>d'. BeginRemediation 1 ''please rename'' db_pr_open = Inr d'"
    by (simp add: BeginRemediation_def guardTransition_def task_by_id_def q_BeginRemediationTask_def Let_def
          matches_def lifecycle_simps)
  then obtain d' where "BeginRemediation 1 ''please rename'' db_pr_open = Inr d'" ..
  with BeginRemediation_idempotent [OF reachable_db_pr_open this] show ?thesis by blast
qed

section \<open>Recovery after a restart\<close>

definition of_attempt :: "task_row list \<Rightarrow> step_row \<Rightarrow> bool" where
  "of_attempt xs s \<longleftrightarrow> (\<exists>ex\<in>set xs. s_execution s = t_id ex \<and> s_attempt s = t_attempt ex)"

definition interrupt :: "task_row list \<Rightarrow> step_row \<Rightarrow> step_row" where
  "interrupt xs s = (if of_attempt xs s \<and> s_status s = ''running'' then s\<lparr>s_status := ''interrupted''\<rparr> else s)"

lemma recover_one_simps:
  "tasks (recover_one ex d) = tasks d"
  "steps (recover_one ex d) = map (interrupt [ex]) (steps d)"
  "transitions (recover_one ex d) = transitions d @
     map (\<lambda>r. \<lparr>r_task = t_id r, r_from = Running, r_to = Queued,
            r_detail = ''re-queued after a crashed or replaced daemon'', r_org = t_org r\<rparr>)
       (filter (\<lambda>r. t_id r = t_id ex) (tasks d))"
  by (auto simp: recover_one_def q_InterruptAttemptSteps_def Let_def interrupt_def of_attempt_def
        q_InsertTransition_def)

lemma interrupt_twice: "interrupt xs (interrupt [x] s) = interrupt (x # xs) s"
  by (auto simp: interrupt_def of_attempt_def)

lemma interrupt_Nil [simp]: "interrupt [] = (\<lambda>s. s)"
  by (rule ext) (simp add: interrupt_def of_attempt_def)

lemma fold_recover_simps:
  "tasks (fold recover_one xs d) = tasks d"
  "steps (fold recover_one xs d) = map (interrupt xs) (steps d)"
  "transitions (fold recover_one xs d) = transitions d @ concat (map (\<lambda>ex.
     map (\<lambda>r. \<lparr>r_task = t_id r, r_from = Running, r_to = Queued,
            r_detail = ''re-queued after a crashed or replaced daemon'', r_org = t_org r\<rparr>)
       (filter (\<lambda>r. t_id r = t_id ex) (tasks d))) xs)"
  by (induction xs arbitrary: d) (auto simp: recover_one_simps interrupt_twice)

lemma filter_same_id:
  assumes "distinct (map t_id ts)" and "r \<in> set ts"
  shows "filter (\<lambda>q. t_id q = t_id r) ts = [r]"
  using assms
proof (induction ts)
  case (Cons a ts)
  show ?case
  proof (cases "r = a")
    case True
    then have "filter (\<lambda>q. t_id q = t_id r) ts = []" using Cons.prems(1) by (auto simp: filter_empty_conv image_iff)
    with True show ?thesis by simp
  qed (use Cons in auto)
qed simp

text \<open>Recovery puts back exactly what a dead daemon left. Every running task is queued again, with
  one audit row each, in table order, and all other tasks are untouched; the running steps of those
  tasks' current attempts are interrupted and no other step changes; the result is how many tasks
  were recovered, and afterwards none is running.\<close>

theorem RecoverStale_exact:
  assumes "reachable_db d" and "RecoverStale d = (n, d')"
  shows "n = length (filter (\<lambda>r. t_status r = Running) (tasks d))
    \<and> tasks d' = map (\<lambda>r. if t_status r = Running then r\<lparr>t_status := Queued\<rparr> else r) (tasks d)
    \<and> steps d' = map (\<lambda>s. if s_status s = StepRunning
           \<and> (\<exists>r\<in>set (tasks d). t_status r = Running \<and> s_execution s = t_id r \<and> s_attempt s = t_attempt r)
         then s\<lparr>s_status := StepInterrupted\<rparr> else s) (steps d)
    \<and> transitions d' = transitions d @ map (\<lambda>r. \<lparr>r_task = t_id r, r_from = Running, r_to = Queued,
         r_detail = ''re-queued after a crashed or replaced daemon'', r_org = t_org r\<rparr>)
         (filter (\<lambda>r. t_status r = Running) (tasks d))
    \<and> (\<forall>r\<in>set (tasks d'). t_status r \<noteq> Running)"
proof -
  let ?xs = "filter (\<lambda>r. t_status r = ''running'') (tasks d)"
  have dist: "distinct (map t_id (tasks d))" using reachable_db_wf [OF assms(1)] by (simp add: wf_db_def)
  have "d' = update_tasks (\<lambda>r. t_status r = ''running'') (\<lambda>r. r\<lparr>t_status := ''queued''\<rparr>) (fold recover_one ?xs d)"
    and n: "n = length ?xs"
    using assms(2) by (auto simp: RecoverStale_def q_RecoverStaleTasks_def fold_recover_simps matches_def)
  then have d': "tasks d' = map (\<lambda>r. if t_status r = ''running'' then r\<lparr>t_status := ''queued''\<rparr> else r) (tasks d)"
      "steps d' = map (interrupt ?xs) (steps d)" "transitions d' = transitions (fold recover_one ?xs d)"
    by (simp_all add: fold_recover_simps)
  have "concat (map (\<lambda>ex. map f (filter (\<lambda>r. t_id r = t_id ex) (tasks d))) xs) = map f xs"
    if "set xs \<subseteq> set (tasks d)" for f :: "task_row \<Rightarrow> transition_row" and xs
    using that by (induction xs) (auto simp: filter_same_id [OF dist])
  from this [of ?xs] have t: "transitions d' = transitions d @ map (\<lambda>r. \<lparr>r_task = t_id r, r_from = Running, r_to = Queued,
         r_detail = ''re-queued after a crashed or replaced daemon'', r_org = t_org r\<rparr>) ?xs"
    unfolding d'(3) fold_recover_simps by simp
  have st: "map (interrupt ?xs) (steps d) = map (\<lambda>s. if s_status s = StepRunning
           \<and> (\<exists>r\<in>set (tasks d). t_status r = Running \<and> s_execution s = t_id r \<and> s_attempt s = t_attempt r)
         then s\<lparr>s_status := StepInterrupted\<rparr> else s) (steps d)"
    by (rule map_cong [OF refl]) (auto simp: interrupt_def of_attempt_def lifecycle_simps)
  have none: "\<forall>r\<in>set (tasks d'). t_status r \<noteq> Running"
    unfolding d' set_map Running_def by (intro ballI, erule imageE) (simp split: if_splits)
  show ?thesis
    using n d'(1) trans [OF d'(2) st] t none unfolding Running_def Queued_def by (intro conjI)
qed

theorem RecoverStale_exact_witness:
  "fst (RecoverStale db_running) = 1 \<and> map t_status (tasks (snd (RecoverStale db_running))) = [Queued]"
  using RecoverStale_exact [OF reachable_db_running, of "fst (RecoverStale db_running)" "snd (RecoverStale db_running)"]
  by (simp add: db_running_tasks claim_row_def Running_def)

section \<open>Steps\<close>

text \<open>A step starts exactly when its kind is valid, its execution is running the named attempt, a
  called execution is a child of it, and its parent step, if any, belongs to the same attempt and
  has not finished; nothing else is accepted, and a started step is running, one level below its
  parent.\<close>

theorem StartStep_iff:
  "(\<exists>sid ev d'. StartStep st d = Inr (sid, ev, d')) \<longleftrightarrow>
     ValidStepKind (ss_kind st)
     \<and> (\<exists>ex. task_by_id d (ss_execution st) = Some ex \<and> t_attempt ex = ss_attempt st \<and> t_status ex = Running)
     \<and> (ss_called st = 0 \<or> (\<exists>c. task_by_id d (ss_called st) = Some c \<and> t_call_parent c = ss_execution st))
     \<and> (ss_parent st = 0 \<or> (\<exists>p. step_by_id d (ss_parent st) = Some p \<and> s_execution p = ss_execution st
            \<and> s_attempt p = ss_attempt st \<and> \<not> StepTerminal (s_status p)))"
proof -
  have ins: "fst (q_StartStepExecution (next_step d) (snd (q_InsertStepExecution r d))) \<noteq> 0" for r
    by (simp add: q_StartStepExecution_def Let_def q_InsertStepExecution_def)
  have vc: "verifyCallStep d st = None \<longleftrightarrow>
      ss_called st = 0 \<or> (\<exists>c. task_by_id d (ss_called st) = Some c \<and> t_call_parent c = ss_execution st)"
    by (auto simp: verifyCallStep_def split: option.splits)
  have sp: "(\<exists>depth. startParent d st = Inr (depth, False)) \<longleftrightarrow>
      ss_parent st = 0 \<or> (\<exists>p. step_by_id d (ss_parent st) = Some p \<and> s_execution p = ss_execution st
            \<and> s_attempt p = ss_attempt st \<and> \<not> StepTerminal (s_status p))"
    by (auto simp: startParent_def split: option.splits)
  have "(\<exists>sid ev d'. StartStep st d = Inr (sid, ev, d')) \<longleftrightarrow>
     ValidStepKind (ss_kind st)
     \<and> (\<exists>ex. task_by_id d (ss_execution st) = Some ex \<and> t_attempt ex = ss_attempt st \<and> t_status ex = Running)
     \<and> verifyCallStep d st = None \<and> (\<exists>depth. startParent d st = Inr (depth, False))"
    (is "?L \<longleftrightarrow> ?R")
  proof
    assume ?L
    then show ?R
      by (auto simp: StartStep_def Let_def CheckStepStart_def split: if_splits option.splits sum.splits prod.splits)
  next
    assume ?R
    then obtain ex depth where "task_by_id d (ss_execution st) = Some ex" "startParent d st = Inr (depth, False)" by blast
    with \<open>?R\<close> ins [of "step_row_of ex st depth"] show ?L
      by (auto simp: StartStep_def Let_def CheckStepStart_def q_InsertStepExecution_def split: prod.splits)
  qed
  then show ?thesis unfolding vc sp .
qed

section \<open>Claiming\<close>

definition db_two_identities :: db where
  "db_two_identities = snd (EnqueueIssue ''acme'' ''app'' 7 ''Crash on start'' [] [] ''bea'' db_queued)"

text \<open>Claiming by issue can strand a task. The unique key of a task has the org and the identity in
  it, and the claim's WHERE clause does not, so when two identities have a task for one issue the
  claim moves both to running and returns one of them; nobody runs the other.\<close>

theorem ClaimByIssue_claims_all:
  "reachable_db db_two_identities \<and> map t_status (tasks db_two_identities) = [Queued, Queued]
   \<and> (\<exists>r d'. ClaimByIssue ''acme'' ''app'' 7 db_two_identities = (Some r, d') \<and> t_id r = 1
        \<and> map t_status (tasks d') = [Running, Running])"
proof -
  have "reachable_db db_two_identities"
    unfolding db_two_identities_def by (rule reachable_EnqueueIssue [OF reachable_db_queued])
  moreover have "tasks db_two_identities =
      [(issue_row empty_db ''acme'' ''app'' 7 ''Crash on start'' [] [] ''archie'')\<lparr>t_id := 1\<rparr>,
       (issue_row db_queued ''acme'' ''app'' 7 ''Crash on start'' [] [] ''bea'')\<lparr>t_id := 2\<rparr>]"
    by (simp add: db_two_identities_def EnqueueIssue_def Let_def append_task_def db_queued_tasks
          same_issue_key_def issue_row_def)
  ultimately show ?thesis
    by (simp add: ClaimByIssue_def q_ClaimByIssue_def claims_issue_def issue_row_def default_row_def
          claim_row_def lifecycle_simps)
qed

section \<open>Long review payloads\<close>

lemma clip_strict: "n < length s \<Longrightarrow> strict_prefix (clip s n) s"
proof -
  assume n: "n < length s"
  then have c: "clip s n = concat (fit_runes (runes s) n)" by (simp add: clip_fit)
  then have "length (clip s n) \<le> n" by (simp add: fit_runes_length)
  moreover have "prefix (clip s n) s"
    unfolding c using prefix_concat [OF fit_runes_prefix [of "runes s" n]] by simp
  ultimately show ?thesis using n by (auto simp: strict_prefix_def)
qed

text \<open>A review whose encoded unit is longer than 4000 bytes cannot be remediated. \<open>BeginRemediation\<close>
  accepts it and stores it clipped; when the decoder accepts no proper prefix of an encoded unit,
  as JSON has it for objects, the queued remediation's payload does not decode.\<close>

theorem BeginRemediation_long_payload:
  assumes json: "\<And>q. strict_prefix q payload \<Longrightarrow> unmarshal q = None"
    and "4000 < length payload" and "task_by_id d i = Some r" and "t_status r = PROpen"
  shows "\<exists>d' r' e. BeginRemediation i payload d = Inr d' \<and> task_by_id d' i = Some r'
    \<and> t_status r' = Queued \<and> t_workflow r' = ''remediate'' \<and> DecodeReviewUnit unmarshal (t_review_payload r') = Inl e"
proof -
  have id: "r \<in> set (tasks d)" "t_id r = i" using task_by_id_Some [OF assms(3)] by auto
  have n: "0 < fst (q_BeginRemediationTask i p d)" for p
    unfolding q_BeginRemediationTask_def Let_def fst_conv matches_pos
    using id assms(4) by (intro bexI [of _ r]) (auto simp: PROpen_def)
  have "guardTransition d i PROpen Queued = None"
    using assms(3,4) by (simp add: guardTransition_None CanTransition_iff)
  then have "BeginRemediation i payload d = Inr (q_InsertTransition i PROpen Queued
      ''review reaction queued remediation'' (snd (q_BeginRemediationTask i (clip payload 4000) d)))"
    using n [of "clip payload 4000"]
    by (cases "q_BeginRemediationTask i (clip payload 4000) d") (simp add: BeginRemediation_def)
  moreover have "task_by_id (snd (q_BeginRemediationTask i p d)) i
      = Some (r\<lparr>t_status := ''queued'', t_workflow := ''remediate'', t_park_reason := [],
          t_park_class := ''needs_human'', t_review_payload := p, t_retry_mode := ''continue_pushed_work'',
          t_resume_from := [], t_resume_results := ''{}''\<rparr>)" for p
    using id assms(3,4) by (simp add: q_BeginRemediationTask_def Let_def task_by_id_update PROpen_def)
  moreover have "\<exists>e. DecodeReviewUnit unmarshal (clip payload 4000) = Inl e"
    using json [OF clip_strict [OF assms(2)]] by (simp add: DecodeReviewUnit_def)
  ultimately show ?thesis by (auto simp: Queued_def)
qed

text \<open>A toy decoder that accepts exactly the texts that close their brace.\<close>

definition braces_unmarshal :: "string \<Rightarrow> ReviewUnit option" where
  "braces_unmarshal s = (if s \<noteq> [] \<and> last s = CHR ''}'' \<and> CHR ''}'' \<notin> set (butlast s)
     then Some \<lparr>ru_review = 1, ru_author = [], ru_state = [], ru_body = [], ru_comments = []\<rparr> else None)"

theorem BeginRemediation_long_payload_witness:
  "\<exists>d' r' e. BeginRemediation 1 (replicate 5000 CHR ''a'' @ ''}'') db_pr_open = Inr d' \<and> task_by_id d' 1 = Some r'
     \<and> DecodeReviewUnit braces_unmarshal (t_review_payload r') = Inl e"
proof -
  let ?p = "replicate 5000 CHR ''a'' @ ''}''"
  have json: "braces_unmarshal q = None" if "strict_prefix q ?p" for q
  proof -
    have "prefix q (replicate 5000 CHR ''a'')"
      using that prefix_snoc [of q "replicate 5000 CHR ''a''" "CHR ''}''"] by (auto simp: strict_prefix_def)
    then have "set q \<subseteq> {CHR ''a''}" using set_mono_prefix by fastforce
    then have "q \<noteq> [] \<Longrightarrow> last q = CHR ''a''" using last_in_set by blast
    then show ?thesis by (cases "q = []") (auto simp: braces_unmarshal_def)
  qed
  have len: "4000 < length ?p" by simp
  from db_pr_open_row obtain r where r: "task_by_id db_pr_open 1 = Some r" "t_status r = PROpen"
    by (auto simp: task_by_id_def PROpen_def)
  from BeginRemediation_long_payload [where unmarshal = braces_unmarshal, OF json len r] show ?thesis by blast
qed

end
