(* ===== verification/Task_Actions_Spec.thy ===== *)
theory Task_Actions_Spec
  imports Task_Actions Task_Store_Recovery
begin

text \<open>
  What the action service relies on of its store, as a locale, and what the service then promises;
  the locale is interpreted on the PostgreSQL store, so the promises hold of the two together.
\<close>

section \<open>The store's contract\<close>

text \<open>\<open>status_of\<close> is the status the store holds for a task and \<open>inv\<close> the store's own invariant. A write
  that reports success has left the task where it was asked to; a cancel that reports callees it
  could not cancel promises nothing about the status.\<close>

locale action_store =
  fixes S :: "'s Store" and inv :: "'s \<Rightarrow> bool" and status_of :: "int \<Rightarrow> 's \<Rightarrow> string option"
  assumes read: "inv s \<Longrightarrow> st_TaskByID S i s = Inr (Some t) \<Longrightarrow> a_id t = i \<and> status_of i s = Some (a_status t)"
    and transition: "inv s \<Longrightarrow> st_Transition S i from to m s = Inr s' \<Longrightarrow> to \<noteq> PROpen \<Longrightarrow> inv s' \<and> status_of i s' = Some to"
    and requeue: "inv s \<Longrightarrow> st_Requeue S i from wfl s = Inr s' \<Longrightarrow> inv s' \<and> status_of i s' = Some Queued"
    and retry: "inv s \<Longrightarrow> st_RetryTask S i from wfl mode res s = Inr s' \<Longrightarrow> inv s' \<and> status_of i s' = Some Queued"
    and respond: "inv s \<Longrightarrow> st_RespondReviewGate S i from g re cap s = Inr s' \<Longrightarrow> inv s' \<and> status_of i s' = Some Queued"
    and archive: "inv s \<Longrightarrow> st_ArchiveTask S i from e s = Inr (k, s') \<Longrightarrow> inv s' \<and> status_of i s' = None"
    and event: "inv s \<Longrightarrow> st_InsertEvent S e s = Inr (k, s') \<Longrightarrow> inv s' \<and> status_of i s' = status_of i s"
    and cancel: "inv s \<Longrightarrow> st_CancelExecution S i m to s = (s', ids, err) \<Longrightarrow> inv s' \<and> (err = None \<longrightarrow> status_of i s' = Some to)"
begin

lemma warn_store [simp]: "w_store (warn sv m i w) = w_store w"
  by (simp add: warn_def called_def)

lemma called_store [simp]: "w_store (called c w) = w_store w"
  by (simp add: called_def)

lemma deliver_store [simp]: "w_store (deliver sv i w) = w_store w"
  by (simp add: deliver_def split: option.splits)

lemma emit_keeps:
  assumes "sv_store sv = S" and "inv (w_store w)"
  shows "inv (w_store (emit sv e w)) \<and> status_of i (w_store (emit sv e w)) = status_of i (w_store w)"
  using assms event by (auto simp: emit_def Let_def split: sum.splits prod.splits if_splits)

lemma close_keeps:
  assumes "sv_store sv = S" and "inv (w_store w)"
  shows "inv (w_store (closeRejectedPR sv t a v w))
      \<and> status_of i (w_store (closeRejectedPR sv t a v w)) = status_of i (w_store w)"
    and "w_store (closeRejectedIssue sv t a v w) = w_store w"
  using assms emit_keeps [OF assms(1), of "called c w" for c]
  by (auto simp: closeRejectedPR_def closeRejectedIssue_def Let_def split: option.splits)

lemma after_apply_keeps:
  assumes "sv_store sv = S" and "inv (w_store w)"
  shows "inv (w_store (after_apply sv t a oc w))
      \<and> status_of i (w_store (after_apply sv t a oc w)) = status_of i (w_store w)"
  using assms close_keeps emit_keeps by (simp add: after_apply_def Let_def)

text \<open>Every handler that succeeds leaves the task where \<open>ActionTarget\<close> says, or gone.\<close>

lemma cancelled_target:
  assumes "sv_store sv = S" and "inv (w_store w)" and "cancelled sv i m to w = (err, w1)"
  shows "inv (w_store w1)" "err = None \<Longrightarrow> status_of i (w_store w1) = Some to"
  using assms cancel by (auto simp: cancelled_def split: prod.splits)

lemma wrote_Inr: "wrote w oc res = (Inr oc', w1) \<Longrightarrow> \<exists>s. res = Inr s \<and> oc' = oc \<and> w1 = w\<lparr>w_store := s\<rparr>"
  by (auto simp: wrote_def split: sum.splits)

lemma applyApprove_target:
  "sv_store sv = S \<Longrightarrow> inv (w_store w) \<Longrightarrow> applyApprove sv t a oc res w = (Inr oc', w1) \<Longrightarrow>
   inv (w_store w1) \<and> status_of (a_id t) (w_store w1) = Some Queued"
  by (auto simp: applyApprove_def Let_def dest!: wrote_Inr dest: requeue respond
      split: option.splits sum.splits if_splits)

lemma applyRereview_target:
  "sv_store sv = S \<Longrightarrow> inv (w_store w) \<Longrightarrow> applyRereview sv t a oc res w = (Inr oc', w1) \<Longrightarrow>
   inv (w_store w1) \<and> status_of (a_id t) (w_store w1) = Some Queued"
  by (auto simp: applyRereview_def dest!: wrote_Inr dest: respond split: option.splits if_splits)

lemma applyRetry_target:
  "sv_store sv = S \<Longrightarrow> inv (w_store w) \<Longrightarrow> applyRetry sv t a oc res w = (Inr oc', w1) \<Longrightarrow>
   inv (w_store w1) \<and> status_of (a_id t) (w_store w1) = Some Queued"
  by (auto simp: applyRetry_def Let_def dest: retry split: sum.splits prod.splits if_splits store_error.splits)

lemma applyMerge_target:
  "sv_store sv = S \<Longrightarrow> inv (w_store w) \<Longrightarrow> applyMerge sv t a oc w = (Inr oc', w1) \<Longrightarrow>
   inv (w_store w1) \<and> status_of (a_id t) (w_store w1) = Some Merged"
  using transition [where to = Merged]
  by (auto simp: applyMerge_def Let_def ActionTarget_def lifecycle_simps dest!: wrote_Inr split: option.splits if_splits)

lemma applyArchive_target:
  "sv_store sv = S \<Longrightarrow> inv (w_store w) \<Longrightarrow> applyArchive sv t a oc w = (Inr oc', w1) \<Longrightarrow>
   inv (w_store w1) \<and> status_of (a_id t) (w_store w1) = None"
  by (auto simp: applyArchive_def Let_def dest: archive split: sum.splits option.splits if_splits)

lemma applyCancels_target:
  assumes "sv_store sv = S" and "inv (w_store w)"
  shows "applyStop sv t a oc w = (Inr oc', w1) \<Longrightarrow> inv (w_store w1) \<and> status_of (a_id t) (w_store w1) = Some Parked"
    and "applyReject sv t a oc w = (Inr oc', w1) \<Longrightarrow> inv (w_store w1) \<and> status_of (a_id t) (w_store w1) = Some Declined"
    and "applyCancelOrAbandon sv t act a oc w = (Inr oc', w1) \<Longrightarrow>
      inv (w_store w1) \<and> status_of (a_id t) (w_store w1) = Some Declined"
proof -
  have d: "declined = Declined" "parked = Parked"
    by (simp_all add: declined_def parked_def ActionTarget_def lifecycle_simps)
  note c = cancelled_target [OF assms]
  show "applyStop sv t a oc w = (Inr oc', w1) \<Longrightarrow> inv (w_store w1) \<and> status_of (a_id t) (w_store w1) = Some Parked"
    by (auto simp: applyStop_def Let_def d split: option.splits prod.splits dest: c)
  show "applyReject sv t a oc w = (Inr oc', w1) \<Longrightarrow> inv (w_store w1) \<and> status_of (a_id t) (w_store w1) = Some Declined"
    by (auto simp: applyReject_def d split: option.splits prod.splits dest: c)
  show "applyCancelOrAbandon sv t act a oc w = (Inr oc', w1) \<Longrightarrow>
      inv (w_store w1) \<and> status_of (a_id t) (w_store w1) = Some Declined"
    by (auto simp: applyCancelOrAbandon_def d split: if_splits option.splits prod.splits dest: c)
qed

lemma apply_action_target:
  assumes "sv_store sv = S" and "inv (w_store w)" and "apply_action sv t a action res w = (Inr oc, w1)"
  shows "inv (w_store w1) \<and> status_of (a_id t) (w_store w1) = ActionTarget action"
proof -
  have t: "ActionTarget ActionApprove = Some Queued" "ActionTarget ActionRereview = Some Queued"
    "ActionTarget ActionRetry = Some Queued" "ActionTarget ActionStop = Some Parked"
    "ActionTarget ActionReject = Some Declined" "ActionTarget ActionCancel = Some Declined"
    "ActionTarget ActionAbandon = Some Declined" "ActionTarget ActionMerge = Some Merged"
    "ActionTarget ActionArchive = None"
    by (simp_all add: ActionTarget_def lifecycle_simps)
  note targets = applyApprove_target applyRereview_target applyRetry_target applyMerge_target
    applyArchive_target applyCancels_target
  show ?thesis
    using assms(3) unfolding apply_action_def Let_def
    by (auto simp: t split: if_splits dest: targets [OF assms(1,2)])
qed

theorem Apply_target:
  assumes "sv_store sv = S" and "inv (w_store w)" and "Apply sv scope a i action res w = (None, w')"
  shows "inv (w_store w') \<and> status_of i (w_store w') = ActionTarget action"
proof -
  from assms obtain t oc w1 where t: "st_TaskByID S i (w_store w) = Inr (Some t)"
    and w1: "apply_action sv t a action res w = (Inr oc, w1)" and w': "w' = after_apply sv t a oc w1"
    by (auto simp: Apply_def split: sum.splits option.splits if_splits prod.splits)
  have "a_id t = i" using read [OF assms(2) t] by simp
  with apply_action_target [OF assms(1,2) w1] after_apply_keeps [OF assms(1), of w1] w' show ?thesis by simp
qed

text \<open>A refusal changes nothing in the store, but for a retry at its limit, which declares the task
  dead.\<close>

lemma apply_action_refused:
  assumes "apply_action sv t a action res w = (Inl (ErrConflict c), w1)" and "\<And>n m. c \<noteq> MaxRetriesReached n m"
  shows "w_store w1 = w_store w"
  using assms unfolding apply_action_def Let_def
  by (auto simp: applyApprove_def applyRereview_def applyRetry_def applyStop_def applyReject_def
      applyCancelOrAbandon_def applyArchive_def applyMerge_def wrote_def Let_def
      split: if_splits option.splits sum.splits prod.splits store_error.splits)

end

section \<open>A store that keeps a log\<close>

text \<open>An event attributed to the actor: the task and attempt acted on, both identities, and a kind that
  credits a human only when the actor is one.\<close>

definition credited :: "Task \<Rightarrow> Actor \<Rightarrow> event \<Rightarrow> bool" where
  "credited t a e \<longleftrightarrow> e_task e = a_id t \<and> e_attempt e = a_attempt t \<and> e_actor e = ac_identity a
     \<and> e_actor_kind e = ac_kind a \<and> e_principal e = ac_principal a
     \<and> (e_kind e \<in> {''human_approved'', ''human_rejected'', ''human_rereviewed''} \<longrightarrow> Human a)"

text \<open>The second contract adds the timeline: an event inserted or written by an archive stays
  recorded.\<close>

locale logging_action_store = action_store S inv status_of
  for S :: "'s Store" and inv :: "'s \<Rightarrow> bool" and status_of :: "int \<Rightarrow> 's \<Rightarrow> string option" +
  fixes logged :: "event \<Rightarrow> 's \<Rightarrow> bool"
  assumes insert_total: "\<exists>k s'. st_InsertEvent S e s = Inr (k, s')"
    and insert_logs: "st_InsertEvent S e s = Inr (k, s') \<Longrightarrow> logged e s'"
    and insert_keeps: "logged e' s \<Longrightarrow> st_InsertEvent S e s = Inr (k, s') \<Longrightarrow> logged e' s'"
    and archive_logs: "st_ArchiveTask S i from e s = Inr (k, s') \<Longrightarrow> logged e s'"
    and logged_id: "logged (e\<lparr>e_id := k\<rparr>) s = logged e s"
begin

lemma emit_logs:
  assumes "sv_store sv = S" and "e_id e = 0 \<or> logged e (w_store w)"
  shows "logged e (w_store (emit sv e w))"
proof (cases "e_id e = 0")
  case True
  obtain k s' where i: "st_InsertEvent S e (w_store w) = Inr (k, s')" using insert_total by blast
  with insert_logs have "logged e s'" by blast
  with True i assms(1) show ?thesis by (simp add: emit_def called_def)
next
  case False
  with assms show ?thesis by (simp add: emit_def called_def)
qed

lemma emit_keeps_log:
  assumes "sv_store sv = S" and "logged e' (w_store w)"
  shows "logged e' (w_store (emit sv e w))"
  using assms insert_keeps
  by (auto simp: emit_def Let_def called_def warn_def split: sum.splits prod.splits if_splits)

lemma kinds_credited:
  "approvedKind a \<in> {''human_approved'', ''human_rejected'', ''human_rereviewed''} \<Longrightarrow> Human a"
  "rejectedKind a \<in> {''human_approved'', ''human_rejected'', ''human_rereviewed''} \<Longrightarrow> Human a"
  "rereviewedKind a \<in> {''human_approved'', ''human_rejected'', ''human_rereviewed''} \<Longrightarrow> Human a"
  by (auto simp: approvedKind_def rejectedKind_def rereviewedKind_def split: if_splits)

lemma event_updates:
  "applyApprove sv t a oc res w = (Inr oc', w1) \<Longrightarrow>
     \<exists>d. o_event oc' = (o_event oc)\<lparr>e_kind := approvedKind a, e_detail := d\<rparr>"
  "applyRereview sv t a oc res w = (Inr oc', w1) \<Longrightarrow>
     \<exists>d. o_event oc' = (o_event oc)\<lparr>e_kind := rereviewedKind a, e_detail := d\<rparr>"
  "applyRetry sv t a oc res w = (Inr oc', w1) \<Longrightarrow>
     \<exists>d x. o_event oc' = (o_event oc)\<lparr>e_kind := ''task_retried'', e_detail := d, e_data := x\<rparr>"
  "applyStop sv t a oc w = (Inr oc', w1) \<Longrightarrow>
     \<exists>d. o_event oc' = (o_event oc)\<lparr>e_kind := ''task_stopped'', e_detail := d\<rparr>"
  "applyReject sv t a oc w = (Inr oc', w1) \<Longrightarrow>
     \<exists>d. o_event oc' = (o_event oc)\<lparr>e_kind := rejectedKind a, e_detail := d\<rparr>"
  "applyCancelOrAbandon sv t action a oc w = (Inr oc', w1) \<Longrightarrow>
     \<exists>d k. o_event oc' = (o_event oc)\<lparr>e_kind := k, e_detail := d\<rparr> \<and> k \<in> {''task_abandoned'', ''task_cancelled''}"
  "applyMerge sv t a oc w = (Inr oc', w1) \<Longrightarrow>
     \<exists>d x. o_event oc' = (o_event oc)\<lparr>e_kind := ''pr_merge_requested'', e_detail := d, e_data := x\<rparr>"
proof -
  show "applyApprove sv t a oc res w = (Inr oc', w1) \<Longrightarrow>
     \<exists>d. o_event oc' = (o_event oc)\<lparr>e_kind := approvedKind a, e_detail := d\<rparr>"
    by (auto simp: applyApprove_def Let_def dest!: wrote_Inr split: option.splits sum.splits if_splits)
  show "applyRereview sv t a oc res w = (Inr oc', w1) \<Longrightarrow>
     \<exists>d. o_event oc' = (o_event oc)\<lparr>e_kind := rereviewedKind a, e_detail := d\<rparr>"
    by (auto simp: applyRereview_def dest!: wrote_Inr split: option.splits if_splits)
  show "applyRetry sv t a oc res w = (Inr oc', w1) \<Longrightarrow>
     \<exists>d x. o_event oc' = (o_event oc)\<lparr>e_kind := ''task_retried'', e_detail := d, e_data := x\<rparr>"
    by (auto simp: applyRetry_def Let_def split: sum.splits prod.splits if_splits store_error.splits) blast+
  show "applyStop sv t a oc w = (Inr oc', w1) \<Longrightarrow>
     \<exists>d. o_event oc' = (o_event oc)\<lparr>e_kind := ''task_stopped'', e_detail := d\<rparr>"
    by (auto simp: applyStop_def Let_def split: option.splits prod.splits)
  show "applyReject sv t a oc w = (Inr oc', w1) \<Longrightarrow>
     \<exists>d. o_event oc' = (o_event oc)\<lparr>e_kind := rejectedKind a, e_detail := d\<rparr>"
    by (auto simp: applyReject_def split: option.splits prod.splits)
  show "applyCancelOrAbandon sv t action a oc w = (Inr oc', w1) \<Longrightarrow>
     \<exists>d k. o_event oc' = (o_event oc)\<lparr>e_kind := k, e_detail := d\<rparr> \<and> k \<in> {''task_abandoned'', ''task_cancelled''}"
    by (auto simp: applyCancelOrAbandon_def split: if_splits option.splits prod.splits) blast+
  show "applyMerge sv t a oc w = (Inr oc', w1) \<Longrightarrow>
     \<exists>d x. o_event oc' = (o_event oc)\<lparr>e_kind := ''pr_merge_requested'', e_detail := d, e_data := x\<rparr>"
    by (auto simp: applyMerge_def Let_def dest!: wrote_Inr split: option.splits if_splits) blast
qed

lemma applyArchive_logs:
  assumes "sv_store sv = S" and "applyArchive sv t a oc w = (Inr oc', w1)"
  shows "\<exists>d k. o_event oc' = (o_event oc)\<lparr>e_kind := ''task_archive_requested'', e_detail := d, e_id := k\<rparr>
    \<and> logged (o_event oc') (w_store w1)"
  using assms archive_logs
  by (auto simp: applyArchive_def Let_def logged_id split: option.splits sum.splits if_splits) blast+

lemma apply_action_credits:
  assumes "sv_store sv = S" and "apply_action sv t a action res w = (Inr oc, w1)"
  shows "credited t a (o_event oc) \<and> (e_id (o_event oc) = 0 \<or> logged (o_event oc) (w_store w1))"
proof -
  let ?oc = "\<lparr>o_event = attributed t a, o_verb = []\<rparr>"
  let ?hk = "{''human_approved'', ''human_rejected'', ''human_rereviewed''}"
  have two: "credited t a e \<and> e_id e = 0"
    if "e = (attributed t a)\<lparr>e_kind := k, e_detail := d\<rparr>" "k \<in> ?hk \<Longrightarrow> Human a" for e d k
    using that by (simp add: credited_def attributed_def no_event_def)
  have three: "credited t a e \<and> e_id e = 0"
    if "e = (attributed t a)\<lparr>e_kind := k, e_detail := d, e_data := x\<rparr>" "k \<in> ?hk \<Longrightarrow> Human a" for e d k x
    using that by (simp add: credited_def attributed_def no_event_def)
  note evs = event_updates [where oc = ?oc, unfolded outcome.simps]
  consider "applyApprove sv t a ?oc res w = (Inr oc, w1)" | "applyRereview sv t a ?oc res w = (Inr oc, w1)"
    | "applyRetry sv t a ?oc res w = (Inr oc, w1)" | "applyStop sv t a ?oc w = (Inr oc, w1)"
    | "applyReject sv t a ?oc w = (Inr oc, w1)" | "applyCancelOrAbandon sv t action a ?oc w = (Inr oc, w1)"
    | "applyArchive sv t a ?oc w = (Inr oc, w1)" | "applyMerge sv t a ?oc w = (Inr oc, w1)"
    using assms(2) unfolding apply_action_def Let_def by (auto split: if_splits)
  then show ?thesis
  proof cases
    case 1
    from evs(1) [OF this] show ?thesis using two kinds_credited(1) by blast
  next
    case 2
    from evs(2) [OF this] show ?thesis using two kinds_credited(3) by blast
  next
    case 3
    from evs(3) [OF this] show ?thesis using three by fastforce
  next
    case 4
    from evs(4) [OF this] show ?thesis using two by fastforce
  next
    case 5
    from evs(5) [OF this] show ?thesis using two kinds_credited(2) by blast
  next
    case 6
    from evs(6) [OF this] show ?thesis using two by fastforce
  next
    case 7
    from applyArchive_logs [OF assms(1) this] show ?thesis
      by (auto simp: credited_def attributed_def no_event_def)
  next
    case 8
    from evs(7) [OF this] show ?thesis using three by fastforce
  qed
qed

theorem Apply_logs:
  assumes "sv_store sv = S" and "inv (w_store w)" and "Apply sv scope a i action res w = (None, w')"
  shows "\<exists>t e. st_TaskByID S i (w_store w) = Inr (Some t) \<and> credited t a e \<and> logged e (w_store w')"
proof -
  from assms obtain t oc w1 where t: "st_TaskByID S i (w_store w) = Inr (Some t)"
    and w1: "apply_action sv t a action res w = (Inr oc, w1)" and w': "w' = after_apply sv t a oc w1"
    by (auto simp: Apply_def split: sum.splits option.splits if_splits prod.splits)
  note cr = apply_action_credits [OF assms(1) w1]
  let ?w2 = "if o_verb oc \<noteq> [] \<and> a_status t = PROpen \<and> a_pr t > 0 then closeRejectedPR sv t a (o_verb oc) w1 else w1"
  let ?w3 = "if o_verb oc \<noteq> [] \<and> a_forge t then closeRejectedIssue sv t a (o_verb oc) ?w2 else ?w2"
  have l2: "logged (o_event oc) (w_store ?w2)" if "logged (o_event oc) (w_store w1)"
    using that emit_keeps_log [OF assms(1), of "o_event oc"]
    by (auto simp: closeRejectedPR_def Let_def split: option.splits)
  have l3: "w_store ?w3 = w_store ?w2"
    by (auto simp: closeRejectedIssue_def Let_def split: option.splits)
  have "logged (o_event oc) (w_store (emit sv (o_event oc) ?w3))"
    using cr l2 l3 by (intro emit_logs [OF assms(1)]) auto
  then show ?thesis using t cr w' by (auto simp: after_apply_def Let_def)
qed

end

section \<open>The PostgreSQL store keeps both contracts\<close>

definition pg_status :: "int \<Rightarrow> db \<Rightarrow> string option" where
  "pg_status i d = map_option t_status (task_by_id d i)"

definition pg_logged :: "event \<Rightarrow> db \<Rightarrow> bool" where
  "pg_logged e d \<longleftrightarrow> (\<exists>x\<in>set (db_events d). e_kind x = e_kind e \<and> e_task x = e_task e \<and> e_attempt x = e_attempt e
     \<and> e_actor x = e_actor e \<and> e_actor_kind x = e_actor_kind e \<and> e_principal x = e_principal e)"

lemma TaskByID_task_by_id:
  assumes "wf_db d" and "TaskByID sc d i = Some r"
  shows "task_by_id d i = Some r" "t_id r = i"
proof -
  from assms(2) have "r \<in> set (tasks d)" "t_id r = i" by (auto simp: TaskByID_def find_Some_iff)
  with assms(1) show "task_by_id d i = Some r" "t_id r = i" using task_by_id_eq by (auto simp: wf_db_def)
qed

lemma guarded_write_status:
  assumes "guarded_write i from to m u d = Inr d'"
    and "\<And>r. t_status r = from \<Longrightarrow> t_id r = i \<Longrightarrow> task_by_id d i = Some r \<Longrightarrow> fst (u d) \<noteq> 0
          \<Longrightarrow> pg_status i (snd (u d)) = Some to"
  shows "pg_status i d' = Some to"
  using assms by (auto simp: guarded_write_def guardTransition_def pg_status_def
      split: option.splits prod.splits if_splits dest: task_by_id_Some)

lemma pg_transition:
  assumes "Transition i from to m d = Inr d'" and "to \<noteq> PROpen"
  shows "pg_status i d' = Some to"
proof -
  from assms have "guarded_write i from to (clip m 4000) (q_TransitionTask i to (clip m 4000) ParkNeedsHuman from) d = Inr d'"
    by (auto simp: Transition_def split: sum.splits)
  then show ?thesis by (rule guarded_write_status) (auto simp: pg_status_def q_TransitionTask_found)
qed

lemma pg_requeue: "Requeue i from wfl d = Inr d' \<Longrightarrow> pg_status i d' = Some Queued"
  unfolding Requeue_def
  by (erule guarded_write_status) (auto simp: pg_status_def q_RequeueTask_def Let_def task_by_id_update Queued_def)

lemma pg_retry:
  assumes "RetryTask i from wfl mode res d = Inr d'"
  shows "pg_status i d' = Some Queued"
proof -
  from assms obtain rs where
    "guarded_write i from Queued (''retried '' @ wfl) (q_RetryTask i wfl from mode (resume_From res) rs) d = Inr d'"
    by (auto simp: RetryTask_def split: option.splits sum.splits)
  then show ?thesis by (rule guarded_write_status) (auto simp: pg_status_def q_RetryTask_found Queued_def)
qed

lemma pg_respond:
  assumes "wf_db d" and "RespondReviewGate i from g re cap d = Inr d'"
  shows "pg_status i d' = Some Queued"
proof -
  from assms(2) obtain m r where r: "task_by_id d i = Some r" "\<not> (re \<and> cap \<le> t_rereview_rounds r)" and
    "guarded_write i from Queued m (q_RespondReviewGateTask i from g re cap) d = Inr d'"
    by (auto simp: RespondReviewGate_def split: option.splits if_splits)
  from this(3) show ?thesis
    by (rule guarded_write_status) (use r in \<open>auto simp: pg_status_def q_RespondReviewGateTask_found Queued_def\<close>)
qed

lemma pg_archive:
  assumes "wf_db d" and "ArchiveTask i from e d = Inr (k, d')"
  shows "pg_status i d' = None"
proof -
  from assms(2) have d': "tasks d' = filter (\<lambda>r. \<not> (t_id r = i \<and> t_status r = from)) (tasks d)"
    and n: "\<exists>r\<in>set (tasks d). t_id r = i \<and> t_status r = from"
    by (auto simp: ArchiveTask_def q_ArchiveTaskDelete_def delete_tasks_def insertEventQ_def split: if_splits)
  from n obtain q where q: "q \<in> set (tasks d)" "t_id q = i" "t_status q = from" by blast
  have "t_id r \<noteq> i" if "r \<in> set (tasks d')" for r
  proof
    assume "t_id r = i"
    with that q d' assms(1) have "r = q" by (auto simp: wf_db_def distinct_map dest: inj_onD)
    with that d' q show False by simp
  qed
  then show ?thesis by (simp add: pg_status_def task_by_id_None)
qed

lemma pg_cancel:
  assumes "wf_db d" and "CancelExecution i m to d = (d', ids, None)"
  shows "pg_status i d' = Some to"
proof -
  from CancelExecution_enough [of d i m to] assms(2)
  have f: "cancel_fuel (Suc (open_count d)) i m to d = Some (d', ids, None)" by simp
  then obtain closed waiting d1 where tx: "cancel_tx i m to d = Inr (closed, waiting, d1)"
    by (auto split: sum.splits)
  with f obtain fs where c: "cancelWaitedCallees (open_count d) waiting m to d1 = Some (d', fs)"
    by (auto split: option.splits)
  from tx obtain ex where ex: "task_by_id d i = Some ex" by (rule cancel_tx_steps)
  from cancel_tx_effect(1) [OF assms(1) tx ex] cancel_fuel_keeps(2) [OF c] obtain r where
    r: "r \<in> set (tasks d')" "t_id r = i" "t_status r = to" by blast
  moreover have "wf_db d'" using good_wf [OF good_CancelExecution [OF assms]] .
  ultimately show ?thesis using task_by_id_eq [of d' r] by (simp add: pg_status_def wf_db_def)
qed

lemma pg_event:
  assumes "insertEventQ e d = (k, d')"
  shows "wf_db d \<Longrightarrow> wf_db d'" "pg_status i d' = pg_status i d" "pg_logged e d'"
    "pg_logged e' d \<Longrightarrow> pg_logged e' d'"
proof -
  have d': "d' = snd (insertEventQ e d)" using assms by simp
  show "wf_db d \<Longrightarrow> wf_db d'" unfolding d' by (rule good_wf [OF good_insertEventQ])
  show "pg_status i d' = pg_status i d" unfolding d' pg_status_def by (simp add: task_by_id_def)
  have ev: "db_events d' = db_events d @ [e\<lparr>e_id := next_event d, e_detail := clip (e_detail e) 4000\<rparr>]"
    unfolding d' by (simp add: insertEventQ_def)
  then show "pg_logged e d'" "pg_logged e' d \<Longrightarrow> pg_logged e' d'" by (auto simp: pg_logged_def)
qed

lemma pg_archive_logs:
  assumes "ArchiveTask i from e d = Inr (k, d')"
  shows "pg_logged e d'"
proof -
  from assms have "db_events d' = db_events (snd (insertEventQ e d))"
    by (auto simp: ArchiveTask_def q_ArchiveTaskDelete_def delete_tasks_def split: prod.splits if_splits)
  with pg_event(3) [of e d "fst (insertEventQ e d)" "snd (insertEventQ e d)"] show ?thesis
    by (simp add: pg_logged_def)
qed

lemma pg_logged_id: "pg_logged (e\<lparr>e_id := k\<rparr>) d = pg_logged e d"
  by (simp add: pg_logged_def)

lemmas pg_wf = good_Transition [THEN good_wf] good_Requeue [THEN good_wf] good_RetryTask [THEN good_wf]
  good_RespondReviewGate [THEN good_wf] good_ArchiveTask [THEN good_wf] good_CancelExecution [THEN good_wf]

interpretation pg: logging_action_store "pg_store stages scope" wf_db pg_status pg_logged for stages scope
proof (unfold_locales, unfold pg_store_def Store.simps, goal_cases)
  case 1
  then show ?case by (auto simp: task_view_def pg_status_def dest: TaskByID_task_by_id)
next
  case 2
  then show ?case using pg_transition pg_wf(1) by blast
next
  case 3
  then show ?case using pg_requeue pg_wf(2) by blast
next
  case 4
  then show ?case using pg_retry pg_wf(3) by blast
next
  case 5
  then show ?case using pg_respond pg_wf(4) by blast
next
  case 6
  then show ?case using pg_archive pg_wf(5) by blast
next
  case 7
  then show ?case using pg_event(1,2) by blast
next
  case 8
  then show ?case using pg_cancel pg_wf(6) by blast
next
  case 9
  then show ?case by simp
next
  case 10
  then show ?case using pg_event(3) by blast
next
  case 11
  then show ?case using pg_event(4) by blast
next
  case 12
  then show ?case using pg_archive_logs by blast
next
  case 13
  then show ?case by (rule pg_logged_id)
qed

section \<open>What the service promises on the PostgreSQL store\<close>

text \<open>C3: an action that succeeds leaves the task where the lifecycle table says: in the action's target
  status, or, for an archive, gone. This holds of the service and the PostgreSQL store together, for
  every wiring of the service's callbacks and from every reachable database.\<close>

theorem Apply_reaches_target:
  assumes "sv_store sv = pg_store stages org" and "reachable_db (w_store w)"
    and "Apply sv scope a i action res w = (None, w')"
  shows "map_option t_status (task_by_id (w_store w') i) = ActionTarget action \<and> wf_db (w_store w')"
  using pg.Apply_target [OF assms(1) reachable_db_wf [OF assms(2)] assms(3)] by (simp add: pg_status_def)

definition bare_service :: "db Service" where
  "bare_service = \<lparr>sv_store = pg_store (\<lambda>_. []) None, sv_MaxRetries = None, sv_CancelTask = Some (\<lambda>_. True),
     sv_CloseIssue = None, sv_ClosePR = None, sv_MergePR = None, sv_RemoveLogs = None, sv_RemoveWorktree = None,
     sv_Publish = True, sv_Warn = False, sv_marshal = (\<lambda>_. None), sv_unmarshal = (\<lambda>_. None)\<rparr>"

definition no_payload :: ActionPayload where
  "no_payload = \<lparr>p_instructions = [], p_findings = [], p_retry_mode = [], p_resume_from = []\<rparr>"

lemma stop_running:
  "\<exists>w'. Apply bare_service None no_actor 1 ActionStop no_payload \<lparr>w_store = db_running, w_calls = []\<rparr> = (None, w')"
  by (simp add: Apply_def bare_service_def pg_store_def TaskByID_def db_running_tasks in_scope_def claim_row_def
        issue_row_def default_row_def task_view_def CheckAction_def Actions_def lifecycle_simps apply_action_def
        applyStop_def Let_def cancelled_def parked_def ActionTarget_def CancelExecution_def open_count_def
        cancel_tx_def task_by_id_def CanTransition_iff q_WaitingCallSteps_def q_CancelAttemptSteps_def
        sweep_events_def q_TransitionTask_def matches_def)

theorem Apply_reaches_target_witness:
  "\<exists>w'. Apply bare_service None no_actor 1 ActionStop no_payload \<lparr>w_store = db_running, w_calls = []\<rparr> = (None, w')
     \<and> map_option t_status (task_by_id (w_store w') 1) = Some Parked"
proof -
  obtain w' where w': "Apply bare_service None no_actor 1 ActionStop no_payload \<lparr>w_store = db_running, w_calls = []\<rparr> = (None, w')"
    using stop_running by blast
  have "sv_store bare_service = pg_store (\<lambda>_. []) None" by (simp add: bare_service_def)
  from Apply_reaches_target [OF this _ w'] w' reachable_db_running show ?thesis
    by (simp add: ActionTarget_def lifecycle_simps)
qed

text \<open>An action that succeeds is on the task's timeline, attributed to the identity, kind and
  principal that performed it and to the attempt it acted on, and its kind credits a human only when
  the actor is one.\<close>

theorem Apply_records:
  assumes "sv_store sv = pg_store stages org" and "reachable_db (w_store w)"
    and "Apply sv scope a i action res w = (None, w')"
  shows "\<exists>r x. TaskByID org (w_store w) i = Some r \<and> x \<in> set (db_events (w_store w'))
    \<and> e_task x = i \<and> e_attempt x = t_attempt r \<and> e_actor x = ac_identity a \<and> e_actor_kind x = ac_kind a
    \<and> e_principal x = ac_principal a
    \<and> (e_kind x \<in> {''human_approved'', ''human_rejected'', ''human_rereviewed''} \<longrightarrow> Human a)"
proof -
  have wfd: "wf_db (w_store w)" using assms(2) by (rule reachable_db_wf)
  obtain t e where t: "st_TaskByID (pg_store stages org) i (w_store w) = Inr (Some t)"
    and e: "credited t a e" "pg_logged e (w_store w')"
    using pg.Apply_logs [OF assms(1) wfd assms(3)] by blast
  from t obtain r where r: "TaskByID org (w_store w) i = Some r" "t = task_view stages r"
    by (auto simp: pg_store_def)
  then have "a_id t = i" "a_attempt t = t_attempt r"
    using TaskByID_task_by_id [OF wfd r(1)] by (simp_all add: task_view_def)
  with r e show ?thesis by (auto simp: credited_def pg_logged_def)
qed

theorem Apply_records_witness:
  "\<exists>w' x. Apply bare_service None no_actor 1 ActionStop no_payload \<lparr>w_store = db_running, w_calls = []\<rparr> = (None, w')
     \<and> x \<in> set (db_events (w_store w')) \<and> e_task x = 1"
proof -
  obtain w' where w': "Apply bare_service None no_actor 1 ActionStop no_payload \<lparr>w_store = db_running, w_calls = []\<rparr> = (None, w')"
    using stop_running by blast
  have "sv_store bare_service = pg_store (\<lambda>_. []) None" by (simp add: bare_service_def)
  from Apply_records [OF this _ w'] w' reachable_db_running show ?thesis by auto
qed

text \<open>C28: the guards come before any effect. A caller scoped to another identity, and an action the
  task's status does not offer, are refused with nothing written and nothing called; and a conflict
  found later leaves the store as it was, except for a retry over its limit.\<close>

theorem Apply_refuses:
  assumes "sv_store sv = pg_store stages org" and "TaskByID org (w_store w) i = Some r"
  shows "(\<forall>s. s \<noteq> t_identity r \<longrightarrow> Apply sv (Some s) a i action res w = (Some (ErrOtherIdentity (t_identity r) s), w))
    \<and> (\<forall>scope. scope \<in> {None, Some (t_identity r)} \<and> action \<notin> set (Actions (t_status r)) \<longrightarrow>
         Apply sv scope a i action res w = (Some (ErrConflict (NotAllowed (ActionNotAvailable action (t_status r)))), w))
    \<and> (\<forall>scope c w'. Apply sv scope a i action res w = (Some (ErrConflict c), w') \<longrightarrow>
         w_store w' = w_store w \<or> (\<exists>n m. c = MaxRetriesReached n m))"
proof -
  have rd: "st_TaskByID (sv_store sv) i (w_store w) = Inr (Some (task_view stages r))"
    using assms by (simp add: pg_store_def)
  have late: "w_store w' = w_store w" if "Apply sv scope a i action res w = (Some (ErrConflict c), w')"
    "\<And>n m. c \<noteq> MaxRetriesReached n m" for scope c w'
  proof -
    obtain x w1 where x: "apply_action sv (task_view stages r) a action res w = (x, w1)" by fastforce
    have "w' = w \<or> x = Inl (ErrConflict c) \<and> w' = w1"
      using that(1) unfolding Apply_def rd
      by (cases x) (auto simp: x split: if_splits option.splits)
    then show ?thesis
    proof
      assume "x = Inl (ErrConflict c) \<and> w' = w1"
      with x have "apply_action sv (task_view stages r) a action res w = (Inl (ErrConflict c), w')" by simp
      then show ?thesis by (rule pg.apply_action_refused) (rule that(2))
    qed simp
  qed
  have f: "a_identity (task_view stages r) = t_identity r" "a_status (task_view stages r) = t_status r"
    by (simp_all add: task_view_def)
  have "Apply sv (Some s) a i action res w = (Some (ErrOtherIdentity (t_identity r) s), w)" if "s \<noteq> t_identity r" for s
    unfolding Apply_def rd using that f by simp
  moreover have "Apply sv scope a i action res w = (Some (ErrConflict (NotAllowed (ActionNotAvailable action (t_status r)))), w)"
    if "scope \<in> {None, Some (t_identity r)}" "action \<notin> set (Actions (t_status r))" for scope
    unfolding Apply_def rd using that f by (auto simp: CheckAction_def)
  ultimately show ?thesis using late by blast
qed

theorem Apply_refuses_witness:
  "Apply bare_service (Some ''eve'') no_actor 1 ActionStop no_payload \<lparr>w_store = db_running, w_calls = []\<rparr>
    = (Some (ErrOtherIdentity ''archie'' ''eve''), \<lparr>w_store = db_running, w_calls = []\<rparr>)"
proof -
  have s: "sv_store bare_service = pg_store (\<lambda>_. []) None" by (simp add: bare_service_def)
  obtain r where "TaskByID None (w_store \<lparr>w_store = db_running, w_calls = []\<rparr>) 1 = Some r" "t_identity r = ''archie''"
    by (simp add: TaskByID_def db_running_tasks in_scope_def claim_row_def issue_row_def)
  with Apply_refuses [OF s this(1)] show ?thesis by auto
qed

end
