(* ===== verification/Task_Actions_Cases.thy ===== *)
theory Task_Actions_Cases
  imports Task_Actions_Spec
begin

text \<open>
  Two paths of the action service through the PostgreSQL store in full: the approval of a review
  with a selection, and the stop of a task that waits on a call.
\<close>

section \<open>Approving a review\<close>

text \<open>Events and forge calls after the write leave the tasks alone.\<close>

lemma emit_tasks:
  assumes "sv_store sv = pg_store stages org"
  shows "tasks (w_store (emit sv e w)) = tasks (w_store w)"
  using assms by (simp add: emit_def pg_store_def insertEventQ_def called_def)

lemma after_apply_tasks:
  assumes "sv_store sv = pg_store stages org"
  shows "tasks (w_store (after_apply sv t a oc w)) = tasks (w_store w)"
proof -
  have "tasks (w_store (closeRejectedPR sv t a v u)) = tasks (w_store u)" for v u
    using assms by (simp add: closeRejectedPR_def Let_def emit_tasks warn_def called_def split: option.splits)
  moreover have "tasks (w_store (closeRejectedIssue sv t a v u)) = tasks (w_store u)" for v u
    by (simp add: closeRejectedIssue_def Let_def warn_def called_def split: option.splits)
  ultimately show ?thesis by (simp add: after_apply_def Let_def emit_tasks [OF assms])
qed

text \<open>Approving an offered review posts what the operator selected. When the
  answered document decodes to itself after encoding, the gate stored by a successful approval is approved and posts exactly the offered findings whose
  key was requested, in the order offered, or all of them when none was named.\<close>

theorem approve_posts_selection:
  assumes json: "\<And>sel. selectedFindingKeys g (p_findings res) = Inr sel \<Longrightarrow> \<exists>s. s \<noteq> []
        \<and> sv_marshal sv (approved_gate g sel) = Some s \<and> sv_unmarshal sv s = Some (approved_gate g sel)"
    and "sv_store sv = pg_store stages org" and "reachable_db (w_store w)"
    and "TaskByID org (w_store w) i = Some r" and "DecodeReviewGate (sv_unmarshal sv) (t_review_gate r) = Some g"
    and "Offered g"
    and "Apply sv scope a i ActionApprove res w = (None, w')"
  shows "\<exists>r' g'. task_by_id (w_store w') i = Some r' \<and> DecodeReviewGate (sv_unmarshal sv) (t_review_gate r') = Some g'
    \<and> Approved g' \<and> t_rereview_rounds r' = t_rereview_rounds r
    \<and> Posted g' = filter (\<lambda>f. p_findings res = [] \<or> gf_key f \<in> set (p_findings res)) (slice (rg_findings g))"
proof -
  let ?t = "task_view stages r"
  have wfd: "wf_db (w_store w)" using assms(3) by (rule reachable_db_wf)
  have rd: "st_TaskByID (sv_store sv) i (w_store w) = Inr (Some ?t)" using assms(2,4) by (simp add: pg_store_def)
  have tr: "a_id ?t = i" "a_status ?t = t_status r" "a_gate ?t = t_review_gate r"
    using TaskByID_task_by_id [OF wfd assms(4)] by (simp_all add: task_view_def)
  have row: "task_by_id (w_store w) i = Some r" "t_id r = i" using TaskByID_task_by_id [OF wfd assms(4)] by auto
  from assms(7) obtain oc w1 where ap: "apply_action sv ?t a ActionApprove res w = (Inr oc, w1)"
    and w': "w' = after_apply sv ?t a oc w1"
    unfolding Apply_def rd by (auto split: if_splits option.splits prod.splits sum.splits)
  from ap obtain sel s where sel: "selectedFindingKeys g (p_findings res) = Inr sel"
    and s: "RespondReviewGate i (t_status r) (EncodeReviewGate (sv_marshal sv) (approved_gate g sel)) False
              MaxRereviewRounds (w_store w) = Inr s" and w1: "w_store w1 = s"
    by (auto simp: apply_action_def applyApprove_def Let_def tr assms(2,5,6) pg_store_def
        dest!: pg.wrote_Inr split: sum.splits)
  let ?g = "approved_gate g sel" and ?enc = "EncodeReviewGate (sv_marshal sv) (approved_gate g sel)"
  obtain e where e: "sv_marshal sv ?g = Some e" "e \<noteq> []" "sv_unmarshal sv e = Some ?g" using json [OF sel] by blast
  have nz: "\<not> gateIsZero ?g" by (simp add: gateIsZero_def approved_gate_def GateApprove_def ActionApprove_def)
  have dec: "DecodeReviewGate (sv_unmarshal sv) ?enc = Some ?g" using e nz by (rule EncodeReviewGate_round)
  from s have "guarded_write i (t_status r) Queued ''operator approved the review gate''
      (q_RespondReviewGateTask i (t_status r) ?enc False MaxRereviewRounds) (w_store w) = Inr s"
    by (auto simp: RespondReviewGate_def split: option.splits)
  then have "s = q_InsertTransition i (t_status r) Queued ''operator approved the review gate''
      (snd (q_RespondReviewGateTask i (t_status r) ?enc False MaxRereviewRounds (w_store w)))"
    by (auto simp: guarded_write_def split: option.splits prod.splits if_splits)
  then have "\<exists>r'. task_by_id s i = Some r' \<and> t_review_gate r' = ?enc \<and> t_rereview_rounds r' = t_rereview_rounds r"
    using row by (simp add: q_RespondReviewGateTask_found)
  then obtain r' where r': "task_by_id s i = Some r'" "t_review_gate r' = ?enc" "t_rereview_rounds r' = t_rereview_rounds r"
    by blast
  have "tasks (w_store w') = tasks s" unfolding w' w1 [symmetric] by (rule after_apply_tasks [OF assms(2)])
  with r'(1) have "task_by_id (w_store w') i = Some r'" by (simp add: task_by_id_def)
  with r' dec show ?thesis
    using Posted_approved [OF sel assms(6)] by (auto simp: Approved_def approved_gate_def)
qed

text \<open>A service whose codec knows two documents, and a task waiting on the offer.\<close>

definition offer :: ReviewGate where
  "offer = \<lparr>rg_findings = Some [\<lparr>gf_key = ''a'', gf_finding = ''1''\<rparr>, \<lparr>gf_key = ''b'', gf_finding = ''2''\<rparr>],
     rg_head = [], rg_owner = [], rg_repo = [], rg_pr = 3, rg_workflow = [], rg_outcome = [], rg_selection = None,
     rg_instructions = []\<rparr>"

definition gate_service :: "db Service" where
  "gate_service = bare_service\<lparr>
     sv_marshal := (\<lambda>g. Some (if g = offer then ''o'' else ''p'')),
     sv_unmarshal := (\<lambda>s. if s = ''o'' then Some offer else Some (approved_gate offer [''b'']))\<rparr>"

definition db_waiting :: db where
  "db_waiting = (case Update ((hd (tasks db_running))\<lparr>t_review_gate := ''o''\<rparr>) db_running of
     Inl _ \<Rightarrow> db_running
   | Inr d \<Rightarrow> (case Transition 1 Running WaitingHuman [] d of Inl _ \<Rightarrow> d | Inr d' \<Rightarrow> d'))"

lemma reachable_db_waiting: "reachable_db db_waiting"
  unfolding db_waiting_def
  by (auto split: sum.splits) (metis reachable_db.run reachable_db_running store_step.intros(6,8))+

lemma db_waiting_row:
  "\<exists>r. tasks db_waiting = [r] \<and> t_id r = 1 \<and> t_status r = ''waiting_human'' \<and> t_review_gate r = ''o''"
  by (simp add: db_waiting_def Update_def structuredPayloadBytes_def db_running_tasks q_UpdateTask_def updated_row_def
        claim_row_def issue_row_def default_row_def Let_def Transition_def guarded_write_def guardTransition_def
        task_by_id_def lifecycle_simps CanTransition_iff q_TransitionTask_def matches_def)

theorem approve_posts_selection_witness:
  "\<exists>w' r' g'. Apply gate_service None no_actor 1 ActionApprove (no_payload\<lparr>p_findings := [''b'']\<rparr>)
       \<lparr>w_store = db_waiting, w_calls = []\<rparr> = (None, w')
     \<and> task_by_id (w_store w') 1 = Some r' \<and> DecodeReviewGate (sv_unmarshal gate_service) (t_review_gate r') = Some g'
     \<and> map gf_key (Posted g') = [''b'']"
proof -
  let ?p = "no_payload\<lparr>p_findings := [''b'']\<rparr>" and ?w = "\<lparr>w_store = db_waiting, w_calls = []\<rparr>"
  obtain r where r: "tasks db_waiting = [r]" "t_id r = 1" "t_status r = ''waiting_human''" "t_review_gate r = ''o''"
    using db_waiting_row by blast
  have sel: "selectedFindingKeys offer [''b''] = Inr [''b'']"
    by (simp add: selectedFindingKeys_def OfferedKeys_def offer_def)
  have st: "sv_store gate_service = pg_store (\<lambda>_. []) None" by (simp add: gate_service_def bare_service_def)
  have tk: "TaskByID None (w_store ?w) 1 = Some r" using r by (simp add: TaskByID_def in_scope_def)
  have un: "DecodeReviewGate (sv_unmarshal gate_service) (t_review_gate r) = Some offer"
    using r by (simp add: DecodeReviewGate_def gate_service_def)
  have off: "Offered offer" by (simp add: Offered_def offer_def)
  have "\<exists>w'. Apply gate_service None no_actor 1 ActionApprove ?p ?w = (None, w')"
    using r sel off
    by (simp add: Apply_def st pg_store_def TaskByID_def in_scope_def task_view_def CheckAction_def Actions_def
          lifecycle_simps apply_action_def applyApprove_def Let_def DecodeReviewGate_def gate_service_def bare_service_def
          no_payload_def wrote_def RespondReviewGate_def guardTransition_def guarded_write_def task_by_id_def
          CanTransition_iff q_RespondReviewGateTask_def matches_def)
  then obtain w' where w': "Apply gate_service None no_actor 1 ActionApprove ?p ?w = (None, w')" ..
  have json: "\<exists>s. s \<noteq> [] \<and> sv_marshal gate_service (approved_gate offer s0) = Some s
      \<and> sv_unmarshal gate_service s = Some (approved_gate offer s0)"
    if "selectedFindingKeys offer (p_findings ?p) = Inr s0" for s0
    using that sel by (simp add: gate_service_def no_payload_def offer_def approved_gate_def GateApprove_def ActionApprove_def)
  show ?thesis
    using approve_posts_selection [OF json st _ tk un off w'] reachable_db_waiting w'
    by (auto simp: no_payload_def offer_def)
qed

section \<open>Stopping a task that waits on a call\<close>

text \<open>Task 1 runs and waits on the call it started, task 2, which nobody has claimed yet.\<close>

definition db_calling :: db where
  "db_calling = (case StartCall None 1 ''build'' ''implement'' ''t'' ''b'' [] db_running of
     Inl _ \<Rightarrow> db_running
   | Inr (_, d) \<Rightarrow> (case StartStep \<lparr>ss_execution = 1, ss_attempt = 1, ss_parent = 0, ss_kind = ''call'',
                          ss_name = ''build'', ss_called = 2\<rparr> d of
        Inl _ \<Rightarrow> d
      | Inr (_, _, d') \<Rightarrow> d'))"

lemma reachable_db_calling: "reachable_db db_calling"
  unfolding db_calling_def
  by (auto split: sum.splits prod.splits) (metis reachable_db.run reachable_db_running store_step.intros(18,19))+

lemma db_calling_rows:
  "\<exists>a b s. tasks db_calling = [a, b] \<and> steps db_calling = [s] \<and> t_id a = 1 \<and> t_status a = ''running'' \<and> t_attempt a = 1
     \<and> t_id b = 2 \<and> t_status b = ''queued'' \<and> s_execution s = 1 \<and> s_attempt s = 1 \<and> s_kind s = ''call'' \<and> s_called s = 2
     \<and> s_status s = ''running''"
  by (simp add: db_calling_def StartCall_def db_running_tasks task_by_id_def claim_row_def issue_row_def default_row_def
        MaxCallDepth_def live_child_def Let_def same_issue_key_def callee_row_def next_chat_issue_def
        syntheticIssueNumberBase_def append_task_def StartStep_def ValidStepKind_def StepKindStage_def StepKindAgent_def
        StepKindCall_def verifyCallStep_def startParent_def CheckStepStart_def lifecycle_simps q_InsertStepExecution_def
        step_row_of_def q_StartStepExecution_def matches_def insertEventQ_def)

text \<open>Stopping a running task that waits on a callee nobody has claimed fails half done. A stop
  parks the callees too, and a queued task cannot be parked, so the store's own cancel stands while it
  reports the callee; the service takes that for a failed stop, so the task is parked in the store
  but its run is never cancelled and no event records the stop, and the callee stays queued.\<close>

theorem stop_waiting_on_queued_callee:
  "reachable_db db_calling
   \<and> (\<exists>w' a b. Apply bare_service None no_actor 1 ActionStop no_payload \<lparr>w_store = db_calling, w_calls = []\<rparr>
        = (Some (ErrStore (ErrCallees [(2, ErrIllegalTransition)])), w')
      \<and> tasks (w_store w') = [a, b] \<and> t_status a = Parked \<and> t_status b = Queued \<and> w_calls w' = [])"
proof -
  obtain a b s where d: "tasks db_calling = [a, b]" "steps db_calling = [s]" "t_id a = 1" "t_status a = ''running''"
    "t_attempt a = 1" "t_id b = 2" "t_status b = ''queued''" "s_execution s = 1" "s_attempt s = 1" "s_kind s = ''call''"
    "s_called s = 2" "s_status s = ''running''" using db_calling_rows by blast
  have tk: "TaskByID None db_calling 1 = Some a" using d by (simp add: TaskByID_def in_scope_def)
  define m where "m = describe no_actor ''stopped'' @ ''; recoverable work remains parked''"
  have "\<exists>d' a' b'. CancelExecution 1 m ''parked'' db_calling = (d', [s_id s], Some (ErrCallees [(2, ErrIllegalTransition)]))
      \<and> tasks d' = [a', b'] \<and> t_status a' = Parked \<and> t_status b' = Queued"
    using d
    by (simp add: CancelExecution_def open_count_def matches_def open_step_def cancel_tx_def task_by_id_def
          CanTransition_iff lifecycle_simps Let_def q_WaitingCallSteps_def attempt_open_def q_CancelAttemptSteps_def
          sweep_events_def q_TransitionTask_def insertEventQ_def)
  then obtain d' a' b' where c: "CancelExecution 1 m ''parked'' db_calling
        = (d', [s_id s], Some (ErrCallees [(2, ErrIllegalTransition)]))"
    and d': "tasks d' = [a', b']" "t_status a' = Parked" "t_status b' = Queued" by blast
  have "Apply bare_service None no_actor 1 ActionStop no_payload \<lparr>w_store = db_calling, w_calls = []\<rparr>
        = (Some (ErrStore (ErrCallees [(2, ErrIllegalTransition)])), \<lparr>w_store = d', w_calls = []\<rparr>)"
    using d c unfolding m_def
    by (simp add: Apply_def bare_service_def pg_store_def tk task_view_def CheckAction_def Actions_def lifecycle_simps
          apply_action_def applyStop_def Let_def cancelled_def parked_def ActionTarget_def)
  with d' reachable_db_calling show ?thesis by auto
qed

end
