(* ===== verification/Event_Type.thy ===== *)
theory Event_Type
  imports Go_Prelude "HOL-Library.Product_Lexorder"
begin

text \<open>
  Event types (\<open>domain/eventtype\<close>): match rules over a source's headers and payload, the structural
  signature of an event, the proposal of types from captures, the refusal of overlapping rules, and
  the store's save path that enforces it (\<open>infrastructure/postgres/edastore_eventtypes.go\<close>).

  A decoded JSON value is a \<open>json\<close>; numbers keep their text (\<open>UseNumber\<close>), and \<open>JFloat\<close> is the
  float64, by its bits, that a mapping makes of one. The decoder (\<open>decode\<close>) and
  \<open>mime.ParseMediaType\<close> (\<open>mt\<close>) are arguments: every statement below holds for all of them, or names
  what it needs.
\<close>

section \<open>Values\<close>

datatype json =
    JNull
  | JBool bool
  | JNumber string
  | JFloat int
  | JString string
  | JArray "json list"
  | JObject "(string \<times> json) list"

definition TypeString :: string where [go_string_simps]: "TypeString = ''string''"
definition TypeNumber :: string where [go_string_simps]: "TypeNumber = ''number''"
definition TypeBool :: string where [go_string_simps]: "TypeBool = ''bool''"
definition TypeObject :: string where [go_string_simps]: "TypeObject = ''object''"
definition TypeArray :: string where [go_string_simps]: "TypeArray = ''array''"
definition TypeNull :: string where [go_string_simps]: "TypeNull = ''null''"

fun valueType :: "json \<Rightarrow> string" where
  "valueType (JString _) = TypeString"
| "valueType (JNumber _) = TypeNumber"
| "valueType (JBool _) = TypeBool"
| "valueType (JObject _) = TypeObject"
| "valueType (JArray _) = TypeArray"
| "valueType _ = TypeNull"

section \<open>Rules and types\<close>

definition OpEquals :: string where "OpEquals = ''equals''"
definition OpPresent :: string where "OpPresent = ''present''"

record HeaderCondition =
  hc_name :: string
  hc_value :: string

record PayloadCondition =
  pc_path :: string
  pc_op :: string
  pc_value :: string

record Rule =
  er_headers :: "HeaderCondition list"
  er_payload :: "PayloadCondition list"

record EventType =
  et_id :: string
  et_source :: string
  et_name :: string
  et_rule :: Rule
  et_schema :: "string gomap"

record Sample =
  sm_headers :: "string gomap"
  sm_body :: string

record Signature =
  sg_paths :: "string gomap"
  sg_headers :: "string gomap"

datatype eventtype_error =
    NameRequired
  | SourceRequired
  | HeaderWithoutName
  | ConditionWithoutPath
  | UnknownOperator string
  | ErrOverlap string
  | NameTaken string string
  | ErrEventTypeNotFound
  | ErrSourceNotFound

definition ValidateEventType :: "EventType \<Rightarrow> eventtype_error option" where
  "ValidateEventType t =
    guard_err (blank (et_name t)) NameRequired
    (guard_err (blank (et_source t)) SourceRequired
    (seq_err (first_error (\<lambda>h. guard_err (blank (hc_name h)) HeaderWithoutName None) (er_headers (et_rule t)))
      (first_error (\<lambda>p. guard_err (blank (pc_path p)) ConditionWithoutPath
          (guard_err (pc_op p \<noteq> OpEquals \<and> pc_op p \<noteq> OpPresent) (UnknownOperator (pc_op p)) None))
        (er_payload (et_rule t)))))"

section \<open>Lookup in a payload\<close>

function strip_arrays :: "string \<Rightarrow> string \<times> nat" where
  "strip_arrays s = (if has_suffix s ''[]''
     then (case strip_arrays (trim_suffix s ''[]'') of (name, n) \<Rightarrow> (name, Suc n)) else (s, 0))"
  by pat_completeness auto
termination
  by (relation "measure length") (auto simp: has_suffix_def trim_suffix_def)

declare strip_arrays.simps [simp del]

fun children :: "string \<Rightarrow> json \<Rightarrow> json list" where
  "children name (JObject fs) = (case map_of fs name of None \<Rightarrow> [] | Some c \<Rightarrow> [c])"
| "children name _ = []"

fun elems :: "json \<Rightarrow> json list" where
  "elems (JArray vs) = vs"
| "elems _ = []"

definition fan_out :: "nat \<Rightarrow> json list \<Rightarrow> json list" where
  "fan_out n vs = ((\<lambda>ws. concat (map elems ws)) ^^ n) vs"

definition lookup_seg :: "json list \<Rightarrow> string \<Rightarrow> json list" where
  "lookup_seg current seg =
    (case strip_arrays seg of (name, arrays) \<Rightarrow> fan_out arrays (concat (map (children name) current)))"

definition lookup :: "json \<Rightarrow> string \<Rightarrow> json list" where
  "lookup root path = foldl lookup_seg [root] (split_byte CHR ''.'' path)"

fun scalarText :: "json \<Rightarrow> string option" where
  "scalarText (JString s) = Some s"
| "scalarText (JNumber s) = Some s"
| "scalarText (JBool b) = Some (if b then ''true'' else ''false'')"
| "scalarText JNull = Some ''null''"
| "scalarText _ = None"

section \<open>Matching\<close>

definition headerLookup :: "string gomap \<Rightarrow> string \<Rightarrow> string option" where
  "headerLookup headers name = map_option snd (find (\<lambda>(k, v). equal_fold k name) headers)"

definition headerValue :: "(string \<Rightarrow> string option) \<Rightarrow> string \<Rightarrow> string \<Rightarrow> string" where
  "headerValue mt name value =
    (let v = trim_space value in
     if equal_fold name ''content-type'' then (case mt v of Some m \<Rightarrow> m | None \<Rightarrow> v) else v)"

definition payloadHolds :: "json \<Rightarrow> PayloadCondition \<Rightarrow> bool" where
  "payloadHolds root p =
    (let values = lookup root (pc_path p) in
     if pc_op p = OpPresent then values \<noteq> []
     else list_ex (\<lambda>v. scalarText v = Some (pc_value p)) values)"

definition headerHolds :: "(string \<Rightarrow> string option) \<Rightarrow> string gomap \<Rightarrow> HeaderCondition \<Rightarrow> bool" where
  "headerHolds mt headers h = (case headerLookup headers (hc_name h) of
     None \<Rightarrow> False
   | Some got \<Rightarrow> headerValue mt (hc_name h) got = headerValue mt (hc_name h) (hc_value h))"

definition Matches :: "(string \<Rightarrow> string option) \<Rightarrow> (string \<Rightarrow> json option) \<Rightarrow> Rule \<Rightarrow> Sample \<Rightarrow> bool" where
  "Matches mt decode r s \<longleftrightarrow>
    list_all (headerHolds mt (sm_headers s)) (er_headers r)
    \<and> (er_payload r = []
       \<or> (case decode (sm_body s) of None \<Rightarrow> False | Some root \<Rightarrow> list_all (payloadHolds root) (er_payload r)))"

definition Overlaps :: "(string \<Rightarrow> string option) \<Rightarrow> Rule \<Rightarrow> Rule \<Rightarrow> bool" where
  "Overlaps mt a b \<longleftrightarrow>
    \<not> list_ex (\<lambda>ha. list_ex (\<lambda>hb. equal_fold (hc_name ha) (hc_name hb)
          \<and> headerValue mt (hc_name ha) (hc_value ha) \<noteq> headerValue mt (hc_name hb) (hc_value hb)) (er_headers b))
        (er_headers a)
    \<and> \<not> list_ex (\<lambda>pa. list_ex (\<lambda>pb. pc_op pa = OpEquals \<and> pc_op pb = OpEquals \<and> pc_path pa = pc_path pb
          \<and> \<not> contains_sub (pc_path pa) ''[]'' \<and> pc_value pa \<noteq> pc_value pb) (er_payload b))
        (er_payload a)"

definition CheckOverlap :: "(string \<Rightarrow> string option) \<Rightarrow> EventType list \<Rightarrow> EventType \<Rightarrow> eventtype_error option" where
  "CheckOverlap mt existing candidate =
    first_error (\<lambda>t.
      if et_source t \<noteq> et_source candidate \<or> (et_id candidate \<noteq> [] \<and> et_id t = et_id candidate) then None
      else if Overlaps mt (et_rule t) (et_rule candidate) then Some (ErrOverlap (et_name t)) else None) existing"

definition Identify ::
    "(string \<Rightarrow> string option) \<Rightarrow> (string \<Rightarrow> json option) \<Rightarrow> EventType list \<Rightarrow> string \<Rightarrow> Sample \<Rightarrow> EventType option" where
  "Identify mt decode types source s =
    (case filter (\<lambda>t. et_source t = source \<and> Matches mt decode (et_rule t) s) types of
       [t] \<Rightarrow> Some t
     | _ \<Rightarrow> None)"

section \<open>Signatures\<close>

definition isDiscriminator :: "string \<Rightarrow> bool" where
  "isDiscriminator name \<longleftrightarrow> has_suffix (to_lower name) ''-event'' \<or> has_suffix (to_lower name) ''-type''"

definition child_path :: "string \<Rightarrow> string \<Rightarrow> string" where
  "child_path pre key = (if pre \<noteq> [] then pre @ ''.'' @ key else key)"

fun collectPaths :: "json \<Rightarrow> string \<Rightarrow> string gomap \<Rightarrow> string gomap"
and collectFields :: "(string \<times> json) list \<Rightarrow> string \<Rightarrow> string gomap \<Rightarrow> string gomap"
and collectElems :: "json list \<Rightarrow> string \<Rightarrow> string gomap \<Rightarrow> string gomap" where
  "collectPaths (JObject fs) pre out = collectFields fs pre out"
| "collectPaths (JArray vs) pre out = collectElems vs pre out"
| "collectPaths _ pre out = out"
| "collectFields [] pre out = out"
| "collectFields ((key, child) # fs) pre out =
     collectFields fs pre
       (collectPaths child (child_path pre key) (map_put (child_path pre key) (valueType child) out))"
| "collectElems [] pre out = out"
| "collectElems (child # vs) pre out =
     collectElems vs pre
       (collectPaths child (pre @ ''[]'') (map_put (pre @ ''[]'') (valueType child) out))"

definition Sign :: "(string \<Rightarrow> string option) \<Rightarrow> (string \<Rightarrow> json option) \<Rightarrow> Sample \<Rightarrow> Signature" where
  "Sign mt decode s = \<lparr>
     sg_paths = (case decode (sm_body s) of None \<Rightarrow> [] | Some root \<Rightarrow> collectPaths root [] []),
     sg_headers = fold (\<lambda>(name, value) m. if isDiscriminator name
                    then map_put (to_lower name) (headerValue mt name value) m else m) (sm_headers s) []\<rparr>"

definition Key :: "Signature \<Rightarrow> string" where
  "Key s =
    concat (map (\<lambda>name. ''h:'' @ name @ ''='' @ the (map_of (sg_headers s) name) @ [CHR 0x0A]) (sorted_keys (sg_headers s)))
    @ concat (map (\<lambda>path. ''p:'' @ path @ ''='' @ the (map_of (sg_paths s) path) @ [CHR 0x0A]) (sorted_keys (sg_paths s)))"

text \<open>\<open>unmarshal\<close> reads an encoded \<open>http.Header\<close>; the entries come in the order the runtime iterates
  the map.\<close>

definition ParseHeaders :: "(string \<Rightarrow> (string list) gomap option) \<Rightarrow> string \<Rightarrow> string gomap" where
  "ParseHeaders unmarshal raw = (case unmarshal raw of
     None \<Rightarrow> []
   | Some h \<Rightarrow> fold (\<lambda>(name, values) m. case values of [] \<Rightarrow> m | v # _ \<Rightarrow> map_put (to_lower name) v m) h [])"

section \<open>Proposals\<close>

definition headerConditions :: "string gomap \<Rightarrow> HeaderCondition list" where
  "headerConditions headers =
    map (\<lambda>name. \<lparr>hc_name = name, hc_value = the (map_of headers name)\<rparr>) (sorted_keys headers)"

definition present :: "string \<Rightarrow> PayloadCondition" where
  "present path = \<lparr>pc_path = path, pc_op = OpPresent, pc_value = []\<rparr>"

definition FromExample ::
    "(string \<Rightarrow> string option) \<Rightarrow> (string \<Rightarrow> json option) \<Rightarrow> string \<Rightarrow> string \<Rightarrow> Sample \<Rightarrow> EventType" where
  "FromExample mt decode source name s =
    (let sig = Sign mt decode s; hs = headerConditions (sg_headers sig) in
     \<lparr>et_id = [], et_source = source, et_name = name,
      et_rule = \<lparr>er_headers = hs,
        er_payload = (if hs = [] then
            map present (filter (\<lambda>path. CHR ''.'' \<notin> set path \<and> CHR ''['' \<notin> set path) (sorted_keys (sg_paths sig)))
          else [])\<rparr>,
      et_schema = sg_paths sig\<rparr>)"

definition headersSeparate :: "string gomap \<Rightarrow> string gomap \<Rightarrow> bool" where
  "headersSeparate g s \<longleftrightarrow> list_ex (\<lambda>(name, value). map_of s name \<noteq> Some value) g"

definition rulePathsSeparate :: "Rule \<Rightarrow> Signature \<Rightarrow> bool" where
  "rulePathsSeparate rule s \<longleftrightarrow> list_ex (\<lambda>p. map_of (sg_paths s) (pc_path p) = None) (er_payload rule)"

definition separate_from :: "Signature \<Rightarrow> Signature \<Rightarrow> Rule \<Rightarrow> Rule" where
  "separate_from g s rule =
    (if headersSeparate (sg_headers g) (sg_headers s) \<or> rulePathsSeparate rule s then rule
     else (case find (\<lambda>path. map_of (sg_paths s) path = None) (sorted_keys (sg_paths g)) of
         None \<Rightarrow> rule
       | Some path \<Rightarrow> rule\<lparr>er_payload := er_payload rule @ [present path]\<rparr>))"

definition separatingRule :: "Signature \<Rightarrow> Signature list \<Rightarrow> Rule" where
  "separatingRule g siblings =
    fold (separate_from g) siblings \<lparr>er_headers = headerConditions (sg_headers g), er_payload = []\<rparr>"

record Capture =
  cp_id :: string
  cp_source :: string
  cp_sample :: Sample

record Proposal =
  pr_source :: string
  pr_key :: string
  pr_sig :: Signature
  pr_count :: int
  pr_sample :: string
  pr_rule :: Rule

text \<open>The group of a capture: its count goes up, or a new group is added at the end. \<open>pr_sig\<close> holds the
  schema and headers of the proposal, which are its signature.\<close>

definition group_id :: "string \<Rightarrow> string \<Rightarrow> string" where
  "group_id source key = source @ [CHR 0x00] @ key"

definition add_capture ::
    "(string \<Rightarrow> string option) \<Rightarrow> (string \<Rightarrow> json option) \<Rightarrow> Capture \<Rightarrow> Proposal list \<Rightarrow> Proposal list" where
  "add_capture mt decode c groups =
    (let sig = Sign mt decode (cp_sample c); gid = group_id (cp_source c) (Key sig) in
     if list_ex (\<lambda>g. group_id (pr_source g) (pr_key g) = gid) groups
     then map (\<lambda>g. if group_id (pr_source g) (pr_key g) = gid then g\<lparr>pr_count := pr_count g + 1\<rparr> else g) groups
     else groups @ [\<lparr>pr_source = cp_source c, pr_key = Key sig, pr_sig = sig, pr_count = 1, pr_sample = cp_id c,
                      pr_rule = \<lparr>er_headers = [], er_payload = []\<rparr>\<rparr>])"

definition Propose :: "(string \<Rightarrow> string option) \<Rightarrow> (string \<Rightarrow> json option) \<Rightarrow> Capture list \<Rightarrow> Proposal list" where
  "Propose mt decode captures =
    (let groups = sort_key (\<lambda>g. (pr_source g, - pr_count g)) (fold (add_capture mt decode) captures [])
     in map (\<lambda>g. g\<lparr>pr_rule := separatingRule (pr_sig g)
               (map pr_sig (filter (\<lambda>s. pr_source s = pr_source g
                  \<and> group_id (pr_source s) (pr_key s) \<noteq> group_id (pr_source g) (pr_key g)) groups))\<rparr>) groups)"

section \<open>The event type table (edastore\_eventtypes.go)\<close>

text \<open>One save is a transaction under a lock on the source. \<open>known\<close> says whether the source exists in
  the caller's org, read only for a scoped caller; a name is unique per source.\<close>

definition saveEventType ::
    "(string \<Rightarrow> string option) \<Rightarrow> bool \<Rightarrow> (string \<Rightarrow> bool) \<Rightarrow> EventType \<Rightarrow> (EventType list \<Rightarrow> eventtype_error + EventType list)
     \<Rightarrow> EventType list \<Rightarrow> eventtype_error + EventType list" where
  "saveEventType mt scoped known t write tbl =
    (case ValidateEventType t of
       Some e \<Rightarrow> Inl e
     | None \<Rightarrow>
         if scoped \<and> \<not> known (et_source t) then Inl ErrSourceNotFound
         else (case CheckOverlap mt (sort_key et_name (filter (\<lambda>x. et_source x = et_source t) tbl)) t of
             Some e \<Rightarrow> Inl e
           | None \<Rightarrow> write tbl))"

definition InsertEventType ::
    "(string \<Rightarrow> string option) \<Rightarrow> bool \<Rightarrow> (string \<Rightarrow> bool) \<Rightarrow> string \<Rightarrow> EventType \<Rightarrow> EventType list \<Rightarrow> eventtype_error + EventType list" where
  "InsertEventType mt scoped known newID t tbl =
    saveEventType mt scoped known (t\<lparr>et_id := []\<rparr>)
      (\<lambda>tbl. if list_ex (\<lambda>x. et_source x = et_source t \<and> et_name x = et_name t) tbl
             then Inl (NameTaken (et_name t) (et_source t))
             else Inr (tbl @ [t\<lparr>et_id := newID\<rparr>])) tbl"

text \<open>\<open>visible\<close> is the org scope of the read that finds the stored type.\<close>

definition UpdateEventType ::
    "(string \<Rightarrow> string option) \<Rightarrow> bool \<Rightarrow> (string \<Rightarrow> bool) \<Rightarrow> (EventType \<Rightarrow> bool) \<Rightarrow> EventType \<Rightarrow> EventType list
     \<Rightarrow> eventtype_error + EventType list" where
  "UpdateEventType mt scoped known visible t tbl =
    (case find (\<lambda>x. et_id x = et_id t \<and> visible x) tbl of
       None \<Rightarrow> Inl ErrEventTypeNotFound
     | Some stored \<Rightarrow>
         saveEventType mt scoped known (t\<lparr>et_source := et_source stored\<rparr>)
           (\<lambda>tbl. if list_ex (\<lambda>x. et_id x \<noteq> et_id t \<and> et_source x = et_source stored \<and> et_name x = et_name t) tbl
                  then Inl (NameTaken (et_name t) (et_source stored))
                  else if \<not> list_ex (\<lambda>x. et_id x = et_id t) tbl then Inl ErrEventTypeNotFound
                  else Inr (map (\<lambda>x. if et_id x = et_id t then x\<lparr>et_name := et_name t, et_rule := et_rule t\<rparr> else x) tbl)) tbl)"

definition DeleteEventType :: "(EventType \<Rightarrow> bool) \<Rightarrow> string \<Rightarrow> EventType list \<Rightarrow> eventtype_error + EventType list" where
  "DeleteEventType visible i tbl =
    (if list_ex (\<lambda>x. et_id x = i \<and> visible x) tbl then Inr (filter (\<lambda>x. \<not> (et_id x = i \<and> visible x)) tbl)
     else Inl ErrEventTypeNotFound)"

end
