(* ===== verification/Event_Type_Lookup.thy ===== *)
theory Event_Type_Lookup
  imports Event_Type
begin

text \<open>
  Paths of a payload. The signature writes a path for every value below the root, and a rule's
  condition reads a path back; on payloads whose keys have no dot, do not end in \<open>[]\<close> and are not
  empty, the paths written are exactly those the reader finds.
\<close>

section \<open>Structured paths\<close>

type_synonym seg = "string \<times> nat"

definition brackets :: "nat \<Rightarrow> string" where
  "brackets n = concat (replicate n ''[]'')"

definition render_seg :: "seg \<Rightarrow> string" where
  "render_seg s = fst s @ brackets (snd s)"

definition sem_seg :: "json list \<Rightarrow> seg \<Rightarrow> json list" where
  "sem_seg current s = fan_out (snd s) (concat (map (children (fst s)) current))"

definition at :: "json \<Rightarrow> seg list \<Rightarrow> json list" where
  "at root segs = foldl sem_seg [root] segs"

fun render :: "seg list \<Rightarrow> string" where
  "render [] = []"
| "render [s] = render_seg s"
| "render (s # t # segs) = render_seg s @ ''.'' @ render (t # segs)"

definition parse :: "string \<Rightarrow> seg list" where
  "parse p = map strip_arrays (split_byte CHR ''.'' p)"

definition plain_key :: "string \<Rightarrow> bool" where
  "plain_key k \<longleftrightarrow> k \<noteq> [] \<and> CHR ''.'' \<notin> set k \<and> \<not> has_suffix k ''[]''"

fun plain :: "json \<Rightarrow> bool" where
  "plain (JObject fs) \<longleftrightarrow> distinct (map fst fs) \<and> (\<forall>x\<in>set fs. plain_key (fst x) \<and> plain (snd x))"
| "plain (JArray vs) \<longleftrightarrow> (\<forall>v\<in>set vs. plain v)"
| "plain _ \<longleftrightarrow> True"

lemma lookup_at: "lookup root p = at root (parse p)"
proof -
  have "foldl lookup_seg cur segs = foldl sem_seg cur (map strip_arrays segs)" for cur segs
    by (induction segs arbitrary: cur) (simp_all add: lookup_seg_def sem_seg_def split: prod.splits)
  then show ?thesis by (simp add: lookup_def at_def parse_def)
qed

lemma brackets_Suc: "brackets (Suc n) = brackets n @ ''[]''"
  by (induction n) (simp_all add: brackets_def)

lemma has_suffix_append: "has_suffix (s @ p) p"
  by (simp add: has_suffix_def)

lemma trim_suffix_append: "trim_suffix (s @ p) p = s"
  by (simp add: trim_suffix_def has_suffix_append)

lemma has_suffix_split: "has_suffix s p \<Longrightarrow> s = trim_suffix s p @ p"
  by (auto simp: has_suffix_def trim_suffix_def) (metis append_take_drop_id)

lemma strip_render: "\<not> has_suffix k ''[]'' \<Longrightarrow> strip_arrays (k @ brackets n) = (k, n)"
proof (induction n)
  case 0
  then show ?case by (simp add: strip_arrays.simps brackets_def)
next
  case (Suc n)
  have "has_suffix (k @ brackets (Suc n)) ''[]''" "trim_suffix (k @ brackets (Suc n)) ''[]'' = k @ brackets n"
    using has_suffix_append [of "k @ brackets n" "''[]''"] trim_suffix_append [of "k @ brackets n" "''[]''"]
    by (simp_all add: brackets_Suc)
  with Suc show ?case by (subst strip_arrays.simps) simp
qed

lemma render_strip: "render_seg (strip_arrays s) = s"
proof (induction s rule: strip_arrays.induct)
  case (1 s)
  show ?case
  proof (cases "has_suffix s ''[]''")
    case True
    obtain name n where nn: "strip_arrays (trim_suffix s ''[]'') = (name, n)" by fastforce
    with 1 [OF True] have "name @ brackets n = trim_suffix s ''[]''" by (simp add: render_seg_def)
    with True nn show ?thesis
      using has_suffix_split [OF True] by (subst strip_arrays.simps) (simp add: render_seg_def brackets_Suc flip: append_assoc)
  next
    case False
    then show ?thesis by (subst strip_arrays.simps) (simp add: render_seg_def brackets_def)
  qed
qed

lemma dot_brackets: "CHR ''.'' \<notin> set (brackets n)"
  by (induction n) (auto simp: brackets_def)

lemma render_Cons: "segs \<noteq> [] \<Longrightarrow> render (s # segs) = render_seg s @ CHR ''.'' # render segs"
  by (cases segs) auto

lemma render_snoc: "segs \<noteq> [] \<Longrightarrow> render (segs @ [s]) = render segs @ CHR ''.'' # render_seg s"
  by (induction segs rule: render.induct) (auto simp: render_Cons)

lemma split_render:
  assumes "segs \<noteq> []" and "\<And>s. s \<in> set segs \<Longrightarrow> CHR ''.'' \<notin> set (fst s)"
  shows "split_byte CHR ''.'' (render segs) = map render_seg segs"
  using assms
proof (induction segs rule: render.induct)
  case (2 s)
  then show ?case by (simp add: split_byte_absent render_seg_def dot_brackets)
next
  case (3 s t segs)
  have "CHR ''.'' \<notin> set (render_seg s)" using 3(3) [of s] by (simp add: render_seg_def dot_brackets)
  with 3 show ?case by (simp add: split_byte_append)
qed simp

lemma parse_render:
  assumes "segs \<noteq> []" and "\<And>s. s \<in> set segs \<Longrightarrow> plain_key (fst s)"
  shows "parse (render segs) = segs"
proof -
  have "strip_arrays (render_seg s) = s" if "s \<in> set segs" for s
    using assms(2) [OF that] by (cases s) (simp add: render_seg_def strip_render plain_key_def)
  then show ?thesis
    using assms by (simp add: parse_def split_render plain_key_def map_idI comp_def)
qed

lemma render_map_strip:
  "qs \<noteq> [] \<Longrightarrow> render (map strip_arrays qs) = concat (map (\<lambda>q. q @ ''.'') (butlast qs)) @ last qs"
  by (induction qs) (auto simp: render_strip render_Cons)

lemma join_split: "concat (map (\<lambda>q. q @ [c]) (butlast (split_byte c s))) @ last (split_byte c s) = s"
proof (induction s)
  case (Cons x xs)
  obtain q qs where q: "split_byte c xs = q # qs" by (cases "split_byte c xs") auto
  with Cons show ?case by (cases "qs = []") auto
qed simp

lemma render_parse: "render (parse p) = p"
  unfolding parse_def using join_split [of "CHR ''.''" p] by (simp add: render_map_strip)

section \<open>What the signature collects\<close>

function cp :: "json \<Rightarrow> string \<Rightarrow> string set" where
  "cp (JObject fs) pre = (\<Union>x\<in>set fs. insert (child_path pre (fst x)) (cp (snd x) (child_path pre (fst x))))"
| "cp (JArray vs) pre = (\<Union>v\<in>set vs. insert (pre @ ''[]'') (cp v (pre @ ''[]'')))"
| "cp JNull pre = {}" | "cp (JBool b) pre = {}" | "cp (JNumber n) pre = {}"
| "cp (JFloat f) pre = {}" | "cp (JString s) pre = {}"
  by pat_completeness auto
termination
  by (relation "measure (\<lambda>(v, _). size v)") (auto simp: size_list_estimation' less_Suc_eq_le)

lemma dom_collect:
  "dom (map_of (collectPaths v pre out)) = dom (map_of out) \<union> cp v pre"
  "dom (map_of (collectFields fs pre out)) = dom (map_of out) \<union> cp (JObject fs) pre"
  "dom (map_of (collectElems vs pre out)) = dom (map_of out) \<union> cp (JArray vs) pre"
  by (induction v pre out and fs pre out and vs pre out rule: collectPaths_collectFields_collectElems.induct) auto

section \<open>Reading finds what was collected\<close>

lemma at_snoc: "at root (segs @ [s]) = sem_seg (at root segs) s"
  by (simp add: at_def)

lemma at_zero: "at root (segs @ [(k, 0)]) = concat (map (children k) (at root segs))"
  by (simp add: at_snoc sem_seg_def fan_out_def)

lemma at_Suc: "at root (segs @ [(k, Suc n)]) = concat (map elems (at root (segs @ [(k, n)])))"
  by (simp add: at_snoc sem_seg_def fan_out_def)

definition plain_segs :: "seg list \<Rightarrow> bool" where
  "plain_segs segs \<longleftrightarrow> segs \<noteq> [] \<and> (\<forall>s\<in>set segs. plain_key (fst s))"

lemma render_nonempty: "plain_segs segs \<Longrightarrow> render segs \<noteq> []"
  unfolding plain_segs_def
  by (cases segs rule: render.cases) (auto simp: render_seg_def plain_key_def)

lemma render_child:
  "plain_segs segs \<Longrightarrow> render (segs @ [(k, 0)]) = child_path (render segs) k"
  using render_nonempty [of segs]
  by (simp add: render_snoc child_path_def render_seg_def brackets_def plain_segs_def)

lemma render_elem: "render (segs @ [(k, Suc n)]) = render (segs @ [(k, n)]) @ ''[]''"
  by (cases "segs = []") (simp_all add: render_snoc render_seg_def brackets_Suc)

text \<open>Every collected path below a value that a structured path reaches is itself the rendering of a
  structured path that reaches something.\<close>

lemma collected_reached:
  "plain v \<Longrightarrow> plain_segs segs \<Longrightarrow> v \<in> set (at root segs) \<Longrightarrow> q \<in> cp v (render segs) \<Longrightarrow>
   \<exists>segs'. q = render segs' \<and> plain_segs segs' \<and> at root segs' \<noteq> []"
proof (induction v arbitrary: segs)
  case (JObject fs)
  from JObject.prems obtain k c where x: "(k, c) \<in> set fs"
    and q: "q = child_path (render segs) k \<or> q \<in> cp c (child_path (render segs) k)" by auto
  let ?s = "segs @ [(k, 0)]"
  from x JObject.prems(1) have pk: "plain_key k" "plain c" "map_of fs k = Some c" by auto
  have "JObject fs \<in> set (at root segs)" by (rule JObject.prems(3))
  then have c: "c \<in> set (at root ?s)" unfolding at_zero using pk(3) by force
  have ps: "plain_segs ?s" using JObject.prems(2) pk(1) by (simp add: plain_segs_def)
  have r: "render ?s = child_path (render segs) k" by (rule render_child [OF JObject.prems(2)])
  from q show ?case
  proof
    assume "q = child_path (render segs) k"
    with r ps c show ?thesis by (metis empty_iff empty_set)
  next
    assume "q \<in> cp c (child_path (render segs) k)"
    with r have "q \<in> cp c (render ?s)" by simp
    from JObject.IH [OF x _ pk(2) ps c this] show ?thesis by simp
  qed
next
  case (JArray vs)
  from JArray.prems obtain c where x: "c \<in> set vs"
    and q: "q = render segs @ ''[]'' \<or> q \<in> cp c (render segs @ ''[]'')" by (force split: if_splits)
  obtain ss k n where seg: "segs = ss @ [(k, n)]"
    using JArray.prems(2) by (metis plain_segs_def rev_exhaust surj_pair)
  let ?s = "ss @ [(k, Suc n)]"
  have c: "c \<in> set (at root ?s)" unfolding at_Suc using JArray.prems(3) x seg by force
  have ps: "plain_segs ?s" using JArray.prems(2) seg by (simp add: plain_segs_def)
  have r: "render ?s = render segs @ ''[]''" unfolding seg by (rule render_elem)
  have pc: "plain c" using JArray.prems(1) x by simp
  from q show ?case
  proof
    assume "q = render segs @ ''[]''"
    with r ps c show ?thesis by (metis empty_iff empty_set)
  next
    assume "q \<in> cp c (render segs @ ''[]'')"
    with r have "q \<in> cp c (render ?s)" by simp
    from JArray.IH [OF x pc ps c this] show ?thesis .
  qed
qed auto

text \<open>And whatever a structured path reaches was collected under it.\<close>

lemma children_mem: "v \<in> set (children k u) \<Longrightarrow> \<exists>fs. u = JObject fs \<and> map_of fs k = Some v"
  by (cases u) (auto split: option.splits)

lemma elems_mem: "v \<in> set (elems u) \<Longrightarrow> \<exists>vs. u = JArray vs \<and> v \<in> set vs"
  by (cases u) auto

lemma reached_collected:
  assumes "plain root"
  shows "\<forall>v\<in>set (at root segs). plain v \<and> (\<forall>s\<in>set segs. plain_key (fst s))
    \<and> (segs \<noteq> [] \<longrightarrow> render segs \<in> cp root []) \<and> cp v (render segs) \<subseteq> cp root []"
proof (induction segs rule: rev_induct)
  case Nil
  then show ?case using assms by (simp add: at_def)
next
  case (snoc s segs)
  obtain k n where s: "s = (k, n)" by (cases s)
  have "\<forall>v\<in>set (at root (segs @ [(k, n)])). plain v \<and> (\<forall>s\<in>set (segs @ [(k, n)]). plain_key (fst s))
    \<and> render (segs @ [(k, n)]) \<in> cp root [] \<and> cp v (render (segs @ [(k, n)])) \<subseteq> cp root []"
  proof (induction n)
    case 0
    show ?case
    proof
      fix v assume "v \<in> set (at root (segs @ [(k, 0)]))"
      then obtain u where u: "u \<in> set (at root segs)" "v \<in> set (children k u)" by (auto simp: at_zero)
      then obtain fs where fs: "u = JObject fs" "map_of fs k = Some v" using children_mem by blast
      from snoc.IH u(1) have ih: "plain u" "\<forall>s\<in>set segs. plain_key (fst s)" "cp u (render segs) \<subseteq> cp root []" by auto
      have kv: "(k, v) \<in> set fs" using fs(2) by (rule map_of_SomeD)
      with ih(1) fs(1) have pk: "plain_key k" "plain v" by auto
      have r: "render (segs @ [(k, 0)]) = child_path (render segs) k"
        by (cases "segs = []")
           (use ih(2) in \<open>auto simp: render_child plain_segs_def render_seg_def brackets_def child_path_def\<close>)
      have "insert (child_path (render segs) k) (cp v (child_path (render segs) k)) \<subseteq> cp u (render segs)"
        using kv fs(1) by (auto intro!: bexI [of _ "(k, v)"])
      with ih pk r show "plain v \<and> (\<forall>s\<in>set (segs @ [(k, 0)]). plain_key (fst s))
        \<and> render (segs @ [(k, 0)]) \<in> cp root [] \<and> cp v (render (segs @ [(k, 0)])) \<subseteq> cp root []" by auto
    qed
  next
    case (Suc n)
    show ?case
    proof
      fix v assume "v \<in> set (at root (segs @ [(k, Suc n)]))"
      then obtain u where u: "u \<in> set (at root (segs @ [(k, n)]))" "v \<in> set (elems u)" by (auto simp: at_Suc)
      then obtain vs where vs: "u = JArray vs" "v \<in> set vs" using elems_mem by blast
      from Suc.IH u(1) have ih: "plain u" "\<forall>s\<in>set (segs @ [(k, n)]). plain_key (fst s)"
        "cp u (render (segs @ [(k, n)])) \<subseteq> cp root []" by auto
      have "insert (render (segs @ [(k, n)]) @ ''[]'') (cp v (render (segs @ [(k, n)]) @ ''[]'')) \<subseteq> cp u (render (segs @ [(k, n)]))"
        using vs by auto
      with ih vs show "plain v \<and> (\<forall>s\<in>set (segs @ [(k, Suc n)]). plain_key (fst s))
        \<and> render (segs @ [(k, Suc n)]) \<in> cp root [] \<and> cp v (render (segs @ [(k, Suc n)])) \<subseteq> cp root []"
        by (auto simp: render_elem)
    qed
  qed
  with s show ?case by auto
qed

lemma lookup_iff_collected:
  assumes "plain root" and "\<And>vs. root \<noteq> JArray vs"
  shows "lookup root p \<noteq> [] \<longleftrightarrow> p \<in> dom (map_of (collectPaths root [] []))"
proof
  assume "lookup root p \<noteq> []"
  then obtain v where "v \<in> set (at root (parse p))" unfolding lookup_at by fastforce
  moreover have "parse p \<noteq> []" by (simp add: parse_def)
  ultimately have "render (parse p) \<in> cp root []" using reached_collected [OF assms(1), of "parse p"] by blast
  then show "p \<in> dom (map_of (collectPaths root [] []))" by (simp add: render_parse dom_collect)
next
  assume "p \<in> dom (map_of (collectPaths root [] []))"
  then have p: "p \<in> cp root []" by (simp add: dom_collect)
  then obtain fs where r: "root = JObject fs" using assms(2) by (cases root) auto
  from p r obtain k c where kc: "(k, c) \<in> set fs" and q: "p = k \<or> p \<in> cp c k"
    by (auto simp: child_path_def)
  from kc assms(1) r have pk: "plain_key k" "plain c" "map_of fs k = Some c" by auto
  have ps: "plain_segs [(k, 0)]" using pk(1) by (simp add: plain_segs_def)
  have c: "c \<in> set (at root [(k, 0)])" using pk(3) r at_zero [of root "[]" k] by (simp add: at_def)
  have rk: "render [(k, 0)] = k" by (simp add: render_seg_def brackets_def)
  from q have "\<exists>segs'. p = render segs' \<and> plain_segs segs' \<and> at root segs' \<noteq> []"
  proof
    assume "p = k"
    with rk ps c show ?thesis by (metis empty_iff empty_set)
  next
    assume "p \<in> cp c k"
    then show ?thesis using collected_reached [OF pk(2) ps c] rk by simp
  qed
  then obtain segs' where s: "p = render segs'" "plain_segs segs'" "at root segs' \<noteq> []" by blast
  then have "parse p = segs'" using parse_render by (auto simp: plain_segs_def)
  with s(3) show "lookup root p \<noteq> []" by (simp add: lookup_at)
qed

end
