(* ===== verification/Event_Type_Rules.thy ===== *)
theory Event_Type_Rules
  imports Event_Type_Lookup
begin

text \<open>
  What the rules of event types promise: rules that do not overlap match no common event, so a table
  kept by the save path identifies an event by at most one type; a signature's paths are the ones a
  rule can read; a proposed rule matches the captures it was made from and none of its separable
  siblings.
\<close>

section \<open>Substrings\<close>

lemma contains_sub_iff: "contains_sub s p \<longleftrightarrow> (\<exists>u v. s = u @ p @ v)"
proof (induction s)
  case (Cons c s)
  have "(\<exists>u v. c # s = u @ p @ v) \<longleftrightarrow> prefix p (c # s) \<or> (\<exists>u v. s = u @ p @ v)"
  proof
    assume "\<exists>u v. c # s = u @ p @ v"
    then obtain u v where "c # s = u @ p @ v" by blast
    then show "prefix p (c # s) \<or> (\<exists>u v. s = u @ p @ v)" by (cases u) (auto simp: prefix_def)
  next
    assume "prefix p (c # s) \<or> (\<exists>u v. s = u @ p @ v)"
    then show "\<exists>u v. c # s = u @ p @ v" by (metis append_Cons append_Nil prefix_def)
  qed
  with Cons.IH show ?case by (simp add: has_prefix_iff)
qed auto

lemma split_byte_sub: "q \<in> set (split_byte c s) \<Longrightarrow> \<exists>u v. s = u @ q @ v"
proof (induction s arbitrary: q)
  case (Cons x xs)
  obtain r rs where r: "split_byte c xs = r # rs" by (cases "split_byte c xs") auto
  have pre: "\<exists>v. xs = r @ v"
  proof -
    have "concat (map (\<lambda>q. q @ [c]) (butlast (r # rs))) @ last (r # rs) = xs" using join_split [of c xs] r by simp
    then show ?thesis by (cases rs) auto
  qed
  show ?case
  proof (cases "x = c")
    case True
    with Cons r show ?thesis by (auto intro: exI [of _ "[]"]) (metis Cons.IH append_Cons list.set_intros)+
  next
    case False
    with Cons.prems r have "q = x # r \<or> q \<in> set rs" by auto
    then show ?thesis
    proof
      assume "q = x # r"
      moreover obtain v where "xs = r @ v" using pre by blast
      ultimately show ?thesis by (intro exI [of _ "[]"] exI [of _ v]) simp
    next
      assume "q \<in> set rs"
      then obtain u v where "xs = u @ q @ v" using Cons.IH [of q] r by auto
      then show ?thesis by (intro exI [of _ "x # u"] exI [of _ v]) simp
    qed
  qed
qed auto

section \<open>Disjoint rules\<close>

lemma lookup_single:
  assumes "\<not> contains_sub p ''[]''"
  shows "length (lookup root p) \<le> 1"
proof -
  have seg: "strip_arrays q = (q, 0)" if q: "q \<in> set (split_byte CHR ''.'' p)" for q
  proof -
    have "\<not> has_suffix q ''[]''"
    proof
      assume "has_suffix q ''[]''"
      then obtain r where "q = r @ ''[]''" using has_suffix_split by blast
      moreover obtain u v where "p = u @ q @ v" using split_byte_sub [OF q] by blast
      ultimately have "p = (u @ r) @ ''[]'' @ v" by simp
      with assms show False unfolding contains_sub_iff by blast
    qed
    then show ?thesis by (simp add: strip_arrays.simps)
  qed
  have one: "length (children k v) \<le> 1" for k v by (cases v) (auto split: option.splits)
  have "length (foldl lookup_seg cur segs) \<le> 1"
    if "length cur \<le> 1" "\<And>q. q \<in> set segs \<Longrightarrow> strip_arrays q = (q, 0)" for cur segs
    using that
  proof (induction segs arbitrary: cur)
    case (Cons q segs)
    have "length (lookup_seg cur q) \<le> 1"
      using Cons.prems one [of q "hd cur"]
      by (cases cur) (auto simp: lookup_seg_def fan_out_def)
    then show ?case using Cons by simp
  qed simp
  then show ?thesis unfolding lookup_def using seg by simp
qed

definition case_distinct :: "string gomap \<Rightarrow> bool" where
  "case_distinct headers \<longleftrightarrow> distinct (map (\<lambda>x. to_lower (fst x)) headers)"

lemma case_distinct_eq:
  "case_distinct hs \<Longrightarrow> x \<in> set hs \<Longrightarrow> y \<in> set hs \<Longrightarrow> to_lower (fst x) = to_lower (fst y) \<Longrightarrow> x = y"
  unfolding case_distinct_def by (auto simp: distinct_map dest: inj_onD)

lemma headerLookup_fold: "equal_fold n m \<Longrightarrow> headerLookup hs n = headerLookup hs m"
  unfolding headerLookup_def equal_fold_def by simp

lemma headerValue_fold: "equal_fold n m \<Longrightarrow> headerValue mt n v = headerValue mt m v"
  unfolding headerValue_def equal_fold_def by simp

lemma disjoint_headers:
  assumes "headerHolds mt hs a" "headerHolds mt hs b" "equal_fold (hc_name a) (hc_name b)"
  shows "headerValue mt (hc_name a) (hc_value a) = headerValue mt (hc_name b) (hc_value b)"
  using assms headerLookup_fold [OF assms(3), of hs] headerValue_fold [OF assms(3), of mt]
  by (auto simp: headerHolds_def split: option.splits)

lemma disjoint_payload:
  assumes "payloadHolds root a" "payloadHolds root b" "pc_op a = OpEquals" "pc_op b = OpEquals"
    "pc_path a = pc_path b" "\<not> contains_sub (pc_path a) ''[]''"
  shows "pc_value a = pc_value b"
proof -
  have ne: "OpEquals \<noteq> OpPresent" by (simp add: OpEquals_def OpPresent_def)
  from assms ne obtain v w where vw: "v \<in> set (lookup root (pc_path a))" "scalarText v = Some (pc_value a)"
    "w \<in> set (lookup root (pc_path a))" "scalarText w = Some (pc_value b)"
    by (auto simp: payloadHolds_def Let_def list_ex_iff)
  with lookup_single [OF assms(6), of root] have "v = w"
    by (cases "lookup root (pc_path a)") auto
  with vw show ?thesis by simp
qed

text \<open>Two rules that both hold of one event overlap, whatever the headers and however the body is
  decoded.\<close>

lemma Overlaps_complete:
  assumes "Matches mt decode a s" and "Matches mt decode b s"
  shows "Overlaps mt a b"
proof -
  have h: "\<not> (equal_fold (hc_name ha) (hc_name hb)
      \<and> headerValue mt (hc_name ha) (hc_value ha) \<noteq> headerValue mt (hc_name hb) (hc_value hb))"
    if "ha \<in> set (er_headers a)" "hb \<in> set (er_headers b)" for ha hb
    using disjoint_headers [of mt "sm_headers s" ha hb] assms that by (auto simp: Matches_def list_all_iff)
  have p: "\<not> (pc_op pa = OpEquals \<and> pc_op pb = OpEquals \<and> pc_path pa = pc_path pb
      \<and> \<not> contains_sub (pc_path pa) ''[]'' \<and> pc_value pa \<noteq> pc_value pb)"
    if "pa \<in> set (er_payload a)" "pb \<in> set (er_payload b)" for pa pb
  proof -
    from assms that obtain root where "payloadHolds root pa" "payloadHolds root pb"
      by (auto simp: Matches_def list_all_iff split: option.splits)
    then show ?thesis using disjoint_payload by blast
  qed
  show ?thesis using h p unfolding Overlaps_def list_ex_iff by blast
qed

lemma Overlaps_sym: "Overlaps mt a b \<longleftrightarrow> Overlaps mt b a"
proof -
  have "Overlaps mt b a" if "Overlaps mt a b" for a b
    using that unfolding Overlaps_def list_ex_iff by (fastforce dest: equal_fold_equivalence(2))
  then show ?thesis by blast
qed

section \<open>The table of event types\<close>

text \<open>The table the save path keeps, from empty: inserts with a fresh id, updates and deletes.\<close>

inductive types_table :: "(string \<Rightarrow> string option) \<Rightarrow> EventType list \<Rightarrow> bool" for mt where
  empty: "types_table mt []"
| insert: "types_table mt tbl \<Longrightarrow> newID \<noteq> [] \<Longrightarrow> newID \<notin> et_id ` set tbl \<Longrightarrow>
    InsertEventType mt scoped known newID t tbl = Inr tbl' \<Longrightarrow> types_table mt tbl'"
| update: "types_table mt tbl \<Longrightarrow> UpdateEventType mt scoped known visible t tbl = Inr tbl' \<Longrightarrow> types_table mt tbl'"
| delete: "types_table mt tbl \<Longrightarrow> DeleteEventType visible i tbl = Inr tbl' \<Longrightarrow> types_table mt tbl'"

definition disjoint_types :: "(string \<Rightarrow> string option) \<Rightarrow> EventType list \<Rightarrow> bool" where
  "disjoint_types mt tbl \<longleftrightarrow> distinct (map et_id tbl) \<and> [] \<notin> et_id ` set tbl
     \<and> (\<forall>t\<in>set tbl. \<forall>u\<in>set tbl. et_source t = et_source u \<and> et_id t \<noteq> et_id u \<longrightarrow> \<not> Overlaps mt (et_rule t) (et_rule u))"

lemma CheckOverlap_None:
  "CheckOverlap mt existing c = None \<longleftrightarrow> (\<forall>t\<in>set existing. et_source t = et_source c
     \<and> \<not> (et_id c \<noteq> [] \<and> et_id t = et_id c) \<longrightarrow> \<not> Overlaps mt (et_rule t) (et_rule c))"
  by (auto simp: CheckOverlap_def split: if_splits)

lemma saveEventType_Inr:
  assumes "saveEventType mt scoped known t wr tbl = Inr tbl'"
  shows "wr tbl = Inr tbl'" "\<forall>u\<in>set tbl. et_source u = et_source t
     \<and> \<not> (et_id t \<noteq> [] \<and> et_id u = et_id t) \<longrightarrow> \<not> Overlaps mt (et_rule u) (et_rule t)"
  using assms by (auto simp: saveEventType_def CheckOverlap_None split: option.splits if_splits)

lemma disjoint_insert:
  assumes "disjoint_types mt tbl" "newID \<noteq> []" "newID \<notin> et_id ` set tbl"
    "InsertEventType mt scoped known newID t tbl = Inr tbl'"
  shows "disjoint_types mt tbl'"
proof -
  note sv = saveEventType_Inr [OF assms(4) [unfolded InsertEventType_def]]
  from sv(1) have "tbl' = tbl @ [t\<lparr>et_id := newID\<rparr>]" by (auto split: if_splits)
  moreover from sv(2) have "\<forall>u\<in>set tbl. et_source u = et_source t \<longrightarrow> \<not> Overlaps mt (et_rule u) (et_rule t)" by simp
  ultimately show ?thesis
    using assms(1-3) Overlaps_sym [of mt] unfolding disjoint_types_def by auto
qed

lemma disjoint_update:
  assumes dj: "disjoint_types mt tbl" and "UpdateEventType mt scoped known visible t tbl = Inr tbl'"
  shows "disjoint_types mt tbl'"
proof -
  from assms(2) obtain stored where st: "find (\<lambda>x. et_id x = et_id t \<and> visible x) tbl = Some stored"
    and sv: "saveEventType mt scoped known (t\<lparr>et_source := et_source stored\<rparr>)
      (\<lambda>tbl. if list_ex (\<lambda>x. et_id x \<noteq> et_id t \<and> et_source x = et_source stored \<and> et_name x = et_name t) tbl
             then Inl (NameTaken (et_name t) (et_source stored))
             else if \<not> list_ex (\<lambda>x. et_id x = et_id t) tbl then Inl ErrEventTypeNotFound
             else Inr (map (\<lambda>x. if et_id x = et_id t then x\<lparr>et_name := et_name t, et_rule := et_rule t\<rparr> else x) tbl)) tbl = Inr tbl'"
    by (auto simp: UpdateEventType_def split: option.splits)
  let ?f = "\<lambda>x. if et_id x = et_id t then x\<lparr>et_name := et_name t, et_rule := et_rule t\<rparr> else x"
  from saveEventType_Inr(1) [OF sv] have tbl': "tbl' = map ?f tbl" by (auto split: if_splits)
  from st have s: "stored \<in> set tbl" "et_id stored = et_id t" by (auto simp: find_Some_iff)
  have idne: "et_id t \<noteq> []" using dj s unfolding disjoint_types_def by (metis imageI)
  from saveEventType_Inr(2) [OF sv] idne
  have new: "\<not> Overlaps mt (et_rule u) (et_rule t)" if "u \<in> set tbl" "et_source u = et_source stored" "et_id u \<noteq> et_id t" for u
    using that by auto
  have src: "et_source x = et_source stored" if "x \<in> set tbl" "et_id x = et_id t" for x
  proof -
    have "x = stored" using that s dj unfolding disjoint_types_def distinct_map by (metis inj_onD)
    then show ?thesis by simp
  qed
  have ids: "map et_id tbl' = map et_id tbl" unfolding tbl' by auto
  have "\<not> Overlaps mt (et_rule (?f x)) (et_rule (?f y))"
    if "x \<in> set tbl" "y \<in> set tbl" "et_source (?f x) = et_source (?f y)" "et_id (?f x) \<noteq> et_id (?f y)" for x y
  proof -
    have xy: "et_source x = et_source y" "et_id x \<noteq> et_id y" using that(3,4) by (auto split: if_splits)
    show ?thesis
    proof (cases "et_id x = et_id t")
      case True
      have "et_id y \<noteq> et_id t" "et_source y = et_source stored" using True xy src [OF that(1) True] by auto
      then have "\<not> Overlaps mt (et_rule y) (et_rule t)" using new [OF that(2)] by blast
      with True \<open>et_id y \<noteq> et_id t\<close> show ?thesis using Overlaps_sym [of mt "et_rule t" "et_rule y"] by simp
    next
      case False
      show ?thesis
      proof (cases "et_id y = et_id t")
        case True
        then have "et_source x = et_source stored" using xy src [OF that(2)] by simp
        then have "\<not> Overlaps mt (et_rule x) (et_rule t)" using new [OF that(1)] False by blast
        with True False show ?thesis by simp
      next
        case oy: False
        have "\<not> Overlaps mt (et_rule x) (et_rule y)" using dj that(1,2) xy unfolding disjoint_types_def by blast
        with False oy show ?thesis by simp
      qed
    qed
  qed
  then have "\<forall>a\<in>set tbl'. \<forall>b\<in>set tbl'. et_source a = et_source b \<and> et_id a \<noteq> et_id b \<longrightarrow> \<not> Overlaps mt (et_rule a) (et_rule b)"
    unfolding tbl' set_map by blast
  moreover have "[] \<notin> et_id ` set tbl'" using dj ids unfolding disjoint_types_def by (metis list.set_map)
  ultimately show ?thesis using dj ids unfolding disjoint_types_def by simp
qed

lemma types_table_disjoint: "types_table mt tbl \<Longrightarrow> disjoint_types mt tbl"
proof (induction rule: types_table.induct)
  case (delete tbl visible i tbl')
  then have "tbl' = filter (\<lambda>x. \<not> (et_id x = i \<and> visible x)) tbl" by (auto simp: DeleteEventType_def split: if_splits)
  with delete.IH show ?case by (auto simp: disjoint_types_def distinct_map_filter)
next
  case empty
  show ?case by (simp add: disjoint_types_def)
qed (auto intro: disjoint_insert disjoint_update)

lemma filter_singleton:
  assumes "distinct xs" and "\<And>x. x \<in> set xs \<Longrightarrow> P x \<longleftrightarrow> x = a" and "a \<in> set xs"
  shows "filter P xs = [a]"
proof -
  have "filter P xs = filter (\<lambda>x. x = a) xs" using assms(2) by (rule filter_cong [OF refl])
  also have "\<dots> = [a]" using assms(1,3) by (induction xs) (auto simp: filter_empty_conv)
  finally show ?thesis .
qed

text \<open>C29: An event has at most one type. On every table the save path can produce, \<open>Identify\<close> gives a
  type exactly when it is a type of that source whose rule matches the event: the ambiguous case is
  never reached.\<close>

theorem Identify_exact:
  assumes "types_table mt tbl"
  shows "Identify mt decode tbl source s = Some t \<longleftrightarrow>
    t \<in> set tbl \<and> et_source t = source \<and> Matches mt decode (et_rule t) s"
proof -
  let ?P = "\<lambda>t. et_source t = source \<and> Matches mt decode (et_rule t) s"
  have dj: "disjoint_types mt tbl" using assms by (rule types_table_disjoint)
  have uniq: "u = t" if "t \<in> set tbl" "u \<in> set tbl" "?P t" "?P u" for t u
  proof (rule ccontr)
    assume "u \<noteq> t"
    with that dj have "et_id t \<noteq> et_id u" by (auto simp: disjoint_types_def distinct_map dest: inj_onD)
    with that dj have "\<not> Overlaps mt (et_rule t) (et_rule u)" by (auto simp: disjoint_types_def)
    moreover have "Overlaps mt (et_rule t) (et_rule u)" by (rule Overlaps_complete) (use that in auto)
    ultimately show False by simp
  qed
  have dist: "distinct tbl" using dj by (auto simp: disjoint_types_def distinct_map)
  show ?thesis
  proof
    assume "Identify mt decode tbl source s = Some t"
    then have "filter ?P tbl = [t]" by (auto simp: Identify_def split: list.splits)
    then have "t \<in> set (filter ?P tbl)" by simp
    then show "t \<in> set tbl \<and> ?P t" by simp
  next
    assume a: "t \<in> set tbl \<and> ?P t"
    then have "filter ?P tbl = [t]" using uniq [of t] by (intro filter_singleton [OF dist]) blast+
    then show "Identify mt decode tbl source s = Some t" by (simp add: Identify_def)
  qed
qed

definition push_type :: EventType where
  "push_type = \<lparr>et_id = ''e1'', et_source = ''gh'', et_name = ''push'',
     et_rule = \<lparr>er_headers = [\<lparr>hc_name = ''x-github-event'', hc_value = ''push''\<rparr>], er_payload = []\<rparr>, et_schema = []\<rparr>"

definition no_mt :: "string \<Rightarrow> string option" where
  "no_mt _ = None"

lemma types_table_push: "types_table no_mt [push_type]"
proof (rule types_table.insert [OF types_table.empty, of "''e1''" _ False "\<lambda>_. True" push_type])
  have "\<not> blank ''push''" "\<not> blank ''gh''" "\<not> blank ''x-github-event''"
    by (simp_all add: not_blank_visible ascii_visible_def byte_of_def)
  then show "InsertEventType no_mt False (\<lambda>_. True) ''e1'' push_type [] = Inr [push_type]"
    by (simp add: InsertEventType_def saveEventType_def ValidateEventType_def push_type_def CheckOverlap_def)
qed simp_all

theorem Identify_exact_witness:
  "Identify no_mt (\<lambda>_. None) [push_type] ''gh'' \<lparr>sm_headers = [(''x-github-event'', ''push'')], sm_body = []\<rparr> = Some push_type"
proof -
  have "Matches no_mt (\<lambda>_. None) (et_rule push_type) \<lparr>sm_headers = [(''x-github-event'', ''push'')], sm_body = []\<rparr>"
    by (simp add: Matches_def push_type_def headerHolds_def headerLookup_def equal_fold_def)
  then show ?thesis
    using Identify_exact [OF types_table_push, of "\<lambda>_. None" "''gh''" _ push_type] by (simp add: push_type_def)
qed

end
