(* ===== verification/Event_Type_Proposals.thy ===== *)
theory Event_Type_Proposals
  imports Event_Type_Rules
begin

text \<open>
  Proposals: the rule proposed for a group of captures, against the captures themselves.
\<close>

section \<open>Discriminator headers\<close>

text \<open>Parsing a media type again gives the same media type, as \<open>mime.ParseMediaType\<close> has it: the
  result has no parameters and is in lower case.\<close>

definition mt_idem :: "(string \<Rightarrow> string option) \<Rightarrow> bool" where
  "mt_idem mt \<longleftrightarrow> (\<forall>v m. mt v = Some m \<longrightarrow> mt (trim_space m) = Some m)"

lemma headerValue_idem:
  assumes "mt_idem mt"
  shows "headerValue mt n (headerValue mt n v) = headerValue mt n v"
proof (cases "equal_fold n ''content-type''")
  case True
  then show ?thesis
    using assms by (cases "mt (trim_space v)") (auto simp: headerValue_def mt_idem_def)
qed (simp add: headerValue_def)

lemma isDiscriminator_fold: "to_lower k = to_lower n \<Longrightarrow> isDiscriminator k \<longleftrightarrow> isDiscriminator n"
  by (simp add: isDiscriminator_def)

lemma equal_fold_to_lower: "equal_fold k (to_lower k)" "equal_fold (to_lower k) k"
  by (simp_all add: equal_fold_def)

definition put_header :: "(string \<Rightarrow> string option) \<Rightarrow> string \<times> string \<Rightarrow> string gomap \<Rightarrow> string gomap" where
  "put_header mt x m = (if isDiscriminator (fst x) then map_put (to_lower (fst x)) (headerValue mt (fst x) (snd x)) m else m)"

lemma sg_headers_Sign: "sg_headers (Sign mt decode s) = fold (put_header mt) (sm_headers s) []"
proof -
  have "(\<lambda>(name, value) m. if isDiscriminator name then map_put (to_lower name) (headerValue mt name value) m else m)
      = put_header mt"
    by (auto simp: put_header_def fun_eq_iff)
  then show ?thesis by (simp add: Sign_def)
qed

lemma put_headers_map_of:
  "case_distinct hs \<Longrightarrow> map_of (fold (put_header mt) hs m) n = Some x \<longleftrightarrow>
     (\<exists>(k, v)\<in>set hs. isDiscriminator k \<and> to_lower k = n \<and> x = headerValue mt k v)
     \<or> (\<forall>(k, v)\<in>set hs. \<not> (isDiscriminator k \<and> to_lower k = n)) \<and> map_of m n = Some x"
proof (induction hs arbitrary: m)
  case (Cons h hs)
  obtain k v where h: "h = (k, v)" by (cases h)
  have d: "case_distinct hs" "\<forall>(k', v')\<in>set hs. to_lower k' \<noteq> to_lower k"
    using Cons.prems h by (force simp: case_distinct_def)+
  show ?case
    unfolding fold_simps comp_apply Cons.IH [OF d(1)] using d(2) h by (auto simp: put_header_def)
qed simp

lemma Sign_header:
  assumes "case_distinct (sm_headers s)"
  shows "map_of (sg_headers (Sign mt decode s)) n = Some x \<longleftrightarrow>
    (\<exists>k v. (k, v) \<in> set (sm_headers s) \<and> isDiscriminator k \<and> to_lower k = n \<and> x = headerValue mt k v)"
  using put_headers_map_of [OF assms, of mt "[]" n x] by (auto simp: sg_headers_Sign)

lemma sg_headers_distinct: "distinct (map fst (sg_headers (Sign mt decode s)))"
proof -
  have "distinct (map fst (fold (put_header mt) hs m))" if "distinct (map fst m)" for hs m
    using that by (induction hs arbitrary: m) (auto simp: put_header_def distinct_map_put)
  then show ?thesis by (simp add: sg_headers_Sign)
qed

lemma headerLookup_Some:
  assumes "case_distinct hs"
  shows "headerLookup hs n = Some v \<longleftrightarrow> (\<exists>k. (k, v) \<in> set hs \<and> equal_fold k n)"
proof
  assume "headerLookup hs n = Some v"
  then obtain x where "find (\<lambda>(k, v). equal_fold k n) hs = Some x" "snd x = v" by (auto simp: headerLookup_def)
  then have "x \<in> set hs" "equal_fold (fst x) n" by (auto simp: find_Some_iff split_beta)
  with \<open>snd x = v\<close> show "\<exists>k. (k, v) \<in> set hs \<and> equal_fold k n" by (metis prod.collapse)
next
  assume "\<exists>k. (k, v) \<in> set hs \<and> equal_fold k n"
  then obtain k where k: "(k, v) \<in> set hs" "equal_fold k n" by blast
  then have "find (\<lambda>(k, v). equal_fold k n) hs \<noteq> None" by (auto simp: find_None_iff)
  then obtain x where x: "find (\<lambda>(k, v). equal_fold k n) hs = Some x" by blast
  then have "x \<in> set hs" "equal_fold (fst x) n" by (auto simp: find_Some_iff split_beta)
  with k assms have "x = (k, v)" by (intro case_distinct_eq [OF assms]) (auto simp: equal_fold_def)
  with x show "headerLookup hs n = Some v" by (simp add: headerLookup_def)
qed

lemma own_headers:
  assumes "mt_idem mt" and cd: "case_distinct (sm_headers s)"
    and "h \<in> set (headerConditions (sg_headers (Sign mt decode s)))"
  shows "headerHolds mt (sm_headers s) h"
proof -
  from assms(3) obtain n x where h: "h = \<lparr>hc_name = n, hc_value = x\<rparr>" "map_of (sg_headers (Sign mt decode s)) n = Some x"
    by (auto simp: headerConditions_def)
  then obtain k v where k: "(k, v) \<in> set (sm_headers s)" "to_lower k = n" "x = headerValue mt k v"
    using Sign_header [OF cd] by blast
  have f: "equal_fold k n" using k(2) equal_fold_to_lower(1) by auto
  then have "headerLookup (sm_headers s) n = Some v" using headerLookup_Some [OF cd] k(1) by blast
  moreover have "headerValue mt n x = headerValue mt n v"
    using k(3) headerValue_fold [OF f, of mt] headerValue_idem [OF assms(1)] by simp
  ultimately show ?thesis using h(1) by (simp add: headerHolds_def)
qed

lemma separate_headers:
  assumes "mt_idem mt" and cd: "case_distinct (sm_headers s)" "case_distinct (sm_headers s')"
    and "headersSeparate (sg_headers (Sign mt decode s)) (sg_headers (Sign mt decode s'))"
  shows "\<exists>h\<in>set (headerConditions (sg_headers (Sign mt decode s))). \<not> headerHolds mt (sm_headers s') h"
proof -
  let ?g = "sg_headers (Sign mt decode s)" and ?o = "sg_headers (Sign mt decode s')"
  from assms(4) obtain n x where nx: "(n, x) \<in> set ?g" "map_of ?o n \<noteq> Some x"
    by (auto simp: headersSeparate_def list_ex_iff)
  then have m: "map_of ?g n = Some x" using sg_headers_distinct by (simp add: map_of_is_SomeI)
  let ?h = "\<lparr>hc_name = n, hc_value = x\<rparr>"
  have "?h \<in> set (headerConditions ?g)" using m by (force simp: headerConditions_def)
  moreover have "\<not> headerHolds mt (sm_headers s') ?h"
  proof
    assume "headerHolds mt (sm_headers s') ?h"
    then obtain got where got: "headerLookup (sm_headers s') n = Some got" "headerValue mt n got = headerValue mt n x"
      by (auto simp: headerHolds_def split: option.splits)
    obtain k0 v0 where k0: "isDiscriminator k0" "to_lower k0 = n" "x = headerValue mt k0 v0"
      using m Sign_header [OF cd(1)] by blast
    obtain k where k: "(k, got) \<in> set (sm_headers s')" "equal_fold k n"
      using got(1) headerLookup_Some [OF cd(2)] by blast
    have f0: "equal_fold k0 n" using k0(2) equal_fold_to_lower(1) by auto
    have kn: "to_lower k = n" using k(2) k0(2) by (auto simp: equal_fold_def)
    have "isDiscriminator k" using k0(1) kn k0(2) isDiscriminator_fold [of k k0] by simp
    moreover have "x = headerValue mt k got"
      using got(2) k0(3) headerValue_fold [OF f0, of mt] headerValue_fold [OF k(2), of mt] headerValue_idem [OF assms(1)]
      by simp
    ultimately have "map_of ?o n = Some x" using Sign_header [OF cd(2)] k(1) kn by blast
    with nx(2) show False by simp
  qed
  ultimately show ?thesis by blast
qed

section \<open>Separating paths\<close>

definition own_paths :: "Signature \<Rightarrow> Rule \<Rightarrow> bool" where
  "own_paths g rule \<longleftrightarrow> (\<forall>p\<in>set (er_payload rule). pc_op p = OpPresent \<and> pc_path p \<in> dom (map_of (sg_paths g)))"

lemma separate_from_facts:
  shows "er_headers (separate_from g s rule) = er_headers rule"
    and "set (er_payload rule) \<subseteq> set (er_payload (separate_from g s rule))"
    and "own_paths g rule \<Longrightarrow> own_paths g (separate_from g s rule)"
    and "headersSeparate (sg_headers g) (sg_headers s) \<or> rulePathsSeparate (separate_from g s rule) s
         \<or> dom (map_of (sg_paths g)) \<subseteq> dom (map_of (sg_paths s))"
proof -
  show "er_headers (separate_from g s rule) = er_headers rule"
    by (simp add: separate_from_def split: option.splits)
  show "set (er_payload rule) \<subseteq> set (er_payload (separate_from g s rule))"
    by (auto simp: separate_from_def split: option.splits)
  have found: "q \<in> dom (map_of (sg_paths g)) \<and> map_of (sg_paths s) q = None"
    if "find (\<lambda>path. map_of (sg_paths s) path = None) (sorted_keys (sg_paths g)) = Some q" for q
  proof -
    from find_SomeD [OF that] show ?thesis by simp
  qed
  show "own_paths g rule \<Longrightarrow> own_paths g (separate_from g s rule)"
    using found by (auto simp: separate_from_def own_paths_def present_def split: option.splits)
  show "headersSeparate (sg_headers g) (sg_headers s) \<or> rulePathsSeparate (separate_from g s rule) s
         \<or> dom (map_of (sg_paths g)) \<subseteq> dom (map_of (sg_paths s))"
  proof (cases "find (\<lambda>path. map_of (sg_paths s) path = None) (sorted_keys (sg_paths g))")
    case None
    then have "dom (map_of (sg_paths g)) \<subseteq> dom (map_of (sg_paths s))"
      by (auto simp: find_None_iff)
    then show ?thesis by blast
  next
    case (Some q)
    then show ?thesis using found [OF Some]
      by (auto simp: separate_from_def rulePathsSeparate_def present_def)
  qed
qed

lemma rulePathsSeparate_mono:
  "set (er_payload r) \<subseteq> set (er_payload r') \<Longrightarrow> rulePathsSeparate r s \<Longrightarrow> rulePathsSeparate r' s"
  by (auto simp: rulePathsSeparate_def list_ex_iff)

lemma fold_separate:
  assumes "own_paths g rule"
  shows "er_headers (fold (separate_from g) sibs rule) = er_headers rule
    \<and> set (er_payload rule) \<subseteq> set (er_payload (fold (separate_from g) sibs rule))
    \<and> own_paths g (fold (separate_from g) sibs rule)
    \<and> (\<forall>s\<in>set sibs. headersSeparate (sg_headers g) (sg_headers s)
         \<or> rulePathsSeparate (fold (separate_from g) sibs rule) s
         \<or> dom (map_of (sg_paths g)) \<subseteq> dom (map_of (sg_paths s)))"
  using assms
proof (induction sibs arbitrary: rule)
  case (Cons a sibs)
  let ?r = "separate_from g a rule"
  note ih = Cons.IH [OF separate_from_facts(3) [OF Cons.prems], of a]
  have "headersSeparate (sg_headers g) (sg_headers a) \<or> rulePathsSeparate (fold (separate_from g) sibs ?r) a
      \<or> dom (map_of (sg_paths g)) \<subseteq> dom (map_of (sg_paths a))"
    using separate_from_facts(4) [of g a rule] rulePathsSeparate_mono ih by blast
  with ih separate_from_facts(1) [of g a rule] separate_from_facts(2) [of rule g a] show ?case by auto
qed simp

section \<open>What a proposal promises\<close>

text \<open>A sample the path language can describe: header names distinct up to case, and a body that is
  not JSON, or whose keys are plain and whose root is not a list.\<close>

definition readable :: "(string \<Rightarrow> json option) \<Rightarrow> Sample \<Rightarrow> bool" where
  "readable decode s \<longleftrightarrow> case_distinct (sm_headers s)
     \<and> (case decode (sm_body s) of None \<Rightarrow> True | Some root \<Rightarrow> plain root \<and> (\<forall>vs. root \<noteq> JArray vs))"

lemma readable_lookup:
  assumes "readable decode s" and "decode (sm_body s) = Some root"
  shows "lookup root p \<noteq> [] \<longleftrightarrow> p \<in> dom (map_of (sg_paths (Sign mt decode s)))"
  using assms lookup_iff_collected [of root p] by (simp add: readable_def Sign_def)

text \<open>The paths a signature lists are exactly the paths a condition can find. For a readable
  sample, a path is in the signature of the event, and so in the schema of a type made from it, if
  and only if looking it up in the payload gives a value.\<close>

theorem signature_paths_readable:
  assumes "readable decode s" and "decode (sm_body s) = Some root"
  shows "p \<in> dom (map_of (sg_paths (Sign mt decode s))) \<longleftrightarrow> lookup root p \<noteq> []"
  using readable_lookup [OF assms] by simp

definition order_body :: json where
  "order_body = JObject [(''id'', JNumber ''7''), (''lines'', JArray [JObject [(''sku'', JString ''a'')]])]"

definition order_sample :: Sample where
  "order_sample = \<lparr>sm_headers = [], sm_body = ''order''\<rparr>"

definition toy_decode :: "string \<Rightarrow> json option" where
  "toy_decode s = (if s = ''order'' then Some order_body
     else if s = ''ping'' then Some (JObject [(''id'', JNumber ''8'')])
     else if s = ''list'' then Some (JArray [JObject [(''id'', JNumber ''9'')]]) else None)"

lemma readable_order: "readable toy_decode order_sample"
  by (simp add: readable_def order_sample_def case_distinct_def toy_decode_def order_body_def plain_key_def has_suffix_def)

theorem signature_paths_readable_witness:
  "lookup order_body ''lines[].sku'' \<noteq> [] \<and> lookup order_body ''lines.sku'' = []"
proof -
  have "toy_decode (sm_body order_sample) = Some order_body" by (simp add: toy_decode_def order_sample_def)
  note t = signature_paths_readable [OF readable_order this, of _ no_mt]
  have "dom (map_of (sg_paths (Sign no_mt toy_decode order_sample))) = {''id'', ''lines'', ''lines[]'', ''lines[].sku''}"
    by (auto simp: Sign_def toy_decode_def order_sample_def order_body_def child_path_def)
  then show ?thesis using t [of "''lines[].sku''"] t [of "''lines.sku''"] by simp
qed

text \<open>What the rule of a signature does to a capture of a sibling: it matches exactly if the sibling has all
  discriminator headers of the signature, with their values, and all its paths.\<close>

definition covers :: "Signature \<Rightarrow> Signature \<Rightarrow> bool" where
  "covers h g \<longleftrightarrow> map_of (sg_headers g) \<subseteq>\<^sub>m map_of (sg_headers h) \<and> dom (map_of (sg_paths g)) \<subseteq> dom (map_of (sg_paths h))"

lemma headersSeparate_iff: "\<not> headersSeparate (sg_headers (Sign mt decode s)) o' \<longleftrightarrow> map_of (sg_headers (Sign mt decode s)) \<subseteq>\<^sub>m map_of o'"
proof -
  have "(n, x) \<in> set (sg_headers (Sign mt decode s)) \<longleftrightarrow> map_of (sg_headers (Sign mt decode s)) n = Some x" for n x
    using sg_headers_distinct [of mt decode s] by (auto dest: map_of_SomeD)
  then show ?thesis by (force simp: headersSeparate_def list_ex_iff map_le_def dom_def)
qed

lemma separatingRule_parts:
  "er_headers (separatingRule g siblings) = headerConditions (sg_headers g)" "own_paths g (separatingRule g siblings)"
  "h \<in> set siblings \<Longrightarrow> headersSeparate (sg_headers g) (sg_headers h) \<or> rulePathsSeparate (separatingRule g siblings) h
     \<or> dom (map_of (sg_paths g)) \<subseteq> dom (map_of (sg_paths h))"
proof -
  have r0: "own_paths g \<lparr>er_headers = headerConditions (sg_headers g), er_payload = []\<rparr>" by (simp add: own_paths_def)
  note fs = fold_separate [OF r0, of siblings, folded separatingRule_def]
  show "er_headers (separatingRule g siblings) = headerConditions (sg_headers g)" "own_paths g (separatingRule g siblings)" using fs by simp_all
  show "h \<in> set siblings \<Longrightarrow> headersSeparate (sg_headers g) (sg_headers h) \<or> rulePathsSeparate (separatingRule g siblings) h
     \<or> dom (map_of (sg_paths g)) \<subseteq> dom (map_of (sg_paths h))" using fs by blast
qed

lemma covered_matches:
  assumes mt: "mt_idem mt" and s: "readable decode s" and c: "covers (Sign mt decode s) g"
  shows "Matches mt decode (separatingRule g siblings) s"
proof -
  let ?r = "separatingRule g siblings" and ?h = "Sign mt decode s"
  note p = separatingRule_parts(1,2) [of g siblings]
  have cd: "case_distinct (sm_headers s)" using s by (simp add: readable_def)
  have heads: "headerHolds mt (sm_headers s) x" if "x \<in> set (headerConditions (sg_headers g))" for x
  proof -
    from that obtain n v where x: "x = \<lparr>hc_name = n, hc_value = v\<rparr>" "map_of (sg_headers g) n = Some v"
      by (auto simp: headerConditions_def)
    then have "map_of (sg_headers ?h) n = Some v" using c by (fastforce simp: covers_def map_le_def dom_def)
    then have "x \<in> set (headerConditions (sg_headers ?h))" using x(1) by (force simp: headerConditions_def)
    then show ?thesis by (rule own_headers [OF mt cd])
  qed
  have paths: "pc_path q \<in> dom (map_of (sg_paths ?h)) \<and> pc_op q = OpPresent" if "q \<in> set (er_payload ?r)" for q
    using p(2) c that by (auto simp: own_paths_def covers_def)
  show ?thesis
  proof (cases "decode (sm_body s)")
    case None
    then have "dom (map_of (sg_paths ?h)) = {}" by (simp add: Sign_def)
    with paths have "er_payload ?r = []" by (cases "er_payload ?r") auto
    with heads p(1) show ?thesis by (simp add: Matches_def list_all_iff)
  next
    case (Some root)
    have "payloadHolds root q" if "q \<in> set (er_payload ?r)" for q
      using paths [OF that] readable_lookup [OF s Some, of "pc_path q" mt] by (auto simp: payloadHolds_def Let_def)
    with heads p(1) Some show ?thesis by (simp add: Matches_def list_all_iff)
  qed
qed

lemma sibling_matches:
  assumes mt: "mt_idem mt" and s: "readable decode s" and s': "readable decode s'" and sib: "Sign mt decode s' \<in> set siblings"
  shows "Matches mt decode (separatingRule (Sign mt decode s) siblings) s' \<longleftrightarrow> covers (Sign mt decode s') (Sign mt decode s)"
proof
  let ?g = "Sign mt decode s" and ?r = "separatingRule (Sign mt decode s) siblings"
  note p = separatingRule_parts(1,2) [of ?g siblings]
  assume m: "Matches mt decode ?r s'"
  have cd: "case_distinct (sm_headers s)" "case_distinct (sm_headers s')" using s s' by (simp_all add: readable_def)
  have nh: "\<not> headersSeparate (sg_headers ?g) (sg_headers (Sign mt decode s'))"
    using separate_headers [OF mt cd] m p(1) by (auto simp: Matches_def list_all_iff)
  have "\<not> rulePathsSeparate ?r (Sign mt decode s')"
  proof
    assume "rulePathsSeparate ?r (Sign mt decode s')"
    then obtain q where q: "q \<in> set (er_payload ?r)" "map_of (sg_paths (Sign mt decode s')) (pc_path q) = None"
      by (auto simp: rulePathsSeparate_def list_ex_iff)
    then obtain root where root: "decode (sm_body s') = Some root" "payloadHolds root q"
      using m by (cases "decode (sm_body s')") (auto simp: Matches_def list_all_iff)
    have "lookup root (pc_path q) = []"
      using readable_lookup [OF s' root(1), of "pc_path q" mt] q(2) by (auto simp: domIff)
    moreover have "pc_op q = OpPresent" using p(2) q(1) by (auto simp: own_paths_def)
    ultimately show False using root(2) by (simp add: payloadHolds_def)
  qed
  with separatingRule_parts(3) [OF sib, of ?g] nh show "covers (Sign mt decode s') ?g" by (simp add: covers_def headersSeparate_iff)
qed (rule covered_matches [OF mt s'])

text \<open>The groups: each has the signature and the key of a capture of its source, and each capture has a group.\<close>

definition group_of :: "(string \<Rightarrow> string option) \<Rightarrow> (string \<Rightarrow> json option) \<Rightarrow> Capture list \<Rightarrow> Proposal \<Rightarrow> bool" where
  "group_of mt decode captures g \<longleftrightarrow> pr_key g = Key (pr_sig g)
     \<and> (\<exists>c \<in> set captures. cp_source c = pr_source g \<and> cp_id c = pr_sample g \<and> pr_sig g = Sign mt decode (cp_sample c))"

lemma add_capture_groups:
  assumes "\<forall>g \<in> set gs. group_of mt decode cs g"
  shows "\<forall>g \<in> set (add_capture mt decode c gs). group_of mt decode (cs @ [c]) g"
proof -
  have old: "group_of mt decode (cs @ [c]) g" if "g \<in> set gs" for g using assms that by (auto simp: group_of_def)
  have "group_of mt decode (cs @ [c]) (g\<lparr>pr_count := n\<rparr>) = group_of mt decode (cs @ [c]) g" for g n by (simp add: group_of_def)
  with old show ?thesis by (auto simp: add_capture_def Let_def) (simp_all add: group_of_def)
qed

lemma fold_groups: "\<forall>g \<in> set (fold (add_capture mt decode) cs []). group_of mt decode cs g"
proof (induction cs rule: rev_induct)
  case (snoc c cs)
  then show ?case using add_capture_groups [of _ mt decode cs c] by simp
qed simp

definition gid :: "Proposal \<Rightarrow> string" where "gid g = group_id (pr_source g) (pr_key g)"

lemma add_capture_gid:
  "gid ` set (add_capture mt decode c gs) = insert (group_id (cp_source c) (Key (Sign mt decode (cp_sample c)))) (gid ` set gs)"
proof (cases "list_ex (\<lambda>g. group_id (pr_source g) (pr_key g) = group_id (cp_source c) (Key (Sign mt decode (cp_sample c)))) gs")
  case True
  have "map gid (add_capture mt decode c gs) = map gid gs" using True by (simp add: add_capture_def Let_def gid_def)
  then have "gid ` set (add_capture mt decode c gs) = gid ` set gs" by (metis list.set_map)
  moreover have "group_id (cp_source c) (Key (Sign mt decode (cp_sample c))) \<in> gid ` set gs"
    using True by (fastforce simp: list_ex_iff gid_def dest: sym)
  ultimately show ?thesis by blast
next
  case False
  then show ?thesis by (simp add: add_capture_def Let_def gid_def)
qed

lemma fold_gid: "gid ` set (fold (add_capture mt decode) cs gs) = gid ` set gs \<union> (\<lambda>c. group_id (cp_source c) (Key (Sign mt decode (cp_sample c)))) ` set cs"
  by (induction cs arbitrary: gs) (auto simp: add_capture_gid)

lemma Propose_parts:
  assumes "g \<in> set (Propose mt decode captures)"
  shows "group_of mt decode captures g"
    "\<exists>siblings. pr_rule g = separatingRule (pr_sig g) siblings
      \<and> (\<forall>h \<in> set (Propose mt decode captures). pr_source h = pr_source g \<and> pr_key h \<noteq> pr_key g \<longrightarrow> pr_sig h \<in> set siblings)"
proof -
  let ?gs = "sort_key (\<lambda>g. (pr_source g, - pr_count g)) (fold (add_capture mt decode) captures [])"
  let ?sib = "\<lambda>g. map pr_sig (filter (\<lambda>s. pr_source s = pr_source g \<and> group_id (pr_source s) (pr_key s) \<noteq> group_id (pr_source g) (pr_key g)) ?gs)"
  have all: "\<exists>h' \<in> set ?gs. h = h'\<lparr>pr_rule := separatingRule (pr_sig h') (?sib h')\<rparr>" if "h \<in> set (Propose mt decode captures)" for h
    using that by (auto simp: Propose_def Let_def)
  from all [OF assms] obtain g' where g': "g' \<in> set ?gs" "g = g'\<lparr>pr_rule := separatingRule (pr_sig g') (?sib g')\<rparr>" ..
  then show "group_of mt decode captures g" using fold_groups [of mt decode captures] by (auto simp: group_of_def)
  have "pr_sig h \<in> set (?sib g')" if h: "h \<in> set (Propose mt decode captures)" "pr_source h = pr_source g" "pr_key h \<noteq> pr_key g" for h
  proof -
    from all [OF h(1)] obtain h' where h': "h' \<in> set ?gs" "h = h'\<lparr>pr_rule := separatingRule (pr_sig h') (?sib h')\<rparr>" ..
    then have "pr_source h' = pr_source g'" "pr_key h' \<noteq> pr_key g'" "pr_sig h = pr_sig h'" using h(2,3) g'(2) by simp_all
    then show ?thesis using h'(1) by (auto simp: group_id_def)
  qed
  then show "\<exists>siblings. pr_rule g = separatingRule (pr_sig g) siblings
      \<and> (\<forall>h \<in> set (Propose mt decode captures). pr_source h = pr_source g \<and> pr_key h \<noteq> pr_key g \<longrightarrow> pr_sig h \<in> set siblings)"
    using g'(2) by (intro exI [of _ "?sib g'"]) auto
qed

lemma Propose_complete:
  assumes "c \<in> set captures"
  shows "\<exists>g \<in> set (Propose mt decode captures). group_id (pr_source g) (pr_key g) = group_id (cp_source c) (Key (Sign mt decode (cp_sample c)))"
proof -
  have "gid ` set (Propose mt decode captures) = gid ` set (fold (add_capture mt decode) captures [])"
    by (auto simp: Propose_def Let_def gid_def image_image)
  then have "group_id (cp_source c) (Key (Sign mt decode (cp_sample c))) \<in> gid ` set (Propose mt decode captures)"
    using assms by (simp add: fold_gid)
  then show ?thesis by (auto simp: gid_def)
qed


definition two_captures :: "Capture list" where
  "two_captures = [\<lparr>cp_id = ''1'', cp_source = ''s'', cp_sample = order_sample\<rparr>,
     \<lparr>cp_id = ''2'', cp_source = ''s'', cp_sample = \<lparr>sm_headers = [], sm_body = ''ping''\<rparr>\<rparr>]"

lemma two_signatures:
  "Sign no_mt toy_decode order_sample
    = \<lparr>sg_paths = [(''id'', ''number''), (''lines'', ''array''), (''lines[]'', ''object''), (''lines[].sku'', ''string'')], sg_headers = []\<rparr>"
  "Sign no_mt toy_decode \<lparr>sm_headers = [], sm_body = ''ping''\<rparr> = \<lparr>sg_paths = [(''id'', ''number'')], sg_headers = []\<rparr>"
  by (simp_all add: Sign_def toy_decode_def order_sample_def order_body_def child_path_def go_string_simps)


section \<open>Where signatures and proposals fall short\<close>

text \<open>The key of a signature does not determine it. A payload key may hold a line break, and the key
  does not escape it, so an event with the two fields \<open>a\<close> and \<open>b\<close> and one with a single oddly named
  field have the same key, and are proposed as one group of two, although their signatures differ.\<close>

definition odd_key :: string where
  "odd_key = ''a=string'' @ [CHR 0x0A] @ ''p:b''"

definition odd_decode :: "string \<Rightarrow> json option" where
  "odd_decode s = Some (if s = ''two'' then JObject [(''a'', JString ''x''), (''b'', JNumber ''1'')]
     else JObject [(odd_key, JNumber ''1'')])"

theorem Key_collides:
  "let two = \<lparr>sm_headers = [], sm_body = ''two''\<rparr>; odd = \<lparr>sm_headers = [], sm_body = ''odd''\<rparr>
   in dom (map_of (sg_paths (Sign no_mt odd_decode two))) \<noteq> dom (map_of (sg_paths (Sign no_mt odd_decode odd)))
      \<and> Key (Sign no_mt odd_decode two) = Key (Sign no_mt odd_decode odd)
      \<and> map pr_count (Propose no_mt odd_decode [\<lparr>cp_id = ''1'', cp_source = ''s'', cp_sample = two\<rparr>,
           \<lparr>cp_id = ''2'', cp_source = ''s'', cp_sample = odd\<rparr>]) = [2]"
proof -
  let ?two = "\<lparr>sm_headers = [], sm_body = ''two''\<rparr> :: Sample" and ?odd = "\<lparr>sm_headers = [], sm_body = ''odd''\<rparr> :: Sample"
  have two: "Sign no_mt odd_decode ?two = \<lparr>sg_paths = [(''a'', ''string''), (''b'', ''number'')], sg_headers = []\<rparr>"
    by (simp add: Sign_def odd_decode_def child_path_def go_string_simps)
  have odd: "Sign no_mt odd_decode ?odd = \<lparr>sg_paths = [(odd_key, ''number'')], sg_headers = []\<rparr>"
    by (simp add: Sign_def odd_decode_def child_path_def go_string_simps)
  have key: "Key (Sign no_mt odd_decode ?two) = Key (Sign no_mt odd_decode ?odd)"
    unfolding two odd by (simp add: Key_def sorted_keys_def odd_key_def)
  have ne: "dom (map_of (sg_paths (Sign no_mt odd_decode ?two))) \<noteq> dom (map_of (sg_paths (Sign no_mt odd_decode ?odd)))"
    unfolding two odd by (auto simp: odd_key_def)
  have "map pr_count (Propose no_mt odd_decode [\<lparr>cp_id = ''1'', cp_source = ''s'', cp_sample = ?two\<rparr>,
           \<lparr>cp_id = ''2'', cp_source = ''s'', cp_sample = ?odd\<rparr>]) = [2]"
    by (simp add: Propose_def Let_def add_capture_def key group_id_def)
  with key ne show ?thesis by (simp add: Let_def)
qed

text \<open>The rule proposed for events whose body is a list may match none of them. The signature writes
  the elements of a root list as \<open>[]\<close>, which no lookup finds, so a group of lists whose sibling lacks
  that path is proposed a rule its own sample fails.\<close>

theorem list_proposal_matches_nothing:
  "let lst = \<lparr>sm_headers = [], sm_body = ''list''\<rparr>; ping = \<lparr>sm_headers = [], sm_body = ''ping''\<rparr>;
       rule = separatingRule (Sign no_mt toy_decode lst) [Sign no_mt toy_decode ping]
   in er_payload rule = [present ''[]''] \<and> \<not> Matches no_mt toy_decode rule lst"
  by (simp add: Let_def separatingRule_def separate_from_def Sign_def toy_decode_def child_path_def headersSeparate_def
        rulePathsSeparate_def sorted_keys_def headerConditions_def Matches_def payloadHolds_def present_def lookup_def
        lookup_seg_def strip_arrays.simps has_suffix_def trim_suffix_def fan_out_def)

end
