(* ===== verification/Field_Mapping.thy ===== *)
theory Field_Mapping
  imports Event_Type_Lookup
begin

text \<open>
  Payload field mappings (\<open>domain/mapping/mapping.go\<close>): the check of a mapping before it is stored, the
  path grammar of a field, the walk of a payload, the resolution of every field with its failures, and
  the check against the schema of an event type. \<open>decode\<close> is the JSON decoder with exact numbers and
  \<open>parse_float\<close> the conversion of a number's text to a float64, by its bits, which fails out of range.
  The timestamps of a mapping are left out.
\<close>

section \<open>Fields and mappings\<close>

definition TypeAny :: string where [go_string_simps]: "TypeAny = ''any''"

definition ReasonMissing :: string where "ReasonMissing = ''missing''"
definition ReasonNull :: string where "ReasonNull = ''null''"
definition ReasonTypeMismatch :: string where "ReasonTypeMismatch = ''type_mismatch''"

record Field =
  f_name :: string
  f_path :: string
  f_type :: string
  f_required :: bool

record Mapping =
  m_id :: string
  m_name :: string
  m_source_hint :: string
  m_event_type :: string
  m_fields :: "Field list"
  m_match_count :: int

definition validTypes :: "string list" where
  "validTypes = [TypeString, TypeNumber, TypeBool, TypeObject, TypeArray, TypeAny]"

datatype mapping_error =
    MappingNameRequired
  | NoFields
  | FieldNameRequired nat
  | FieldPathRequired nat string
  | FieldTypeUnknown nat string string
  | DuplicateField nat string
  | PathNotInSchema string string
  | TypeNotInSchema string string string string

text \<open>The loop over the fields, with the names seen so far.\<close>

fun validate_fields :: "nat \<Rightarrow> string list \<Rightarrow> Field list \<Rightarrow> mapping_error option" where
  "validate_fields i seen [] = None"
| "validate_fields i seen (f # fs) =
    guard_err (blank (f_name f)) (FieldNameRequired i)
    (guard_err (blank (f_path f)) (FieldPathRequired i (f_name f))
    (guard_err (f_type f \<notin> set validTypes) (FieldTypeUnknown i (f_name f) (f_type f))
    (guard_err (f_name f \<in> set seen) (DuplicateField i (f_name f))
    (validate_fields (Suc i) (f_name f # seen) fs))))"

definition ValidateMapping :: "Mapping \<Rightarrow> mapping_error option" where
  "ValidateMapping m =
    guard_err (blank (m_name m)) MappingNameRequired
    (guard_err (m_fields m = []) NoFields
    (validate_fields 0 [] (m_fields m)))"

section \<open>Paths\<close>

record pathSegment =
  ps_key :: string
  ps_index :: int
  ps_invalid :: bool

definition key_seg :: "string \<Rightarrow> pathSegment" where
  "key_seg k = \<lparr>ps_key = k, ps_index = -1, ps_invalid = False\<rparr>"

definition index_seg :: "int \<Rightarrow> pathSegment" where
  "index_seg i = \<lparr>ps_key = [], ps_index = i, ps_invalid = False\<rparr>"

definition invalid_seg :: pathSegment where
  "invalid_seg = \<lparr>ps_key = [], ps_index = 0, ps_invalid = True\<rparr>"

text \<open>One part of the path between dots. \<open>closeIdx\<close> is searched from the bracket on.\<close>

function parse_part :: "string \<Rightarrow> pathSegment list" where
  "parse_part part = (case index_byte part CHR ''['' of
       None \<Rightarrow> (if part \<noteq> [] then [key_seg part] else [])
     | Some open_at \<Rightarrow>
         (if open_at > 0 then [key_seg (take open_at part)] else [])
         @ (case index_byte (drop open_at part) CHR '']'' of
              None \<Rightarrow> [invalid_seg]
            | Some n \<Rightarrow>
                (let close_at = n + open_at; rest = drop (close_at + 1) part in
                 (case atoi (take (close_at - (open_at + 1)) (drop (open_at + 1) part)) of
                    None \<Rightarrow> invalid_seg | Some idx \<Rightarrow> index_seg idx)
                 # (if rest = [] then [] else parse_part rest))))"
  by pat_completeness auto
termination
  by (relation "measure length") (auto simp: index_byte_Some)

declare parse_part.simps [simp del]

definition parsePath :: "string \<Rightarrow> pathSegment list" where
  "parsePath path = concat (map (\<lambda>part. if part = [] then [] else parse_part part) (split_byte CHR ''.'' path))"

fun walk :: "json \<Rightarrow> pathSegment list \<Rightarrow> json option" where
  "walk cur [] = Some cur"
| "walk cur (seg # segs) =
    (if ps_invalid seg then None
     else if cur = JNull then None
     else if ps_index seg \<ge> 0 then
       (case cur of
          JArray arr \<Rightarrow> if nat (ps_index seg) \<ge> length arr then None else walk (arr ! nat (ps_index seg)) segs
        | _ \<Rightarrow> None)
     else
       (case cur of
          JObject obj \<Rightarrow> (case map_of obj (ps_key seg) of None \<Rightarrow> None | Some v \<Rightarrow> walk v segs)
        | _ \<Rightarrow> None))"

section \<open>Resolution\<close>

record Failure =
  fl_field :: string
  fl_path :: string
  fl_reason :: string

fun typeMatches :: "json \<Rightarrow> string \<Rightarrow> bool" where
  "typeMatches v want \<longleftrightarrow> want = TypeAny \<or>
    (case v of
       JString _ \<Rightarrow> want = TypeString
     | JNumber _ \<Rightarrow> want = TypeNumber
     | JBool _ \<Rightarrow> want = TypeBool
     | JObject _ \<Rightarrow> want = TypeObject
     | JArray _ \<Rightarrow> want = TypeArray
     | _ \<Rightarrow> False)"

declare typeMatches.simps [simp del]

fun normalize :: "(string \<Rightarrow> int option) \<Rightarrow> json \<Rightarrow> json" where
  "normalize parse_float (JNumber n) = (case parse_float n of None \<Rightarrow> JString n | Some x \<Rightarrow> JFloat x)"
| "normalize parse_float v = v"

definition failed :: "Field \<Rightarrow> string \<Rightarrow> Failure" where
  "failed f reason = \<lparr>fl_field = f_name f, fl_path = f_path f, fl_reason = reason\<rparr>"

definition resolve_field ::
    "(string \<Rightarrow> int option) \<Rightarrow> json \<Rightarrow> Field \<Rightarrow> json gomap \<times> Failure list \<Rightarrow> json gomap \<times> Failure list" where
  "resolve_field parse_float root f acc = (case acc of (values, failures) \<Rightarrow>
    (case walk root (parsePath (f_path f)) of
       None \<Rightarrow> (values, if f_required f then failures @ [failed f ReasonMissing] else failures)
     | Some v \<Rightarrow>
         if v = JNull then (values, failures @ [failed f ReasonNull])
         else if \<not> typeMatches v (f_type f) then (values, failures @ [failed f ReasonTypeMismatch])
         else (map_put (f_name f) (normalize parse_float v) values, failures)))"

definition Resolve ::
    "(string \<Rightarrow> json option) \<Rightarrow> (string \<Rightarrow> int option) \<Rightarrow> Field list \<Rightarrow> string \<Rightarrow> json gomap \<times> Failure list" where
  "Resolve decode parse_float fs payload = (case decode payload of
     None \<Rightarrow> ([], map (\<lambda>f. failed f ReasonMissing) fs)
   | Some root \<Rightarrow> fold (resolve_field parse_float root) fs ([], []))"

section \<open>The schema check\<close>

fun schema_from :: "string \<Rightarrow> pathSegment list \<Rightarrow> string" where
  "schema_from b [] = b"
| "schema_from b (seg # segs) =
    (if ps_invalid seg then []
     else if ps_index seg \<ge> 0 then schema_from (b @ ''[]'') segs
     else schema_from ((if b \<noteq> [] then b @ ''.'' else b) @ ps_key seg) segs)"

definition schemaPath :: "string \<Rightarrow> string" where
  "schemaPath path = schema_from [] (parsePath path)"

definition CheckSchema :: "Field list \<Rightarrow> string gomap \<Rightarrow> mapping_error option" where
  "CheckSchema fs schema = first_error (\<lambda>f.
     case map_of schema (schemaPath (f_path f)) of
       None \<Rightarrow> Some (PathNotInSchema (f_name f) (f_path f))
     | Some got \<Rightarrow>
         guard_err (f_type f \<noteq> TypeAny \<and> got \<noteq> TypeNull \<and> got \<noteq> f_type f)
           (TypeNotInSchema (f_name f) (f_path f) got (f_type f)) None) fs"

end
