(* ===== verification/Field_Mapping_Spec.thy ===== *)
theory Field_Mapping_Spec
  imports Field_Mapping
begin

text \<open>
  What a field mapping promises: every field resolves or fails on its own, the resolved values have the
  declared types, and a mapping that fits an event type's schema resolves on the example the schema
  was taken from.
\<close>

section \<open>Resolution, field by field\<close>

definition field_value :: "(string \<Rightarrow> int option) \<Rightarrow> json \<Rightarrow> Field \<Rightarrow> json option" where
  "field_value parse_float root f = (case walk root (parsePath (f_path f)) of
     None \<Rightarrow> None
   | Some v \<Rightarrow> if v \<noteq> JNull \<and> typeMatches v (f_type f) then Some (normalize parse_float v) else None)"

definition field_reasons :: "json \<Rightarrow> Field \<Rightarrow> string list" where
  "field_reasons root f = (case walk root (parsePath (f_path f)) of
     None \<Rightarrow> if f_required f then [ReasonMissing] else []
   | Some v \<Rightarrow> if v = JNull then [ReasonNull] else if \<not> typeMatches v (f_type f) then [ReasonTypeMismatch] else [])"

lemma resolve_field_alt:
  "resolve_field pf root f (vs, fl) =
    ((case field_value pf root f of None \<Rightarrow> vs | Some v \<Rightarrow> map_put (f_name f) v vs),
     fl @ map (failed f) (field_reasons root f))"
  by (simp add: resolve_field_def field_value_def field_reasons_def split: option.splits)

lemma fold_resolve_failures:
  "snd (fold (resolve_field pf root) fs (vs, fl)) = fl @ concat (map (\<lambda>f. map (failed f) (field_reasons root f)) fs)"
proof (induction fs arbitrary: vs fl)
  case (Cons f fs)
  then show ?case by (simp add: resolve_field_alt)
qed simp

lemma fold_resolve_values:
  "distinct (map f_name fs) \<Longrightarrow>
   map_of (fst (fold (resolve_field pf root) fs (vs, fl))) n =
     (case find (\<lambda>f. f_name f = n) fs of
        None \<Rightarrow> map_of vs n
      | Some f \<Rightarrow> (case field_value pf root f of None \<Rightarrow> map_of vs n | Some v \<Rightarrow> Some v))"
proof (induction fs arbitrary: vs fl)
  case (Cons f fs)
  have "find (\<lambda>g. f_name g = f_name f) fs = None"
    using Cons.prems by (simp add: find_None_iff) (metis image_eqI)
  then show ?case using Cons by (cases "f_name f = n") (auto simp: resolve_field_alt split: option.splits)
qed simp

lemma find_distinct_name:
  "distinct (map f_name fs) \<Longrightarrow> f \<in> set fs \<Longrightarrow> find (\<lambda>g. f_name g = f_name f) fs = Some f"
  by (induction fs) (auto simp: image_iff)

lemma reasons_of_field:
  "distinct (map f_name fs) \<Longrightarrow> f \<in> set fs \<Longrightarrow>
   map fl_reason (filter (\<lambda>x. fl_field x = f_name f) (concat (map (\<lambda>f. map (failed f) (R f)) fs))) = R f"
proof (induction fs)
  case (Cons g fs)
  have other: "filter (\<lambda>x. fl_field x = n) (concat (map (\<lambda>f. map (failed f) (R f)) gs)) = []"
    if "n \<notin> f_name ` set gs" for gs n using that by (induction gs) (auto simp: failed_def filter_empty_conv)
  have own: "map fl_reason (filter (\<lambda>x. fl_field x = f_name h) (map (failed h) rs)) = rs" for h rs
    by (induction rs) (auto simp: failed_def)
  have miss: "filter (\<lambda>x. fl_field x = f_name f) (map (failed g) rs) = []" if "f_name g \<noteq> f_name f" for rs
    using that by (induction rs) (auto simp: failed_def)
  show ?case
  proof (cases "f = g")
    case True
    then show ?thesis using Cons.prems own [of g] other [of "f_name g" fs] by simp
  next
    case False
    then have "f_name g \<noteq> f_name f" using Cons.prems by auto
    then show ?thesis using False Cons miss by simp
  qed
qed simp

lemma validate_fields_distinct:
  "validate_fields i seen fs = None \<Longrightarrow> distinct (map f_name fs) \<and> f_name ` set fs \<inter> set seen = {}"
  by (induction i seen fs rule: validate_fields.induct) auto

lemma validate_fields_types:
  "validate_fields i seen fs = None \<Longrightarrow> f \<in> set fs \<Longrightarrow> f_type f \<in> set validTypes \<and> \<not> blank (f_path f)"
  by (induction i seen fs rule: validate_fields.induct) auto

lemma ValidateMapping_distinct: "ValidateMapping m = None \<Longrightarrow> distinct (map f_name (m_fields m))"
  using validate_fields_distinct by (auto simp: ValidateMapping_def)

lemma Resolve_values:
  assumes "distinct (map f_name fs)" and "decode payload = Some root"
  shows "map_of (fst (Resolve decode pf fs payload)) n =
    (case find (\<lambda>f. f_name f = n) fs of None \<Rightarrow> None | Some f \<Rightarrow> field_value pf root f)"
  using assms by (auto simp: Resolve_def fold_resolve_values split: option.splits)

lemma Resolve_failures:
  assumes "decode payload = Some root"
  shows "snd (Resolve decode pf fs payload) = concat (map (\<lambda>f. map (failed f) (field_reasons root f)) fs)"
  using assms by (simp add: Resolve_def fold_resolve_failures)


definition pair_mapping :: Mapping where
  "pair_mapping = \<lparr>m_id = ''m'', m_name = ''pair'', m_source_hint = [], m_event_type = ''t'',
     m_fields = [\<lparr>f_name = ''id'', f_path = ''a[1].id'', f_type = TypeString, f_required = True\<rparr>,
                 \<lparr>f_name = ''n'', f_path = ''n'', f_type = TypeString, f_required = False\<rparr>], m_match_count = 0\<rparr>"

definition pair_payload :: json where
  "pair_payload = JObject [(''a'', JArray [JNull, JObject [(''id'', JString ''x'')]]), (''n'', JNumber ''7'')]"

lemma pair_mapping_valid: "ValidateMapping pair_mapping = None"
  by (simp add: ValidateMapping_def pair_mapping_def not_blank_visible ascii_visible_def byte_of_def validTypes_def)


section \<open>A mapping that fits the schema\<close>

text \<open>A value as the decoder gives it: its numbers are texts.\<close>

fun exact_numbers :: "json \<Rightarrow> bool" where
  "exact_numbers (JFloat _) \<longleftrightarrow> False"
| "exact_numbers (JObject fs) \<longleftrightarrow> (\<forall>x\<in>set fs. exact_numbers (snd x))"
| "exact_numbers (JArray vs) \<longleftrightarrow> (\<forall>v\<in>set vs. exact_numbers v)"
| "exact_numbers _ \<longleftrightarrow> True"

lemma set_child_path: "set pre \<subseteq> set (foldl child_path pre ks)"
  by (induction ks arbitrary: pre) (fastforce simp: child_path_def)+

lemma walk_key: "walk v (key_seg k # segs) = (case v of JObject fs \<Rightarrow> (case map_of fs k of None \<Rightarrow> None | Some c \<Rightarrow> walk c segs) | _ \<Rightarrow> None)"
  by (cases v) (simp_all add: key_seg_def)

definition reached :: "json \<Rightarrow> string \<Rightarrow> string \<Rightarrow> string \<Rightarrow> bool" where
  "reached v pre q ty \<longleftrightarrow> (\<exists>ks w. ks \<noteq> [] \<and> q = foldl child_path pre ks \<and> (\<forall>k\<in>set ks. plain_key k)
     \<and> walk v (map key_seg ks) = Some w \<and> valueType w = ty \<and> exact_numbers w)"

lemma reached_bracket: "reached v pre q ty \<Longrightarrow> set pre \<subseteq> set q"
  using set_child_path by (auto simp: reached_def)

lemma reached_here:
  assumes "map_of fs k = Some c" and "plain_key k" and "exact_numbers c"
  shows "reached (JObject fs) pre (child_path pre k) (valueType c)"
proof -
  have "walk (JObject fs) (map key_seg [k]) = Some c" using assms by (simp add: walk_key del: walk.simps(2))
  with assms show ?thesis unfolding reached_def by (intro exI [of _ "[k]"] exI [of _ c]) auto
qed

lemma reached_below:
  assumes "map_of fs k = Some c" and "plain_key k" and "reached c (child_path pre k) q ty"
  shows "reached (JObject fs) pre q ty"
proof -
  from assms(3) obtain ks w where ks: "q = foldl child_path (child_path pre k) ks" "\<forall>k\<in>set ks. plain_key k"
    "walk c (map key_seg ks) = Some w" "valueType w = ty" "exact_numbers w" by (auto simp: reached_def)
  have "walk (JObject fs) (map key_seg (k # ks)) = Some w" using assms(1) ks(3) by (simp add: walk_key del: walk.simps(2))
  with ks assms(2) show ?thesis unfolding reached_def by (intro exI [of _ "k # ks"] exI [of _ w]) auto
qed

lemma reached_later:
  assumes "reached (JObject fs) pre q ty" and "key \<notin> fst ` set fs"
  shows "reached (JObject ((key, c) # fs)) pre q ty"
proof -
  from assms(1) obtain ks w where ks: "ks \<noteq> []" "q = foldl child_path pre ks" "\<forall>k\<in>set ks. plain_key k"
    "walk (JObject fs) (map key_seg ks) = Some w" "valueType w = ty" "exact_numbers w" by (auto simp: reached_def)
  then obtain k ks' where k: "ks = k # ks'" by (cases ks) auto
  with ks(4) have "map_of fs k \<noteq> None" by (auto simp: walk_key simp del: walk.simps(2) split: option.splits)
  with assms(2) have "k \<noteq> key" by (auto simp: map_of_eq_None_iff)
  with ks(4) k have "walk (JObject ((key, c) # fs)) (map key_seg ks) = Some w" by (simp add: walk_key del: walk.simps(2))
  with ks show ?thesis unfolding reached_def by blast
qed

lemma collected_reaches:
  assumes "CHR ''['' \<notin> set q"
  shows "map_of (collectPaths v pre out) q = Some ty \<Longrightarrow> plain v \<Longrightarrow> exact_numbers v \<Longrightarrow>
      map_of out q = Some ty \<or> reached v pre q ty"
    and "map_of (collectFields fs pre out) q = Some ty \<Longrightarrow> plain (JObject fs) \<Longrightarrow> exact_numbers (JObject fs) \<Longrightarrow>
      map_of out q = Some ty \<or> reached (JObject fs) pre q ty"
    and "map_of (collectElems vs pre out) q = Some ty \<Longrightarrow> plain (JArray vs) \<Longrightarrow> exact_numbers (JArray vs) \<Longrightarrow>
      map_of out q = Some ty"
proof (induction v pre out and fs pre out and vs pre out rule: collectPaths_collectFields_collectElems.induct)
  case (5 key child fs pre out)
  let ?c = "child_path pre key" and ?fs = "(key, child) # fs"
  have key: "key \<notin> fst ` set fs" "plain_key key" "plain child" "plain (JObject fs)" "exact_numbers child" "exact_numbers (JObject fs)"
    using 5(4,5) by auto
  consider "map_of (collectPaths child ?c (map_put ?c (valueType child) out)) q = Some ty" | "reached (JObject fs) pre q ty"
    using 5(2) [OF _ key(4,6)] 5(3) by auto
  then show ?case
  proof cases
    case 1
    then have "q = ?c \<and> ty = valueType child \<or> map_of out q = Some ty \<or> reached child ?c q ty"
      using 5(1) [OF 1 key(3,5)] by (auto split: if_splits)
    then show ?thesis using reached_here [of ?fs key child pre] reached_below [of ?fs key child pre] key by auto
  next
    case 2
    then show ?thesis using reached_later key(1) by blast
  qed
next
  case (7 child vs pre out)
  let ?c = "pre @ ''[]''"
  have "map_of (collectPaths child ?c (map_put ?c (valueType child) out)) q = Some ty"
    using 7(2) 7(3-5) by auto
  then have "map_of (map_put ?c (valueType child) out) q = Some ty \<or> reached child ?c q ty"
    using 7(1) 7(4,5) by auto
  moreover have "\<not> reached child ?c q ty" using reached_bracket [of child ?c q ty] assms by auto
  ultimately show ?case using assms by (auto split: if_splits)
qed auto

lemma split_byte_append2: "split_byte c (a @ c # b) = split_byte c a @ split_byte c b"
  by (induction a) (auto split: list.splits)

lemma split_foldl:
  "pre \<noteq> [] \<Longrightarrow> \<forall>k\<in>set ks. k \<noteq> [] \<and> CHR ''.'' \<notin> set k \<Longrightarrow>
   split_byte CHR ''.'' (foldl child_path pre ks) = split_byte CHR ''.'' pre @ ks"
  by (induction ks arbitrary: pre) (auto simp: child_path_def split_byte_append2 split_byte_absent)

lemma split_join_keys:
  assumes "\<forall>k\<in>set ks. k \<noteq> [] \<and> CHR ''.'' \<notin> set k" and "ks \<noteq> []"
  shows "split_byte CHR ''.'' (foldl child_path [] ks) = ks \<and> foldl child_path [] ks \<noteq> []"
proof -
  obtain k ks' where k: "ks = k # ks'" using assms(2) by (cases ks) auto
  have "set k \<subseteq> set (foldl child_path k ks')" by (rule set_child_path)
  moreover have "k \<noteq> []" using assms(1) k by simp
  ultimately have "foldl child_path k ks' \<noteq> []" by auto
  then show ?thesis using assms(1) k by (simp add: split_foldl split_byte_absent child_path_def [of "[]"])
qed

lemma schema_from_keys: "schema_from b (map key_seg ks) = foldl child_path b ks"
  by (induction ks arbitrary: b) (simp_all add: key_seg_def child_path_def)

lemma parsePath_keys:
  assumes "CHR ''['' \<notin> set p"
  obtains ks where "parsePath p = map key_seg ks" "\<forall>k\<in>set ks. k \<noteq> [] \<and> CHR ''.'' \<notin> set k \<and> CHR ''['' \<notin> set k"
proof
  let ?ks = "filter (\<lambda>q. q \<noteq> []) (split_byte CHR ''.'' p)"
  have part: "set q \<subseteq> set p" if "q \<in> set (split_byte CHR ''.'' p)" for q
    using that by (induction p arbitrary: q) (auto split: list.splits if_splits, blast)
  have "parse_part q = [key_seg q]" if "q \<in> set (split_byte CHR ''.'' p)" "q \<noteq> []" for q
  proof -
    have "index_byte q CHR ''['' = None" using part [OF that(1)] assms by (auto simp: index_byte_None)
    then show ?thesis using that by (subst parse_part.simps) simp
  qed
  then have "concat (map (\<lambda>part. if part = [] then [] else parse_part part) qs) = map key_seg (filter (\<lambda>q. q \<noteq> []) qs)"
    if "set qs \<subseteq> set (split_byte CHR ''.'' p)" for qs using that by (induction qs) auto
  then show "parsePath p = map key_seg ?ks" by (simp add: parsePath_def)
  show "\<forall>k\<in>set ?ks. k \<noteq> [] \<and> CHR ''.'' \<notin> set k \<and> CHR ''['' \<notin> set k"
    using split_byte_parts part assms by fastforce
qed

lemma child_path_chars: "set (foldl child_path pre ks) \<subseteq> set pre \<union> {CHR ''.''} \<union> (\<Union>k\<in>set ks. set k)"
proof (induction ks arbitrary: pre)
  case (Cons k ks)
  have "set (child_path pre k) \<subseteq> set pre \<union> {CHR ''.''} \<union> set k" by (auto simp: child_path_def)
  with Cons [of "child_path pre k"] show ?case by auto
qed auto

text \<open>The schema of a plain payload tells what a path without indices finds in it.\<close>

lemma schema_walk:
  assumes "plain root" and "exact_numbers root" and "CHR ''['' \<notin> set p"
    and "map_of (collectPaths root [] []) (schemaPath p) = Some ty"
  obtains v where "walk root (parsePath p) = Some v" "valueType v = ty" "exact_numbers v"
proof -
  obtain ls where ls: "parsePath p = map key_seg ls" "\<forall>k\<in>set ls. k \<noteq> [] \<and> CHR ''.'' \<notin> set k \<and> CHR ''['' \<notin> set k"
    using parsePath_keys [OF assms(3)] by blast
  have q: "schemaPath p = foldl child_path [] ls" by (simp add: schemaPath_def ls(1) schema_from_keys)
  have "CHR ''['' \<notin> set (schemaPath p)" using child_path_chars [of "[]" ls] ls(2) by (auto simp: q)
  from collected_reaches(1) [OF this assms(4,1,2)] obtain ks w where ks: "ks \<noteq> []" "schemaPath p = foldl child_path [] ks"
    "\<forall>k\<in>set ks. plain_key k" "walk root (map key_seg ks) = Some w" "valueType w = ty" "exact_numbers w"
    by (auto simp: reached_def)
  have k: "split_byte CHR ''.'' (schemaPath p) = ks \<and> schemaPath p \<noteq> []"
    using split_join_keys [of ks] ks(1-3) by (auto simp: plain_key_def)
  moreover have "ls \<noteq> []" using k q by auto
  then have "split_byte CHR ''.'' (schemaPath p) = ls" using split_join_keys [of ls] ls(2) q by auto
  ultimately show ?thesis using that ks ls(1) by auto
qed

lemma valueType_matches:
  "v \<noteq> JNull \<Longrightarrow> exact_numbers v \<Longrightarrow> typeMatches v want \<longleftrightarrow> want = TypeAny \<or> valueType v = want"
  by (cases v) (auto simp: typeMatches.simps)

lemma valueType_null: "exact_numbers v \<Longrightarrow> valueType v = TypeNull \<longleftrightarrow> v = JNull"
  by (cases v) (auto simp: go_string_simps)

text \<open>A mapping that passes the schema check works on the event its event type was made from. For a
  mapping whose paths name no array element and an example whose keys are plain, no field is missing
  and none has the wrong type: a field can fail only because the example held null there, and every
  other field has a value.\<close>

theorem CheckSchema_resolves_example:
  assumes "ValidateMapping m = None" and "decode (sm_body s) = Some root" and "plain root" and "exact_numbers root"
    and "CheckSchema (m_fields m) (et_schema (FromExample mt decode source name s)) = None"
    and "\<forall>f\<in>set (m_fields m). CHR ''['' \<notin> set (f_path f)"
  shows "(\<forall>x\<in>set (snd (Resolve decode pf (m_fields m) (sm_body s))). fl_reason x = ReasonNull)
    \<and> (\<forall>f\<in>set (m_fields m). walk root (parsePath (f_path f)) \<noteq> Some JNull \<longrightarrow>
        map_of (fst (Resolve decode pf (m_fields m) (sm_body s))) (f_name f) \<noteq> None)"
proof -
  note dist = ValidateMapping_distinct [OF assms(1)]
  have fit: "\<exists>v. walk root (parsePath (f_path f)) = Some v \<and> (v = JNull \<or> typeMatches v (f_type f))"
    if f: "f \<in> set (m_fields m)" for f
  proof -
    obtain ty where ty: "map_of (collectPaths root [] []) (schemaPath (f_path f)) = Some ty"
      "f_type f = TypeAny \<or> ty = TypeNull \<or> ty = f_type f"
      using assms(5) f by (auto simp: CheckSchema_def FromExample_def Sign_def assms(2) Let_def split: option.splits)
    obtain v where v: "walk root (parsePath (f_path f)) = Some v" "valueType v = ty" "exact_numbers v"
      using schema_walk [OF assms(3,4) _ ty(1)] assms(6) f by blast
    then show ?thesis using ty(2) valueType_matches [of v] valueType_null [of v] by auto
  qed
  have "fl_reason x = ReasonNull" if "x \<in> set (snd (Resolve decode pf (m_fields m) (sm_body s)))" for x
    using that fit by (fastforce simp: Resolve_failures [where decode = decode, OF assms(2)] field_reasons_def failed_def
        split: option.splits if_splits)
  moreover have "map_of (fst (Resolve decode pf (m_fields m) (sm_body s))) (f_name f) \<noteq> None"
    if "f \<in> set (m_fields m)" "walk root (parsePath (f_path f)) \<noteq> Some JNull" for f
    using fit [OF that(1)] that
    by (auto simp: Resolve_values [where decode = decode, OF dist assms(2)] find_distinct_name [OF dist] field_value_def)
  ultimately show ?thesis by blast
qed

definition flat_mapping :: Mapping where
  "flat_mapping = pair_mapping\<lparr>m_fields := [\<lparr>f_name = ''id'', f_path = ''a.id'', f_type = TypeString, f_required = True\<rparr>]\<rparr>"

definition flat_payload :: json where
  "flat_payload = JObject [(''a'', JObject [(''id'', JString ''x'')])]"

definition flat_sample :: Sample where
  "flat_sample = \<lparr>sm_headers = [], sm_body = []\<rparr>"

theorem CheckSchema_resolves_example_witness:
  "map_of (fst (Resolve (\<lambda>_. Some flat_payload) (\<lambda>_. None) (m_fields flat_mapping) (sm_body flat_sample))) ''id'' \<noteq> None"
proof -
  let ?dec = "\<lambda>_ :: string. Some flat_payload"
  have p: "parsePath ''a.id'' = [key_seg ''a'', key_seg ''id'']" by (simp add: parsePath_def parse_part.simps)
  have valid: "ValidateMapping flat_mapping = None"
    by (simp add: ValidateMapping_def flat_mapping_def pair_mapping_def not_blank_visible ascii_visible_def byte_of_def validTypes_def)
  have root: "plain flat_payload" "exact_numbers flat_payload" by (simp_all add: flat_payload_def plain_key_def has_suffix_def)
  have fits: "CheckSchema (m_fields flat_mapping) (et_schema (FromExample (\<lambda>_. None) ?dec ''s'' ''t'' flat_sample)) = None"
    by (simp add: CheckSchema_def flat_mapping_def schemaPath_def p key_seg_def FromExample_def Sign_def flat_payload_def
        child_path_def Let_def)
  show ?thesis
    using CheckSchema_resolves_example [OF valid _ root fits, of "\<lambda>_. None"]
    by (simp add: flat_mapping_def p flat_payload_def key_seg_def)
qed

end
