(* ===== verification/Go_Float.thy ===== *)
theory Go_Float
  imports Complex_Main "HOL-Library.Log_Nat"
begin

text \<open>
  Go's \<open>float64\<close> on finite values: a number is the rational it stands for, and every operation is the exact
  result rounded to 53 significant bits, ties to even, with the grid of the subnormal numbers below
  \<open>2 ^ -1022\<close>. Numbers of \<open>2 ^ 1024\<close> and above, which are infinite in Go, keep their value here. The
  lemmas bound the error of a rounding.
\<close>

section \<open>Rounding\<close>

text \<open>The exponent of the leading bit.\<close>

definition exponent :: "rat \<Rightarrow> int" where
  "exponent x =
    (case quotient_of \<bar>x\<bar> of (n, d) \<Rightarrow>
       (let k = bitlen n - bitlen d
        in if of_int d * 2 powi k \<le> (of_int n :: rat) then k else k - 1))"

definition round_even :: "rat \<Rightarrow> int" where
  "round_even y =
    (let f = \<lfloor>y\<rfloor>; r = y - of_int f
     in if r < 1 / 2 \<or> r = 1 / 2 \<and> even f then f else f + 1)"

definition quantum :: "rat \<Rightarrow> int" where
  "quantum x = max (exponent x - 52) (- 1074)"

definition f64 :: "rat \<Rightarrow> rat" where
  "f64 x = (if x = 0 then 0 else of_int (round_even (x / 2 powi quantum x)) * 2 powi quantum x)"

section \<open>The error of a rounding\<close>

lemma floorlog_bounds:
  assumes "0 < n"
  shows "2 powi (int (floorlog 2 n) - 1) \<le> (of_nat n :: rat)" "(of_nat n :: rat) < 2 powi int (floorlog 2 n)"
proof -
  have b: "2 ^ (floorlog 2 n - 1) \<le> n" "n < 2 ^ floorlog 2 n" using floorlog_bounds [of n 2] assms by simp_all
  have "0 < floorlog 2 n" using floorlog_eq_zero_iff [of 2 n] assms by simp
  then have "(2 :: rat) powi (int (floorlog 2 n) - 1) = of_nat (2 ^ (floorlog 2 n - 1))"
    by (simp add: power_int_def nat_diff_distrib)
  with b(1) show "2 powi (int (floorlog 2 n) - 1) \<le> (of_nat n :: rat)" by (simp only: of_nat_le_iff)
  have "(2 :: rat) powi int (floorlog 2 n) = of_nat (2 ^ floorlog 2 n)" by simp
  with b(2) show "(of_nat n :: rat) < 2 powi int (floorlog 2 n)" by (simp only: of_nat_less_iff)
qed

lemma exponent_bounds:
  assumes "x \<noteq> 0"
  shows "2 powi exponent x \<le> \<bar>x\<bar>" "\<bar>x\<bar> < 2 powi (exponent x + 1)"
proof -
  obtain n d where q: "quotient_of \<bar>x\<bar> = (n, d)" by fastforce
  have d: "0 < d" and x: "\<bar>x\<bar> = of_int n / of_int d" using quotient_of_denom_pos [OF q] quotient_of_div [OF q] by simp_all
  have "0 < (of_int n :: rat)" using d x assms zero_less_abs_iff [of x] by (simp add: zero_less_divide_iff)
  then have n: "0 < n" by simp
  define a b where "a = int (floorlog 2 (nat n))" and "b = int (floorlog 2 (nat d))"
  have na: "2 powi (a - 1) \<le> (of_int n :: rat)" "(of_int n :: rat) < 2 powi a"
    using floorlog_bounds [of "nat n"] n by (simp_all add: a_def)
  have db: "2 powi (b - 1) \<le> (of_int d :: rat)" "(of_int d :: rat) < 2 powi b"
    using floorlog_bounds [of "nat d"] d by (simp_all add: b_def)
  have dpos: "0 < (of_int d :: rat)" using d by simp
  have e: "exponent x = (if of_int d * 2 powi (a - b) \<le> (of_int n :: rat) then a - b else a - b - 1)"
    by (simp add: exponent_def q a_def b_def bitlen_def Let_def)
  have low: "of_int d * 2 powi (a - b - 1) \<le> (of_int n :: rat)"
  proof -
    have "of_int d * 2 powi (a - b - 1) \<le> 2 powi b * (2 powi (a - b - 1) :: rat)" using db(2) by (intro mult_right_mono) simp_all
    also have "\<dots> = 2 powi (a - 1)" by (simp flip: power_int_add)
    finally show ?thesis using na(1) by simp
  qed
  have high: "(of_int n :: rat) < of_int d * 2 powi (a - b + 1)"
  proof -
    have "(2 powi a :: rat) = 2 powi (b - 1) * 2 powi (a - b + 1)" by (simp flip: power_int_add)
    also have "\<dots> \<le> of_int d * 2 powi (a - b + 1)" using db(1) by (intro mult_right_mono) simp_all
    finally show ?thesis using na(2) by simp
  qed
  show "2 powi exponent x \<le> \<bar>x\<bar>"
    using low dpos unfolding x e by (simp add: pos_le_divide_eq mult.commute)
  show "\<bar>x\<bar> < 2 powi (exponent x + 1)"
    using high dpos unfolding x e by (simp add: pos_divide_less_eq mult.commute)
qed

lemma round_even_near: "\<bar>of_int (round_even y) - y\<bar> \<le> 1 / 2"
  unfolding round_even_def Let_def using floor_correct [of y] by (auto simp: abs_le_iff)

lemma round_even_floor: "\<lfloor>y\<rfloor> \<le> round_even y"
  by (simp add: round_even_def Let_def)

lemma round_even_int [simp]: "round_even (of_int n) = n"
  by (simp add: round_even_def)

lemma f64_near: "\<bar>f64 x - x\<bar> \<le> 2 powi quantum x / 2"
proof (cases "x = 0")
  case False
  let ?p = "2 powi quantum x :: rat"
  have "f64 x - x = (of_int (round_even (x / ?p)) - x / ?p) * ?p" using False by (simp add: f64_def field_simps)
  then have "\<bar>f64 x - x\<bar> = \<bar>of_int (round_even (x / ?p)) - x / ?p\<bar> * ?p" by (simp add: abs_mult)
  also have "\<dots> \<le> 1 / 2 * ?p" by (intro mult_right_mono round_even_near) simp
  finally show ?thesis by simp
qed (simp add: f64_def)

text \<open>The relative error is at most \<open>ulp\<close>; below the normal numbers the absolute error is at most \<open>subnormal\<close>.\<close>

definition ulp :: rat where "ulp = 1 / 2 ^ 53"

definition subnormal :: rat where "subnormal = 2 powi (- 1075)"

lemma f64_error: "\<bar>f64 x - x\<bar> \<le> ulp * \<bar>x\<bar> + subnormal"
proof (cases "x = 0")
  case False
  have p: "(2 powi (exponent x - 52) :: rat) / 2 = ulp * 2 powi exponent x"
    by (simp add: ulp_def power_int_diff field_simps power_int_numeral)
  have "(2 powi quantum x :: rat) / 2 \<le> ulp * \<bar>x\<bar> + subnormal"
  proof (cases "exponent x - 52 \<le> - 1074")
    case True
    then have "(2 powi quantum x :: rat) / 2 = subnormal" by (simp add: quantum_def subnormal_def power_int_minus)
    then show ?thesis by (simp add: ulp_def)
  next
    case False
    then have "(2 powi quantum x :: rat) / 2 = ulp * 2 powi exponent x" using p by (simp add: quantum_def)
    also have "\<dots> \<le> ulp * \<bar>x\<bar>" using exponent_bounds(1) [OF \<open>x \<noteq> 0\<close>] by (intro mult_left_mono) (simp_all add: ulp_def)
    finally show ?thesis by (simp add: subnormal_def)
  qed
  then show ?thesis using f64_near [of x] by simp
qed (simp add: f64_def subnormal_def)

lemma f64_error_normal:
  assumes "2 powi (- 1022) \<le> \<bar>x\<bar>"
  shows "\<bar>f64 x - x\<bar> \<le> ulp * \<bar>x\<bar>"
proof -
  have x: "x \<noteq> 0" using assms by auto
  have "(2 powi (- 1022) :: rat) < 2 powi (exponent x + 1)" using assms exponent_bounds(2) [OF x] by (rule le_less_trans)
  then have "- 1022 < exponent x + 1"
    using power_int_increasing [of "exponent x + 1" "- 1022" "2 :: rat"] by (meson leD leI one_le_numeral)
  then have "(2 powi quantum x :: rat) / 2 = ulp * 2 powi exponent x"
    by (simp add: quantum_def ulp_def power_int_diff field_simps power_int_numeral)
  also have "\<dots> \<le> ulp * \<bar>x\<bar>" using exponent_bounds(1) [OF x] by (intro mult_left_mono) (simp_all add: ulp_def)
  finally show ?thesis using f64_near [of x] by simp
qed

lemma f64_normal:
  assumes "x = 0 \<or> 2 powi (- 1022) \<le> x"
  shows "f64 x \<le> (1 + ulp) * x" "(1 - ulp) * x \<le> f64 x"
proof -
  have "0 \<le> x" using assms by (auto intro: order_trans [rotated])
  moreover have "\<bar>f64 x - x\<bar> \<le> ulp * \<bar>x\<bar>"
    using assms f64_error_normal [of x] by (auto simp: f64_def)
  ultimately show "f64 x \<le> (1 + ulp) * x" "(1 - ulp) * x \<le> f64 x" by (simp_all add: algebra_simps abs_le_iff)
qed

lemma f64_le: "0 \<le> x \<Longrightarrow> f64 x \<le> (1 + ulp) * x + subnormal"
  using f64_error [of x] by (simp add: algebra_simps)

lemma f64_nonneg:
  assumes "0 \<le> x"
  shows "0 \<le> f64 x"
proof -
  have "0 \<le> round_even (x / 2 powi quantum x)"
    using round_even_floor [of "x / 2 powi quantum x"] assms by (simp add: order_trans [OF _ round_even_floor])
  then show ?thesis by (simp add: f64_def)
qed

lemma f64_pos:
  assumes "2 powi (- 1074) \<le> x"
  shows "0 < f64 x"
proof -
  have x: "0 < x" using assms by (rule less_le_trans [rotated]) simp
  have "(2 powi quantum x :: rat) \<le> x"
  proof (cases "exponent x - 52 \<le> - 1074")
    case True
    then show ?thesis using assms by (simp add: quantum_def)
  next
    case False
    have "(2 powi (exponent x - 52) :: rat) \<le> 2 powi exponent x" by (rule power_int_increasing) simp_all
    then show ?thesis using False exponent_bounds(1) [of x] x by (simp add: quantum_def)
  qed
  then have "1 \<le> x / 2 powi quantum x" by simp
  then have "1 \<le> round_even (x / 2 powi quantum x)" using round_even_floor [of "x / 2 powi quantum x"] by linarith
  then have "0 < round_even (x / 2 powi quantum x)" by simp
  then show ?thesis using x by (simp add: f64_def)
qed

text \<open>A multiple of the grid is its own rounding; whole numbers up to \<open>2 ^ 53\<close> are.\<close>

lemma f64_grid: "x = of_int n * 2 powi quantum x \<Longrightarrow> f64 x = x"
  unfolding f64_def by (metis nonzero_mult_div_cancel_right power_int_not_zero round_even_int zero_neq_numeral)

lemma f64_int:
  assumes "\<bar>n\<bar> \<le> 2 ^ 53"
  shows "f64 (of_int n) = of_int n"
proof (cases "n = 0 \<or> \<bar>n\<bar> = 2 ^ 53")
  case True
  have "f64 (2 ^ 53) = 2 ^ 53" "f64 (- (2 ^ 53)) = - (2 ^ 53)" "f64 0 = 0" by code_simp+
  moreover have "n = 0 \<or> n = 2 ^ 53 \<or> n = - (2 ^ 53)" using True by auto
  ultimately show ?thesis by auto
next
  case False
  let ?x = "of_int n :: rat"
  have x: "?x \<noteq> 0" "\<bar>?x\<bar> < 2 ^ 53" using assms False by (simp_all flip: of_int_abs)
  have "(2 powi exponent ?x :: rat) < 2 powi 53"
    using exponent_bounds(1) [OF x(1)] x(2) by (simp add: power_int_numeral)
  then have "exponent ?x < 53" using power_int_increasing [of 53 "exponent ?x" "2 :: rat"] by (meson leD leI one_le_numeral)
  then have q: "quantum ?x \<le> 0" by (simp add: quantum_def)
  have "?x = of_int (n * 2 ^ nat (- quantum ?x)) * 2 powi quantum ?x"
    using q by (simp add: power_int_def flip: power_mult_distrib)
  then show ?thesis by (rule f64_grid)
qed

end
