(* ===== verification/Webhook_Guard.thy ===== *)
theory Webhook_Guard
  imports Go_Float Event_Type
begin

text \<open>
  The guards of the webhook routes (\<open>internal/webhookguard\<close>): the signature check, the token bucket and the
  redaction of stored payloads. Times are nanoseconds, and the bucket's balance is a \<open>float64\<close>.
  The HMAC, the JSON codec and \<open>strings.ToLower\<close> on arbitrary text are parameters.
\<close>

section \<open>Signatures (hmac.go)\<close>

definition hex_value :: "char \<Rightarrow> nat option" where
  "hex_value c = (if is_digit c then Some (byte_of c - 48)
     else if 97 \<le> byte_of c \<and> byte_of c \<le> 102 then Some (byte_of c - 87)
     else if 65 \<le> byte_of c \<and> byte_of c \<le> 70 then Some (byte_of c - 55)
     else None)"

text \<open>\<open>hex.DecodeString\<close>: None is its error, a byte that is no digit or an odd length.\<close>

fun hex_decode :: "string \<Rightarrow> string option" where
  "hex_decode [] = Some []"
| "hex_decode [_] = None"
| "hex_decode (a # b # s) = (case (hex_value a, hex_value b, hex_decode s) of
     (Some x, Some y, Some t) \<Rightarrow> Some (char_of (16 * x + y) # t)
   | _ \<Rightarrow> None)"

definition trim_prefix :: "string \<Rightarrow> string \<Rightarrow> string" where
  "trim_prefix s p = (if has_prefix s p then drop (length p) s else s)"

text \<open>\<open>hmac secret body\<close> is the SHA-256 HMAC of the body.\<close>

definition VerifyHMAC :: "(string \<Rightarrow> string \<Rightarrow> string) \<Rightarrow> string \<Rightarrow> string \<Rightarrow> string \<Rightarrow> bool" where
  "VerifyHMAC hmac body signature secret =
    (if signature = [] then False
     else (case hex_decode (trim_prefix signature ''sha256='') of
         None \<Rightarrow> False
       | Some supplied \<Rightarrow> supplied = hmac secret body))"

section \<open>The token bucket (ratelimit.go)\<close>

text \<open>Each arithmetic operation on the balance is the rounded one of \<open>float64\<close>. The language lets a compiler
  fuse the product and the sum of the refill into one rounding; the two roundings here are those of
  amd64.\<close>

record tokenBucket =
  tb_tokens :: rat
  tb_last :: int

record RateLimiter =
  rl_rate :: rat
  rl_burst :: rat
  rl_buckets :: "tokenBucket gomap"

definition NewRateLimiter :: "rat \<Rightarrow> int \<Rightarrow> RateLimiter" where
  "NewRateLimiter ratePerSecond burst = \<lparr>rl_rate = ratePerSecond, rl_burst = f64 (of_int burst), rl_buckets = []\<rparr>"

text \<open>\<open>Time.Sub\<close> saturates at the largest and smallest duration, and \<open>Duration.Seconds\<close> adds the whole
  seconds and the rest as a \<open>float64\<close>; the division of Go truncates.\<close>

definition time_sub :: "int \<Rightarrow> int \<Rightarrow> int" where
  "time_sub t v = max (- (2 ^ 63)) (min (2 ^ 63 - 1) (t - v))"

definition Seconds :: "int \<Rightarrow> rat" where
  "Seconds d =
    (let sec = (if d < 0 then - ((- d) div 1000000000) else d div 1000000000);
         nsec = d - sec * 1000000000
     in f64 (f64 (of_int sec) + f64 (f64 (of_int nsec) / 1000000000)))"

definition refilled :: "RateLimiter \<Rightarrow> int \<Rightarrow> string \<Rightarrow> tokenBucket" where
  "refilled r now source = (case map_of (rl_buckets r) source of
     None \<Rightarrow> \<lparr>tb_tokens = rl_burst r, tb_last = now\<rparr>
   | Some b \<Rightarrow>
       (let elapsed = Seconds (time_sub now (tb_last b)) in
        if elapsed > 0
        then \<lparr>tb_tokens = min (rl_burst r) (f64 (tb_tokens b + f64 (elapsed * rl_rate r))), tb_last = now\<rparr>
        else b))"

definition Allow :: "int \<Rightarrow> string \<Rightarrow> RateLimiter \<Rightarrow> bool \<times> RateLimiter" where
  "Allow now source r =
    (let b = refilled r now source in
     if tb_tokens b < 1 then (False, r\<lparr>rl_buckets := map_put source b (rl_buckets r)\<rparr>)
     else (True, r\<lparr>rl_buckets := map_put source (b\<lparr>tb_tokens := f64 (tb_tokens b - 1)\<rparr>) (rl_buckets r)\<rparr>))"

section \<open>Redaction (redact.go)\<close>

definition redactedValue :: string where "redactedValue = ''[redacted]''"

definition SensitiveKeyMarkers :: "string list" where
  "SensitiveKeyMarkers = [
     ''token'', ''secret'', ''password'', ''passwd'', ''pwd'', ''passphrase'',
     ''api_key'', ''apikey'', ''api_secret'', ''client_secret'', ''private_key'', ''secret_key'',
     ''signing_key'', ''authorization'', ''bearer'', ''credential'', ''cookie'', ''session'',
     ''access_token'', ''refresh_token'', ''id_token'', ''bot_token'', ''webhook_secret'',
     ''x_api_key'', ''x_auth_token'', ''jwt'', ''oauth'', ''csrf'', ''otp'', ''signature'']"

text \<open>The class \<open>[A-Za-z0-9_-]\<close>, and \<open>^eyJ[A-Za-z0-9_-]+\.[A-Za-z0-9_-]+\.[A-Za-z0-9_-]+$\<close>: three parts
  around two dots, each a non-empty run of the class, the first longer than its fixed start.\<close>

definition token_char :: "char \<Rightarrow> bool" where
  "token_char c \<longleftrightarrow> is_upper c \<or> is_lower c \<or> is_digit c \<or> c = CHR ''_'' \<or> c = CHR ''-''"

definition jwtTokenRe :: "string \<Rightarrow> bool" where
  "jwtTokenRe s \<longleftrightarrow> (case split_byte (CHR ''.'') s of
     [a, b, c] \<Rightarrow> has_prefix a ''eyJ'' \<and> length a > 3 \<and> b \<noteq> [] \<and> c \<noteq> [] \<and> list_all token_char (a @ b @ c)
   | _ \<Rightarrow> False)"

definition sensitiveValueShape :: "string \<Rightarrow> bool" where
  "sensitiveValueShape s =
    (if length s < 20 then False
     else if jwtTokenRe s then True
     else contains_sub s ''-----BEGIN'' \<and> contains_sub s ''PRIVATE KEY-----'')"

definition sensitiveKey :: "(string \<Rightarrow> string) \<Rightarrow> string \<Rightarrow> bool" where
  "sensitiveKey lower key =
    (let normalized = map (\<lambda>c. if c = CHR ''-'' \<or> c = CHR '' '' then CHR ''_'' else c) (lower key)
     in list_ex (contains_sub normalized) SensitiveKeyMarkers)"

fun redactValue :: "(string \<Rightarrow> string) \<Rightarrow> json \<Rightarrow> json" where
  "redactValue lower (JObject fs) =
     JObject (map (\<lambda>(k, v). (k, if sensitiveKey lower k then JString redactedValue else redactValue lower v)) fs)"
| "redactValue lower (JArray vs) = JArray (map (redactValue lower) vs)"
| "redactValue lower (JString s) = JString (if sensitiveValueShape s then redactedValue else s)"
| "redactValue lower v = v"

definition RedactPayload :: "(string \<Rightarrow> string) \<Rightarrow> (string \<Rightarrow> json option) \<Rightarrow> (json \<Rightarrow> string option) \<Rightarrow> string \<Rightarrow> string option" where
  "RedactPayload lower decode marshal payload = (case decode payload of
     None \<Rightarrow> None
   | Some v \<Rightarrow> marshal (redactValue lower v))"

end
