(* ===== verification/Webhook_Guard_Spec.thy ===== *)
theory Webhook_Guard_Spec
  imports Webhook_Guard Event_Type_Rules
begin

text \<open>
  What the webhook guards promise: a signature made with the secret verifies, a sender gets at most its burst
  and its rate, and redaction leaves no sensitive value and changes no other.
\<close>

section \<open>Signatures\<close>

definition hex_digit :: "nat \<Rightarrow> char" where
  "hex_digit n = (if n < 10 then char_of (48 + n) else char_of (87 + n))"

definition hex_encode :: "string \<Rightarrow> string" where
  "hex_encode s = concat (map (\<lambda>c. [hex_digit (byte_of c div 16), hex_digit (byte_of c mod 16)]) s)"

lemma hex_value_digit: "n < 16 \<Longrightarrow> hex_value (hex_digit n) = Some n"
  by (auto simp: hex_value_def hex_digit_def char_class_defs)

lemma hex_decode_encode [simp]: "hex_decode (hex_encode s) = Some s"
proof (induction s)
  case (Cons c s)
  have "hex_value (hex_digit (byte_of c div 16)) = Some (byte_of c div 16)" by (rule hex_value_digit) (simp add: byte_of_def less_mult_imp_div_less)
  moreover have "char_of (16 * (byte_of c div 16) + byte_of c mod 16) = c" by (simp add: byte_of_def)
  ultimately show ?case using Cons by (simp add: hex_encode_def hex_value_digit)
qed (simp add: hex_encode_def)

lemma sha_prefix_no_hex: "hex_decode (''sha256='' @ s) = None"
  by (cases s) (simp_all add: hex_value_def char_class_defs split: option.splits)

lemma signed_verifies:
  "VerifyHMAC hmac body (''sha256='' @ hex_encode (hmac secret body)) secret"
  by (simp add: VerifyHMAC_def trim_prefix_def has_prefix_def)

lemma verifies_iff:
  "VerifyHMAC hmac body signature secret \<longleftrightarrow>
    signature \<noteq> [] \<and> hex_decode (trim_prefix signature ''sha256='') = Some (hmac secret body)"
  by (auto simp: VerifyHMAC_def split: option.splits)

section \<open>The token bucket\<close>

text \<open>The answers to a sequence of requests, and how many of one sender's are admitted.\<close>

fun serve :: "RateLimiter \<Rightarrow> (int \<times> string) list \<Rightarrow> bool list \<times> RateLimiter" where
  "serve r [] = ([], r)"
| "serve r ((now, source) # reqs) = (case Allow now source r of (ok, r1) \<Rightarrow>
     (case serve r1 reqs of (oks, r2) \<Rightarrow> (ok # oks, r2)))"

definition admitted :: "RateLimiter \<Rightarrow> (int \<times> string) list \<Rightarrow> string \<Rightarrow> nat" where
  "admitted r reqs s = length (filter (\<lambda>(ok, rq). ok \<and> snd rq = s) (zip (fst (serve r reqs)) reqs))"

lemma admitted_Nil [simp]: "admitted r [] s = 0"
  by (simp add: admitted_def)

lemma admitted_Cons:
  "admitted r ((t, x) # reqs) s = (if fst (Allow t x r) \<and> x = s then 1 else 0) + admitted (snd (Allow t x r)) reqs s"
  by (auto simp: admitted_def split: prod.splits)

definition requests :: "(int \<times> string) list \<Rightarrow> string \<Rightarrow> nat" where
  "requests reqs s = length (filter (\<lambda>rq. snd rq = s) reqs)"

lemma requests_simps [simp]: "requests [] s = 0" "requests ((t, x) # reqs) s = (if x = s then 1 else 0) + requests reqs s"
  by (simp_all add: requests_def)

text \<open>The elapsed time as the code reads it, against the exact one.\<close>

definition seconds :: "int \<Rightarrow> rat" where
  "seconds ns = of_int ns / 1000000000"

lemma seconds_mono: "a \<le> b \<Longrightarrow> seconds a \<le> seconds b"
  by (simp add: seconds_def divide_right_mono)

lemma seconds_nonneg: "0 \<le> a \<Longrightarrow> 0 \<le> seconds a"
  by (simp add: seconds_def)

lemma seconds_add: "seconds (a + b) = seconds a + seconds b"
  by (simp add: seconds_def add_divide_distrib)

lemma ulp_range: "0 < ulp" "ulp < 1" "3 * subnormal \<le> ulp" "0 < subnormal"
  by (simp_all add: ulp_def subnormal_def power_int_minus)

lemma normal_bounds: "2 powi (- 1022) \<le> (1 / 2000000000 :: rat)" "2 powi (- 1074) \<le> (1 / 2000000000 :: rat)"
  by (simp_all add: power_int_minus)

lemma Seconds_parts:
  assumes "0 \<le> d" and "d < 2 ^ 63"
  shows "Seconds d = f64 (of_int (d div 1000000000) + f64 (of_int (d mod 1000000000) / 1000000000))"
proof -
  have nsec: "d - d div 1000000000 * 1000000000 = d mod 1000000000" by (simp add: minus_div_mult_eq_mod)
  have "\<bar>d div 1000000000\<bar> \<le> 2 ^ 53" "\<bar>d mod 1000000000\<bar> \<le> 2 ^ 53"
    using assms pos_mod_bound [of 1000000000 d] by (auto simp: abs_le_iff)
  then show ?thesis using assms by (simp add: Seconds_def Let_def nsec f64_int del: of_int_diff of_int_mult)
qed

lemma seconds_parts: "seconds d = of_int (d div 1000000000) + of_int (d mod 1000000000) / 1000000000"
proof -
  have "(of_int d :: rat) = of_int (d div 1000000000) * 1000000000 + of_int (d mod 1000000000)"
    by (metis div_mult_mod_eq of_int_add of_int_mult of_int_numeral)
  then show ?thesis by (simp add: seconds_def add_divide_distrib)
qed

lemma part_normal: "0 \<le> n \<Longrightarrow> of_int n / 1000000000 = (0 :: rat) \<or> 2 powi (- 1022) \<le> (of_int n / 1000000000 :: rat)"
proof (cases "n = 0")
  case False
  assume "0 \<le> n"
  with False have "(1 :: rat) / 2000000000 \<le> of_int n / 1000000000" by (simp add: divide_simps)
  then show ?thesis using normal_bounds(1) by linarith
qed simp

lemma Seconds_bounds:
  assumes "0 < d" and "d < 2 ^ 63"
  shows "Seconds d \<le> (1 + ulp) ^ 2 * seconds d" "0 < Seconds d"
proof -
  define sec nsec :: rat where "sec = of_int (d div 1000000000)" and "nsec = of_int (d mod 1000000000) / 1000000000"
  have S: "Seconds d = f64 (sec + f64 nsec)" using Seconds_parts [of d] assms by (simp add: sec_def nsec_def)
  have E: "seconds d = sec + nsec" by (simp add: seconds_parts sec_def nsec_def)
  have n: "f64 nsec \<le> (1 + ulp) * nsec" "(1 - ulp) * nsec \<le> f64 nsec" "0 \<le> nsec" "0 \<le> sec"
    using f64_normal [OF part_normal, of "d mod 1000000000"] assms by (simp_all add: nsec_def sec_def pos_imp_zdiv_nonneg_iff)
  have "1 / 1000000000 \<le> sec + nsec" using assms(1) unfolding E [symmetric] seconds_def by (simp add: divide_simps)
  moreover have "ulp \<le> 1 / 2" by (simp add: ulp_def)
  then have "ulp * nsec \<le> nsec / 2" using n(3) mult_right_mono [of ulp "1 / 2" nsec] by simp
  ultimately have low: "1 / 2000000000 \<le> sec + f64 nsec" using n(2,4) by (simp add: algebra_simps)
  then show "0 < Seconds d" unfolding S by (intro f64_pos order_trans [OF normal_bounds(2)])
  have "f64 (sec + f64 nsec) \<le> (1 + ulp) * (sec + f64 nsec)"
    using low normal_bounds(1) by (intro f64_normal(1)) simp
  also have "\<dots> \<le> (1 + ulp) * ((1 + ulp) * (sec + nsec))"
  proof (rule mult_left_mono)
    have "0 \<le> ulp * sec" using n(4) ulp_range(1) by simp
    then show "sec + f64 nsec \<le> (1 + ulp) * (sec + nsec)" using n(1) by (simp add: distrib_left distrib_right)
  qed (use ulp_range(1) in simp)
  finally show "Seconds d \<le> (1 + ulp) ^ 2 * seconds d" by (simp add: S E power2_eq_square mult.assoc)
qed

lemma Seconds_neg: "d \<le> 0 \<Longrightarrow> Seconds d \<le> 0"
proof -
  assume d: "d \<le> 0"
  have neg: "f64 x \<le> 0" if "x \<le> 0" for x
  proof -
    have "x / 2 powi quantum x \<le> 0" using that by (simp add: divide_nonpos_pos)
    then have "round_even (x / 2 powi quantum x) \<le> 0"
      using round_even_near [of "x / 2 powi quantum x"] by linarith
    then show ?thesis by (simp add: f64_def mult_nonpos_nonneg)
  qed
  let ?sec = "if d < 0 then - ((- d) div 1000000000) else d div 1000000000"
  have "?sec \<le> 0" "d - ?sec * 1000000000 \<le> 0"
    using d pos_imp_zdiv_nonneg_iff [of 1000000000 "- d"] div_times_less_eq_dividend [of "nat (- d)" 1000000000]
    by (auto split: if_splits)
  then have "f64 (of_int ?sec) \<le> 0" "f64 (f64 (of_int (d - ?sec * 1000000000)) / 1000000000) \<le> 0"
    by (auto intro!: neg divide_nonpos_pos simp del: of_int_diff of_int_mult)
  then show "Seconds d \<le> 0" unfolding Seconds_def Let_def by (intro neg) simp
qed

text \<open>The balances are between nothing and the burst, and no bucket has been seen after \<open>t\<close>.\<close>

definition sound :: "int \<Rightarrow> RateLimiter \<Rightarrow> bool" where
  "sound t r \<longleftrightarrow> 0 \<le> rl_rate r \<and> 1 \<le> rl_burst r \<and> rl_burst r \<le> 2 ^ 52
     \<and> (\<forall>s b. map_of (rl_buckets r) s = Some b \<longrightarrow> 0 \<le> tb_tokens b \<and> tb_tokens b \<le> rl_burst r \<and> tb_last b \<le> t)"

text \<open>A balance and what the time until \<open>t1\<close> can still add to it.\<close>

definition potential :: "RateLimiter \<Rightarrow> int \<Rightarrow> tokenBucket \<Rightarrow> rat" where
  "potential r t1 b = tb_tokens b + (1 + ulp) ^ 3 * (rl_rate r * seconds (t1 - tb_last b))"

lemma refill_step:
  assumes "0 \<le> T" "T \<le> B" "0 \<le> rate" "0 < d" "d < 2 ^ 63" "d \<le> e"
  shows "min B (f64 (T + f64 (Seconds d * rate))) \<le> T + (1 + ulp) ^ 3 * (rate * seconds e) + ulp * B + 2 * subnormal"
proof -
  define p where "p = f64 (Seconds d * rate)"
  note sec = Seconds_bounds [OF assms(4,5)]
  have p0: "0 \<le> p" unfolding p_def using assms(3) sec(2) by (intro f64_nonneg) simp
  have "Seconds d * rate \<le> (1 + ulp) ^ 2 * seconds d * rate" using sec(1) assms(3) by (rule mult_right_mono)
  also have "\<dots> \<le> (1 + ulp) ^ 2 * seconds e * rate"
    using assms(3,6) ulp_range(1) by (intro mult_right_mono mult_left_mono seconds_mono) simp_all
  finally have "(1 + ulp) * (Seconds d * rate) \<le> (1 + ulp) * ((1 + ulp) ^ 2 * seconds e * rate)"
    using ulp_range(1) by (intro mult_left_mono) simp_all
  also have "\<dots> = (1 + ulp) ^ 3 * (rate * seconds e)" by (simp add: power3_eq_cube power2_eq_square algebra_simps)
  finally have p: "p \<le> (1 + ulp) ^ 3 * (rate * seconds e) + subnormal"
    using f64_le [of "Seconds d * rate"] assms(3) sec(2) by (simp add: p_def)
  have "min B (f64 (T + p)) \<le> T + p + ulp * B + subnormal"
  proof (cases "T + p \<le> B")
    case True
    then have "ulp * (T + p) \<le> ulp * B" using ulp_range(1) by (intro mult_left_mono) simp_all
    then show ?thesis using f64_le [of "T + p"] assms(1) p0 by (simp add: algebra_simps min_def)
  next
    case False
    moreover have "0 \<le> ulp * B" using assms(1,2) ulp_range(1) by simp
    ultimately show ?thesis using ulp_range(4) by simp
  qed
  then show ?thesis using p by (simp add: p_def)
qed

lemma refilled_bucket:
  fixes s :: string
  assumes "sound t0 r" and "t0 \<le> t"
  defines "b' \<equiv> refilled r t s"
  shows "0 \<le> tb_tokens b'" "tb_tokens b' \<le> rl_burst r" "tb_last b' = t"
    and "map_of (rl_buckets r) s = Some b \<Longrightarrow> potential r t1 b' \<le> potential r t1 b + ulp * rl_burst r + 2 * subnormal"
proof -
  have B: "0 \<le> rl_rate r" "1 \<le> rl_burst r" using assms(1) by (simp_all add: sound_def)
  have slack: "0 \<le> ulp * rl_burst r + 2 * subnormal" using B ulp_range by simp
  have all: "0 \<le> tb_tokens b' \<and> tb_tokens b' \<le> rl_burst r \<and> tb_last b' = t
      \<and> (map_of (rl_buckets r) s = Some b \<longrightarrow> potential r t1 b' \<le> potential r t1 b + ulp * rl_burst r + 2 * subnormal)" for b
  proof (cases "map_of (rl_buckets r) s")
    case None
    then show ?thesis using B by (simp add: b'_def refilled_def)
  next
    case (Some b0)
    have b0: "0 \<le> tb_tokens b0" "tb_tokens b0 \<le> rl_burst r" "tb_last b0 \<le> t0" using assms(1) Some by (auto simp: sound_def)
    show ?thesis
    proof (cases "tb_last b0 = t")
      case True
      then have "b' = b0" using Seconds_neg [of 0] Some by (simp add: b'_def refilled_def time_sub_def)
      then show ?thesis using b0 True Some slack by simp
    next
      case False
      define d where "d = time_sub t (tb_last b0)"
      have d: "0 < d" "d < 2 ^ 63" "d \<le> t - tb_last b0" using False b0(3) assms(2) by (auto simp: d_def time_sub_def)
      have b': "b' = \<lparr>tb_tokens = min (rl_burst r) (f64 (tb_tokens b0 + f64 (Seconds d * rl_rate r))), tb_last = t\<rparr>"
        using Seconds_bounds(2) [OF d(1,2)] Some by (simp add: b'_def refilled_def d_def Let_def)
      have "0 \<le> f64 (tb_tokens b0 + f64 (Seconds d * rl_rate r))"
        using Seconds_bounds(2) [OF d(1,2)] B b0(1) by (intro f64_nonneg add_nonneg_nonneg) simp_all
      moreover have "seconds (t1 - tb_last b0) = seconds (t - tb_last b0) + seconds (t1 - t)" by (simp flip: seconds_add)
      ultimately show ?thesis
        using refill_step [OF b0(1,2) B(1) d] B Some by (auto simp: b' potential_def algebra_simps)
    qed
  qed
  show "0 \<le> tb_tokens b'" "tb_tokens b' \<le> rl_burst r" "tb_last b' = t"
    "map_of (rl_buckets r) s = Some b \<Longrightarrow> potential r t1 b' \<le> potential r t1 b + ulp * rl_burst r + 2 * subnormal"
    using all [of b] by simp_all
qed

text \<open>The bucket that a request leaves behind.\<close>

definition paid :: "tokenBucket \<Rightarrow> tokenBucket" where
  "paid b = (if tb_tokens b < 1 then b else b\<lparr>tb_tokens := f64 (tb_tokens b - 1)\<rparr>)"

lemma allow_config [simp]: "rl_rate (snd (Allow t x r)) = rl_rate r" "rl_burst (snd (Allow t x r)) = rl_burst r"
  by (simp_all add: Allow_def Let_def)

lemma allow_bucket: "map_of (rl_buckets (snd (Allow t x r))) s = (if x = s then Some (paid (refilled r t s)) else map_of (rl_buckets r) s)"
  by (simp add: Allow_def Let_def paid_def)

lemma allow_iff: "fst (Allow t x r) \<longleftrightarrow> \<not> tb_tokens (refilled r t x) < 1"
  by (simp add: Allow_def Let_def)

lemma potential_config [simp]: "potential (snd (Allow t x r)) t1 b = potential r t1 b"
  by (simp add: potential_def)

lemma paid_tokens:
  assumes "0 \<le> tb_tokens b" "tb_tokens b \<le> B" "1 \<le> B" "B \<le> 2 ^ 52"
  shows "0 \<le> tb_tokens (paid b)" "tb_tokens (paid b) \<le> B" "tb_last (paid b) = tb_last b"
    and "tb_tokens (paid b) + (if tb_tokens b < 1 then 0 else 1) \<le> tb_tokens b + ulp * B + subnormal"
proof -
  have uB: "ulp * B + subnormal \<le> 1"
    using mult_left_mono [OF assms(4), of ulp] ulp_range(3,4) by (simp add: ulp_def)
  have step: "f64 (tb_tokens b - 1) \<le> tb_tokens b - 1 + ulp * B + subnormal" if "1 \<le> tb_tokens b"
  proof -
    have "ulp * (tb_tokens b - 1) \<le> ulp * B" using assms ulp_range(1) by (intro mult_left_mono) simp_all
    then show ?thesis using f64_le [of "tb_tokens b - 1"] that by (simp add: algebra_simps)
  qed
  have "0 \<le> ulp * B + subnormal" using assms ulp_range by simp
  then show "0 \<le> tb_tokens (paid b)" "tb_tokens (paid b) \<le> B" "tb_last (paid b) = tb_last b"
    "tb_tokens (paid b) + (if tb_tokens b < 1 then 0 else 1) \<le> tb_tokens b + ulp * B + subnormal"
    using assms step uB f64_nonneg [of "tb_tokens b - 1"] by (auto simp: paid_def)
qed

lemma allow_sound:
  assumes "sound t0 r" and "t0 \<le> t"
  shows "sound t (snd (Allow t x r))"
proof -
  have B: "1 \<le> rl_burst r" "rl_burst r \<le> 2 ^ 52" using assms(1) by (simp_all add: sound_def)
  note p = paid_tokens [OF refilled_bucket(1,2) [OF assms, of x] B] and l = refilled_bucket(3) [OF assms, of x]
  show ?thesis using assms p l by (fastforce simp: sound_def allow_bucket)
qed

text \<open>One request costs what it takes and at most three roundings of the size of the burst.\<close>

definition slack :: "RateLimiter \<Rightarrow> rat" where "slack r = 3 * ulp * rl_burst r"

lemma call_cost:
  fixes s :: string
  assumes "sound t0 r" and "t0 \<le> t"
  defines "b' \<equiv> refilled r t s"
  shows "potential r t1 (paid b') + (if fst (Allow t s r) then 1 else 0) \<le> potential r t1 b' + ulp * rl_burst r + subnormal"
    and "ulp * rl_burst r + subnormal + (ulp * rl_burst r + 2 * subnormal) \<le> slack r"
proof -
  have B: "1 \<le> rl_burst r" "rl_burst r \<le> 2 ^ 52" using assms(1) by (simp_all add: sound_def)
  note p = paid_tokens [OF refilled_bucket(1,2) [OF assms(1,2), of s] B]
  show "potential r t1 (paid b') + (if fst (Allow t s r) then 1 else 0) \<le> potential r t1 b' + ulp * rl_burst r + subnormal"
    using p(3,4) unfolding potential_def allow_iff b'_def by (auto split: if_splits)
  have "ulp * 1 \<le> ulp * rl_burst r" using B ulp_range(1) by (intro mult_left_mono) simp_all
  then show "ulp * rl_burst r + subnormal + (ulp * rl_burst r + 2 * subnormal) \<le> slack r" using ulp_range(3) by (simp add: slack_def)
qed

lemma slack_config [simp]: "slack (snd (Allow t x r)) = slack r"
  by (simp add: slack_def)

lemma admitted_from_bucket:
  assumes "sound t0 r" and "sorted (map fst reqs)" and "\<forall>(t, x) \<in> set reqs. t0 \<le> t \<and> t \<le> t1" and "t0 \<le> t1"
    and "map_of (rl_buckets r) s = Some b"
  shows "of_nat (admitted r reqs s) \<le> potential r t1 b + of_nat (requests reqs s) * slack r"
  using assms
proof (induction reqs arbitrary: r t0 b)
  case Nil
  then have "0 \<le> tb_tokens b" "tb_last b \<le> t1" "0 \<le> rl_rate r" by (force simp: sound_def)+
  then show ?case using ulp_range(1) by (simp add: potential_def seconds_nonneg)
next
  case (Cons rq reqs)
  obtain t x where rq: "rq = (t, x)" by fastforce
  let ?r = "snd (Allow t x r)"
  have t: "t0 \<le> t" "t \<le> t1" using Cons.prems(3) rq by auto
  have rest: "\<forall>(y, z) \<in> set reqs. t \<le> y \<and> y \<le> t1" "sorted (map fst reqs)" using Cons.prems(2,3) rq by fastforce+
  note IH = Cons.IH [OF allow_sound [OF Cons.prems(1) t(1), of x] rest(2,1) t(2)]
  show ?case
  proof (cases "x = s")
    case False
    then show ?thesis using IH [of b] Cons.prems(5) rq by (simp add: admitted_Cons allow_bucket)
  next
    case True
    have "of_nat (admitted ?r reqs s) \<le> potential r t1 (paid (refilled r t s)) + of_nat (requests reqs s) * slack r"
      using IH [of "paid (refilled r t s)"] True by (simp add: allow_bucket)
    then show ?thesis
      using call_cost(1) [OF Cons.prems(1) t(1), of t1 s] call_cost(2) [OF Cons.prems(1) t(1)] refilled_bucket(4) [OF Cons.prems(1) t(1) Cons.prems(5), of t1] True rq
      by (cases "fst (Allow t s r)") (simp_all add: admitted_Cons algebra_simps)
  qed
qed

lemma admitted_bound:
  assumes "sound t0 r" and "sorted (map fst reqs)" and "\<forall>(t, x) \<in> set reqs. t0 \<le> t \<and> t \<le> t1" and "t0 \<le> t1"
  shows "of_nat (admitted r reqs s)
    \<le> rl_burst r + (1 + ulp) ^ 3 * (rl_rate r * seconds (t1 - t0)) + of_nat (requests reqs s) * slack r"
  using assms
proof (induction reqs arbitrary: r t0)
  case Nil
  then show ?case using ulp_range(1) by (simp add: sound_def seconds_nonneg)
next
  case (Cons rq reqs)
  obtain t x where rq: "rq = (t, x)" by fastforce
  let ?r = "snd (Allow t x r)"
  have t: "t0 \<le> t" "t \<le> t1" using Cons.prems(3) rq by auto
  have rest: "\<forall>(y, z) \<in> set reqs. t \<le> y \<and> y \<le> t1" "sorted (map fst reqs)" using Cons.prems(2,3) rq by fastforce+
  note sound' = allow_sound [OF Cons.prems(1) t(1), of x]
  have "0 \<le> rl_rate r" using Cons.prems(1) by (simp add: sound_def)
  then have later: "(1 + ulp) ^ 3 * (rl_rate r * seconds (t1 - t)) \<le> (1 + ulp) ^ 3 * (rl_rate r * seconds (t1 - t0))"
    using t(1) ulp_range(1) by (intro mult_left_mono seconds_mono) simp_all
  show ?case
  proof (cases "x = s")
    case False
    then show ?thesis using Cons.IH [OF sound' rest(2,1) t(2)] later rq by (simp add: admitted_Cons)
  next
    case True
    have "of_nat (admitted ?r reqs s) \<le> potential r t1 (paid (refilled r t s)) + of_nat (requests reqs s) * slack r"
      using admitted_from_bucket [OF sound' rest(2,1) t(2), of s "paid (refilled r t s)"] True by (simp add: allow_bucket)
    moreover have "potential r t1 (refilled r t s) \<le> rl_burst r + (1 + ulp) ^ 3 * (rl_rate r * seconds (t1 - t))"
      using refilled_bucket(2,3) [OF Cons.prems(1) t(1), of s] by (simp add: potential_def)
    moreover have "0 \<le> ulp * rl_burst r + 2 * subnormal" using Cons.prems(1) ulp_range by (simp add: sound_def)
    ultimately show ?thesis
      using call_cost(1) [OF Cons.prems(1) t(1), of t1 s] call_cost(2) [OF Cons.prems(1) t(1)] later True rq
      by (cases "fst (Allow t s r)") (simp_all add: admitted_Cons algebra_simps)
  qed
qed

lemma serve_sound:
  assumes "sound t0 r" and "sorted (map fst reqs)" and "\<forall>(t, x) \<in> set reqs. t0 \<le> t \<and> t \<le> t1" and "t0 \<le> t1"
  shows "sound t1 (snd (serve r reqs)) \<and> rl_rate (snd (serve r reqs)) = rl_rate r \<and> rl_burst (snd (serve r reqs)) = rl_burst r"
  using assms
proof (induction reqs arbitrary: r t0)
  case Nil
  then show ?case by (fastforce simp: sound_def)
next
  case (Cons rq reqs)
  obtain t x where rq: "rq = (t, x)" by fastforce
  have t: "t0 \<le> t" "t \<le> t1" using Cons.prems(3) rq by auto
  have "\<forall>(y, z) \<in> set reqs. t \<le> y \<and> y \<le> t1" using Cons.prems(2,3) rq by fastforce
  then have "sound t1 (snd (serve (snd (Allow t x r)) reqs)) \<and> rl_rate (snd (serve (snd (Allow t x r)) reqs)) = rl_rate r
      \<and> rl_burst (snd (serve (snd (Allow t x r)) reqs)) = rl_burst r"
    using Cons.IH [OF allow_sound [OF Cons.prems(1) t(1)]] Cons.prems(2) t(2) rq by simp
  moreover have "snd (serve r (rq # reqs)) = snd (serve (snd (Allow t x r)) reqs)" by (simp add: rq split: prod.splits)
  ultimately show ?case by simp
qed

text \<open>C33: over any interval, of whatever length and after whatever requests before it, a sender is admitted at
  most its burst and what its rate refills in that time, whoever else sends in between, up to the
  rounding of the balance, which is a \<open>float64\<close>. With requests in the order of the clock and a burst of
  at most \<open>2 ^ 52\<close>, the requests of a sender that pass between \<open>t0\<close> and \<open>t1\<close> are at most the burst,
  \<open>(1 + 2 ^ -53) ^ 3\<close> times the rate times the seconds, and \<open>3 * 2 ^ -53\<close> of the burst for each request it
  made.\<close>

theorem limiter_admits_at_most:
  assumes "0 \<le> rate" and "0 < burst" and "burst \<le> 2 ^ 52" and "sorted (map fst (before @ window))"
    and "\<forall>(t, x) \<in> set before. t \<le> t0" and "\<forall>(t, x) \<in> set window. t0 \<le> t \<and> t \<le> t1" and "t0 \<le> t1"
  shows "of_nat (admitted (snd (serve (NewRateLimiter rate burst) before)) window s)
    \<le> of_int burst + (1 + 1 / 2 ^ 53) ^ 3 * (rate * (of_int (t1 - t0) / 1000000000))
       + of_nat (requests window s) * (3 / 2 ^ 53 * of_int burst)"
proof -
  let ?n = "NewRateLimiter rate burst"
  let ?r = "snd (serve ?n before)"
  define m where "m = (if before = [] then t0 else fst (hd before))"
  have m: "\<forall>(t, x) \<in> set before. m \<le> t \<and> t \<le> t0" "m \<le> t0"
    using assms(4,5) by (cases before; force simp: m_def sorted_append)+
  have n: "rl_rate ?n = rate" "rl_burst ?n = of_int burst" "rl_buckets ?n = []"
    using f64_int [of burst] assms(2,3) by (simp_all add: NewRateLimiter_def)
  have "(of_int burst :: rat) \<le> of_int (2 ^ 52)" using assms(3) by (simp only: of_int_le_iff)
  then have "sound m ?n" using assms(1,2) n by (simp add: sound_def)
  then have r: "sound t0 ?r" "rl_rate ?r = rate" "rl_burst ?r = of_int burst"
    using serve_sound [of m ?n before t0] m assms(4) n by (simp_all add: sorted_append)
  show ?thesis
    using admitted_bound [OF r(1), of window t1 s] assms(4,6,7) r(2,3)
    by (simp add: sorted_append slack_def ulp_def seconds_def)
qed

theorem limiter_admits_at_most_witness:
  "of_nat (admitted (snd (serve (NewRateLimiter 1 2) [(0, ''a'')])) [(0, ''a''), (0, ''b''), (0, ''a''), (1000000000, ''a'')] ''a'')
     \<le> (2 + (1 + 1 / 2 ^ 53) ^ 3 + 3 * (3 / 2 ^ 53 * 2) :: rat)
   \<and> fst (serve (NewRateLimiter 1 2) [(0, ''a''), (0, ''a''), (0, ''b''), (0, ''a''), (1000000000, ''a'')]) = [True, True, True, False, True]"
proof -
  have "fst (serve (NewRateLimiter 1 2) [(0, ''a''), (0, ''a''), (0, ''b''), (0, ''a''), (1000000000, ''a'')]) = [True, True, True, False, True]"
    by code_simp
  then show ?thesis
    using limiter_admits_at_most [of 1 2 "[(0, ''a'')]" "[(0, ''a''), (0, ''b''), (0, ''a''), (1000000000, ''a'')]" 0 1000000000 "''a''"]
    by simp
qed

text \<open>The rounding is real: with the rate that \<open>0.7\<close> is read as, a burst of 7 and seven requests at once, ten
  seconds later seven more are admitted, although the rate has refilled less than seven.\<close>

lemma rounding_favours_sender:
  defines "rate \<equiv> f64 (7 / 10)"
  shows "admitted (NewRateLimiter rate 7) (replicate 7 (0, ''a'') @ replicate 7 (10000000000, ''a'')) ''a'' = 14"
    and "10 * rate < 7"
  unfolding rate_def by code_simp+

text \<open>A bucket is never removed: the limiter holds one for every sender it has seen.\<close>

lemma limiter_keeps_every_sender: "fst ` set (rl_buckets (snd (serve r reqs))) = fst ` set (rl_buckets r) \<union> snd ` set reqs"
proof (induction reqs arbitrary: r)
  case (Cons rq reqs)
  obtain t x where rq: "rq = (t, x)" by fastforce
  have "fst ` set (rl_buckets (snd (Allow t x r))) = insert x (fst ` set (rl_buckets r))" by (simp add: Allow_def Let_def)
  moreover have "snd (serve r (rq # reqs)) = snd (serve (snd (Allow t x r)) reqs)" by (simp add: rq split: prod.splits)
  ultimately show ?case using Cons [of "snd (Allow t x r)"] rq by simp
qed simp

section \<open>Redaction\<close>

text \<open>A value in which every sensitive key holds the marker and no text has the shape of a secret.\<close>

fun redacted :: "(string \<Rightarrow> string) \<Rightarrow> json \<Rightarrow> bool" where
  "redacted lower (JObject fs) = list_all (\<lambda>(k, v). if sensitiveKey lower k then v = JString redactedValue else redacted lower v) fs"
| "redacted lower (JArray vs) = list_all (redacted lower) vs"
| "redacted lower (JString s) = (\<not> sensitiveValueShape s)"
| "redacted lower v = True"

datatype json_step = Field string | Element nat

fun value_at :: "json \<Rightarrow> json_step list \<Rightarrow> json option" where
  "value_at v [] = Some v"
| "value_at (JObject fs) (Field k # p) = (case map_of fs k of None \<Rightarrow> None | Some v \<Rightarrow> value_at v p)"
| "value_at (JArray vs) (Element i # p) = (if i < length vs then value_at (vs ! i) p else None)"
| "value_at _ (_ # p) = None"

fun open_step :: "(string \<Rightarrow> string) \<Rightarrow> json_step \<Rightarrow> bool" where
  "open_step lower (Field k) = (\<not> sensitiveKey lower k)"
| "open_step lower (Element i) = True"

lemma marker_plain [simp]: "\<not> sensitiveValueShape redactedValue"
  by (simp add: sensitiveValueShape_def redactedValue_def)

lemma redactValue_redacted: "redacted lower (redactValue lower v)"
  by (induction lower v rule: redactValue.induct) (auto simp: list_all_iff)

lemma redacted_fixed: "redacted lower v \<Longrightarrow> redactValue lower v = v"
proof (induction lower v rule: redactValue.induct)
  case (1 lower fs)
  then show ?case by (auto simp: list_all_iff intro!: map_idI split: if_splits)
qed (auto simp: list_all_iff intro!: map_idI)

lemma map_of_redact:
  "map_of (map (\<lambda>(k, v). (k, f k v)) fs) x = map_option (f x) (map_of fs x)"
  by (induction fs) auto

lemma redact_at:
  "list_all (open_step lower) p \<Longrightarrow> value_at (redactValue lower v) p = map_option (redactValue lower) (value_at v p)"
proof (induction v p rule: value_at.induct)
  case (2 fs k p)
  then show ?case by (auto simp: map_of_redact [where f = "\<lambda>k v. if sensitiveKey lower k then JString redactedValue else redactValue lower v"] split: option.splits)
qed auto

lemma redact_under:
  assumes "list_all (open_step lower) p" and "sensitiveKey lower k" and "value_at v (p @ [Field k]) = Some x"
  shows "value_at (redactValue lower v) (p @ [Field k]) = Some (JString redactedValue)"
  using assms
proof (induction v p rule: value_at.induct)
  case (1 v)
  then show ?case by (cases v) (auto simp: map_of_redact [where f = "\<lambda>k v. if sensitiveKey lower k then JString redactedValue else redactValue lower v"] split: option.splits)
next
  case (2 fs j p)
  then show ?case by (auto simp: map_of_redact [where f = "\<lambda>k v. if sensitiveKey lower k then JString redactedValue else redactValue lower v"] split: option.splits)
qed (auto split: if_splits)

text \<open>The texts that count as secrets: a JWT or a private key of at least 20 bytes.\<close>

definition secret_text :: "string \<Rightarrow> bool" where
  "secret_text s \<longleftrightarrow> 20 \<le> length s
     \<and> ((\<exists>a b c. s = ''eyJ'' @ a @ ''.'' @ b @ ''.'' @ c \<and> a \<noteq> [] \<and> b \<noteq> [] \<and> c \<noteq> [] \<and> (\<forall>x \<in> set (a @ b @ c). token_char x))
       \<or> (\<exists>x y. s = x @ ''-----BEGIN'' @ y) \<and> (\<exists>x y. s = x @ ''PRIVATE KEY-----'' @ y))"

lemma token_char_no_dot: "token_char x \<Longrightarrow> x \<noteq> CHR ''.''"
  by (auto simp: token_char_def char_class_defs)

lemma jwtTokenRe_iff:
  "jwtTokenRe s \<longleftrightarrow> (\<exists>a b c. s = ''eyJ'' @ a @ ''.'' @ b @ ''.'' @ c \<and> a \<noteq> [] \<and> b \<noteq> [] \<and> c \<noteq> []
     \<and> (\<forall>x \<in> set (a @ b @ c). token_char x))"
proof
  assume "jwtTokenRe s"
  then obtain a b c where sp: "split_byte CHR ''.'' s = [a, b, c]" and ok: "has_prefix a ''eyJ''" "length a > 3" "b \<noteq> []" "c \<noteq> []"
    "list_all token_char (a @ b @ c)"
    by (auto simp: jwtTokenRe_def split: list.splits)
  obtain a' where a: "a = ''eyJ'' @ a'" using ok(1) unfolding has_prefix_def by (metis append_take_drop_id)
  have "s = a @ ''.'' @ b @ ''.'' @ c" using join_split [of "CHR ''.''" s] sp by simp
  with a ok show "\<exists>a b c. s = ''eyJ'' @ a @ ''.'' @ b @ ''.'' @ c \<and> a \<noteq> [] \<and> b \<noteq> [] \<and> c \<noteq> [] \<and> (\<forall>x \<in> set (a @ b @ c). token_char x)"
    by (intro exI [of _ a'] exI [of _ b] exI [of _ c]) (auto simp: list_all_iff)
next
  assume "\<exists>a b c. s = ''eyJ'' @ a @ ''.'' @ b @ ''.'' @ c \<and> a \<noteq> [] \<and> b \<noteq> [] \<and> c \<noteq> [] \<and> (\<forall>x \<in> set (a @ b @ c). token_char x)"
  then obtain a b c where s: "s = (''eyJ'' @ a) @ CHR ''.'' # b @ CHR ''.'' # c" and ok: "a \<noteq> []" "b \<noteq> []" "c \<noteq> []" "\<forall>x \<in> set (a @ b @ c). token_char x"
    by auto
  have "CHR ''.'' \<notin> set (''eyJ'' @ a)" "CHR ''.'' \<notin> set b" "CHR ''.'' \<notin> set c" using ok(4) token_char_no_dot by auto
  then have "split_byte CHR ''.'' s = [''eyJ'' @ a, b, c]"
    unfolding s using split_byte_append [of _ "''eyJ'' @ a"] split_byte_append [of _ b] split_byte_absent [of _ c] by (simp del: split_byte.simps)
  moreover have "list_all token_char ''eyJ''" by code_simp
  ultimately show "jwtTokenRe s" using ok by (auto simp: jwtTokenRe_def has_prefix_def list_all_iff)
qed

lemma sensitiveValueShape_iff: "sensitiveValueShape s \<longleftrightarrow> secret_text s"
  unfolding sensitiveValueShape_def secret_text_def jwtTokenRe_iff [symmetric] contains_sub_iff [symmetric] by auto

text \<open>What may become of a value that is reached without a sensitive key: an object keeps its keys and a list its
  length, a secret text becomes the marker, and every other scalar stays.\<close>

fun kept :: "json \<Rightarrow> json \<Rightarrow> bool" where
  "kept (JObject fs) w \<longleftrightarrow> (\<exists>gs. w = JObject gs \<and> map fst gs = map fst fs)"
| "kept (JArray vs) w \<longleftrightarrow> (\<exists>ws. w = JArray ws \<and> length ws = length vs)"
| "kept (JString s) w \<longleftrightarrow> w = JString (if secret_text s then ''[redacted]'' else s)"
| "kept v w \<longleftrightarrow> w = v"

lemma redactValue_kept: "kept v (redactValue lower v)"
  by (cases v) (auto simp: sensitiveValueShape_iff redactedValue_def)

text \<open>C34: redaction is complete, exact and settled. In the result every value under a sensitive key is the
  marker and no text is a JWT or a private key, at any depth. Along every path without a sensitive key the
  result has a value exactly where the input has one: the object with the same keys, the list of the same
  length, the marker for a secret text, and for every other text, number, boolean or null the value
  itself. What a sensitive key holds is the marker. Redacting again changes nothing.\<close>

theorem redaction_exact:
  assumes "list_all (open_step lower) p" and "sensitiveKey lower k"
  shows "redacted lower (redactValue lower v)
    \<and> redactValue lower (redactValue lower v) = redactValue lower v
    \<and> (value_at v p = None \<longrightarrow> value_at (redactValue lower v) p = None)
    \<and> (\<forall>x. value_at v p = Some x \<longrightarrow> (\<exists>y. value_at (redactValue lower v) p = Some y \<and> kept x y))
    \<and> (value_at v (p @ [Field k]) \<noteq> None \<longrightarrow> value_at (redactValue lower v) (p @ [Field k]) = Some (JString ''[redacted]''))"
  using redactValue_redacted redacted_fixed [OF redactValue_redacted] redact_at [OF assms(1), of v] redact_under [OF assms] redactValue_kept
  by (auto simp: redactedValue_def)

definition hook_body :: json where
  "hook_body = JObject [(''user'', JObject [(''name'', JString ''ann''), (''api-key'', JNumber ''7'')])]"

theorem redaction_exact_witness:
  "redactValue to_lower hook_body = JObject [(''user'', JObject [(''name'', JString ''ann''), (''api-key'', JString ''[redacted]'')])]
   \<and> value_at (redactValue to_lower hook_body) [Field ''user'', Field ''api-key''] = Some (JString ''[redacted]'')"
proof -
  have "list_all (open_step to_lower) [Field ''user'']" "sensitiveKey to_lower ''api-key''" by code_simp+
  from redaction_exact [OF this, of hook_body] have "value_at (redactValue to_lower hook_body) [Field ''user'', Field ''api-key''] = Some (JString ''[redacted]'')"
    by (simp add: hook_body_def)
  moreover have "redactValue to_lower hook_body = JObject [(''user'', JObject [(''name'', JString ''ann''), (''api-key'', JString ''[redacted]'')])]"
    by code_simp
  ultimately show ?thesis by blast
qed

end
