(* ===== verification/Workflow_Interface.thy ===== *)
theory Workflow_Interface
  imports Event_Type
begin

text \<open>
  What a workflow declares (\<open>domain/workflow/task/interface.go\<close>): its inputs and outputs with their
  types, whether it works on a repository, and the checks of values against the declaration; and which
  workflows an org has turned off (\<open>enablement.go\<close>). A Go map is an association list in the order the
  runtime iterates it; \<open>marshal\<close>, \<open>decode\<close> and \<open>unmarshal_yaml\<close> stand for the codecs.
\<close>

section \<open>Declarations\<close>

definition RepositoryRequired :: string where [go_string_simps]: "RepositoryRequired = ''required''"
definition RepositoryOptional :: string where [go_string_simps]: "RepositoryOptional = ''optional''"
definition RepositoryNone :: string where [go_string_simps]: "RepositoryNone = ''none''"

record InputSpec =
  is_type :: string
  is_required :: bool

record OutputSpec =
  os_type :: string
  os_required :: bool

record WorkflowNeeds =
  wn_captures :: bool
  wn_gate_retries :: int

record WorkflowInterface =
  wi_inputs :: "InputSpec gomap"
  wi_repository :: string
  wi_outputs :: "OutputSpec gomap"
  wi_profile :: string
  wi_identity :: string
  wi_needs :: WorkflowNeeds

definition Needs :: "WorkflowInterface \<Rightarrow> WorkflowNeeds" where
  "Needs w = (if wi_outputs w \<noteq> [] then (wi_needs w)\<lparr>wn_captures := True\<rparr> else wi_needs w)"

text \<open>The regular expression \<open>^[A-Za-z_][A-Za-z0-9_]*$\<close>.\<close>

definition name_start :: "char \<Rightarrow> bool" where
  "name_start c \<longleftrightarrow> is_lower c \<or> is_upper c \<or> c = CHR ''_''"

definition inputName :: "string \<Rightarrow> bool" where
  "inputName s \<longleftrightarrow> s \<noteq> [] \<and> name_start (hd s) \<and> list_all (\<lambda>c. name_start c \<or> is_digit c) (tl s)"

definition inputTypes :: "string list" where
  "inputTypes = [''string'', ''number'', ''bool'', ''object'', ''array'', ''any'']"

datatype interface_error =
    BadRepository string
  | BadInputName string
  | BadInputType string string
  | BadOutputName string
  | BadOutputType string string
  | NegativeGateRetries
  | NotYAML
  | ValueRequired string
  | ValueUndeclared string
  | ValueTyped string string string

definition ValidateInterface :: "WorkflowInterface \<Rightarrow> interface_error option" where
  "ValidateInterface w =
    guard_err (wi_repository w \<notin> {[], RepositoryRequired, RepositoryOptional, RepositoryNone}) (BadRepository (wi_repository w))
    (seq_err (first_error (\<lambda>(name, spec). guard_err (\<not> inputName name) (BadInputName name)
        (guard_err (is_type spec \<notin> set inputTypes) (BadInputType name (is_type spec)) None)) (wi_inputs w))
    (seq_err (first_error (\<lambda>(name, spec). guard_err (\<not> inputName name) (BadOutputName name)
        (guard_err (os_type spec \<notin> set inputTypes) (BadOutputType name (os_type spec)) None)) (wi_outputs w))
    (guard_err (wn_gate_retries (wi_needs w) < 0) NegativeGateRetries None)))"

definition ParseWorkflowInterface :: "(string \<Rightarrow> WorkflowInterface option) \<Rightarrow> string \<Rightarrow> interface_error + WorkflowInterface" where
  "ParseWorkflowInterface unmarshal_yaml src = (case unmarshal_yaml src of
     None \<Rightarrow> Inl NotYAML
   | Some w \<Rightarrow> (case ValidateInterface w of Some e \<Rightarrow> Inl e | None \<Rightarrow> Inr w))"

definition RepositoryMode :: "WorkflowInterface \<Rightarrow> string" where
  "RepositoryMode w = (if wi_repository w = [] then RepositoryRequired else wi_repository w)"

section \<open>Values against the declaration\<close>

definition TypeAccepts :: "string \<Rightarrow> string \<Rightarrow> bool" where
  "TypeAccepts want got \<longleftrightarrow> want = ''any'' \<or> got = ''any'' \<or> want = got"

fun ValueType :: "json \<Rightarrow> string" where
  "ValueType JNull = ''null''"
| "ValueType (JString _) = ''string''"
| "ValueType (JBool _) = ''bool''"
| "ValueType (JNumber _) = ''number''"
| "ValueType (JFloat _) = ''number''"
| "ValueType (JObject _) = ''object''"
| "ValueType (JArray _) = ''array''"

text \<open>\<open>CheckInputs\<close> and \<open>CheckOutputs\<close> have the same body over the two kinds of declaration. A null value
  counts as absent for a required name and fits every type.\<close>

definition check_values :: "('s \<Rightarrow> string) \<Rightarrow> ('s \<Rightarrow> bool) \<Rightarrow> 's gomap \<Rightarrow> json gomap \<Rightarrow> interface_error option" where
  "check_values ty req specs vals =
    seq_err (first_error (\<lambda>(name, spec).
        guard_err (req spec \<and> (map_of vals name = None \<or> map_of vals name = Some JNull)) (ValueRequired name) None) specs)
      (first_error (\<lambda>(name, v).
        case map_of specs name of
          None \<Rightarrow> Some (ValueUndeclared name)
        | Some spec \<Rightarrow> guard_err (v \<noteq> JNull \<and> \<not> TypeAccepts (ty spec) (ValueType v))
            (ValueTyped name (ValueType v) (ty spec)) None) vals)"

definition CheckInputs :: "WorkflowInterface \<Rightarrow> json gomap \<Rightarrow> interface_error option" where
  "CheckInputs w vals = check_values is_type is_required (wi_inputs w) vals"

definition CheckOutputs :: "WorkflowInterface \<Rightarrow> json gomap \<Rightarrow> interface_error option" where
  "CheckOutputs w vals = check_values os_type os_required (wi_outputs w) vals"

definition encode_values :: "(json gomap \<Rightarrow> string option) \<Rightarrow> json gomap \<Rightarrow> string option" where
  "encode_values marshal vals = (if vals = [] then Some [] else marshal vals)"

definition EncodeInputs :: "(json gomap \<Rightarrow> string option) \<Rightarrow> json gomap \<Rightarrow> string option" where
  "EncodeInputs = encode_values"

definition EncodeOutputs :: "(json gomap \<Rightarrow> string option) \<Rightarrow> json gomap \<Rightarrow> string option" where
  "EncodeOutputs = encode_values"

definition decode_values :: "(string \<Rightarrow> json gomap option) \<Rightarrow> string \<Rightarrow> json gomap option" where
  "decode_values decode s = (if s = [] then Some [] else decode s)"

definition DecodeInputs :: "(string \<Rightarrow> json gomap option) \<Rightarrow> string \<Rightarrow> json gomap option" where
  "DecodeInputs = decode_values"

definition DecodeOutputs :: "(string \<Rightarrow> json gomap option) \<Rightarrow> string \<Rightarrow> json gomap option" where
  "DecodeOutputs = decode_values"

lemma check_values_None:
  "check_values ty req specs vals = None \<longleftrightarrow>
    (\<forall>(name, spec)\<in>set specs. req spec \<longrightarrow> map_of vals name \<noteq> None \<and> map_of vals name \<noteq> Some JNull)
    \<and> (\<forall>(name, v)\<in>set vals. \<exists>spec. map_of specs name = Some spec \<and> (v = JNull \<or> TypeAccepts (ty spec) (ValueType v)))"
  by (fastforce simp: check_values_def split: option.splits)

section \<open>Which workflows an org has turned off\<close>

type_synonym WorkflowEnablement = "string list gomap"

definition disabled_of :: "WorkflowEnablement \<Rightarrow> string \<Rightarrow> string list" where
  "disabled_of e owner = (case map_of e owner of None \<Rightarrow> [] | Some ds \<Rightarrow> ds)"

definition Enabled :: "WorkflowEnablement \<Rightarrow> string \<Rightarrow> string \<Rightarrow> bool" where
  "Enabled e owner workflow \<longleftrightarrow> workflow \<notin> set (disabled_of e owner)"

definition SetEnabled :: "WorkflowEnablement \<Rightarrow> string \<Rightarrow> string \<Rightarrow> bool \<Rightarrow> WorkflowEnablement" where
  "SetEnabled e owner workflow enabled =
    (let kept = filter (\<lambda>x. x \<noteq> workflow) (disabled_of e owner)
     in map_put owner (if enabled then kept else kept @ [workflow]) e)"

datatype enablement_error =
    OrgRequired
  | WorkflowRequired string
  | ListedTwice string string

fun validate_disabled :: "string \<Rightarrow> string list \<Rightarrow> string list \<Rightarrow> enablement_error option" where
  "validate_disabled owner seen [] = None"
| "validate_disabled owner seen (w # ws) =
    guard_err (blank w) (WorkflowRequired owner)
    (guard_err (w \<in> set seen) (ListedTwice owner w) (validate_disabled owner (w # seen) ws))"

definition ValidateEnablement :: "WorkflowEnablement \<Rightarrow> enablement_error option" where
  "ValidateEnablement e =
    first_error (\<lambda>(owner, ds). guard_err (blank owner) OrgRequired (validate_disabled owner [] ds)) e"

lemma validate_disabled_None:
  "validate_disabled owner seen ws = None \<longleftrightarrow> distinct ws \<and> set ws \<inter> set seen = {} \<and> (\<forall>w\<in>set ws. \<not> blank w)"
  by (induction owner seen ws rule: validate_disabled.induct) auto

lemma ValidateEnablement_None:
  "ValidateEnablement e = None \<longleftrightarrow>
    (\<forall>(owner, ds)\<in>set e. \<not> blank owner \<and> distinct ds \<and> (\<forall>w\<in>set ds. \<not> blank w))"
  by (auto simp: ValidateEnablement_def validate_disabled_None)

lemma disabled_of_SetEnabled:
  "disabled_of (SetEnabled e owner workflow on) o' =
    (if o' = owner then filter (\<lambda>x. x \<noteq> workflow) (disabled_of e owner) @ (if on then [] else [workflow])
     else disabled_of e o')"
  by (simp add: disabled_of_def SetEnabled_def Let_def)

text \<open>C35: turning a workflow on or off for an org changes that workflow of that org and nothing else, and
  turning it back restores what was enabled; a valid value stays valid, so a workflow is never listed
  twice.\<close>

theorem SetEnabled_exact:
  "(\<forall>o' w. Enabled (SetEnabled e owner workflow on) o' w = (if o' = owner \<and> w = workflow then on else Enabled e o' w))
    \<and> (\<forall>o' w. Enabled (SetEnabled (SetEnabled e owner workflow (\<not> Enabled e owner workflow)) owner workflow
          (Enabled e owner workflow)) o' w = Enabled e o' w)
    \<and> (ValidateEnablement e = None \<and> \<not> blank owner \<and> \<not> blank workflow \<longrightarrow>
        ValidateEnablement (SetEnabled e owner workflow on) = None)"
proof -
  have valid: "ValidateEnablement (SetEnabled e owner workflow on) = None"
    if e: "ValidateEnablement e = None" and b: "\<not> blank owner" "\<not> blank workflow"
  proof -
    have d: "distinct (disabled_of e owner) \<and> (\<forall>w\<in>set (disabled_of e owner). \<not> blank w)"
      using e unfolding ValidateEnablement_None disabled_of_def
      by (cases "map_of e owner") (auto dest: map_of_SomeD)
    let ?ds = "if on then filter (\<lambda>x. x \<noteq> workflow) (disabled_of e owner) else filter (\<lambda>x. x \<noteq> workflow) (disabled_of e owner) @ [workflow]"
    have "set (SetEnabled e owner workflow on) \<subseteq> insert (owner, ?ds) (set e)"
      unfolding SetEnabled_def Let_def by (rule map_put_pairs)
    then show ?thesis using e d b unfolding ValidateEnablement_None by (fastforce simp: subset_iff split: if_splits)
  qed
  then show ?thesis by (auto simp: Enabled_def disabled_of_SetEnabled)
qed

theorem SetEnabled_exact_witness:
  "ValidateEnablement (SetEnabled [(''acme'', [''review''])] ''acme'' ''deploy'' False) = None
   \<and> \<not> Enabled (SetEnabled [(''acme'', [''review''])] ''acme'' ''deploy'' False) ''acme'' ''deploy''
   \<and> Enabled (SetEnabled [(''acme'', [''review''])] ''acme'' ''deploy'' False) ''other'' ''review''"
proof -
  have "ValidateEnablement [(''acme'', [''review''])] = None"
    by (simp add: ValidateEnablement_None not_blank_visible ascii_visible_def byte_of_def)
  moreover have "\<not> blank ''acme''" "\<not> blank ''deploy''"
    by (simp_all add: not_blank_visible ascii_visible_def byte_of_def)
  moreover have "Enabled [(''acme'', [''review''])] ''other'' ''review''" by (simp add: Enabled_def disabled_of_def)
  ultimately show ?thesis using SetEnabled_exact [of "[(''acme'', [''review''])]" "''acme''" "''deploy''" False] by auto
qed

end
