(* ===== verification/Binding.thy ===== *)
theory Binding
  imports Field_Mapping_Spec Workflow_Interface
begin

text \<open>
  Bindings (\<open>domain/binding\<close>): a source, a mapping, an optional filter and a workflow. The checks when a
  binding is saved (\<open>binding.go\<close>, \<open>inputs.go\<close>), the filter over the mapped parameters (\<open>filter.go\<close>, with
  the expression engine as a parameter), and the target a dispatch resolves to
  (\<open>daemon/binding_target.go\<close>). The messages of the errors are constructors here, and the timestamps of
  a binding are left out.
\<close>

section \<open>Bindings\<close>

definition StatusPendingApproval :: string where [go_string_simps]: "StatusPendingApproval = ''pending_approval''"
definition StatusArmed :: string where [go_string_simps]: "StatusArmed = ''armed''"
definition StatusPaused :: string where [go_string_simps]: "StatusPaused = ''paused''"

record InputSource =
  src_param :: string
  src_value :: json

record Binding =
  b_id :: string
  b_name :: string
  b_source :: string
  b_mapping :: string
  b_filter :: string
  b_workflow :: string
  b_owner :: string
  b_repo :: string
  b_repo_param :: string
  b_inputs :: "InputSource gomap"
  b_org :: string
  b_version :: int
  b_status :: string

datatype binding_error =
    BindingNameRequired
  | MatcherSourceRequired
  | MappingRequired
  | BindingWorkflowRequired
  | HalfRepository
  | TwoRepositories
  | ParamOrConstant string
  | InputUndeclared string string
  | ParamUnknown string string
  | ParamTyped string string string string
  | ConstantTyped string string string
  | InputMissing string string
  | RepositoryForbidden string
  | RepoParamUnknown string
  | RepoParamTyped string string
  | RepoParamMalformed string string
  | FilterEnv
  | FilterIssues
  | FilterNotBool
  | FilterProgram
  | FilterEval

text \<open>\<open>InputSource.validate\<close>: a nil constant is a JSON null.\<close>

definition validate_source :: "InputSource \<Rightarrow> string \<Rightarrow> binding_error option" where
  "validate_source s name = guard_err ((src_param s = []) = (src_value s = JNull)) (ParamOrConstant name) None"

definition ValidateBinding :: "Binding \<Rightarrow> binding_error option" where
  "ValidateBinding b =
    guard_err (blank (b_name b)) BindingNameRequired
    (guard_err (blank (b_source b)) MatcherSourceRequired
    (guard_err (blank (b_mapping b)) MappingRequired
    (guard_err (blank (b_workflow b)) BindingWorkflowRequired
    (guard_err ((b_owner b = []) \<noteq> (b_repo b = [])) HalfRepository
    (guard_err (b_owner b \<noteq> [] \<and> b_repo_param b \<noteq> []) TwoRepositories
    (first_error (\<lambda>name. validate_source (the (map_of (b_inputs b) name)) name) (sorted_keys (b_inputs b))))))))"

definition matcher_matches :: "string \<Rightarrow> string \<Rightarrow> bool \<Rightarrow> bool" where
  "matcher_matches matcher_source source dispatchable \<longleftrightarrow> dispatchable \<and> matcher_source = source"

section \<open>The check against the workflow and the mapping\<close>

definition checkRepository :: "Binding \<Rightarrow> string \<Rightarrow> Field gomap \<Rightarrow> binding_error option" where
  "checkRepository b mode byName =
    guard_err (mode = RepositoryNone \<and> (b_owner b \<noteq> [] \<or> b_repo_param b \<noteq> [])) (RepositoryForbidden (b_workflow b))
    (if b_repo_param b = [] then None
     else (case map_of byName (b_repo_param b) of
         None \<Rightarrow> Some (RepoParamUnknown (b_repo_param b))
       | Some f \<Rightarrow> guard_err (f_type f \<noteq> TypeString) (RepoParamTyped (b_repo_param b) (f_type f)) None))"

definition by_name :: "Field list \<Rightarrow> Field gomap" where
  "by_name fs = fold (\<lambda>f m. map_put (f_name f) f m) fs []"

definition check_source :: "Binding \<Rightarrow> WorkflowInterface \<Rightarrow> Field gomap \<Rightarrow> string \<Rightarrow> InputSource \<Rightarrow> binding_error option" where
  "check_source b w byName name src = (case map_of (wi_inputs w) name of
     None \<Rightarrow> Some (InputUndeclared name (b_workflow b))
   | Some spec \<Rightarrow>
       if src_param src \<noteq> [] then
         (case map_of byName (src_param src) of
            None \<Rightarrow> Some (ParamUnknown name (src_param src))
          | Some f \<Rightarrow> guard_err (\<not> TypeAccepts (is_type spec) (f_type f))
              (ParamTyped name (is_type spec) (src_param src) (f_type f)) None)
       else guard_err (\<not> TypeAccepts (is_type spec) (ValueType (src_value src)))
              (ConstantTyped name (is_type spec) (ValueType (src_value src))) None)"

definition CheckWorkflow :: "Binding \<Rightarrow> WorkflowInterface \<Rightarrow> Field list \<Rightarrow> binding_error option" where
  "CheckWorkflow b w fs =
    (let byName = by_name fs in
     seq_err (first_error (\<lambda>name. check_source b w byName name (the (map_of (b_inputs b) name))) (sorted_keys (b_inputs b)))
     (seq_err (first_error (\<lambda>name.
          guard_err (is_required (the (map_of (wi_inputs w) name)) \<and> map_of (b_inputs b) name = None)
            (InputMissing (b_workflow b) name) None) (sorted_keys (wi_inputs w)))
     (checkRepository b (RepositoryMode w) byName)))"

section \<open>What a dispatch carries\<close>

definition ResolveInputs :: "Binding \<Rightarrow> json gomap \<Rightarrow> json gomap" where
  "ResolveInputs b vals = fold (\<lambda>(name, src) out.
     if src_param src = [] then map_put name (src_value src) out
     else (case map_of vals (src_param src) of None \<Rightarrow> out | Some v \<Rightarrow> map_put name v out)) (b_inputs b) []"

text \<open>\<open>Inr None\<close> is a binding with no repository parameter (\<open>ok\<close> is false).\<close>

definition RepositoryFrom :: "Binding \<Rightarrow> json gomap \<Rightarrow> binding_error + (string \<times> string) option" where
  "RepositoryFrom b vals =
    (if b_repo_param b = [] then Inr None
     else (let full = (case map_of vals (b_repo_param b) of Some (JString s) \<Rightarrow> s | _ \<Rightarrow> []) in
       case cut_byte full CHR ''/'' of (owner, repo, found) \<Rightarrow>
         if \<not> found \<or> owner = [] \<or> repo = [] \<or> contains_sub repo ''/''
         then Inl (RepoParamMalformed (b_repo_param b) full)
         else Inr (Some (owner, repo))))"

section \<open>Filters\<close>

datatype cel_type = CelString | CelDouble | CelBool | CelMap | CelList | CelDyn

definition celType :: "string \<Rightarrow> cel_type" where
  "celType t = (if t = TypeString then CelString else if t = TypeNumber then CelDouble
     else if t = TypeBool then CelBool else if t = TypeObject then CelMap
     else if t = TypeArray then CelList else CelDyn)"

text \<open>The engine: whether an environment of typed variables can be built, the check of a source in it
  (its result is whether the type is boolean), and the program, whose evaluation may fail.\<close>

record Cel =
  cel_env :: "(string \<times> cel_type) list \<Rightarrow> bool"
  cel_compile :: "(string \<times> cel_type) list \<Rightarrow> string \<Rightarrow> bool option"
  cel_program :: "(string \<times> cel_type) list \<Rightarrow> string \<Rightarrow> (json gomap \<Rightarrow> json option) option"

type_synonym Filter = "json gomap \<Rightarrow> json option"

definition CompileFilter :: "Cel \<Rightarrow> string \<Rightarrow> Field list \<Rightarrow> binding_error + Filter option" where
  "CompileFilter cel src fs =
    (if blank src then Inr None
     else (let env = map (\<lambda>f. (f_name f, celType (f_type f))) fs in
       if \<not> cel_env cel env then Inl FilterEnv
       else (case cel_compile cel env src of
           None \<Rightarrow> Inl FilterIssues
         | Some bool_result \<Rightarrow>
             if \<not> bool_result then Inl FilterNotBool
             else (case cel_program cel env src of None \<Rightarrow> Inl FilterProgram | Some prg \<Rightarrow> Inr (Some prg)))))"

definition Admits :: "Filter option \<Rightarrow> json gomap \<Rightarrow> bool \<times> binding_error option" where
  "Admits filt vals = (case filt of
     None \<Rightarrow> (True, None)
   | Some prg \<Rightarrow> (case prg vals of
         None \<Rightarrow> (False, Some FilterEval)
       | Some v \<Rightarrow> (v = JBool True, None)))"

section \<open>The target of a dispatch (binding\_target.go)\<close>

datatype dispatch_reason =
    WorkflowUndefined string
  | WorkflowInvalid string interface_error
  | InputsMismatch interface_error
  | RepositoryMalformed binding_error
  | RepositoryNotConfigured string string
  | CannotPickRepository nat
  | MappingGone string
  | RequiredFieldFailed
  | FilterBroken
  | Filtered
  | AccessDenied

record bindingTarget =
  bt_owner :: string
  bt_repo :: string
  bt_inputs :: "json gomap"
  bt_declared :: bool

text \<open>The repositories are the configured ones, as owner and name.\<close>

definition repoConfigured :: "(string \<times> string) list \<Rightarrow> string \<Rightarrow> string \<Rightarrow> bool" where
  "repoConfigured repos owner repo \<longleftrightarrow> list_ex (\<lambda>(o', n). o' = owner \<and> n = repo) repos"

definition resolveBindingRepo :: "(string \<times> string) list \<Rightarrow> Binding \<Rightarrow> dispatch_reason + string \<times> string" where
  "resolveBindingRepo repos b =
    (if b_owner b \<noteq> [] \<and> b_repo b \<noteq> [] then Inr (b_owner b, b_repo b)
     else (case repos of [r] \<Rightarrow> Inr r | _ \<Rightarrow> Inl (CannotPickRepository (length repos))))"

definition resolveBindingTarget ::
    "(string \<Rightarrow> WorkflowInterface option) \<Rightarrow> (string \<times> string) list \<Rightarrow> Binding \<Rightarrow> json gomap \<Rightarrow> (string \<Rightarrow> string option)
     \<Rightarrow> dispatch_reason + bindingTarget" where
  "resolveBindingTarget unmarshal_yaml repos b vals workflows = (case workflows (b_workflow b) of
     None \<Rightarrow> Inl (WorkflowUndefined (b_workflow b))
   | Some yaml \<Rightarrow> (case ParseWorkflowInterface unmarshal_yaml yaml of
       Inl e \<Rightarrow> Inl (WorkflowInvalid (b_workflow b) e)
     | Inr iface \<Rightarrow>
         (let inputs = ResolveInputs b vals;
              target = (\<lambda>ow rp. \<lparr>bt_owner = ow, bt_repo = rp, bt_inputs = inputs, bt_declared = (wi_inputs iface \<noteq> [])\<rparr>);
              mode = RepositoryMode iface
          in case CheckInputs iface inputs of
            Some e \<Rightarrow> Inl (InputsMismatch e)
          | None \<Rightarrow>
              if mode = RepositoryNone then Inr (target [] [])
              else if b_repo_param b \<noteq> [] then
                (case RepositoryFrom b vals of
                   Inl e \<Rightarrow> Inl (RepositoryMalformed e)
                 | Inr r \<Rightarrow> (case (case r of None \<Rightarrow> ([], []) | Some p \<Rightarrow> p) of (ow, rp) \<Rightarrow>
                     if \<not> repoConfigured repos ow rp then Inl (RepositoryNotConfigured ow rp) else Inr (target ow rp)))
              else if mode = RepositoryOptional \<and> b_owner b = [] then Inr (target [] [])
              else (case resolveBindingRepo repos b of
                  Inl e \<Rightarrow> Inl e
                | Inr (ow, rp) \<Rightarrow> Inr (target ow rp)))))"

end
