(* ===== verification/Access.thy ===== *)
theory Access
  imports Go_Prelude
begin

text \<open>
  Access control: the vocabulary and the checks of policies (\<open>domain/access\<close>, \<open>domain/org\<close>), the chain of
  levels that decides a request (\<open>infrastructure/access/engine.go\<close>), the entities and the request it hands
  to Cedar (\<open>entities.go\<close>), and the engine that is reloaded from the store (\<open>live.go\<close>). Cedar itself, its
  parser, its schema validator and its authorizer, is the record \<open>Cedar\<close>.
\<close>

section \<open>Orgs, roles and memberships\<close>

definition DefaultOrgID :: string where "DefaultOrgID = ''org-sys''"
definition DefaultWorkspaceID :: string where "DefaultWorkspaceID = ''default''"

definition RoleOwner :: string where [go_string_simps]: "RoleOwner = ''owner''"
definition RoleAdmin :: string where [go_string_simps]: "RoleAdmin = ''admin''"
definition RoleDeveloper :: string where [go_string_simps]: "RoleDeveloper = ''developer''"
definition RoleViewer :: string where [go_string_simps]: "RoleViewer = ''viewer''"

record Membership =
  mb_identity :: string
  mb_org :: string
  mb_workspace :: string
  mb_role :: string

datatype org_error =
    ErrInvalidRole string
  | ErrInvalidMembership

definition ValidateRole :: "string \<Rightarrow> org_error option" where
  "ValidateRole r = (if r \<in> {RoleOwner, RoleAdmin, RoleDeveloper, RoleViewer} then None else Some (ErrInvalidRole r))"

definition ValidateMembership :: "Membership \<Rightarrow> org_error option" where
  "ValidateMembership m = guard_err (mb_identity m = []) ErrInvalidMembership
     (guard_err (mb_org m = []) ErrInvalidMembership (ValidateRole (mb_role m)))"

section \<open>Policies\<close>

definition LevelInstance :: string where [go_string_simps]: "LevelInstance = ''instance''"
definition LevelOrg :: string where [go_string_simps]: "LevelOrg = ''org''"
definition LevelWorkspace :: string where [go_string_simps]: "LevelWorkspace = ''workspace''"
definition LevelObject :: string where [go_string_simps]: "LevelObject = ''object''"

definition KindPolicy :: string where [go_string_simps]: "KindPolicy = ''policy''"
definition KindSource :: string where [go_string_simps]: "KindSource = ''source''"
definition KindWorkflow :: string where [go_string_simps]: "KindWorkflow = ''workflow''"
definition ActionRun :: string where [go_string_simps]: "ActionRun = ''run''"
definition ActionDeliver :: string where [go_string_simps]: "ActionDeliver = ''deliver''"
definition ActionManagePolicies :: string where [go_string_simps]: "ActionManagePolicies = ''manage_policies''"

definition access_actions :: "string list" where
  "access_actions = [''read'', ''create'', ''update'', ''delete'', ''approve'', ActionRun, ActionDeliver, ''read_logs'',
     ''read_secret'', ''manage_members'', ''manage_identities'', ActionManagePolicies]"

record Policy =
  pl_id :: string
  pl_level :: string
  pl_org :: string
  pl_workspace :: string
  pl_kind :: string
  pl_object :: string
  pl_text :: string

datatype access_error =
    ErrInvalidLevel string
  | ErrInvalidAction string
  | ErrInvalidPolicy string
  | ErrPolicyNotFound
  | ErrPolicyInvalidText string
  | ErrPolicyLockout
  | ErrChainUnavailable

definition ValidateLevel :: "string \<Rightarrow> access_error option" where
  "ValidateLevel l = (if l \<in> {LevelInstance, LevelOrg, LevelWorkspace, LevelObject} then None else Some (ErrInvalidLevel l))"

definition ValidateAction :: "string \<Rightarrow> access_error option" where
  "ValidateAction a = (if a \<in> set access_actions then None else Some (ErrInvalidAction a))"

definition ValidatePolicy :: "Policy \<Rightarrow> access_error option" where
  "ValidatePolicy p =
    guard_err (blank (pl_id p)) (ErrInvalidPolicy ''no ID'')
    (seq_err (ValidateLevel (pl_level p))
    (seq_err
      (if pl_level p = LevelOrg then
         guard_err (pl_org p = []) (ErrInvalidPolicy ''org policy carries no org'') None
       else if pl_level p = LevelWorkspace then
         guard_err (pl_org p = [] \<or> pl_workspace p = []) (ErrInvalidPolicy ''workspace policy carries no org or workspace'') None
       else if pl_level p = LevelObject then
         guard_err (pl_org p = [] \<or> pl_kind p = [] \<or> pl_object p = []) (ErrInvalidPolicy ''object policy carries no org, kind or ID'') None
       else None)
    (guard_err (blank (pl_text p)) (ErrInvalidPolicy ''no text'') None)))"

section \<open>Requests\<close>

record Principal =
  pn_identity :: string
  pn_kind :: string
  pn_org :: string
  pn_memberships :: "Membership list"

text \<open>\<open>Role\<close>: the first membership of the workspace, else the last org-wide one.\<close>

fun role_from :: "string \<Rightarrow> string \<Rightarrow> string \<Rightarrow> Membership list \<Rightarrow> string" where
  "role_from own ws orgRole [] = orgRole"
| "role_from own ws orgRole (m # ms) =
    (if mb_org m \<noteq> own then role_from own ws orgRole ms
     else if mb_workspace m = ws then mb_role m
     else role_from own ws (if mb_workspace m = [] then mb_role m else orgRole) ms)"

definition Role :: "Principal \<Rightarrow> string \<Rightarrow> string" where
  "Role p ws = role_from (pn_org p) ws [] (pn_memberships p)"

definition InstanceAdmin :: "Principal \<Rightarrow> bool" where
  "InstanceAdmin p \<longleftrightarrow>
    list_ex (\<lambda>m. mb_org m = DefaultOrgID \<and> mb_workspace m = [] \<and> mb_role m = RoleOwner) (pn_memberships p)"

definition SharedTokenOwner :: Principal where
  "SharedTokenOwner = \<lparr>pn_identity = ''system'', pn_kind = ''system'', pn_org = DefaultOrgID,
     pn_memberships = [\<lparr>mb_identity = ''system'', mb_org = DefaultOrgID, mb_workspace = [], mb_role = RoleOwner\<rparr>]\<rparr>"

record Resource =
  rs_kind :: string
  rs_id :: string
  rs_org :: string
  rs_workspace :: string
  rs_owner :: string
  rs_state :: string

text \<open>\<open>cx_time = 0\<close> is the zero time.\<close>

record Context =
  cx_signature :: string
  cx_addr :: string
  cx_time :: int
  cx_run :: string
  cx_step :: string

definition no_context :: Context where
  "no_context = \<lparr>cx_signature = [], cx_addr = [], cx_time = 0, cx_run = [], cx_step = []\<rparr>"

record Decision =
  dc_allowed :: bool
  dc_level :: string
  dc_policies :: "string list"
  dc_err :: "access_error option"

definition Allowed :: Decision where
  "Allowed = \<lparr>dc_allowed = True, dc_level = [], dc_policies = [], dc_err = None\<rparr>"

definition Unavailable :: Decision where
  "Unavailable = \<lparr>dc_allowed = False, dc_level = LevelInstance, dc_policies = [], dc_err = Some ErrChainUnavailable\<rparr>"

definition DeniedAt :: "string \<Rightarrow> string list \<Rightarrow> Decision" where
  "DeniedAt level policies = \<lparr>dc_allowed = False, dc_level = level, dc_policies = policies, dc_err = None\<rparr>"

definition Governs :: "Policy \<Rightarrow> Resource \<Rightarrow> bool" where
  "Governs p r \<longleftrightarrow>
    \<not> (pl_level p \<noteq> LevelInstance \<and> pl_org p \<noteq> rs_org r)
    \<and> \<not> ((pl_level p = LevelWorkspace \<or> pl_level p = LevelObject) \<and> pl_workspace p \<noteq> rs_workspace r)
    \<and> \<not> (pl_level p = LevelObject \<and> (pl_kind p \<noteq> rs_kind r \<or> pl_object p \<noteq> rs_id r))"

definition CrossOrgForbidID :: string where "CrossOrgForbidID = ''instance-cross-org''"
definition SenderID :: string where "SenderID = ''sender''"

section \<open>What Cedar is given (entities.go)\<close>

type_synonym uid = "string \<times> string"

record entity =
  en_uid :: uid
  en_parents :: "uid list"
  en_attrs :: "string gomap"

datatype cedar_value = CedarString string | CedarAddr string | CedarTime int

record request =
  rq_principal :: uid
  rq_action :: uid
  rq_resource :: uid
  rq_context :: "cedar_value gomap"

record 'pol Cedar =
  cd_parse :: "string \<Rightarrow> string \<Rightarrow> 'pol list option"
  cd_schema :: "string \<Rightarrow> 'pol \<Rightarrow> bool"
  cd_authorize :: "(string \<rightharpoonup> 'pol) \<Rightarrow> (uid \<times> entity) list \<Rightarrow> request \<Rightarrow> bool \<times> string list"
  cd_parse_ip :: "string \<Rightarrow> string option"
  cd_now :: int

definition buildRequest :: "'pol Cedar \<Rightarrow> Principal \<Rightarrow> string \<Rightarrow> Resource \<Rightarrow> Context \<Rightarrow> request" where
  "buildRequest cd p a r c =
    (let r0 = (if cx_signature c \<noteq> [] then [(''signature'', CedarString (cx_signature c))] else []);
         r1 = (if cx_addr c \<noteq> [] then (case cd_parse_ip cd (cx_addr c) of Some x \<Rightarrow> map_put ''addr'' (CedarAddr x) r0 | None \<Rightarrow> r0) else r0);
         r2 = (if cx_run c \<noteq> [] then map_put ''run'' (CedarString (cx_run c)) r1 else r1);
         r3 = (if cx_step c \<noteq> [] then map_put ''step'' (CedarString (cx_step c)) r2 else r2)
     in \<lparr>rq_principal = (''Archie::Identity'', pn_identity p), rq_action = (''Archie::Action'', a),
         rq_resource = (''Archie::Object'', rs_id r),
         rq_context = map_put ''time'' (CedarTime (if cx_time c = 0 then cd_now cd else cx_time c)) r3\<rparr>)"

definition buildEntities :: "Principal \<Rightarrow> Resource \<Rightarrow> (uid \<times> entity) list" where
  "buildEntities p r =
    (let resOrg = (if rs_org r = [] then pn_org p else rs_org r);
         orgUID = (''Archie::Org'', resOrg);
         principalUID = (''Archie::Identity'', pn_identity p);
         wsUID = (''Archie::Workspace'', rs_workspace r);
         resUID = (''Archie::Object'', rs_id r);
         e0 = [(orgUID, \<lparr>en_uid = orgUID, en_parents = [], en_attrs = []\<rparr>)];
         e1 = map_put principalUID \<lparr>en_uid = principalUID, en_parents = [orgUID],
                en_attrs = [(''org'', resOrg), (''role'', Role p (rs_workspace r))]\<rparr> e0;
         e2 = (if rs_workspace r \<noteq> [] then map_put wsUID \<lparr>en_uid = wsUID, en_parents = [orgUID], en_attrs = [(''org'', resOrg)]\<rparr> e1 else e1);
         parents = [orgUID] @ (if rs_workspace r \<noteq> [] then [wsUID] else []);
         attrs = [(''org'', resOrg), (''workspace'', rs_workspace r), (''kind'', rs_kind r)]
           @ (if rs_owner r \<noteq> [] then [(''owner'', rs_owner r)] else [])
           @ (if rs_state r \<noteq> [] then [(''state'', rs_state r)] else [])
     in map_put resUID \<lparr>en_uid = resUID, en_parents = parents, en_attrs = attrs\<rparr> e2)"

section \<open>The engine (engine.go)\<close>

record 'pol levelSet =
  ls_at :: string
  ls_ids :: "string list"
  ls_set :: "string \<rightharpoonup> 'pol"
  ls_invalid :: "access_error option"

definition new_level :: "string \<Rightarrow> 'pol levelSet" where
  "new_level at = \<lparr>ls_at = at, ls_ids = [], ls_set = Map.empty, ls_invalid = None\<rparr>"

definition level_active :: "'pol levelSet option \<Rightarrow> bool" where
  "level_active l = (case l of None \<Rightarrow> False | Some s \<Rightarrow> ls_ids s \<noteq> [] \<or> ls_invalid s \<noteq> None)"

text \<open>A level set is located by its key. The four maps of the engine are one here, keyed by the level and
  the parts of the scope that its map uses; an unknown level has no key.\<close>

datatype level_key =
    AtInstance
  | AtOrg string
  | AtSpace string string
  | AtObject string string string

definition level_key_of :: "Policy \<Rightarrow> level_key option" where
  "level_key_of p =
    (if pl_level p = LevelInstance then Some AtInstance
     else if pl_level p = LevelOrg then Some (AtOrg (pl_org p))
     else if pl_level p = LevelWorkspace then Some (AtSpace (pl_org p) (pl_workspace p))
     else if pl_level p = LevelObject then Some (AtObject (pl_org p) (pl_kind p) (pl_object p))
     else None)"

record 'pol Engine =
  eg_levels :: "level_key \<rightharpoonup> 'pol levelSet"
  eg_problems :: "(Policy \<times> access_error) list"
  eg_pending :: bool

definition pendingEngine :: "'pol Engine" where
  "pendingEngine = \<lparr>eg_levels = Map.empty, eg_problems = [], eg_pending = True\<rparr>"

definition Ready :: "'pol Engine \<Rightarrow> bool" where
  "Ready e \<longleftrightarrow> \<not> eg_pending e"

definition compile :: "'pol Cedar \<Rightarrow> Policy \<Rightarrow> access_error + 'pol" where
  "compile cd p = (case ValidatePolicy p of
     Some e \<Rightarrow> Inl e
   | None \<Rightarrow> (case cd_parse cd (pl_id p) (pl_text p) of
       Some [q] \<Rightarrow> if cd_schema cd (pl_id p) q then Inr q else Inl (ErrPolicyInvalidText (pl_id p))
     | _ \<Rightarrow> Inl (ErrPolicyInvalidText (pl_id p))))"

definition ValidateText :: "'pol Cedar \<Rightarrow> Policy \<Rightarrow> access_error option" where
  "ValidateText cd p = (case compile cd p of Inl e \<Rightarrow> Some e | Inr _ \<Rightarrow> None)"

definition add_policy :: "'pol Cedar \<Rightarrow> Policy \<Rightarrow> 'pol levelSet \<Rightarrow> 'pol levelSet" where
  "add_policy cd p lvl = (case compile cd p of
     Inl err \<Rightarrow> lvl\<lparr>ls_ids := ls_ids lvl @ [pl_id p], ls_invalid := Some err\<rparr>
   | Inr q \<Rightarrow> lvl\<lparr>ls_ids := ls_ids lvl @ [pl_id p], ls_set := (ls_set lvl)(pl_id p \<mapsto> q)\<rparr>)"

definition new_step :: "'pol Cedar \<Rightarrow> Policy \<Rightarrow> 'pol Engine \<Rightarrow> 'pol Engine option" where
  "new_step cd p e = (case level_key_of p of
     None \<Rightarrow> None
   | Some k \<Rightarrow>
       (let lvl = (case eg_levels e k of None \<Rightarrow> new_level (pl_level p) | Some l \<Rightarrow> l)
        in Some (e\<lparr>eg_levels := (eg_levels e)(k \<mapsto> add_policy cd p lvl),
             eg_problems := eg_problems e @ (case compile cd p of Inl err \<Rightarrow> [(p, err)] | Inr _ \<Rightarrow> [])\<rparr>)))"

text \<open>\<open>New\<close> writes through the level of each policy, so a policy of an unknown level, for which the lookup
  returns nil, is a panic: the value \<open>None\<close>.\<close>

fun new_from :: "'pol Cedar \<Rightarrow> Policy list \<Rightarrow> 'pol Engine \<Rightarrow> 'pol Engine option" where
  "new_from cd [] e = Some e"
| "new_from cd (p # ps) e = (case new_step cd p e of None \<Rightarrow> None | Some e' \<Rightarrow> new_from cd ps e')"

definition New :: "'pol Cedar \<Rightarrow> Policy list \<Rightarrow> 'pol Engine option" where
  "New cd policies = new_from cd policies \<lparr>eg_levels = Map.empty, eg_problems = [], eg_pending = False\<rparr>"

fun evaluate :: "'pol Cedar \<Rightarrow> 'pol levelSet option list \<Rightarrow> (uid \<times> entity) list \<Rightarrow> request \<Rightarrow> Decision" where
  "evaluate cd [] ents rq = Allowed"
| "evaluate cd (None # ls) ents rq = evaluate cd ls ents rq"
| "evaluate cd (Some lvl # ls) ents rq =
    (if \<not> level_active (Some lvl) then evaluate cd ls ents rq
     else (case ls_invalid lvl of
         Some err \<Rightarrow> (DeniedAt (ls_at lvl) (ls_ids lvl))\<lparr>dc_err := Some err\<rparr>
       | None \<Rightarrow> (case cd_authorize cd (ls_set lvl) ents rq of (allow, reasons) \<Rightarrow>
           if allow then evaluate cd ls ents rq
           else DeniedAt (ls_at lvl) (if reasons = [] then ls_ids lvl else reasons))))"

definition chain :: "'pol Engine \<Rightarrow> Principal \<Rightarrow> Resource \<Rightarrow> 'pol levelSet option list" where
  "chain e p r =
    (let inst = eg_levels e AtInstance in
     (if inst = None \<or> ls_invalid (the inst) = None \<or> rs_kind r \<noteq> KindPolicy \<or> \<not> InstanceAdmin p then [inst] else [])
     @ (case eg_levels e (AtOrg (rs_org r)) of Some l \<Rightarrow> [Some l] | None \<Rightarrow> [])
     @ (if rs_workspace r \<noteq> [] then (case eg_levels e (AtSpace (rs_org r) (rs_workspace r)) of Some l \<Rightarrow> [Some l] | None \<Rightarrow> []) else [])
     @ (if rs_org r \<noteq> [] \<and> rs_id r \<noteq> [] then
          (case eg_levels e (AtObject (rs_org r) (rs_kind r) (rs_id r)) of Some l \<Rightarrow> [Some l] | None \<Rightarrow> []) else []))"

definition Authorize :: "'pol Cedar \<Rightarrow> 'pol Engine \<Rightarrow> Principal \<Rightarrow> string \<Rightarrow> Resource \<Rightarrow> Context \<Rightarrow> Decision" where
  "Authorize cd e p a r c =
    (if eg_pending e then Unavailable
     else (let resOrg = (if rs_org r = [] then pn_org p else rs_org r) in
       if pn_org p = [] \<or> resOrg \<noteq> pn_org p then DeniedAt LevelInstance [CrossOrgForbidID]
       else evaluate cd (chain e p r) (buildEntities p r) (buildRequest cd p a r c)))"

definition AuthorizeDelivery :: "'pol Cedar \<Rightarrow> 'pol Engine \<Rightarrow> string \<Rightarrow> string \<Rightarrow> string \<Rightarrow> Decision" where
  "AuthorizeDelivery cd e orgID sourcePath addr =
    (if eg_pending e then Unavailable
     else (let sender = \<lparr>pn_identity = SenderID, pn_kind = [], pn_org = orgID, pn_memberships = []\<rparr>;
               r = \<lparr>rs_kind = KindSource, rs_id = sourcePath, rs_org = orgID, rs_workspace = [], rs_owner = [], rs_state = []\<rparr>
           in evaluate cd ([eg_levels e AtInstance]
                @ (case eg_levels e (AtObject orgID KindSource sourcePath) of Some l \<Rightarrow> [Some l] | None \<Rightarrow> []))
                (buildEntities sender r) (buildRequest cd sender ActionDeliver r (no_context\<lparr>cx_addr := addr\<rparr>))))"

section \<open>Reloading (live.go)\<close>

text \<open>A reload that cannot read the policies keeps the engine it has.\<close>

definition Reload :: "'pol Cedar \<Rightarrow> Policy list option \<Rightarrow> 'pol Engine \<Rightarrow> 'pol Engine option" where
  "Reload cd stored current = (case stored of None \<Rightarrow> Some current | Some ps \<Rightarrow> New cd ps)"

end
