(* ===== verification/EDA_Store.thy ===== *)
theory EDA_Store
  imports Binding Access
begin

text \<open>
  The event-automation tables and the operations on them (\<open>infrastructure/postgres/edastore.go\<close>,
  \<open>sources.go\<close>), with the capture source and its signing setting (\<open>domain/source\<close>). Columns that hold JSON
  are the values they encode, times are integers, timestamps nobody reads are left out, and secrets are
  stored through the optional cipher. Every operation takes what its context carries: the acting org and
  the scope of its reads. Ids drawn at random are arguments.
\<close>

section \<open>Capture sources (domain/source)\<close>

definition SigningSigned :: string where [go_string_simps]: "SigningSigned = ''signed''"
definition SigningUnsignedPending :: string where [go_string_simps]: "SigningUnsignedPending = ''unsigned_pending_approval''"
definition SigningUnsigned :: string where [go_string_simps]: "SigningUnsigned = ''unsigned''"

definition MaxPathLen :: nat where "MaxPathLen = 128"

record Source =
  so_path :: string
  so_name :: string
  so_org :: string
  so_workspace :: string
  so_delivery_header :: string
  so_signing :: string
  so_secret :: string

datatype source_error =
    ErrInvalidPath
  | ErrInvalidHeader
  | ErrSigningTransition
  | ErrGenerate

definition unreserved :: "char \<Rightarrow> bool" where
  "unreserved c \<longleftrightarrow> is_lower c \<or> is_upper c \<or> is_digit c \<or> c = CHR ''-'' \<or> c = CHR ''.'' \<or> c = CHR ''_'' \<or> c = CHR ''~''"

definition ValidatePath :: "string \<Rightarrow> source_error option" where
  "ValidatePath path =
    (if path = [] \<or> length path > MaxPathLen \<or> path = ''.'' \<or> path = ''..'' then Some ErrInvalidPath
     else if list_all unreserved path then None else Some ErrInvalidPath)"

text \<open>\<open>valid_field\<close> is the check of an HTTP field name and \<open>canonical\<close> its canonical form.\<close>

definition DeliveryHeader :: "(string \<Rightarrow> bool) \<Rightarrow> (string \<Rightarrow> string) \<Rightarrow> string \<Rightarrow> source_error + string" where
  "DeliveryHeader valid_field canonical name =
    (let n = trim_space name in
     if n = [] then Inr []
     else if length n > MaxPathLen \<or> \<not> valid_field n then Inl ErrInvalidHeader
     else Inr (canonical n))"

text \<open>\<open>gen_path\<close> and \<open>gen_secret\<close> are what the generators return.\<close>

definition NewSource :: "string option \<Rightarrow> string option \<Rightarrow> string \<Rightarrow> source_error + Source" where
  "NewSource gen_path gen_secret customPath =
    (case (if customPath = [] then (case gen_path of None \<Rightarrow> Inl ErrGenerate | Some p \<Rightarrow> Inr p)
           else (case ValidatePath customPath of Some e \<Rightarrow> Inl e | None \<Rightarrow> Inr customPath)) of
       Inl e \<Rightarrow> Inl e
     | Inr path \<Rightarrow> (case gen_secret of
           None \<Rightarrow> Inl ErrGenerate
         | Some secret \<Rightarrow> Inr \<lparr>so_path = path, so_name = [], so_org = [], so_workspace = [], so_delivery_header = [],
             so_signing = SigningSigned, so_secret = secret\<rparr>))"

definition Unsigned :: "Source \<Rightarrow> bool" where
  "Unsigned s \<longleftrightarrow> so_signing s = SigningUnsigned"

definition RequestUnsigned :: "Source \<Rightarrow> Source" where
  "RequestUnsigned s = (if so_signing s = SigningSigned then s\<lparr>so_signing := SigningUnsignedPending\<rparr> else s)"

definition ApproveUnsigned :: "Source \<Rightarrow> source_error + Source" where
  "ApproveUnsigned s = (if so_signing s \<noteq> SigningUnsignedPending then Inl ErrSigningTransition
     else Inr (s\<lparr>so_signing := SigningUnsigned\<rparr>))"

definition RequireSigning :: "Source \<Rightarrow> Source" where
  "RequireSigning s = s\<lparr>so_signing := SigningSigned\<rparr>"

section \<open>The tables\<close>

record CapturedEvent =
  cv_id :: string
  cv_received :: int
  cv_source :: string
  cv_addr :: string
  cv_content_type :: string
  cv_headers :: string
  cv_body :: string
  cv_authenticated :: bool
  cv_event_type :: string
  cv_unsigned :: bool
  cv_delivery :: string

record capture_row = CapturedEvent +
  cv_org :: string
  cv_workspace :: string

definition Dispatchable :: "'a CapturedEvent_scheme \<Rightarrow> bool" where
  "Dispatchable c \<longleftrightarrow> cv_authenticated c \<or> cv_unsigned c"

record mapping_row = Mapping +
  m_org :: string

text \<open>A ledger row; \<open>d_reason = None\<close> is the empty reason, a dispatch that was claimed.\<close>

record Dispatch =
  d_binding :: string
  d_version :: int
  d_capture :: string
  d_task :: int
  d_reason :: "dispatch_reason option"
  d_delivery :: string

record ToolCall =
  tc_id :: string
  tc_task :: int
  tc_attempt :: int
  tc_tool :: string
  tc_result :: string
  tc_error :: string
  tc_called_at :: int

record notice =
  nt_kind :: string
  nt_detail :: string
  nt_id :: string
  nt_action :: string

record eda =
  ed_sources :: "Source list"
  ed_types :: "EventType list"
  ed_captures :: "capture_row list"
  ed_mappings :: "mapping_row list"
  ed_bindings :: "Binding list"
  ed_matches :: "(string \<times> string) list"
  ed_dispatches :: "Dispatch list"
  ed_playbook :: "(string \<times> string \<times> string \<times> string) list"
  ed_refusals :: "(string \<times> string \<times> int) list"
  ed_tools :: "ToolCall list"
  ed_notices :: "notice list option"

definition empty_eda :: eda where
  "empty_eda = \<lparr>ed_sources = [], ed_types = [], ed_captures = [], ed_mappings = [], ed_bindings = [], ed_matches = [],
     ed_dispatches = [], ed_playbook = [], ed_refusals = [], ed_tools = [], ed_notices = None\<rparr>"

datatype eda_error =
    ErrBindingNotFound
  | ErrBindingTransition
  | ErrAlreadyDispatched
  | ErrMappingNotFound
  | ErrSourceNotFound
  | ErrSourceInUse
  | ErrSourcePathTaken
  | ErrSourceSigningStale
  | ErrCaptureNotFound string
  | ErrCipher
  | ErrStatement

definition scoped :: "string option \<Rightarrow> string \<Rightarrow> bool" where
  "scoped scope g \<longleftrightarrow> (case scope of None \<Rightarrow> True | Some x \<Rightarrow> g = x)"

definition past_of :: "string \<Rightarrow> string" where
  "past_of action = (case map_of [(''create'', ''created''), (''update'', ''updated''), (''approve'', ''approved''), (''delete'', ''deleted'')] action of
     None \<Rightarrow> [] | Some p \<Rightarrow> p)"

definition notifyWrite :: "string \<Rightarrow> string \<Rightarrow> string \<Rightarrow> string \<Rightarrow> eda \<Rightarrow> eda" where
  "notifyWrite kind subject action i d = d\<lparr>ed_notices := map_option (\<lambda>ns.
     ns @ [\<lparr>nt_kind = kind, nt_detail = subject @ '' '' @ past_of action, nt_id = i, nt_action = action\<rparr>]) (ed_notices d)\<rparr>"

section \<open>Captures\<close>

definition identifyCapture ::
    "(string \<Rightarrow> string option) \<Rightarrow> (string \<Rightarrow> json option) \<Rightarrow> (string \<Rightarrow> (string list) gomap option) \<Rightarrow> CapturedEvent \<Rightarrow> eda \<Rightarrow> string" where
  "identifyCapture mt decode unmarshal c d =
    (case Identify mt decode (sort_key et_name (filter (\<lambda>t. et_source t = cv_source c) (ed_types d))) (cv_source c)
        \<lparr>sm_headers = ParseHeaders unmarshal (cv_headers c), sm_body = cv_body c\<rparr> of
       None \<Rightarrow> [] | Some t \<Rightarrow> et_id t)"

text \<open>Retention by age, then by count within the org of the capture that was just inserted; without that
  capture the count removes nothing.\<close>

definition newest :: "capture_row list \<Rightarrow> capture_row list" where
  "newest cs = sort_key (\<lambda>c. - cv_received c) cs"

text \<open>The statements an intake runs, each in a transaction of its own; \<open>fails\<close> says which of them the
  database refuses.\<close>

datatype store_call = SourceRead | RefusalWrite | TypesRead | CaptureWrite | AgePrune | CountPrune

type_synonym faults = "store_call \<Rightarrow> bool"

abbreviation no_faults :: faults where "no_faults \<equiv> \<lambda>_. False"

text \<open>The conversion of a Go \<open>int\<close> to \<open>int32\<close>.\<close>

definition int32 :: "int \<Rightarrow> int" where
  "int32 n = (n + 2 ^ 31) mod 2 ^ 32 - 2 ^ 31"

definition DeleteCapturesOlderThan :: "int \<Rightarrow> eda \<Rightarrow> eda" where
  "DeleteCapturesOlderThan cutoff d = d\<lparr>ed_captures := filter (\<lambda>c. \<not> cv_received c < cutoff) (ed_captures d)\<rparr>"

text \<open>The database refuses a negative limit once a row of the org makes it read the limit.\<close>

definition DeleteCapturesBeyondCount :: "string \<Rightarrow> int \<Rightarrow> eda \<Rightarrow> eda option" where
  "DeleteCapturesBeyondCount captureID limit d =
    (case find (\<lambda>c. cv_id c = captureID) (ed_captures d) of
       None \<Rightarrow> Some d
     | Some m \<Rightarrow>
         if limit < 0 then None
         else (let kept = map cv_id (take (nat limit) (newest (filter (\<lambda>c. cv_org c = cv_org m) (ed_captures d))))
               in Some (d\<lparr>ed_captures := filter (\<lambda>c. \<not> (cv_org c = cv_org m \<and> cv_id c \<notin> set kept)) (ed_captures d)\<rparr>)))"

definition pruneCaptures :: "faults \<Rightarrow> int \<Rightarrow> string \<Rightarrow> int \<Rightarrow> int \<Rightarrow> eda \<Rightarrow> eda_error option \<times> eda" where
  "pruneCaptures fails now captureID retention maxEvents d =
    (if retention > 0 \<and> fails AgePrune then (Some ErrStatement, d)
     else (let d1 = (if retention > 0 then DeleteCapturesOlderThan (now - retention) d else d) in
       if maxEvents > 0 then
         (if fails CountPrune then (Some ErrStatement, d1)
          else (case DeleteCapturesBeyondCount captureID (int32 maxEvents) d1 of
              None \<Rightarrow> (Some ErrStatement, d1)
            | Some d2 \<Rightarrow> (None, d2)))
       else (None, d1)))"

text \<open>The row of a new capture. A zero time of arrival is now; a capture without a delivery is its own.\<close>

definition capture_row_of :: "int \<Rightarrow> string \<Rightarrow> string \<Rightarrow> Source option \<Rightarrow> CapturedEvent \<Rightarrow> capture_row" where
  "capture_row_of now newID ty src c =
    \<lparr>cv_id = newID, cv_received = (if cv_received c = 0 then now else cv_received c), cv_source = cv_source c,
     cv_addr = cv_addr c, cv_content_type = cv_content_type c, cv_headers = cv_headers c, cv_body = cv_body c,
     cv_authenticated = cv_authenticated c, cv_event_type = ty, cv_unsigned = cv_unsigned c,
     cv_delivery = (if cv_delivery c = [] then newID else cv_delivery c),
     cv_org = (case src of None \<Rightarrow> DefaultOrgID | Some s \<Rightarrow> so_org s),
     cv_workspace = (case src of None \<Rightarrow> DefaultWorkspaceID | Some s \<Rightarrow> so_workspace s)\<rparr>"

text \<open>The insert is committed before the prune, so the error of a prune leaves the row in place.\<close>

definition InsertCapture ::
    "faults \<Rightarrow> (string \<Rightarrow> string option) \<Rightarrow> (string \<Rightarrow> json option) \<Rightarrow> (string \<Rightarrow> (string list) gomap option) \<Rightarrow> int \<Rightarrow> string
     \<Rightarrow> CapturedEvent \<Rightarrow> int \<Rightarrow> int \<Rightarrow> eda \<Rightarrow> (eda_error + string) \<times> eda" where
  "InsertCapture fails mt decode unmarshal now newID c retention maxEvents d =
    (if fails TypesRead then (Inl ErrStatement, d)
     else (let src = find (\<lambda>s. so_path s = cv_source c) (ed_sources d);
               row = capture_row_of now newID (identifyCapture mt decode unmarshal c d) src c
           in if fails CaptureWrite then (Inl ErrStatement, d)
              else (case pruneCaptures fails now newID retention maxEvents (d\<lparr>ed_captures := ed_captures d @ [row]\<rparr>) of
                  (Some err, d') \<Rightarrow> (Inl err, d')
                | (None, d') \<Rightarrow> (Inr newID, d'))))"

text \<open>Whatever happens after the insert, only the tables of captures change, and rows only go.\<close>

lemma prune_filters:
  assumes "pruneCaptures fails now i retention maxEvents d = (err, d')"
  shows "\<exists>P. d' = d\<lparr>ed_captures := filter P (ed_captures d)\<rparr>"
proof -
  have keep: "\<exists>P. e = e\<lparr>ed_captures := filter P (ed_captures e)\<rparr>" for e :: eda
    by (rule exI [of _ "\<lambda>_. True"]) simp
  have old: "\<exists>P. (if retention > 0 then DeleteCapturesOlderThan (now - retention) d else d) = d\<lparr>ed_captures := filter P (ed_captures d)\<rparr>"
    using keep [of d] by (auto simp: DeleteCapturesOlderThan_def)
  have count: "\<exists>Q. d2 = d1\<lparr>ed_captures := filter Q (ed_captures d1)\<rparr>" if "DeleteCapturesBeyondCount i n d1 = Some d2" for d1 d2 n
    using that keep [of d1] by (auto simp: DeleteCapturesBeyondCount_def Let_def split: option.splits if_splits)
  have both: "\<exists>P. d2 = d\<lparr>ed_captures := filter P (ed_captures d)\<rparr>"
    if "d1 = d\<lparr>ed_captures := filter P (ed_captures d)\<rparr>" "DeleteCapturesBeyondCount i n d1 = Some d2" for d1 d2 n P
    using count [OF that(2)] that(1) by auto
  show ?thesis
  proof (cases "retention > 0 \<and> fails AgePrune")
    case True
    then show ?thesis using assms keep [of d] by (simp add: pruneCaptures_def)
  next
    case False
    let ?d1 = "if retention > 0 then DeleteCapturesOlderThan (now - retention) d else d"
    have d': "d' = ?d1 \<or> (\<exists>n. DeleteCapturesBeyondCount i n ?d1 = Some d')"
      using assms False unfolding pruneCaptures_def Let_def by (auto split: if_splits option.splits)
    obtain P where "?d1 = d\<lparr>ed_captures := filter P (ed_captures d)\<rparr>" using old ..
    with d' both show ?thesis by blast
  qed
qed

lemma prune_unlimited: "retention \<le> 0 \<Longrightarrow> maxEvents \<le> 0 \<Longrightarrow> pruneCaptures fails now i retention maxEvents d = (None, d)"
  by (simp add: pruneCaptures_def)

lemma InsertCapture_row:
  assumes "InsertCapture fails mt decode unmarshal now newID c retention maxEvents d = (r, d')"
  defines "row \<equiv> capture_row_of now newID (identifyCapture mt decode unmarshal c d)
      (find (\<lambda>s. so_path s = cv_source c) (ed_sources d)) c"
  shows "(\<exists>e. r = Inl e) \<and> d' = d
    \<or> (r = Inr newID \<or> r = Inl ErrStatement) \<and> (\<exists>P. d' = d\<lparr>ed_captures := filter P (ed_captures d @ [row])\<rparr>)"
proof (cases "fails TypesRead \<or> fails CaptureWrite")
  case True
  then have "(r, d') = (Inl ErrStatement, d)" using assms(1) by (simp add: InsertCapture_def Let_def split: if_splits)
  then show ?thesis by blast
next
  case False
  let ?d = "d\<lparr>ed_captures := ed_captures d @ [row]\<rparr>"
  obtain err d2 where p: "pruneCaptures fails now newID retention maxEvents ?d = (err, d2)" by fastforce
  have "err = None \<or> err = Some ErrStatement"
    using p by (auto simp: pruneCaptures_def Let_def split: if_splits option.splits)
  moreover obtain P where "d2 = ?d\<lparr>ed_captures := filter P (ed_captures ?d)\<rparr>" using prune_filters [OF p] ..
  then have "d2 = d\<lparr>ed_captures := filter P (ed_captures d @ [row])\<rparr>" by simp
  moreover have "(r, d') = (case err of Some e \<Rightarrow> (Inl e, d2) | None \<Rightarrow> (Inr newID, d2))"
    using assms(1) False p by (simp add: InsertCapture_def Let_def row_def split: option.splits)
  then have "(err = None \<longrightarrow> r = Inr newID) \<and> (\<forall>e. err = Some e \<longrightarrow> r = Inl e) \<and> d' = d2" by (cases err) simp_all
  ultimately show ?thesis by blast
qed

lemma InsertCapture_unlimited:
  assumes "InsertCapture fails mt decode unmarshal now newID c retention maxEvents d = (Inr i, d')" "retention \<le> 0" "maxEvents \<le> 0"
  shows "d' = d\<lparr>ed_captures := ed_captures d @ [capture_row_of now newID (identifyCapture mt decode unmarshal c d)
      (find (\<lambda>s. so_path s = cv_source c) (ed_sources d)) c]\<rparr>"
  using assms(1) unfolding InsertCapture_def Let_def prune_unlimited [OF assms(2,3)] by (simp split: if_splits) (elim conjE, simp)

definition ListCaptures :: "string \<Rightarrow> nat \<Rightarrow> eda \<Rightarrow> capture_row list" where
  "ListCaptures orgID limit d = take limit (newest (filter (\<lambda>c. cv_org c = orgID) (ed_captures d)))"

text \<open>An armed binding of the capture's org and source whose mapping is for the capture's event type and
  which has no ledger row for the delivery.\<close>

definition awaits :: "eda \<Rightarrow> capture_row \<Rightarrow> Binding \<Rightarrow> bool" where
  "awaits d c b \<longleftrightarrow> b_org b = cv_org c \<and> b_source b = cv_source c \<and> b_status b = ''armed''
     \<and> list_ex (\<lambda>m. m_id m = b_mapping b \<and> m_event_type m = cv_event_type c) (ed_mappings d)
     \<and> \<not> list_ex (\<lambda>x. d_binding x = b_id b \<and> d_delivery x = cv_delivery c) (ed_dispatches d)"

definition undispatched :: "string \<Rightarrow> string list \<Rightarrow> eda \<Rightarrow> capture_row \<Rightarrow> bool" where
  "undispatched orgID sources d c \<longleftrightarrow>
    cv_org c = orgID \<and> cv_source c \<in> set sources \<and> cv_event_type c \<noteq> [] \<and> list_ex (awaits d c) (ed_bindings d)"

definition ListUndispatchedCaptures :: "string \<Rightarrow> string list \<Rightarrow> int \<Rightarrow> eda \<Rightarrow> capture_row list" where
  "ListUndispatchedCaptures orgID sources limit d =
    (if sources = [] \<or> limit \<le> 0 then []
     else take (nat limit) (newest (filter (undispatched orgID sources d) (ed_captures d))))"

section \<open>Mappings\<close>

definition InsertMapping :: "string \<Rightarrow> string \<Rightarrow> Mapping \<Rightarrow> eda \<Rightarrow> string \<times> eda" where
  "InsertMapping orgID newID m d =
    (newID, notifyWrite ''mapping_changed'' ''mapping'' ''create'' newID
      (d\<lparr>ed_mappings := ed_mappings d @ [\<lparr>m_id = newID, m_name = m_name m, m_source_hint = m_source_hint m,
          m_event_type = m_event_type m, m_fields = m_fields m, m_match_count = 0, m_org = orgID\<rparr>]\<rparr>))"

text \<open>The match count is read from the matches.\<close>

definition mappingValue :: "eda \<Rightarrow> mapping_row \<Rightarrow> Mapping" where
  "mappingValue d r = \<lparr>m_id = m_id r, m_name = m_name r, m_source_hint = m_source_hint r, m_event_type = m_event_type r,
     m_fields = m_fields r, m_match_count = int (length (filter (\<lambda>(m, c). m = m_id r) (ed_matches d)))\<rparr>"

definition GetMapping :: "string option \<Rightarrow> string \<Rightarrow> eda \<Rightarrow> Mapping option" where
  "GetMapping scope i d = map_option (mappingValue d) (find (\<lambda>m. m_id m = i \<and> scoped scope (m_org m)) (ed_mappings d))"

definition ListMappings :: "string option \<Rightarrow> eda \<Rightarrow> Mapping list" where
  "ListMappings scope d = map (mappingValue d) (rev (filter (\<lambda>m. scoped scope (m_org m)) (ed_mappings d)))"

definition UpdateMapping :: "string option \<Rightarrow> Mapping \<Rightarrow> eda \<Rightarrow> eda_error + eda" where
  "UpdateMapping scope m d =
    (let hit = (\<lambda>r. m_id r = m_id m \<and> scoped scope (m_org r)) in
     if \<not> list_ex hit (ed_mappings d) then Inl ErrMappingNotFound
     else Inr (notifyWrite ''mapping_changed'' ''mapping'' ''update'' (m_id m)
       (d\<lparr>ed_mappings := map (\<lambda>r. if hit r then r\<lparr>m_name := m_name m, m_source_hint := m_source_hint m,
            m_event_type := m_event_type m, m_fields := m_fields m\<rparr> else r) (ed_mappings d)\<rparr>)))"

definition DeleteMapping :: "string option \<Rightarrow> string \<Rightarrow> eda \<Rightarrow> eda_error + eda" where
  "DeleteMapping scope i d =
    (let hit = (\<lambda>r. m_id r = i \<and> scoped scope (m_org r)) in
     if \<not> list_ex hit (ed_mappings d) then Inl ErrMappingNotFound
     else Inr (notifyWrite ''mapping_changed'' ''mapping'' ''delete'' i (d\<lparr>ed_mappings := filter (\<lambda>r. \<not> hit r) (ed_mappings d)\<rparr>)))"

definition RecordMappingMatch :: "string \<Rightarrow> string \<Rightarrow> eda \<Rightarrow> eda" where
  "RecordMappingMatch mappingID captureID d =
    (if (mappingID, captureID) \<in> set (ed_matches d) then d else d\<lparr>ed_matches := ed_matches d @ [(mappingID, captureID)]\<rparr>)"

section \<open>Bindings\<close>

definition binding_hit :: "string option \<Rightarrow> string \<Rightarrow> Binding \<Rightarrow> bool" where
  "binding_hit scope i b \<longleftrightarrow> b_id b = i \<and> scoped scope (b_org b)"

definition update_bindings :: "(Binding \<Rightarrow> bool) \<Rightarrow> (Binding \<Rightarrow> Binding) \<Rightarrow> eda \<Rightarrow> eda" where
  "update_bindings P f d = d\<lparr>ed_bindings := map (\<lambda>b. if P b then f b else b) (ed_bindings d)\<rparr>"

definition InsertBinding :: "string \<Rightarrow> string \<Rightarrow> Binding \<Rightarrow> eda \<Rightarrow> string \<times> eda" where
  "InsertBinding orgID newID b d =
    (newID, notifyWrite ''binding_changed'' ''binding'' ''create'' newID
      (d\<lparr>ed_bindings := ed_bindings d @ [b\<lparr>b_id := newID, b_org := orgID, b_version := 1, b_status := StatusPendingApproval\<rparr>]\<rparr>))"

definition GetBinding :: "string option \<Rightarrow> string \<Rightarrow> eda \<Rightarrow> Binding option" where
  "GetBinding scope i d = find (binding_hit scope i) (ed_bindings d)"

definition ListBindings :: "string option \<Rightarrow> eda \<Rightarrow> Binding list" where
  "ListBindings scope d = rev (filter (\<lambda>b. scoped scope (b_org b)) (ed_bindings d))"

definition ArmedBindingsForSource :: "string option \<Rightarrow> string \<Rightarrow> eda \<Rightarrow> Binding list" where
  "ArmedBindingsForSource scope source d =
    rev (filter (\<lambda>b. b_source b = source \<and> b_status b = ''armed'' \<and> scoped scope (b_org b)) (ed_bindings d))"

definition edited :: "Binding \<Rightarrow> Binding \<Rightarrow> Binding" where
  "edited b r = r\<lparr>b_name := b_name b, b_source := b_source b, b_mapping := b_mapping b, b_filter := b_filter b,
     b_workflow := b_workflow b, b_owner := b_owner b, b_repo := b_repo b, b_version := b_version r + 1,
     b_status := StatusPendingApproval, b_inputs := b_inputs b, b_repo_param := b_repo_param b\<rparr>"

definition UpdateBinding :: "string option \<Rightarrow> Binding \<Rightarrow> eda \<Rightarrow> eda_error + eda" where
  "UpdateBinding scope b d =
    (if \<not> list_ex (binding_hit scope (b_id b)) (ed_bindings d) then Inl ErrBindingNotFound
     else Inr (notifyWrite ''binding_changed'' ''binding'' ''update'' (b_id b)
       (update_bindings (binding_hit scope (b_id b)) (edited b) d)))"

definition DeleteBinding :: "string option \<Rightarrow> string \<Rightarrow> eda \<Rightarrow> eda_error + eda" where
  "DeleteBinding scope i d =
    (if \<not> list_ex (binding_hit scope i) (ed_bindings d) then Inl ErrBindingNotFound
     else Inr (notifyWrite ''binding_changed'' ''binding'' ''delete'' i
       (d\<lparr>ed_bindings := filter (\<lambda>b. \<not> binding_hit scope i b) (ed_bindings d)\<rparr>)))"

text \<open>\<open>ApproveBinding\<close> is a read and then a write, in no transaction: the read checks the status, the write
  sets it whatever it is by then.\<close>

definition approve_read :: "string option \<Rightarrow> string \<Rightarrow> eda \<Rightarrow> eda_error option" where
  "approve_read scope i d = (case GetBinding scope i d of
     None \<Rightarrow> Some ErrBindingNotFound
   | Some r \<Rightarrow> if b_status r \<noteq> StatusPendingApproval then Some ErrBindingTransition else None)"

definition approve_write :: "string option \<Rightarrow> string \<Rightarrow> eda \<Rightarrow> eda_error + eda" where
  "approve_write scope i d =
    (if \<not> list_ex (binding_hit scope i) (ed_bindings d) then Inl ErrBindingNotFound
     else Inr (notifyWrite ''binding_changed'' ''binding'' ''approve'' i
       (update_bindings (binding_hit scope i) (\<lambda>b. b\<lparr>b_status := ''armed''\<rparr>) d)))"

definition ApproveBinding :: "string option \<Rightarrow> string \<Rightarrow> eda \<Rightarrow> eda_error + eda" where
  "ApproveBinding scope i d = (case approve_read scope i d of Some e \<Rightarrow> Inl e | None \<Rightarrow> approve_write scope i d)"

definition transitionBinding :: "string option \<Rightarrow> string \<Rightarrow> string \<Rightarrow> string \<Rightarrow> string \<Rightarrow> eda \<Rightarrow> eda_error + eda" where
  "transitionBinding scope i from_status to_status verb d =
    (let hit = (\<lambda>b. binding_hit scope i b \<and> b_status b = from_status) in
     if list_ex hit (ed_bindings d)
     then Inr (notifyWrite ''binding_changed'' ''binding'' verb i (update_bindings hit (\<lambda>b. b\<lparr>b_status := to_status\<rparr>) d))
     else if GetBinding scope i d = None then Inl ErrBindingNotFound else Inl ErrBindingTransition)"

definition PauseBinding :: "string option \<Rightarrow> string \<Rightarrow> eda \<Rightarrow> eda_error + eda" where
  "PauseBinding scope i d = transitionBinding scope i StatusArmed StatusPaused ''pause'' d"

definition ResumeBinding :: "string option \<Rightarrow> string \<Rightarrow> eda \<Rightarrow> eda_error + eda" where
  "ResumeBinding scope i d = transitionBinding scope i StatusPaused StatusPendingApproval ''resume'' d"

section \<open>The dispatch ledgers\<close>

text \<open>The row copies the capture's delivery; the unique index on the binding and the delivery refuses a
  second one.\<close>

definition RecordDispatch :: "string \<Rightarrow> int \<Rightarrow> string \<Rightarrow> int \<Rightarrow> dispatch_reason option \<Rightarrow> eda \<Rightarrow> eda_error + eda" where
  "RecordDispatch bindingID version captureID taskID reason d = (case find (\<lambda>c. cv_id c = captureID) (ed_captures d) of
     None \<Rightarrow> Inl (ErrCaptureNotFound captureID)
   | Some c \<Rightarrow>
       if list_ex (\<lambda>x. d_binding x = bindingID \<and> d_delivery x = cv_delivery c) (ed_dispatches d) then Inl ErrAlreadyDispatched
       else Inr (d\<lparr>ed_dispatches := ed_dispatches d @ [\<lparr>d_binding = bindingID, d_version = version, d_capture = captureID,
              d_task = taskID, d_reason = reason, d_delivery = cv_delivery c\<rparr>]\<rparr>))"

definition SetDispatchTask :: "string \<Rightarrow> string \<Rightarrow> int \<Rightarrow> eda \<Rightarrow> eda" where
  "SetDispatchTask bindingID captureID taskID d =
    d\<lparr>ed_dispatches := map (\<lambda>x. if d_binding x = bindingID \<and> d_capture x = captureID then x\<lparr>d_task := taskID\<rparr> else x) (ed_dispatches d)\<rparr>"

definition ListDispatches :: "string option \<Rightarrow> int \<Rightarrow> string \<Rightarrow> string \<Rightarrow> int \<Rightarrow> eda \<Rightarrow> Dispatch list" where
  "ListDispatches scope limit bindingID captureID taskID d =
    take (nat (min (max limit 1) 500)) (rev (filter (\<lambda>x.
      list_ex (\<lambda>b. b_id b = d_binding x \<and> scoped scope (b_org b)) (ed_bindings d)
      \<and> (bindingID = [] \<or> d_binding x = bindingID) \<and> (captureID = [] \<or> d_capture x = captureID)
      \<and> (taskID = 0 \<or> d_task x = taskID)) (ed_dispatches d)))"

definition RecordPlaybookDispatch :: "string \<Rightarrow> string \<Rightarrow> string \<Rightarrow> string \<Rightarrow> eda \<Rightarrow> eda_error + eda" where
  "RecordPlaybookDispatch playbook version event_id action_id d =
    (if (playbook, version, event_id, action_id) \<in> set (ed_playbook d) then Inl ErrAlreadyDispatched
     else Inr (d\<lparr>ed_playbook := ed_playbook d @ [(playbook, version, event_id, action_id)]\<rparr>))"

definition DeletePlaybookDispatches :: "string \<Rightarrow> eda \<Rightarrow> eda" where
  "DeletePlaybookDispatches playbook d = d\<lparr>ed_playbook := filter (\<lambda>x. fst x \<noteq> playbook) (ed_playbook d)\<rparr>"

definition refusalRetention :: int where "refusalRetention = 24 * 60 * 60 * 1000000000"

definition RecordCaptureRefusal :: "string \<Rightarrow> string \<Rightarrow> int \<Rightarrow> eda \<Rightarrow> eda" where
  "RecordCaptureRefusal source addr now d =
    d\<lparr>ed_refusals := filter (\<lambda>(s, a, t). \<not> t < now - refusalRetention) (ed_refusals d @ [(source, addr, now)])\<rparr>"

text \<open>The row is written from the task, so a call of a task that does not exist writes nothing.\<close>

definition InsertToolCall :: "(int \<Rightarrow> bool) \<Rightarrow> int \<Rightarrow> string \<Rightarrow> ToolCall \<Rightarrow> eda \<Rightarrow> eda" where
  "InsertToolCall has_task now newID tc d =
    (if \<not> has_task (tc_task tc) then d
     else d\<lparr>ed_tools := ed_tools d @ [tc\<lparr>tc_id := newID, tc_called_at := (if tc_called_at tc = 0 then now else tc_called_at tc)\<rparr>]\<rparr>)"

section \<open>Sources (sources.go)\<close>

record cipher =
  ci_encrypt :: "string \<Rightarrow> string option"
  ci_decrypt :: "string \<Rightarrow> string option"

definition sealSecret :: "cipher option \<Rightarrow> string \<Rightarrow> eda_error + string" where
  "sealSecret ci secret = (case ci of
     None \<Rightarrow> Inr secret
   | Some k \<Rightarrow> if secret = [] then Inr secret
       else (case ci_encrypt k secret of None \<Rightarrow> Inl ErrCipher | Some s \<Rightarrow> Inr s))"

definition sourceValue :: "cipher option \<Rightarrow> Source \<Rightarrow> eda_error + Source" where
  "sourceValue ci r = (case ci of
     None \<Rightarrow> Inr r
   | Some k \<Rightarrow> if so_secret r = [] then Inr r
       else (case ci_decrypt k (so_secret r) of None \<Rightarrow> Inl ErrCipher | Some s \<Rightarrow> Inr (r\<lparr>so_secret := s\<rparr>)))"

definition InsertSource :: "cipher option \<Rightarrow> string \<Rightarrow> Source \<Rightarrow> eda \<Rightarrow> eda_error + eda" where
  "InsertSource ci orgID src d = (case sealSecret ci (so_secret src) of
     Inl e \<Rightarrow> Inl e
   | Inr secret \<Rightarrow>
       if list_ex (\<lambda>s. so_path s = so_path src) (ed_sources d) then Inl ErrSourcePathTaken
       else Inr (d\<lparr>ed_sources := ed_sources d @ [\<lparr>so_path = so_path src, so_name = [], so_org = orgID,
              so_workspace = DefaultWorkspaceID, so_delivery_header = [], so_signing = so_signing src, so_secret = secret\<rparr>]\<rparr>))"

definition source_hit :: "string option \<Rightarrow> string \<Rightarrow> Source \<Rightarrow> bool" where
  "source_hit scope path s \<longleftrightarrow> so_path s = path \<and> scoped scope (so_org s)"

definition update_sources :: "(Source \<Rightarrow> bool) \<Rightarrow> (Source \<Rightarrow> Source) \<Rightarrow> eda \<Rightarrow> eda" where
  "update_sources P f d = d\<lparr>ed_sources := map (\<lambda>s. if P s then f s else s) (ed_sources d)\<rparr>"

definition GetSource :: "cipher option \<Rightarrow> string option \<Rightarrow> string \<Rightarrow> eda \<Rightarrow> eda_error + Source option" where
  "GetSource ci scope path d = (case find (source_hit scope path) (ed_sources d) of
     None \<Rightarrow> Inr None
   | Some r \<Rightarrow> (case sourceValue ci r of Inl e \<Rightarrow> Inl e | Inr s \<Rightarrow> Inr (Some s)))"

definition SetSourceSigning :: "string option \<Rightarrow> string \<Rightarrow> string \<Rightarrow> string \<Rightarrow> eda \<Rightarrow> eda_error + eda" where
  "SetSourceSigning scope path from_signing to_signing d =
    (let hit = (\<lambda>s. source_hit scope path s \<and> so_signing s = from_signing) in
     if list_ex hit (ed_sources d) then Inr (update_sources hit (\<lambda>s. s\<lparr>so_signing := to_signing\<rparr>) d)
     else if \<not> list_ex (\<lambda>s. so_path s = path) (ed_sources d) then Inl ErrSourceNotFound
     else Inl ErrSourceSigningStale)"

definition set_source :: "string option \<Rightarrow> string \<Rightarrow> (Source \<Rightarrow> Source) \<Rightarrow> eda \<Rightarrow> eda_error + eda" where
  "set_source scope path f d =
    (if list_ex (source_hit scope path) (ed_sources d) then Inr (update_sources (source_hit scope path) f d) else Inl ErrSourceNotFound)"

definition SetSourceSecret :: "cipher option \<Rightarrow> string option \<Rightarrow> string \<Rightarrow> string \<Rightarrow> eda \<Rightarrow> eda_error + eda" where
  "SetSourceSecret ci scope path secret d = (case sealSecret ci secret of
     Inl e \<Rightarrow> Inl e
   | Inr sealed \<Rightarrow> set_source scope path (\<lambda>s. s\<lparr>so_secret := sealed\<rparr>) d)"

definition SetSourceName :: "string option \<Rightarrow> string \<Rightarrow> string \<Rightarrow> eda \<Rightarrow> eda_error + eda" where
  "SetSourceName scope path name d = set_source scope path (\<lambda>s. s\<lparr>so_name := name\<rparr>) d"

definition SetSourceDeliveryHeader :: "string option \<Rightarrow> string \<Rightarrow> string \<Rightarrow> eda \<Rightarrow> eda_error + eda" where
  "SetSourceDeliveryHeader scope path header d = set_source scope path (\<lambda>s. s\<lparr>so_delivery_header := header\<rparr>) d"

definition DeleteSource :: "string option \<Rightarrow> string \<Rightarrow> eda \<Rightarrow> eda_error + eda" where
  "DeleteSource scope path d =
    (let hit = (\<lambda>s. source_hit scope path s \<and> \<not> list_ex (\<lambda>b. b_source b = so_path s \<and> b_status b = ''armed'') (ed_bindings d)) in
     if list_ex hit (ed_sources d) then Inr (d\<lparr>ed_sources := filter (\<lambda>s. \<not> hit s) (ed_sources d)\<rparr>)
     else if list_ex (\<lambda>s. so_path s = path) (ed_sources d) then Inl ErrSourceInUse
     else Inl ErrSourceNotFound)"

end
