(* ===== verification/Capture_Intake.thy ===== *)
theory Capture_Intake
  imports Webhook_Guard_Spec EDA_Store
begin

text \<open>
  The capture receiver (\<open>infrastructure/captureintake/receiver.go\<close>): the unauthenticated route on which events
  arrive. The state is the limiter, the event-automation tables and what was announced; the request's
  headers have canonical names, a body that cannot be read is None. What the receiver takes from the
  standard library beyond that, the JSON, form and media-type codecs and the HMAC, is in its record. The
  store is the one of \<open>EDA_Store\<close>; \<open>fails\<close> says which of the statements of a request the database refuses.
\<close>

datatype form_value = FormText string | FormRaw string

record Receiver =
  rc_captures :: bool
  rc_sources :: bool
  rc_retention :: int
  rc_max_events :: int
  rc_max_body :: int
  rc_publish :: bool
  rc_delivery :: "(string \<Rightarrow> string \<Rightarrow> string \<Rightarrow> Decision) option"
  rc_refusals :: bool
  rc_cipher :: "cipher option"
  rc_hmac :: "string \<Rightarrow> string \<Rightarrow> string"
  rc_canonical :: "string \<Rightarrow> string"
  rc_split_host :: "string \<Rightarrow> string option"
  rc_lower :: "string \<Rightarrow> string"
  rc_decode :: "string \<Rightarrow> json option"
  rc_marshal :: "json \<Rightarrow> string option"
  rc_marshal_headers :: "string list gomap \<Rightarrow> string"
  rc_unmarshal_headers :: "string \<Rightarrow> (string list) gomap option"
  rc_media :: "string \<Rightarrow> string option"
  rc_parse_query :: "string \<Rightarrow> string list gomap option"
  rc_valid_json :: "string \<Rightarrow> bool"
  rc_marshal_form :: "form_value gomap \<Rightarrow> string option"

record http_request =
  rq_source :: string
  rq_remote :: string
  rq_headers :: "string list gomap"
  rq_body :: "string option"

record intake_state =
  is_limiter :: "RateLimiter option"
  is_eda :: eda
  is_published :: "(string \<times> string \<times> bool) list"

section \<open>Reading the request\<close>

definition header_get :: "Receiver \<Rightarrow> string list gomap \<Rightarrow> string \<Rightarrow> string" where
  "header_get rc h name = (case map_of h (rc_canonical rc name) of Some (v # _) \<Rightarrow> v | _ \<Rightarrow> [])"

definition remoteAddrHost :: "Receiver \<Rightarrow> http_request \<Rightarrow> string" where
  "remoteAddrHost rc rq = (case rc_split_host rc (rq_remote rq) of None \<Rightarrow> rq_remote rq | Some host \<Rightarrow> host)"

definition fallbackMaxBodyBytes :: int where "fallbackMaxBodyBytes = 256 * 1024"

definition maxBodyBytesOrFallback :: "int \<Rightarrow> int" where
  "maxBodyBytesOrFallback configured = (if configured > 0 then configured else fallbackMaxBodyBytes)"

text \<open>\<open>http.MaxBytesReader\<close> and \<open>io.ReadAll\<close>.\<close>

definition read_body :: "Receiver \<Rightarrow> http_request \<Rightarrow> string option" where
  "read_body rc rq = (case rq_body rq of
     None \<Rightarrow> None
   | Some body \<Rightarrow> if int (length body) > maxBodyBytesOrFallback (rc_max_body rc) then None else Some body)"

definition formValue :: "Receiver \<Rightarrow> string \<Rightarrow> form_value" where
  "formValue rc value =
    (let trimmed = trim_space value in
     if (has_prefix trimmed ''{'' \<or> has_prefix trimmed ''['') \<and> rc_valid_json rc trimmed then FormRaw trimmed
     else FormText value)"

definition formPayload :: "Receiver \<Rightarrow> string \<Rightarrow> string \<Rightarrow> string option" where
  "formPayload rc contentType body =
    (if rc_media rc contentType \<noteq> Some ''application/x-www-form-urlencoded'' then None
     else (case rc_parse_query rc body of
         None \<Rightarrow> None
       | Some form \<Rightarrow> rc_marshal_form rc (map (\<lambda>(name, vs). (name, formValue rc (case vs of v # _ \<Rightarrow> v | [] \<Rightarrow> []))) form)))"

section \<open>The source\<close>

text \<open>A lookup that fails is treated as an unknown source.\<close>

definition resolveSource :: "Receiver \<Rightarrow> faults \<Rightarrow> string \<Rightarrow> eda \<Rightarrow> Source option" where
  "resolveSource rc fails path d =
    (if \<not> rc_sources rc \<or> fails SourceRead then None
     else (case GetSource (rc_cipher rc) None path d of Inl _ \<Rightarrow> None | Inr src \<Rightarrow> src))"

definition orgOf :: "Source option \<Rightarrow> string" where
  "orgOf src = (case src of None \<Rightarrow> DefaultOrgID | Some s \<Rightarrow> if so_org s = [] then DefaultOrgID else so_org s)"

definition signature_header :: "Receiver \<Rightarrow> string list gomap \<Rightarrow> string" where
  "signature_header rc h = (let sig = header_get rc h ''X-Hub-Signature-256'' in
     if sig = [] then header_get rc h ''X-Signature-256'' else sig)"

definition verify :: "Receiver \<Rightarrow> Source option \<Rightarrow> string list gomap \<Rightarrow> string \<Rightarrow> bool \<times> bool" where
  "verify rc src h body = (case src of
     None \<Rightarrow> (False, False)
   | Some s \<Rightarrow>
       if Unsigned s then (False, True)
       else if so_secret s = [] then (False, False)
       else (VerifyHMAC (rc_hmac rc) body (signature_header rc h) (so_secret s), False))"

definition deliveryID :: "Receiver \<Rightarrow> Source option \<Rightarrow> string list gomap \<Rightarrow> string" where
  "deliveryID rc src h = (case src of
     None \<Rightarrow> []
   | Some s \<Rightarrow> if so_delivery_header s = [] then [] else trim_space (header_get rc h (so_delivery_header s)))"

text \<open>The status to refuse with, 0 to admit, and the tables with the refusal counted; a count that fails is
  only logged.\<close>

definition refusal :: "Receiver \<Rightarrow> faults \<Rightarrow> int \<Rightarrow> http_request \<Rightarrow> string \<Rightarrow> eda \<Rightarrow> nat \<times> eda" where
  "refusal rc fails now rq owner d = (case rc_delivery rc of
     None \<Rightarrow> (0, d)
   | Some authorize \<Rightarrow>
       (let addr = remoteAddrHost rc rq; decision = authorize owner (rq_source rq) addr in
        if dc_allowed decision then (0, d)
        else if dc_err decision = Some ErrChainUnavailable then (503, d)
        else (403, if rc_refusals rc \<and> \<not> fails RefusalWrite then RecordCaptureRefusal (rq_source rq) addr now d else d)))"

section \<open>The handler\<close>

definition limited :: "Receiver \<Rightarrow> int \<Rightarrow> http_request \<Rightarrow> intake_state \<Rightarrow> bool \<times> intake_state" where
  "limited rc now rq st = (case is_limiter st of
     None \<Rightarrow> (False, st)
   | Some l \<Rightarrow> (case Allow now (remoteAddrHost rc rq) l of (ok, l') \<Rightarrow> (\<not> ok, st\<lparr>is_limiter := Some l'\<rparr>)))"

definition redact_or_keep :: "Receiver \<Rightarrow> string \<Rightarrow> string" where
  "redact_or_keep rc text = (case RedactPayload (rc_lower rc) (rc_decode rc) (rc_marshal rc) text of None \<Rightarrow> text | Some s \<Rightarrow> s)"

text \<open>The event that is stored: the signature is checked on the raw body, a form body becomes JSON, and
  headers and body are redacted.\<close>

definition captured_event :: "Receiver \<Rightarrow> int \<Rightarrow> http_request \<Rightarrow> Source option \<Rightarrow> string \<Rightarrow> CapturedEvent" where
  "captured_event rc now rq src body =
    (let (authenticated, unsigned) = verify rc src (rq_headers rq) body;
         contentType = header_get rc (rq_headers rq) ''Content-Type'';
         (body', contentType', headers) = (case formPayload rc contentType body of
             None \<Rightarrow> (body, contentType, rq_headers rq)
           | Some payload \<Rightarrow> (payload, ''application/json'',
               map_put (rc_canonical rc ''Content-Type'') [''application/json''] (rq_headers rq)))
     in \<lparr>cv_id = [], cv_received = now, cv_source = rq_source rq, cv_addr = rq_remote rq, cv_content_type = contentType',
         cv_headers = redact_or_keep rc (rc_marshal_headers rc headers), cv_body = redact_or_keep rc body',
         cv_authenticated = authenticated, cv_event_type = [], cv_unsigned = unsigned,
         cv_delivery = deliveryID rc src headers\<rparr>)"

definition store_capture :: "Receiver \<Rightarrow> faults \<Rightarrow> int \<Rightarrow> string \<Rightarrow> CapturedEvent \<Rightarrow> eda \<Rightarrow> (eda_error + string) \<times> eda" where
  "store_capture rc fails now newID c d =
    InsertCapture fails (rc_media rc) (rc_decode rc) (rc_unmarshal_headers rc) now newID c (rc_retention rc) (rc_max_events rc) d"

definition ServeHTTP :: "Receiver \<Rightarrow> faults \<Rightarrow> int \<Rightarrow> string \<Rightarrow> http_request \<Rightarrow> intake_state \<Rightarrow> nat \<times> intake_state" where
  "ServeHTTP rc fails now newID rq st =
    (if \<not> rc_captures rc then (503, st)
     else (case limited rc now rq st of (over, st1) \<Rightarrow>
       if over then (429, st1)
       else (let src = resolveSource rc fails (rq_source rq) (is_eda st1) in
         case refusal rc fails now rq (orgOf src) (is_eda st1) of (code, d) \<Rightarrow>
           if code \<noteq> 0 then (code, st1\<lparr>is_eda := d\<rparr>)
           else (case read_body rc rq of
               None \<Rightarrow> (413, st1)
             | Some body \<Rightarrow>
                 (let c = captured_event rc now rq src body in
                  case store_capture rc fails now newID c d of
                    (Inl _, d1) \<Rightarrow> (500, st1\<lparr>is_eda := d1\<rparr>)
                  | (Inr i, d1) \<Rightarrow>
                      (202, st1\<lparr>is_eda := d1, is_published := is_published st1
                         @ (if rc_publish rc then [(i, rq_source rq, cv_unsigned c)] else [])\<rparr>))))))"

section \<open>What the receiver stores\<close>

definition trusted :: "Receiver \<Rightarrow> http_request \<Rightarrow> string \<Rightarrow> Source option \<Rightarrow> bool" where
  "trusted rc rq body src \<longleftrightarrow> (\<exists>s. src = Some s \<and> (so_signing s = SigningUnsigned
     \<or> so_secret s \<noteq> [] \<and> signature_header rc (rq_headers rq) \<noteq> []
       \<and> hex_decode (trim_prefix (signature_header rc (rq_headers rq)) ''sha256='') = Some (rc_hmac rc (so_secret s) body)))"

lemma captured_parts:
  "cv_source (captured_event rc now rq src body) = rq_source rq"
  "cv_addr (captured_event rc now rq src body) = rq_remote rq"
  "cv_authenticated (captured_event rc now rq src body) = fst (verify rc src (rq_headers rq) body)"
  "cv_unsigned (captured_event rc now rq src body) = snd (verify rc src (rq_headers rq) body)"
  by (simp_all add: captured_event_def Let_def split: prod.splits option.splits)

lemma captured_trust:
  "Dispatchable (captured_event rc now rq src body) \<longleftrightarrow> trusted rc rq body src"
  "\<not> (cv_authenticated (captured_event rc now rq src body) \<and> cv_unsigned (captured_event rc now rq src body))"
  unfolding Dispatchable_def captured_parts
  by (auto simp: verify_def trusted_def Unsigned_def verifies_iff split: option.splits)

lemma captured_body:
  assumes "formPayload rc (header_get rc (rq_headers rq) ''Content-Type'') body = None"
    and "rc_decode rc body = Some v" and "rc_marshal rc (redactValue (rc_lower rc) v) = Some s"
  shows "cv_body (captured_event rc now rq src body) = s"
  using assms by (simp add: captured_event_def Let_def redact_or_keep_def RedactPayload_def split: prod.splits)

lemma limited_eda: "limited rc now rq st = (over, st1) \<Longrightarrow> is_eda st1 = is_eda st \<and> is_published st1 = is_published st"
  by (auto simp: limited_def split: option.splits prod.splits)

lemma refusal_captures: "refusal rc fails now rq owner d = (code, d') \<Longrightarrow> ed_captures d' = ed_captures d \<and> (code = 0 \<longrightarrow> d' = d)"
  by (auto simp: refusal_def Let_def RecordCaptureRefusal_def split: option.splits if_splits)

text \<open>What a request that reaches the store leaves there.\<close>

definition stored_row :: "Receiver \<Rightarrow> int \<Rightarrow> string \<Rightarrow> CapturedEvent \<Rightarrow> eda \<Rightarrow> capture_row" where
  "stored_row rc now newID c d =
    capture_row_of now newID (identifyCapture (rc_media rc) (rc_decode rc) (rc_unmarshal_headers rc) c d)
      (find (\<lambda>s. so_path s = cv_source c) (ed_sources d)) c"

lemma stored_row_parts:
  "cv_id (stored_row rc now newID c d) = newID" "cv_source (stored_row rc now newID c d) = cv_source c"
  "cv_authenticated (stored_row rc now newID c d) = cv_authenticated c"
  "cv_unsigned (stored_row rc now newID c d) = cv_unsigned c"
  "Dispatchable (stored_row rc now newID c d) \<longleftrightarrow> Dispatchable c"
  by (simp_all add: stored_row_def capture_row_of_def Dispatchable_def)

lemma ServeHTTP_cases:
  assumes "ServeHTTP rc fails now newID rq st = (code, st')"
  obtains (refused) "code \<in> {403, 413, 429, 503}" "ed_captures (is_eda st') = ed_captures (is_eda st)" "is_published st' = is_published st"
  | (reached) body r where "read_body rc rq = Some body"
      "store_capture rc fails now newID (captured_event rc now rq (resolveSource rc fails (rq_source rq) (is_eda st)) body) (is_eda st)
        = (r, is_eda st')"
      "code = (case r of Inl _ \<Rightarrow> 500 | Inr _ \<Rightarrow> 202)"
      "is_published st' = is_published st @ (case r of Inl _ \<Rightarrow> []
         | Inr i \<Rightarrow> if rc_publish rc then [(i, rq_source rq,
             cv_unsigned (captured_event rc now rq (resolveSource rc fails (rq_source rq) (is_eda st)) body))] else [])"
proof (cases "rc_captures rc")
  case False
  then show thesis using assms refused by (auto simp: ServeHTTP_def)
next
  case captures: True
  obtain over st1 where lim: "limited rc now rq st = (over, st1)" by fastforce
  let ?src = "resolveSource rc fails (rq_source rq) (is_eda st1)"
  obtain rcode d where rf: "refusal rc fails now rq (orgOf ?src) (is_eda st1) = (rcode, d)" by fastforce
  note st1 = limited_eda [OF lim] and d = refusal_captures [OF rf]
  show thesis
  proof (cases "over \<or> rcode \<noteq> 0 \<or> read_body rc rq = None")
    case True
    then have "code \<in> {403, 413, 429, 503}" "ed_captures (is_eda st') = ed_captures (is_eda st)" "is_published st' = is_published st"
      using assms captures lim rf st1 d
      by (auto simp: ServeHTTP_def refusal_def Let_def split: if_splits option.splits)
    then show thesis by (rule refused)
  next
    case False
    then obtain body where body: "\<not> over" "rcode = 0" "read_body rc rq = Some body" by auto
    obtain r d1 where r: "store_capture rc fails now newID (captured_event rc now rq ?src body) (is_eda st) = (r, d1)" by fastforce
    have "d = is_eda st" using d body(2) st1 by simp
    with assms captures lim rf body r have
      "(code, st') = (case r of Inl _ \<Rightarrow> (500, st1\<lparr>is_eda := d1\<rparr>)
         | Inr i \<Rightarrow> (202, st1\<lparr>is_eda := d1, is_published := is_published st1
             @ (if rc_publish rc then [(i, rq_source rq, cv_unsigned (captured_event rc now rq ?src body))] else [])\<rparr>))"
      by (simp add: ServeHTTP_def Let_def split: sum.splits)
    then show thesis using r body(3) st1 by (intro reached [of body r]) (cases r; simp)+
  qed
qed


definition plain_receiver :: Receiver where
  "plain_receiver = \<lparr>rc_captures = True, rc_sources = True, rc_retention = 0, rc_max_events = 0, rc_max_body = 0, rc_publish = True,
     rc_delivery = None, rc_refusals = False, rc_cipher = None, rc_hmac = (\<lambda>secret body. secret @ body), rc_canonical = id,
     rc_split_host = Some, rc_lower = to_lower, rc_decode = (\<lambda>_. None), rc_marshal = (\<lambda>_. None), rc_marshal_headers = (\<lambda>_. []),
     rc_unmarshal_headers = (\<lambda>_. None), rc_media = (\<lambda>_. None), rc_parse_query = (\<lambda>_. None), rc_valid_json = (\<lambda>_. False),
     rc_marshal_form = (\<lambda>_. None)\<rparr>"

definition signed_source :: Source where
  "signed_source = \<lparr>so_path = ''hook'', so_name = [], so_org = DefaultOrgID, so_workspace = DefaultWorkspaceID,
     so_delivery_header = [], so_signing = SigningSigned, so_secret = ''s''\<rparr>"

definition hook_state :: intake_state where
  "hook_state = \<lparr>is_limiter = None, is_eda = empty_eda\<lparr>ed_sources := [signed_source]\<rparr>, is_published = []\<rparr>"

definition hook_request :: "string \<Rightarrow> http_request" where
  "hook_request sig = \<lparr>rq_source = ''hook'', rq_remote = ''10.0.0.1'', rq_headers = [(''X-Hub-Signature-256'', [sig])], rq_body = Some ''b''\<rparr>"


text \<open>The other side of the same rule: a request with a wrong signature is stored all the same, and
  may never dispatch.\<close>

lemma forged_is_stored:
  assumes "ServeHTTP rc fails now newID rq st = (202, st')" and "rq_body rq = Some body"
    and "\<not> trusted rc rq body (resolveSource rc fails (rq_source rq) (is_eda st))"
    and "rc_retention rc \<le> 0" "rc_max_events rc \<le> 0"
  shows "\<exists>row. ed_captures (is_eda st') = ed_captures (is_eda st) @ [row] \<and> cv_source row = rq_source rq \<and> \<not> Dispatchable row"
  using assms(1)
proof (cases rule: ServeHTTP_cases)
  case (reached body' r)
  let ?c = "captured_event rc now rq (resolveSource rc fails (rq_source rq) (is_eda st)) body'"
  let ?row = "stored_row rc now newID ?c (is_eda st)"
  have "body' = body" using reached(1) assms(2) by (auto simp: read_body_def split: if_splits)
  then have "cv_source ?row = rq_source rq \<and> \<not> Dispatchable ?row"
    using captured_trust(1) captured_parts(1) assms(3) by (simp add: stored_row_parts)
  moreover have "ed_captures (is_eda st') = ed_captures (is_eda st) @ [?row]"
    using InsertCapture_unlimited [OF _ assms(4,5)] reached(2,3)
    unfolding store_capture_def stored_row_def by (cases r) fastforce+
  ultimately show ?thesis by blast
qed simp

end
