(* ===== verification/Access_Spec.thy ===== *)
theory Access_Spec
  imports Access
begin

text \<open>
  The decision of the access chain, stated over the stored policies: the engine built from them allows a
  request exactly when every level that has policies for it compiles and permits. The contract the
  callers rely on is the locale \<open>access_chain\<close>.
\<close>

section \<open>The specification\<close>

definition level_policies :: "level_key \<Rightarrow> Policy list \<Rightarrow> Policy list" where
  "level_policies k ps = filter (\<lambda>p. level_key_of p = Some k) ps"

definition compiled_set :: "'pol Cedar \<Rightarrow> Policy list \<Rightarrow> (string \<rightharpoonup> 'pol)" where
  "compiled_set cd ps = fold (\<lambda>p m. case compile cd p of Inr q \<Rightarrow> m(pl_id p \<mapsto> q) | Inl _ \<Rightarrow> m) ps Map.empty"

definition compiles :: "'pol Cedar \<Rightarrow> Policy \<Rightarrow> bool" where
  "compiles cd p \<longleftrightarrow> (\<exists>q. compile cd p = Inr q)"

text \<open>A level without policies says nothing; a level with one that does not compile refuses everything.\<close>

definition level_permits :: "'pol Cedar \<Rightarrow> Policy list \<Rightarrow> (uid \<times> entity) list \<Rightarrow> request \<Rightarrow> bool" where
  "level_permits cd ps ents rq \<longleftrightarrow>
    ps = [] \<or> (\<forall>p\<in>set ps. compiles cd p) \<and> fst (cd_authorize cd (compiled_set cd ps) ents rq)"

text \<open>An instance admin who works on policies passes an instance level that does not compile.\<close>

definition repairing :: "'pol Cedar \<Rightarrow> Policy list \<Rightarrow> Principal \<Rightarrow> Resource \<Rightarrow> bool" where
  "repairing cd ps p r \<longleftrightarrow> rs_kind r = KindPolicy \<and> InstanceAdmin p \<and> (\<exists>x\<in>set (level_policies AtInstance ps). \<not> compiles cd x)"

definition request_levels :: "'pol Cedar \<Rightarrow> Policy list \<Rightarrow> Principal \<Rightarrow> Resource \<Rightarrow> level_key set" where
  "request_levels cd ps p r =
    (if repairing cd ps p r then {} else {AtInstance}) \<union> {AtOrg (rs_org r)}
    \<union> (if rs_workspace r \<noteq> [] then {AtSpace (rs_org r) (rs_workspace r)} else {})
    \<union> (if rs_org r \<noteq> [] \<and> rs_id r \<noteq> [] then {AtObject (rs_org r) (rs_kind r) (rs_id r)} else {})"

definition chain_permits :: "'pol Cedar \<Rightarrow> Policy list \<Rightarrow> Principal \<Rightarrow> string \<Rightarrow> Resource \<Rightarrow> Context \<Rightarrow> bool" where
  "chain_permits cd ps p a r c \<longleftrightarrow>
    pn_org p \<noteq> [] \<and> (rs_org r = [] \<or> rs_org r = pn_org p)
    \<and> (\<forall>k\<in>request_levels cd ps p r. level_permits cd (level_policies k ps) (buildEntities p r) (buildRequest cd p a r c))"

section \<open>What \<open>New\<close> builds\<close>

definition add_to :: "'pol Cedar \<Rightarrow> Policy \<Rightarrow> 'pol levelSet option \<Rightarrow> 'pol levelSet option" where
  "add_to cd p l = Some (add_policy cd p (case l of None \<Rightarrow> new_level (pl_level p) | Some x \<Rightarrow> x))"

lemma new_from_levels:
  "new_from cd ps e = Some e' \<Longrightarrow>
    eg_levels e' k = fold (add_to cd) (level_policies k ps) (eg_levels e k) \<and> eg_pending e' = eg_pending e"
proof (induction cd ps e rule: new_from.induct)
  case (2 cd p ps e)
  then obtain k' e1 where k': "level_key_of p = Some k'" and e1: "new_step cd p e = Some e1" "new_from cd ps e1 = Some e'"
    by (auto simp: new_step_def split: option.splits)
  have "eg_levels e1 k = (if k' = k then add_to cd p (eg_levels e k) else eg_levels e k) \<and> eg_pending e1 = eg_pending e"
    using e1(1) k' by (auto simp: new_step_def add_to_def Let_def)
  with 2 (1) [OF e1] k' show ?case by (simp add: level_policies_def)
qed (simp add: level_policies_def)

lemma New_levels: "New cd ps = Some e \<Longrightarrow> eg_levels e k = fold (add_to cd) (level_policies k ps) None \<and> \<not> eg_pending e"
  using new_from_levels unfolding New_def by fastforce

lemma add_to_simps:
  "add_to cd p None = Some (add_policy cd p (new_level (pl_level p)))"
  "add_to cd p (Some l) = Some (add_policy cd p l)"
  by (simp_all add: add_to_def)

lemma compiled_set_snoc:
  "compiled_set cd [] = Map.empty"
  "compiled_set cd (ps @ [p]) = (case compile cd p of Inr q \<Rightarrow> (compiled_set cd ps)(pl_id p \<mapsto> q) | Inl _ \<Rightarrow> compiled_set cd ps)"
  unfolding compiled_set_def by simp_all

lemma built_level:
  "ps \<noteq> [] \<Longrightarrow> \<exists>l. fold (add_to cd) ps None = Some l \<and> ls_ids l = map pl_id ps \<and> ls_set l = compiled_set cd ps
     \<and> (ls_invalid l = None \<longleftrightarrow> (\<forall>p\<in>set ps. compiles cd p))"
proof (induction ps rule: rev_induct)
  case (snoc p ps)
  show ?case
  proof (cases "ps = []")
    case True
    then show ?thesis
      by (cases "compile cd p") (auto simp: add_to_simps add_policy_def new_level_def compiled_set_snoc(1) compiled_set_snoc(2) [where ps = "[]", simplified] compiles_def)
  next
    case False
    from snoc.IH [OF this] obtain l where "fold (add_to cd) ps None = Some l \<and> ls_ids l = map pl_id ps
      \<and> ls_set l = compiled_set cd ps \<and> (ls_invalid l = None \<longleftrightarrow> (\<forall>p\<in>set ps. compiles cd p))" ..
    moreover have "compiles cd p \<longleftrightarrow> (\<exists>q. compile cd p = Inr q)" by (simp add: compiles_def)
    ultimately show ?thesis
      by (cases "compile cd p") (simp_all add: add_to_simps add_policy_def compiled_set_snoc fun_upd_def)
  qed
qed simp

lemma evaluate_allowed:
  "dc_allowed (evaluate cd ls ents rq) \<longleftrightarrow>
    (\<forall>l. Some l \<in> set ls \<and> level_active (Some l) \<longrightarrow> ls_invalid l = None \<and> fst (cd_authorize cd (ls_set l) ents rq))"
  by (induction cd ls ents rq rule: evaluate.induct)
    (auto simp: Allowed_def DeniedAt_def split: option.splits prod.splits)

definition passes :: "'pol Cedar \<Rightarrow> (uid \<times> entity) list \<Rightarrow> request \<Rightarrow> 'pol levelSet option \<Rightarrow> bool" where
  "passes cd ents rq x = (case x of None \<Rightarrow> True
     | Some l \<Rightarrow> level_active (Some l) \<longrightarrow> ls_invalid l = None \<and> fst (cd_authorize cd (ls_set l) ents rq))"

lemma evaluate_passes: "dc_allowed (evaluate cd ls ents rq) \<longleftrightarrow> (\<forall>x\<in>set ls. passes cd ents rq x)"
  unfolding evaluate_allowed passes_def by (auto split: option.splits)

lemma level_passes:
  assumes "New cd ps = Some e"
  shows "passes cd ents rq (eg_levels e k) \<longleftrightarrow> level_permits cd (level_policies k ps) ents rq"
proof (cases "level_policies k ps = []")
  case True
  then show ?thesis using New_levels [OF assms, of k] by (simp add: passes_def level_permits_def)
next
  case False
  let ?ps = "level_policies k ps"
  from built_level [OF False, of cd] obtain l where "fold (add_to cd) ?ps None = Some l \<and> ls_ids l = map pl_id ?ps
    \<and> ls_set l = compiled_set cd ?ps \<and> (ls_invalid l = None \<longleftrightarrow> (\<forall>p\<in>set ?ps. compiles cd p))" ..
  then have l: "fold (add_to cd) ?ps None = Some l" "ls_ids l = map pl_id ?ps" "ls_set l = compiled_set cd ?ps"
    and ok: "ls_invalid l = None \<longleftrightarrow> (\<forall>p\<in>set ?ps. compiles cd p)" by simp_all
  have "eg_levels e k = Some l" using New_levels [OF assms, of k] l(1) by simp
  moreover have "level_active (Some l)" using l(2) False by (simp add: level_active_def)
  ultimately have "passes cd ents rq (eg_levels e k)
      \<longleftrightarrow> ls_invalid l = None \<and> fst (cd_authorize cd (compiled_set cd (level_policies k ps)) ents rq)"
    by (simp only: passes_def option.case l(3) simp_thms)
  then show ?thesis using False unfolding ok level_permits_def by simp
qed

lemma instance_invalid:
  assumes "New cd ps = Some e"
  shows "eg_levels e AtInstance = None \<or> ls_invalid (the (eg_levels e AtInstance)) = None
    \<longleftrightarrow> (\<forall>x\<in>set (level_policies AtInstance ps). compiles cd x)"
proof (cases "level_policies AtInstance ps = []")
  case False
  from built_level [OF this, of cd] New_levels [OF assms, of AtInstance] show ?thesis by auto
qed (use New_levels [OF assms, of AtInstance] in simp)

lemma passes_singleton:
  "(\<forall>x\<in>set (case l of Some y \<Rightarrow> [Some y] | None \<Rightarrow> []). passes cd ents rq x) \<longleftrightarrow> passes cd ents rq l"
  by (cases l) (simp_all add: passes_def)

lemma chain_passes:
  assumes "New cd ps = Some e"
  shows "(\<forall>x\<in>set (chain e p r). passes cd ents rq x)
    \<longleftrightarrow> (\<forall>k\<in>request_levels cd ps p r. level_permits cd (level_policies k ps) ents rq)"
proof -
  have rep: "(eg_levels e AtInstance = None \<or> ls_invalid (the (eg_levels e AtInstance)) = None \<or> rs_kind r \<noteq> KindPolicy \<or> \<not> InstanceAdmin p)
      \<longleftrightarrow> \<not> repairing cd ps p r"
    using instance_invalid [OF assms] by (auto simp: repairing_def)
  have "(\<forall>x\<in>set (if c then [y] else []). passes cd ents rq x) \<longleftrightarrow> (c \<longrightarrow> passes cd ents rq y)" for c y by simp
  moreover have "(\<forall>x\<in>set (if c then ys else []). passes cd ents rq x) \<longleftrightarrow> (c \<longrightarrow> (\<forall>x\<in>set ys. passes cd ents rq x))" for c ys
    by (cases c) simp_all
  ultimately show ?thesis
    unfolding chain_def Let_def rep set_append ball_Un request_levels_def
    by (simp only: passes_singleton level_passes [OF assms] ball_Un) (simp split: if_splits)
qed

lemma engine_refines:
  assumes e: "New cd ps = Some e"
  shows "dc_allowed (Authorize cd e p a r c) = chain_permits cd ps p a r c"
proof -
  have "\<not> eg_pending e" using New_levels [OF e, of AtInstance] by simp
  then show ?thesis
    by (auto simp: Authorize_def chain_permits_def evaluate_passes chain_passes [OF e] DeniedAt_def Let_def)
qed

text \<open>The levels that govern a request are those that have policies for it. A governing level grants the
  request when all its policies compile and the evaluation of its set permits.\<close>

definition governing :: "'pol Cedar \<Rightarrow> Policy list \<Rightarrow> Principal \<Rightarrow> Resource \<Rightarrow> level_key set" where
  "governing cd ps p r = {k \<in> request_levels cd ps p r. level_policies k ps \<noteq> []}"

definition level_grants :: "'pol Cedar \<Rightarrow> Policy list \<Rightarrow> (uid \<times> entity) list \<Rightarrow> request \<Rightarrow> bool" where
  "level_grants cd ps ents rq \<longleftrightarrow>
    (\<forall>p\<in>set ps. compiles cd p) \<and> fst (cd_authorize cd (compiled_set cd ps) ents rq)"

lemma chain_permits_governing:
  "chain_permits cd ps p a r c \<longleftrightarrow> pn_org p \<noteq> [] \<and> (rs_org r = [] \<or> rs_org r = pn_org p)
    \<and> (\<forall>k\<in>governing cd ps p r. level_grants cd (level_policies k ps) (buildEntities p r) (buildRequest cd p a r c))"
  unfolding chain_permits_def governing_def level_permits_def level_grants_def by blast


text \<open>A request that no level governs is allowed, although the comment on the interface says that
  without a permit a request is denied.\<close>

theorem ungoverned_allowed:
  assumes "New cd ps = Some e" "pn_org p \<noteq> []" "rs_org r = [] \<or> rs_org r = pn_org p" "governing cd ps p r = {}"
  shows "dc_allowed (Authorize cd e p a r c)"
  using assms engine_refines [of cd ps e p a r c] unfolding chain_permits_governing by simp

definition permit_all :: "unit Cedar" where
  "permit_all = \<lparr>cd_parse = (\<lambda>_ _. Some [()]), cd_schema = (\<lambda>_ _. True), cd_authorize = (\<lambda>_ _ _. (True, [])),
     cd_parse_ip = (\<lambda>_. None), cd_now = 1\<rparr>"

definition acme_policy :: Policy where
  "acme_policy = \<lparr>pl_id = ''read'', pl_level = LevelOrg, pl_org = ''acme'', pl_workspace = [], pl_kind = [], pl_object = [], pl_text = ''permit''\<rparr>"

definition acme_member :: Principal where
  "acme_member = \<lparr>pn_identity = ''ann'', pn_kind = ''user'', pn_org = ''acme'', pn_memberships = []\<rparr>"

definition acme_workflow :: Resource where
  "acme_workflow = \<lparr>rs_kind = KindWorkflow, rs_id = ''w'', rs_org = ''acme'', rs_workspace = [], rs_owner = [], rs_state = []\<rparr>"

lemma compile_permit_all: "compile permit_all acme_policy = Inr ()"
  by (simp add: compile_def permit_all_def acme_policy_def ValidatePolicy_def ValidateLevel_def go_string_simps
      not_blank_visible ascii_visible_def byte_of_def)

lemma acme_key: "level_key_of acme_policy = Some (AtOrg ''acme'')"
  by (simp add: level_key_of_def acme_policy_def go_string_simps)


section \<open>The contract of the callers\<close>

locale access_chain =
  fixes authorize :: "Principal \<Rightarrow> string \<Rightarrow> Resource \<Rightarrow> Context \<Rightarrow> Decision"
  assumes own_org: "dc_allowed (authorize p a r c) \<Longrightarrow> pn_org p \<noteq> [] \<and> (rs_org r = [] \<or> rs_org r = pn_org p)"
begin

lemma cross_org_denied: "rs_org r \<noteq> [] \<Longrightarrow> rs_org r \<noteq> pn_org p \<Longrightarrow> \<not> dc_allowed (authorize p a r c)"
  using own_org by blast

lemma orgless_denied: "pn_org p = [] \<Longrightarrow> \<not> dc_allowed (authorize p a r c)"
  using own_org by blast

end

interpretation engine: access_chain "Authorize cd e" for cd e
proof
  fix p a r c assume "dc_allowed (Authorize cd e p a r c)"
  then show "pn_org p \<noteq> [] \<and> (rs_org r = [] \<or> rs_org r = pn_org p)"
    by (auto simp: Authorize_def Unavailable_def DeniedAt_def Let_def split: if_splits)
qed

section \<open>The org level and requests that name no org\<close>

definition deny_all :: "unit Cedar" where
  "deny_all = permit_all\<lparr>cd_authorize := (\<lambda>_ _ _. (False, []))\<rparr>"

text \<open>A request that leaves the org of its resource empty, which stands for the principal's own org,
  skips the policies of that org. The cross-org check fills in the principal's org and the chain does
  not, so a principal the org's policies refuse for a resource of its org is allowed the same action on
  the same kind of resource named without an org.\<close>

theorem empty_org_skips_policies:
  "\<exists>e. New deny_all [acme_policy] = Some e
    \<and> (\<forall>a r c. \<not> dc_allowed (Authorize deny_all e acme_member a (r\<lparr>rs_org := ''acme''\<rparr>) c)
        \<and> dc_allowed (Authorize deny_all e acme_member a (r\<lparr>rs_org := []\<rparr>) c))"
proof -
  obtain e where e: "New deny_all [acme_policy] = Some e" by (simp add: New_def new_step_def acme_key)
  have "\<not> chain_permits deny_all [acme_policy] acme_member a (r\<lparr>rs_org := ''acme''\<rparr>) c" for a r c
    by (auto simp: chain_permits_def request_levels_def level_permits_def level_policies_def acme_key deny_all_def)
  moreover have "chain_permits deny_all [acme_policy] acme_member a (r\<lparr>rs_org := []\<rparr>) c" for a r c
    by (auto simp: chain_permits_def request_levels_def level_permits_def level_policies_def acme_key acme_member_def)
  ultimately show ?thesis using e engine_refines [OF e] by blast
qed

end
