(* ===== verification/Policy_Store.thy ===== *)
theory Policy_Store
  imports Access_Spec "HOL-Library.Product_Lexorder"
begin

text \<open>
  The stored policies: the PostgreSQL tables of policies, versions, audit rows and denials
  (\<open>infrastructure/postgres/access.go\<close>), the shipped role policies (\<open>domain/access/roles.go\<close>), and the
  guard every change passes (\<open>app/statestore/policy_guard.go\<close>), which keeps each org an owner who may
  manage its policies.
\<close>

section \<open>Shipped policies (roles.go)\<close>

definition PolicyOrgRead :: string where [go_string_simps]: "PolicyOrgRead = ''org-role-read''"
definition PolicyOrgEdit :: string where [go_string_simps]: "PolicyOrgEdit = ''org-role-edit''"
definition PolicyOrgAdmin :: string where [go_string_simps]: "PolicyOrgAdmin = ''org-role-admin''"
definition PolicyOrgOwner :: string where [go_string_simps]: "PolicyOrgOwner = ''org-role-owner''"

definition nl :: string where "nl = [CHR 0x0A]"

definition permit_head :: string where
  "permit_head = ''permit(principal, action, resource) when {'' @ nl @ ''    resource.org == principal.org &&'' @ nl"

definition quoted :: "string \<Rightarrow> string" where
  "quoted s = [CHR 0x22] @ s @ [CHR 0x22]"

definition action_lit :: "string \<Rightarrow> string" where
  "action_lit a = ''Archie::Action::'' @ quoted a"

definition orgReadPolicy :: string where
  "orgReadPolicy = permit_head @ ''    ['' @ quoted RoleViewer @ '', '' @ quoted RoleDeveloper @ '', '' @ quoted RoleAdmin @ '', ''
     @ quoted RoleOwner @ ''].contains(principal.role) &&'' @ nl
     @ ''    action in ['' @ action_lit ''read'' @ '', '' @ action_lit ''read_logs'' @ '']'' @ nl @ ''};''"

definition orgEditPolicy :: string where
  "orgEditPolicy = permit_head @ ''    ['' @ quoted RoleDeveloper @ '', '' @ quoted RoleAdmin @ '', '' @ quoted RoleOwner
     @ ''].contains(principal.role) &&'' @ nl
     @ ''    action in ['' @ action_lit ''create'' @ '', '' @ action_lit ''update'' @ '', '' @ action_lit ''run'' @ '']'' @ nl @ ''};''"

definition orgAdminPolicy :: string where
  "orgAdminPolicy = permit_head @ ''    ['' @ quoted RoleAdmin @ '', '' @ quoted RoleOwner @ ''].contains(principal.role) &&'' @ nl
     @ ''    (action != '' @ action_lit ''delete'' @ '' || resource.kind != '' @ quoted ''org'' @ '')'' @ nl @ ''};''"

definition orgOwnerPolicy :: string where
  "orgOwnerPolicy = permit_head @ ''    principal.role == '' @ quoted RoleOwner @ nl @ ''};''"

definition ShippedOrgPolicies :: "string \<Rightarrow> Policy list" where
  "ShippedOrgPolicies orgID = map (\<lambda>(i, t). \<lparr>pl_id = i, pl_level = LevelOrg, pl_org = orgID, pl_workspace = [], pl_kind = [],
       pl_object = [], pl_text = t\<rparr>)
     [(PolicyOrgRead, orgReadPolicy), (PolicyOrgEdit, orgEditPolicy), (PolicyOrgAdmin, orgAdminPolicy), (PolicyOrgOwner, orgOwnerPolicy)]"

section \<open>The tables (postgres/access.go)\<close>

record audit_row =
  au_key :: string
  au_field :: string
  au_new :: string
  au_version :: int
  au_actor :: string
  au_source :: string

record Denial =
  dn_principal :: string
  dn_org :: string
  dn_action :: string
  dn_kind :: string
  dn_resource :: string
  dn_level :: string
  dn_policies :: "string list"

record policy_db =
  pd_policies :: "Policy list"
  pd_versions :: "((string \<times> string \<times> string) \<times> int) list"
  pd_audit :: "audit_row list"
  pd_denials :: "((Denial \<times> int) \<times> int) list"

definition policy_key :: "Policy \<Rightarrow> string \<times> string \<times> string \<times> string \<times> string \<times> string" where
  "policy_key p = (pl_level p, pl_org p, pl_workspace p, pl_kind p, pl_object p, pl_id p)"

definition scope_key :: "Policy \<Rightarrow> string \<times> string \<times> string" where
  "scope_key p = (pl_level p, pl_org p, pl_workspace p)"

definition trim_slashes :: "string \<Rightarrow> string" where
  "trim_slashes s = rev (dropWhile (\<lambda>c. c = CHR ''/'') (rev (dropWhile (\<lambda>c. c = CHR ''/'') s)))"

definition auditKey :: "Policy \<Rightarrow> string" where
  "auditKey p = trim_slashes (pl_level p @ ''/'' @ pl_org p @ ''/'' @ pl_workspace p @ ''/'' @ pl_kind p @ ''/'' @ pl_object p @ ''/'' @ pl_id p)"

text \<open>In the C collation.\<close>

definition ListPolicies :: "policy_db \<Rightarrow> Policy list" where
  "ListPolicies d = sort_key policy_key (pd_policies d)"

definition q_UpsertAccessPolicy :: "Policy \<Rightarrow> policy_db \<Rightarrow> policy_db" where
  "q_UpsertAccessPolicy p d =
    (if list_ex (\<lambda>x. policy_key x = policy_key p) (pd_policies d)
     then d\<lparr>pd_policies := map (\<lambda>x. if policy_key x = policy_key p then x\<lparr>pl_text := pl_text p\<rparr> else x) (pd_policies d)\<rparr>
     else d\<lparr>pd_policies := pd_policies d @ [p]\<rparr>)"

definition q_UpsertAccessPolicyVersion :: "string \<times> string \<times> string \<Rightarrow> policy_db \<Rightarrow> int \<times> policy_db" where
  "q_UpsertAccessPolicyVersion k d =
    (let v = (case map_of (pd_versions d) k of None \<Rightarrow> 2 | Some n \<Rightarrow> n + 1)
     in (v, d\<lparr>pd_versions := map_put k v (pd_versions d)\<rparr>))"

definition q_DeleteAccessPolicyVersion :: "string \<times> string \<times> string \<Rightarrow> policy_db \<Rightarrow> policy_db" where
  "q_DeleteAccessPolicyVersion k d =
    (if list_ex (\<lambda>x. scope_key x = k) (pd_policies d) then d
     else d\<lparr>pd_versions := filter (\<lambda>(k', v). k' \<noteq> k) (pd_versions d)\<rparr>)"

text \<open>The store's \<open>PutPolicy\<close>; \<open>actor\<close> and \<open>source\<close> travel in the context.\<close>

definition PutPolicy :: "string \<Rightarrow> string \<Rightarrow> Policy \<Rightarrow> policy_db \<Rightarrow> access_error + int \<times> policy_db" where
  "PutPolicy actor source p d = (case ValidatePolicy p of
     Some e \<Rightarrow> Inl e
   | None \<Rightarrow> (case q_UpsertAccessPolicyVersion (scope_key p) (q_UpsertAccessPolicy p d) of (v, d1) \<Rightarrow>
       Inr (v, d1\<lparr>pd_audit := pd_audit d1 @ [\<lparr>au_key = auditKey p, au_field = ''text'', au_new = pl_text p, au_version = v,
         au_actor = actor, au_source = source\<rparr>]\<rparr>)))"

definition DeletePolicy :: "Policy \<Rightarrow> policy_db \<Rightarrow> access_error + policy_db" where
  "DeletePolicy p d = (case ValidatePolicy p of
     Some e \<Rightarrow> Inl e
   | None \<Rightarrow>
       if \<not> list_ex (\<lambda>x. policy_key x = policy_key p) (pd_policies d) then Inl ErrPolicyNotFound
       else (let d1 = d\<lparr>pd_policies := filter (\<lambda>x. policy_key x \<noteq> policy_key p) (pd_policies d)\<rparr>;
                 d2 = snd (q_UpsertAccessPolicyVersion (scope_key p) d1)
             in Inr (q_DeleteAccessPolicyVersion (scope_key p) d2)))"

fun put_all :: "string \<Rightarrow> string \<Rightarrow> Policy list \<Rightarrow> policy_db \<Rightarrow> access_error option \<times> policy_db" where
  "put_all actor source [] d = (None, d)"
| "put_all actor source (p # ps) d = (case PutPolicy actor source p d of
     Inl e \<Rightarrow> (Some e, d)
   | Inr (v, d1) \<Rightarrow> put_all actor source ps d1)"

definition shippedOrgPolicyIDs :: "string list" where
  "shippedOrgPolicyIDs = map pl_id (ShippedOrgPolicies [])"

definition EnsureShippedOrgPolicies :: "string \<Rightarrow> string \<Rightarrow> string \<Rightarrow> policy_db \<Rightarrow> access_error option \<times> policy_db" where
  "EnsureShippedOrgPolicies actor source orgID d =
    (if list_ex (\<lambda>p. pl_level p = LevelOrg \<and> pl_org p = orgID \<and> pl_id p \<in> set shippedOrgPolicyIDs) (pd_policies d) then (None, d)
     else put_all actor source (ShippedOrgPolicies orgID) d)"

definition ResetOrgPolicies :: "string \<Rightarrow> string \<Rightarrow> string \<Rightarrow> policy_db \<Rightarrow> access_error option \<times> policy_db" where
  "ResetOrgPolicies actor source orgID d =
    (if orgID = [] then (Some (ErrInvalidPolicy ''no org''), d)
     else put_all actor source (ShippedOrgPolicies orgID)
       (d\<lparr>pd_policies := filter (\<lambda>p. \<not> (pl_level p = LevelOrg \<and> pl_org p = orgID \<and> pl_id p \<notin> set shippedOrgPolicyIDs)) (pd_policies d)\<rparr>))"

definition ResetInstancePolicies :: "policy_db \<Rightarrow> policy_db" where
  "ResetInstancePolicies d = d\<lparr>pd_policies := filter (\<lambda>p. pl_level p \<noteq> LevelInstance) (pd_policies d)\<rparr>"

definition RecordResetAudit :: "string \<Rightarrow> policy_db \<Rightarrow> policy_db" where
  "RecordResetAudit key d = d\<lparr>pd_audit := pd_audit d @ [\<lparr>au_key = key, au_field = ''reset'', au_new = [], au_version = 1,
     au_actor = ''archied access reset'', au_source = ''archied''\<rparr>]\<rparr>"

text \<open>A denial is one row per minute, with a count.\<close>

definition RecordDenial :: "int \<Rightarrow> Denial \<Rightarrow> policy_db \<Rightarrow> access_error + policy_db" where
  "RecordDenial minute x d =
    (if dn_org x = [] \<or> dn_principal x = [] then Inl (ErrInvalidPolicy ''org and principal are required'')
     else Inr (d\<lparr>pd_denials := map_put (x, minute)
            (case map_of (pd_denials d) (x, minute) of None \<Rightarrow> 1 | Some n \<Rightarrow> n + 1) (pd_denials d)\<rparr>))"

section \<open>The guard (policy\_guard.go)\<close>

text \<open>The directory of owners; a principal that cannot be read is an error. A result \<open>None\<close> is the panic of
  \<open>New\<close> on a stored policy of unknown level.\<close>

record directory =
  dr_orgs :: "string list"
  dr_owners :: "string \<Rightarrow> string list"
  dr_principal :: "string \<Rightarrow> access_error + Principal"

fun principals_of :: "directory \<Rightarrow> string \<Rightarrow> string list \<Rightarrow> access_error + Principal list" where
  "principals_of dir orgID [] = Inr []"
| "principals_of dir orgID (i # is) = (case dr_principal dir i of
     Inl e \<Rightarrow> Inl e
   | Inr p \<Rightarrow> (case principals_of dir orgID is of Inl e \<Rightarrow> Inl e | Inr ps \<Rightarrow> Inr (p\<lparr>pn_org := orgID\<rparr> # ps)))"

definition policy_resource :: "string \<Rightarrow> Resource" where
  "policy_resource orgID = \<lparr>rs_kind = KindPolicy, rs_id = [], rs_org = orgID, rs_workspace = [], rs_owner = [], rs_state = []\<rparr>"

definition ownerCanManage :: "'pol Cedar \<Rightarrow> directory \<Rightarrow> 'pol Engine \<Rightarrow> string \<Rightarrow> access_error + bool" where
  "ownerCanManage cd dir e orgID = (case principals_of dir orgID (dr_owners dir orgID) of
     Inl err \<Rightarrow> Inl err
   | Inr ps \<Rightarrow>
       (let principals = (if orgID = DefaultOrgID then [SharedTokenOwner] else []) @ ps in
        Inr (principals = [] \<or> list_ex (\<lambda>p. dc_allowed (Authorize cd e p ActionManagePolicies (policy_resource orgID) no_context)) principals)))"

fun check_orgs :: "'pol Cedar \<Rightarrow> directory \<Rightarrow> 'pol Engine \<Rightarrow> string list \<Rightarrow> access_error option" where
  "check_orgs cd dir e [] = None"
| "check_orgs cd dir e (x # xs) = (case ownerCanManage cd dir e x of
     Inl err \<Rightarrow> Some err
   | Inr ok \<Rightarrow> if \<not> ok then Some ErrPolicyLockout else check_orgs cd dir e xs)"

definition checkLockout :: "'pol Cedar \<Rightarrow> directory \<Rightarrow> (Policy list \<Rightarrow> Policy list) \<Rightarrow> policy_db \<Rightarrow> access_error option option" where
  "checkLockout cd dir change d = map_option (\<lambda>e. check_orgs cd dir e (dr_orgs dir)) (New cd (change (ListPolicies d)))"

definition samePolicy :: "Policy \<Rightarrow> Policy \<Rightarrow> bool" where
  "samePolicy a b \<longleftrightarrow> pl_id a = pl_id b \<and> pl_level a = pl_level b \<and> pl_org a = pl_org b \<and> pl_workspace a = pl_workspace b
     \<and> pl_kind a = pl_kind b \<and> pl_object a = pl_object b"

definition guarded_PutPolicy ::
    "'pol Cedar \<Rightarrow> directory \<Rightarrow> string \<Rightarrow> string \<Rightarrow> Policy \<Rightarrow> policy_db \<Rightarrow> (access_error + int \<times> policy_db) option" where
  "guarded_PutPolicy cd dir actor source p d = (case ValidateText cd p of
     Some e \<Rightarrow> Some (Inl e)
   | None \<Rightarrow> (case checkLockout cd dir (\<lambda>current. filter (\<lambda>c. \<not> samePolicy c p) current @ [p]) d of
       None \<Rightarrow> None
     | Some (Some e) \<Rightarrow> Some (Inl e)
     | Some None \<Rightarrow> Some (PutPolicy actor source p d)))"

definition guarded_DeletePolicy :: "'pol Cedar \<Rightarrow> directory \<Rightarrow> Policy \<Rightarrow> policy_db \<Rightarrow> (access_error + policy_db) option" where
  "guarded_DeletePolicy cd dir p d =
    (case checkLockout cd dir (filter (\<lambda>c. \<not> samePolicy c p)) d of
       None \<Rightarrow> None
     | Some (Some e) \<Rightarrow> Some (Inl e)
     | Some None \<Rightarrow> Some (DeletePolicy p d))"

section \<open>The decision depends on the set of policies\<close>

text \<open>Policies that the engine keeps apart: those of one level set have different IDs.\<close>

definition kept_apart :: "Policy list \<Rightarrow> bool" where
  "kept_apart ps \<longleftrightarrow> (\<forall>p\<in>set ps. \<forall>q\<in>set ps. level_key_of p = level_key_of q \<and> pl_id p = pl_id q \<longrightarrow> p = q)"

lemma compiled_set_apart:
  assumes "\<forall>p\<in>set ps. \<forall>q\<in>set ps. pl_id p = pl_id q \<longrightarrow> p = q"
  shows "compiled_set cd ps i = Some x \<longleftrightarrow> (\<exists>p\<in>set ps. pl_id p = i \<and> compile cd p = Inr x)"
  using assms
proof (induction ps arbitrary: x rule: rev_induct)
  case (snoc p ps)
  have IH: "compiled_set cd ps i = Some y \<longleftrightarrow> (\<exists>p\<in>set ps. pl_id p = i \<and> compile cd p = Inr y)" for y
    using snoc.prems by (intro snoc.IH) simp
  have "pl_id p = i \<Longrightarrow> \<forall>q\<in>set ps. pl_id q = i \<longrightarrow> q = p" using snoc.prems by auto
  then show ?case by (cases "compile cd p") (auto simp: compiled_set_snoc IH, metis Inr_inject)
qed (simp add: compiled_set_snoc)

lemma level_permits_set:
  assumes "set ps = set qs" and "kept_apart ps"
  shows "level_permits cd (level_policies k ps) ents rq = level_permits cd (level_policies k qs) ents rq"
proof -
  have eq: "set (level_policies k ps) = set (level_policies k qs)" using assms(1) by (auto simp: level_policies_def)
  have apart: "\<forall>p\<in>set (level_policies k ps). \<forall>q\<in>set (level_policies k ps). pl_id p = pl_id q \<longrightarrow> p = q"
    using assms(2) by (auto simp: kept_apart_def level_policies_def)
  have "compiled_set cd (level_policies k ps) = compiled_set cd (level_policies k qs)"
  proof
    fix i
    have "compiled_set cd (level_policies k ps) i = Some x \<longleftrightarrow> compiled_set cd (level_policies k qs) i = Some x" for x
      by (simp only: compiled_set_apart [OF apart] compiled_set_apart [OF apart [unfolded eq]] eq)
    then show "compiled_set cd (level_policies k ps) i = compiled_set cd (level_policies k qs) i"
      by (metis option.exhaust)
  qed
  moreover have "level_policies k ps = [] \<longleftrightarrow> level_policies k qs = []" using eq by (metis set_empty)
  ultimately show ?thesis by (simp add: level_permits_def eq)
qed

lemma chain_permits_set:
  assumes "set ps = set qs" and "kept_apart ps"
  shows "chain_permits cd ps p a r c = chain_permits cd qs p a r c"
proof -
  have "repairing cd ps p r = repairing cd qs p r" using assms(1) by (auto simp: repairing_def level_policies_def)
  then show ?thesis unfolding chain_permits_def request_levels_def level_permits_set [OF assms] by (simp only:)
qed

lemma new_from_total: "(\<exists>e'. new_from cd ps e = Some e') \<longleftrightarrow> (\<forall>p\<in>set ps. level_key_of p \<noteq> None)"
proof (induction cd ps e rule: new_from.induct)
  case (2 cd p ps e)
  show ?case
  proof (cases "level_key_of p")
    case (Some k)
    then obtain e1 where e1: "new_step cd p e = Some e1" by (simp add: new_step_def Let_def)
    show ?thesis using 2 [OF e1] e1 Some by simp
  qed (simp add: new_step_def)
qed simp

lemma New_set: "set ps = set qs \<Longrightarrow> New cd ps = Some e \<Longrightarrow> \<exists>e'. New cd qs = Some e'"
  using new_from_total unfolding New_def by metis

section \<open>No change locks an org out\<close>

lemma check_orgs_None: "check_orgs cd dir e xs = None \<longleftrightarrow> (\<forall>x\<in>set xs. ownerCanManage cd dir e x = Inr True)"
  by (induction cd dir e xs rule: check_orgs.induct) (auto split: sum.splits)

lemma ownerCanManage_set:
  assumes "set ps = set qs" and "kept_apart ps" and "New cd ps = Some e" and "New cd qs = Some e'"
  shows "ownerCanManage cd dir e x = ownerCanManage cd dir e' x"
  unfolding ownerCanManage_def engine_refines [OF assms(3)] engine_refines [OF assms(4)] chain_permits_set [OF assms(1,2)] ..

definition manageable :: "'pol Cedar \<Rightarrow> directory \<Rightarrow> policy_db \<Rightarrow> bool" where
  "manageable cd dir d \<longleftrightarrow>
    (\<exists>e. New cd (ListPolicies d) = Some e \<and> (\<forall>x\<in>set (dr_orgs dir). ownerCanManage cd dir e x = Inr True))"

lemma lockout_checked:
  assumes "checkLockout cd dir change d = Some None" and "set (pd_policies d') = set (change (ListPolicies d))"
    and "kept_apart (pd_policies d')"
  shows "manageable cd dir d'"
proof -
  obtain e where e: "New cd (change (ListPolicies d)) = Some e" "check_orgs cd dir e (dr_orgs dir) = None"
    using assms(1) by (auto simp: checkLockout_def)
  have eq: "set (ListPolicies d') = set (change (ListPolicies d))" using assms(2) by (simp add: ListPolicies_def)
  have apart: "kept_apart (ListPolicies d')" using assms(3) by (simp add: kept_apart_def ListPolicies_def)
  obtain e' where e': "New cd (ListPolicies d') = Some e'" using New_set [OF eq [symmetric] e(1)] by blast
  then show ?thesis
    using e(2) ownerCanManage_set [OF eq apart e' e(1)] by (auto simp: manageable_def check_orgs_None)
qed

lemma same_key: "samePolicy c p \<longleftrightarrow> policy_key c = policy_key p"
  by (auto simp: samePolicy_def policy_key_def)

lemma put_policies:
  assumes "PutPolicy actor source p d = Inr (v, d')"
  shows "set (pd_policies d') = insert p {c \<in> set (pd_policies d). policy_key c \<noteq> policy_key p}"
proof -
  have "x\<lparr>pl_text := pl_text p\<rparr> = p" if "policy_key x = policy_key p" for x using that by (cases x; cases p) (simp add: policy_key_def)
  then show ?thesis
    using assms
    by (auto simp: PutPolicy_def q_UpsertAccessPolicyVersion_def q_UpsertAccessPolicy_def Let_def list_ex_iff image_iff split: option.splits if_splits)
qed

lemma delete_policies:
  "DeletePolicy p d = Inr d' \<Longrightarrow> pd_policies d' = filter (\<lambda>c. policy_key c \<noteq> policy_key p) (pd_policies d)"
  by (auto simp: DeletePolicy_def Let_def q_DeleteAccessPolicyVersion_def q_UpsertAccessPolicyVersion_def split: option.splits if_splits)

text \<open>The table has one row per key. A policy that sets only the scope fields of its level is told from the
  others of its level set by its key.\<close>

definition tidy :: "Policy \<Rightarrow> bool" where
  "tidy p \<longleftrightarrow>
    pl_level p = LevelInstance \<and> pl_org p = [] \<and> pl_workspace p = [] \<and> pl_kind p = [] \<and> pl_object p = []
    \<or> pl_level p = LevelOrg \<and> pl_workspace p = [] \<and> pl_kind p = [] \<and> pl_object p = []
    \<or> pl_level p = LevelWorkspace \<and> pl_kind p = [] \<and> pl_object p = []
    \<or> pl_level p = LevelObject \<and> pl_workspace p = []"

definition keyed :: "policy_db \<Rightarrow> bool" where
  "keyed d \<longleftrightarrow> distinct (map policy_key (pd_policies d))"

lemma tidy_key: "tidy p \<Longrightarrow> tidy q \<Longrightarrow> level_key_of p = level_key_of q \<Longrightarrow> pl_id p = pl_id q \<Longrightarrow> policy_key p = policy_key q"
  by (auto simp: tidy_def level_key_of_def policy_key_def go_string_simps)

lemma tidy_apart:
  assumes "keyed d" and "\<forall>x\<in>set (pd_policies d). tidy x"
  shows "kept_apart (pd_policies d)"
  using assms tidy_key by (fastforce simp: kept_apart_def keyed_def distinct_map inj_on_def)

lemma put_keyed: "PutPolicy actor source p d = Inr (v, d') \<Longrightarrow> keyed d \<Longrightarrow> keyed d'"
proof -
  assume put: "PutPolicy actor source p d = Inr (v, d')" and keyed: "keyed d"
  have "map policy_key (map (\<lambda>x. if policy_key x = policy_key p then x\<lparr>pl_text := pl_text p\<rparr> else x) (pd_policies d))
      = map policy_key (pd_policies d)"
    by (simp add: policy_key_def)
  then show "keyed d'" using put keyed
    by (auto simp: keyed_def PutPolicy_def q_UpsertAccessPolicyVersion_def q_UpsertAccessPolicy_def Let_def list_ex_iff
        simp del: map_map split: option.splits if_splits) blast+
qed

lemma delete_keyed: "DeletePolicy p d = Inr d' \<Longrightarrow> keyed d \<Longrightarrow> keyed d'"
  by (auto simp: delete_policies keyed_def distinct_map intro: inj_on_subset)


definition one_org :: directory where
  "one_org = \<lparr>dr_orgs = [''acme''], dr_owners = (\<lambda>_. [''ann'']), dr_principal = (\<lambda>_. Inr acme_member)\<rparr>"

definition no_policies :: policy_db where
  "no_policies = \<lparr>pd_policies = [], pd_versions = [], pd_audit = [], pd_denials = []\<rparr>"


text \<open>Without that condition the guard can be wrong. The key of the table has all scope fields, the level set
  of the engine has one policy per ID: an org policy that names a workspace besides shadows the org policy
  of the same ID, and which of the two counts is decided by their order. The guard appends the changed
  policy, the next load sorts the rows, so a change that passed the guard can leave the org without an
  owner who may manage its policies.\<close>

definition text_cedar :: "bool Cedar" where
  "text_cedar = \<lparr>cd_parse = (\<lambda>_ t. Some [t = ''permit'']), cd_schema = (\<lambda>_ _. True),
     cd_authorize = (\<lambda>s _ _. (s ''read'' = Some True, [])), cd_parse_ip = (\<lambda>_. None), cd_now = 1\<rparr>"

definition shadow_policy :: Policy where
  "shadow_policy = acme_policy\<lparr>pl_workspace := ''w'', pl_text := ''forbid''\<rparr>"

lemma compile_text_cedar: "compile text_cedar acme_policy = Inr True" "compile text_cedar shadow_policy = Inr False"
  by (simp_all add: compile_def text_cedar_def shadow_policy_def acme_policy_def ValidatePolicy_def ValidateLevel_def go_string_simps
      not_blank_visible ascii_visible_def byte_of_def)

lemma shadow_key: "level_key_of shadow_policy = Some (AtOrg ''acme'')"
  by (simp add: level_key_of_def shadow_policy_def acme_policy_def go_string_simps)

lemma shadow_decides:
  assumes "New text_cedar ps = Some e" and "ps = [acme_policy, shadow_policy] \<or> ps = [shadow_policy, acme_policy]"
  shows "ownerCanManage text_cedar one_org e ''acme'' = Inr (ps = [shadow_policy, acme_policy])"
proof -
  have set: "compiled_set text_cedar [acme_policy, shadow_policy] ''read'' = Some False"
    "compiled_set text_cedar [shadow_policy, acme_policy] ''read'' = Some True"
    by (simp_all add: compiled_set_def compile_text_cedar) (simp_all add: shadow_policy_def acme_policy_def)
  have ne: "acme_policy \<noteq> shadow_policy" by (simp add: shadow_policy_def acme_policy_def)
  have auth: "fst (cd_authorize text_cedar m ents rq) \<longleftrightarrow> m ''read'' = Some True" for m ents rq by (simp add: text_cedar_def)
  have level: "level_permits text_cedar (level_policies k ps) ents rq \<longleftrightarrow> (k = AtOrg ''acme'' \<longrightarrow> ps = [shadow_policy, acme_policy])"
    for k ents rq
  proof (cases "k = AtOrg ''acme''")
    case True
    then have "level_policies k ps = ps" using assms(2) by (auto simp: level_policies_def acme_key shadow_key)
    moreover have "\<forall>p\<in>set ps. compiles text_cedar p" using assms(2) compile_text_cedar unfolding compiles_def by auto
    moreover have "compiled_set text_cedar ps ''read'' = Some (ps = [shadow_policy, acme_policy])"
      using assms(2) set ne by (elim disjE) simp_all
    ultimately show ?thesis using assms(2) True unfolding level_permits_def auth by auto
  next
    case False
    then have "level_policies k ps = []" using assms(2) by (auto simp: level_policies_def acme_key shadow_key)
    then show ?thesis using False by (simp add: level_permits_def)
  qed
  have "chain_permits text_cedar ps (acme_member\<lparr>pn_org := ''acme''\<rparr>) ActionManagePolicies (policy_resource ''acme'') no_context
      = (ps = [shadow_policy, acme_policy])"
    unfolding chain_permits_def level by (auto simp: request_levels_def policy_resource_def)
  then show ?thesis by (simp add: ownerCanManage_def one_org_def engine_refines [OF assms(1)] DefaultOrgID_def)
qed

theorem untidy_policy_locks_out:
  "\<exists>v d'. guarded_PutPolicy text_cedar one_org ''ann'' ''ui'' acme_policy (no_policies\<lparr>pd_policies := [shadow_policy]\<rparr>) = Some (Inr (v, d'))
     \<and> \<not> manageable text_cedar one_org d'"
proof -
  let ?d = "no_policies\<lparr>pd_policies := [shadow_policy]\<rparr>"
  have diff: "policy_key shadow_policy \<noteq> policy_key acme_policy" "\<not> samePolicy shadow_policy acme_policy"
    by (simp_all add: policy_key_def samePolicy_def shadow_policy_def acme_policy_def)
  obtain e where e: "New text_cedar [shadow_policy, acme_policy] = Some e" by (simp add: New_def new_step_def acme_key shadow_key)
  have lock: "checkLockout text_cedar one_org (\<lambda>current. filter (\<lambda>c. \<not> samePolicy c acme_policy) current @ [acme_policy]) ?d = Some None"
    using shadow_decides [OF e] diff by (simp add: checkLockout_def ListPolicies_def e one_org_def)
  have "ValidatePolicy acme_policy = None" using compile_text_cedar(1) by (simp add: compile_def split: option.splits)
  then obtain v d' where put: "PutPolicy ''ann'' ''ui'' acme_policy ?d = Inr (v, d')" "pd_policies d' = [shadow_policy, acme_policy]"
    using diff by (simp add: PutPolicy_def no_policies_def q_UpsertAccessPolicy_def q_UpsertAccessPolicyVersion_def Let_def)
  then have g: "guarded_PutPolicy text_cedar one_org ''ann'' ''ui'' acme_policy ?d = Some (Inr (v, d'))"
    by (simp add: guarded_PutPolicy_def ValidateText_def compile_text_cedar lock)
  have "policy_key acme_policy < policy_key shadow_policy" by (simp add: policy_key_def shadow_policy_def acme_policy_def less_prod_def)
  then have list: "ListPolicies d' = [acme_policy, shadow_policy]" using put(2) by (simp add: ListPolicies_def)
  have "\<not> manageable text_cedar one_org d'"
    using shadow_decides [where ps = "[acme_policy, shadow_policy]"] list
    by (auto simp: manageable_def one_org_def shadow_policy_def acme_policy_def)
  with g show ?thesis by blast
qed

text \<open>A scope whose last policy is deleted forgets its version: putting the policy back returns the number
  the first put returned, although the policies changed in between. And a deletion adds no audit row.\<close>

lemma version_repeats:
  assumes "PutPolicy actor source p no_policies = Inr (v, d1)" and "DeletePolicy p d1 = Inr d2" and "PutPolicy actor source p d2 = Inr (w, d3)"
  shows "v = 2 \<and> w = 2 \<and> pd_audit d2 = pd_audit d1"
  using assms
  by (auto simp: PutPolicy_def DeletePolicy_def no_policies_def q_UpsertAccessPolicyVersion_def q_UpsertAccessPolicy_def
      q_DeleteAccessPolicyVersion_def Let_def scope_key_def split: option.splits if_splits)

end
