(* ===== verification/Dispatch.thy ===== *)
theory Dispatch
  imports EDA_Store Policy_Store Task_Store_Runs
begin

text \<open>
  The dispatch of captured events (\<open>dispatchBindings\<close> and what it calls in \<open>daemon/daemon.go\<close>): each cycle
  lists the captures some armed binding has not seen, offers each to every armed binding of its source,
  and starts a task for those that pass the mapping, the filter, the workflow's declaration and the
  access chain. The state is the event-automation tables, the State Store and the access tables; the log
  \<open>dw_started\<close> records each successful call of \<open>EnqueueBindingTask\<close> with the binding, the delivery and the
  task. Store failures other than the ones the tables cause are not modelled.
\<close>

section \<open>The dispatcher\<close>

text \<open>The daemon's configuration and what it is wired to. \<open>dd_workflows\<close> and \<open>dd_enablement\<close> are None when
  the read fails; \<open>dd_quote\<close>, \<open>dd_show\<close> and \<open>dd_reason\<close> print a quoted string, a value and a reason.\<close>

record dispatcher =
  dd_wired :: bool
  dd_mappings :: bool
  dd_matches :: bool
  dd_repos :: "(string \<times> string) list"
  dd_workflows :: "(string \<Rightarrow> string option) option"
  dd_enablement :: "WorkflowEnablement option"
  dd_yaml :: "string \<Rightarrow> WorkflowInterface option"
  dd_decode :: "string \<Rightarrow> json option"
  dd_parse_float :: "string \<Rightarrow> int option"
  dd_marshal :: "json gomap \<Rightarrow> string option"
  dd_cel :: Cel
  dd_access :: "(Principal \<Rightarrow> string \<Rightarrow> Resource \<Rightarrow> Context \<Rightarrow> Decision) option"
  dd_principals :: "(string \<Rightarrow> Principal option) option"
  dd_denials :: bool
  dd_minute :: int
  dd_root :: string
  dd_identities :: "string list"
  dd_quote :: "string \<Rightarrow> string"
  dd_show :: "json \<Rightarrow> string"
  dd_reason :: "dispatch_reason \<Rightarrow> string"

record dispatch_ctx =
  dx_org :: string
  dx_principal :: "Principal option"

record dispatch_world =
  dw_eda :: eda
  dw_db :: db
  dw_policies :: policy_db
  dw_started :: "(string \<times> string \<times> int) list"

definition OrgFromContext :: "string \<Rightarrow> string" where
  "OrgFromContext carried = (if carried = [] then DefaultOrgID else carried)"

definition bindingDispatchBatchLimit :: int where "bindingDispatchBatchLimit = 100"

section \<open>Recording\<close>

definition recordEvaluated :: "Binding \<Rightarrow> capture_row \<Rightarrow> dispatch_reason \<Rightarrow> dispatch_world \<Rightarrow> dispatch_world" where
  "recordEvaluated b c reason w = (case RecordDispatch (b_id b) (b_version b) (cv_id c) 0 (Some reason) (dw_eda w) of
     Inl _ \<Rightarrow> w | Inr d \<Rightarrow> w\<lparr>dw_eda := d\<rparr>)"

text \<open>The extra data of a failure, the failed fields or the deciding policies, is left out of the event.\<close>

definition failure_event :: "dispatcher \<Rightarrow> Binding \<Rightarrow> capture_row \<Rightarrow> dispatch_reason \<Rightarrow> event" where
  "failure_event dd b c reason = no_event\<lparr>e_kind := ''binding_dispatch_failure'',
     e_detail := ''binding '' @ dd_quote dd (b_id b) @ '' (capture '' @ dd_quote dd (cv_id c) @ ''): '' @ dd_reason dd reason,
     e_data := [(''binding_id'', EvText (b_id b)), (''binding_version'', EvInt (b_version b)), (''capture_id'', EvText (cv_id c))]\<rparr>"

definition recordDispatchFailure :: "dispatcher \<Rightarrow> Binding \<Rightarrow> capture_row \<Rightarrow> dispatch_reason \<Rightarrow> dispatch_world \<Rightarrow> dispatch_world" where
  "recordDispatchFailure dd b c reason w =
    (let w1 = recordEvaluated b c reason w in w1\<lparr>dw_db := snd (insertEventQ (failure_event dd b c reason) (dw_db w1))\<rparr>)"

definition start_event :: "dispatcher \<Rightarrow> int \<Rightarrow> Binding \<Rightarrow> capture_row \<Rightarrow> event" where
  "start_event dd taskID b c = no_event\<lparr>e_task := taskID, e_kind := ''binding_started'',
     e_detail := ''started by binding '' @ dd_quote dd (b_name b) @ '' from source '' @ dd_quote dd (cv_source c),
     e_data := [(''binding_id'', EvText (b_id b)), (''binding_name'', EvText (b_name b)), (''binding_version'', EvInt (b_version b)),
       (''capture_id'', EvText (cv_id c)), (''source'', EvText (cv_source c)), (''unsigned'', EvBool (cv_unsigned c))]\<rparr>"

definition markBindingStart :: "dispatcher \<Rightarrow> int \<Rightarrow> Binding \<Rightarrow> capture_row \<Rightarrow> dispatch_world \<Rightarrow> dispatch_world" where
  "markBindingStart dd taskID b c w = w\<lparr>dw_db := snd (insertEventQ (start_event dd taskID b c) (dw_db w))\<rparr>"

section \<open>One binding\<close>

definition hasBlockingFailure :: "Field list \<Rightarrow> Failure list \<Rightarrow> bool" where
  "hasBlockingFailure fs failures \<longleftrightarrow>
    list_ex (\<lambda>x. list_ex (\<lambda>f. f_required f \<and> f_name f = fl_field x) fs) failures"

definition bindingMapping :: "dispatcher \<Rightarrow> Binding \<Rightarrow> capture_row \<Rightarrow> dispatch_world \<Rightarrow> Mapping option \<times> dispatch_world" where
  "bindingMapping dd b c w =
    (if \<not> dd_mappings dd then (None, w)
     else (case GetMapping None (b_mapping b) (dw_eda w) of
         None \<Rightarrow> (None, recordDispatchFailure dd b c (MappingGone (b_mapping b)) w)
       | Some m \<Rightarrow> (Some m, w)))"

definition signatureOf :: "capture_row \<Rightarrow> string" where
  "signatureOf c = (if cv_authenticated c then ''valid'' else if cv_unsigned c then ''unsigned'' else ''unverified'')"

definition run_resource :: "Binding \<Rightarrow> Principal \<Rightarrow> Resource" where
  "run_resource b p = \<lparr>rs_kind = KindWorkflow, rs_id = b_workflow b, rs_org = pn_org p, rs_workspace = [], rs_owner = [], rs_state = []\<rparr>"

definition dispatch_context :: "capture_row \<Rightarrow> Context" where
  "dispatch_context c = no_context\<lparr>cx_signature := signatureOf c, cx_addr := cv_addr c\<rparr>"

definition dispatch_denial :: "Binding \<Rightarrow> Principal \<Rightarrow> Decision \<Rightarrow> Denial" where
  "dispatch_denial b p x = \<lparr>dn_principal = pn_identity p, dn_org = pn_org p, dn_action = ActionRun, dn_kind = KindWorkflow,
     dn_resource = b_workflow b, dn_level = dc_level x, dn_policies = dc_policies x\<rparr>"

definition authorizeDispatch :: "dispatcher \<Rightarrow> dispatch_ctx \<Rightarrow> Binding \<Rightarrow> capture_row \<Rightarrow> dispatch_world \<Rightarrow> bool \<times> dispatch_world" where
  "authorizeDispatch dd cx b c w = (case (dd_access dd, dd_principals dd) of
     (Some authorize, Some principals) \<Rightarrow>
       (case (case dx_principal cx of Some p \<Rightarrow> Some p | None \<Rightarrow> principals (dd_root dd)) of
          None \<Rightarrow> (False, w)
        | Some p \<Rightarrow>
            (let x = authorize p ActionRun (run_resource b p) (dispatch_context c) in
             if dc_allowed x then (True, w)
             else (let w1 = (if dd_denials dd then
                        (case RecordDenial (dd_minute dd) (dispatch_denial b p x) (dw_policies w) of
                           Inl _ \<Rightarrow> w | Inr pd \<Rightarrow> w\<lparr>dw_policies := pd\<rparr>) else w)
                   in (False, recordDispatchFailure dd b c AccessDenied w1))))
   | _ \<Rightarrow> (True, w))"

definition renderBindingBody :: "dispatcher \<Rightarrow> json gomap \<Rightarrow> capture_row \<Rightarrow> string" where
  "renderBindingBody dd vals c =
    (if vals = [] then ''(no fields resolved from capture '' @ dd_quote dd (cv_id c) @ '')''
     else (let parts = map (\<lambda>(k, v). k @ ''='' @ dd_show dd v) vals
           in concat (map (\<lambda>p. p @ nl) (butlast parts)) @ last parts))"

definition task_body :: "dispatcher \<Rightarrow> Binding \<Rightarrow> capture_row \<Rightarrow> bindingTarget \<Rightarrow> json gomap \<Rightarrow> string" where
  "task_body dd b c t vals =
    (if bt_declared t then ''Started by binding '' @ dd_quote dd (b_name b) @ '' from capture '' @ dd_quote dd (cv_id c)
       @ ''; the workflow's inputs travel with the task.''
     else renderBindingBody dd vals c)"

definition task_identity :: "dispatcher \<Rightarrow> dispatch_ctx \<Rightarrow> string" where
  "task_identity dd cx = (case dx_principal cx of
     Some p \<Rightarrow> if pn_identity p \<noteq> dd_root dd \<or> pn_org p \<noteq> DefaultOrgID then pn_identity p else []
   | None \<Rightarrow> [])"

text \<open>The claim comes first; the store encodes the inputs, and a task that cannot be enqueued loses the
  dispatch.\<close>

definition task_title :: "Binding \<Rightarrow> capture_row \<Rightarrow> string" where
  "task_title b c = ''binding '' @ b_name b @ ''/'' @ int_dec (b_version b) @ '' from '' @ cv_source c"

definition claimAndEnqueue ::
    "dispatcher \<Rightarrow> dispatch_ctx \<Rightarrow> Binding \<Rightarrow> capture_row \<Rightarrow> bindingTarget \<Rightarrow> json gomap \<Rightarrow> dispatch_world \<Rightarrow> dispatch_world" where
  "claimAndEnqueue dd cx b c t vals w = (case RecordDispatch (b_id b) (b_version b) (cv_id c) 0 None (dw_eda w) of
     Inl _ \<Rightarrow> w
   | Inr d \<Rightarrow>
       (let w1 = w\<lparr>dw_eda := d\<rparr> in
        case EncodeInputs (dd_marshal dd) (bt_inputs t) of
             None \<Rightarrow> w1
           | Some inputs \<Rightarrow>
               (case EnqueueBindingTask None (bt_owner t) (bt_repo t) (task_title b c) (task_body dd b c t vals) (b_workflow b)
                      (task_identity dd cx) (b_id b) (b_version b) inputs (dw_db w1) of
                  Inl _ \<Rightarrow> w1
                | Inr (r, db1) \<Rightarrow>
                    markBindingStart dd (t_id r) b c
                      (w1\<lparr>dw_db := db1, dw_eda := SetDispatchTask (b_id b) (cv_id c) (t_id r) (dw_eda w1),
                          dw_started := dw_started w1 @ [(b_id b, cv_delivery c, t_id r)]\<rparr>))))"

definition dispatchOneBinding ::
    "dispatcher \<Rightarrow> dispatch_ctx \<Rightarrow> Binding \<Rightarrow> capture_row \<Rightarrow> (string \<Rightarrow> string option) \<Rightarrow> dispatch_world \<Rightarrow> dispatch_world" where
  "dispatchOneBinding dd cx b c workflows w = (case bindingMapping dd b c w of
     (None, w1) \<Rightarrow> w1
   | (Some m, w1) \<Rightarrow>
       if m_event_type m \<noteq> cv_event_type c then w1
       else (case Resolve (dd_decode dd) (dd_parse_float dd) (m_fields m) (cv_body c) of (vals, failures) \<Rightarrow>
         if hasBlockingFailure (m_fields m) failures then recordDispatchFailure dd b c RequiredFieldFailed w1
         else (let w2 = (if dd_matches dd then w1\<lparr>dw_eda := RecordMappingMatch (m_id m) (cv_id c) (dw_eda w1)\<rparr> else w1) in
           case CompileFilter (dd_cel dd) (b_filter b) (m_fields m) of
             Inl _ \<Rightarrow> recordDispatchFailure dd b c FilterBroken w2
           | Inr filt \<Rightarrow>
               if \<not> fst (Admits filt vals) then recordEvaluated b c Filtered w2
               else (case resolveBindingTarget (dd_yaml dd) (dd_repos dd) b vals workflows of
                   Inl reason \<Rightarrow> recordDispatchFailure dd b c reason w2
                 | Inr t \<Rightarrow> (case authorizeDispatch dd cx b c w2 of (ok, w3) \<Rightarrow>
                     if ok then claimAndEnqueue dd cx b c t vals w3 else w3)))))"

section \<open>A cycle\<close>

definition eligible :: "dispatch_ctx \<Rightarrow> WorkflowEnablement \<Rightarrow> capture_row \<Rightarrow> Binding \<Rightarrow> bool" where
  "eligible cx en c b \<longleftrightarrow> b_org b = OrgFromContext (dx_org cx) \<and> matcher_matches (b_source b) (cv_source c) (Dispatchable c)
     \<and> Enabled en (b_org b) (b_workflow b)"

definition dispatchCapture ::
    "dispatcher \<Rightarrow> dispatch_ctx \<Rightarrow> (string \<Rightarrow> string option) \<Rightarrow> WorkflowEnablement \<Rightarrow> capture_row \<Rightarrow> dispatch_world \<Rightarrow> dispatch_world" where
  "dispatchCapture dd cx workflows en c w =
    fold (\<lambda>b w. if eligible cx en c b then dispatchOneBinding dd cx b c workflows w else w)
      (ArmedBindingsForSource None (cv_source c) (dw_eda w)) w"

definition armed_sources :: "dispatch_ctx \<Rightarrow> eda \<Rightarrow> string list" where
  "armed_sources cx d = map b_source (filter (\<lambda>b. b_org b = OrgFromContext (dx_org cx) \<and> b_status b = StatusArmed \<and> b_source b \<noteq> [])
     (ListBindings None d))"

definition dispatchOrgBindings :: "dispatcher \<Rightarrow> dispatch_ctx \<Rightarrow> dispatch_world \<Rightarrow> dispatch_world" where
  "dispatchOrgBindings dd cx w =
    (let sources = armed_sources cx (dw_eda w) in
     if sources = [] then w
     else (case (dd_workflows dd, dd_enablement dd) of
         (Some workflows, Some en) \<Rightarrow>
           fold (dispatchCapture dd cx workflows en)
             (ListUndispatchedCaptures (OrgFromContext (dx_org cx)) sources bindingDispatchBatchLimit (dw_eda w)) w
       | _ \<Rightarrow> w))"

text \<open>One pass per org of the daemon's identities; an identity without a principal is skipped.\<close>

fun dispatch_identities :: "dispatcher \<Rightarrow> (string \<Rightarrow> Principal option) \<Rightarrow> string list \<Rightarrow> string list \<Rightarrow> dispatch_world \<Rightarrow> dispatch_world" where
  "dispatch_identities dd principals seen [] w = w"
| "dispatch_identities dd principals seen (i # is) w = (case principals i of
     None \<Rightarrow> dispatch_identities dd principals seen is w
   | Some p \<Rightarrow>
       if pn_org p \<in> set seen then dispatch_identities dd principals seen is w
       else dispatch_identities dd principals (pn_org p # seen) is
              (dispatchOrgBindings dd \<lparr>dx_org = pn_org p, dx_principal = Some p\<rparr> w))"

definition dispatchBindings :: "dispatcher \<Rightarrow> dispatch_world \<Rightarrow> dispatch_world" where
  "dispatchBindings dd w =
    (if \<not> dd_wired dd then w
     else (case dd_principals dd of
         None \<Rightarrow> dispatchOrgBindings dd \<lparr>dx_org = [], dx_principal = None\<rparr> w
       | Some principals \<Rightarrow> dispatch_identities dd principals [] (dd_root dd # dd_identities dd) w))"

end
