(* ===== verification/Binding_Spec.thy ===== *)
theory Binding_Spec
  imports Binding
begin

text \<open>
  What the checks of a saved binding are worth when an event arrives: the inputs resolved from the event
  satisfy the workflow's declaration except in the cases the save could not see, and the target names
  only repositories that are pinned or configured.
\<close>

section \<open>Inputs\<close>

lemma map_of_by_name:
  "distinct (map f_name fs) \<Longrightarrow> map_of (by_name fs) n = find (\<lambda>f. f_name f = n) fs"
proof -
  have "map_of (fold (\<lambda>f m. map_put (f_name f) f m) fs m) n =
      (case find (\<lambda>f. f_name f = n) fs of None \<Rightarrow> map_of m n | Some f \<Rightarrow> Some f)"
    if "distinct (map f_name fs)" for m using that
  proof (induction fs arbitrary: m)
    case (Cons f fs)
    have "f_name f = n \<Longrightarrow> find (\<lambda>g. f_name g = n) fs = None"
      using Cons.prems by (auto simp: find_None_iff image_iff)
    with Cons show ?case by (auto split: option.splits)
  qed simp
  then show "distinct (map f_name fs) \<Longrightarrow> map_of (by_name fs) n = find (\<lambda>f. f_name f = n) fs"
    by (simp add: by_name_def split: option.splits)
qed

definition input_value :: "json gomap \<Rightarrow> InputSource \<Rightarrow> json option" where
  "input_value vals src = (if src_param src = [] then Some (src_value src) else map_of vals (src_param src))"

lemma ResolveInputs_alt:
  "ResolveInputs b vals = fold (\<lambda>(name, src) out. case input_value vals src of None \<Rightarrow> out | Some v \<Rightarrow> map_put name v out) (b_inputs b) []"
  unfolding ResolveInputs_def
  by (intro arg_cong2 [where f = "\<lambda>f xs. fold f xs []"] ext refl) (auto simp: input_value_def split: option.splits)

lemma fold_inputs:
  assumes "distinct (map fst ins)"
  shows "map_of (fold (\<lambda>(name, src) out. case input_value vals src of None \<Rightarrow> out | Some v \<Rightarrow> map_put name v out) ins out) n =
    (case map_of ins n of None \<Rightarrow> map_of out n | Some src \<Rightarrow> (case input_value vals src of None \<Rightarrow> map_of out n | Some v \<Rightarrow> Some v))"
  using assms
proof (induction ins arbitrary: out)
  case (Cons p ins)
  obtain name src where p: "p = (name, src)" by fastforce
  have "n = name \<Longrightarrow> map_of ins n = None" using Cons.prems p by (auto simp: map_of_eq_None_iff)
  with Cons p show ?case by (auto split: option.splits)
qed simp

lemma ResolveInputs_value:
  "distinct (map fst (b_inputs b)) \<Longrightarrow> map_of (ResolveInputs b vals) n = Option.bind (map_of (b_inputs b) n) (input_value vals)"
  by (simp add: ResolveInputs_alt fold_inputs split: option.splits)

lemma ResolveInputs_distinct: "distinct (map fst (ResolveInputs b vals))"
proof -
  have "distinct (map fst out) \<Longrightarrow>
      distinct (map fst (fold (\<lambda>(name, src) out. case input_value vals src of None \<Rightarrow> out | Some v \<Rightarrow> map_put name v out) ins out))" for ins out
    by (induction ins arbitrary: out) (auto simp: distinct_map_put split: option.splits)
  from this [of "[]"] show ?thesis by (simp add: ResolveInputs_alt)
qed

lemma normalize_type:
  assumes "typeMatches v ty" and "ty \<noteq> TypeAny"
  shows "ValueType (normalize pf v) = ty \<or> ty = TypeNumber \<and> (\<exists>n. normalize pf v = JString n \<and> pf n = None)"
  using assms by (cases v) (auto simp: typeMatches.simps go_string_simps split: option.splits)

lemma normalize_not_null: "v \<noteq> JNull \<Longrightarrow> normalize pf v \<noteq> JNull"
  by (cases v) (auto split: option.splits)

lemma resolved_type:
  assumes "ValidateMapping m = None" and "map_of (fst (Resolve decode pf (m_fields m) payload)) n = Some v"
  obtains f where "f \<in> set (m_fields m)" "f_name f = n" "v \<noteq> JNull" "find (\<lambda>f. f_name f = n) (m_fields m) = Some f"
    "f_type f = TypeAny \<or> ValueType v = f_type f \<or> f_type f = TypeNumber \<and> (\<exists>x. v = JString x \<and> pf x = None)"
proof -
  note dist = ValidateMapping_distinct [OF assms(1)]
  obtain root where root: "decode payload = Some root"
    using assms(2) by (cases "decode payload") (auto simp: Resolve_def)
  with assms(2) obtain f u where f: "find (\<lambda>f. f_name f = n) (m_fields m) = Some f" "u \<noteq> JNull"
    "typeMatches u (f_type f)" "v = normalize pf u"
    by (auto simp: Resolve_values [where decode = decode, OF dist root] field_value_def split: option.splits if_splits)
  with find_SomeD [OF f(1)] normalize_type [of u "f_type f" pf] normalize_not_null [of u pf] show ?thesis
    by (intro that [of f]) auto
qed

text \<open>A binding that was saved is refused at dispatch, for its inputs, only for what the save could not
  see. Every refusal names an input that reads a mapped parameter, and either the event left the
  parameter out, or the parameter has no declared type, or it was a number too large for a float64,
  which the mapping hands on as text.\<close>

theorem saved_binding_refusals:
  assumes "distinct (map fst (b_inputs b))" and "distinct (map fst (wi_inputs w))"
    and "ValidateBinding b = None" and "ValidateMapping m = None" and "CheckWorkflow b w (m_fields m) = None"
    and "Resolve decode pf (m_fields m) payload = (vals, failures)"
    and "CheckInputs w (ResolveInputs b vals) = Some e"
  shows "\<exists>name src. map_of (b_inputs b) name = Some src \<and> src_param src \<noteq> []
    \<and> (e = ValueRequired name \<and> map_of vals (src_param src) = None
       \<or> (\<exists>f v spec. f \<in> set (m_fields m) \<and> f_name f = src_param src \<and> map_of vals (src_param src) = Some v
            \<and> map_of (wi_inputs w) name = Some spec \<and> e = ValueTyped name (ValueType v) (is_type spec)
            \<and> (f_type f = TypeAny \<or> f_type f = TypeNumber \<and> (\<exists>n. v = JString n \<and> pf n = None))))"
proof -
  let ?out = "ResolveInputs b vals"
  have vals: "vals = fst (Resolve decode pf (m_fields m) payload)" using assms(6) by simp
  note out = ResolveInputs_value [OF assms(1), of vals]
  have const: "src_value src \<noteq> JNull" if "map_of (b_inputs b) n = Some src" "src_param src = []" for n src
    using assms(3) that by (force simp: ValidateBinding_def validate_source_def)
  have checked: "check_source b w (by_name (m_fields m)) n src = None" if "map_of (b_inputs b) n = Some src" for n src
    using assms(5) that by (force simp: CheckWorkflow_def Let_def)
  have assigned: "map_of (b_inputs b) n \<noteq> None" if "map_of (wi_inputs w) n = Some spec" "is_required spec" for n spec
    using assms(5) that by (force simp: CheckWorkflow_def Let_def)
  from assms(7) consider
    (req) n spec where "(n, spec) \<in> set (wi_inputs w)" "is_required spec" "map_of ?out n = None \<or> map_of ?out n = Some JNull" "e = ValueRequired n"
  | (val) n v where "(n, v) \<in> set ?out" "(case map_of (wi_inputs w) n of None \<Rightarrow> Some (ValueUndeclared n)
        | Some spec \<Rightarrow> guard_err (v \<noteq> JNull \<and> \<not> TypeAccepts (is_type spec) (ValueType v)) (ValueTyped n (ValueType v) (is_type spec)) None) = Some e"
    by (fastforce simp: CheckInputs_def check_values_def seq_err_def guard_err_def dest!: first_error_Some split: option.splits if_splits)
  then show ?thesis
  proof cases
    case req
    have "map_of (wi_inputs w) n = Some spec" using assms(2) req(1) by simp
    then obtain src where src: "map_of (b_inputs b) n = Some src" using assigned req(2) by fastforce
    have "map_of vals (src_param src) \<noteq> Some JNull"
      using resolved_type [OF assms(4), of decode pf payload "src_param src" JNull] unfolding vals by blast
    moreover have "input_value vals src = None \<or> input_value vals src = Some JNull"
      using req(3) by (simp add: out src)
    ultimately have "src_param src \<noteq> [] \<and> map_of vals (src_param src) = None"
      using const [OF src] by (auto simp: input_value_def split: if_splits)
    with src req(4) show ?thesis by blast
  next
    case val
    have v: "map_of ?out n = Some v" using val(1) ResolveInputs_distinct [of b vals] by simp
    then obtain src where src: "map_of (b_inputs b) n = Some src" "input_value vals src = Some v"
      by (auto simp: out bind_eq_Some_conv)
    from checked [OF src(1)] obtain spec where spec: "map_of (wi_inputs w) n = Some spec"
      by (auto simp: check_source_def split: option.splits)
    with val(2) have e: "e = ValueTyped n (ValueType v) (is_type spec)" "\<not> TypeAccepts (is_type spec) (ValueType v)"
      by (auto simp: guard_err_def split: if_splits)
    have par: "src_param src \<noteq> []"
      using checked [OF src(1)] src(2) spec e(2) by (auto simp: check_source_def input_value_def split: if_splits)
    then have pv: "map_of vals (src_param src) = Some v" using src(2) by (simp add: input_value_def)
    obtain f where f: "f \<in> set (m_fields m)" "f_name f = src_param src" "find (\<lambda>g. f_name g = src_param src) (m_fields m) = Some f"
      "f_type f = TypeAny \<or> ValueType v = f_type f \<or> f_type f = TypeNumber \<and> (\<exists>x. v = JString x \<and> pf x = None)"
      using resolved_type [OF assms(4)] pv vals by metis
    have "TypeAccepts (is_type spec) (f_type f)"
      using checked [OF src(1)] spec par f(3) map_of_by_name [OF ValidateMapping_distinct [OF assms(4)]]
      by (simp add: check_source_def)
    then have "f_type f = TypeAny \<or> f_type f = TypeNumber \<and> (\<exists>x. v = JString x \<and> pf x = None)" using f(4) e(2) by auto
    with src(1) par f(1,2) pv spec e(1) show ?thesis by blast
  qed
qed

definition count_mapping :: Mapping where
  "count_mapping = pair_mapping\<lparr>m_fields := [\<lparr>f_name = ''n'', f_path = ''n'', f_type = TypeNumber, f_required = True\<rparr>]\<rparr>"

definition count_workflow :: WorkflowInterface where
  "count_workflow = \<lparr>wi_inputs = [(''n'', \<lparr>is_type = ''number'', is_required = True\<rparr>)], wi_repository = RepositoryNone,
     wi_outputs = [], wi_profile = [], wi_identity = [], wi_needs = \<lparr>wn_captures = False, wn_gate_retries = 0\<rparr>\<rparr>"

definition count_binding :: Binding where
  "count_binding = \<lparr>b_id = ''b'', b_name = ''count'', b_source = ''s'', b_mapping = ''m'', b_filter = [], b_workflow = ''w'',
     b_owner = [], b_repo = [], b_repo_param = [], b_inputs = [(''n'', \<lparr>src_param = ''n'', src_value = JNull\<rparr>)],
     b_org = ''o'', b_version = 1, b_status = StatusArmed\<rparr>"

lemma count_valid:
  "ValidateBinding count_binding = None" "ValidateMapping count_mapping = None"
  "CheckWorkflow count_binding count_workflow (m_fields count_mapping) = None"
  by (simp_all add: ValidateBinding_def count_binding_def ValidateMapping_def count_mapping_def pair_mapping_def CheckWorkflow_def
      count_workflow_def check_source_def by_name_def checkRepository_def RepositoryMode_def TypeAccepts_def validate_source_def
      sorted_keys_def validTypes_def go_string_simps not_blank_visible ascii_visible_def byte_of_def)

lemma count_resolve:
  "Resolve (\<lambda>_. Some (JObject [(''n'', JNumber ''1e999'')])) (\<lambda>_. None) (m_fields count_mapping) []
    = ([(''n'', JString ''1e999'')], [])"
  by (simp add: Resolve_def count_mapping_def resolve_field_def parsePath_def parse_part.simps key_seg_def typeMatches.simps go_string_simps)

theorem saved_binding_refusals_witness:
  "CheckInputs count_workflow (ResolveInputs count_binding [(''n'', JString ''1e999'')]) = Some (ValueTyped ''n'' ''string'' ''number'')
   \<and> (\<exists>name src. map_of (b_inputs count_binding) name = Some src \<and> src_param src \<noteq> [])"
proof -
  have e: "CheckInputs count_workflow (ResolveInputs count_binding [(''n'', JString ''1e999'')]) = Some (ValueTyped ''n'' ''string'' ''number'')"
    by (simp add: CheckInputs_def check_values_def ResolveInputs_def count_binding_def count_workflow_def TypeAccepts_def)
  have "distinct (map fst (b_inputs count_binding))" "distinct (map fst (wi_inputs count_workflow))"
    by (simp_all add: count_binding_def count_workflow_def)
  from saved_binding_refusals [OF this count_valid count_resolve e] e show ?thesis by blast
qed

section \<open>The target\<close>

lemma target_cases:
  assumes "resolveBindingTarget yaml repos b vals workflows = Inr t"
  obtains src w ow rp where "workflows (b_workflow b) = Some src" "ParseWorkflowInterface yaml src = Inr w"
    "CheckInputs w (ResolveInputs b vals) = None"
    "t = \<lparr>bt_owner = ow, bt_repo = rp, bt_inputs = ResolveInputs b vals, bt_declared = (wi_inputs w \<noteq> [])\<rparr>"
    "(ow, rp) = ([], []) \<or> repoConfigured repos ow rp \<or> resolveBindingRepo repos b = Inr (ow, rp)"
proof -
  obtain src where src: "workflows (b_workflow b) = Some src"
    using assms by (auto simp: resolveBindingTarget_def split: option.splits)
  obtain w where w: "ParseWorkflowInterface yaml src = Inr w"
    using assms src by (auto simp: resolveBindingTarget_def split: sum.splits)
  have ck: "CheckInputs w (ResolveInputs b vals) = None"
    using assms by (auto simp: resolveBindingTarget_def src w Let_def split: option.splits)
  from assms that [OF src w ck] show thesis
    by (auto simp: resolveBindingTarget_def src w ck Let_def split: if_split_asm sum.split_asm prod.split_asm option.split_asm)
qed

lemma target_repository:
  assumes "resolveBindingTarget yaml repos b vals workflows = Inr t"
  shows "(bt_owner t, bt_repo t) = ([], []) \<or> (bt_owner t, bt_repo t) \<in> set repos
    \<or> (b_owner b \<noteq> [] \<and> (bt_owner t, bt_repo t) = (b_owner b, b_repo b))"
proof -
  have cfg: "repoConfigured repos ow rp \<Longrightarrow> (ow, rp) \<in> set repos" for ow rp
    by (auto simp: repoConfigured_def list_ex_iff)
  have pick: "resolveBindingRepo repos b = Inr (ow, rp) \<Longrightarrow> (ow, rp) \<in> set repos \<or> b_owner b \<noteq> [] \<and> (ow, rp) = (b_owner b, b_repo b)" for ow rp
    by (auto simp: resolveBindingRepo_def split: if_splits list.splits)
  show ?thesis using assms by (rule target_cases) (auto dest: cfg pick)
qed

lemma target_inputs:
  assumes "resolveBindingTarget yaml repos b vals workflows = Inr t"
  shows "\<exists>src w. workflows (b_workflow b) = Some src \<and> ParseWorkflowInterface yaml src = Inr w
    \<and> bt_inputs t = ResolveInputs b vals \<and> CheckInputs w (bt_inputs t) = None"
  using assms by (rule target_cases) auto

end
