(* ===== verification/Dispatch_Inv.thy ===== *)
theory Dispatch_Inv
  imports Dispatch Binding_Spec
begin

text \<open>
  What one pass of the dispatcher does to its state: the tables it reads stay as they are, the ledger and
  the log of started tasks only grow, a started task has a claim of its own, and the tasks started are
  among those that are justified. Each function of the dispatcher has one lemma, and the folds over
  bindings and captures follow by \<open>fold_rel\<close>.
\<close>

section \<open>What stays and what grows\<close>

definition row_key :: "Dispatch \<Rightarrow> string \<times> string" where
  "row_key x = (d_binding x, d_delivery x)"

definition keys :: "dispatch_world \<Rightarrow> (string \<times> string) list" where
  "keys w = map row_key (ed_dispatches (dw_eda w))"

definition start_key :: "string \<times> string \<times> int \<Rightarrow> string \<times> string" where
  "start_key s = (fst s, fst (snd s))"

definition tables :: "dispatch_world \<Rightarrow> Binding list \<times> capture_row list \<times> mapping_row list" where
  "tables w = (ed_bindings (dw_eda w), ed_captures (dw_eda w), ed_mappings (dw_eda w))"

definition advances :: "(string \<times> string \<times> int) set \<Rightarrow> dispatch_world \<Rightarrow> dispatch_world \<Rightarrow> bool" where
  "advances J w w' \<longleftrightarrow> tables w' = tables w \<and> prefix (keys w) (keys w')
     \<and> (\<exists>new. dw_started w' = dw_started w @ new \<and> set new \<subseteq> J)"

text \<open>The claims are unique and every started task has one, without a reason.\<close>

definition claims :: "eda \<Rightarrow> (string \<times> string) set" where
  "claims d = set (map row_key (filter (\<lambda>x. d_reason x = None) (ed_dispatches d)))"

definition once :: "dispatch_world \<Rightarrow> bool" where
  "once w \<longleftrightarrow> distinct (keys w) \<and> distinct (map start_key (dw_started w)) \<and> start_key ` set (dw_started w) \<subseteq> claims (dw_eda w)
     \<and> distinct (map cv_id (ed_captures (dw_eda w)))"

lemma advances_refl [simp]: "advances J w w"
  by (simp add: advances_def)

lemma advances_trans: "advances J w w' \<Longrightarrow> advances J w' w'' \<Longrightarrow> advances J w w''"
  unfolding advances_def by (auto intro: prefix_order.trans)

lemma advances_mono: "advances J w w' \<Longrightarrow> J \<subseteq> K \<Longrightarrow> advances K w w'"
  unfolding advances_def by blast

lemma advances_tables: "advances J w w' \<Longrightarrow> tables w' = tables w"
  by (simp add: advances_def)

lemma advances_keys: "advances J w w' \<Longrightarrow> set (keys w) \<subseteq> set (keys w')"
  by (auto simp: advances_def prefix_def)

text \<open>A reflexive and transitive relation that every step of a fold keeps, under a property it also keeps.\<close>

lemma fold_rel:
  assumes "\<And>w. Q w \<Longrightarrow> R w w" and "\<And>w w' w''. R w w' \<Longrightarrow> R w' w'' \<Longrightarrow> R w w''"
    and "\<And>x w. x \<in> set xs \<Longrightarrow> Q w \<Longrightarrow> R w (f x w) \<and> Q (f x w)"
  shows "Q w \<Longrightarrow> R w (fold f xs w) \<and> Q (fold f xs w)"
  using assms(3)
proof (induction xs arbitrary: w)
  case (Cons x xs)
  have x: "R w (f x w)" "Q (f x w)" using Cons.prems by auto
  have "R (f x w) (fold f xs (f x w)) \<and> Q (fold f xs (f x w))" using Cons.IH [OF x(2)] Cons.prems(2) by simp
  with x(1) assms(2) show ?case by auto
qed (use assms(1) in simp)

section \<open>The ledger\<close>

lemma RecordDispatch_Inr:
  assumes "RecordDispatch i v cid t r d = Inr d'"
  obtains c where "find (\<lambda>c. cv_id c = cid) (ed_captures d) = Some c"
    "(i, cv_delivery c) \<notin> row_key ` set (ed_dispatches d)"
    "d' = d\<lparr>ed_dispatches := ed_dispatches d @ [\<lparr>d_binding = i, d_version = v, d_capture = cid, d_task = t, d_reason = r, d_delivery = cv_delivery c\<rparr>]\<rparr>"
  using assms by (fastforce simp: RecordDispatch_def row_key_def list_ex_iff split: option.splits if_splits)

lemma find_own_id:
  "distinct (map cv_id cs) \<Longrightarrow> c \<in> set cs \<Longrightarrow> find (\<lambda>x. cv_id x = cv_id c) cs = Some (c :: capture_row)"
  by (induction cs) (auto simp: image_iff)

lemma RecordDispatch_own:
  assumes "distinct (map cv_id (ed_captures d))" and "c \<in> set (ed_captures d)"
  shows "RecordDispatch i v (cv_id c) t r d =
    (if (i, cv_delivery c) \<in> row_key ` set (ed_dispatches d) then Inl ErrAlreadyDispatched
     else Inr (d\<lparr>ed_dispatches := ed_dispatches d @ [\<lparr>d_binding = i, d_version = v, d_capture = cv_id c, d_task = t, d_reason = r, d_delivery = cv_delivery c\<rparr>]\<rparr>))"
  by (fastforce simp: RecordDispatch_def find_own_id [OF assms] row_key_def list_ex_iff)

text \<open>The capture of an offer is in the table, under a unique id.\<close>

definition offered :: "capture_row \<Rightarrow> dispatch_world \<Rightarrow> bool" where
  "offered c w \<longleftrightarrow> c \<in> set (ed_captures (dw_eda w)) \<and> distinct (map cv_id (ed_captures (dw_eda w)))"

lemma offered_tables: "tables w' = tables w \<Longrightarrow> offered c w' = offered c w"
  by (simp add: offered_def tables_def)

lemma recordEvaluated_advances: "advances J w (recordEvaluated b c r w)"
  by (auto simp: recordEvaluated_def advances_def tables_def keys_def split: sum.splits elim!: RecordDispatch_Inr)

lemma recordEvaluated_once:
  assumes "once w"
  shows "once (recordEvaluated b c r w)"
proof (cases "RecordDispatch (b_id b) (b_version b) (cv_id c) 0 (Some r) (dw_eda w)")
  case (Inr d)
  then show ?thesis using assms
    by (auto simp: recordEvaluated_def once_def keys_def claims_def row_key_def elim!: RecordDispatch_Inr)
qed (simp add: recordEvaluated_def assms)

lemma recordEvaluated_settles: "offered c w \<Longrightarrow> (b_id b, cv_delivery c) \<in> set (keys (recordEvaluated b c r w))"
  by (simp add: recordEvaluated_def offered_def RecordDispatch_own keys_def row_key_def)

lemma db_change [simp]:
  "tables (w\<lparr>dw_db := x\<rparr>) = tables w" "keys (w\<lparr>dw_db := x\<rparr>) = keys w" "once (w\<lparr>dw_db := x\<rparr>) = once w"
  "tables (w\<lparr>dw_policies := y\<rparr>) = tables w" "keys (w\<lparr>dw_policies := y\<rparr>) = keys w" "once (w\<lparr>dw_policies := y\<rparr>) = once w"
  "advances J v (w\<lparr>dw_db := x\<rparr>) = advances J v w" "advances J v (w\<lparr>dw_policies := y\<rparr>) = advances J v w"
  by (simp_all add: tables_def keys_def once_def claims_def advances_def)

lemma recordDispatchFailure_advances: "advances J w (recordDispatchFailure dd b c r w)"
  by (simp add: recordDispatchFailure_def Let_def recordEvaluated_advances)

lemma recordDispatchFailure_once: "once w \<Longrightarrow> once (recordDispatchFailure dd b c r w)"
  by (simp add: recordDispatchFailure_def Let_def recordEvaluated_once)

lemma recordDispatchFailure_settles: "offered c w \<Longrightarrow> (b_id b, cv_delivery c) \<in> set (keys (recordDispatchFailure dd b c r w))"
  by (simp add: recordDispatchFailure_def Let_def recordEvaluated_settles)

lemma match_recorded [simp]:
  "ed_dispatches (RecordMappingMatch m c d) = ed_dispatches d" "ed_bindings (RecordMappingMatch m c d) = ed_bindings d"
  "ed_captures (RecordMappingMatch m c d) = ed_captures d" "ed_mappings (RecordMappingMatch m c d) = ed_mappings d"
  by (simp_all add: RecordMappingMatch_def)

section \<open>One binding\<close>

text \<open>The tasks a dispatch with configuration \<open>dd\<close> and context \<open>cx\<close> may start over given tables: an armed
  binding of the acting org and an identified capture of its source that may dispatch, whose mapping
  resolved the required fields, whose filter admitted the event, whose workflow is enabled and accepts
  the inputs, with a repository that is none, pinned or configured, and which the access chain allowed.\<close>

definition accepted :: "dispatcher \<Rightarrow> (string \<Rightarrow> string option) \<Rightarrow> Binding \<Rightarrow> Field list \<Rightarrow> capture_row \<Rightarrow> bool" where
  "accepted dd workflows b fs c \<longleftrightarrow>
    (\<exists>vals failures filt t. Resolve (dd_decode dd) (dd_parse_float dd) fs (cv_body c) = (vals, failures)
       \<and> \<not> hasBlockingFailure fs failures
       \<and> CompileFilter (dd_cel dd) (b_filter b) fs = Inr filt \<and> fst (Admits filt vals)
       \<and> resolveBindingTarget (dd_yaml dd) (dd_repos dd) b vals workflows = Inr t)"

definition authorised :: "dispatcher \<Rightarrow> dispatch_ctx \<Rightarrow> Binding \<Rightarrow> capture_row \<Rightarrow> bool" where
  "authorised dd cx b c \<longleftrightarrow>
    (\<forall>authorize principals. dd_access dd = Some authorize \<and> dd_principals dd = Some principals \<longrightarrow>
       (\<exists>p. (dx_principal cx = Some p \<or> dx_principal cx = None \<and> principals (dd_root dd) = Some p)
          \<and> dc_allowed (authorize p ActionRun (run_resource b p) (dispatch_context c))))"

text \<open>The row a binding's mapping id leads to.\<close>

definition bound_row :: "Binding \<Rightarrow> eda \<Rightarrow> mapping_row option" where
  "bound_row b d = find (\<lambda>r. m_id r = b_mapping b) (ed_mappings d)"

definition justified :: "dispatcher \<Rightarrow> dispatch_ctx \<Rightarrow> (string \<Rightarrow> string option) \<Rightarrow> eda \<Rightarrow> Binding \<Rightarrow> capture_row \<Rightarrow> bool" where
  "justified dd cx workflows d b c \<longleftrightarrow> (\<exists>r. bound_row b d = Some r \<and> m_event_type r = cv_event_type c
     \<and> accepted dd workflows b (m_fields r) c \<and> authorised dd cx b c)"

definition may_start ::
    "dispatcher \<Rightarrow> dispatch_ctx \<Rightarrow> (string \<Rightarrow> string option) \<Rightarrow> WorkflowEnablement \<Rightarrow> eda \<Rightarrow> (string \<times> string \<times> int) set" where
  "may_start dd cx workflows en d = {(i, dl, t). \<exists>b c. b \<in> set (ed_bindings d) \<and> c \<in> set (ed_captures d)
      \<and> b_id b = i \<and> cv_delivery c = dl \<and> b_status b = StatusArmed \<and> b_source b = cv_source c
      \<and> b_org b = OrgFromContext (dx_org cx) \<and> cv_org c = OrgFromContext (dx_org cx)
      \<and> Dispatchable c \<and> cv_event_type c \<noteq> [] \<and> Enabled en (b_org b) (b_workflow b)
      \<and> justified dd cx workflows d b c}"

lemma set_task_keys [simp]: "map row_key (ed_dispatches (SetDispatchTask i j n d)) = map row_key (ed_dispatches d)"
  by (simp add: SetDispatchTask_def row_key_def)

lemma set_task_tables [simp]:
  "ed_bindings (SetDispatchTask i j n d) = ed_bindings d" "ed_captures (SetDispatchTask i j n d) = ed_captures d"
  "ed_mappings (SetDispatchTask i j n d) = ed_mappings d"
  by (simp_all add: SetDispatchTask_def)

lemma set_task_claims [simp]: "claims (SetDispatchTask i j n d) = claims d"
proof -
  let ?g = "\<lambda>x. if d_binding x = i \<and> d_capture x = j then x\<lparr>d_task := n\<rparr> else x"
  have "map row_key (filter (\<lambda>x. d_reason x = None) (map ?g xs)) = map row_key (filter (\<lambda>x. d_reason x = None) xs)" for xs
    by (induction xs) (simp_all add: row_key_def)
  moreover have "ed_dispatches (SetDispatchTask i j n d) = map ?g (ed_dispatches d)" by (simp add: SetDispatchTask_def)
  ultimately show ?thesis by (simp only: claims_def)
qed

lemma record_claims: "claims (d\<lparr>ed_dispatches := ed_dispatches d @ [x]\<rparr>) = (if d_reason x = None then {row_key x} else {}) \<union> claims d"
  by (auto simp: claims_def)

text \<open>A claim that fails changes nothing; one that succeeds adds its row, and a started task is logged.\<close>

lemma claim_cases:
  obtains e where "RecordDispatch (b_id b) (b_version b) (cv_id c) 0 None (dw_eda w) = Inl e"
      "claimAndEnqueue dd cx b c tg vals w = w"
  | d where "RecordDispatch (b_id b) (b_version b) (cv_id c) 0 None (dw_eda w) = Inr d"
      "claimAndEnqueue dd cx b c tg vals w = w\<lparr>dw_eda := d\<rparr>"
  | d n x where "RecordDispatch (b_id b) (b_version b) (cv_id c) 0 None (dw_eda w) = Inr d"
      "claimAndEnqueue dd cx b c tg vals w =
         w\<lparr>dw_db := x, dw_eda := SetDispatchTask (b_id b) (cv_id c) n d, dw_started := dw_started w @ [(b_id b, cv_delivery c, n)]\<rparr>"
proof (cases "RecordDispatch (b_id b) (b_version b) (cv_id c) 0 None (dw_eda w)")
  case (Inl e)
  then show ?thesis using that(1) by (simp add: claimAndEnqueue_def)
next
  case (Inr d)
  show ?thesis
  proof (cases "EncodeInputs (dd_marshal dd) (bt_inputs tg)")
    case None
    then show ?thesis using that(2) [OF Inr] by (simp add: claimAndEnqueue_def Inr)
  next
    case (Some inputs)
    show ?thesis
    proof (cases "EnqueueBindingTask None (bt_owner tg) (bt_repo tg) (task_title b c) (task_body dd b c tg vals) (b_workflow b)
        (task_identity dd cx) (b_id b) (b_version b) inputs (dw_db w)")
      case (Inl e)
      then show ?thesis using that(2) [OF Inr] Some by (simp add: claimAndEnqueue_def Inr)
    next
      case (Inr p)
      obtain r db where p: "p = (r, db)" by fastforce
      have "claimAndEnqueue dd cx b c tg vals w =
          w\<lparr>dw_db := snd (insertEventQ (start_event dd (t_id r) b c) db), dw_eda := SetDispatchTask (b_id b) (cv_id c) (t_id r) d,
            dw_started := dw_started w @ [(b_id b, cv_delivery c, t_id r)]\<rparr>"
        using Inr Some p \<open>RecordDispatch _ _ _ _ _ _ = Inr d\<close> by (simp add: claimAndEnqueue_def markBindingStart_def)
      then show ?thesis by (rule that(3) [OF \<open>RecordDispatch _ _ _ _ _ _ = Inr d\<close>])
    qed
  qed
qed

lemma claim_advances: "advances (range (\<lambda>t. (b_id b, cv_delivery c, t))) w (claimAndEnqueue dd cx b c tg vals w)"
  by (rule claim_cases [of b c w dd cx tg vals])
    (auto simp: advances_def tables_def keys_def elim!: RecordDispatch_Inr)

lemma claim_once:
  assumes "once w" and "offered c w"
  shows "once (claimAndEnqueue dd cx b c tg vals w)"
proof (rule claim_cases [of b c w dd cx tg vals])
  fix d assume "RecordDispatch (b_id b) (b_version b) (cv_id c) 0 None (dw_eda w) = Inr d"
    "claimAndEnqueue dd cx b c tg vals w = w\<lparr>dw_eda := d\<rparr>"
  then show ?thesis using assms
    by (auto simp: once_def keys_def record_claims row_key_def elim!: RecordDispatch_Inr)
next
  fix d n x assume rd: "RecordDispatch (b_id b) (b_version b) (cv_id c) 0 None (dw_eda w) = Inr d"
    and cl: "claimAndEnqueue dd cx b c tg vals w =
         w\<lparr>dw_db := x, dw_eda := SetDispatchTask (b_id b) (cv_id c) n d, dw_started := dw_started w @ [(b_id b, cv_delivery c, n)]\<rparr>"
  let ?k = "(b_id b, cv_delivery c)"
  have d: "?k \<notin> set (keys w)" "map row_key (ed_dispatches d) = keys w @ [?k]" "claims d = insert ?k (claims (dw_eda w))"
    "ed_captures d = ed_captures (dw_eda w)"
    using rd assms(2)
    by (auto simp: offered_def RecordDispatch_own keys_def record_claims row_key_def split: if_splits)
  have "claims (dw_eda w) \<subseteq> set (keys w)" by (auto simp: claims_def keys_def)
  then have "?k \<notin> start_key ` set (dw_started w)" using assms(1) d(1) by (auto simp: once_def)
  then show ?thesis unfolding cl using assms(1) d
    by (auto simp: once_def keys_def start_key_def [of "(b_id b, cv_delivery c, n)"])
qed (use assms in simp)

lemma claim_settles:
  assumes "offered c w"
  shows "(b_id b, cv_delivery c) \<in> set (keys (claimAndEnqueue dd cx b c tg vals w))"
proof (cases "(b_id b, cv_delivery c) \<in> set (keys w)")
  case True
  then show ?thesis using advances_keys [OF claim_advances] by blast
next
  case False
  with assms obtain d where rd: "RecordDispatch (b_id b) (b_version b) (cv_id c) 0 None (dw_eda w) = Inr d"
    "(b_id b, cv_delivery c) \<in> set (map row_key (ed_dispatches d))"
    by (simp add: offered_def RecordDispatch_own keys_def row_key_def)
  show ?thesis
    by (rule claim_cases [of b c w dd cx tg vals]) (use rd in \<open>simp_all add: keys_def\<close>)
qed

text \<open>Recording matches, denials and events leaves the ledger and the log alone.\<close>

definition same_ledger :: "dispatch_world \<Rightarrow> dispatch_world \<Rightarrow> bool" where
  "same_ledger w w' \<longleftrightarrow> tables w' = tables w \<and> ed_dispatches (dw_eda w') = ed_dispatches (dw_eda w) \<and> dw_started w' = dw_started w"

lemma same_ledger_refl [simp]: "same_ledger w w"
  by (simp add: same_ledger_def)

lemma same_ledger_trans: "same_ledger w w' \<Longrightarrow> same_ledger w' w'' \<Longrightarrow> same_ledger w w''"
  by (simp add: same_ledger_def)

lemma same_ledger_once: "same_ledger w w' \<Longrightarrow> once w' = once w"
  by (simp add: same_ledger_def once_def keys_def claims_def tables_def)

lemma same_ledger_advances: "same_ledger w w' \<Longrightarrow> advances J w w'"
  by (simp add: same_ledger_def advances_def keys_def)

lemma same_ledger_offered: "same_ledger w w' \<Longrightarrow> offered c w' = offered c w"
  by (simp add: same_ledger_def tables_def offered_def)

lemma denial_world [simp]: "same_ledger w (case r of Inl _ \<Rightarrow> w | Inr pd \<Rightarrow> w\<lparr>dw_policies := pd\<rparr>)"
  by (simp add: same_ledger_def tables_def split: sum.splits)

lemma match_world [simp]: "same_ledger w (w\<lparr>dw_eda := RecordMappingMatch m c (dw_eda w)\<rparr>)"
  by (simp add: same_ledger_def tables_def)

lemma authorize_allowed:
  assumes "authorizeDispatch dd cx b c w = (True, w')"
  shows "w' = w \<and> authorised dd cx b c"
  using assms by (auto simp: authorizeDispatch_def authorised_def Let_def split: option.splits if_splits)

lemma authorize_refused:
  assumes "authorizeDispatch dd cx b c w = (False, w')"
  shows "w' = w \<and> dx_principal cx = None \<and> \<not> authorised dd cx b c
    \<or> (\<exists>w1. same_ledger w w1 \<and> w' = recordDispatchFailure dd b c AccessDenied w1)"
proof -
  from assms obtain authorize principals where wired: "dd_access dd = Some authorize" "dd_principals dd = Some principals"
    by (auto simp: authorizeDispatch_def split: option.splits)
  let ?p = "case dx_principal cx of Some p \<Rightarrow> Some p | None \<Rightarrow> principals (dd_root dd)"
  show ?thesis
  proof (cases ?p)
    case None
    then have "dx_principal cx = None" "principals (dd_root dd) = None" by (auto split: option.splits)
    then show ?thesis using assms wired by (simp add: authorizeDispatch_def authorised_def)
  next
    case (Some p)
    let ?x = "authorize p ActionRun (run_resource b p) (dispatch_context c)"
    let ?w1 = "if dd_denials dd then (case RecordDenial (dd_minute dd) (dispatch_denial b p ?x) (dw_policies w) of
        Inl _ \<Rightarrow> w | Inr pd \<Rightarrow> w\<lparr>dw_policies := pd\<rparr>) else w"
    have "w' = recordDispatchFailure dd b c AccessDenied ?w1"
      using assms wired Some by (simp add: authorizeDispatch_def Let_def split: if_splits)
    moreover have "same_ledger w ?w1" by simp
    ultimately show ?thesis by blast
  qed
qed

lemma mapping_found: "GetMapping None (b_mapping b) d = map_option (mappingValue d) (bound_row b d)"
  by (simp add: GetMapping_def bound_row_def scoped_def)

lemma mapping_value [simp]: "m_event_type (mappingValue d r) = m_event_type r" "m_fields (mappingValue d r) = m_fields r"
  by (simp_all add: mappingValue_def)

text \<open>The ways out of one offer: nothing recorded, a ledger row with a reason, or a claim.\<close>

lemma one_cases:
  obtains (idle) "same_ledger w (dispatchOneBinding dd cx b c workflows w)"
      "\<not> dd_mappings dd \<or> (\<exists>r. bound_row b (dw_eda w) = Some r \<and> m_event_type r \<noteq> cv_event_type c) \<or> dx_principal cx = None \<and> \<not> authorised dd cx b c"
  | (failed) w1 r where "same_ledger w w1" "dispatchOneBinding dd cx b c workflows w = recordDispatchFailure dd b c r w1"
  | (filtered) w1 where "same_ledger w w1" "dispatchOneBinding dd cx b c workflows w = recordEvaluated b c Filtered w1"
  | (claimed) w1 t vals where "same_ledger w w1" "dispatchOneBinding dd cx b c workflows w = claimAndEnqueue dd cx b c t vals w1"
      "justified dd cx workflows (dw_eda w) b c"
proof (cases "dd_mappings dd")
  case False
  then show ?thesis using idle by (simp add: dispatchOneBinding_def bindingMapping_def)
next
  case mappings: True
  show ?thesis
  proof (cases "bound_row b (dw_eda w)")
    case None
    then show ?thesis using mappings failed [OF same_ledger_refl]
      by (simp add: dispatchOneBinding_def bindingMapping_def mapping_found)
  next
    case row: (Some r)
    obtain vals failures where res: "Resolve (dd_decode dd) (dd_parse_float dd) (m_fields r) (cv_body c) = (vals, failures)" by fastforce
    define w2 where "w2 = (if dd_matches dd then w\<lparr>dw_eda := RecordMappingMatch (m_id (mappingValue (dw_eda w) r)) (cv_id c) (dw_eda w)\<rparr> else w)"
    have w2: "same_ledger w w2" by (simp add: w2_def)
    have body: "dispatchOneBinding dd cx b c workflows w =
        (if m_event_type r \<noteq> cv_event_type c then w
         else if hasBlockingFailure (m_fields r) failures then recordDispatchFailure dd b c RequiredFieldFailed w
         else (case CompileFilter (dd_cel dd) (b_filter b) (m_fields r) of
             Inl _ \<Rightarrow> recordDispatchFailure dd b c FilterBroken w2
           | Inr filt \<Rightarrow>
               if \<not> fst (Admits filt vals) then recordEvaluated b c Filtered w2
               else (case resolveBindingTarget (dd_yaml dd) (dd_repos dd) b vals workflows of
                   Inl reason \<Rightarrow> recordDispatchFailure dd b c reason w2
                 | Inr t \<Rightarrow> (case authorizeDispatch dd cx b c w2 of (ok, w3) \<Rightarrow>
                     if ok then claimAndEnqueue dd cx b c t vals w3 else w3))))"
      unfolding dispatchOneBinding_def bindingMapping_def mapping_found row Let_def w2_def
      by (simp only: mappings not_True_eq_False if_False option.map option.case prod.case mapping_value res)
    show ?thesis
    proof (cases "m_event_type r \<noteq> cv_event_type c \<or> hasBlockingFailure (m_fields r) failures")
      case True
      then show ?thesis using idle row failed [OF same_ledger_refl] body by (cases "m_event_type r \<noteq> cv_event_type c") simp_all
    next
      case resolved: False
      show ?thesis
      proof (cases "CompileFilter (dd_cel dd) (b_filter b) (m_fields r)")
        case (Inl e)
        then show ?thesis using failed [OF w2] resolved by (simp add: body)
      next
        case filt: (Inr filt)
        show ?thesis
        proof (cases "fst (Admits filt vals)")
          case False
          then show ?thesis using filtered [OF w2] resolved filt by (simp add: body)
        next
          case admitted: True
          show ?thesis
          proof (cases "resolveBindingTarget (dd_yaml dd) (dd_repos dd) b vals workflows")
            case (Inl e)
            then show ?thesis using failed [OF w2] resolved filt admitted by (simp add: body)
          next
            case target: (Inr t)
            obtain ok w3 where auth: "authorizeDispatch dd cx b c w2 = (ok, w3)" by fastforce
            have out: "dispatchOneBinding dd cx b c workflows w = (if ok then claimAndEnqueue dd cx b c t vals w3 else w3)"
              using resolved filt admitted target auth by (simp add: body)
            show ?thesis
            proof (cases ok)
              case True
              then have "w3 = w2" "authorised dd cx b c" using auth authorize_allowed by auto
              then show ?thesis using claimed [OF w2] out True resolved row res filt admitted target
                by (auto simp: justified_def accepted_def)
            next
              case False
              with auth have "w3 = w2 \<and> dx_principal cx = None \<and> \<not> authorised dd cx b c
                  \<or> (\<exists>w1. same_ledger w2 w1 \<and> w3 = recordDispatchFailure dd b c AccessDenied w1)"
                by (intro authorize_refused) simp
              then show ?thesis
              proof (elim disjE exE conjE)
                assume "w3 = w2" "dx_principal cx = None" "\<not> authorised dd cx b c"
                then show ?thesis using idle w2 out False by simp
              next
                fix w1 assume "same_ledger w2 w1" "w3 = recordDispatchFailure dd b c AccessDenied w1"
                then show ?thesis using failed [OF same_ledger_trans [OF w2]] out False by simp
              qed
            qed
          qed
        qed
      qed
    qed
  qed
qed

lemma one_advances:
  "advances {(b_id b, cv_delivery c, t) |t. justified dd cx workflows (dw_eda w) b c} w (dispatchOneBinding dd cx b c workflows w)"
proof (cases rule: one_cases [of w dd cx b c workflows])
  case idle
  then show ?thesis by (simp add: same_ledger_advances)
next
  case (failed w1 r)
  then show ?thesis using advances_trans [OF same_ledger_advances recordDispatchFailure_advances] by simp
next
  case (filtered w1)
  then show ?thesis using advances_trans [OF same_ledger_advances recordEvaluated_advances] by simp
next
  case (claimed w1 t vals)
  have "advances {(b_id b, cv_delivery c, t) |t. justified dd cx workflows (dw_eda w) b c} w1 (claimAndEnqueue dd cx b c t vals w1)"
    using claimed(3) by (intro advances_mono [OF claim_advances]) auto
  then show ?thesis using claimed advances_trans [OF same_ledger_advances] by simp
qed

lemma one_once:
  assumes "once w" and "offered c w"
  shows "once (dispatchOneBinding dd cx b c workflows w)"
proof (cases rule: one_cases [of w dd cx b c workflows])
  case (claimed w1 t vals)
  then show ?thesis using assms claim_once by (simp add: same_ledger_once same_ledger_offered)
qed (use assms in \<open>simp_all add: same_ledger_once recordDispatchFailure_once recordEvaluated_once\<close>)

lemma one_settles:
  assumes "offered c w" and "dd_mappings dd" and "\<And>r. bound_row b (dw_eda w) = Some r \<Longrightarrow> m_event_type r = cv_event_type c"
    and "dx_principal cx \<noteq> None \<or> authorised dd cx b c"
  shows "(b_id b, cv_delivery c) \<in> set (keys (dispatchOneBinding dd cx b c workflows w))"
proof (cases rule: one_cases [of w dd cx b c workflows])
  case idle
  then show ?thesis using assms by auto
next
  case (failed w1 r)
  then show ?thesis using assms(1) by (simp add: same_ledger_offered recordDispatchFailure_settles)
next
  case (filtered w1)
  then show ?thesis using assms(1) by (simp add: same_ledger_offered recordEvaluated_settles)
next
  case (claimed w1 t vals)
  then show ?thesis using assms(1) by (simp add: same_ledger_offered claim_settles)
qed

end
