(* ===== verification/Dispatch_Cycle.thy ===== *)
theory Dispatch_Cycle
  imports Dispatch_Inv
begin

text \<open>
  A whole cycle of the dispatcher: what it may start, that it keeps the claims unique, and how the
  captures it lists are settled. The lemmas lift those of one offer through the three loops.
\<close>

section \<open>Facts that depend on the tables only\<close>

lemma bound_row_tables: "tables w' = tables w \<Longrightarrow> bound_row b (dw_eda w') = bound_row b (dw_eda w)"
  by (simp add: tables_def bound_row_def)

lemma justified_tables: "tables w' = tables w \<Longrightarrow> justified dd cx workflows (dw_eda w') b c = justified dd cx workflows (dw_eda w) b c"
  by (simp add: justified_def bound_row_def tables_def)

lemma may_start_tables: "tables w' = tables w \<Longrightarrow> may_start dd cx workflows en (dw_eda w') = may_start dd cx workflows en (dw_eda w)"
  by (simp add: may_start_def justified_def bound_row_def tables_def)

lemma sources_tables: "tables w' = tables w \<Longrightarrow> armed_sources cx (dw_eda w') = armed_sources cx (dw_eda w)"
  by (simp add: tables_def armed_sources_def ListBindings_def)

text \<open>A step that keeps \<open>Q\<close> and settles its own item for good settles every item of the list.\<close>

lemma fold_settles:
  assumes "\<And>x w. x \<in> set xs \<Longrightarrow> Q w \<Longrightarrow> Q (f x w)" and "\<And>x w. x \<in> set xs \<Longrightarrow> Q w \<Longrightarrow> S x (f x w)"
    and "\<And>x y w. x \<in> set xs \<Longrightarrow> y \<in> set xs \<Longrightarrow> Q w \<Longrightarrow> S y w \<Longrightarrow> S y (f x w)"
  shows "Q w \<Longrightarrow> (\<And>y. y \<in> set ys \<Longrightarrow> ys' @ ys = xs \<Longrightarrow> S y (fold f ys w))"
proof (induction ys arbitrary: ys' w)
  case (Cons x ys)
  have keep: "Q (fold f zs v) \<and> S x (fold f zs v)" if "Q v" "S x v" "set zs \<subseteq> set xs" for zs v
    using that
  proof (induction zs arbitrary: v)
    case (Cons z zs)
    then show ?case using assms(1,3) Cons.prems \<open>ys' @ x # ys = xs\<close> by force
  qed simp
  have x: "x \<in> set xs" "set ys \<subseteq> set xs" using Cons.prems(3) by auto
  show ?case
  proof (cases "y = x")
    case True
    then show ?thesis using keep [of "f x w" ys] assms(1,2) Cons.prems(1) x by simp
  next
    case False
    then show ?thesis using Cons.IH [of "f x w" y "ys' @ [x]"] Cons.prems assms(1) x by auto
  qed
qed simp

section \<open>One capture\<close>

definition stable :: "dispatch_world \<Rightarrow> dispatch_world \<Rightarrow> bool" where
  "stable w w' \<longleftrightarrow> tables w' = tables w \<and> (once w \<longrightarrow> once w')"

lemma stable_refl [simp]: "stable w w"
  by (simp add: stable_def)

text \<open>A capture the query can list: in the table, of the org, identified.\<close>

definition listed :: "dispatch_ctx \<Rightarrow> dispatch_world \<Rightarrow> capture_row \<Rightarrow> bool" where
  "listed cx w c \<longleftrightarrow> c \<in> set (ed_captures (dw_eda w)) \<and> cv_org c = OrgFromContext (dx_org cx) \<and> cv_event_type c \<noteq> []"

lemma listed_tables: "tables w' = tables w \<Longrightarrow> listed cx w' c = listed cx w c"
  by (simp add: listed_def tables_def)

lemma listed_offered: "listed cx w c \<Longrightarrow> once w \<Longrightarrow> offered c w"
  by (simp add: listed_def once_def offered_def)

lemma armed_for_source:
  "b \<in> set (ArmedBindingsForSource None s d) \<longleftrightarrow> b \<in> set (ed_bindings d) \<and> b_source b = s \<and> b_status b = StatusArmed"
  by (auto simp: ArmedBindingsForSource_def scoped_def StatusArmed_def)

lemma offer_step:
  assumes "stable w0 w" and "listed cx w0 c" and "b \<in> set (ArmedBindingsForSource None (cv_source c) (dw_eda w0))"
  shows "advances (may_start dd cx workflows en (dw_eda w0)) w (if eligible cx en c b then dispatchOneBinding dd cx b c workflows w else w)
    \<and> stable w0 (if eligible cx en c b then dispatchOneBinding dd cx b c workflows w else w)"
proof (cases "eligible cx en c b")
  case True
  have w: "tables w = tables w0" "once w0 \<Longrightarrow> once w" using assms(1) by (simp_all add: stable_def)
  let ?J = "{(b_id b, cv_delivery c, t) |t. justified dd cx workflows (dw_eda w) b c}"
  have "?J \<subseteq> may_start dd cx workflows en (dw_eda w0)"
    using True assms(2,3) by (auto simp: may_start_def listed_def eligible_def matcher_matches_def armed_for_source justified_tables [OF w(1)])
  then have adv: "advances (may_start dd cx workflows en (dw_eda w0)) w (dispatchOneBinding dd cx b c workflows w)"
    by (rule advances_mono [OF one_advances])
  moreover have "once w0 \<Longrightarrow> once (dispatchOneBinding dd cx b c workflows w)"
    using listed_offered [OF _ w(2)] assms(2) listed_tables [OF w(1)] one_once [OF w(2)] by blast
  ultimately show ?thesis using True advances_tables [OF adv] w(1) by (simp add: stable_def)
qed (use assms in simp)

lemma capture_step:
  assumes "listed cx w c"
  shows "advances (may_start dd cx workflows en (dw_eda w)) w (dispatchCapture dd cx workflows en c w)
    \<and> stable w (dispatchCapture dd cx workflows en c w)"
  unfolding dispatchCapture_def
proof (rule fold_rel [where R = "advances (may_start dd cx workflows en (dw_eda w))"])
  show "stable w w" by simp
  fix b v assume "b \<in> set (ArmedBindingsForSource None (cv_source c) (dw_eda w))" "stable w v"
  then show "advances (may_start dd cx workflows en (dw_eda w)) v (if eligible cx en c b then dispatchOneBinding dd cx b c workflows v else v)
      \<and> stable w (if eligible cx en c b then dispatchOneBinding dd cx b c workflows v else v)"
    by (rule offer_step [OF _ assms, rotated])
qed (auto intro: advances_trans)

text \<open>What the offer needs to settle: mappings wired, and a principal or an access chain that does not
  park the capture.\<close>

definition decides :: "dispatcher \<Rightarrow> dispatch_ctx \<Rightarrow> bool" where
  "decides dd cx \<longleftrightarrow> dd_mappings dd \<and> (dx_principal cx = None \<longrightarrow> dd_access dd = None \<or> dd_principals dd = None)"

lemma decides_authorised: "decides dd cx \<Longrightarrow> dd_mappings dd \<and> (dx_principal cx \<noteq> None \<or> authorised dd cx b c)"
  by (auto simp: decides_def authorised_def)

lemma capture_settles:
  assumes "once w" and "listed cx w c" and "decides dd cx"
    and "b \<in> set (ArmedBindingsForSource None (cv_source c) (dw_eda w))" and "eligible cx en c b"
    and "\<And>r. bound_row b (dw_eda w) = Some r \<Longrightarrow> m_event_type r = cv_event_type c"
  shows "(b_id b, cv_delivery c) \<in> set (keys (dispatchCapture dd cx workflows en c w))"
proof -
  let ?xs = "ArmedBindingsForSource None (cv_source c) (dw_eda w)"
  let ?f = "\<lambda>b w. if eligible cx en c b then dispatchOneBinding dd cx b c workflows w else w"
  let ?S = "\<lambda>x v. x = b \<longrightarrow> (b_id b, cv_delivery c) \<in> set (keys v)"
  have "?S b (fold ?f ?xs w)"
  proof (rule fold_settles [where Q = "stable w" and ys' = "[]" and S = ?S])
    fix x v assume "x \<in> set ?xs" "stable w v"
    then show "stable w (?f x v)" using offer_step assms(2) by blast
  next
    fix x v assume v: "x \<in> set ?xs" "stable w v"
    then have t: "tables v = tables w" and "once v" using assms(1) by (simp_all add: stable_def)
    then have "offered c v" using listed_offered assms(2) listed_tables [OF t] by blast
    then have "(b_id b, cv_delivery c) \<in> set (keys (dispatchOneBinding dd cx b c workflows v))"
      using assms(6) decides_authorised [OF assms(3)] by (intro one_settles) (auto simp: bound_row_tables [OF t])
    then show "?S x (?f x v)" using assms(5) by simp
  next
    fix x y v assume "x \<in> set ?xs" "stable w v" "?S y v"
    moreover have "set (keys v) \<subseteq> set (keys (?f x v))" using advances_keys [OF one_advances] by simp
    ultimately show "?S y (?f x v)" by blast
  next
    show "stable w w" by simp
  qed (use assms(4) in simp_all)
  then show ?thesis by (simp add: dispatchCapture_def)
qed

section \<open>One org\<close>

definition listing :: "dispatch_ctx \<Rightarrow> dispatch_world \<Rightarrow> capture_row list" where
  "listing cx w = ListUndispatchedCaptures (OrgFromContext (dx_org cx)) (armed_sources cx (dw_eda w)) bindingDispatchBatchLimit (dw_eda w)"

lemma listing_listed: "c \<in> set (listing cx w) \<Longrightarrow> listed cx w c"
  by (auto simp: listing_def listed_def ListUndispatchedCaptures_def newest_def undispatched_def split: if_splits dest!: in_set_takeD)

lemma cycle_fold:
  assumes "\<And>c. c \<in> set cs \<Longrightarrow> listed cx w c"
  shows "advances (may_start dd cx workflows en (dw_eda w)) w (fold (dispatchCapture dd cx workflows en) cs w)
    \<and> stable w (fold (dispatchCapture dd cx workflows en) cs w)"
proof (rule fold_rel [where R = "advances (may_start dd cx workflows en (dw_eda w))"])
  fix c v assume "c \<in> set cs" "stable w v"
  then have t: "tables v = tables w" and o: "once w \<Longrightarrow> once v" by (simp_all add: stable_def)
  have "listed cx v c" using \<open>c \<in> set cs\<close> assms listed_tables [OF t] by blast
  then show "advances (may_start dd cx workflows en (dw_eda w)) v (dispatchCapture dd cx workflows en c v)
      \<and> stable w (dispatchCapture dd cx workflows en c v)"
    using capture_step [of cx v c dd workflows en] o t by (simp add: may_start_tables [OF t] stable_def)
qed (use advances_trans in auto)

text \<open>The tasks a pass for one org may start.\<close>

definition startable :: "dispatcher \<Rightarrow> dispatch_ctx \<Rightarrow> eda \<Rightarrow> (string \<times> string \<times> int) set" where
  "startable dd cx d = {s. \<exists>workflows en. dd_workflows dd = Some workflows \<and> dd_enablement dd = Some en \<and> s \<in> may_start dd cx workflows en d}"

lemma org_step:
  "advances (startable dd cx (dw_eda w)) w (dispatchOrgBindings dd cx w) \<and> stable w (dispatchOrgBindings dd cx w)"
proof (cases "armed_sources cx (dw_eda w) \<noteq> [] \<and> dd_workflows dd \<noteq> None \<and> dd_enablement dd \<noteq> None")
  case True
  then obtain workflows en where some: "dd_workflows dd = Some workflows" "dd_enablement dd = Some en" by blast
  have "dispatchOrgBindings dd cx w = fold (dispatchCapture dd cx workflows en) (listing cx w) w"
    using True some by (simp add: dispatchOrgBindings_def listing_def Let_def)
  moreover have "may_start dd cx workflows en (dw_eda w) = startable dd cx (dw_eda w)" using some by (simp add: startable_def)
  ultimately show ?thesis using cycle_fold [of "listing cx w" cx w dd workflows en] listing_listed by simp
next
  case False
  then have "dispatchOrgBindings dd cx w = w" by (auto simp: dispatchOrgBindings_def Let_def split: option.splits)
  then show ?thesis by simp
qed

end
