(* ===== verification/Dispatch_Runs.thy ===== *)
theory Dispatch_Runs
  imports Dispatch_Cycle
begin

text \<open>
  Runs of the whole system: the operations on the event-automation tables, on the State Store and on the
  policies, in any order with the cycles of the dispatcher, the two halves of an approval apart, and
  claims of another daemon that read its tables earlier. The theorems are that a binding fires at most once
  per delivery and that a cycle starts only what is justified.
\<close>

section \<open>A cycle over the identities\<close>

definition contexts :: "dispatcher \<Rightarrow> dispatch_ctx set" where
  "contexts dd = (case dd_principals dd of
     None \<Rightarrow> {\<lparr>dx_org = [], dx_principal = None\<rparr>}
   | Some principals \<Rightarrow> {\<lparr>dx_org = pn_org p, dx_principal = Some p\<rparr> |p. \<exists>i \<in> set (dd_root dd # dd_identities dd). principals i = Some p})"

lemma identities_step:
  assumes "stable w0 w"
    and "\<And>i p. i \<in> set ids \<Longrightarrow> principals i = Some p \<Longrightarrow> startable dd \<lparr>dx_org = pn_org p, dx_principal = Some p\<rparr> (dw_eda w0) \<subseteq> J"
  shows "advances J w (dispatch_identities dd principals seen ids w) \<and> stable w0 (dispatch_identities dd principals seen ids w)"
  using assms
proof (induction ids arbitrary: w seen)
  case (Cons i ids)
  have rest: "advances J v (dispatch_identities dd principals sn ids v) \<and> stable w0 (dispatch_identities dd principals sn ids v)"
    if "stable w0 v" for v sn
    using Cons.prems(2) by (intro Cons.IH [OF that]) auto
  show ?case
  proof (cases "principals i")
    case None
    then show ?thesis using rest [OF Cons.prems(1)] by simp
  next
    case (Some p)
    show ?thesis
    proof (cases "pn_org p \<in> set seen")
      case True
      then show ?thesis using Some rest [OF Cons.prems(1)] by simp
    next
      case False
      let ?cx = "\<lparr>dx_org = pn_org p, dx_principal = Some p\<rparr>"
      have w: "tables w = tables w0" "once w0 \<Longrightarrow> once w" using Cons.prems(1) by (simp_all add: stable_def)
      have "startable dd ?cx (dw_eda w) \<subseteq> J"
        using Cons.prems(2) [of i p] Some by (simp add: startable_def may_start_tables [OF w(1)])
      then have one: "advances J w (dispatchOrgBindings dd ?cx w)" "stable w0 (dispatchOrgBindings dd ?cx w)"
        using org_step [of dd ?cx w] w by (auto simp: stable_def intro: advances_mono)
      show ?thesis using Some False one(1) rest [OF one(2), of "pn_org p # seen"] by (auto intro: advances_trans)
    qed
  qed
qed simp

lemma bindings_step:
  "advances (\<Union>cx \<in> contexts dd. startable dd cx (dw_eda w)) w (dispatchBindings dd w) \<and> stable w (dispatchBindings dd w)"
proof (cases "dd_wired dd")
  case False
  then show ?thesis by (simp add: dispatchBindings_def)
next
  case wired: True
  show ?thesis
  proof (cases "dd_principals dd")
    case None
    then show ?thesis using wired org_step [of dd "\<lparr>dx_org = [], dx_principal = None\<rparr>" w]
      by (simp add: dispatchBindings_def contexts_def)
  next
    case (Some principals)
    have "advances (\<Union>cx \<in> contexts dd. startable dd cx (dw_eda w)) w (dispatch_identities dd principals [] (dd_root dd # dd_identities dd) w)
        \<and> stable w (dispatch_identities dd principals [] (dd_root dd # dd_identities dd) w)"
      by (rule identities_step [OF stable_refl]) (use Some in \<open>auto simp: contexts_def\<close>)
    then show ?thesis using wired Some by (simp add: dispatchBindings_def)
  qed
qed

section \<open>Steps\<close>

inductive eda_step :: "eda \<Rightarrow> eda \<Rightarrow> bool" where
  insert_capture: "i \<notin> cv_id ` set (ed_captures d) \<Longrightarrow> InsertCapture fails mt decode unmarshal now i c retention maxEvents d = (r, d') \<Longrightarrow> eda_step d d'"
| insert_mapping: "i \<notin> m_id ` set (ed_mappings d) \<Longrightarrow> InsertMapping g i m d = (i, d') \<Longrightarrow> eda_step d d'"
| update_mapping: "UpdateMapping sc m d = Inr d' \<Longrightarrow> eda_step d d'"
| delete_mapping: "DeleteMapping sc i d = Inr d' \<Longrightarrow> eda_step d d'"
| record_match: "eda_step d (RecordMappingMatch i j d)"
| insert_binding: "i \<notin> b_id ` set (ed_bindings d) \<Longrightarrow> InsertBinding g i b d = (i, d') \<Longrightarrow> eda_step d d'"
| update_binding: "UpdateBinding sc b d = Inr d' \<Longrightarrow> eda_step d d'"
| delete_binding: "DeleteBinding sc i d = Inr d' \<Longrightarrow> eda_step d d'"
| pause: "PauseBinding sc i d = Inr d' \<Longrightarrow> eda_step d d'"
| resume: "ResumeBinding sc i d = Inr d' \<Longrightarrow> eda_step d d'"
| record_playbook: "RecordPlaybookDispatch p v e a d = Inr d' \<Longrightarrow> eda_step d d'"
| delete_playbook: "eda_step d (DeletePlaybookDispatches p d)"
| refuse: "eda_step d (RecordCaptureRefusal s a now d)"
| tool_call: "eda_step d (InsertToolCall has_task now i tc d)"
| insert_source: "InsertSource ci g s d = Inr d' \<Longrightarrow> eda_step d d'"
| set_signing: "SetSourceSigning sc path from_signing to_signing d = Inr d' \<Longrightarrow> eda_step d d'"
| set_secret: "SetSourceSecret ci sc path secret d = Inr d' \<Longrightarrow> eda_step d d'"
| set_name: "SetSourceName sc path name d = Inr d' \<Longrightarrow> eda_step d d'"
| set_header: "SetSourceDeliveryHeader sc path header d = Inr d' \<Longrightarrow> eda_step d d'"
| delete_source: "DeleteSource sc path d = Inr d' \<Longrightarrow> eda_step d d'"
| set_types: "eda_step d (d\<lparr>ed_types := ts\<rparr>)"

inductive system_step :: "dispatch_world \<Rightarrow> dispatch_world \<Rightarrow> bool" where
  automation: "eda_step (dw_eda w) d \<Longrightarrow> system_step w (w\<lparr>dw_eda := d\<rparr>)"
| approve_late: "approve_write sc i (dw_eda w) = Inr d \<Longrightarrow> system_step w (w\<lparr>dw_eda := d\<rparr>)"
| store: "store_step (dw_db w) d \<Longrightarrow> system_step w (w\<lparr>dw_db := d\<rparr>)"
| policies: "system_step w (w\<lparr>dw_policies := pd\<rparr>)"
| cycle: "system_step w (dispatchBindings dd w)"
| claim: "offered c w \<Longrightarrow> system_step w (claimAndEnqueue dd cx b c tg vals w)"
| evaluated: "system_step w (recordEvaluated b c r w)"

inductive system_run :: "dispatch_world \<Rightarrow> bool" where
  start: "system_run \<lparr>dw_eda = empty_eda, dw_db = d, dw_policies = pd, dw_started = []\<rparr>"
| step: "system_run w \<Longrightarrow> system_step w w' \<Longrightarrow> system_run w'"

section \<open>What the steps keep\<close>

definition ids_ok :: "eda \<Rightarrow> bool" where
  "ids_ok d \<longleftrightarrow> distinct (map cv_id (ed_captures d)) \<and> distinct (map m_id (ed_mappings d)) \<and> distinct (map b_id (ed_bindings d))"

lemma notice_tables [simp]:
  "ed_bindings (notifyWrite k s a i d) = ed_bindings d" "ed_captures (notifyWrite k s a i d) = ed_captures d"
  "ed_mappings (notifyWrite k s a i d) = ed_mappings d" "ed_dispatches (notifyWrite k s a i d) = ed_dispatches d"
  by (simp_all add: notifyWrite_def)

lemma update_bindings_tables [simp]:
  "ed_bindings (update_bindings P f d) = map (\<lambda>b. if P b then f b else b) (ed_bindings d)"
  "ed_captures (update_bindings P f d) = ed_captures d" "ed_mappings (update_bindings P f d) = ed_mappings d"
  "ed_dispatches (update_bindings P f d) = ed_dispatches d"
  by (simp_all add: update_bindings_def)

lemma update_sources_tables [simp]:
  "ed_bindings (update_sources P f d) = ed_bindings d" "ed_captures (update_sources P f d) = ed_captures d"
  "ed_mappings (update_sources P f d) = ed_mappings d" "ed_dispatches (update_sources P f d) = ed_dispatches d"
  by (simp_all add: update_sources_def)

lemma distinct_filter_map: "distinct (map f xs) \<Longrightarrow> distinct (map f (filter P xs))"
  by (induction xs) auto

lemma insert_capture_tables:
  assumes "InsertCapture fails mt decode unmarshal now i c retention maxEvents d = (r, d')"
  shows "ed_dispatches d' = ed_dispatches d \<and> ed_bindings d' = ed_bindings d \<and> ed_mappings d' = ed_mappings d"
  using InsertCapture_row [OF assms] by auto

lemma insert_capture_distinct:
  assumes "InsertCapture fails mt decode unmarshal now i c retention maxEvents d = (r, d')"
    and "i \<notin> cv_id ` set (ed_captures d)" and "distinct (map cv_id (ed_captures d))"
  shows "distinct (map cv_id (ed_captures d'))"
proof -
  have "distinct (map cv_id (ed_captures d @ [capture_row_of now i ty src c]))" for ty src
    using assms(2,3) by (simp add: capture_row_of_def)
  then show ?thesis using InsertCapture_row [OF assms(1)] assms(3) by (auto simp del: map_append filter_append intro!: distinct_filter_map)
qed

lemmas eda_ops = InsertMapping_def UpdateMapping_def DeleteMapping_def InsertBinding_def UpdateBinding_def
  DeleteBinding_def PauseBinding_def ResumeBinding_def transitionBinding_def RecordPlaybookDispatch_def
  DeletePlaybookDispatches_def RecordCaptureRefusal_def InsertToolCall_def InsertSource_def SetSourceSigning_def
  SetSourceSecret_def SetSourceName_def SetSourceDeliveryHeader_def set_source_def DeleteSource_def

lemma eda_step_ledger: "eda_step d d' \<Longrightarrow> ed_dispatches d' = ed_dispatches d"
  by (induction rule: eda_step.induct) (auto simp: eda_ops Let_def dest: insert_capture_tables split: if_splits sum.splits)

lemma eda_step_captures:
  assumes "eda_step d d'" and "distinct (map cv_id (ed_captures d))"
  shows "distinct (map cv_id (ed_captures d'))"
  using assms
proof (induction rule: eda_step.induct)
  case insert_capture
  then show ?case using insert_capture_distinct by blast
qed (auto simp: eda_ops Let_def split: if_splits sum.splits)

lemma eda_step_mappings:
  assumes "eda_step d d'" and "distinct (map m_id (ed_mappings d))"
  shows "distinct (map m_id (ed_mappings d'))"
  using assms
proof (induction rule: eda_step.induct)
  case (update_mapping sc m d d')
  then have "map m_id (ed_mappings d') = map m_id (ed_mappings d)" by (auto simp: UpdateMapping_def Let_def split: if_splits)
  then show ?case using update_mapping by simp
qed (auto simp: eda_ops Let_def distinct_filter_map dest: insert_capture_tables split: if_splits sum.splits)

lemma edited_id [simp]: "b_id (edited b r) = b_id r"
  by (simp add: edited_def)

lemma eda_step_bindings:
  assumes "eda_step d d'" and "distinct (map b_id (ed_bindings d))"
  shows "distinct (map b_id (ed_bindings d'))"
  using assms
proof (induction rule: eda_step.induct)
  case (update_binding sc b d d')
  then have "map b_id (ed_bindings d') = map b_id (ed_bindings d)" by (auto simp: UpdateBinding_def split: if_splits)
  then show ?case using update_binding by simp
next
  case (pause sc i d d')
  then have "map b_id (ed_bindings d') = map b_id (ed_bindings d)"
    by (auto simp: PauseBinding_def transitionBinding_def Let_def split: if_splits)
  then show ?case using pause by simp
next
  case (resume sc i d d')
  then have "map b_id (ed_bindings d') = map b_id (ed_bindings d)"
    by (auto simp: ResumeBinding_def transitionBinding_def Let_def split: if_splits)
  then show ?case using resume by simp
qed (auto simp: eda_ops Let_def distinct_filter_map RecordMappingMatch_def dest: insert_capture_tables split: if_splits sum.splits)

lemma eda_step_ids: "eda_step d d' \<Longrightarrow> ids_ok d \<Longrightarrow> ids_ok d'"
  by (simp add: ids_ok_def eda_step_captures eda_step_mappings eda_step_bindings)

lemma automation_once:
  assumes "eda_step (dw_eda w) d" and "once w" and "ids_ok (dw_eda w)"
  shows "once (w\<lparr>dw_eda := d\<rparr>) \<and> ids_ok d"
  using eda_step_ledger [OF assms(1)] eda_step_ids [OF assms(1,3)] assms(2) by (simp add: once_def keys_def claims_def ids_ok_def)

lemma approve_write_tables:
  assumes "approve_write sc i d = Inr d'"
  shows "map b_id (ed_bindings d') = map b_id (ed_bindings d) \<and> ed_captures d' = ed_captures d \<and> ed_mappings d' = ed_mappings d
    \<and> ed_dispatches d' = ed_dispatches d"
  using assms by (auto simp: approve_write_def split: if_splits)

lemma approve_once:
  assumes "approve_write sc i (dw_eda w) = Inr d" and "once w" and "ids_ok (dw_eda w)"
  shows "once (w\<lparr>dw_eda := d\<rparr>) \<and> ids_ok d"
  using approve_write_tables [OF assms(1)] assms(2,3) by (simp add: once_def keys_def claims_def ids_ok_def)

lemma ids_tables: "tables w' = tables w \<Longrightarrow> ids_ok (dw_eda w') = ids_ok (dw_eda w)"
  by (simp add: tables_def ids_ok_def)

lemma system_step_once:
  assumes "system_step w w'" and "once w" and "ids_ok (dw_eda w)"
  shows "once w' \<and> ids_ok (dw_eda w')"
  using assms
proof (cases rule: system_step.cases)
  case (automation d)
  then show ?thesis using automation_once assms(2,3) by simp
next
  case (approve_late sc i d)
  then show ?thesis using approve_once assms(2,3) by simp
next
  case (cycle dd)
  then show ?thesis using bindings_step [of dd w] ids_tables [of w' w] assms(2,3) by (simp add: stable_def)
next
  case (claim c dd cx b tg vals)
  then show ?thesis using claim_once [OF assms(2)] ids_tables [OF advances_tables [OF claim_advances]] assms(3) by simp
next
  case (evaluated b c r)
  then show ?thesis using recordEvaluated_once [OF assms(2)] ids_tables [OF advances_tables [OF recordEvaluated_advances]] assms(3) by simp
qed simp_all

lemma run_once: "system_run w \<Longrightarrow> once w \<and> ids_ok (dw_eda w)"
proof (induction rule: system_run.induct)
  case (start d pd)
  then show ?case by (simp add: once_def ids_ok_def keys_def empty_eda_def)
qed (use system_step_once in blast)

end
