(* ===== verification/Dispatch_Spec.thy ===== *)
theory Dispatch_Spec
  imports Dispatch_Runs
begin

text \<open>
  What the event automation guarantees: an armed binding is one that was approved as it stands, a binding
  starts one task per delivery at most, a cycle starts only justified tasks and drains the backlog; and
  where a backlog stands still.
\<close>

section \<open>Approval\<close>

text \<open>Runs of the tables in which an approval is not interrupted; the second argument lists the rows the
  approvals read.\<close>

inductive approval_run :: "eda \<Rightarrow> Binding list \<Rightarrow> bool" where
  start: "approval_run empty_eda []"
| other: "approval_run d as \<Longrightarrow> eda_step d d' \<Longrightarrow> approval_run d' as"
| approve: "approval_run d as \<Longrightarrow> GetBinding sc i d = Some b \<Longrightarrow> ApproveBinding sc i d = Inr d' \<Longrightarrow> approval_run d' (b # as)"

definition reviewed :: "Binding list \<Rightarrow> Binding \<Rightarrow> bool" where
  "reviewed as b \<longleftrightarrow> (\<exists>a \<in> set as. b_status a = StatusPendingApproval \<and> b = a\<lparr>b_status := StatusArmed\<rparr>)"

lemma statuses [simp]:
  "StatusPendingApproval \<noteq> StatusArmed" "StatusPaused \<noteq> StatusArmed" "StatusArmed \<noteq> StatusPendingApproval" "StatusArmed \<noteq> StatusPaused"
  by (simp_all add: StatusPendingApproval_def StatusArmed_def StatusPaused_def)

text \<open>No operation but an approval arms a binding, and none changes an armed one and leaves it armed.\<close>

lemma armed_kept:
  assumes "eda_step d d'" and "b \<in> set (ed_bindings d')" and "b_status b = StatusArmed"
  shows "b \<in> set (ed_bindings d)"
  using assms
  by (induction rule: eda_step.induct)
    (auto simp: eda_ops Let_def edited_def RecordMappingMatch_def dest: insert_capture_tables split: if_splits sum.splits)

lemma get_unique:
  assumes "ids_ok d" and "GetBinding sc i d = Some b" and "x \<in> set (ed_bindings d)" and "binding_hit sc i x"
  shows "x = b"
proof -
  have "b \<in> set (ed_bindings d)" "b_id b = i" "b_id x = i"
    using assms(2,4) by (auto simp: GetBinding_def binding_hit_def find_Some_iff)
  then show ?thesis using assms(1,3) by (auto simp: ids_ok_def distinct_map dest: inj_onD)
qed

lemma approval_inv:
  assumes "approval_run d as"
  shows "ids_ok d \<and> (\<forall>b \<in> set (ed_bindings d). b_status b = StatusArmed \<longrightarrow> reviewed as b)"
  using assms
proof (induction rule: approval_run.induct)
  case start
  then show ?case by (simp add: ids_ok_def empty_eda_def)
next
  case (other d as d')
  then show ?case using eda_step_ids armed_kept by blast
next
  case (approve d as sc i b d')
  have b: "b_status b = StatusPendingApproval" "approve_write sc i d = Inr d'"
    using approve.hyps by (auto simp: ApproveBinding_def approve_read_def split: if_splits)
  then have d': "ed_bindings d' = map (\<lambda>b. if binding_hit sc i b then b\<lparr>b_status := StatusArmed\<rparr> else b) (ed_bindings d)"
    by (auto simp: approve_write_def StatusArmed_def split: if_splits)
  have "ids_ok d'" using approve_write_tables [OF b(2)] approve.IH by (simp add: ids_ok_def)
  moreover have "reviewed (b # as) x" if "x \<in> set (ed_bindings d')" "b_status x = StatusArmed" for x
  proof -
    from that(1) d' obtain y where y: "y \<in> set (ed_bindings d)" "x = (if binding_hit sc i y then y\<lparr>b_status := StatusArmed\<rparr> else y)"
      by auto
    show ?thesis
    proof (cases "binding_hit sc i y")
      case True
      then have "y = b" using get_unique approve y(1) by blast
      then show ?thesis using y(2) True b(1) by (auto simp: reviewed_def)
    next
      case False
      then show ?thesis using approve.IH y that(2) by (auto simp: reviewed_def)
    qed
  qed
  ultimately show ?case by blast
qed

text \<open>C9: in every run in which the read and the write of an approval are not separated, a binding that is
  armed is, but for its status, the row some approval read while it was pending: the content and the
  version that dispatch are the ones that were reviewed, and an edit, a pause or a resume in between has
  taken the binding out of the armed state until the next approval.\<close>

theorem armed_is_reviewed:
  assumes "approval_run d as" and "b \<in> set (ed_bindings d)" and "b_status b = StatusArmed"
  shows "\<exists>a \<in> set as. b_status a = StatusPendingApproval \<and> b = a\<lparr>b_status := StatusArmed\<rparr>"
  using approval_inv [OF assms(1)] assms(2,3) by (auto simp: reviewed_def)

definition sample_binding :: Binding where
  "sample_binding = \<lparr>b_id = [], b_name = ''deploy'', b_source = ''hook'', b_mapping = ''m1'', b_filter = [],
     b_workflow = ''ship'', b_owner = ''o'', b_repo = ''r'', b_repo_param = [], b_inputs = [], b_org = [], b_version = 0, b_status = []\<rparr>"

theorem armed_is_reviewed_witness:
  "\<exists>d as b. approval_run d as \<and> b \<in> set (ed_bindings d) \<and> b_status b = StatusArmed \<and> b_version b = 2
     \<and> (\<exists>a \<in> set as. b_status a = StatusPendingApproval \<and> b = a\<lparr>b_status := StatusArmed\<rparr>)"
proof -
  let ?d1 = "snd (InsertBinding DefaultOrgID ''b1'' sample_binding empty_eda)"
  let ?b1 = "sample_binding\<lparr>b_id := ''b1'', b_org := DefaultOrgID, b_version := 1, b_status := StatusPendingApproval\<rparr>"
  let ?e = "sample_binding\<lparr>b_id := ''b1'', b_workflow := ''audit''\<rparr>"
  let ?b2 = "edited ?e ?b1"
  let ?on = "update_bindings (binding_hit None ''b1'')"
  let ?d2 = "notifyWrite ''binding_changed'' ''binding'' ''update'' ''b1'' (?on (edited ?e) ?d1)"
  let ?d3 = "notifyWrite ''binding_changed'' ''binding'' ''approve'' ''b1'' (?on (\<lambda>b. b\<lparr>b_status := ''armed''\<rparr>) ?d2)"
  have d1: "ed_bindings ?d1 = [?b1]" by (simp add: InsertBinding_def empty_eda_def)
  have hit: "binding_hit None ''b1'' ?b1" "binding_hit None ''b1'' ?b2" by (simp_all add: binding_hit_def scoped_def edited_def)
  have "eda_step empty_eda ?d1" by (rule insert_binding [of "''b1''"]) (simp_all add: empty_eda_def InsertBinding_def)
  with start have "approval_run ?d1 []" by (rule other)
  moreover have "UpdateBinding None ?e ?d1 = Inr ?d2" using d1 hit by (simp add: UpdateBinding_def)
  ultimately have "approval_run ?d2 []" by (blast intro: other update_binding)
  moreover have b2: "ed_bindings ?d2 = [?b2]" using d1 hit by simp
  moreover have "GetBinding None ''b1'' ?d2 = Some ?b2" using b2 hit by (simp add: GetBinding_def)
  moreover have "ApproveBinding None ''b1'' ?d2 = Inr ?d3"
    using b2 hit by (simp add: ApproveBinding_def approve_read_def approve_write_def GetBinding_def edited_def)
  ultimately have run: "approval_run ?d3 [?b2]" by (blast intro: approve)
  have b3: "?b2\<lparr>b_status := StatusArmed\<rparr> \<in> set (ed_bindings ?d3)" using b2 hit by (simp add: StatusArmed_def)
  have armed: "b_status (?b2\<lparr>b_status := StatusArmed\<rparr>) = StatusArmed" by simp
  have "b_version (?b2\<lparr>b_status := StatusArmed\<rparr>) = 2" by (simp add: edited_def)
  then show ?thesis by (intro exI) (rule conjI [OF run conjI [OF b3 conjI [OF armed conjI [OF _ armed_is_reviewed [OF run b3 armed]]]]])
qed

text \<open>Between the read and the write of an approval an edit can come in; the write then arms a version
  nobody approved.\<close>

lemma find_updated: "(\<And>x. P x \<Longrightarrow> P (f x)) \<Longrightarrow> find P (map (\<lambda>x. if P x then f x else x) xs) = map_option f (find P xs)"
  by (induction xs) auto

lemma get_updated:
  assumes "\<And>b. b_id (f b) = b_id b \<and> b_org (f b) = b_org b"
  shows "GetBinding sc i (notifyWrite k s a j (update_bindings (binding_hit sc i) f d)) = map_option f (GetBinding sc i d)"
proof -
  have "binding_hit sc i b \<Longrightarrow> binding_hit sc i (f b)" for b using assms by (simp add: binding_hit_def)
  then show ?thesis by (simp add: GetBinding_def find_updated)
qed

lemma get_listed: "GetBinding sc i d = Some b \<Longrightarrow> list_ex (binding_hit sc i) (ed_bindings d)"
  by (auto simp: GetBinding_def find_Some_iff list_ex_iff)

lemma approval_race:
  assumes "GetBinding sc (b_id e) d = Some b" and "b_status b = StatusPendingApproval"
  shows "\<exists>d1 d2. approve_read sc (b_id e) d = None \<and> UpdateBinding sc e d = Inr d1 \<and> approve_write sc (b_id e) d1 = Inr d2
    \<and> GetBinding sc (b_id e) d2 = Some ((edited e b)\<lparr>b_status := StatusArmed\<rparr>)"
proof -
  let ?d1 = "notifyWrite ''binding_changed'' ''binding'' ''update'' (b_id e) (update_bindings (binding_hit sc (b_id e)) (edited e) d)"
  have d1: "GetBinding sc (b_id e) ?d1 = Some (edited e b)" using get_updated [of "edited e"] assms(1) by (simp add: edited_def)
  have "approve_read sc (b_id e) d = None" using assms by (simp add: approve_read_def)
  moreover have "UpdateBinding sc e d = Inr ?d1" using get_listed [OF assms(1)] by (simp add: UpdateBinding_def)
  moreover obtain d2 where "approve_write sc (b_id e) ?d1 = Inr d2" "GetBinding sc (b_id e) d2 = Some ((edited e b)\<lparr>b_status := StatusArmed\<rparr>)"
    using get_listed [OF d1] get_updated [of "\<lambda>b. b\<lparr>b_status := ''armed''\<rparr>"] d1 by (simp add: approve_write_def StatusArmed_def)
  ultimately show ?thesis by blast
qed

section \<open>At most once\<close>

lemma start_key_pair: "start_key = (\<lambda>(i, dl, t). (i, dl))"
  by (simp add: start_key_def fun_eq_iff)

lemma distinct_count: "distinct xs \<Longrightarrow> x \<in> set xs \<Longrightarrow> count_list xs x = 1"
  by (induction xs) auto

lemma distinct_key_row:
  assumes "distinct (map row_key xs)" and "(i, dl) \<in> set (map row_key xs)"
  shows "length (filter (\<lambda>x. d_binding x = i \<and> d_delivery x = dl) xs) = 1"
proof -
  have "(\<lambda>x. d_binding x = i \<and> d_delivery x = dl) = (\<lambda>x. row_key x = (i, dl))" by (simp add: row_key_def fun_eq_iff)
  then have "length (filter (\<lambda>x. d_binding x = i \<and> d_delivery x = dl) xs) = count_list (map row_key xs) (i, dl)"
    by (simp add: count_list_eq_length_filter filter_map comp_def eq_commute)
  also have "\<dots> = 1" by (rule distinct_count) (rule assms)+
  finally show ?thesis .
qed

text \<open>C4: in every run of the system, whatever captures, edits, approvals, policy changes, store operations
  and dispatch cycles it interleaves and whatever claims other daemons make from earlier reads, no binding
  starts two tasks for one delivery, and each task that was started has exactly one row of the dispatch
  ledger for its binding and delivery.\<close>

theorem dispatch_at_most_once:
  assumes "system_run w"
  shows "distinct (map (\<lambda>(i, dl, t). (i, dl)) (dw_started w))
    \<and> (\<forall>(i, dl, t) \<in> set (dw_started w). length (filter (\<lambda>x. d_binding x = i \<and> d_delivery x = dl) (ed_dispatches (dw_eda w))) = 1)"
proof -
  have o: "once w" using run_once [OF assms] by simp
  have "length (filter (\<lambda>x. d_binding x = i \<and> d_delivery x = dl) (ed_dispatches (dw_eda w))) = 1"
    if "(i, dl, t) \<in> set (dw_started w)" for i dl t
  proof (rule distinct_key_row)
    have "start_key (i, dl, t) \<in> claims (dw_eda w)" using o that by (auto simp: once_def)
    then show "(i, dl) \<in> set (map row_key (ed_dispatches (dw_eda w)))" by (auto simp: start_key_def claims_def)
  qed (use o in \<open>simp add: once_def keys_def\<close>)
  then show ?thesis using o by (auto simp: once_def start_key_pair)
qed

text \<open>A concrete system: one event type, one mapping, one armed binding, and two captures of one delivery.\<close>

definition sample_dispatcher :: dispatcher where
  "sample_dispatcher = \<lparr>dd_wired = True, dd_mappings = True, dd_matches = True, dd_repos = [], dd_workflows = Some (\<lambda>_. Some []),
     dd_enablement = Some [],
     dd_yaml = (\<lambda>_. Some \<lparr>wi_inputs = [], wi_repository = RepositoryRequired, wi_outputs = [], wi_profile = [], wi_identity = [], wi_needs = \<lparr>wn_captures = False, wn_gate_retries = 0\<rparr>\<rparr>),
     dd_decode = (\<lambda>_. Some JNull), dd_parse_float = (\<lambda>_. None), dd_marshal = (\<lambda>_. Some ''{}''),
     dd_cel = \<lparr>cel_env = (\<lambda>_. True), cel_compile = (\<lambda>_ _. Some True), cel_program = (\<lambda>_ _. Some (\<lambda>_. Some (JBool True)))\<rparr>,
     dd_access = None, dd_principals = None, dd_denials = False, dd_minute = 0, dd_root = ''root'', dd_identities = [],
     dd_quote = id, dd_show = (\<lambda>_. []), dd_reason = (\<lambda>_. [])\<rparr>"

definition sample_type :: EventType where
  "sample_type = \<lparr>et_id = ''t1'', et_source = ''hook'', et_name = ''push'', et_rule = \<lparr>er_headers = [], er_payload = []\<rparr>, et_schema = []\<rparr>"

definition sample_mapping :: Mapping where
  "sample_mapping = \<lparr>m_id = [], m_name = ''push'', m_source_hint = [], m_event_type = ''t1'', m_fields = [], m_match_count = 0\<rparr>"

definition sample_event :: CapturedEvent where
  "sample_event = \<lparr>cv_id = [], cv_received = 5, cv_source = ''hook'', cv_addr = [], cv_content_type = [], cv_headers = [],
     cv_body = [], cv_authenticated = True, cv_event_type = [], cv_unsigned = False, cv_delivery = ''dl1''\<rparr>"

definition sample_capture :: "string \<Rightarrow> eda \<Rightarrow> (eda_error + string) \<times> eda" where
  "sample_capture i d = InsertCapture no_faults (\<lambda>_. None) (\<lambda>_. None) (\<lambda>_. None) 5 i sample_event 0 0 d"

definition sample_tables :: eda where
  "sample_tables = (let d1 = empty_eda\<lparr>ed_types := [sample_type]\<rparr>;
       d2 = snd (InsertMapping DefaultOrgID ''m1'' sample_mapping d1);
       d3 = snd (InsertBinding DefaultOrgID ''b1'' sample_binding d2);
       d4 = (case approve_write None ''b1'' d3 of Inl _ \<Rightarrow> d3 | Inr d \<Rightarrow> d);
       d5 = snd (sample_capture ''c1'' d4)
     in snd (sample_capture ''c2'' d5))"

definition sample_world :: dispatch_world where
  "sample_world = \<lparr>dw_eda = sample_tables, dw_db = empty_db, dw_policies = no_policies, dw_started = []\<rparr>"

lemma sample_step:
  assumes "i \<notin> cv_id ` set (ed_captures d)"
  shows "eda_step d (snd (sample_capture i d))"
  using insert_capture [OF assms] prod.collapse [of "sample_capture i d"] unfolding sample_capture_def by metis

lemma sample_cycle: "dw_started (dispatchBindings sample_dispatcher sample_world) = [(''b1'', ''dl1'', 1)]"
  by code_simp

lemma sample_run: "system_run sample_world"
proof -
  define world where "world d = \<lparr>dw_eda = d, dw_db = empty_db, dw_policies = no_policies, dw_started = []\<rparr>" for d
  have go: "system_run (world d')" if "system_run (world d)" "eda_step d d'" for d d'
    using step [OF that(1) automation [of "world d" d']] that(2) by (simp add: world_def)
  define d1 where "d1 = empty_eda\<lparr>ed_types := [sample_type]\<rparr>"
  define d2 where "d2 = snd (InsertMapping DefaultOrgID ''m1'' sample_mapping d1)"
  define d3 where "d3 = snd (InsertBinding DefaultOrgID ''b1'' sample_binding d2)"
  define d4 where "d4 = (case approve_write None ''b1'' d3 of Inl _ \<Rightarrow> d3 | Inr d \<Rightarrow> d)"
  define d5 where "d5 = snd (sample_capture ''c1'' d4)"
  note ds = d1_def d2_def d3_def d4_def d5_def
  have "system_run (world empty_eda)" by (simp add: world_def system_run.start)
  then have "system_run (world d1)" unfolding d1_def by (rule go) (rule set_types)
  then have "system_run (world d2)"
    by (rule go) (rule insert_mapping [of "''m1''"], simp_all add: ds InsertMapping_def empty_eda_def)
  then have "system_run (world d3)"
    by (rule go) (rule insert_binding [of "''b1''"], simp_all add: ds InsertBinding_def InsertMapping_def empty_eda_def notifyWrite_def)
  moreover have hit: "approve_write None ''b1'' d3 = Inr d4"
    by (simp add: ds InsertBinding_def InsertMapping_def empty_eda_def notifyWrite_def approve_write_def binding_hit_def scoped_def)
  ultimately have "system_run (world d4)"
    using step [OF _ approve_late [of None "''b1''" "world d3" d4]] by (simp add: world_def)
  moreover have c4: "ed_captures d4 = []" using approve_write_tables [OF hit] by (simp add: ds InsertBinding_def InsertMapping_def empty_eda_def)
  ultimately have "system_run (world d5)"
    unfolding d5_def by (intro go [OF _ sample_step]) simp_all
  moreover have "cv_id ` set (ed_captures d5) = {''c1''}"
    using c4 by (simp add: d5_def sample_capture_def InsertCapture_def Let_def capture_row_of_def pruneCaptures_def)
  ultimately have "system_run (world (snd (sample_capture ''c2'' d5)))"
    by (intro go [OF _ sample_step]) simp_all
  then have "system_run (world sample_tables)" by (simp only: sample_tables_def ds Let_def)
  then show ?thesis by (simp add: world_def sample_world_def)
qed

theorem dispatch_at_most_once_witness:
  "\<exists>w. system_run w \<and> dw_started w = [(''b1'', ''dl1'', 1)] \<and> length (ed_captures (dw_eda w)) = 2
     \<and> length (filter (\<lambda>x. d_binding x = ''b1'' \<and> d_delivery x = ''dl1'') (ed_dispatches (dw_eda w))) = 1"
proof -
  have run: "system_run (dispatchBindings sample_dispatcher sample_world)" by (rule step [OF sample_run cycle])
  have two: "length (ed_captures (dw_eda (dispatchBindings sample_dispatcher sample_world))) = 2" by code_simp
  show ?thesis using dispatch_at_most_once [OF run] run sample_cycle two by (intro exI conjI) auto
qed

section \<open>What a cycle starts\<close>

lemma accepted_target:
  assumes "accepted dd workflows b fs c"
  shows "\<exists>vals failures filt src iface tg. Resolve (dd_decode dd) (dd_parse_float dd) fs (cv_body c) = (vals, failures)
     \<and> \<not> hasBlockingFailure fs failures \<and> CompileFilter (dd_cel dd) (b_filter b) fs = Inr filt \<and> fst (Admits filt vals)
     \<and> resolveBindingTarget (dd_yaml dd) (dd_repos dd) b vals workflows = Inr tg
     \<and> workflows (b_workflow b) = Some src \<and> ParseWorkflowInterface (dd_yaml dd) src = Inr iface
     \<and> bt_inputs tg = ResolveInputs b vals \<and> CheckInputs iface (bt_inputs tg) = None
     \<and> ((bt_owner tg, bt_repo tg) = ([], []) \<or> (bt_owner tg, bt_repo tg) \<in> set (dd_repos dd)
        \<or> (b_owner b \<noteq> [] \<and> (bt_owner tg, bt_repo tg) = (b_owner b, b_repo b)))"
proof -
  obtain vals failures filt tg where a: "Resolve (dd_decode dd) (dd_parse_float dd) fs (cv_body c) = (vals, failures)"
    "\<not> hasBlockingFailure fs failures" "CompileFilter (dd_cel dd) (b_filter b) fs = Inr filt" "fst (Admits filt vals)"
    "resolveBindingTarget (dd_yaml dd) (dd_repos dd) b vals workflows = Inr tg"
    using assms by (auto simp: accepted_def)
  then show ?thesis using target_inputs [OF a(5)] target_repository [OF a(5)] by blast
qed

text \<open>C6: a task that a cycle starts for a binding and a delivery is justified by the tables the cycle found:
  the binding was armed and its workflow enabled, the delivery came on a capture of the same org and source
  that was signed or allowed unsigned and whose event type is the mapping's, every required field resolved,
  the filter compiled and admitted the values, the workflow exists and its declaration accepts the inputs,
  the repository is none, pinned by the binding or configured, and the access chain, where it is wired,
  allowed the acting identity to run the workflow.\<close>

theorem started_is_justified:
  assumes "(i, dl, t) \<in> set (drop (length (dw_started w)) (dw_started (dispatchBindings dd w)))"
  shows "\<exists>cx workflows en b c r vals failures filt src iface tg. cx \<in> contexts dd
     \<and> dd_workflows dd = Some workflows \<and> dd_enablement dd = Some en
     \<and> b \<in> set (ed_bindings (dw_eda w)) \<and> b_id b = i \<and> b_status b = StatusArmed \<and> Enabled en (b_org b) (b_workflow b)
     \<and> c \<in> set (ed_captures (dw_eda w)) \<and> cv_delivery c = dl \<and> cv_source c = b_source b \<and> cv_org c = b_org b \<and> Dispatchable c
     \<and> bound_row b (dw_eda w) = Some r \<and> m_event_type r = cv_event_type c \<and> cv_event_type c \<noteq> []
     \<and> Resolve (dd_decode dd) (dd_parse_float dd) (m_fields r) (cv_body c) = (vals, failures)
     \<and> \<not> hasBlockingFailure (m_fields r) failures
     \<and> CompileFilter (dd_cel dd) (b_filter b) (m_fields r) = Inr filt \<and> fst (Admits filt vals)
     \<and> workflows (b_workflow b) = Some src \<and> ParseWorkflowInterface (dd_yaml dd) src = Inr iface
     \<and> resolveBindingTarget (dd_yaml dd) (dd_repos dd) b vals workflows = Inr tg
     \<and> bt_inputs tg = ResolveInputs b vals \<and> CheckInputs iface (bt_inputs tg) = None
     \<and> ((bt_owner tg, bt_repo tg) = ([], []) \<or> (bt_owner tg, bt_repo tg) \<in> set (dd_repos dd)
        \<or> (b_owner b \<noteq> [] \<and> (bt_owner tg, bt_repo tg) = (b_owner b, b_repo b)))
     \<and> authorised dd cx b c"
proof -
  obtain new where new: "dw_started (dispatchBindings dd w) = dw_started w @ new" "set new \<subseteq> (\<Union>cx \<in> contexts dd. startable dd cx (dw_eda w))"
    using bindings_step [of dd w] by (auto simp: advances_def)
  with assms obtain cx where cx: "cx \<in> contexts dd" "(i, dl, t) \<in> startable dd cx (dw_eda w)" by auto
  then obtain workflows en where wf: "dd_workflows dd = Some workflows" "dd_enablement dd = Some en" "(i, dl, t) \<in> may_start dd cx workflows en (dw_eda w)"
    by (auto simp: startable_def)
  then obtain b c where bc: "b \<in> set (ed_bindings (dw_eda w))" "c \<in> set (ed_captures (dw_eda w))" "b_id b = i" "cv_delivery c = dl"
      "b_status b = StatusArmed" "b_source b = cv_source c" "b_org b = cv_org c" "Dispatchable c" "cv_event_type c \<noteq> []"
      "Enabled en (b_org b) (b_workflow b)" "justified dd cx workflows (dw_eda w) b c"
    by (auto simp: may_start_def)
  then obtain r where r: "bound_row b (dw_eda w) = Some r" "m_event_type r = cv_event_type c" "accepted dd workflows b (m_fields r) c"
      "authorised dd cx b c"
    by (auto simp: justified_def)
  from accepted_target [OF r(3)] show ?thesis
    using cx(1) wf(1,2) bc(1-10) r(1,2,4) by (elim exE conjE) (intro exI conjI; assumption?; (simp; fail)?)
qed

theorem started_is_justified_witness:
  "\<exists>b c. b \<in> set (ed_bindings sample_tables) \<and> c \<in> set (ed_captures sample_tables) \<and> b_status b = StatusArmed
     \<and> Dispatchable c \<and> dw_started (dispatchBindings sample_dispatcher sample_world) = [(b_id b, cv_delivery c, 1)]"
proof -
  have "(''b1'', ''dl1'', 1) \<in> set (drop (length (dw_started sample_world)) (dw_started (dispatchBindings sample_dispatcher sample_world)))"
    by (simp add: sample_cycle) (simp add: sample_world_def)
  from started_is_justified [OF this] obtain b c where bc: "b \<in> set (ed_bindings (dw_eda sample_world))" "b_id b = ''b1''"
      "b_status b = StatusArmed" "c \<in> set (ed_captures (dw_eda sample_world))" "cv_delivery c = ''dl1''" "Dispatchable c"
    by (elim exE conjE) (rule that)
  moreover have "dw_eda sample_world = sample_tables" by (simp add: sample_world_def)
  ultimately show ?thesis using sample_cycle by (intro exI [of _ b] exI [of _ c]) simp
qed

end
