(* ===== verification/Dispatch_Drain.thy ===== *)
theory Dispatch_Drain
  imports Dispatch_Spec
begin

text \<open>
  The backlog of the dispatcher: the captures that some armed binding has not seen. A pass settles the newest
  hundred of them when nothing parks them; a hundred that never settle stop the rest.
\<close>

section \<open>The backlog\<close>

definition pending :: "dispatch_ctx \<Rightarrow> eda \<Rightarrow> capture_row list" where
  "pending cx d = filter (undispatched (OrgFromContext (dx_org cx)) (armed_sources cx d) d) (ed_captures d)"

lemma no_sources: "armed_sources cx d = [] \<Longrightarrow> pending cx d = []"
  by (simp add: pending_def undispatched_def)

lemma listing_pending: "listing cx w = take 100 (newest (pending cx (dw_eda w)))"
  by (cases "armed_sources cx (dw_eda w) = []")
    (simp_all add: listing_def ListUndispatchedCaptures_def bindingDispatchBatchLimit_def newest_def pending_def undispatched_def)

lemma awaits_advances:
  assumes "tables w' = tables w" and "set (keys w) \<subseteq> set (keys w')" and "awaits (dw_eda w') c b"
  shows "awaits (dw_eda w) c b"
proof -
  have "list_ex (\<lambda>x. d_binding x = b_id b \<and> d_delivery x = cv_delivery c) (ed_dispatches (dw_eda v)) \<longleftrightarrow> (b_id b, cv_delivery c) \<in> set (keys v)" for v
    by (force simp: list_ex_iff keys_def row_key_def)
  then show ?thesis using assms by (auto simp: awaits_def tables_def)
qed

lemma pending_shrinks:
  assumes "tables w' = tables w" and "set (keys w) \<subseteq> set (keys w')"
  shows "set (pending cx (dw_eda w')) \<subseteq> set (pending cx (dw_eda w))"
proof -
  have "ed_captures (dw_eda w') = ed_captures (dw_eda w)" "ed_bindings (dw_eda w') = ed_bindings (dw_eda w)"
    using assms(1) by (simp_all add: tables_def)
  then show ?thesis using awaits_advances [OF assms] sources_tables [OF assms(1), of cx]
    by (auto simp: pending_def undispatched_def list_ex_iff)
qed

text \<open>Nothing parks the captures of the org: the dispatcher reads its tables and decides, the workflows of the
  armed bindings are enabled and the captures of the backlog may dispatch.\<close>

definition unobstructed :: "dispatcher \<Rightarrow> dispatch_ctx \<Rightarrow> eda \<Rightarrow> bool" where
  "unobstructed dd cx d \<longleftrightarrow> decides dd cx \<and> dd_workflows dd \<noteq> None
     \<and> (\<exists>en. dd_enablement dd = Some en
          \<and> (\<forall>b \<in> set (ed_bindings d). b_status b = StatusArmed \<and> b_org b = OrgFromContext (dx_org cx) \<longrightarrow> Enabled en (b_org b) (b_workflow b)))
     \<and> list_all Dispatchable (pending cx d)"

lemma unique_row:
  assumes "distinct (map m_id ms)" and "list_ex (\<lambda>m. m_id m = i \<and> m_event_type m = ty) (ms :: mapping_row list)" and "find (\<lambda>r. m_id r = i) ms = Some r"
  shows "m_event_type r = ty"
proof -
  obtain m where "m \<in> set ms" "m_id m = i" "m_event_type m = ty" using assms(2) by (auto simp: list_ex_iff)
  moreover have "r \<in> set ms" "m_id r = i" using assms(3) by (auto simp: find_Some_iff)
  ultimately show ?thesis using assms(1) by (auto simp: distinct_map dest: inj_onD)
qed

section \<open>A pass settles what it lists\<close>

lemma org_settles:
  assumes "once w" and "decides dd cx" and "dd_workflows dd = Some workflows" and "dd_enablement dd = Some en"
    and "c \<in> set (listing cx w)" and "b \<in> set (ArmedBindingsForSource None (cv_source c) (dw_eda w))" and "eligible cx en c b"
    and "\<And>r. bound_row b (dw_eda w) = Some r \<Longrightarrow> m_event_type r = cv_event_type c"
  shows "(b_id b, cv_delivery c) \<in> set (keys (dispatchOrgBindings dd cx w))"
proof -
  let ?f = "dispatchCapture dd cx workflows en"
  let ?S = "\<lambda>x v. x = c \<longrightarrow> (b_id b, cv_delivery c) \<in> set (keys v)"
  have l: "listed cx v x" if "x \<in> set (listing cx w)" "stable w v" for x v
    using that listing_listed listed_tables [of v w] by (auto simp: stable_def)
  have step: "stable v (?f x v)" "set (keys v) \<subseteq> set (keys (?f x v))" if "x \<in> set (listing cx w)" "stable w v" for x v
    using capture_step [OF l [OF that], of dd workflows en] advances_keys by blast+
  have "?S c (fold ?f (listing cx w) w)"
  proof (rule fold_settles [where Q = "stable w" and ys' = "[]" and S = ?S])
    fix x v assume "x \<in> set (listing cx w)" "stable w v"
    then show "stable w (?f x v)" using step by (auto simp: stable_def)
  next
    fix x v assume v: "x \<in> set (listing cx w)" "stable w v"
    then have t: "tables v = tables w" and o: "once v" using assms(1) by (simp_all add: stable_def)
    have "b \<in> set (ArmedBindingsForSource None (cv_source c) (dw_eda v))" using t assms(6) by (simp add: armed_for_source tables_def)
    then have "(b_id b, cv_delivery c) \<in> set (keys (?f c v))"
      using capture_settles [OF o l [OF assms(5) v(2)] assms(2) _ assms(7)] assms(8) by (simp add: bound_row_tables [OF t])
    then show "?S x (?f x v)" by simp
  next
    fix x y v assume "x \<in> set (listing cx w)" "stable w v" "?S y v"
    then show "?S y (?f x v)" using step(2) by blast
  qed (use assms(5) in simp_all)
  moreover have "armed_sources cx (dw_eda w) \<noteq> []" using assms(5) by (auto simp: listing_pending no_sources newest_def)
  ultimately show ?thesis using assms(3,4) by (simp add: dispatchOrgBindings_def listing_def Let_def)
qed

lemma org_pass:
  assumes "once w" and "ids_ok (dw_eda w)" and "unobstructed dd cx (dw_eda w)" and "c \<in> set (listing cx w)"
  shows "c \<notin> set (pending cx (dw_eda (dispatchOrgBindings dd cx w)))"
proof
  let ?w = "dispatchOrgBindings dd cx w"
  assume "c \<in> set (pending cx (dw_eda ?w))"
  then obtain b where b: "b \<in> set (ed_bindings (dw_eda ?w))" "awaits (dw_eda ?w) c b" "cv_org c = OrgFromContext (dx_org cx)"
    by (auto simp: pending_def undispatched_def list_ex_iff)
  have t: "tables ?w = tables w" using org_step [of dd cx w] by (simp add: stable_def)
  obtain workflows en where cfg: "dd_workflows dd = Some workflows" "dd_enablement dd = Some en"
    and en: "\<forall>b \<in> set (ed_bindings (dw_eda w)). b_status b = StatusArmed \<and> b_org b = OrgFromContext (dx_org cx) \<longrightarrow> Enabled en (b_org b) (b_workflow b)"
    using assms(3) by (auto simp: unobstructed_def)
  have mem: "b \<in> set (ed_bindings (dw_eda w))" "ed_mappings (dw_eda ?w) = ed_mappings (dw_eda w)" using b(1) t by (simp_all add: tables_def)
  have aw: "b_org b = cv_org c" "b_source b = cv_source c" "b_status b = StatusArmed"
      "list_ex (\<lambda>m. m_id m = b_mapping b \<and> m_event_type m = cv_event_type c) (ed_mappings (dw_eda w))"
      "\<not> list_ex (\<lambda>x. d_binding x = b_id b \<and> d_delivery x = cv_delivery c) (ed_dispatches (dw_eda ?w))"
    using b(2) mem(2) by (simp_all add: awaits_def StatusArmed_def)
  have "c \<in> set (pending cx (dw_eda w))" using assms(4) by (auto simp: listing_pending newest_def dest: in_set_takeD)
  then have "eligible cx en c b"
    using assms(3) en mem(1) aw(1-3) b(3) by (auto simp: eligible_def matcher_matches_def unobstructed_def list_all_iff)
  moreover have "m_event_type r = cv_event_type c" if "bound_row b (dw_eda w) = Some r" for r
    using unique_row [OF _ aw(4)] that assms(2) by (simp add: bound_row_def ids_ok_def)
  ultimately have "(b_id b, cv_delivery c) \<in> set (keys ?w)"
    using org_settles [OF assms(1) _ cfg assms(4)] assms(3) mem(1) aw(2,3) by (simp add: unobstructed_def armed_for_source)
  then show False using aw(5) by (auto simp: keys_def row_key_def list_ex_iff)
qed

lemma org_pass_length:
  assumes "once w" and "ids_ok (dw_eda w)" and "unobstructed dd cx (dw_eda w)"
  shows "length (pending cx (dw_eda (dispatchOrgBindings dd cx w))) \<le> length (pending cx (dw_eda w)) - 100"
proof -
  let ?w = "dispatchOrgBindings dd cx w" and ?n = "newest (pending cx (dw_eda w))"
  have t: "tables ?w = tables w" and k: "set (keys w) \<subseteq> set (keys ?w)"
    using org_step [of dd cx w] advances_keys by (auto simp: stable_def)
  have "distinct (ed_captures (dw_eda ?w))" using assms(2) t by (simp add: ids_ok_def tables_def distinct_map)
  then have "distinct (pending cx (dw_eda ?w))" by (simp add: pending_def)
  then have "length (pending cx (dw_eda ?w)) = card (set (pending cx (dw_eda ?w)))" by (rule distinct_card [symmetric])
  also have "\<dots> \<le> card (set (drop 100 ?n))"
  proof (rule card_mono)
    have "set ?n = set (take 100 ?n) \<union> set (drop 100 ?n)" by (metis append_take_drop_id set_append)
    moreover have "set ?n = set (pending cx (dw_eda w))" by (simp add: newest_def)
    ultimately show "set (pending cx (dw_eda ?w)) \<subseteq> set (drop 100 ?n)"
      using pending_shrinks [OF t k, of cx] org_pass [OF assms] by (auto simp: listing_pending)
  qed simp
  also have "\<dots> \<le> length (drop 100 ?n)" by (rule card_length)
  finally show ?thesis by (simp add: newest_def)
qed

lemma unobstructed_pass:
  assumes "unobstructed dd cx (dw_eda w)"
  shows "unobstructed dd cx (dw_eda (dispatchOrgBindings dd cx w))"
proof -
  let ?w = "dispatchOrgBindings dd cx w"
  have t: "tables ?w = tables w" and k: "set (keys w) \<subseteq> set (keys ?w)"
    using org_step [of dd cx w] advances_keys by (auto simp: stable_def)
  have "ed_bindings (dw_eda ?w) = ed_bindings (dw_eda w)" using t by (simp add: tables_def)
  moreover have "list_all Dispatchable (pending cx (dw_eda ?w))"
    using pending_shrinks [OF t k, of cx] assms by (auto simp: unobstructed_def list_all_iff)
  ultimately show ?thesis using assms by (simp add: unobstructed_def)
qed

lemma passes_drain:
  assumes "once w" and "ids_ok (dw_eda w)" and "unobstructed dd cx (dw_eda w)" and "length (pending cx (dw_eda w)) \<le> 100 * k"
  shows "pending cx (dw_eda ((dispatchOrgBindings dd cx ^^ k) w)) = []"
  using assms
proof (induction k arbitrary: w)
  case (Suc k)
  let ?w = "dispatchOrgBindings dd cx w"
  have st: "tables ?w = tables w" "once ?w" using org_step [of dd cx w] Suc.prems(1) by (simp_all add: stable_def)
  have "length (pending cx (dw_eda ?w)) \<le> 100 * k" using org_pass_length [OF Suc.prems(1-3)] Suc.prems(4) by simp
  moreover have "ids_ok (dw_eda ?w)" using ids_tables [OF st(1)] Suc.prems(2) by simp
  ultimately show ?case using Suc.IH [OF st(2) _ unobstructed_pass [OF Suc.prems(3)]] by (simp add: funpow_swap1)
qed simp

text \<open>C32: In every state a run reaches, when the dispatcher's tables and its principal can be read, the workflows
  of the armed bindings are enabled and the captures of the backlog may dispatch, a backlog of \<open>n\<close> captures is
  empty after \<open>n\<close>/100 passes, rounded up: every capture is dispatched or has a ledger row that says why not,
  for every armed binding that waits for its event type.\<close>

theorem backlog_drains:
  assumes "system_run w" and "unobstructed dd cx (dw_eda w)" and "length (pending cx (dw_eda w)) \<le> 100 * k"
  shows "pending cx (dw_eda ((dispatchOrgBindings dd cx ^^ k) w)) = []"
  using passes_drain run_once [OF assms(1)] assms(2,3) by blast

definition own_ctx :: dispatch_ctx where
  "own_ctx = \<lparr>dx_org = [], dx_principal = None\<rparr>"

theorem backlog_drains_witness:
  "length (pending own_ctx (dw_eda sample_world)) = 2
   \<and> pending own_ctx (dw_eda ((dispatchOrgBindings sample_dispatcher own_ctx ^^ 1) sample_world)) = []"
proof -
  have n: "length (pending own_ctx (dw_eda sample_world)) = 2" by code_simp
  have d: "list_all Dispatchable (pending own_ctx (dw_eda sample_world))" by code_simp
  have "unobstructed sample_dispatcher own_ctx (dw_eda sample_world)"
    using d by (simp add: unobstructed_def decides_def sample_dispatcher_def Enabled_def disabled_of_def)
  from backlog_drains [OF sample_run this, of 1] n show ?thesis by simp
qed

section \<open>A backlog that stands still\<close>

lemma capture_undispatchable: "\<not> Dispatchable c \<Longrightarrow> dispatchCapture dd cx workflows en c w = w"
proof -
  have "fold (\<lambda>b w. if eligible cx en c b then dispatchOneBinding dd cx b c workflows w else w) bs v = v" if "\<not> Dispatchable c" for bs v
    using that by (induction bs) (simp_all add: eligible_def matcher_matches_def)
  then show "\<not> Dispatchable c \<Longrightarrow> ?thesis" by (simp add: dispatchCapture_def)
qed

lemma pass_undispatchable:
  assumes "\<forall>c \<in> set (take 100 (newest (pending cx (dw_eda w)))). \<not> Dispatchable c"
  shows "dispatchOrgBindings dd cx w = w"
proof -
  have "fold (dispatchCapture dd cx workflows en) cs w = w" if "\<forall>c \<in> set cs. \<not> Dispatchable c" for cs workflows en
    using that by (induction cs) (simp_all add: capture_undispatchable)
  then have "fold (dispatchCapture dd cx workflows en) (listing cx w) w = w" for workflows en
    using assms by (simp add: listing_pending)
  then show ?thesis by (simp add: dispatchOrgBindings_def listing_def Let_def split: option.splits)
qed

text \<open>C36: when the newest hundred captures of the backlog may not dispatch, because they came with a wrong or
  missing signature, every pass changes nothing, and a capture behind them that may dispatch stays in the
  backlog however many passes there are: captures that cannot dispatch are listed again in every pass,
  and the batch limit leaves the others out.\<close>

theorem forged_backlog_blocks:
  assumes "\<forall>c \<in> set (take 100 (newest (pending cx (dw_eda w)))). \<not> Dispatchable c"
    and "c \<in> set (pending cx (dw_eda w))" and "Dispatchable c"
  shows "(dispatchOrgBindings dd cx ^^ k) w = w \<and> c \<in> set (pending cx (dw_eda ((dispatchOrgBindings dd cx ^^ k) w)))"
proof -
  have "(dispatchOrgBindings dd cx ^^ k) w = w" using pass_undispatchable [OF assms(1)] by (induction k) simp_all
  then show ?thesis using assms(2) by simp
qed

definition forged_row :: "nat \<Rightarrow> capture_row" where
  "forged_row n = capture_row_of 9 (replicate n (CHR ''x'')) ''t1'' None (sample_event\<lparr>cv_received := 9, cv_authenticated := False, cv_delivery := []\<rparr>)"

definition flooded_world :: dispatch_world where
  "flooded_world = sample_world\<lparr>dw_eda := sample_tables\<lparr>ed_captures := map forged_row [1..<101] @ ed_captures sample_tables\<rparr>\<rparr>"

lemma sample_awaits: "list_all (\<lambda>c. undispatched DefaultOrgID [''hook''] sample_tables c \<and> Dispatchable c \<and> cv_received c = 5) (ed_captures sample_tables)"
  by code_simp

lemma sample_first: "list_ex (\<lambda>c. True) (ed_captures sample_tables)"
  by code_simp

lemma sample_sources: "armed_sources own_ctx sample_tables = [''hook'']"
  by code_simp

lemma undispatched_captures: "undispatched g ss (d\<lparr>ed_captures := cs\<rparr>) = undispatched g ss d"
  by (simp add: fun_eq_iff undispatched_def awaits_def [abs_def])

lemma forged_fields:
  "cv_received (forged_row n) = 9" "\<not> Dispatchable (forged_row n)" "cv_delivery (forged_row n) = replicate n (CHR ''x'')"
  "cv_org (forged_row n) = DefaultOrgID" "cv_source (forged_row n) = ''hook''" "cv_event_type (forged_row n) = ''t1''"
  by (simp_all add: forged_row_def capture_row_of_def sample_event_def Dispatchable_def)

lemma forged_awaits: "undispatched DefaultOrgID [''hook''] sample_tables (forged_row n)"
proof -
  have "list_ex (\<lambda>b. b_org b = DefaultOrgID \<and> b_source b = ''hook'' \<and> b_status b = ''armed''
     \<and> list_ex (\<lambda>m. m_id m = b_mapping b \<and> m_event_type m = ''t1'') (ed_mappings sample_tables)) (ed_bindings sample_tables)"
    by code_simp
  moreover have "ed_dispatches sample_tables = []" by code_simp
  ultimately show ?thesis by (simp add: undispatched_def awaits_def [abs_def] forged_fields)
qed

lemma flooded_listing: "newest (pending own_ctx (dw_eda flooded_world)) = map forged_row [1..<101] @ ed_captures sample_tables"
proof -
  let ?cs = "map forged_row [1..<101] @ ed_captures sample_tables"
  have src: "armed_sources own_ctx (dw_eda flooded_world) = [''hook'']"
    using sample_sources by (simp add: flooded_world_def armed_sources_def ListBindings_def)
  have "filter (undispatched DefaultOrgID [''hook''] sample_tables) ?cs = ?cs"
    by (rule filter_True) (use forged_awaits sample_awaits in \<open>auto simp: list_all_iff\<close>)
  then have "pending own_ctx (dw_eda flooded_world) = ?cs"
    unfolding pending_def src by (simp add: flooded_world_def undispatched_captures own_ctx_def OrgFromContext_def)
  moreover have "map (\<lambda>c. - cv_received c) (ed_captures sample_tables) = map (\<lambda>_. - 5) (ed_captures sample_tables)"
    using sample_awaits by (auto simp: list_all_iff)
  then have "sorted (map (\<lambda>c. - cv_received c) ?cs)"
    by (simp only: map_append map_map comp_def forged_fields map_replicate_const) (simp add: sorted_append)
  then have "sort_key (\<lambda>c. - cv_received c) ?cs = ?cs" by (rule sort_key_id_if_sorted)
  ultimately show ?thesis by (simp add: newest_def)
qed

theorem forged_backlog_blocks_witness:
  "\<exists>c. Dispatchable c \<and> c \<in> set (ed_captures sample_tables)
     \<and> c \<in> set (pending own_ctx (dw_eda ((dispatchOrgBindings sample_dispatcher own_ctx ^^ 7) flooded_world)))"
proof -
  have all: "\<forall>c \<in> set (take 100 (newest (pending own_ctx (dw_eda flooded_world)))). \<not> Dispatchable c"
    by (simp add: flooded_listing forged_fields)
  obtain c where c: "c \<in> set (ed_captures sample_tables)" "Dispatchable c" using sample_first sample_awaits by (auto simp: list_ex_iff list_all_iff)
  then have "c \<in> set (newest (pending own_ctx (dw_eda flooded_world)))" by (simp add: flooded_listing)
  then have "c \<in> set (pending own_ctx (dw_eda flooded_world))" by (simp add: newest_def)
  with forged_backlog_blocks [OF all, of c 7 sample_dispatcher] c show ?thesis by blast
qed

end
