(* ===== verification/Workflow_Call.thy ===== *)
theory Workflow_Call
  imports "HOL-Library.Word" Workflow_Interface Task_State
begin

text \<open>
  Calls from one workflow to another and declared outputs (\<open>domain/workflow/workflow_call.go\<close>,
  \<open>outputs.go\<close>): the settings of a call, the checks when definitions are saved, the values at run time, the
  call graph, the wait for a callee and the outputs a run writes. A decoded YAML value is a \<open>json\<close> value. The
  parts that write steps and start tasks are in the theory of the engine.
\<close>

section \<open>Settings\<close>

definition WorkflowCallStepName :: string where [go_string_simps]: "WorkflowCallStepName = ''workflow.call''"

record workflowCallSettings =
  wc_workflow :: string
  wc_inputs :: "json gomap"
  wc_wait :: bool
  wc_outputs :: "string gomap"

definition callReference :: string where "callReference = ''inputs.''"
definition outputReference :: string where "outputReference = ''outputs.''"

text \<open>\<open>refName\<close> is the expression \<open>^[A-Za-z_][A-Za-z0-9_]*$\<close> of the declared names.\<close>

definition refName :: "string \<Rightarrow> bool" where "refName s \<longleftrightarrow> inputName s"

definition after_prefix :: "string \<Rightarrow> string \<Rightarrow> string" where
  "after_prefix s p = (if has_prefix s p then drop (length p) s else s)"

definition isCallReference :: "string \<Rightarrow> bool" where
  "isCallReference v \<longleftrightarrow> has_prefix v callReference \<and> refName (after_prefix v callReference)"

text \<open>The input a value refers to, if it is a reference.\<close>

definition referred :: "json \<Rightarrow> string option" where
  "referred v = (case v of JString s \<Rightarrow> if isCallReference s then Some (after_prefix s callReference) else None | _ \<Rightarrow> None)"

datatype call_error =
    CallWorkflowRequired
  | CallNested string
  | CallBadReference string
  | CallBadOutput string
  | CallOutputsUnread
  | CallUndefined string
  | CallInputUndeclared string
  | CallInputReference string
  | CallInputTyped string string string
  | CallInputRequired string
  | CallOutputUndeclared string
  | CallOutputReference string
  | CallOutputTyped string string string
  | CallInputMissing string

text \<open>\<open>newWorkflowCallStage\<close>: the settings are None when there are none or they do not decode.\<close>

definition check_call_settings :: "workflowCallSettings option \<Rightarrow> call_error option" where
  "check_call_settings settings = (case settings of
     None \<Rightarrow> Some CallWorkflowRequired
   | Some s \<Rightarrow>
       guard_err (blank (wc_workflow s)) CallWorkflowRequired
        (seq_err (first_error (\<lambda>(name, value). case value of
             JObject _ \<Rightarrow> Some (CallNested name)
           | JString ref \<Rightarrow> guard_err (has_prefix ref callReference \<and> \<not> refName (after_prefix ref callReference)) (CallBadReference name) None
           | _ \<Rightarrow> None) (wc_inputs s))
        (seq_err (first_error (\<lambda>(name, ref).
             guard_err (\<not> has_prefix ref outputReference \<or> \<not> refName (after_prefix ref outputReference)) (CallBadOutput name) None) (wc_outputs s))
           (guard_err (\<not> wc_wait s \<and> wc_outputs s \<noteq> []) CallOutputsUnread None))))"

section \<open>Inputs\<close>

definition resolveCallInputs :: "json gomap \<Rightarrow> json gomap \<Rightarrow> call_error + json gomap" where
  "resolveCallInputs call callerInputs =
    fold (\<lambda>(name, value) acc. case acc of
       Inl e \<Rightarrow> Inl e
     | Inr out \<Rightarrow> (case referred value of
         Some input \<Rightarrow> (case map_of callerInputs input of
             None \<Rightarrow> Inl (CallInputMissing name)
           | Some got \<Rightarrow> Inr (map_put name got out))
       | None \<Rightarrow> Inr (map_put name value out))) call (Inr [])"

text \<open>The type a saved value carries at run time; empty for a null literal.\<close>

definition callInputType :: "WorkflowInterface \<Rightarrow> string \<Rightarrow> json \<Rightarrow> call_error + string" where
  "callInputType caller name value = (case referred value of
     Some input \<Rightarrow> (case map_of (wi_inputs caller) input of
         None \<Rightarrow> Inl (CallInputReference name)
       | Some spec \<Rightarrow> Inr (is_type spec))
   | None \<Rightarrow> if value = JNull then Inr [] else Inr (ValueType value))"

definition checkCallInputs :: "WorkflowInterface \<Rightarrow> WorkflowInterface \<Rightarrow> json gomap \<Rightarrow> call_error option" where
  "checkCallInputs caller callee inputs =
    seq_err (first_error (\<lambda>(name, value). case map_of (wi_inputs callee) name of
        None \<Rightarrow> Some (CallInputUndeclared name)
      | Some spec \<Rightarrow> (case callInputType caller name value of
          Inl e \<Rightarrow> Some e
        | Inr resolved \<Rightarrow>
            if resolved = [] then None
            else guard_err (\<not> TypeAccepts (is_type spec) resolved) (CallInputTyped name resolved (is_type spec)) None)) inputs)
      (first_error (\<lambda>(name, spec).
        guard_err (map_of inputs name = None \<and> is_required spec) (CallInputRequired name) None) (wi_inputs callee))"

section \<open>Outputs\<close>

definition checkCallOutputs :: "WorkflowInterface \<Rightarrow> WorkflowInterface \<Rightarrow> string gomap \<Rightarrow> call_error option" where
  "checkCallOutputs caller callee outputs =
    first_error (\<lambda>(calleeName, ref). case map_of (wi_outputs callee) calleeName of
       None \<Rightarrow> Some (CallOutputUndeclared calleeName)
     | Some calleeSpec \<Rightarrow> (case map_of (wi_outputs caller) (after_prefix ref outputReference) of
         None \<Rightarrow> Some (CallOutputReference calleeName)
       | Some callerSpec \<Rightarrow>
           guard_err (\<not> TypeAccepts (os_type callerSpec) (os_type calleeSpec))
             (CallOutputTyped calleeName (os_type calleeSpec) (os_type callerSpec)) None)) outputs"

datatype output_error =
    OutputUndeclared string
  | OutputTwice string
  | OutputTyped string string string
  | OutputReference string
  | OutputUndecodable string

text \<open>The outputs written so far are passed and returned; \<open>nil\<close> and the empty map are the same.\<close>

definition WriteOutput :: "WorkflowInterface \<Rightarrow> string \<Rightarrow> json \<Rightarrow> json gomap \<Rightarrow> output_error + json gomap" where
  "WriteOutput iface name value outputs = (case map_of (wi_outputs iface) name of
     None \<Rightarrow> Inl (OutputUndeclared name)
   | Some spec \<Rightarrow>
       if map_of outputs name \<noteq> None then Inl (OutputTwice name)
       else if value \<noteq> JNull \<and> \<not> TypeAccepts (os_type spec) (ValueType value)
       then Inl (OutputTyped name (ValueType value) (os_type spec))
       else Inr (map_put name value outputs))"

text \<open>\<open>decode_value\<close> reads the value member of a call: None is an undecodable call, \<open>Some None\<close> a missing or
  null value. A writer returns the outputs with its error: what it wrote before it failed stays written.\<close>

fun apply_calls :: "(string \<Rightarrow> json option option) \<Rightarrow> string \<Rightarrow> OutputSpec \<Rightarrow> string list \<Rightarrow> json gomap \<Rightarrow> json gomap \<times> output_error option" where
  "apply_calls decode_value name spec [] outputs = (outputs, None)"
| "apply_calls decode_value name spec (call # calls) outputs = (case decode_value call of
     None \<Rightarrow> (outputs, Some (OutputUndecodable name))
   | Some None \<Rightarrow> apply_calls decode_value name spec calls outputs
   | Some (Some value) \<Rightarrow>
       if \<not> TypeAccepts (os_type spec) (ValueType value) then (outputs, Some (OutputTyped name (ValueType value) (os_type spec)))
       else if map_of outputs name \<noteq> None then (outputs, Some (OutputTwice name))
       else apply_calls decode_value name spec calls (map_put name value outputs))"

fun applyOutputCaptures ::
    "(string \<Rightarrow> json option option) \<Rightarrow> WorkflowInterface \<Rightarrow> string list gomap \<Rightarrow> json gomap \<Rightarrow> json gomap \<times> output_error option" where
  "applyOutputCaptures decode_value iface [] outputs = (outputs, None)"
| "applyOutputCaptures decode_value iface ((name, calls) # captures) outputs = (case map_of (wi_outputs iface) name of
     None \<Rightarrow> applyOutputCaptures decode_value iface captures outputs
   | Some spec \<Rightarrow> (case apply_calls decode_value name spec calls outputs of
       (outputs', Some e) \<Rightarrow> (outputs', Some e)
     | (outputs', None) \<Rightarrow> applyOutputCaptures decode_value iface captures outputs'))"

definition validateFinishOutputs :: "WorkflowInterface \<Rightarrow> json gomap \<Rightarrow> interface_error option" where
  "validateFinishOutputs iface outputs = CheckOutputs iface outputs"

fun publish_from :: "WorkflowInterface \<Rightarrow> string gomap \<Rightarrow> json gomap \<Rightarrow> string list \<Rightarrow> json gomap \<Rightarrow> json gomap \<times> output_error option" where
  "publish_from iface assignments calleeOutputs [] outputs = (outputs, None)"
| "publish_from iface assignments calleeOutputs (calleeName # names) outputs =
    (let callerName = after_prefix (the (map_of assignments calleeName)) outputReference in
     case map_of (wi_outputs iface) callerName of
       None \<Rightarrow> (outputs, Some (OutputReference calleeName))
     | Some spec \<Rightarrow> (case map_of calleeOutputs calleeName of
         None \<Rightarrow> publish_from iface assignments calleeOutputs names outputs
       | Some value \<Rightarrow>
           if value = JNull then publish_from iface assignments calleeOutputs names outputs
           else if \<not> TypeAccepts (os_type spec) (ValueType value)
           then (outputs, Some (OutputTyped calleeName (ValueType value) (os_type spec)))
           else (case WriteOutput iface callerName value outputs of
               Inl e \<Rightarrow> (outputs, Some e)
             | Inr outputs' \<Rightarrow> publish_from iface assignments calleeOutputs names outputs')))"

definition publishCalleeOutputs :: "WorkflowInterface \<Rightarrow> string gomap \<Rightarrow> json gomap \<Rightarrow> json gomap \<Rightarrow> json gomap \<times> output_error option" where
  "publishCalleeOutputs iface assignments calleeOutputs outputs =
    publish_from iface assignments calleeOutputs (sorted_keys assignments) outputs"

section \<open>Waiting\<close>

definition callEnded :: "string \<Rightarrow> bool" where
  "callEnded status \<longleftrightarrow> status \<in> set [Completed, PROpen, Merged, Parked, Dead, Rejected, Declined]"

definition callSucceeded :: "string \<Rightarrow> bool" where
  "callSucceeded status \<longleftrightarrow> status \<in> set [Completed, PROpen, Merged]"

text \<open>The durations are nanoseconds in a signed 64-bit integer, and the shift wraps.\<close>

definition callReadBackoff :: "64 word" where "callReadBackoff = 500000000"
definition callReadMaxBackoff :: "64 word" where "callReadMaxBackoff = 5000000000"

definition callReadBackoffFor :: "nat \<Rightarrow> 64 word" where
  "callReadBackoffFor attempt =
    (let backoff = push_bit (attempt - 1) callReadBackoff in
     if sint backoff \<le> 0 \<or> sint backoff > sint callReadMaxBackoff then callReadMaxBackoff else backoff)"

text \<open>What one read of the callee's status gives, and how the wait ends. The reads are a list; an empty list
  is a wait that is still going on.\<close>

datatype poll =
    PollStatus string string "json gomap"
  | PollError bool
  | PollCancelled

datatype awaited =
    Finished string string "json gomap"
  | CalleeFailed string string
  | ReadFailed
  | Cancelled

fun awaitCallee :: "poll list \<Rightarrow> awaited option" where
  "awaitCallee [] = None"
| "awaitCallee (PollCancelled # ps) = Some Cancelled"
| "awaitCallee (PollError transient # ps) = (if \<not> transient then Some ReadFailed else awaitCallee ps)"
| "awaitCallee (PollStatus status detail outputs # ps) =
    (if callEnded status
     then Some (if callSucceeded status then Finished status detail outputs else CalleeFailed status detail)
     else awaitCallee ps)"

section \<open>The call graph\<close>

type_synonym call_graph = "string list gomap"

definition callees :: "call_graph \<Rightarrow> string \<Rightarrow> string list" where
  "callees calls i = (case map_of calls i of None \<Rightarrow> [] | Some cs \<Rightarrow> cs)"

fun cycleStart :: "string list \<Rightarrow> string \<Rightarrow> nat" where
  "cycleStart [] root = 0"
| "cycleStart (i # path) root = (if i = root then 0 else if root \<in> set path then Suc (cycleStart path root) else 0)"

text \<open>The search: \<open>path\<close> holds the workflows that are open, in order, and \<open>seen\<close> those that are done. The depth is
  bounded by fuel, whose exhaustion is None; the path never repeats a workflow, so one unit per workflow
  is enough.\<close>

function walk_callees :: "call_graph \<Rightarrow> nat \<Rightarrow> string list \<Rightarrow> string list \<Rightarrow> string list \<Rightarrow> (string list + string list) option" where
  "walk_callees calls n path seen [] = Some (Inr seen)"
| "walk_callees calls n path seen (callee # cs) =
    (if callee \<in> set path then Some (Inl (drop (cycleStart path callee) path @ [callee]))
     else if callee \<in> set seen then walk_callees calls n path seen cs
     else if n = 0 then None
     else (case walk_callees calls (n - 1) (path @ [callee]) seen (callees calls callee) of
         None \<Rightarrow> None
       | Some (Inl cycle) \<Rightarrow> Some (Inl cycle)
       | Some (Inr seen') \<Rightarrow> walk_callees calls n path (callee # seen') cs))"
  by pat_completeness auto
termination
  by (relation "measures [\<lambda>(calls, n, path, seen, cs). n, \<lambda>(calls, n, path, seen, cs). length cs]") auto

definition workflow_names :: "call_graph \<Rightarrow> string list" where
  "workflow_names calls = remdups (map fst calls @ concat (map snd calls))"

text \<open>The roots are the workflows in order; a root is walked like a callee of an empty path.\<close>

definition refuseCallCycles :: "call_graph \<Rightarrow> (string list) option" where
  "refuseCallCycles calls =
    (case walk_callees calls (length (workflow_names calls)) [] [] (sorted_keys calls) of
       Some (Inl cycle) \<Rightarrow> Some cycle
     | _ \<Rightarrow> None)"

end
