(* ===== verification/Workflow_Call_Spec.thy ===== *)
theory Workflow_Call_Spec
  imports Workflow_Call
begin

text \<open>
  What the call checks promise: the call graph that is saved has no cycle and a refused one is named by a
  real cycle, the values of a saved call fit the callee's declaration up to the checks that need the values,
  the wait between reads doubles up to its limit and never overflows, and every writer of outputs keeps
  them declared, typed and written once.
\<close>

section \<open>The call graph\<close>

definition call_edges :: "call_graph \<Rightarrow> (string \<times> string) set" where
  "call_edges calls = {(a, b). b \<in> set (callees calls a)}"

definition call_cycle :: "call_graph \<Rightarrow> string list \<Rightarrow> bool" where
  "call_cycle calls cycle \<longleftrightarrow> 2 \<le> length cycle \<and> hd cycle = last cycle
     \<and> successively (\<lambda>a b. b \<in> set (callees calls a)) cycle"

text \<open>The workflows that are done: closed under calls, and none of them reaches itself.\<close>

definition searched :: "call_graph \<Rightarrow> string set \<Rightarrow> bool" where
  "searched calls S \<longleftrightarrow> call_edges calls `` S \<subseteq> S \<and> (\<forall>a\<in>S. (a, a) \<notin> (call_edges calls)\<^sup>+)"

lemma searched_reach: "(a, b) \<in> (call_edges calls)\<^sup>* \<Longrightarrow> searched calls S \<Longrightarrow> a \<in> S \<Longrightarrow> b \<in> S"
  by (erule rtrancl_induct) (auto simp: searched_def)

lemma searched_insert:
  assumes S: "searched calls S" and c: "set (callees calls c) \<subseteq> S" "c \<notin> S"
  shows "searched calls (insert c S)"
proof -
  have "(c, c) \<notin> (call_edges calls)\<^sup>+"
  proof
    assume "(c, c) \<in> (call_edges calls)\<^sup>+"
    then obtain b where b: "(c, b) \<in> call_edges calls" "(b, c) \<in> (call_edges calls)\<^sup>*" by (meson tranclD)
    then have "b \<in> S" using c by (auto simp: call_edges_def)
    with b(2) S c(2) show False by (blast dest: searched_reach)
  qed
  with S c(1) show ?thesis by (auto simp: searched_def call_edges_def)
qed

lemma walk_callees_done:
  assumes "walk_callees calls n path seen cs = Some (Inr seen')"
    and "searched calls (set seen)" and "set path \<inter> set seen = {}"
  shows "searched calls (set seen') \<and> set seen \<union> set cs \<subseteq> set seen' \<and> set path \<inter> set seen' = {}"
  using assms
proof (induction calls n path seen cs arbitrary: seen' rule: walk_callees.induct)
  case (2 calls n path seen callee cs)
  show ?case
  proof (cases "callee \<in> set seen")
    case True
    with 2 show ?thesis by (auto split: if_splits)
  next
    case False
    with 2(4) obtain mid where new: "callee \<notin> set path" "n \<noteq> 0"
      and mid: "walk_callees calls (n - 1) (path @ [callee]) seen (callees calls callee) = Some (Inr mid)"
      and rest: "walk_callees calls n path (callee # mid) cs = Some (Inr seen')"
      by (auto split: if_splits option.splits sum.splits)
    have m: "searched calls (set mid)" "set seen \<union> set (callees calls callee) \<subseteq> set mid"
      "set (path @ [callee]) \<inter> set mid = {}"
      using 2(2) [OF new(1) False new(2) mid 2(5)] 2(6) False by auto
    then have "searched calls (set (callee # mid))" by (auto intro: searched_insert)
    moreover have "set path \<inter> set (callee # mid) = {}" using m(3) new(1) by auto
    ultimately show ?thesis using 2(3) [OF new(1) False new(2) mid refl rest] m(2) by auto
  qed
qed auto

lemma cycleStart_split:
  "root \<in> set path \<Longrightarrow> \<exists>ys zs. path = ys @ root # zs \<and> cycleStart path root = length ys"
proof (induction path)
  case (Cons i path)
  then show ?case
  proof (cases "i = root")
    case False
    with Cons obtain ys zs where "path = ys @ root # zs" "cycleStart path root = length ys" by auto
    with False Cons.prems have "i # path = (i # ys) @ root # zs \<and> cycleStart (i # path) root = length (i # ys)" by auto
    then show ?thesis by blast
  qed (auto intro: exI [of _ "[]"])
qed simp

lemma walk_callees_cycle:
  assumes "walk_callees calls n path seen cs = Some (Inl cycle)"
    and "successively (\<lambda>a b. b \<in> set (callees calls a)) path"
    and "path \<noteq> [] \<longrightarrow> set cs \<subseteq> set (callees calls (last path))"
  shows "call_cycle calls cycle"
  using assms
proof (induction calls n path seen cs rule: walk_callees.induct)
  case (2 calls n path seen callee cs)
  show ?case
  proof (cases "callee \<in> set path")
    case True
    then obtain ys zs where p: "path = ys @ callee # zs" "cycleStart path callee = length ys"
      using cycleStart_split by blast
    with True 2(4) have c: "cycle = (callee # zs) @ [callee]" by simp
    have "callee \<in> set (callees calls (last (callee # zs)))" using 2(6) p by auto
    then have "successively (\<lambda>a b. b \<in> set (callees calls a)) ((callee # zs) @ [callee])"
      using 2(5) unfolding p(1) successively_append_iff by simp
    then show ?thesis by (simp add: call_cycle_def c)
  next
    case False
    then show ?thesis using 2 by (auto simp: successively_append_iff split: if_splits option.splits sum.splits)
  qed
qed simp

lemma callees_named: "set (callees calls c) \<subseteq> set (workflow_names calls)"
proof
  fix x assume "x \<in> set (callees calls c)"
  then obtain cs where "map_of calls c = Some cs" "x \<in> set cs" by (cases "map_of calls c") (simp_all add: callees_def)
  then have "(c, cs) \<in> set calls" "x \<in> set cs" by (simp_all add: map_of_SomeD)
  then show "x \<in> set (workflow_names calls)" by (force simp: workflow_names_def)
qed

lemma walk_callees_fuel:
  assumes "distinct path" "set path \<subseteq> set (workflow_names calls)" "set cs \<subseteq> set (workflow_names calls)"
    and "length (workflow_names calls) \<le> n + length path"
  shows "walk_callees calls n path seen cs \<noteq> None"
  using assms
proof (induction calls n path seen cs rule: walk_callees.induct)
  case (2 calls n path seen callee cs)
  show ?case
  proof (cases "callee \<in> set path \<or> callee \<in> set seen")
    case True
    with 2 show ?thesis by auto
  next
    case False
    have "n \<noteq> 0"
    proof
      assume "n = 0"
      with 2(4,7) have "card (set (workflow_names calls)) \<le> card (set path)"
        by (metis add_0 card_length distinct_card le_trans)
      with 2(5) have "set path = set (workflow_names calls)" by (simp add: card_seteq)
      with False 2(6) show False by simp
    qed
    moreover have "walk_callees calls (n - 1) (path @ [callee]) seen (callees calls callee) \<noteq> None"
      using 2(2) False 2(4,5,6,7) callees_named \<open>n \<noteq> 0\<close> by fastforce
    ultimately show ?thesis using False 2(3,4,5,6,7) by (auto split: option.splits sum.splits)
  qed
qed simp

text \<open>The definitions that pass have a call graph without cycles; a refusal names workflows that really
  call each other in a circle, from the first to itself.\<close>

theorem refuseCallCycles_exact:
  "case refuseCallCycles calls of None \<Rightarrow> acyclic (call_edges calls) | Some cycle \<Rightarrow> call_cycle calls cycle"
proof -
  let ?walk = "walk_callees calls (length (workflow_names calls)) [] [] (sorted_keys calls)"
  have keys: "set (sorted_keys calls) = fst ` set calls" by (simp add: dom_map_of_conv_image_fst)
  have "?walk \<noteq> None" by (rule walk_callees_fuel) (simp_all add: keys workflow_names_def del: set_sorted_keys)
  then consider cycle where "?walk = Some (Inl cycle)" | seen where "?walk = Some (Inr seen)"
    by (metis old.sum.exhaust option.exhaust)
  then show ?thesis
  proof cases
    case (1 cycle)
    then have "call_cycle calls cycle" by (rule walk_callees_cycle) simp_all
    with 1 show ?thesis by (simp add: refuseCallCycles_def)
  next
    case (2 seen)
    have "searched calls (set [])" "set [] \<inter> set [] = {}" by (simp_all add: searched_def)
    from walk_callees_done [OF 2 this] have s: "searched calls (set seen)" "fst ` set calls \<subseteq> set seen"
      unfolding keys by simp_all
    have "a \<in> set seen" if "(a, b) \<in> (call_edges calls)\<^sup>+" for a b
    proof -
      from tranclD [OF that] obtain c where "c \<in> set (callees calls a)" by (auto simp: call_edges_def)
      then have "map_of calls a \<noteq> None" by (cases "map_of calls a") (simp_all add: callees_def)
      then have "a \<in> fst ` set calls" by (simp add: map_of_eq_None_iff)
      with s(2) show ?thesis by blast
    qed
    with s(1) have "acyclic (call_edges calls)" by (auto simp: acyclic_def searched_def)
    with 2 show ?thesis by (simp add: refuseCallCycles_def)
  qed
qed

text \<open>The two answers exclude each other.\<close>

lemma call_cycle_not_acyclic: "call_cycle calls cycle \<Longrightarrow> \<not> acyclic (call_edges calls)"
proof -
  have path: "successively (\<lambda>a b. b \<in> set (callees calls a)) (x # y # xs) \<Longrightarrow>
      (x, last (y # xs)) \<in> (call_edges calls)\<^sup>+" for x y xs
    by (induction xs arbitrary: x y) (auto simp: call_edges_def intro: trancl_into_trancl2)
  assume c: "call_cycle calls cycle"
  then obtain x y xs where "cycle = x # y # xs"
    by (cases cycle; cases "tl cycle") (auto simp: call_cycle_def)
  with c path [of x y xs] show ?thesis by (auto simp: call_cycle_def acyclic_def)
qed

section \<open>The wait between reads\<close>

lemma wrap_63:
  assumes "n < 2 ^ 64"
  shows "(int n + 2 ^ 63) mod 2 ^ 64 - 2 ^ 63 = (if n < 2 ^ 63 then int n else int n - 2 ^ 64)"
proof (cases "n < 2 ^ 63")
  case True
  then have "(int n + 2 ^ 63) mod 2 ^ 64 = int n + 2 ^ 63" by (intro mod_pos_pos_trivial) auto
  with True show ?thesis by simp
next
  case False
  have "(int n + 2 ^ 63) mod 2 ^ 64 = (int n + 2 ^ 63 - 2 ^ 64) mod 2 ^ 64" by (rule minus_mod_self2 [symmetric])
  also have "\<dots> = int n + 2 ^ 63 - 2 ^ 64" using assms False by (intro mod_pos_pos_trivial) auto
  finally show ?thesis using False by simp
qed

lemma sint_64:
  fixes w :: "64 word"
  shows "sint w = (if unat w < 2 ^ 63 then int (unat w) else int (unat w) - 2 ^ 64)"
proof -
  have "sint w = (int (unat w) + 2 ^ 63) mod 2 ^ 64 - 2 ^ 63"
    by (simp add: sint_uint signed_take_bit_eq_take_bit_shift take_bit_eq_mod)
  moreover have "unat w < 2 ^ 64" using unsigned_less [of w, where 'a = nat] by simp
  ultimately show ?thesis by (simp only: wrap_63)
qed

lemma unat_backoff: "unat (push_bit k callReadBackoff) = 500000000 * 2 ^ k mod 2 ^ 64"
proof -
  have "push_bit k callReadBackoff = (of_nat (500000000 * 2 ^ k) :: 64 word)"
    by (simp add: callReadBackoff_def push_bit_eq_mult)
  then show ?thesis by (simp only: unat_of_nat len_num0 len_num1 len_bit0) simp
qed

lemma backoff_cases:
  "unat (callReadBackoffFor (Suc k)) =
    (let b = 500000000 * 2 ^ k mod 2 ^ 64 in if b = 0 \<or> b > 5000000000 then 5000000000 else b)"
proof -
  let ?w = "push_bit k callReadBackoff"
  have window: "(if n < 2 ^ 63 then int n else int n - 2 ^ 64) \<le> 0 \<or> (if n < 2 ^ 63 then int n else int n - 2 ^ 64) > 5000000000
      \<longleftrightarrow> n = 0 \<or> n > 5000000000" if "n < 2 ^ 64" for n :: nat
    using that by auto
  have max: "sint callReadMaxBackoff = 5000000000" by (simp add: callReadMaxBackoff_def sint_64)
  have "sint ?w \<le> 0 \<or> sint ?w > 5000000000 \<longleftrightarrow> unat ?w = 0 \<or> unat ?w > 5000000000"
    using window [of "unat ?w"] unsigned_less [of ?w, where 'a = nat] unfolding sint_64 by simp
  then show ?thesis unfolding callReadBackoffFor_def Let_def max diff_Suc_1 unat_backoff [symmetric]
    by (auto simp: callReadMaxBackoff_def)
qed

text \<open>The wait before the n-th retry is half a second doubled n - 1 times and at most five seconds, for every
  n: a shift that overflows the 64-bit duration, to a negative value or to zero, is never slept.\<close>

theorem callReadBackoffFor_exact:
  "unat (callReadBackoffFor (Suc k)) = min (500000000 * 2 ^ k) 5000000000"
proof (cases "k < 25")
  case True
  then have "(500000000 :: nat) * 2 ^ k \<le> 500000000 * 2 ^ 24"
    by (intro mult_le_mono2 power_increasing) simp_all
  moreover have "(500000000 :: nat) * 2 ^ k mod 2 ^ 64 = 500000000 * 2 ^ k"
    using calculation by (intro mod_less) simp
  ultimately show ?thesis unfolding backoff_cases Let_def by simp
next
  case False
  let ?b = "500000000 * 2 ^ k mod 2 ^ 64 :: nat"
  obtain j where "k = 25 + j" using False by (metis le_add_diff_inverse not_less)
  then have "(500000000 :: nat) * 2 ^ k = 2 ^ 33 * (1953125 * 2 ^ j)" by (simp add: power_add)
  then have "(2::nat) ^ 33 dvd 500000000 * 2 ^ k" by (metis dvd_triv_left)
  then have "2 ^ 33 dvd ?b" by (rule dvd_mod) simp
  then have "?b = 0 \<or> 2 ^ 33 \<le> ?b" by (auto dest: dvd_imp_le)
  moreover have "(500000000 :: nat) * 2 ^ k \<ge> 5000000000"
    using power_increasing [of 4 k "2::nat"] False by simp
  ultimately show ?thesis unfolding backoff_cases Let_def by (simp del: One_nat_def) linarith
qed

section \<open>The values of a saved call\<close>

text \<open>The value a saved call passes under a name, when the caller's run carries what it refers to.\<close>

definition passed_value :: "json gomap \<Rightarrow> json \<Rightarrow> json option" where
  "passed_value callerInputs v = (case referred v of None \<Rightarrow> Some v | Some i \<Rightarrow> map_of callerInputs i)"

lemma resolve_step:
  "(case referred value of
      Some input \<Rightarrow> (case map_of callerInputs input of
          None \<Rightarrow> Inl (CallInputMissing name) | Some got \<Rightarrow> Inr (map_put name got out))
    | None \<Rightarrow> Inr (map_put name value out)) =
   (case passed_value callerInputs value of
      None \<Rightarrow> Inl (CallInputMissing name) | Some got \<Rightarrow> Inr (map_put name got out))"
  by (simp add: passed_value_def split: option.splits)

fun resolve_all :: "json gomap \<Rightarrow> json gomap \<Rightarrow> json gomap \<Rightarrow> call_error + json gomap" where
  "resolve_all callerInputs [] out = Inr out"
| "resolve_all callerInputs ((name, value) # call) out = (case passed_value callerInputs value of
     None \<Rightarrow> Inl (CallInputMissing name)
   | Some got \<Rightarrow> resolve_all callerInputs call (map_put name got out))"

lemma resolveCallInputs_all: "resolveCallInputs call callerInputs = resolve_all callerInputs call []"
proof -
  let ?f = "\<lambda>(name, value) acc. case acc of
       Inl e \<Rightarrow> Inl e
     | Inr out \<Rightarrow> (case referred value of
         Some input \<Rightarrow> (case map_of callerInputs input of
             None \<Rightarrow> Inl (CallInputMissing name)
           | Some got \<Rightarrow> Inr (map_put name got out))
       | None \<Rightarrow> Inr (map_put name value out))"
  have stop: "fold ?f call (Inl e) = Inl e" for call e by (induction call) auto
  have "fold ?f call (Inr out) = resolve_all callerInputs call out" for out
  proof (induction call arbitrary: out)
    case (Cons p call)
    then show ?case by (cases p; cases "passed_value callerInputs (snd p)") (simp_all add: resolve_step stop)
  qed simp
  then show ?thesis unfolding resolveCallInputs_def by simp
qed

lemma resolve_all_values:
  assumes "resolve_all callerInputs call out = Inr args" and "distinct (map fst call)"
  shows "map_of args n = (case map_of call n of None \<Rightarrow> map_of out n | Some v \<Rightarrow> passed_value callerInputs v)
    \<and> (distinct (map fst out) \<longrightarrow> distinct (map fst args))
    \<and> (case map_of call n of None \<Rightarrow> True | Some v \<Rightarrow> passed_value callerInputs v \<noteq> None)"
  using assms
proof (induction callerInputs call out rule: resolve_all.induct)
  case (2 callerInputs name v call out)
  then obtain got where got: "passed_value callerInputs v = Some got" by (auto split: option.splits)
  have "map_of call name = None" using 2(3) by (simp add: map_of_eq_None_iff)
  with 2 got show ?case by (cases "map_of call n") (auto simp: distinct_map_put)
qed simp

lemma resolve_all_missing:
  "resolve_all callerInputs call out = Inl e \<Longrightarrow>
    \<exists>name v. (name, v) \<in> set call \<and> e = CallInputMissing name \<and> passed_value callerInputs v = None"
  by (induction callerInputs call out rule: resolve_all.induct) (force split: option.splits)+

lemma ValueType_not_any [simp]: "ValueType v \<noteq> ''any''"
  by (cases v) simp_all

lemma ValueType_not_Nil [simp]: "ValueType v \<noteq> []"
  by (cases v) simp_all

lemma checkCallInputs_None:
  assumes "checkCallInputs caller callee call = None" and "(name, v) \<in> set call"
  shows "\<exists>spec. map_of (wi_inputs callee) name = Some spec \<and> (case referred v of
      None \<Rightarrow> v = JNull \<or> TypeAccepts (is_type spec) (ValueType v)
    | Some i \<Rightarrow> (\<exists>f. map_of (wi_inputs caller) i = Some f \<and> (is_type f = [] \<or> TypeAccepts (is_type spec) (is_type f))))"
proof -
  have one: "(case map_of (wi_inputs callee) name of
        None \<Rightarrow> Some (CallInputUndeclared name)
      | Some spec \<Rightarrow> (case callInputType caller name v of
          Inl e \<Rightarrow> Some e
        | Inr resolved \<Rightarrow>
            if resolved = [] then None
            else guard_err (\<not> TypeAccepts (is_type spec) resolved) (CallInputTyped name resolved (is_type spec)) None)) = None"
    using assms unfolding checkCallInputs_def by auto
  then obtain spec where spec: "map_of (wi_inputs callee) name = Some spec" by (auto split: option.splits)
  show ?thesis
    using one spec by (auto simp: callInputType_def split: option.splits if_splits)
qed

lemma first_values_error:
  assumes "check_values ty req specs vals = Some e"
  obtains (required) name spec where "(name, spec) \<in> set specs" "req spec" "e = ValueRequired name"
      "map_of vals name = None \<or> map_of vals name = Some JNull"
  | (undeclared) name v where "(name, v) \<in> set vals" "map_of specs name = None" "e = ValueUndeclared name"
  | (typed) name v spec where "(name, v) \<in> set vals" "map_of specs name = Some spec" "v \<noteq> JNull"
      "\<not> TypeAccepts (ty spec) (ValueType v)" "e = ValueTyped name (ValueType v) (ty spec)"
  using assms unfolding check_values_def seq_err_def
  by (fastforce dest!: first_error_Some simp: guard_err_def split: option.splits if_splits)

text \<open>A reference that does not resolve names an optional input.\<close>

lemma missing_is_optional:
  assumes saved: "checkCallInputs caller callee call = None" and accepted: "CheckInputs caller vals = None"
    and v: "(name, v) \<in> set call" "passed_value vals v = None"
  shows "\<exists>i spec. referred v = Some i \<and> map_of (wi_inputs caller) i = Some spec \<and> \<not> is_required spec \<and> map_of vals i = None"
proof -
  from v(2) obtain i where i: "referred v = Some i" "map_of vals i = None"
    by (auto simp: passed_value_def split: option.splits)
  then obtain spec where spec: "map_of (wi_inputs caller) i = Some spec"
    using checkCallInputs_None [OF saved v(1)] by auto
  have "\<not> is_required spec"
    using accepted i(2) map_of_SomeD [OF spec] unfolding CheckInputs_def check_values_None by fastforce
  with i spec show ?thesis by simp
qed

text \<open>A value of the wrong type came through a reference to an input of any type.\<close>

lemma mistyped_is_any:
  assumes saved: "checkCallInputs caller callee call = None" and accepted: "CheckInputs caller vals = None"
    and valid: "ValidateInterface caller = None"
    and v: "(name, v) \<in> set call" "passed_value vals v = Some got" "got \<noteq> JNull"
    and spec: "map_of (wi_inputs callee) name = Some spec" "\<not> TypeAccepts (is_type spec) (ValueType got)"
  shows "\<exists>i f. referred v = Some i \<and> map_of (wi_inputs caller) i = Some f \<and> is_type f = ''any'' \<and> is_type spec \<noteq> ''any''"
proof -
  have s: "case referred v of None \<Rightarrow> v = JNull \<or> TypeAccepts (is_type spec) (ValueType v)
    | Some i \<Rightarrow> (\<exists>f. map_of (wi_inputs caller) i = Some f \<and> (is_type f = [] \<or> TypeAccepts (is_type spec) (is_type f)))"
    using checkCallInputs_None [OF saved v(1)] spec(1) by simp
  with v spec obtain i where i: "referred v = Some i" "map_of vals i = Some got"
    by (auto simp: passed_value_def split: option.splits)
  with s obtain f where f: "map_of (wi_inputs caller) i = Some f"
    "is_type f = [] \<or> TypeAccepts (is_type spec) (is_type f)" by auto
  have "is_type f \<in> set inputTypes"
    using valid map_of_SomeD [OF f(1)] unfolding ValidateInterface_def by fastforce
  then have "is_type f \<noteq> []" by (auto simp: inputTypes_def)
  moreover have "TypeAccepts (is_type f) (ValueType got)"
    using accepted map_of_SomeD [OF i(2)] v(3) f(1) unfolding CheckInputs_def check_values_None by fastforce
  ultimately show ?thesis using f i(1) spec(2) by (auto simp: TypeAccepts_def)
qed



section \<open>Outputs\<close>

text \<open>The outputs of a run: declared, and null or of the declared type.\<close>

definition typed_outputs :: "WorkflowInterface \<Rightarrow> json gomap \<Rightarrow> bool" where
  "typed_outputs iface outputs \<longleftrightarrow> (\<forall>(name, v)\<in>set outputs.
     \<exists>spec. map_of (wi_outputs iface) name = Some spec \<and> (v = JNull \<or> TypeAccepts (os_type spec) (ValueType v)))"

lemma typed_outputs_Nil [simp]: "typed_outputs iface []"
  by (simp add: typed_outputs_def)

lemma typed_outputs_put:
  "typed_outputs iface outputs \<Longrightarrow> map_of (wi_outputs iface) name = Some spec \<Longrightarrow>
    v = JNull \<or> TypeAccepts (os_type spec) (ValueType v) \<Longrightarrow> typed_outputs iface (map_put name v outputs)"
  using map_put_pairs [of name v outputs] by (fastforce simp: typed_outputs_def)

text \<open>What a writer of outputs does to them: it keeps what is written and writes what is declared.\<close>

definition extends_outputs :: "WorkflowInterface \<Rightarrow> json gomap \<Rightarrow> json gomap \<Rightarrow> bool" where
  "extends_outputs iface outputs outputs' \<longleftrightarrow>
    map_of outputs \<subseteq>\<^sub>m map_of outputs' \<and> (typed_outputs iface outputs \<longrightarrow> typed_outputs iface outputs')"

lemma extends_outputs_refl [simp]: "extends_outputs iface outputs outputs"
  by (simp add: extends_outputs_def)

lemma extends_outputs_trans:
  "extends_outputs iface a b \<Longrightarrow> extends_outputs iface b c \<Longrightarrow> extends_outputs iface a c"
  by (auto simp: extends_outputs_def intro: map_le_trans)

lemma extends_outputs_put:
  "map_of outputs name = None \<Longrightarrow> map_of (wi_outputs iface) name = Some spec \<Longrightarrow>
    v = JNull \<or> TypeAccepts (os_type spec) (ValueType v) \<Longrightarrow> extends_outputs iface outputs (map_put name v outputs)"
  by (auto simp: extends_outputs_def map_le_def typed_outputs_put)

lemma WriteOutput_extends: "WriteOutput iface name v outputs = Inr outputs' \<Longrightarrow> extends_outputs iface outputs outputs'"
  by (auto simp: WriteOutput_def split: option.splits if_splits intro: extends_outputs_put)

lemma apply_calls_extends:
  "map_of (wi_outputs iface) name = Some spec \<Longrightarrow>
    extends_outputs iface outputs (fst (apply_calls decode_value name spec calls outputs))"
  by (induction decode_value name spec calls outputs rule: apply_calls.induct)
    (auto split: option.splits if_splits intro: extends_outputs_put extends_outputs_trans)

lemma applyOutputCaptures_extends:
  "extends_outputs iface outputs (fst (applyOutputCaptures decode_value iface captures outputs))"
proof (induction decode_value iface captures outputs rule: applyOutputCaptures.induct)
  case (2 decode_value iface name calls captures outputs)
  then show ?case
  proof (cases "map_of (wi_outputs iface) name")
    case (Some spec)
    obtain outputs' e where a: "apply_calls decode_value name spec calls outputs = (outputs', e)" by (cases "apply_calls decode_value name spec calls outputs")
    have "extends_outputs iface outputs outputs'"
      using apply_calls_extends [OF Some, of outputs decode_value calls] a by simp
    with 2(2) [OF Some a [symmetric]] show ?thesis
      by (cases e) (auto simp: Some a intro: extends_outputs_trans)
  qed simp
qed simp

lemma publish_from_extends:
  "extends_outputs iface outputs (fst (publish_from iface assignments calleeOutputs names outputs))"
  by (induction iface assignments calleeOutputs names outputs rule: publish_from.induct)
    (auto simp: Let_def split: option.splits sum.splits if_splits intro: WriteOutput_extends extends_outputs_trans)

text \<open>Outputs that only the writers wrote can fail the last check on a missing required output only.\<close>

lemma typed_outputs_finish:
  assumes "typed_outputs iface outputs" "validateFinishOutputs iface outputs = Some e"
  shows "\<exists>name. e = ValueRequired name"
proof -
  from assms(2) have "check_values os_type os_required (wi_outputs iface) outputs = Some e"
    by (simp add: validateFinishOutputs_def CheckOutputs_def)
  then show ?thesis using assms(1) by (cases rule: first_values_error) (auto simp: typed_outputs_def)
qed

end
