(* ===== verification/Workflow_Definition.thy ===== *)
theory Workflow_Definition
  imports Workflow_Call
begin

text \<open>
  Workflow definitions and the checks that accept them (\<open>domain/workflow/definition.go\<close>,
  \<open>step_refs.go\<close>, \<open>step_flow.go\<close>, \<open>control_steps.go\<close>, \<open>domain/stableid\<close>): steps and their controls, references
  and conditions, parallel branches and switch cases, the scope a reference is checked against, and the
  checks that span definitions.

  \<^item> A settings node is the tree of \<open>yaml.v3\<close>; how a node decodes into a settings struct and how a value
    becomes a node are parameters, collected in a \<open>codec\<close>; None is a decoding error.
  \<^item> The branches of a parallel step and the cases of a switch are Go maps: the model lists them in the
    order of their keys, the order in which the code visits them.
  \<^item> A step factory is a parameter: it gives an error or the body of the stage.
  \<^item> The location prefix of an error message is kept as the constructor \<open>InArm\<close>.
\<close>

section \<open>Stable identifiers\<close>

text \<open>The expression \<open>^[a-z][a-z0-9]*(?:[.-][a-z0-9]+)*$\<close>: \<open>stable_rest\<close> reads the rest of a segment, its flag is set
  right after a separator.\<close>

fun stable_rest :: "bool \<Rightarrow> string \<Rightarrow> bool" where
  "stable_rest sep [] \<longleftrightarrow> \<not> sep"
| "stable_rest sep (c # cs) \<longleftrightarrow>
    (if is_lower c \<or> is_digit c then stable_rest False cs
     else (c = CHR ''.'' \<or> c = CHR ''-'') \<and> \<not> sep \<and> stable_rest True cs)"

definition Valid :: "string \<Rightarrow> bool" where
  "Valid i = (case i of [] \<Rightarrow> False | c # cs \<Rightarrow> is_lower c \<and> stable_rest False cs)"

section \<open>Nodes and settings\<close>

datatype yaml_kind = NoNode | DocumentNode | SequenceNode | MappingNode | ScalarNode | AliasNode

datatype yaml = Node (yn_kind: yaml_kind) (yn_tag: string) (yn_value: string) (yn_content: "yaml list")

definition no_settings :: yaml where "no_settings = Node NoNode [] [] []"

definition str_tag :: string where [go_string_simps]: "str_tag = ''!!str''"

record agentRunSettings =
  ar_mission :: string
  ar_model :: string
  ar_read_only :: bool
  ar_result :: "json gomap"

record handoffSettings =
  hs_workflow :: string
  hs_detail :: string

record approveSettings =
  as_plan :: string
  as_then :: string

record finishSettings =
  fs_status :: string
  fs_detail :: string

record commentSettings =
  cs_body :: string
  cs_on :: string

record codec =
  dec_agent :: "yaml \<Rightarrow> agentRunSettings option"
  dec_call :: "yaml \<Rightarrow> workflowCallSettings option"
  dec_handoff :: "yaml \<Rightarrow> handoffSettings option"
  dec_approve :: "yaml \<Rightarrow> approveSettings option"
  dec_finish :: "yaml \<Rightarrow> finishSettings option"
  dec_comment :: "yaml \<Rightarrow> commentSettings option"

text \<open>\<open>decodeSettings\<close>: no node decodes to the zero value.\<close>

definition decodeSettings :: "'s \<Rightarrow> (yaml \<Rightarrow> 's option) \<Rightarrow> yaml \<Rightarrow> 's option" where
  "decodeSettings zero dec settings = (if yn_kind settings = NoNode then Some zero else dec settings)"

definition AgentRunStepName :: string where [go_string_simps]: "AgentRunStepName = ''agent.run''"
definition FinishStepName :: string where [go_string_simps]: "FinishStepName = ''workflow.finish''"
definition HandoffStepName :: string where [go_string_simps]: "HandoffStepName = ''workflow.handoff''"
definition ApproveStepName :: string where [go_string_simps]: "ApproveStepName = ''human.approve''"
definition CloseIssueStepName :: string where [go_string_simps]: "CloseIssueStepName = ''forge.close-issue''"
definition CommentStepName :: string where [go_string_simps]: "CommentStepName = ''forge.comment''"

definition repoFreeStepTypes :: "string list" where
  "repoFreeStepTypes = [AgentRunStepName, WorkflowCallStepName, FinishStepName, HandoffStepName,
     ApproveStepName, CloseIssueStepName, CommentStepName]"

definition NeedsRepository :: "string \<Rightarrow> bool" where
  "NeedsRepository stepType \<longleftrightarrow> stepType \<notin> set repoFreeStepTypes"

section \<open>Steps\<close>

record RetryPolicy =
  rp_attempts :: int
  rp_backoff :: string

datatype StepRecord = StepRecord
  (sr_id: string) (sr_type: string) (sr_settings: yaml) (sr_when: string) (sr_on_failure: string)
  (sr_retry: "RetryPolicy option")
  (sr_parallel: "(string \<times> StepRecord list) list option")
  (sr_switch: "(string \<times> (string \<times> StepRecord list) list) option")

definition switchDefault :: string where [go_string_simps]: "switchDefault = ''default''"
definition onFailureContinue :: string where [go_string_simps]: "onFailureContinue = ''continue''"
definition maxRetryAttempts :: int where "maxRetryAttempts = 10"

definition step_branches :: "StepRecord \<Rightarrow> (string \<times> StepRecord list) list" where
  "step_branches step = (case sr_switch step of Some (on, cases) \<Rightarrow> cases | None \<Rightarrow> slice (sr_parallel step))"

definition StageName :: "StepRecord \<Rightarrow> string" where
  "StageName step =
    (if sr_id step \<noteq> [] then sr_id step
     else if sr_parallel step \<noteq> None then ''parallel''
     else if sr_switch step \<noteq> None then ''switch''
     else sr_type step)"

text \<open>\<open>walkSteps\<close> visits the steps in this order: a step, then the steps of its branches.\<close>

fun walk_step :: "StepRecord \<Rightarrow> StepRecord list"
and walkSteps :: "StepRecord list \<Rightarrow> StepRecord list"
and walk_arms :: "(string \<times> StepRecord list) list \<Rightarrow> StepRecord list" where
  "walk_step (StepRecord i ty st w f r par sw) =
    StepRecord i ty st w f r par sw #
    (case sw of
       Some (on, cases) \<Rightarrow> walk_arms cases
     | None \<Rightarrow> (case par of None \<Rightarrow> [] | Some branches \<Rightarrow> walk_arms branches))"
| "walkSteps [] = []"
| "walkSteps (s # ss) = walk_step s @ walkSteps ss"
| "walk_arms [] = []"
| "walk_arms ((n, ss) # arms) = walkSteps ss @ walk_arms arms"

definition findStep :: "StepRecord list \<Rightarrow> string \<Rightarrow> StepRecord option" where
  "findStep steps i = find (\<lambda>s. sr_id s = i) (walkSteps steps)"

section \<open>References\<close>

definition regex_space :: "char \<Rightarrow> bool" where
  "regex_space c \<longleftrightarrow> byte_of c \<in> {9, 10, 12, 13, 32}"

definition path_char :: "char \<Rightarrow> bool" where
  "path_char c \<longleftrightarrow> c \<noteq> CHR ''{'' \<and> c \<noteq> CHR ''}'' \<and> \<not> regex_space c"

text \<open>One match of \<open>{{\<close>, spaces, a path, spaces, \<open>}}\<close> at the front: the path and what follows.\<close>

definition match_reference :: "string \<Rightarrow> (string \<times> string) option" where
  "match_reference s =
    (if \<not> has_prefix s ''{{'' then None
     else (let t = dropWhile regex_space (drop 2 s);
               path = takeWhile path_char t;
               rest = dropWhile regex_space (dropWhile path_char t)
           in if path \<noteq> [] \<and> has_prefix rest ''}}'' then Some (path, drop 2 rest) else None))"

lemma match_reference_shorter: "match_reference s = Some (path, rest) \<Longrightarrow> length rest < length s"
proof -
  assume m: "match_reference s = Some (path, rest)"
  let ?t = "dropWhile regex_space (drop 2 s)"
  let ?r = "dropWhile regex_space (dropWhile path_char ?t)"
  from m have r: "rest = drop 2 ?r" and p: "has_prefix ?r ''}}''"
    by (auto simp: match_reference_def Let_def split: if_splits)
  have "length ?r \<le> length s"
    by (rule le_trans [OF length_dropWhile_le], rule le_trans [OF length_dropWhile_le], rule le_trans [OF length_dropWhile_le]) simp
  moreover have "2 \<le> length ?r" using p by (auto simp: has_prefix_def dest: arg_cong [where f = length])
  ultimately show ?thesis unfolding r by simp
qed

text \<open>\<open>FindAllStringSubmatch\<close>: the paths of the matches, left to right.\<close>

function reference_paths :: "string \<Rightarrow> string list" where
  "reference_paths s = (case s of
     [] \<Rightarrow> []
   | c # cs \<Rightarrow> (case match_reference s of
       Some (path, rest) \<Rightarrow> path # reference_paths rest
     | None \<Rightarrow> reference_paths cs))"
  by pat_completeness auto
termination
  by (relation "measure length") (auto dest: match_reference_shorter)

declare reference_paths.simps [simp del]

text \<open>\<open>ReplaceAllStringFunc\<close> with the text of each reference.\<close>

function interpolate :: "(string \<Rightarrow> string) \<Rightarrow> string \<Rightarrow> string" where
  "interpolate f s = (case s of
     [] \<Rightarrow> []
   | c # cs \<Rightarrow> (case match_reference s of
       Some (path, rest) \<Rightarrow> f path @ interpolate f rest
     | None \<Rightarrow> c # interpolate f cs))"
  by pat_completeness auto
termination
  by (relation "measure (length \<circ> snd)") (auto dest: match_reference_shorter)

declare interpolate.simps [simp del]

text \<open>A value that is one reference and space around it.\<close>

definition soleReference :: "string \<Rightarrow> string option" where
  "soleReference s = (case match_reference (dropWhile regex_space s) of
     Some (path, rest) \<Rightarrow> if list_all regex_space rest then Some path else None
   | None \<Rightarrow> None)"

text \<open>The strings \<open>walkStrings\<close> visits.\<close>

fun node_strings :: "yaml \<Rightarrow> string list"
and node_list_strings :: "yaml list \<Rightarrow> string list" where
  "node_strings (Node k tag v content) =
    (if k = ScalarNode \<and> tag = str_tag then [v] else []) @ node_list_strings content"
| "node_list_strings [] = []"
| "node_list_strings (n # ns) = node_strings n @ node_list_strings ns"

text \<open>The scope of a check: the declared inputs and the earlier steps, each with the fields of its result
  schema, if it has one.\<close>

record refScope =
  sc_inputs :: "string list"
  sc_steps :: "string list option gomap"

definition newRefScope :: "InputSpec gomap \<Rightarrow> refScope" where
  "newRefScope inputs = \<lparr>sc_inputs = map fst inputs, sc_steps = []\<rparr>"

definition scope_has :: "refScope \<Rightarrow> string \<Rightarrow> bool" where
  "scope_has s i \<longleftrightarrow> map_of (sc_steps s) i \<noteq> None"

definition object_field :: "json gomap \<Rightarrow> string \<Rightarrow> json gomap option" where
  "object_field m k = (case map_of m k of Some (JObject fs) \<Rightarrow> Some fs | _ \<Rightarrow> None)"

definition resultFields :: "codec \<Rightarrow> StepRecord \<Rightarrow> string list option" where
  "resultFields cd step =
    (if sr_type step \<noteq> AgentRunStepName then None
     else (case dec_agent cd (sr_settings step) of
         None \<Rightarrow> None
       | Some s \<Rightarrow> map_option (map fst) (object_field (ar_result s) ''properties'')))"

definition taskFields :: "string list" where
  "taskFields = [''review'', ''plan'', ''title'', ''body'', ''prompt'', ''repository'', ''kind'', ''issue'', ''pr'']"

datatype step_error =
    RefNoField string
  | RefTaskField string string
  | RefInput string string
  | RefStepForm string
  | RefNoStep string string
  | RefStepPart string
  | RefResultField string string string
  | RefRoot string
  | BadStepID string
  | IDTwice string
  | BadOnFailure string
  | BadRetryAttempts int
  | BadBackoff string
  | WhenNothing
  | InWhen step_error
  | UnknownType string
  | CallNeedsID
  | StepNeedsRepository string string
  | NotParallelSafe string
  | BadSettings string string
  | ParallelNotTyped
  | ParallelNested
  | ParallelTooFew
  | BadBranchName string
  | ArmEmpty string
  | SwitchNotTyped
  | SwitchNoCases
  | SwitchOn step_error
  | BadCaseName string
  | InArm string nat step_error

definition checkStepReference :: "string \<Rightarrow> string list \<Rightarrow> refScope \<Rightarrow> step_error option" where
  "checkStepReference path parts earlier =
    guard_err (length parts < 3) (RefStepForm path)
    (guard_err (\<not> scope_has earlier (parts ! 1)) (RefNoStep path (parts ! 1))
    (guard_err (parts ! 2 \<noteq> ''summary'' \<and> parts ! 2 \<noteq> ''result'') (RefStepPart path)
    (case map_of (sc_steps earlier) (parts ! 1) of
       Some (Some fs) \<Rightarrow>
         guard_err (parts ! 2 = ''result'' \<and> length parts > 3 \<and> parts ! 3 \<notin> set fs)
           (RefResultField path (parts ! 1) (parts ! 3)) None
     | _ \<Rightarrow> None)))"

definition checkReference :: "string \<Rightarrow> refScope \<Rightarrow> step_error option" where
  "checkReference path earlier =
    (let parts = split_byte CHR ''.'' path in
     if hd parts = ''task'' \<or> hd parts = ''inputs''
     then guard_err (length parts < 2) (RefNoField path)
         (guard_err (hd parts = ''task'' \<and> parts ! 1 \<notin> set taskFields) (RefTaskField path (parts ! 1))
         (guard_err (hd parts = ''inputs'' \<and> parts ! 1 \<notin> set (sc_inputs earlier)) (RefInput path (parts ! 1)) None))
     else if hd parts = ''steps'' then checkStepReference path parts earlier
     else Some (RefRoot path))"

definition checkReferences :: "yaml \<Rightarrow> refScope \<Rightarrow> step_error option" where
  "checkReferences settings earlier =
    first_error (\<lambda>path. checkReference path earlier) (concat (map reference_paths (node_strings settings)))"

definition checkStepID :: "string \<Rightarrow> refScope \<Rightarrow> step_error option" where
  "checkStepID i seen =
    (if i = [] then None
     else guard_err (\<not> Valid i) (BadStepID i) (guard_err (scope_has seen i) (IDTwice i) None))"

section \<open>Conditions\<close>

record condition =
  cn_path :: string
  cn_negate :: bool
  cn_operator :: string
  cn_operand :: string

text \<open>\<open>strings.Cut\<close> with a separator that is not empty.\<close>

fun cut_string :: "string \<Rightarrow> string \<Rightarrow> (string \<times> string) option" where
  "cut_string [] sep = None"
| "cut_string (c # cs) sep =
    (if has_prefix (c # cs) sep then Some ([], drop (length sep) (c # cs))
     else map_option (\<lambda>(l, r). (c # l, r)) (cut_string cs sep))"

text \<open>\<open>strings.Trim\<close> with a cutset.\<close>

definition trim_chars :: "char list \<Rightarrow> string \<Rightarrow> string" where
  "trim_chars cs s = rev (dropWhile (\<lambda>c. c \<in> set cs) (rev (dropWhile (\<lambda>c. c \<in> set cs) s)))"

definition quote_chars :: "char list" where "quote_chars = [char_of (34::nat), char_of (39::nat)]"

definition compare_condition :: "string \<Rightarrow> string \<times> string \<Rightarrow> condition" where
  "compare_condition operator lr =
    \<lparr>cn_path = trim_space (fst lr), cn_negate = False, cn_operator = operator,
     cn_operand = trim_chars quote_chars (trim_space (snd lr))\<rparr>"

definition parseCondition :: "string \<Rightarrow> step_error + condition" where
  "parseCondition src =
    (let source = trim_space src in
     case cut_string source ''=='' of
       Some lr \<Rightarrow> Inr (compare_condition ''=='' lr)
     | None \<Rightarrow> (case cut_string source ''!='' of
         Some lr \<Rightarrow> Inr (compare_condition ''!='' lr)
       | None \<Rightarrow>
           (let c = (if has_prefix source ''!''
                     then \<lparr>cn_path = trim_space (drop 1 source), cn_negate = True, cn_operator = [], cn_operand = []\<rparr>
                     else \<lparr>cn_path = source, cn_negate = False, cn_operator = [], cn_operand = []\<rparr>)
            in if cn_path c = [] then Inl WhenNothing else Inr c)))"

section \<open>Durations\<close>

text \<open>\<open>time.ParseDuration\<close>, in nanoseconds: a sign, then numbers with a unit. The model works with unbounded
  integers and takes a fraction exactly; None is an error, an overflow included.\<close>

definition unit_ns :: "string \<Rightarrow> nat option" where
  "unit_ns u = map_of [(''ns'', 1), (''us'', 1000), ([char_of (0xC2::nat), char_of (0xB5::nat), CHR ''s''], 1000),
     ([char_of (0xCE::nat), char_of (0xBC::nat), CHR ''s''], 1000), (''ms'', 1000000), (''s'', 1000000000),
     (''m'', 60000000000), (''h'', 3600000000000)] u"

definition dec_value :: "string \<Rightarrow> nat" where
  "dec_value ds = fold (\<lambda>c n. 10 * n + (byte_of c - 48)) ds 0"

definition number_char :: "char \<Rightarrow> bool" where
  "number_char c \<longleftrightarrow> is_digit c \<or> c = CHR ''.''"

text \<open>One number and its unit: the nanoseconds and what follows.\<close>

definition duration_part :: "string \<Rightarrow> (nat \<times> string) option" where
  "duration_part s =
    (let whole = takeWhile is_digit s;
         t = dropWhile is_digit s;
         fraction = (case t of c # cs \<Rightarrow> if c = CHR ''.'' then takeWhile is_digit cs else [] | [] \<Rightarrow> []);
         u = (case t of c # cs \<Rightarrow> if c = CHR ''.'' then dropWhile is_digit cs else t | [] \<Rightarrow> []);
         name = takeWhile (\<lambda>c. \<not> number_char c) u
     in if whole = [] \<and> fraction = [] \<or> name = [] then None
        else (case unit_ns name of
            None \<Rightarrow> None
          | Some ns \<Rightarrow>
              Some (dec_value whole * ns + dec_value fraction * ns div 10 ^ length fraction,
                    dropWhile (\<lambda>c. \<not> number_char c) u)))"

fun duration_parts :: "nat \<Rightarrow> string \<Rightarrow> nat option" where
  "duration_parts 0 s = None"
| "duration_parts (Suc n) s =
    (if s = [] then Some 0
     else (case duration_part s of
         None \<Rightarrow> None
       | Some (ns, rest) \<Rightarrow> (case duration_parts n rest of
           None \<Rightarrow> None
         | Some ns2 \<Rightarrow> if ns + ns2 > 2 ^ 63 then None else Some (ns + ns2))))"

definition ParseDuration :: "string \<Rightarrow> int option" where
  "ParseDuration s =
    (let neg = has_prefix s ''-''; t = (if neg \<or> has_prefix s ''+'' then drop 1 s else s) in
     if t = ''0'' then Some 0
     else if t = [] then None
     else (case duration_parts (Suc (length t)) t of
         None \<Rightarrow> None
       | Some d \<Rightarrow> if neg then Some (- int d) else if d > 2 ^ 63 - 1 then None else Some (int d)))"

definition retryBackoff :: "RetryPolicy option \<Rightarrow> step_error + int" where
  "retryBackoff policy = (case policy of
     None \<Rightarrow> Inr 0
   | Some p \<Rightarrow>
       if rp_backoff p = [] then Inr 0
       else (case ParseDuration (rp_backoff p) of
           None \<Rightarrow> Inl (BadBackoff (rp_backoff p))
         | Some d \<Rightarrow> if d < 0 then Inl (BadBackoff (rp_backoff p)) else Inr d))"

section \<open>Checking a step\<close>

definition checkStepControls :: "StepRecord \<Rightarrow> refScope \<Rightarrow> step_error option" where
  "checkStepControls step earlier =
    guard_err (sr_on_failure step \<noteq> [] \<and> sr_on_failure step \<noteq> ''park'' \<and> sr_on_failure step \<noteq> onFailureContinue)
      (BadOnFailure (sr_on_failure step))
    (seq_err (case sr_retry step of
        None \<Rightarrow> None
      | Some p \<Rightarrow>
          guard_err (rp_attempts p < 1 \<or> rp_attempts p > maxRetryAttempts) (BadRetryAttempts (rp_attempts p))
            (case retryBackoff (Some p) of Inl e \<Rightarrow> Some e | Inr _ \<Rightarrow> None))
    (if sr_when step = [] then None
     else (case parseCondition (sr_when step) of
         Inl e \<Rightarrow> Some e
       | Inr c \<Rightarrow> map_option InWhen (checkReference (cn_path c) earlier))))"

type_synonym 'b StepRegistry = "string \<Rightarrow> (yaml \<Rightarrow> string + 'b) option"

definition parallelSafe :: "codec \<Rightarrow> StepRecord \<Rightarrow> bool" where
  "parallelSafe cd step \<longleftrightarrow> sr_type step = WorkflowCallStepName
     \<or> sr_type step = AgentRunStepName
        \<and> (case dec_agent cd (sr_settings step) of Some s \<Rightarrow> ar_read_only s | None \<Rightarrow> False)"

definition checkTypedStep :: "codec \<Rightarrow> 'b StepRegistry \<Rightarrow> string \<Rightarrow> bool \<Rightarrow> StepRecord \<Rightarrow> refScope \<Rightarrow> step_error option" where
  "checkTypedStep cd registry mode inBranch step earlier = (case registry (sr_type step) of
     None \<Rightarrow> Some (UnknownType (sr_type step))
   | Some factory \<Rightarrow>
       guard_err (sr_type step = WorkflowCallStepName \<and> sr_id step = []) CallNeedsID
       (guard_err (mode \<noteq> RepositoryRequired \<and> NeedsRepository (sr_type step)) (StepNeedsRepository (sr_type step) mode)
       (guard_err (inBranch \<and> \<not> parallelSafe cd step) (NotParallelSafe (sr_type step))
       (seq_err (checkReferences (sr_settings step) earlier)
       (case factory (sr_settings step) of Inl e \<Rightarrow> Some (BadSettings (sr_type step) e) | Inr _ \<Rightarrow> None)))))"

text \<open>\<open>maps.Copy\<close> of the ids an arm declares.\<close>

definition declare_ids :: "string list option gomap \<Rightarrow> refScope \<Rightarrow> refScope" where
  "declare_ids declared earlier = earlier\<lparr>sc_steps := fold (\<lambda>(i, fs) m. map_put i fs m) declared (sc_steps earlier)\<rparr>"

definition declare_step :: "codec \<Rightarrow> StepRecord \<Rightarrow> string list option gomap \<Rightarrow> string list option gomap" where
  "declare_step cd step declared =
    (if sr_id step \<noteq> [] then map_put (sr_id step) (resultFields cd step) declared else declared)"

text \<open>A check returns the scope the later steps see, or the first error. \<open>check_arm\<close> is the loop over the steps
  of one branch or case: its scope \<open>seen\<close> grows with every nested step, \<open>declared\<close> with the arm's own steps.\<close>

definition parallel_form :: "StepRecord \<Rightarrow> bool \<Rightarrow> nat \<Rightarrow> step_error option" where
  "parallel_form step inBranch n =
    guard_err (sr_type step \<noteq> [] \<or> yn_kind (sr_settings step) \<noteq> NoNode) ParallelNotTyped
    (guard_err inBranch ParallelNested (guard_err (n < 2) ParallelTooFew None))"

definition switch_form :: "StepRecord \<Rightarrow> string \<Rightarrow> nat \<Rightarrow> refScope \<Rightarrow> step_error option" where
  "switch_form step on n earlier =
    guard_err (sr_type step \<noteq> [] \<or> yn_kind (sr_settings step) \<noteq> NoNode \<or> sr_parallel step \<noteq> None) SwitchNotTyped
    (guard_err (n = 0) SwitchNoCases (map_option SwitchOn (checkReference (trim_space on) earlier)))"

definition branch_name_error :: "string \<Rightarrow> step_error option" where
  "branch_name_error name = guard_err (\<not> Valid name) (BadBranchName name) None"

definition case_name_error :: "string \<Rightarrow> step_error option" where
  "case_name_error name = guard_err (name = [] \<or> CHR ''/'' \<in> set name) (BadCaseName name) None"

fun checkStep :: "codec \<Rightarrow> 'b StepRegistry \<Rightarrow> string \<Rightarrow> bool \<Rightarrow> StepRecord \<Rightarrow> refScope \<Rightarrow> step_error + refScope"
and check_arm :: "codec \<Rightarrow> 'b StepRegistry \<Rightarrow> string \<Rightarrow> bool \<Rightarrow> string \<Rightarrow> nat \<Rightarrow> StepRecord list \<Rightarrow> refScope
      \<Rightarrow> string list option gomap \<Rightarrow> step_error + string list option gomap"
and check_arms :: "codec \<Rightarrow> 'b StepRegistry \<Rightarrow> string \<Rightarrow> bool \<Rightarrow> (string \<Rightarrow> step_error option) \<Rightarrow> (string \<times> StepRecord list) list \<Rightarrow> refScope
      \<Rightarrow> string list option gomap \<Rightarrow> step_error + string list option gomap" where
  "checkStep cd registry mode inBranch (StepRecord i ty st w f r par sw) earlier =
    (let step = StepRecord i ty st w f r par sw in
     case seq_err (checkStepID i earlier) (checkStepControls step earlier) of
       Some e \<Rightarrow> Inl e
     | None \<Rightarrow>
         (case (case sw of
             Some (on, cases) \<Rightarrow> (case switch_form step on (length cases) earlier of
                 Some e \<Rightarrow> Inl e
               | None \<Rightarrow> check_arms cd registry mode inBranch case_name_error cases earlier [])
           | None \<Rightarrow> (case par of
               Some branches \<Rightarrow> (case parallel_form step inBranch (length branches) of
                   Some e \<Rightarrow> Inl e
                 | None \<Rightarrow> check_arms cd registry mode True branch_name_error branches earlier [])
             | None \<Rightarrow> (case checkTypedStep cd registry mode inBranch step earlier of
                   Some e \<Rightarrow> Inl e
                 | None \<Rightarrow> Inr []))) of
           Inl e \<Rightarrow> Inl e
         | Inr declared \<Rightarrow>
             (let after = declare_ids declared earlier in
              Inr (after\<lparr>sc_steps := declare_step cd step (sc_steps after)\<rparr>))))"
| "check_arm cd registry mode inBranch name n [] seen declared = Inr declared"
| "check_arm cd registry mode inBranch name n (s # ss) seen declared =
    (if sr_id s \<noteq> [] \<and> map_of declared (sr_id s) \<noteq> None then Inl (InArm name (Suc n) (IDTwice (sr_id s)))
     else (case checkStep cd registry mode inBranch s seen of
         Inl e \<Rightarrow> Inl (InArm name (Suc n) e)
       | Inr seen' \<Rightarrow> check_arm cd registry mode inBranch name (Suc n) ss seen' (declare_step cd s declared)))"
| "check_arms cd registry mode inBranch name_error [] earlier declared = Inr declared"
| "check_arms cd registry mode inBranch name_error ((name, ss) # arms) earlier declared =
    (case seq_err (name_error name) (guard_err (ss = []) (ArmEmpty name) None) of
       Some e \<Rightarrow> Inl e
     | None \<Rightarrow> (case check_arm cd registry mode inBranch name 0 ss earlier declared of
         Inl e \<Rightarrow> Inl e
       | Inr declared' \<Rightarrow> check_arms cd registry mode inBranch name_error arms earlier declared'))"

declare checkStep.simps [simp del]

section \<open>The path of a step\<close>

text \<open>A running step is known by its path: its name, qualified by the branch it runs in and by the path of the
  step around it.\<close>

definition joinStepPath :: "string \<Rightarrow> string \<Rightarrow> string" where
  "joinStepPath parent name = (if parent = [] then name else parent @ ''/'' @ name)"

definition branchStepName :: "string \<Rightarrow> string \<Rightarrow> string" where
  "branchStepName branch name = (if branch = [] then name else branch @ ''/'' @ name)"

end
