(* ===== verification/Workflow_References.thy ===== *)
theory Workflow_References
  imports Workflow_Definition Task_Store
begin

text \<open>
  What a running step reads (\<open>domain/workflow/step_refs.go\<close>, \<open>control_steps.go\<close>): the scope of values a
  reference is looked up in, the text and the truth of a value, the conditions of a step, and settings with
  their references replaced. \<open>marshal\<close> stands for \<open>encoding/json\<close> on values that are not strings and \<open>to_node\<close> for
  the YAML round trip that gives a value's node.
\<close>

section \<open>Values in scope\<close>

text \<open>What a Go \<open>any\<close> in the scope holds: a decoded JSON value, an int, a nil map, or a map of such values. A
  number decoded with \<open>UseNumber\<close> is a \<open>JNumber\<close>, one decoded as float64 a \<open>JFloat\<close>.\<close>

datatype scope_value = Val json | IntVal int | NilMap | MapVal "(string \<times> scope_value) list"

fun scope_lookup :: "scope_value \<Rightarrow> string list \<Rightarrow> scope_value" where
  "scope_lookup v [] = v"
| "scope_lookup (MapVal m) (k # ks) = (case map_of m k of None \<Rightarrow> scope_lookup (Val JNull) ks | Some v \<Rightarrow> scope_lookup v ks)"
| "scope_lookup (Val (JObject m)) (k # ks) = (case map_of m k of None \<Rightarrow> scope_lookup (Val JNull) ks | Some v \<Rightarrow> scope_lookup (Val v) ks)"
| "scope_lookup NilMap (k # ks) = scope_lookup (Val JNull) ks"
| "scope_lookup _ (k # ks) = Val JNull"

definition stringify :: "(scope_value \<Rightarrow> string) \<Rightarrow> scope_value \<Rightarrow> string" where
  "stringify marshal v = (case v of Val JNull \<Rightarrow> [] | Val (JString s) \<Rightarrow> s | _ \<Rightarrow> marshal v)"

text \<open>Only the types the source lists can be false; a \<open>json.Number\<close> is none of them.\<close>

definition truthy :: "scope_value \<Rightarrow> bool" where
  "truthy v = (case v of
     Val JNull \<Rightarrow> False
   | Val (JBool b) \<Rightarrow> b
   | Val (JString s) \<Rightarrow> s \<noteq> [] \<and> s \<noteq> ''false''
   | Val (JFloat n) \<Rightarrow> n \<noteq> 0 \<and> n \<noteq> 2 ^ 63
   | IntVal n \<Rightarrow> n \<noteq> 0
   | _ \<Rightarrow> True)"

section \<open>The scope of a run\<close>

record StepResult =
  res_summary :: string
  res_result :: "json gomap option"

definition no_result :: StepResult where "no_result = \<lparr>res_summary = [], res_result = None\<rparr>"

text \<open>The texts about the task that other parts of the program render.\<close>

text \<open>What the texts need: the decoder of a review, and the configured repository of the run.\<close>

record task_texts =
  tx_unmarshal :: "string \<Rightarrow> ReviewUnit option"
  tx_owner :: string
  tx_name :: string

definition newline :: string where "newline = [char_of (10::nat)]"

definition IsForgeBacked :: "task_row \<Rightarrow> bool" where
  "IsForgeBacked t \<longleftrightarrow> t_source t \<noteq> ''chat''"

definition FullName :: "task_texts \<Rightarrow> string" where
  "FullName tx = tx_owner tx @ ''/'' @ tx_name tx"

definition orUnknown :: "string \<Rightarrow> string" where
  "orUnknown s = (if s = [] then ''unspecified'' else s)"

definition comment_place :: "ReviewUnitComment \<Rightarrow> string" where
  "comment_place c =
    (if rc_path c = [] then ''(general)''
     else if rc_line c > 0 then rc_path c @ '':'' @ int_dec (rc_line c) else rc_path c)"

definition renderReviewUnitMission :: "ReviewUnit \<Rightarrow> string" where
  "renderReviewUnitMission u =
    (if ru_body u = [] then []
     else ''Review summary ('' @ orUnknown (ru_state u) @ ''): '' @ ru_body u @ newline @ newline)
    @ (if ru_comments u = [] then ''No inline comments were attached; address the review summary above.''
       else ''Comments:'' @ newline
         @ concat (map (\<lambda>c. ''- '' @ comment_place c @ '': '' @ rc_body c @ newline) (ru_comments u)))"

definition reviewMission :: "(string \<Rightarrow> ReviewUnit option) \<Rightarrow> task_row \<Rightarrow> string" where
  "reviewMission unmarshal t = (case DecodeReviewUnit unmarshal (t_review_payload t) of
     Inl _ \<Rightarrow> []
   | Inr unit \<Rightarrow> if t_review_payload t = [] then [] else renderReviewUnitMission unit)"

definition taskPromptBlock :: "task_row \<Rightarrow> string" where
  "taskPromptBlock t =
    (if IsForgeBacked t
     then ''<issue number='' @ int_dec (t_issue t) @ ''>'' @ newline @ ''# '' @ t_title t @ newline @ newline @ t_body t @ newline @ ''</issue>''
     else ''<task source='' @ [char_of (34::nat)] @ ''chat'' @ [char_of (34::nat)] @ ''>'' @ newline @ ''# '' @ t_title t @ newline @ newline
       @ t_body t @ newline @ ''</task>'')"

definition taskKind :: "task_row \<Rightarrow> string" where
  "taskKind t = (if IsForgeBacked t then ''GitHub issue'' else ''chat-originated task'')"

definition approvedPlan :: "task_row \<Rightarrow> string" where
  "approvedPlan t = (if t_plan t = [] then []
     else ''<approved_prd>'' @ [char_of (10::nat)] @ t_plan t @ [char_of (10::nat)] @ ''</approved_prd>'')"

definition result_value :: "StepResult \<Rightarrow> scope_value" where
  "result_value r = MapVal [(''summary'', Val (JString (res_summary r))),
     (''result'', (case res_result r of None \<Rightarrow> NilMap | Some m \<Rightarrow> Val (JObject m)))]"

definition referenceScope :: "task_texts \<Rightarrow> task_row \<Rightarrow> json gomap \<Rightarrow> StepResult gomap \<Rightarrow> scope_value" where
  "referenceScope tx t inputs results = MapVal
    [(''task'', MapVal
        [(''review'', Val (JString (reviewMission (tx_unmarshal tx) t))), (''plan'', Val (JString (approvedPlan t))),
         (''title'', Val (JString (t_title t))), (''body'', Val (JString (t_body t))),
         (''prompt'', Val (JString (taskPromptBlock t))), (''repository'', Val (JString (FullName tx))),
         (''kind'', Val (JString (taskKind t))), (''issue'', IntVal (t_issue t)), (''pr'', IntVal (t_pr t))]),
     (''inputs'', Val (JObject inputs)),
     (''steps'', MapVal (map (\<lambda>(i, r). (i, result_value r)) results))]"

definition holds :: "(scope_value \<Rightarrow> string) \<Rightarrow> condition \<Rightarrow> scope_value \<Rightarrow> bool" where
  "holds marshal c scope =
    (let v = scope_lookup scope (split_byte CHR ''.'' (cn_path c)) in
     if cn_operator c = ''=='' then stringify marshal v = cn_operand c
     else if cn_operator c = ''!='' then stringify marshal v \<noteq> cn_operand c
     else truthy v \<noteq> cn_negate c)"

section \<open>Settings of a run\<close>

definition reference_text :: "(scope_value \<Rightarrow> string) \<Rightarrow> scope_value \<Rightarrow> string \<Rightarrow> string" where
  "reference_text marshal scope path = stringify marshal (scope_lookup scope (split_byte CHR ''.'' path))"

definition interpolateNode :: "(scope_value \<Rightarrow> string) \<Rightarrow> scope_value \<Rightarrow> yaml \<Rightarrow> yaml" where
  "interpolateNode marshal scope n =
    (if yn_kind n \<noteq> ScalarNode \<or> yn_tag n \<noteq> str_tag then n
     else Node (yn_kind n) (yn_tag n) (interpolate (reference_text marshal scope) (yn_value n)) (yn_content n))"

text \<open>\<open>setNodeValue\<close>: an absent value renders empty, a value YAML cannot carry keeps the reference.\<close>

definition setNodeValue :: "(scope_value \<Rightarrow> yaml option) \<Rightarrow> yaml \<Rightarrow> scope_value \<Rightarrow> yaml" where
  "setNodeValue to_node n v =
    (if v = Val JNull then Node (yn_kind n) (yn_tag n) [] (yn_content n)
     else (case to_node v of None \<Rightarrow> n | Some content \<Rightarrow> content))"

definition renderValue :: "(scope_value \<Rightarrow> string) \<Rightarrow> (scope_value \<Rightarrow> yaml option) \<Rightarrow> scope_value \<Rightarrow> yaml \<Rightarrow> yaml" where
  "renderValue marshal to_node scope n = (case soleReference (yn_value n) of
     Some path \<Rightarrow> setNodeValue to_node n (scope_lookup scope (split_byte CHR ''.'' path))
   | None \<Rightarrow> interpolateNode marshal scope n)"

text \<open>\<open>renderNode\<close>; the second function reads the pairs of a mapping, keys as text.\<close>

fun renderNode :: "(scope_value \<Rightarrow> string) \<Rightarrow> (scope_value \<Rightarrow> yaml option) \<Rightarrow> scope_value \<Rightarrow> yaml \<Rightarrow> yaml"
and renderNodes :: "(scope_value \<Rightarrow> string) \<Rightarrow> (scope_value \<Rightarrow> yaml option) \<Rightarrow> scope_value \<Rightarrow> yaml list \<Rightarrow> yaml list"
and renderPairs :: "(scope_value \<Rightarrow> string) \<Rightarrow> (scope_value \<Rightarrow> yaml option) \<Rightarrow> scope_value \<Rightarrow> yaml list \<Rightarrow> yaml list" where
  "renderNode marshal to_node scope (Node k tag v content) =
    (if k = DocumentNode \<or> k = SequenceNode then Node k tag v (renderNodes marshal to_node scope content)
     else if k = MappingNode then Node k tag v (renderPairs marshal to_node scope content)
     else if tag = str_tag then renderValue marshal to_node scope (Node k tag v content)
     else Node k tag v content)"
| "renderNodes marshal to_node scope [] = []"
| "renderNodes marshal to_node scope (n # ns) = renderNode marshal to_node scope n # renderNodes marshal to_node scope ns"
| "renderPairs marshal to_node scope (k # v # ns) =
    interpolateNode marshal scope k # renderNode marshal to_node scope v # renderPairs marshal to_node scope ns"
| "renderPairs marshal to_node scope ns = ns"

definition renderSettings :: "(scope_value \<Rightarrow> string) \<Rightarrow> (scope_value \<Rightarrow> yaml option) \<Rightarrow> scope_value \<Rightarrow> yaml \<Rightarrow> yaml" where
  "renderSettings marshal to_node scope settings = renderNode marshal to_node scope settings"

section \<open>Facts\<close>

text \<open>Settings without references are what they were, whatever the scope holds.\<close>

lemma match_reference_None: "reference_paths (c # cs) = [] \<Longrightarrow> match_reference (c # cs) = None \<and> reference_paths cs = []"
  by (auto simp: reference_paths.simps [of "c # cs"] split: option.splits)

lemma interpolate_none: "reference_paths s = [] \<Longrightarrow> interpolate f s = s"
proof (induction s)
  case (Cons c cs)
  then show ?case using match_reference_None [OF Cons.prems] by (simp add: interpolate.simps [of f "c # cs"])
qed (simp add: interpolate.simps)

lemma reference_paths_drop: "reference_paths s = [] \<Longrightarrow> reference_paths (dropWhile P s) = []"
  by (induction s) (auto dest: match_reference_None)

lemma soleReference_none:
  assumes "reference_paths s = []" shows "soleReference s = None"
proof (cases "dropWhile regex_space s")
  case Nil
  have "match_reference [] = None" by (simp add: match_reference_def has_prefix_def)
  then show ?thesis by (simp only: soleReference_def Nil option.case)
next
  case (Cons c cs)
  then have "match_reference (c # cs) = None" using reference_paths_drop [OF assms] match_reference_None by metis
  then show ?thesis by (simp only: soleReference_def Cons option.case)
qed

text \<open>The parser tags only scalars as strings.\<close>

fun well_tagged :: "yaml \<Rightarrow> bool"
and well_tagged_list :: "yaml list \<Rightarrow> bool" where
  "well_tagged (Node k tag v content) \<longleftrightarrow> (tag = str_tag \<longrightarrow> k = ScalarNode) \<and> well_tagged_list content"
| "well_tagged_list [] \<longleftrightarrow> True"
| "well_tagged_list (n # ns) \<longleftrightarrow> well_tagged n \<and> well_tagged_list ns"

lemma render_without_references:
  "(\<forall>s\<in>set (node_strings n). reference_paths s = []) \<Longrightarrow> well_tagged n \<Longrightarrow> renderNode marshal to_node scope n = n"
  "(\<forall>s\<in>set (node_list_strings ns). reference_paths s = []) \<Longrightarrow> well_tagged_list ns \<Longrightarrow> renderNodes marshal to_node scope ns = ns"
  "(\<forall>s\<in>set (node_list_strings ns). reference_paths s = []) \<Longrightarrow> well_tagged_list ns \<Longrightarrow> renderPairs marshal to_node scope ns = ns"
proof (induction marshal to_node scope n and marshal to_node scope ns and marshal to_node scope ns
    rule: renderNode_renderNodes_renderPairs.induct)
  case (1 marshal to_node scope k tag v content)
  then show ?case
    by (auto simp: renderValue_def interpolateNode_def soleReference_none interpolate_none)
next
  case (4 marshal to_node scope k v ns)
  then show ?case by (cases k) (auto simp: interpolateNode_def interpolate_none)
qed auto

end
