(* ===== verification/Workflow_Collection.thy ===== *)
theory Workflow_Collection
  imports Workflow_Definition
begin

text \<open>
  Whole definitions and the collection an operator saves (\<open>definition.go\<close>, \<open>workflow_call.go\<close>,
  \<open>control_steps.go\<close>): parsing and checking one definition, and the checks that span definitions: calls, call
  results, call cycles, the targets of handoffs and approvals, and model aliases. \<open>decode\<close> stands for the YAML
  decoder that refuses unknown fields.
\<close>

record YAMLDefinition =
  yd_id :: string
  yd_package :: string
  yd_steps :: "StepRecord list"
  yd_interface :: WorkflowInterface

datatype definition_error =
    DefDecode
  | DefNoID
  | DefNoSteps string
  | DefInterface string interface_error
  | DefStep string nat step_error
  | DefDuplicate string
  | DefMismatch string string
  | CallSettings string
  | CallNotDefined string string
  | CallRefused string call_error
  | CallDoesNotWait string string
  | CallNoOutput string string string
  | CallCycle "string list"
  | TargetSettings string
  | TargetNotDefined string
  | TargetNeedsRepository string
  | TargetUndeclares string string
  | TargetRequires string string
  | AliasSettings string string
  | AliasUnknown string string string

section \<open>One definition\<close>

text \<open>The loop of \<open>ParseDefinition\<close>, with the number of the step that fails.\<close>

fun check_numbered :: "codec \<Rightarrow> 'b StepRegistry \<Rightarrow> string \<Rightarrow> nat \<Rightarrow> StepRecord list \<Rightarrow> refScope \<Rightarrow> (nat \<times> step_error) option" where
  "check_numbered cd registry mode n [] earlier = None"
| "check_numbered cd registry mode n (s # ss) earlier = (case checkStep cd registry mode False s earlier of
     Inl e \<Rightarrow> Some (Suc n, e)
   | Inr earlier' \<Rightarrow> check_numbered cd registry mode (Suc n) ss earlier')"

definition ParseDefinition :: "(string \<Rightarrow> YAMLDefinition option) \<Rightarrow> codec \<Rightarrow> 'b StepRegistry \<Rightarrow> string \<Rightarrow> definition_error + YAMLDefinition" where
  "ParseDefinition decode cd registry src = (case decode src of
     None \<Rightarrow> Inl DefDecode
   | Some d \<Rightarrow>
       if blank (yd_id d) then Inl DefNoID
       else if yd_steps d = [] then Inl (DefNoSteps (yd_id d))
       else (case ValidateInterface (yd_interface d) of
           Some e \<Rightarrow> Inl (DefInterface (yd_id d) e)
         | None \<Rightarrow>
             (case check_numbered cd registry (RepositoryMode (yd_interface d)) 0 (yd_steps d)
                     (newRefScope (wi_inputs (yd_interface d))) of
                Some (n, e) \<Rightarrow> Inl (DefStep (yd_id d) n e)
              | None \<Rightarrow> Inr d)))"

definition StageNames :: "(string \<Rightarrow> YAMLDefinition option) \<Rightarrow> string \<Rightarrow> (string list) option" where
  "StageNames unmarshal src = map_option (\<lambda>d. map StageName (yd_steps d)) (unmarshal src)"

definition PackageOf :: "(string \<Rightarrow> string option) \<Rightarrow> string \<Rightarrow> string" where
  "PackageOf unmarshal src = (case unmarshal src of None \<Rightarrow> [] | Some package \<Rightarrow> package)"

definition DefinitionID :: "(string \<Rightarrow> string option) \<Rightarrow> string \<Rightarrow> definition_error + string" where
  "DefinitionID unmarshal src = (case unmarshal src of
     None \<Rightarrow> Inl DefDecode
   | Some i \<Rightarrow> if blank i then Inl DefNoID else Inr i)"

section \<open>Calls\<close>

definition call_steps :: "YAMLDefinition \<Rightarrow> StepRecord list" where
  "call_steps d = filter (\<lambda>s. sr_type s = WorkflowCallStepName) (walkSteps (yd_steps d))"

definition check_call :: "codec \<Rightarrow> YAMLDefinition gomap \<Rightarrow> YAMLDefinition \<Rightarrow> StepRecord \<Rightarrow> definition_error option" where
  "check_call cd parsed d step = (case dec_call cd (sr_settings step) of
     None \<Rightarrow> Some (CallSettings (yd_id d))
   | Some s \<Rightarrow> (case map_of parsed (wc_workflow s) of
       None \<Rightarrow> Some (CallNotDefined (yd_id d) (wc_workflow s))
     | Some callee \<Rightarrow>
         map_option (CallRefused (yd_id d))
           (seq_err (checkCallInputs (yd_interface d) (yd_interface callee) (wc_inputs s))
             (checkCallOutputs (yd_interface d) (yd_interface callee) (wc_outputs s)))))"

record callResult =
  cr_wait :: bool
  cr_outputs :: "OutputSpec gomap"

definition call_results :: "codec \<Rightarrow> YAMLDefinition gomap \<Rightarrow> YAMLDefinition \<Rightarrow> callResult gomap" where
  "call_results cd parsed d =
    fold (\<lambda>step m. case dec_call cd (sr_settings step) of
        None \<Rightarrow> m
      | Some s \<Rightarrow> (case map_of parsed (wc_workflow s) of
          None \<Rightarrow> m
        | Some callee \<Rightarrow>
            if sr_id step = [] then m
            else map_put (sr_id step) \<lparr>cr_wait = wc_wait s, cr_outputs = wi_outputs (yd_interface callee)\<rparr> m))
      (call_steps d) []"

definition check_result_path :: "callResult gomap \<Rightarrow> string \<Rightarrow> definition_error option" where
  "check_result_path results path =
    (let parts = split_byte CHR ''.'' path in
     if length parts < 4 \<or> parts ! 0 \<noteq> ''steps'' \<or> parts ! 2 \<noteq> ''result'' then None
     else (case map_of results (parts ! 1) of
         None \<Rightarrow> None
       | Some call \<Rightarrow>
           guard_err (\<not> cr_wait call) (CallDoesNotWait path (parts ! 1))
           (guard_err (map_of (cr_outputs call) (parts ! 3) = None) (CallNoOutput path (parts ! 1) (parts ! 3)) None)))"

definition checkCallResultReferences :: "YAMLDefinition \<Rightarrow> callResult gomap \<Rightarrow> definition_error option" where
  "checkCallResultReferences d results =
    (if results = [] then None
     else first_error (\<lambda>step.
       seq_err (first_error (check_result_path results) (concat (map reference_paths (node_strings (sr_settings step)))))
         (if sr_when step = [] then None
          else (case parseCondition (sr_when step) of
              Inl _ \<Rightarrow> None
            | Inr c \<Rightarrow> check_result_path results (cn_path c)))) (walkSteps (yd_steps d)))"

text \<open>The workflows each definition calls; a definition without calls has no entry.\<close>

definition collection_calls :: "codec \<Rightarrow> YAMLDefinition gomap \<Rightarrow> call_graph" where
  "collection_calls cd parsed =
    filter (\<lambda>(i, cs). cs \<noteq> [])
      (map (\<lambda>(i, d). (i, map wc_workflow (List.map_filter (\<lambda>s. dec_call cd (sr_settings s)) (call_steps d)))) parsed)"

definition validateWorkflowCalls :: "codec \<Rightarrow> YAMLDefinition gomap \<Rightarrow> definition_error option" where
  "validateWorkflowCalls cd parsed =
    seq_err (first_error (\<lambda>(i, d).
        seq_err (first_error (check_call cd parsed d) (call_steps d))
          (checkCallResultReferences d (call_results cd parsed d))) parsed)
      (map_option CallCycle (refuseCallCycles (collection_calls cd parsed)))"

section \<open>Targets of handoffs and approvals\<close>

definition no_handoff :: handoffSettings where "no_handoff = \<lparr>hs_workflow = [], hs_detail = []\<rparr>"
definition no_approve :: approveSettings where "no_approve = \<lparr>as_plan = [], as_then = []\<rparr>"

text \<open>The target, None for a step of another type; \<open>Inl\<close> when the settings do not decode.\<close>

definition controlTarget :: "codec \<Rightarrow> StepRecord \<Rightarrow> definition_error + string option" where
  "controlTarget cd step =
    (if sr_type step = HandoffStepName
     then (case decodeSettings no_handoff (dec_handoff cd) (sr_settings step) of
         None \<Rightarrow> Inl (TargetSettings (sr_type step)) | Some s \<Rightarrow> Inr (Some (trim_space (hs_workflow s))))
     else if sr_type step = ApproveStepName
     then (case decodeSettings no_approve (dec_approve cd) (sr_settings step) of
         None \<Rightarrow> Inl (TargetSettings (sr_type step)) | Some s \<Rightarrow> Inr (Some (trim_space (as_then s))))
     else Inr None)"

definition source_requires :: "WorkflowInterface \<Rightarrow> string \<Rightarrow> bool" where
  "source_requires source name = (case map_of (wi_inputs source) name of None \<Rightarrow> False | Some spec \<Rightarrow> is_required spec)"

definition checkControlTarget :: "WorkflowInterface \<Rightarrow> YAMLDefinition gomap \<Rightarrow> string \<Rightarrow> definition_error option" where
  "checkControlTarget source parsed target = (case map_of parsed target of
     None \<Rightarrow> Some (TargetNotDefined target)
   | Some d \<Rightarrow>
       (let wi = yd_interface d in
        guard_err (RepositoryMode wi = RepositoryRequired \<and> RepositoryMode source \<noteq> RepositoryRequired) (TargetNeedsRepository target)
        (seq_err (first_error (\<lambda>name. guard_err (map_of (wi_inputs wi) name = None) (TargetUndeclares target name) None)
            (sorted_keys (wi_inputs source)))
          (first_error (\<lambda>name. guard_err (source_requires wi name \<and> \<not> source_requires source name) (TargetRequires target name) None)
            (sorted_keys (wi_inputs wi))))))"

text \<open>The values a templated target can take: the enum of the agent result field it reads; none when it is
  not exactly such a reference or an enum value is not a string.\<close>

definition string_values :: "json list \<Rightarrow> string list" where
  "string_values vs =
    (if list_all (\<lambda>v. case v of JString _ \<Rightarrow> True | _ \<Rightarrow> False) vs
     then map (\<lambda>v. case v of JString s \<Rightarrow> s | _ \<Rightarrow> []) vs else [])"

definition field_enum :: "agentRunSettings \<Rightarrow> string \<Rightarrow> string list" where
  "field_enum s name = (case object_field (ar_result s) ''properties'' of
     None \<Rightarrow> []
   | Some props \<Rightarrow> (case object_field props name of
       None \<Rightarrow> []
     | Some field \<Rightarrow> (case map_of field ''enum'' of Some (JArray vs) \<Rightarrow> string_values vs | _ \<Rightarrow> [])))"

definition targetEnum :: "codec \<Rightarrow> YAMLDefinition \<Rightarrow> string \<Rightarrow> string list" where
  "targetEnum cd d target = (case match_reference (trim_space target) of
     Some (path, []) \<Rightarrow>
       (let parts = split_byte CHR ''.'' path in
        if length parts \<noteq> 4 \<or> parts ! 0 \<noteq> ''steps'' \<or> parts ! 2 \<noteq> ''result'' then []
        else (case findStep (yd_steps d) (parts ! 1) of
            None \<Rightarrow> []
          | Some step \<Rightarrow>
              if sr_type step \<noteq> AgentRunStepName then []
              else (case dec_agent cd (sr_settings step) of None \<Rightarrow> [] | Some s \<Rightarrow> field_enum s (parts ! 3))))
   | _ \<Rightarrow> [])"

definition check_target :: "codec \<Rightarrow> YAMLDefinition gomap \<Rightarrow> YAMLDefinition \<Rightarrow> StepRecord \<Rightarrow> definition_error option" where
  "check_target cd parsed d step = (case controlTarget cd step of
     Inl e \<Rightarrow> Some e
   | Inr None \<Rightarrow> None
   | Inr (Some target) \<Rightarrow>
       if reference_paths target = [] then checkControlTarget (yd_interface d) parsed target
       else first_error (checkControlTarget (yd_interface d) parsed) (targetEnum cd d target))"

definition validateControlTargets :: "codec \<Rightarrow> YAMLDefinition gomap \<Rightarrow> definition_error option" where
  "validateControlTargets cd parsed =
    first_error (\<lambda>(i, d). first_error (check_target cd parsed d) (walkSteps (yd_steps d))) parsed"

section \<open>The collection\<close>

record WorkflowDefinitionEntry =
  we_id :: string
  we_yaml :: string

fun parse_entries :: "(string \<Rightarrow> YAMLDefinition option) \<Rightarrow> codec \<Rightarrow> 'b StepRegistry \<Rightarrow> WorkflowDefinitionEntry list \<Rightarrow> YAMLDefinition gomap
    \<Rightarrow> definition_error + YAMLDefinition gomap" where
  "parse_entries decode cd registry [] parsed = Inr parsed"
| "parse_entries decode cd registry (e # es) parsed =
    (if map_of parsed (we_id e) \<noteq> None then Inl (DefDuplicate (we_id e))
     else (case ParseDefinition decode cd registry (we_yaml e) of
         Inl err \<Rightarrow> Inl err
       | Inr d \<Rightarrow>
           if yd_id d \<noteq> we_id e then Inl (DefMismatch (we_id e) (yd_id d))
           else parse_entries decode cd registry es (parsed @ [(we_id e, d)])))"

definition ValidateDefinitionCollection ::
    "(string \<Rightarrow> YAMLDefinition option) \<Rightarrow> codec \<Rightarrow> 'b StepRegistry \<Rightarrow> WorkflowDefinitionEntry list \<Rightarrow> definition_error option" where
  "ValidateDefinitionCollection decode cd registry entries = (case parse_entries decode cd registry entries [] of
     Inl e \<Rightarrow> Some e
   | Inr parsed \<Rightarrow> seq_err (validateWorkflowCalls cd parsed) (validateControlTargets cd parsed))"

section \<open>Model aliases\<close>

definition checkStepAliases :: "codec \<Rightarrow> string \<Rightarrow> StepRecord list \<Rightarrow> string gomap \<Rightarrow> definition_error option" where
  "checkStepAliases cd workflowID steps aliases =
    first_error (\<lambda>step.
      if sr_type step \<noteq> AgentRunStepName then None
      else (case dec_agent cd (sr_settings step) of
          None \<Rightarrow> Some (AliasSettings workflowID (sr_id step))
        | Some s \<Rightarrow>
            guard_err (ar_model s \<noteq> [] \<and> (case map_of aliases (ar_model s) of None \<Rightarrow> True | Some a \<Rightarrow> a = []))
              (AliasUnknown workflowID (sr_id step) (ar_model s)) None)) (walkSteps steps)"

definition CheckModelAliases ::
    "(string \<Rightarrow> YAMLDefinition option) \<Rightarrow> codec \<Rightarrow> 'b StepRegistry \<Rightarrow> WorkflowDefinitionEntry list \<Rightarrow> string gomap \<Rightarrow> definition_error option" where
  "CheckModelAliases decode cd registry entries aliases =
    first_error (\<lambda>e. case ParseDefinition decode cd registry (we_yaml e) of
        Inl err \<Rightarrow> Some err
      | Inr d \<Rightarrow> checkStepAliases cd (we_id e) (yd_steps d) aliases) entries"

end
