(* ===== verification/Workflow_Engine.thy ===== *)
theory Workflow_Engine
  imports Workflow_References Workflow_Collection
begin

text \<open>
  Running a workflow (\<open>domain/workflow/workflow.go\<close>, \<open>step_flow.go\<close>, \<open>workflow_call.go\<close>, \<open>finish_step.go\<close>,
  \<open>control_steps.go\<close>): the context of a run, stages and their bodies, the controls around a step, parallel
  branches and switch cases, the loop over the stages with its records in the State Store, and how a run
  ends.

  \<^item> A stage body is a function on the run's context and on the world the runs share: the store, the maps of
    written outputs (a map is shared by every context that holds its reference, as in Go), the choices of the
    scheduler, what the reads of a callee return, and whether the run's context is cancelled. Bodies of steps
    other than the control steps are parameters.
  \<^item> A call to the store with a cancelled context fails; otherwise it is the operation of \<open>Task_Store\<close>.
  \<^item> Branches interleave at their stages: before each stage the scheduler chooses an unfinished branch.
  \<^item> An error is its text. The codecs, the texts of errors and the clock are parameters, collected in a record.
    The live bus, logging and the scratch fields only the agent stages use are left out.
\<close>

section \<open>The context of a run\<close>

record Outcome =
  oc_status :: string
  oc_detail :: string

definition no_outcome :: Outcome where "no_outcome = \<lparr>oc_status = [], oc_detail = []\<rparr>"

record TaskContext =
  tc_task :: task_row
  tc_inputs :: "json gomap"
  tc_outputs :: "nat option"
  tc_iface :: WorkflowInterface
  tc_stepResult :: StepResult
  tc_stepResults :: "StepResult gomap"
  tc_skippedWhen :: string
  tc_stage :: string
  tc_stepID :: int
  tc_stepPath :: string
  tc_branch :: string
  tc_outcome :: Outcome

text \<open>A call to the forge; the world keeps the calls made, newest last.\<close>

datatype forge_call = CloseIssue string string int | Comment string string int string

record world =
  w_db :: db
  w_done :: bool
  w_maps :: "json gomap list"
  w_sched :: "nat list"
  w_polls :: "int \<Rightarrow> poll list"
  w_forge :: "forge_call list"

record engine =
  en_scope :: "string option"
  en_texts :: task_texts
  en_marshal :: "scope_value \<Rightarrow> string"
  en_to_node :: "scope_value \<Rightarrow> yaml option"
  en_encode :: "json gomap \<Rightarrow> string"
  en_results :: "StepResult gomap \<Rightarrow> string"
  en_load :: "string \<Rightarrow> StepResult gomap option"
  en_error :: "store_error \<Rightarrow> string"
  en_interface_error :: "interface_error \<Rightarrow> string"
  en_output_error :: "output_error \<Rightarrow> string"
  en_call_error :: "call_error \<Rightarrow> string"
  en_duration :: int
  en_forge :: "forge_call \<Rightarrow> string option"
  en_float_int :: "int \<Rightarrow> int"

type_synonym body = "TaskContext \<Rightarrow> world \<Rightarrow> string option \<times> TaskContext \<times> world"

record Stage =
  sg_name :: string
  sg_continue :: bool
  sg_run :: body

record Workflow =
  wf_name :: string
  wf_stages :: "Stage list"
  wf_interface :: WorkflowInterface

definition quote :: "string \<Rightarrow> string" where
  "quote s = char_of (34::nat) # s @ [char_of (34::nat)]"

section \<open>The store, through the run's context\<close>

definition ctx_error :: string where "ctx_error = ''context canceled''"

definition store_start :: "engine \<Rightarrow> StepStart \<Rightarrow> world \<Rightarrow> (string + int) \<times> world" where
  "store_start en start w =
    (if w_done w then (Inl ctx_error, w)
     else (case StartStep start (w_db w) of
         Inl e \<Rightarrow> (Inl (en_error en e), w)
       | Inr (sid, ev, d) \<Rightarrow> (Inr sid, w\<lparr>w_db := d\<rparr>)))"

text \<open>The same write with a context that is not cancelled with the run's.\<close>

definition store_finish_detached :: "engine \<Rightarrow> StepFinish \<Rightarrow> world \<Rightarrow> string option \<times> world" where
  "store_finish_detached en finish w = (case FinishStep (en_scope en) (en_duration en) finish (w_db w) of
     Inl e \<Rightarrow> (Some (en_error en e), w)
   | Inr (ev, d) \<Rightarrow> (None, w\<lparr>w_db := d\<rparr>))"

definition store_finish :: "engine \<Rightarrow> StepFinish \<Rightarrow> world \<Rightarrow> string option \<times> world" where
  "store_finish en finish w = (if w_done w then (Some ctx_error, w) else store_finish_detached en finish w)"

definition run_outputs :: "TaskContext \<Rightarrow> world \<Rightarrow> json gomap" where
  "run_outputs tc w = (case tc_outputs tc of None \<Rightarrow> [] | Some r \<Rightarrow> w_maps w ! r)"

text \<open>Writing through the reference; a nil map is allocated on the first write.\<close>

definition put_outputs :: "json gomap \<Rightarrow> TaskContext \<Rightarrow> world \<Rightarrow> TaskContext \<times> world" where
  "put_outputs m tc w = (case tc_outputs tc of
     Some r \<Rightarrow> (tc, w\<lparr>w_maps := (w_maps w)[r := m]\<rparr>)
   | None \<Rightarrow> if m = [] then (tc, w)
       else (tc\<lparr>tc_outputs := Some (length (w_maps w))\<rparr>, w\<lparr>w_maps := w_maps w @ [m]\<rparr>))"

definition encoded_row :: "engine \<Rightarrow> TaskContext \<Rightarrow> world \<Rightarrow> task_row" where
  "encoded_row en tc w =
    (let m = run_outputs tc w in (tc_task tc)\<lparr>t_outputs := (if m = [] then [] else en_encode en m)\<rparr>)"

definition store_update :: "engine \<Rightarrow> TaskContext \<Rightarrow> world \<Rightarrow> string option \<times> world" where
  "store_update en tc w =
    (if w_done w then (Some ctx_error, w)
     else (case Update (encoded_row en tc w) (w_db w) of
         Inl e \<Rightarrow> (Some (en_error en e), w)
       | Inr d \<Rightarrow> (None, w\<lparr>w_db := d\<rparr>)))"

definition store_transition :: "engine \<Rightarrow> int \<Rightarrow> string \<Rightarrow> string \<Rightarrow> string \<Rightarrow> world \<Rightarrow> string option \<times> world" where
  "store_transition en i from to detail w =
    (if w_done w then (Some ctx_error, w)
     else (case Transition i from to detail (w_db w) of
         Inl e \<Rightarrow> (Some (en_error en e), w)
       | Inr d \<Rightarrow> (None, w\<lparr>w_db := d\<rparr>)))"

text \<open>\<open>EmitDurable\<close>; its callers only log an error.\<close>

definition emit_durable :: "string \<Rightarrow> string \<Rightarrow> string \<Rightarrow> event_value gomap \<Rightarrow> TaskContext \<Rightarrow> world \<Rightarrow> world" where
  "emit_durable kind stage detail data tc w =
    (if w_done w then w
     else w\<lparr>w_db := snd (insertEventQ (no_event\<lparr>e_kind := kind, e_task := t_id (tc_task tc),
         e_repo := t_owner (tc_task tc) @ ''/'' @ t_repo (tc_task tc), e_issue := t_issue (tc_task tc),
         e_workflow := t_workflow (tc_task tc), e_attempt := t_attempt (tc_task tc), e_stage := stage,
         e_detail := detail, e_data := data\<rparr>) (w_db w))\<rparr>)"

section \<open>Child steps\<close>

definition startChildStep :: "engine \<Rightarrow> string \<Rightarrow> string \<Rightarrow> TaskContext \<Rightarrow> world \<Rightarrow> (string + int) \<times> world" where
  "startChildStep en kind name tc w =
    (if tc_stepID tc = 0 then (Inr 0, w)
     else store_start en \<lparr>ss_execution = t_id (tc_task tc), ss_attempt = t_attempt (tc_task tc),
            ss_parent = tc_stepID tc, ss_kind = kind, ss_name = name, ss_called = 0\<rparr> w)"

definition step_finish :: "int \<Rightarrow> TaskContext \<Rightarrow> string \<Rightarrow> string \<Rightarrow> int \<Rightarrow> string option \<Rightarrow> StepFinish" where
  "step_finish sid tc to detail tokens results =
    \<lparr>sf_step = sid, sf_execution = t_id (tc_task tc), sf_from = StepRunning, sf_to = to, sf_detail = detail,
     sf_tokens = tokens, sf_results = results\<rparr>"

definition finishChildStep :: "engine \<Rightarrow> int \<Rightarrow> string \<Rightarrow> string \<Rightarrow> int \<Rightarrow> TaskContext \<Rightarrow> world \<Rightarrow> string option \<times> world" where
  "finishChildStep en sid to detail tokens tc w =
    (if sid = 0 then (None, w) else store_finish en (step_finish sid tc to detail tokens None) w)"

text \<open>A stage whose condition was false is skipped, an error fails it, anything else succeeds.\<close>

definition stageOutcome :: "string \<Rightarrow> string option \<Rightarrow> string \<times> string" where
  "stageOutcome skippedWhen err =
    (if skippedWhen \<noteq> [] then (StepSkipped, skippedWhen)
     else (case err of Some e \<Rightarrow> (StepFailed, e) | None \<Rightarrow> (StepSucceeded, [])))"

section \<open>The controls around a step\<close>

definition KindStepRetried :: string where "KindStepRetried = ''step_retried''"

fun run_attempts :: "string \<Rightarrow> nat \<Rightarrow> body \<Rightarrow> nat \<Rightarrow> body" where
  "run_attempts name attempts body 0 tc w = (None, tc, w)"
| "run_attempts name attempts body (Suc left) tc w = (case body tc w of
     (None, tc1, w1) \<Rightarrow> (None, tc1, w1)
   | (Some e, tc1, w1) \<Rightarrow>
       if left = 0 then (Some e, tc1, w1)
       else (let attempt = int attempts - int left;
                 w2 = emit_durable KindStepRetried name
                   (''attempt '' @ int_dec attempt @ '' of '' @ int_dec (int attempts) @ '' failed: '' @ e)
                   [(''attempt'', EvInt attempt), (''of'', EvInt (int attempts)), (''error'', EvText e)] tc1 w1
             in if w_done w2 then (Some e, tc1, w2) else run_attempts name attempts body left tc1 w2))"

definition runAttempts :: "string \<Rightarrow> nat \<Rightarrow> body \<Rightarrow> body" where
  "runAttempts name attempts body = run_attempts name attempts body attempts"

definition run_scope :: "engine \<Rightarrow> TaskContext \<Rightarrow> scope_value" where
  "run_scope en tc = referenceScope (en_texts en) (tc_task tc) (tc_inputs tc) (tc_stepResults tc)"

definition step_attempts :: "StepRecord \<Rightarrow> nat" where
  "step_attempts step = (case sr_retry step of None \<Rightarrow> 1 | Some p \<Rightarrow> nat (rp_attempts p))"

definition step_runs :: "engine \<Rightarrow> StepRecord \<Rightarrow> TaskContext \<Rightarrow> bool" where
  "step_runs en step tc \<longleftrightarrow> sr_when step = []
     \<or> (case parseCondition (sr_when step) of
          Inl _ \<Rightarrow> holds (en_marshal en) \<lparr>cn_path = [], cn_negate = False, cn_operator = [], cn_operand = []\<rparr> (run_scope en tc)
        | Inr c \<Rightarrow> holds (en_marshal en) c (run_scope en tc))"

definition wrapStep :: "engine \<Rightarrow> StepRecord \<Rightarrow> body \<Rightarrow> Stage" where
  "wrapStep en step body = \<lparr>sg_name = StageName step, sg_continue = (sr_on_failure step = onFailureContinue),
     sg_run = (\<lambda>tc w.
       let parentPath = tc_stepPath tc;
           tc1 = tc\<lparr>tc_stepPath := joinStepPath parentPath (branchStepName (tc_branch tc) (StageName step)),
                    tc_stepResult := no_result, tc_skippedWhen := []\<rparr>
       in if \<not> step_runs en step tc1 then (None, tc1\<lparr>tc_skippedWhen := sr_when step, tc_stepPath := parentPath\<rparr>, w)
          else (case runAttempts (StageName step) (step_attempts step) body tc1 w of (err, tc2, w2) \<Rightarrow>
            (let tc3 = (if sr_id step \<noteq> []
                        then tc2\<lparr>tc_stepResults := map_put (sr_id step) (tc_stepResult tc2) (tc_stepResults tc2)\<rparr>
                        else tc2)
             in (err, tc3\<lparr>tc_stepPath := parentPath\<rparr>, w2))))\<rparr>"

section \<open>Branches\<close>

text \<open>How a branch records a stage: an error of a cancelled run is an interruption.\<close>

definition branch_outcome :: "string \<Rightarrow> bool \<Rightarrow> string option \<Rightarrow> string \<times> string" where
  "branch_outcome skippedWhen cancelled err = (case err of
     Some e \<Rightarrow> if cancelled then (StepInterrupted, e) else stageOutcome skippedWhen err
   | None \<Rightarrow> stageOutcome skippedWhen err)"

text \<open>The body of the loop of \<open>runBranch\<close>: the result when the branch returns here.\<close>

definition branch_stage :: "engine \<Rightarrow> Stage \<Rightarrow> TaskContext \<Rightarrow> world \<Rightarrow> string option option \<times> TaskContext \<times> world" where
  "branch_stage en stage tc w =
    (case startChildStep en StepKindStage (branchStepName (tc_branch tc) (sg_name stage)) tc w of
       (Inl e, w1) \<Rightarrow> (Some (Some e), tc, w1)
     | (Inr sid, w1) \<Rightarrow> (case sg_run stage (tc\<lparr>tc_stepID := sid\<rparr>) w1 of (err, tc1, w2) \<Rightarrow>
         (let tc2 = tc1\<lparr>tc_stepID := tc_stepID tc\<rparr>;
              (to, detail) = branch_outcome (tc_skippedWhen tc2) (w_done w2) err
          in case finishChildStep en sid to detail 0 tc2 w2 of
               (Some e, w3) \<Rightarrow> (Some (Some e), tc2, w3)
             | (None, w3) \<Rightarrow>
                 if err \<noteq> None \<and> \<not> sg_continue stage then (Some err, tc2, w3)
                 else if oc_status (tc_outcome tc2) \<noteq> [] then (Some None, tc2, w3)
                 else (None, tc2, w3))))"

fun runBranch :: "engine \<Rightarrow> Stage list \<Rightarrow> body" where
  "runBranch en [] tc w = (None, tc, w)"
| "runBranch en (stage # stages) tc w = (case branch_stage en stage tc w of
     (Some result, tc', w') \<Rightarrow> (result, tc', w')
   | (None, tc', w') \<Rightarrow> runBranch en stages tc' w')"

definition clone_branch :: "string \<Rightarrow> TaskContext \<Rightarrow> TaskContext" where
  "clone_branch name tc = tc\<lparr>tc_branch := name, tc_task := (tc_task tc)\<lparr>t_tokens := 0, t_iterations := 0\<rparr>, tc_outcome := no_outcome\<rparr>"

definition join :: "TaskContext \<Rightarrow> TaskContext \<Rightarrow> TaskContext" where
  "join tc clone =
    tc\<lparr>tc_stepResults := fold (\<lambda>(i, r) m. if map_of m i = None then map_put i r m else m) (tc_stepResults clone) (tc_stepResults tc),
       tc_task := (tc_task tc)\<lparr>t_tokens := t_tokens (tc_task tc) + t_tokens (tc_task clone),
         t_iterations := t_iterations (tc_task tc) + t_iterations (tc_task clone)\<rparr>,
       tc_outcome := (if oc_status (tc_outcome tc) = [] then tc_outcome clone else tc_outcome tc)\<rparr>"

text \<open>A branch that is running: its copy of the context, the stages left, and its result once it has one.\<close>

record branch =
  br_tc :: TaskContext
  br_left :: "Stage list"
  br_result :: "string option option"

definition advance :: "engine \<Rightarrow> branch \<Rightarrow> world \<Rightarrow> branch \<times> world" where
  "advance en b w = (case br_left b of
     [] \<Rightarrow> (b\<lparr>br_result := Some None\<rparr>, w)
   | stage # stages \<Rightarrow> (case branch_stage en stage (br_tc b) w of (result, tc', w') \<Rightarrow>
       (b\<lparr>br_tc := tc', br_left := stages, br_result := result\<rparr>, w')))"

definition running_branches :: "branch list \<Rightarrow> nat list" where
  "running_branches bs = filter (\<lambda>k. br_result (bs ! k) = None) [0..<length bs]"

definition next_choice :: "world \<Rightarrow> nat" where
  "next_choice w = (case w_sched w of [] \<Rightarrow> 0 | n # _ \<Rightarrow> n)"

definition branch_work :: "branch list \<Rightarrow> nat" where
  "branch_work bs = sum_list (map (\<lambda>b. if br_result b = None then Suc (length (br_left b)) else 0) bs)"

lemma advance_work:
  assumes "br_result b = None" and "advance en b w = (b', w')"
  shows "(if br_result b' = None then Suc (length (br_left b')) else 0) < Suc (length (br_left b))"
  using assms by (auto simp: advance_def split: list.splits prod.splits)

lemma sum_list_update_less:
  "k < length xs \<Longrightarrow> (f y :: nat) < f (xs ! k) \<Longrightarrow> sum_list (map f (xs[k := y])) < sum_list (map f xs)"
  by (induction xs arbitrary: k) (auto split: nat.splits simp: less_Suc_eq_0_disj)

lemma running_branches_advance:
  assumes ks: "running_branches bs \<noteq> []"
    and adv: "(b', w') = advance en (bs ! (running_branches bs ! (c mod length (running_branches bs)))) w"
  shows "branch_work (bs[running_branches bs ! (c mod length (running_branches bs)) := b']) < branch_work bs"
proof -
  let ?k = "running_branches bs ! (c mod length (running_branches bs))"
  have "?k \<in> set (running_branches bs)" using ks by (intro nth_mem) simp
  then have k: "?k < length bs" "br_result (bs ! ?k) = None" by (auto simp: running_branches_def)
  show ?thesis unfolding branch_work_def
    using advance_work [OF k(2) adv [symmetric]] k by (intro sum_list_update_less) simp_all
qed

function run_branches :: "engine \<Rightarrow> branch list \<Rightarrow> world \<Rightarrow> branch list \<times> world" where
  "run_branches en bs w =
    (let ks = running_branches bs in
     if ks = [] then (bs, w)
     else (let k = ks ! (next_choice w mod length ks) in
       case advance en (bs ! k) (w\<lparr>w_sched := tl (w_sched w)\<rparr>) of (b', w') \<Rightarrow>
         run_branches en (bs[k := b']) w'))"
  by pat_completeness auto
termination
  by (relation "measure (\<lambda>(en, bs, w). branch_work bs)") (auto simp: Let_def intro: running_branches_advance)

declare run_branches.simps [simp del]

definition branch_errors :: "(string \<times> branch) list \<Rightarrow> string list" where
  "branch_errors bs = concat (map (\<lambda>(name, b). case br_result b of
     Some (Some e) \<Rightarrow> [''branch '' @ quote name @ '': '' @ e] | _ \<Rightarrow> []) bs)"

fun join_lines :: "string list \<Rightarrow> string" where
  "join_lines [] = []"
| "join_lines [s] = s"
| "join_lines (s # ss) = s @ [char_of (10::nat)] @ join_lines ss"

text \<open>The body of a parallel step; \<open>errors.Join\<close> of no error is nil.\<close>

definition run_parallel :: "engine \<Rightarrow> (string \<times> Stage list) list \<Rightarrow> body" where
  "run_parallel en arms tc w =
    (case run_branches en (map (\<lambda>(name, stages). \<lparr>br_tc = clone_branch name tc, br_left = stages, br_result = None\<rparr>) arms) w of (bs, w') \<Rightarrow>
      (let errs = branch_errors (zip (map fst arms) bs) in
       (if errs = [] then None else Some (join_lines errs), foldl join tc (map br_tc bs), w')))"

text \<open>The body of a switch: the case of the value, else the default, else nothing, in the run's own context.\<close>

definition run_switch :: "engine \<Rightarrow> string \<Rightarrow> (string \<times> Stage list) list \<Rightarrow> body" where
  "run_switch en on arms tc w =
    (let name = stringify (en_marshal en) (scope_lookup (run_scope en tc) (split_byte CHR ''.'' (trim_space on)));
         (name', stages) = (case map_of arms name of
             Some stages \<Rightarrow> (name, stages)
           | None \<Rightarrow> (switchDefault, case map_of arms switchDefault of None \<Rightarrow> [] | Some stages \<Rightarrow> stages))
     in if stages = [] then (None, tc, w)
        else (case runBranch en stages (tc\<lparr>tc_branch := joinStepPath (tc_branch tc) name'\<rparr>) w of (err, tc', w') \<Rightarrow>
          (err, tc'\<lparr>tc_branch := tc_branch tc\<rparr>, w')))"

section \<open>Compiling\<close>

definition run_typed :: "engine \<Rightarrow> (yaml \<Rightarrow> string + body) \<Rightarrow> StepRecord \<Rightarrow> body" where
  "run_typed en factory step tc w =
    (case factory (renderSettings (en_marshal en) (en_to_node en) (run_scope en tc) (sr_settings step)) of
       Inl e \<Rightarrow> (Some (''step '' @ quote (sr_type step) @ '' settings: '' @ e), tc, w)
     | Inr body \<Rightarrow> body tc w)"

fun compileStep :: "engine \<Rightarrow> body StepRegistry \<Rightarrow> StepRecord \<Rightarrow> string + Stage"
and compile_steps :: "engine \<Rightarrow> body StepRegistry \<Rightarrow> StepRecord list \<Rightarrow> string + Stage list"
and compile_arms :: "engine \<Rightarrow> body StepRegistry \<Rightarrow> string \<Rightarrow> (string \<times> StepRecord list) list \<Rightarrow> string + (string \<times> Stage list) list" where
  "compileStep en registry (StepRecord i ty st w f r par sw) =
    (let step = StepRecord i ty st w f r par sw in
     case sw of
       Some (on, cases) \<Rightarrow> (case compile_arms en registry ''case '' cases of
           Inl e \<Rightarrow> Inl e
         | Inr arms \<Rightarrow> Inr (wrapStep en step (run_switch en on arms)))
     | None \<Rightarrow> (case par of
         Some branches \<Rightarrow> (case compile_arms en registry ''branch '' branches of
             Inl e \<Rightarrow> Inl e
           | Inr arms \<Rightarrow> Inr (wrapStep en step (run_parallel en arms)))
       | None \<Rightarrow> (case registry ty of
           None \<Rightarrow> Inl (''unknown workflow step type '' @ quote ty)
         | Some factory \<Rightarrow> (case factory st of
             Inl e \<Rightarrow> Inl (''build workflow step '' @ quote ty @ '': '' @ e)
           | Inr _ \<Rightarrow> Inr (wrapStep en step (run_typed en factory step))))))"
| "compile_steps en registry [] = Inr []"
| "compile_steps en registry (s # ss) = (case compileStep en registry s of
     Inl e \<Rightarrow> Inl e
   | Inr stage \<Rightarrow> (case compile_steps en registry ss of Inl e \<Rightarrow> Inl e | Inr stages \<Rightarrow> Inr (stage # stages)))"
| "compile_arms en registry kind [] = Inr []"
| "compile_arms en registry kind ((name, ss) # arms) = (case compile_steps en registry ss of
     Inl e \<Rightarrow> Inl (kind @ quote name @ '': '' @ e)
   | Inr stages \<Rightarrow> (case compile_arms en registry kind arms of
       Inl e \<Rightarrow> Inl e
     | Inr compiled \<Rightarrow> Inr ((name, stages) # compiled)))"

definition Compile :: "engine \<Rightarrow> body StepRegistry \<Rightarrow> YAMLDefinition \<Rightarrow> string + Workflow" where
  "Compile en registry d = (case compile_steps en registry (yd_steps d) of
     Inl e \<Rightarrow> Inl e
   | Inr stages \<Rightarrow> Inr \<lparr>wf_name = yd_id d, wf_stages = stages, wf_interface = yd_interface d\<rparr>)"

section \<open>The control steps\<close>

text \<open>\<open>workflow.finish\<close>, \<open>workflow.handoff\<close> and \<open>human.approve\<close>: they set where the task goes next. The notice of an
  approval goes to channels outside the store.\<close>

definition finishStatuses :: "string gomap" where
  "finishStatuses = [(''completed'', Completed), (''parked'', Parked), (''waiting_human'', WaitingHuman), (''declined'', Declined)]"

definition newFinishStage :: "codec \<Rightarrow> yaml \<Rightarrow> string + body" where
  "newFinishStage cd settings = (case decodeSettings \<lparr>fs_status = [], fs_detail = []\<rparr> (dec_finish cd) settings of
     None \<Rightarrow> Inl (FinishStepName @ '': malformed settings'')
   | Some s \<Rightarrow>
       (let status = (if fs_status s = [] then ''completed'' else fs_status s) in
        case map_of finishStatuses status of
          None \<Rightarrow> Inl (FinishStepName @ '': settings.status is completed, parked, waiting_human or declined, not '' @ quote status)
        | Some to \<Rightarrow> Inr (\<lambda>tc w. (None, tc\<lparr>tc_outcome := \<lparr>oc_status = to, oc_detail = fs_detail s\<rparr>\<rparr>, w))))"

definition newHandoffStage :: "codec \<Rightarrow> yaml \<Rightarrow> string + body" where
  "newHandoffStage cd settings = (case decodeSettings no_handoff (dec_handoff cd) settings of
     None \<Rightarrow> Inl (HandoffStepName @ '': malformed settings'')
   | Some s \<Rightarrow>
       if blank (hs_workflow s) then Inl (HandoffStepName @ '': settings.workflow is required'')
       else Inr (\<lambda>tc w. (None, tc\<lparr>tc_task := (tc_task tc)\<lparr>t_workflow := trim_space (hs_workflow s)\<rparr>,
          tc_outcome := \<lparr>oc_status = Queued, oc_detail = hs_detail s\<rparr>\<rparr>, w)))"

definition newApproveStage :: "codec \<Rightarrow> yaml \<Rightarrow> string + body" where
  "newApproveStage cd settings = (case decodeSettings no_approve (dec_approve cd) settings of
     None \<Rightarrow> Inl (ApproveStepName @ '': malformed settings'')
   | Some s \<Rightarrow>
       if blank (as_plan s) \<or> blank (as_then s) then Inl (ApproveStepName @ '': settings.plan and settings.then are required'')
       else Inr (\<lambda>tc w. (None, tc\<lparr>tc_task := (tc_task tc)\<lparr>t_plan := as_plan s, t_workflow := as_then s\<rparr>,
          tc_outcome := \<lparr>oc_status = WaitingHuman, oc_detail = ''plan delivered, awaiting go/no-go''\<rparr>\<rparr>, w)))"

text \<open>The forge steps: a task with no forge issue of its own does nothing. The reply of the forge is a parameter.\<close>

definition EffectivePRNumber :: "engine \<Rightarrow> task_row \<Rightarrow> json gomap \<Rightarrow> int" where
  "EffectivePRNumber en t inputs =
    (if t_pr t \<noteq> 0 then t_pr t
     else (case map_of inputs ''pr_number'' of
         Some (JNumber n) \<Rightarrow> (case atoi n of None \<Rightarrow> 0 | Some i \<Rightarrow> i)
       | Some (JFloat x) \<Rightarrow> en_float_int en x
       | _ \<Rightarrow> 0))"

definition call_forge :: "engine \<Rightarrow> forge_call \<Rightarrow> body" where
  "call_forge en call tc w = (en_forge en call, tc, w\<lparr>w_forge := w_forge w @ [call]\<rparr>)"

definition newCloseIssueStage :: "engine \<Rightarrow> yaml \<Rightarrow> string + body" where
  "newCloseIssueStage en settings = Inr (\<lambda>tc w.
     if \<not> IsForgeBacked (tc_task tc) then (None, tc, w)
     else call_forge en (CloseIssue (t_owner (tc_task tc)) (t_repo (tc_task tc)) (t_issue (tc_task tc))) tc w)"

definition newCommentStage :: "engine \<Rightarrow> codec \<Rightarrow> yaml \<Rightarrow> string + body" where
  "newCommentStage en cd settings = (case decodeSettings \<lparr>cs_body = [], cs_on = []\<rparr> (dec_comment cd) settings of
     None \<Rightarrow> Inl (CommentStepName @ '': malformed settings'')
   | Some s \<Rightarrow>
       if blank (cs_body s) then Inl (CommentStepName @ '': settings.body is required'')
       else if cs_on s \<noteq> [] \<and> cs_on s \<noteq> ''issue'' \<and> cs_on s \<noteq> ''pr''
       then Inl (CommentStepName @ '': settings.on is issue or pr, not '' @ quote (cs_on s))
       else Inr (\<lambda>tc w.
         let number = (if cs_on s = ''pr'' then EffectivePRNumber en (tc_task tc) (tc_inputs tc) else t_issue (tc_task tc))
         in if \<not> IsForgeBacked (tc_task tc) \<or> number = 0 then (None, tc, w)
            else call_forge en (Comment (t_owner (tc_task tc)) (t_repo (tc_task tc)) number (cs_body s)) tc w))"

section \<open>Calling a workflow\<close>

definition KindWorkflowCallStarted :: string where "KindWorkflowCallStarted = ''workflow_call_started''"
definition KindWorkflowCallFinished :: string where "KindWorkflowCallFinished = ''workflow_call_finished''"

definition call_key :: "string \<Rightarrow> string \<Rightarrow> string" where
  "call_key path callee = path @ ''@'' @ callee"

definition call_title :: "string \<Rightarrow> int \<Rightarrow> string" where
  "call_title callee caller = ''workflow.call '' @ callee @ '' from task '' @ int_dec caller"

definition call_body :: "string \<Rightarrow> int \<Rightarrow> string" where
  "call_body callee caller = ''Started by a workflow.call step from task '' @ int_dec caller @ '' (workflow '' @ quote callee
     @ ''); the call'' @ [char_of (39::nat)] @ ''s inputs travel with the task.''"

definition call_failed :: "string \<Rightarrow> string" where
  "call_failed e = WorkflowCallStepName @ '': '' @ e"

text \<open>The record of a call as a child step that holds the callee; it has no guard on the stage's own step.\<close>

definition startCallStep :: "engine \<Rightarrow> string \<Rightarrow> int \<Rightarrow> TaskContext \<Rightarrow> world \<Rightarrow> (string + int) \<times> world" where
  "startCallStep en path callee tc w =
    store_start en \<lparr>ss_execution = t_id (tc_task tc), ss_attempt = t_attempt (tc_task tc), ss_parent = tc_stepID tc,
      ss_kind = StepKindCall, ss_name = path, ss_called = callee\<rparr> w"

text \<open>Closing the call step, and the error the stage then returns.\<close>

definition close_call :: "engine \<Rightarrow> int \<Rightarrow> string \<Rightarrow> string \<Rightarrow> string option \<Rightarrow> TaskContext \<Rightarrow> world \<Rightarrow> string option \<times> TaskContext \<times> world" where
  "close_call en sid to detail result tc w = (case finishChildStep en sid to detail 0 tc w of
     (Some e, w') \<Rightarrow> (Some (call_failed (''could not be closed: '' @ e)), tc, w')
   | (None, w') \<Rightarrow> (result, tc, w'))"

definition finished_text :: "string \<Rightarrow> int \<Rightarrow> string" where
  "finished_text callee i = quote callee @ '' (task '' @ int_dec i @ '') finished''"

text \<open>The wait: \<open>awaitCallee\<close> over the reads of this callee. A read list that runs out, or a cancellation, ends
  the run's context.\<close>

definition await_call :: "engine \<Rightarrow> workflowCallSettings \<Rightarrow> string \<Rightarrow> int \<Rightarrow> TaskContext \<Rightarrow> world \<Rightarrow> (string + json gomap) \<times> world" where
  "await_call en s path i tc w = (case awaitCallee (w_polls w i) of
     None \<Rightarrow> (Inl ctx_error, w\<lparr>w_done := True\<rparr>)
   | Some Cancelled \<Rightarrow> (Inl ctx_error, w\<lparr>w_done := True\<rparr>)
   | Some ReadFailed \<Rightarrow> (Inl (call_failed (''read task '' @ int_dec i)), w)
   | Some (CalleeFailed status detail) \<Rightarrow>
       (Inl (call_failed (''callee '' @ quote (wc_workflow s) @ '' (task '' @ int_dec i @ '') ended '' @ status @ '': '' @ detail)), w)
   | Some (Finished status detail outputs) \<Rightarrow>
       (Inr outputs, emit_durable KindWorkflowCallFinished path (finished_text (wc_workflow s) i @ '': '' @ detail)
          [(''callee_task_id'', EvInt i), (''workflow'', EvText (wc_workflow s)), (''status'', EvText status), (''detail'', EvText detail)] tc w))"

definition finish_call :: "engine \<Rightarrow> workflowCallSettings \<Rightarrow> string \<Rightarrow> int \<Rightarrow> int \<Rightarrow> body" where
  "finish_call en s path i sid tc w = (case await_call en s path i tc w of
     (Inl e, w1) \<Rightarrow>
       if w_done w1 then (Some e, tc, w1) else close_call en sid StepFailed e (Some e) tc w1
   | (Inr calleeOutputs, w1) \<Rightarrow>
       (case publishCalleeOutputs (tc_iface tc) (wc_outputs s) calleeOutputs (run_outputs tc w1) of (m, err) \<Rightarrow>
          (case put_outputs m tc w1 of (tc1, w2) \<Rightarrow>
             (case err of
                Some e \<Rightarrow> close_call en sid StepFailed (en_output_error en e) (Some (en_output_error en e)) tc1 w2
              | None \<Rightarrow>
                  (let result = \<lparr>res_summary = finished_text (wc_workflow s) i, res_result = Some calleeOutputs\<rparr>
                   in close_call en sid StepSucceeded (res_summary result) None (tc1\<lparr>tc_stepResult := result\<rparr>) w2)))))"

text \<open>From the started callee on: the call goes on the timeline, and is closed at once or waited for.\<close>

definition record_call :: "engine \<Rightarrow> workflowCallSettings \<Rightarrow> int \<Rightarrow> body" where
  "record_call en s i tc w =
    (let path = tc_stepPath tc;
         w1 = emit_durable KindWorkflowCallStarted path
           (''started '' @ quote (wc_workflow s) @ '' as task '' @ int_dec i)
           [(''callee_task_id'', EvInt i), (''workflow'', EvText (wc_workflow s)), (''wait'', EvBool (wc_wait s))] tc w
     in case startCallStep en path i tc w1 of
          (Inl e, w2) \<Rightarrow> (Some (call_failed (''could not be recorded: '' @ e)), tc, w2)
        | (Inr sid, w2) \<Rightarrow>
            if \<not> wc_wait s
            then close_call en sid StepSucceeded
              (''started '' @ quote (wc_workflow s) @ '' (task '' @ int_dec i @ ''); no wait'') None tc w2
            else finish_call en s path i sid tc w2)"

definition runWorkflowCall :: "engine \<Rightarrow> workflowCallSettings \<Rightarrow> body" where
  "runWorkflowCall en s tc w =
    (if tc_stepPath tc = [] then (Some (call_failed ''the running step has no declared path, so this call has no key''), tc, w)
     else if t_call_depth (tc_task tc) + 1 > MaxCallDepth
     then (Some (call_failed (''call depth '' @ int_dec (t_call_depth (tc_task tc) + 1) @ '' would pass the limit of '' @ int_dec MaxCallDepth)), tc, w)
     else (case resolveCallInputs (wc_inputs s) (tc_inputs tc) of
         Inl e \<Rightarrow> (Some (call_failed (en_call_error en e)), tc, w)
       | Inr inputs \<Rightarrow>
           if w_done w then (Some (call_failed (''start '' @ quote (wc_workflow s) @ '': '' @ ctx_error)), tc, w)
           else (case StartCall (en_scope en) (t_id (tc_task tc)) (call_key (tc_stepPath tc) (wc_workflow s)) (wc_workflow s)
                   (call_title (wc_workflow s) (t_id (tc_task tc))) (call_body (wc_workflow s) (t_id (tc_task tc)))
                   (if inputs = [] then [] else en_encode en inputs) (w_db w) of
               Inl e \<Rightarrow> (Some (call_failed (''start '' @ quote (wc_workflow s) @ '': '' @ en_error en e)), tc, w)
             | Inr (callee, d) \<Rightarrow> record_call en s (t_id callee) tc (w\<lparr>w_db := d\<rparr>))))"

definition newWorkflowCallStage :: "engine \<Rightarrow> codec \<Rightarrow> yaml \<Rightarrow> string + body" where
  "newWorkflowCallStage en cd settings =
    (let s = (if yn_kind settings = NoNode then None else dec_call cd settings) in
     case check_call_settings s of
       Some e \<Rightarrow> Inl (call_failed (en_call_error en e))
     | None \<Rightarrow> Inr (runWorkflowCall en (the s)))"

text \<open>The step types of this package that need no agent: \<open>ControlStepTypes\<close>, \<open>FinishStepType\<close> and
  \<open>WorkflowCallStepType\<close>.\<close>

definition ControlStepTypes :: "engine \<Rightarrow> codec \<Rightarrow> body StepRegistry" where
  "ControlStepTypes en cd = [HandoffStepName \<mapsto> newHandoffStage cd, ApproveStepName \<mapsto> newApproveStage cd,
     CloseIssueStepName \<mapsto> newCloseIssueStage en, CommentStepName \<mapsto> newCommentStage en cd,
     FinishStepName \<mapsto> newFinishStage cd, WorkflowCallStepName \<mapsto> newWorkflowCallStage en cd]"

section \<open>How a run ends\<close>

definition park :: "engine \<Rightarrow> string \<Rightarrow> TaskContext \<Rightarrow> world \<Rightarrow> TaskContext \<times> world" where
  "park en reason tc w =
    (let tc1 = tc\<lparr>tc_task := (tc_task tc)\<lparr>t_park_reason := reason\<rparr>\<rparr>;
         w1 = snd (store_update en tc1 w)
     in (tc1, snd (store_transition en (t_id (tc_task tc1)) Running Parked reason w1)))"

definition finish :: "engine \<Rightarrow> TaskContext \<Rightarrow> world \<Rightarrow> TaskContext \<times> world" where
  "finish en tc w =
    (if oc_status (tc_outcome tc) = Parked then park en (oc_detail (tc_outcome tc)) tc w
     else (case validateFinishOutputs (tc_iface tc) (run_outputs tc w) of
         Some e \<Rightarrow> park en (en_interface_error en e) tc w
       | None \<Rightarrow> (case store_update en tc w of
           (Some e, w1) \<Rightarrow> park en (''persist workflow outcome: '' @ e) tc w1
         | (None, w1) \<Rightarrow>
             (tc, snd (store_transition en (t_id (tc_task tc)) Running (oc_status (tc_outcome tc)) (oc_detail (tc_outcome tc)) w1)))))"

definition resultsAfter :: "engine \<Rightarrow> Stage \<Rightarrow> string option \<Rightarrow> TaskContext \<Rightarrow> string option" where
  "resultsAfter en stage err tc =
    (if err \<noteq> None \<and> \<not> sg_continue stage then None else Some (en_results en (tc_stepResults tc)))"

definition resumeStages :: "engine \<Rightarrow> Stage list \<Rightarrow> TaskContext \<Rightarrow> string + (Stage list \<times> TaskContext)" where
  "resumeStages en stages tc =
    (let from = t_resume_from (tc_task tc) in
     if from = [] then Inr (stages, tc)
     else (case dropWhile (\<lambda>s. sg_name s \<noteq> from) stages of
         [] \<Rightarrow> Inl (''resume point '' @ quote from @ '' is not a step of this workflow'')
       | rest \<Rightarrow>
           if t_resume_results (tc_task tc) = [] then Inr (rest, tc)
           else (case en_load en (t_resume_results (tc_task tc)) of
               None \<Rightarrow> Inl ''resume results: malformed''
             | Some results \<Rightarrow> Inr (rest, tc\<lparr>tc_stepResults := results\<rparr>))))"

text \<open>\<open>endsRun\<close>: None when the run goes on.\<close>

definition endsRun :: "engine \<Rightarrow> Stage \<Rightarrow> string option \<Rightarrow> TaskContext \<Rightarrow> world \<Rightarrow> (TaskContext \<times> world) option" where
  "endsRun en stage err tc w = (case err of
     Some e \<Rightarrow>
       if sg_continue stage then None
       else Some (park en (''stage '' @ sg_name stage @ '': '' @ e) tc w)
   | None \<Rightarrow> if oc_status (tc_outcome tc) \<noteq> [] then Some (finish en tc w) else None)"

text \<open>The end of a stage in the loop of \<open>Run\<close>: the run ends here, or goes on in the new world. Shutdown is not a
  failure: the step is recorded as interrupted and the task is not parked.\<close>

definition record_stage :: "engine \<Rightarrow> Stage \<Rightarrow> int \<Rightarrow> string option \<Rightarrow> TaskContext \<Rightarrow> world \<Rightarrow> (TaskContext \<times> world) + world" where
  "record_stage en stage sid err tc w =
    (if w_done w \<and> err \<noteq> None
     then Inl (tc, snd (store_finish_detached en (step_finish sid tc StepInterrupted (the err) 0 None) w))
     else (let (to, detail) = stageOutcome (tc_skippedWhen tc) err in
       case store_finish en (step_finish sid tc to detail 0 (resultsAfter en stage err tc)) w of
         (Some e, w1) \<Rightarrow> Inl (park en (''stage '' @ sg_name stage @ '' could not be recorded: '' @ e) tc w1)
       | (None, w1) \<Rightarrow> (case endsRun en stage err tc w1 of Some ended \<Rightarrow> Inl ended | None \<Rightarrow> Inr w1)))"

fun run_stages :: "engine \<Rightarrow> Stage list \<Rightarrow> TaskContext \<Rightarrow> world \<Rightarrow> TaskContext \<times> world" where
  "run_stages en [] tc w =
    finish en (tc\<lparr>tc_outcome := \<lparr>oc_status = Completed, oc_detail = res_summary (tc_stepResult tc)\<rparr>\<rparr>) w"
| "run_stages en (stage # stages) tc0 w =
    (let tc = tc0\<lparr>tc_stage := sg_name stage\<rparr> in
     case store_update en tc w of
       (Some e, w1) \<Rightarrow> park en (''persist task before stage '' @ sg_name stage @ '': '' @ e) tc w1
     | (None, w1) \<Rightarrow>
         (case store_start en \<lparr>ss_execution = t_id (tc_task tc), ss_attempt = t_attempt (tc_task tc), ss_parent = 0,
                  ss_kind = StepKindStage, ss_name = sg_name stage, ss_called = 0\<rparr> w1 of
            (Inl e, w2) \<Rightarrow> park en (''stage '' @ sg_name stage @ '' could not be recorded: '' @ e) tc w2
          | (Inr sid, w2) \<Rightarrow>
              (case sg_run stage (tc\<lparr>tc_stepID := sid\<rparr>) w2 of (err, tc1, w3) \<Rightarrow>
                 (case record_stage en stage sid err tc1 w3 of
                    Inl ended \<Rightarrow> ended
                  | Inr w4 \<Rightarrow> run_stages en stages tc1 w4))))"

text \<open>\<open>Run\<close>; the deferred resets leave no step in the context.\<close>

definition Run :: "engine \<Rightarrow> Workflow \<Rightarrow> TaskContext \<Rightarrow> world \<Rightarrow> TaskContext \<times> world" where
  "Run en flow tc0 w =
    (let tc = tc0\<lparr>tc_task := (tc_task tc0)\<lparr>t_workflow := wf_name flow\<rparr>, tc_iface := wf_interface flow\<rparr> in
     case resumeStages en (wf_stages flow) tc of
       Inl e \<Rightarrow> park en e tc w
     | Inr (stages, tc1) \<Rightarrow> (case run_stages en stages tc1 w of (tc2, w2) \<Rightarrow> (tc2\<lparr>tc_stepID := 0\<rparr>, w2)))"

end
