(* ===== verification/Workflow_Definition_Spec.thy ===== *)
theory Workflow_Definition_Spec
  imports Workflow_Collection Workflow_Call_Spec
begin

text \<open>
  What the checks of a saved definition give a run: in a definition whose branches and cases hold typed steps
  every call site has a path of its own, so a call's key names one call site; deeper nesting escapes the
  check. In a saved collection every call has a callee that takes its inputs, and no chain of calls is longer
  than the collection.
\<close>

section \<open>Call sites\<close>

text \<open>The typed steps with the paths they run under: a branch starts from the branch's own name, a case
  extends the branch it is in.\<close>

fun step_sites :: "string \<Rightarrow> string \<Rightarrow> StepRecord \<Rightarrow> (string \<times> StepRecord) list"
and steps_sites :: "string \<Rightarrow> string \<Rightarrow> StepRecord list \<Rightarrow> (string \<times> StepRecord) list"
and arms_sites :: "string \<Rightarrow> (string \<Rightarrow> string) \<Rightarrow> (string \<times> StepRecord list) list \<Rightarrow> (string \<times> StepRecord) list" where
  "step_sites parent branch (StepRecord i ty st w f r par sw) =
    (let path = joinStepPath parent (branchStepName branch (StageName (StepRecord i ty st w f r par sw))) in
     case sw of
       Some (on, cases) \<Rightarrow> arms_sites path (joinStepPath branch) cases
     | None \<Rightarrow> (case par of
         Some branches \<Rightarrow> arms_sites path (\<lambda>name. name) branches
       | None \<Rightarrow> [(path, StepRecord i ty st w f r par sw)]))"
| "steps_sites parent branch [] = []"
| "steps_sites parent branch (s # ss) = step_sites parent branch s @ steps_sites parent branch ss"
| "arms_sites path inner [] = []"
| "arms_sites path inner ((name, ss) # arms) = steps_sites path (inner name) ss @ arms_sites path inner arms"

definition call_paths :: "StepRecord list \<Rightarrow> string list" where
  "call_paths steps = map fst (filter (\<lambda>(path, s). sr_type s = WorkflowCallStepName) (steps_sites [] [] steps))"

definition typed :: "StepRecord \<Rightarrow> bool" where
  "typed s \<longleftrightarrow> sr_parallel s = None \<and> sr_switch s = None"

definition flat :: "StepRecord \<Rightarrow> bool" where
  "flat s \<longleftrightarrow> (\<forall>(name, ss)\<in>set (step_branches s). \<forall>t\<in>set ss. typed t)"

text \<open>The ids of the typed steps of a step and of its arms.\<close>

definition site_ids :: "(string \<times> StepRecord) list \<Rightarrow> string list" where
  "site_ids sites = filter (\<lambda>i. i \<noteq> []) (map (sr_id \<circ> snd) sites)"

lemma site_ids_simps [simp]:
  "site_ids [] = []" "site_ids (xs @ ys) = site_ids xs @ site_ids ys"
  "site_ids ((p, s) # xs) = (if sr_id s = [] then site_ids xs else sr_id s # site_ids xs)"
  by (simp_all add: site_ids_def)

abbreviation scope_ids :: "refScope \<Rightarrow> string set" where
  "scope_ids s \<equiv> dom (map_of (sc_steps s))"

lemma typed_sites: "typed s \<Longrightarrow> step_sites parent branch s = [(joinStepPath parent (branchStepName branch (StageName s)), s)]"
  by (cases s) (auto simp: typed_def Let_def)

lemma fold_map_put: "dom (map_of (fold (\<lambda>(i, v) m. map_put i v m) kvs m)) = dom (map_of m) \<union> fst ` set kvs"
  by (induction kvs arbitrary: m) auto

lemma declare_ids_dom [simp]: "scope_ids (declare_ids declared s) = scope_ids s \<union> dom (map_of declared)"
  by (simp add: declare_ids_def fold_map_put) (simp add: dom_map_of_conv_image_fst)

lemma declare_step_dom [simp]:
  "dom (map_of (declare_step cd s declared)) = dom (map_of declared) \<union> (if sr_id s = [] then {} else {sr_id s})"
  by (auto simp: declare_step_def)

text \<open>What an accepted step went through.\<close>

lemma checkStep_accepted:
  assumes "checkStep cd registry mode inBranch s earlier = Inr after"
  shows "checkStepID (sr_id s) earlier = None"
    and "\<exists>declared. after = (declare_ids declared earlier)\<lparr>sc_steps := declare_step cd s (sc_steps (declare_ids declared earlier))\<rparr>
      \<and> (typed s \<longrightarrow> declared = [])
      \<and> (\<not> typed s \<longrightarrow> (\<exists>b ne. check_arms cd registry mode b ne (step_branches s) earlier [] = Inr declared))"
    and "typed s \<longrightarrow> checkTypedStep cd registry mode inBranch s earlier = None"
proof -
  obtain i ty st w f r par sw where s: "s = StepRecord i ty st w f r par sw" by (cases s)
  let ?arms = "case sw of
             Some (on, cases) \<Rightarrow> (case switch_form s on (length cases) earlier of
                 Some e \<Rightarrow> Inl e
               | None \<Rightarrow> check_arms cd registry mode inBranch case_name_error cases earlier [])
           | None \<Rightarrow> (case par of
               Some branches \<Rightarrow> (case parallel_form s inBranch (length branches) of
                   Some e \<Rightarrow> Inl e
                 | None \<Rightarrow> check_arms cd registry mode True branch_name_error branches earlier [])
             | None \<Rightarrow> (case checkTypedStep cd registry mode inBranch s earlier of
                   Some e \<Rightarrow> Inl e
                 | None \<Rightarrow> Inr []))"
  have eq: "checkStep cd registry mode inBranch s earlier =
      (case seq_err (checkStepID i earlier) (checkStepControls s earlier) of
         Some e \<Rightarrow> Inl e
       | None \<Rightarrow> (case ?arms of Inl e \<Rightarrow> Inl e | Inr declared \<Rightarrow>
             (let after = declare_ids declared earlier in Inr (after\<lparr>sc_steps := declare_step cd s (sc_steps after)\<rparr>))))"
    unfolding s by (simp only: checkStep.simps Let_def)
  have ok: "seq_err (checkStepID i earlier) (checkStepControls s earlier) = None"
    using assms unfolding eq by (simp split: option.splits)
  then show "checkStepID (sr_id s) earlier = None" unfolding s by simp
  obtain declared where d: "?arms = Inr declared"
    and after: "after = (declare_ids declared earlier)\<lparr>sc_steps := declare_step cd s (sc_steps (declare_ids declared earlier))\<rparr>"
    using assms unfolding eq ok by (simp add: Let_def split: sum.splits)
  show "typed s \<longrightarrow> checkTypedStep cd registry mode inBranch s earlier = None"
    using d unfolding s by (auto simp: typed_def split: option.splits)
  have "typed s \<Longrightarrow> declared = []" using d unfolding s by (auto simp: typed_def split: option.splits)
  moreover have "\<exists>b ne. check_arms cd registry mode b ne (step_branches s) earlier [] = Inr declared" if "\<not> typed s"
    using d that unfolding s by (auto simp: typed_def step_branches_def split: option.splits prod.splits)
  ultimately show "\<exists>declared. after = (declare_ids declared earlier)\<lparr>sc_steps := declare_step cd s (sc_steps (declare_ids declared earlier))\<rparr>
      \<and> (typed s \<longrightarrow> declared = [])
      \<and> (\<not> typed s \<longrightarrow> (\<exists>b ne. check_arms cd registry mode b ne (step_branches s) earlier [] = Inr declared))"
    using after by blast
qed

text \<open>A step that is accepted has an id of its own, and leaves it in the scope.\<close>

lemma checkStep_scope:
  assumes "checkStep cd registry mode inBranch s earlier = Inr after"
  shows "sr_id s \<notin> scope_ids earlier \<or> sr_id s = []"
    and "scope_ids earlier \<subseteq> scope_ids after" and "sr_id s = [] \<or> sr_id s \<in> scope_ids after"
proof -
  show "sr_id s \<notin> scope_ids earlier \<or> sr_id s = []"
    using checkStep_accepted(1) [OF assms] by (auto simp: checkStepID_def scope_has_def split: if_splits)
  from checkStep_accepted(2) [OF assms] obtain declared where
    "after = (declare_ids declared earlier)\<lparr>sc_steps := declare_step cd s (sc_steps (declare_ids declared earlier))\<rparr>" by blast
  then show "scope_ids earlier \<subseteq> scope_ids after" "sr_id s = [] \<or> sr_id s \<in> scope_ids after" by auto
qed

lemma untyped_sites:
  "\<not> typed s \<Longrightarrow> \<exists>inner. step_sites parent branch s =
     arms_sites (joinStepPath parent (branchStepName branch (StageName s))) inner (step_branches s)"
  by (cases s) (auto simp: typed_def step_branches_def Let_def split: option.splits)

lemma check_arm_ids:
  assumes "check_arm cd registry mode inBranch name n ss seen declared = Inr declared'" "list_all typed ss"
  shows "distinct (site_ids (steps_sites parent branch ss)) \<and> set (site_ids (steps_sites parent branch ss)) \<inter> (scope_ids seen \<union> dom (map_of declared)) = {}
    \<and> dom (map_of declared') = dom (map_of declared) \<union> set (site_ids (steps_sites parent branch ss))"
  using assms
proof (induction ss arbitrary: n seen declared)
  case (Cons s ss)
  obtain seen' where s: "checkStep cd registry mode inBranch s seen = Inr seen'"
    and new: "sr_id s = [] \<or> map_of declared (sr_id s) = None"
    and rest: "check_arm cd registry mode inBranch name (Suc n) ss seen' (declare_step cd s declared) = Inr declared'"
    using Cons.prems(1) by (auto split: if_splits sum.splits)
  note ih = Cons.IH [OF rest] and sc = checkStep_scope [OF s]
  show ?case using ih Cons.prems(2) sc new by (auto simp: typed_sites domIff)
qed simp

lemma check_arms_ids:
  assumes "check_arms cd registry mode inBranch name_error arms earlier declared = Inr declared'"
    and "\<forall>(name, ss)\<in>set arms. \<forall>t\<in>set ss. typed t"
  shows "distinct (site_ids (arms_sites path inner arms))
    \<and> set (site_ids (arms_sites path inner arms)) \<inter> (scope_ids earlier \<union> dom (map_of declared)) = {}
    \<and> dom (map_of declared') = dom (map_of declared) \<union> set (site_ids (arms_sites path inner arms))"
  using assms
proof (induction arms arbitrary: declared)
  case (Cons arm arms)
  obtain name ss where arm: "arm = (name, ss)" by (cases arm)
  from Cons.prems arm obtain mid where
      a: "check_arm cd registry mode inBranch name 0 ss earlier declared = Inr mid"
    and rest: "check_arms cd registry mode inBranch name_error arms earlier mid = Inr declared'"
    by (auto split: option.splits sum.splits)
  have "list_all typed ss" using Cons.prems(2) arm by (auto simp: list_all_iff)
  note one = check_arm_ids [OF a this, of path "inner name"]
  have "\<forall>(name, ss)\<in>set arms. \<forall>t\<in>set ss. typed t" using Cons.prems(2) by auto
  note ih = Cons.IH [OF rest this]
  show ?case unfolding arm arms_sites.simps site_ids_simps set_append distinct_append
    using one ih by blast
qed simp

lemma checkStep_ids:
  assumes "checkStep cd registry mode inBranch s earlier = Inr after" "flat s"
  shows "distinct (site_ids (step_sites parent branch s)) \<and> set (site_ids (step_sites parent branch s)) \<inter> scope_ids earlier = {}
    \<and> scope_ids earlier \<union> set (site_ids (step_sites parent branch s)) \<subseteq> scope_ids after"
proof (cases "typed s")
  case True
  then show ?thesis using checkStep_scope [OF assms(1)] by (auto simp: typed_sites)
next
  case False
  let ?path = "joinStepPath parent (branchStepName branch (StageName s))"
  obtain inner where sites: "step_sites parent branch s = arms_sites ?path inner (step_branches s)"
    using untyped_sites [OF False] by blast
  obtain declared b ne where chk: "check_arms cd registry mode b ne (step_branches s) earlier [] = Inr declared"
    and after: "after = (declare_ids declared earlier)\<lparr>sc_steps := declare_step cd s (sc_steps (declare_ids declared earlier))\<rparr>"
    using checkStep_accepted(2) [OF assms(1)] False by blast
  have "\<forall>(name, ss)\<in>set (step_branches s). \<forall>t\<in>set ss. typed t" using assms(2) by (simp add: flat_def)
  from check_arms_ids [OF chk this, of ?path inner] show ?thesis unfolding sites after by auto
qed

section \<open>Every call site has a path of its own\<close>

lemma check_numbered_ids:
  assumes "check_numbered cd registry mode n ss earlier = None" "list_all flat ss"
  shows "distinct (site_ids (steps_sites parent branch ss)) \<and> set (site_ids (steps_sites parent branch ss)) \<inter> scope_ids earlier = {}"
  using assms
proof (induction ss arbitrary: n earlier)
  case (Cons s ss)
  then obtain after where s: "checkStep cd registry mode False s earlier = Inr after"
    and rest: "check_numbered cd registry mode (Suc n) ss after = None" by (auto split: sum.splits)
  have "flat s" "list_all flat ss" using Cons.prems(2) by simp_all
  note one = checkStep_ids [OF s \<open>flat s\<close>, of parent branch] and ih = Cons.IH [OF rest \<open>list_all flat ss\<close>]
  show ?case unfolding steps_sites.simps site_ids_simps set_append distinct_append using one ih by blast
qed simp

text \<open>Every typed step, however deep, was checked.\<close>

lemma checked_sites:
  "\<forall>b e a. checkStep cd registry mode b s e = Inr a \<longrightarrow>
      (\<forall>(p, t)\<in>set (step_sites parent branch s). \<exists>b e a. checkStep cd registry mode b t e = Inr a)"
  "\<forall>b name n seen decl decl'. check_arm cd registry mode b name n ss seen decl = Inr decl' \<longrightarrow>
      (\<forall>(p, t)\<in>set (steps_sites parent branch ss). \<exists>b e a. checkStep cd registry mode b t e = Inr a)"
  "\<forall>b ne e decl decl'. check_arms cd registry mode b ne arms e decl = Inr decl' \<longrightarrow>
      (\<forall>(p, t)\<in>set (arms_sites path inner arms). \<exists>b e a. checkStep cd registry mode b t e = Inr a)"
proof (induction parent branch s and parent branch ss and path inner arms rule: step_sites_steps_sites_arms_sites.induct)
  case (1 parent branch i ty st w f r par sw)
  let ?s = "StepRecord i ty st w f r par sw"
  show ?case
  proof (cases "typed ?s")
    case True
    then show ?thesis by (simp only: typed_sites) auto
  next
    case False
    show ?thesis
    proof (intro allI impI)
      fix b e a assume "checkStep cd registry mode b ?s e = Inr a"
      then obtain declared b' ne where chk: "check_arms cd registry mode b' ne (step_branches ?s) e [] = Inr declared"
        using checkStep_accepted(2) False by blast
      show "\<forall>(p, t)\<in>set (step_sites parent branch ?s). \<exists>b e a. checkStep cd registry mode b t e = Inr a"
      proof (cases sw)
        case None
        with False obtain branches where par: "par = Some branches" by (auto simp: typed_def)
        have "step_branches ?s = branches" by (simp add: step_branches_def None par)
        with chk 1(1) [OF refl None par] show ?thesis by (simp add: None par Let_def) blast
      next
        case (Some oc)
        obtain on cs where oc: "oc = (on, cs)" by (cases oc)
        have "step_branches ?s = cs" by (simp add: step_branches_def Some oc)
        with chk 1(2) [OF refl Some oc [symmetric]] show ?thesis by (simp add: Some oc Let_def) blast
      qed
    qed
  qed
next
  case (3 parent branch s ss)
  show ?case
  proof (intro allI impI)
    fix b name n seen decl decl' assume "check_arm cd registry mode b name n (s # ss) seen decl = Inr decl'"
    then obtain seen' where "checkStep cd registry mode b s seen = Inr seen'"
      "check_arm cd registry mode b name (Suc n) ss seen' (declare_step cd s decl) = Inr decl'"
      by (auto split: if_splits sum.splits)
    with 3 show "\<forall>(p, t)\<in>set (steps_sites parent branch (s # ss)). \<exists>b e a. checkStep cd registry mode b t e = Inr a"
      unfolding steps_sites.simps set_append ball_Un by blast
  qed
next
  case (5 path inner name ss arms)
  show ?case
  proof (intro allI impI)
    fix b ne e decl decl' assume "check_arms cd registry mode b ne ((name, ss) # arms) e decl = Inr decl'"
    then obtain mid where m: "check_arm cd registry mode b name 0 ss e decl = Inr mid"
      "check_arms cd registry mode b ne arms e mid = Inr decl'" by (auto split: option.splits sum.splits)
    show "\<forall>(p, t)\<in>set (arms_sites path inner ((name, ss) # arms)). \<exists>b e a. checkStep cd registry mode b t e = Inr a"
      unfolding arms_sites.simps set_append ball_Un
      using 5(1) [rule_format, OF m(1)] 5(2) [rule_format, OF m(2)] by fast
  qed
qed auto

lemma stable_rest_chars: "stable_rest sep cs \<Longrightarrow> CHR ''/'' \<notin> set cs"
  by (induction sep cs rule: stable_rest.induct) (auto simp: is_lower_def is_digit_def byte_of_def split: if_splits)

lemma Valid_no_slash: "Valid i \<Longrightarrow> CHR ''/'' \<notin> set i"
  by (auto simp: Valid_def is_lower_def byte_of_def dest: stable_rest_chars split: list.splits)

text \<open>The last segment of a path.\<close>

definition last_segment :: "string \<Rightarrow> string" where
  "last_segment p = rev (takeWhile (\<lambda>c. c \<noteq> CHR ''/'') (rev p))"

lemma last_segment_append: "CHR ''/'' \<notin> set i \<Longrightarrow> last_segment (p @ CHR ''/'' # i) = i"
  by (auto simp: last_segment_def takeWhile_append)

lemma last_segment_self: "CHR ''/'' \<notin> set i \<Longrightarrow> last_segment i = i"
proof -
  assume "CHR ''/'' \<notin> set i"
  then have "takeWhile (\<lambda>c. c \<noteq> CHR ''/'') (rev i) = rev i" by (intro takeWhile_eq_all_conv [THEN iffD2]) auto
  then show ?thesis by (simp only: last_segment_def rev_rev_ident)
qed

lemma last_segment_path:
  assumes i: "CHR ''/'' \<notin> set i" shows "last_segment (joinStepPath parent (branchStepName branch i)) = i"
proof -
  have "last_segment (p @ CHR ''/'' # b @ CHR ''/'' # i) = i" for p b
    using last_segment_append [OF i, of "p @ CHR ''/'' # b"] by simp
  then show ?thesis using i by (simp add: joinStepPath_def branchStepName_def last_segment_append last_segment_self)
qed

lemma sites_path:
  "(p, t) \<in> set (step_sites parent branch s) \<Longrightarrow> typed t \<and> (\<exists>q b. p = joinStepPath q (branchStepName b (StageName t)))"
  "(p, t) \<in> set (steps_sites parent branch ss) \<Longrightarrow> typed t \<and> (\<exists>q b. p = joinStepPath q (branchStepName b (StageName t)))"
  "(p, t) \<in> set (arms_sites path inner arms) \<Longrightarrow> typed t \<and> (\<exists>q b. p = joinStepPath q (branchStepName b (StageName t)))"
  by (induction parent branch s and parent branch ss and path inner arms rule: step_sites_steps_sites_arms_sites.induct)
    (auto simp: Let_def typed_def split: option.splits; blast)+

lemma distinct_map_filtered:
  assumes "distinct (filter N (map g xs))" and "\<And>x. x \<in> set xs \<Longrightarrow> P x \<Longrightarrow> N (g x) \<and> g x = h (f x)"
  shows "distinct (map f (filter P xs))"
  using assms
proof (induction xs)
  case (Cons x xs)
  have "distinct (filter N (map g xs))" using Cons.prems(1) by (simp split: if_splits)
  then have ih: "distinct (map f (filter P xs))" using Cons.IH Cons.prems(2) by (meson list.set_intros(2))
  show ?case
  proof (cases "P x")
    case True
    with Cons.prems(2) [of x] Cons.prems(1) have x: "g x = h (f x)" "g x \<notin> g ` set xs" by auto
    have "f y \<noteq> f x" if "y \<in> set xs" "P y" for y
      using Cons.prems(2) [of y] x that by (metis image_eqI list.set_intros(2))
    then have "f x \<notin> f ` set (filter P xs)" by fastforce
    with ih True show ?thesis by simp
  qed (use ih in simp)
qed simp

text \<open>In an accepted definition whose branches and cases hold typed steps, no two call sites have the same
  path, and so no two have the same key.\<close>

theorem call_paths_distinct:
  assumes ok: "check_numbered cd registry mode 0 steps (newRefScope inputs) = None" and "list_all flat steps"
  shows "distinct (call_paths steps)"
proof -
  have sites: "sr_type t = WorkflowCallStepName \<longrightarrow> sr_id t \<noteq> [] \<and> Valid (sr_id t) \<and> StageName t = sr_id t"
    if "(p, t) \<in> set (steps_sites [] [] ss)" and "check_numbered cd registry mode n ss e = None" for p t ss n e
    using that
  proof (induction ss arbitrary: n e)
    case (Cons s ss)
    then obtain e' where s: "checkStep cd registry mode False s e = Inr e'"
      and rest: "check_numbered cd registry mode (Suc n) ss e' = None" by (auto split: sum.splits)
    show ?case
    proof (cases "(p, t) \<in> set (step_sites [] [] s)")
      case True
      then obtain b e a where c: "checkStep cd registry mode b t e = Inr a"
        using checked_sites(1) s by blast
      moreover have "typed t" using sites_path(1) [OF True] by simp
      ultimately show ?thesis
        using checkStep_accepted(1,3) [OF c] by (auto simp: checkStepID_def checkTypedStep_def StageName_def split: option.splits)
    next
      case False
      with Cons rest show ?thesis by auto
    qed
  qed simp
  show ?thesis unfolding call_paths_def
  proof (rule distinct_map_filtered [where N = "\<lambda>i. i \<noteq> []" and g = "sr_id \<circ> snd" and h = last_segment])
    show "distinct (filter (\<lambda>i. i \<noteq> []) (map (sr_id \<circ> snd) (steps_sites [] [] steps)))"
      using check_numbered_ids [OF assms, of "[]" "[]"] by (simp add: site_ids_def)
  next
    fix x assume "x \<in> set (steps_sites [] [] steps)" "case x of (path, s) \<Rightarrow> sr_type s = WorkflowCallStepName"
    moreover obtain p t where "x = (p, t)" by (cases x)
    ultimately have x: "x = (p, t)" "(p, t) \<in> set (steps_sites [] [] steps)" "sr_type t = WorkflowCallStepName" by auto
    with sites [OF x(2) ok] sites_path(2) [OF x(2)] show "(sr_id \<circ> snd) x \<noteq> [] \<and> (sr_id \<circ> snd) x = last_segment (fst x)"
      by (auto simp: last_segment_path Valid_no_slash)
  qed
qed

text \<open>A call inside a case inside a case.\<close>

definition nested_call :: "yaml \<Rightarrow> StepRecord" where
  "nested_call settings =
    (let call = StepRecord ''c'' WorkflowCallStepName settings [] [] None None None;
         inner = StepRecord [] [] no_settings [] [] None None (Some (''task.kind'', [(''y'', [call])]))
     in StepRecord [] [] no_settings [] [] None None (Some (''task.kind'', [(''x'', [inner])])))"

text \<open>Deeper nesting escapes the check: a definition in which a call is nested in two unnamed switches, twice,
  is accepted, although both calls have the id c and both run under one path. Their key is the same, so
  the second call is given the child of the first.\<close>

theorem nested_calls_share_path:
  "check_numbered cd (\<lambda>ty. if ty = WorkflowCallStepName then Some (\<lambda>_. Inr ()) else None) RepositoryNone 0
     [nested_call no_settings, nested_call no_settings] (newRefScope []) = None
   \<and> call_paths [nested_call no_settings, nested_call no_settings] = [''switch/x/switch/x/y/c'', ''switch/x/switch/x/y/c'']"
proof -
  have trim: "trim_space ''task.kind'' = ''task.kind''"
    by (rule trim_space_visible) (simp add: ascii_visible_def byte_of_def)
  have v: "Valid ''c''" by (simp add: Valid_def is_lower_def byte_of_def)
  show ?thesis
    by (simp add: nested_call_def Let_def checkStep.simps checkStepID_def checkStepControls_def switch_form_def trim
        case_name_error_def checkReference_def taskFields_def checkTypedStep_def v scope_has_def newRefScope_def no_settings_def
        go_string_simps NeedsRepository_def repoFreeStepTypes_def checkReferences_def declare_step_def declare_ids_def
        call_paths_def joinStepPath_def branchStepName_def StageName_def resultFields_def)
qed

section \<open>A saved collection\<close>

text \<open>One workflow of a parsed collection calls another.\<close>

definition calls_workflow :: "codec \<Rightarrow> YAMLDefinition gomap \<Rightarrow> string \<Rightarrow> string \<Rightarrow> bool" where
  "calls_workflow cd parsed a b \<longleftrightarrow> (\<exists>d step s. map_of parsed a = Some d \<and> step \<in> set (call_steps d)
     \<and> dec_call cd (sr_settings step) = Some s \<and> wc_workflow s = b)"

lemma parse_entries_parsed:
  assumes "parse_entries decode cd registry es parsed = Inr parsed'"
    and "distinct (map fst parsed)" "\<forall>(i, d)\<in>set parsed. yd_id d = i"
  shows "distinct (map fst parsed') \<and> map fst parsed' = map fst parsed @ map we_id es \<and> (\<forall>(i, d)\<in>set parsed'. yd_id d = i)"
  using assms
proof (induction decode cd registry es parsed rule: parse_entries.induct)
  case (2 decode cd registry e es parsed)
  have new: "map_of parsed (we_id e) = None" using 2(2) by (metis Inl_Inr_False parse_entries.simps(2))
  with 2(2) obtain d where d: "ParseDefinition decode cd registry (we_yaml e) = Inr d" "yd_id d = we_id e"
    and rest: "parse_entries decode cd registry es (parsed @ [(we_id e, d)]) = Inr parsed'"
    by (auto split: if_splits sum.splits)
  have "we_id e \<notin> fst ` set parsed" using new by (simp add: map_of_eq_None_iff)
  then have "distinct (map fst parsed') \<and> map fst parsed' = map fst (parsed @ [(we_id e, d)]) @ map we_id es
      \<and> (\<forall>(i, d)\<in>set parsed'. yd_id d = i)"
    using 2(3,4) d(2) new by (intro 2(1) [OF _ d(1) _ rest]) simp_all
  note r = this [THEN conjunct1] this [THEN conjunct2, THEN conjunct1] this [THEN conjunct2, THEN conjunct2]
  have "map fst parsed' = map fst parsed @ map we_id (e # es)" using r(2) by simp
  with r(1,3) show ?case by (intro conjI)
qed simp

lemma map_of_filter_keys:
  "distinct (map fst m) \<Longrightarrow> map_of (filter P m) a = (case map_of m a of None \<Rightarrow> None | Some v \<Rightarrow> if P (a, v) then Some v else None)"
proof (induction m)
  case (Cons p m)
  then show ?case by (cases "fst p = a") (auto simp: map_of_eq_None_iff split: option.splits)
qed simp

lemma collection_edges:
  assumes "distinct (map fst parsed)"
  shows "calls_workflow cd parsed a b \<longleftrightarrow> (a, b) \<in> call_edges (collection_calls cd parsed)"
proof -
  let ?cs = "\<lambda>d. map wc_workflow (List.map_filter (\<lambda>s. dec_call cd (sr_settings s)) (call_steps d))"
  have "distinct (map fst (map (\<lambda>(i, d). (i, ?cs d)) parsed))" using assms by (simp add: comp_def case_prod_beta)
  from map_of_filter_keys [OF this]
  have "map_of (collection_calls cd parsed) a =
      (case map_of parsed a of None \<Rightarrow> None | Some d \<Rightarrow> if ?cs d = [] then None else Some (?cs d))"
    unfolding collection_calls_def by (simp add: map_of_map split: option.splits)
  then have "b \<in> set (callees (collection_calls cd parsed) a) \<longleftrightarrow> (\<exists>d. map_of parsed a = Some d \<and> b \<in> set (?cs d))"
    by (simp add: callees_def split: option.splits)
  then show ?thesis by (force simp: calls_workflow_def call_edges_def List.map_filter_def)
qed

lemma acyclic_chain_distinct:
  assumes "acyclic E" and "successively (\<lambda>a b. (a, b) \<in> E) chain"
  shows "distinct chain"
  using assms(2)
proof (induction chain)
  case (Cons x xs)
  have reach: "(x, y) \<in> E\<^sup>+" if "successively (\<lambda>a b. (a, b) \<in> E) (x # xs)" "y \<in> set xs" for x y xs
    using that by (induction xs arbitrary: x) (auto intro: trancl_into_trancl2)
  show ?case using Cons reach [of x xs x] assms(1) by (cases xs) (auto simp: acyclic_def)
qed simp

text \<open>C22: In a collection that was saved every entry is known by its own id, every call names a workflow of
  the collection whose declared inputs and outputs it fits, and no chain of calls, from any workflow, is longer
  than the number of workflows or comes back to one it passed.\<close>

theorem saved_calls_end:
  assumes "ValidateDefinitionCollection decode cd registry entries = None"
  shows "\<exists>parsed. parse_entries decode cd registry entries [] = Inr parsed
    \<and> map fst parsed = map we_id entries \<and> distinct (map fst parsed) \<and> (\<forall>(i, d)\<in>set parsed. yd_id d = i)
    \<and> (\<forall>(i, d)\<in>set parsed. \<forall>step\<in>set (call_steps d). \<exists>s callee. dec_call cd (sr_settings step) = Some s
        \<and> map_of parsed (wc_workflow s) = Some callee
        \<and> checkCallInputs (yd_interface d) (yd_interface callee) (wc_inputs s) = None
        \<and> checkCallOutputs (yd_interface d) (yd_interface callee) (wc_outputs s) = None)
    \<and> (\<forall>chain. successively (calls_workflow cd parsed) chain \<and> set chain \<subseteq> set (map we_id entries)
        \<longrightarrow> distinct chain \<and> length chain \<le> length entries)"
proof -
  from assms obtain parsed where p: "parse_entries decode cd registry entries [] = Inr parsed"
    and calls: "validateWorkflowCalls cd parsed = None"
    by (auto simp: ValidateDefinitionCollection_def split: sum.splits)
  have keys: "distinct (map fst parsed)" "map fst parsed = map we_id entries" "\<forall>(i, d)\<in>set parsed. yd_id d = i"
    using parse_entries_parsed [OF p, simplified] by blast+
  have one: "\<forall>(i, d)\<in>set parsed. \<forall>step\<in>set (call_steps d). check_call cd parsed d step = None"
    and acyc: "refuseCallCycles (collection_calls cd parsed) = None"
    using calls unfolding validateWorkflowCalls_def by auto
  have "\<forall>(i, d)\<in>set parsed. \<forall>step\<in>set (call_steps d). \<exists>s callee. dec_call cd (sr_settings step) = Some s
        \<and> map_of parsed (wc_workflow s) = Some callee
        \<and> checkCallInputs (yd_interface d) (yd_interface callee) (wc_inputs s) = None
        \<and> checkCallOutputs (yd_interface d) (yd_interface callee) (wc_outputs s) = None"
    using one by (fastforce simp: check_call_def split: option.splits)
  moreover have "distinct chain \<and> length chain \<le> length entries"
    if chain: "successively (calls_workflow cd parsed) chain" "set chain \<subseteq> set (map we_id entries)" for chain
  proof -
    have "acyclic (call_edges (collection_calls cd parsed))"
      using refuseCallCycles_exact [of "collection_calls cd parsed"] acyc by simp
    moreover have "successively (\<lambda>a b. (a, b) \<in> call_edges (collection_calls cd parsed)) chain"
      using chain(1) by (simp add: collection_edges [OF keys(1), symmetric])
    ultimately have d: "distinct chain" by (rule acyclic_chain_distinct)
    moreover have "length chain \<le> length entries"
      using card_mono [OF _ chain(2)] card_length [of "map we_id entries"] distinct_card [OF d] by simp
    ultimately show ?thesis by simp
  qed
  ultimately show ?thesis using p keys by blast
qed

section \<open>A collection of two workflows\<close>

definition call_step :: "string \<Rightarrow> StepRecord" where
  "call_step i = StepRecord i WorkflowCallStepName no_settings [] [] None None None"

definition only_calls :: "unit StepRegistry" where
  "only_calls ty = (if ty = WorkflowCallStepName \<or> ty = FinishStepName then Some (\<lambda>_. Inr ()) else None)"

definition calls_b :: codec where
  "calls_b = \<lparr>dec_agent = (\<lambda>_. None), dec_call = (\<lambda>_. Some \<lparr>wc_workflow = ''b'', wc_inputs = [], wc_wait = True, wc_outputs = []\<rparr>),
     dec_handoff = (\<lambda>_. None), dec_approve = (\<lambda>_. None), dec_finish = (\<lambda>_. None), dec_comment = (\<lambda>_. None)\<rparr>"

definition plain_definition :: "string \<Rightarrow> StepRecord list \<Rightarrow> YAMLDefinition" where
  "plain_definition i steps = \<lparr>yd_id = i, yd_package = [], yd_steps = steps,
     yd_interface = \<lparr>wi_inputs = [], wi_repository = RepositoryNone, wi_outputs = [], wi_profile = [], wi_identity = [],
        wi_needs = \<lparr>wn_captures = False, wn_gate_retries = 0\<rparr>\<rparr>\<rparr>"

definition two_sources :: "string \<Rightarrow> YAMLDefinition option" where
  "two_sources src = Some (if src = ''a'' then plain_definition ''a'' [call_step ''c'', call_step ''d'']
     else plain_definition ''b'' [StepRecord [] FinishStepName no_settings [] [] None None None])"

lemmas definition_simps = checkStep.simps checkStepID_def checkStepControls_def
  checkTypedStep_def scope_has_def newRefScope_def no_settings_def go_string_simps NeedsRepository_def repoFreeStepTypes_def
  checkReferences_def declare_step_def declare_ids_def resultFields_def
  call_step_def only_calls_def

lemma Valid_cd: "Valid ''c''" "Valid ''d''"
  by (simp_all add: Valid_def is_lower_def byte_of_def)

theorem call_paths_distinct_witness:
  "distinct (call_paths [call_step ''c'', call_step ''d'']) \<and> length (call_paths [call_step ''c'', call_step ''d'']) = 2"
proof -
  have "check_numbered calls_b only_calls RepositoryNone 0 [call_step ''c'', call_step ''d''] (newRefScope []) = None"
    by (simp add: definition_simps Valid_cd)
  moreover have "list_all flat [call_step ''c'', call_step ''d'']" by (simp add: flat_def call_step_def step_branches_def)
  ultimately have "distinct (call_paths [call_step ''c'', call_step ''d''])" by (rule call_paths_distinct)
  then show ?thesis by (simp add: call_paths_def call_step_def)
qed

theorem saved_calls_end_witness:
  "(let entries = [\<lparr>we_id = ''a'', we_yaml = ''a''\<rparr>, \<lparr>we_id = ''b'', we_yaml = ''b''\<rparr>]
    in ValidateDefinitionCollection two_sources calls_b only_calls entries = None
      \<and> (\<exists>parsed. parse_entries two_sources calls_b only_calls entries [] = Inr parsed
           \<and> (\<forall>chain. successively (calls_workflow calls_b parsed) chain \<and> set chain \<subseteq> {''a'', ''b''} \<longrightarrow> length chain \<le> 2)))"
proof -
  let ?entries = "[\<lparr>we_id = ''a'', we_yaml = ''a''\<rparr>, \<lparr>we_id = ''b'', we_yaml = ''b''\<rparr>]"
  have nb: "\<not> blank ''a''" "\<not> blank ''b''"
    by (simp_all add: not_blank_visible ascii_visible_def byte_of_def)
  have p: "parse_entries two_sources calls_b only_calls ?entries [] =
      Inr [(''a'', plain_definition ''a'' [call_step ''c'', call_step ''d'']),
        (''b'', plain_definition ''b'' [StepRecord [] FinishStepName no_settings [] [] None None None])]"
    by (simp add: ParseDefinition_def two_sources_def plain_definition_def nb ValidateInterface_def RepositoryMode_def
        definition_simps Valid_cd)
  have "validateWorkflowCalls calls_b
      [(''a'', plain_definition ''a'' [call_step ''c'', call_step ''d'']),
        (''b'', plain_definition ''b'' [StepRecord [] FinishStepName no_settings [] [] None None None])] = None"
    by (simp add: validateWorkflowCalls_def call_steps_def plain_definition_def call_step_def go_string_simps check_call_def
       calls_b_def checkCallInputs_def checkCallOutputs_def checkCallResultReferences_def call_results_def no_settings_def
       collection_calls_def List.map_filter_def refuseCallCycles_def workflow_names_def sorted_keys_def callees_def)
  moreover have "validateControlTargets calls_b
      [(''a'', plain_definition ''a'' [call_step ''c'', call_step ''d'']),
        (''b'', plain_definition ''b'' [StepRecord [] FinishStepName no_settings [] [] None None None])] = None"
    by (simp add: validateControlTargets_def plain_definition_def call_step_def go_string_simps check_target_def controlTarget_def)
  ultimately have ok: "ValidateDefinitionCollection two_sources calls_b only_calls ?entries = None"
    by (simp only: ValidateDefinitionCollection_def p sum.case seq_err_None)
  from saved_calls_end [OF ok] obtain parsed where q: "parse_entries two_sources calls_b only_calls ?entries [] = Inr parsed"
    and c: "\<forall>chain. successively (calls_workflow calls_b parsed) chain \<and> set chain \<subseteq> set (map we_id ?entries)
        \<longrightarrow> distinct chain \<and> length chain \<le> length ?entries" by blast
  have "\<forall>chain. successively (calls_workflow calls_b parsed) chain \<and> set chain \<subseteq> {''a'', ''b''} \<longrightarrow> length chain \<le> 2"
    using c by (simp add: numeral_2_eq_2)
  with ok q show ?thesis unfolding Let_def by blast
qed

end
