(* ===== verification/Workflow_Engine_Spec.thy ===== *)
theory Workflow_Engine_Spec
  imports Workflow_Engine Workflow_Definition_Spec Task_Store_Recovery
begin

text \<open>
  What running a workflow guarantees. A locale holds what the engine's combinators need of an invariant of the
  run: it survives the writes the engine makes between bodies, and the token that stands for the open steps is
  returned when a step is closed. Inside it every combinator keeps the invariant when the bodies do. Two
  interpretations follow: the run's store is a history of store operations, and the run leaves its task settled
  and no step of its own open.
\<close>

section \<open>What a body keeps\<close>

abbreviation run_id :: "TaskContext \<Rightarrow> int" where
  "run_id tc \<equiv> t_id (tc_task tc)"

locale stage_rules =
  fixes en :: engine
    and inv :: "int \<Rightarrow> 's \<Rightarrow> world \<Rightarrow> bool"
    and opened :: "int \<Rightarrow> int \<Rightarrow> 's \<Rightarrow> 's \<Rightarrow> bool"
    and ok :: "string \<Rightarrow> bool"
  assumes ok_none: "ok []"
    and start_fails: "inv i S w \<Longrightarrow> store_start en st w = (Inl e, w') \<Longrightarrow> inv i S w'"
    and start_opens: "inv i S w \<Longrightarrow> ss_execution st = i \<Longrightarrow> store_start en st w = (Inr sid, w') \<Longrightarrow>
          sid \<noteq> 0 \<and> (\<exists>S'. opened i sid S S' \<and> inv i S' w')"
    and finish_closes: "inv i S' w \<Longrightarrow> opened i sid S S' \<Longrightarrow> sf_step f = sid \<Longrightarrow> sf_execution f = i \<Longrightarrow> sf_from f = StepRunning \<Longrightarrow>
          sf_to f \<in> {StepSucceeded, StepFailed, StepSkipped, StepInterrupted} \<Longrightarrow> store_finish en f w = (r, w') \<Longrightarrow> inv i S w'"
    and emits: "inv i S w \<Longrightarrow> inv i S (emit_durable kind stage detail data tc w)"
    and schedules: "inv i S w \<Longrightarrow> inv i S (w\<lparr>w_sched := choices\<rparr>)"
begin

definition keeps :: "body \<Rightarrow> bool" where
  "keeps body \<longleftrightarrow> (\<forall>tc w err tc' w' S. inv (run_id tc) S w \<longrightarrow> ok (oc_status (tc_outcome tc)) \<longrightarrow> body tc w = (err, tc', w') \<longrightarrow>
     run_id tc' = run_id tc \<and> inv (run_id tc) S w' \<and> ok (oc_status (tc_outcome tc')))"

lemma keepsD:
  "keeps body \<Longrightarrow> inv (run_id tc) S w \<Longrightarrow> ok (oc_status (tc_outcome tc)) \<Longrightarrow> body tc w = (err, tc', w') \<Longrightarrow>
    run_id tc' = run_id tc \<and> inv (run_id tc) S w' \<and> ok (oc_status (tc_outcome tc'))"
  unfolding keeps_def by blast

lemma run_attempts_keeps:
  assumes "keeps body" shows "keeps (run_attempts name attempts body left)"
proof (induction left)
  case 0
  show ?case by (simp add: keeps_def)
next
  case (Suc left)
  show ?case unfolding keeps_def
  proof (intro allI impI)
    fix tc w err tc' w' S
    assume i: "inv (run_id tc) S w" "ok (oc_status (tc_outcome tc))"
      and run: "run_attempts name attempts body (Suc left) tc w = (err, tc', w')"
    obtain e tc1 w1 where b: "body tc w = (e, tc1, w1)" by (cases "body tc w") auto
    note k = keepsD [OF assms i b]
    show "run_id tc' = run_id tc \<and> inv (run_id tc) S w' \<and> ok (oc_status (tc_outcome tc'))"
    proof (cases e)
      case None
      with run b k show ?thesis by simp
    next
      case (Some msg)
      let ?w2 = "emit_durable KindStepRetried name (''attempt '' @ int_dec (int attempts - int left) @ '' of '' @ int_dec (int attempts) @ '' failed: '' @ msg)
          [(''attempt'', EvInt (int attempts - int left)), (''of'', EvInt (int attempts)), (''error'', EvText msg)] tc1 w1"
      have "inv (run_id tc1) S ?w2" using k emits by simp
      then show ?thesis
        using run b k Some keepsD [OF Suc.IH, of tc1 S ?w2 err tc' w'] by (auto simp: Let_def split: if_splits)
    qed
  qed
qed

lemma wrapStep_keeps:
  assumes "keeps body" shows "keeps (sg_run (wrapStep en' step body))"
  unfolding keeps_def
proof (intro allI impI)
  fix tc w err tc' w' S
  assume i: "inv (run_id tc) S w" "ok (oc_status (tc_outcome tc))"
    and run: "sg_run (wrapStep en' step body) tc w = (err, tc', w')"
  let ?tc1 = "tc\<lparr>tc_stepPath := joinStepPath (tc_stepPath tc) (branchStepName (tc_branch tc) (StageName step)),
                tc_stepResult := no_result, tc_skippedWhen := []\<rparr>"
  obtain e tc2 w2 where b: "runAttempts (StageName step) (step_attempts step) body ?tc1 w = (e, tc2, w2)"
    by (cases "runAttempts (StageName step) (step_attempts step) body ?tc1 w") auto
  have "run_id tc2 = run_id tc \<and> inv (run_id tc) S w2 \<and> ok (oc_status (tc_outcome tc2))"
    using keepsD [OF run_attempts_keeps [OF assms] _ _ b [unfolded runAttempts_def], of S] i by simp
  with run b i show "run_id tc' = run_id tc \<and> inv (run_id tc) S w' \<and> ok (oc_status (tc_outcome tc'))"
    by (auto simp: wrapStep_def Let_def split: if_splits)
qed

lemma child_start:
  assumes i: "inv (run_id tc) S w" and st: "startChildStep en kind name tc w = (r, w1)"
  shows "case r of Inl e \<Rightarrow> inv (run_id tc) S w1
    | Inr sid \<Rightarrow> if sid = 0 then inv (run_id tc) S w1 else (\<exists>S'. opened (run_id tc) sid S S' \<and> inv (run_id tc) S' w1)"
proof (cases "tc_stepID tc = 0")
  case True
  with i st show ?thesis by (auto simp: startChildStep_def)
next
  case False
  let ?start = "\<lparr>ss_execution = run_id tc, ss_attempt = t_attempt (tc_task tc), ss_parent = tc_stepID tc, ss_kind = kind,
      ss_name = name, ss_called = 0\<rparr>"
  from False st have "store_start en ?start w = (r, w1)" by (simp add: startChildStep_def)
  with start_fails [OF i, of ?start] start_opens [OF i, of ?start] show ?thesis by (cases r) auto
qed

text \<open>One stage of a branch opens a step, runs its body and closes the step.\<close>

lemma branch_stage_keeps:
  assumes b: "keeps (sg_run stage)" and i: "inv (run_id tc) S w" "ok (oc_status (tc_outcome tc))"
    and run: "branch_stage en stage tc w = (result, tc', w')"
  shows "run_id tc' = run_id tc \<and> inv (run_id tc) S w' \<and> ok (oc_status (tc_outcome tc'))"
proof -
  obtain r w1 where st: "startChildStep en StepKindStage (branchStepName (tc_branch tc) (sg_name stage)) tc w = (r, w1)"
    by (cases "startChildStep en StepKindStage (branchStepName (tc_branch tc) (sg_name stage)) tc w") auto
  show ?thesis
  proof (cases r)
    case (Inl e)
    with child_start [OF i(1) st] have "inv (run_id tc) S w1" by simp
    with run st Inl i show ?thesis by (simp add: branch_stage_def)
  next
    case (Inr sid)
    obtain err tc1 w2 where bd: "sg_run stage (tc\<lparr>tc_stepID := sid\<rparr>) w1 = (err, tc1, w2)"
      by (cases "sg_run stage (tc\<lparr>tc_stepID := sid\<rparr>) w1") auto
    let ?tc2 = "tc1\<lparr>tc_stepID := tc_stepID tc\<rparr>"
    obtain to detail where o: "branch_outcome (tc_skippedWhen tc1) (w_done w2) err = (to, detail)" by (metis surj_pair)
    have to: "to \<in> {StepSucceeded, StepFailed, StepSkipped, StepInterrupted}"
      using o by (auto simp: branch_outcome_def stageOutcome_def split: option.splits if_splits)
    obtain fe w3 where f: "finishChildStep en sid to detail 0 ?tc2 w2 = (fe, w3)" by (cases "finishChildStep en sid to detail 0 ?tc2 w2") auto
    have ret: "tc' = ?tc2 \<and> w' = w3"
      using run by (auto simp: branch_stage_def st Inr bd Let_def o f split: option.splits if_splits)
    have "run_id tc1 = run_id tc \<and> inv (run_id tc) S w3 \<and> ok (oc_status (tc_outcome tc1))"
    proof (cases "sid = 0")
      case True
      with child_start [OF i(1) st] Inr have "inv (run_id tc) S w1" by simp
      with keepsD [OF b _ _ bd, of S] i f True show ?thesis by (auto simp: finishChildStep_def)
    next
      case False
      with child_start [OF i(1) st] Inr obtain S' where S': "opened (run_id tc) sid S S'" "inv (run_id tc) S' w1" by auto
      then have k: "run_id tc1 = run_id tc \<and> inv (run_id tc) S' w2 \<and> ok (oc_status (tc_outcome tc1))"
        using keepsD [OF b _ _ bd, of S'] i by simp
      have "inv (run_id tc) S w3"
        by (rule finish_closes [of "run_id tc" S' w2 sid S "step_finish sid ?tc2 to detail 0 None" fe])
          (use k S' to f False in \<open>auto simp: finishChildStep_def step_finish_def\<close>)
      with k show ?thesis by simp
    qed
    with ret show ?thesis by simp
  qed
qed

lemma runBranch_keeps:
  assumes "list_all (\<lambda>s. keeps (sg_run s)) stages" shows "keeps (runBranch en stages)"
  using assms
proof (induction stages)
  case Nil
  show ?case by (simp add: keeps_def)
next
  case (Cons stage stages)
  then have b: "keeps (sg_run stage)" and ih: "keeps (runBranch en stages)" by simp_all
  show ?case unfolding keeps_def
  proof (intro allI impI)
    fix tc w err tc' w' S
    assume i: "inv (run_id tc) S w" "ok (oc_status (tc_outcome tc))" and run: "runBranch en (stage # stages) tc w = (err, tc', w')"
    obtain r tc1 w1 where st: "branch_stage en stage tc w = (r, tc1, w1)" by (cases "branch_stage en stage tc w") auto
    note k = branch_stage_keeps [OF b i st]
    from run st have "case r of Some e \<Rightarrow> tc' = tc1 \<and> w' = w1 | None \<Rightarrow> runBranch en stages tc1 w1 = (err, tc', w')"
      by (auto split: option.splits)
    with k keepsD [OF ih, of tc1 S w1 err tc' w'] show "run_id tc' = run_id tc \<and> inv (run_id tc) S w' \<and> ok (oc_status (tc_outcome tc'))"
      by (auto split: option.splits)
  qed
qed

text \<open>Branches, in whatever order they are scheduled.\<close>

definition branch_ok :: "int \<Rightarrow> branch \<Rightarrow> bool" where
  "branch_ok i b \<longleftrightarrow> run_id (br_tc b) = i \<and> ok (oc_status (tc_outcome (br_tc b))) \<and> list_all (\<lambda>s. keeps (sg_run s)) (br_left b)"

lemma advance_keeps:
  assumes "branch_ok i b" "inv i S w" "advance en b w = (b', w')"
  shows "branch_ok i b' \<and> inv i S w'"
proof (cases "br_left b")
  case Nil
  with assms show ?thesis by (auto simp: advance_def branch_ok_def)
next
  case (Cons stage stages)
  obtain r tc1 w1 where st: "branch_stage en stage (br_tc b) w = (r, tc1, w1)" by (cases "branch_stage en stage (br_tc b) w") auto
  have "keeps (sg_run stage)" "list_all (\<lambda>s. keeps (sg_run s)) stages" using assms(1) Cons by (simp_all add: branch_ok_def)
  with branch_stage_keeps [OF this(1) _ _ st, of S] assms Cons st show ?thesis by (auto simp: advance_def branch_ok_def)
qed

lemma run_branches_keeps:
  assumes "list_all (branch_ok i) bs" "inv i S w" "run_branches en bs w = (bs', w')"
  shows "list_all (branch_ok i) bs' \<and> inv i S w' \<and> length bs' = length bs"
  using assms
proof (induction "branch_work bs" arbitrary: bs w rule: less_induct)
  case less
  show ?case
  proof (cases "running_branches bs = []")
    case True
    with less.prems show ?thesis by (simp add: run_branches.simps [of en bs w])
  next
    case False
    define k where "k = running_branches bs ! (next_choice w mod length (running_branches bs))"
    obtain b' w1 where adv: "advance en (bs ! k) (w\<lparr>w_sched := tl (w_sched w)\<rparr>) = (b', w1)"
      by (cases "advance en (bs ! k) (w\<lparr>w_sched := tl (w_sched w)\<rparr>)") auto
    have "k \<in> set (running_branches bs)" unfolding k_def using False by (intro nth_mem) simp
    then have k: "k < length bs" by (simp add: running_branches_def)
    have a: "branch_ok i b' \<and> inv i S w1"
      using less.prems k by (intro advance_keeps [OF _ _ adv] schedules) (auto simp: list_all_length)
    have rest: "run_branches en (bs[k := b']) w1 = (bs', w')"
      using less.prems(3) False adv by (simp add: run_branches.simps [of en bs w] k_def [symmetric] Let_def)
    have "branch_work (bs[k := b']) < branch_work bs"
      using running_branches_advance [OF False adv [unfolded k_def, symmetric]] by (simp add: k_def)
    moreover have "list_all (branch_ok i) (bs[k := b'])"
      using a less.prems(1) set_update_subset_insert [of bs k b'] by (auto simp: list_all_iff)
    ultimately show ?thesis using less.hyps [OF _ _ _ rest] a by simp
  qed
qed

text \<open>The join of branches whose task and outcome are the run's.\<close>

lemma join_keeps:
  "run_id (join tc c) = run_id tc" "ok (oc_status (tc_outcome tc)) \<Longrightarrow> ok (oc_status (tc_outcome c)) \<Longrightarrow> ok (oc_status (tc_outcome (join tc c)))"
  by (simp_all add: join_def)

lemma foldl_join_keeps:
  "list_all (\<lambda>c. ok (oc_status (tc_outcome c))) cs \<Longrightarrow> ok (oc_status (tc_outcome tc)) \<Longrightarrow>
    run_id (foldl join tc cs) = run_id tc \<and> ok (oc_status (tc_outcome (foldl join tc cs)))"
  by (induction cs arbitrary: tc) (simp_all add: join_keeps)

lemma run_parallel_keeps:
  assumes "list_all (\<lambda>(name, stages). list_all (\<lambda>s. keeps (sg_run s)) stages) arms"
  shows "keeps (run_parallel en arms)"
  unfolding keeps_def
proof (intro allI impI)
  fix tc w err tc' w' S
  assume i: "inv (run_id tc) S w" "ok (oc_status (tc_outcome tc))" and run: "run_parallel en arms tc w = (err, tc', w')"
  let ?bs = "map (\<lambda>(name, stages). \<lparr>br_tc = clone_branch name tc, br_left = stages, br_result = None\<rparr>) arms"
  obtain bs w1 where r: "run_branches en ?bs w = (bs, w1)" by (cases "run_branches en ?bs w")
  have "list_all (branch_ok (run_id tc)) ?bs"
    using assms by (auto simp: list_all_iff branch_ok_def clone_branch_def no_outcome_def ok_none)
  from run_branches_keeps [OF this i(1) r] have k: "list_all (branch_ok (run_id tc)) bs" "inv (run_id tc) S w1" by simp_all
  have "list_all (\<lambda>c. ok (oc_status (tc_outcome c))) (map br_tc bs)" using k(1) by (auto simp: list_all_iff branch_ok_def)
  from foldl_join_keeps [OF this i(2)] k(2) run r
  show "run_id tc' = run_id tc \<and> inv (run_id tc) S w' \<and> ok (oc_status (tc_outcome tc'))"
    by (auto simp: run_parallel_def Let_def)
qed

lemma run_switch_keeps:
  assumes "list_all (\<lambda>(name, stages). list_all (\<lambda>s. keeps (sg_run s)) stages) arms"
  shows "keeps (run_switch en on arms)"
  unfolding keeps_def
proof (intro allI impI)
  fix tc w err tc' w' S
  assume i: "inv (run_id tc) S w" "ok (oc_status (tc_outcome tc))" and run: "run_switch en on arms tc w = (err, tc', w')"
  have arm: "keeps (runBranch en stages)" if "map_of arms name = Some stages" for name stages
    using map_of_SomeD [OF that] assms by (intro runBranch_keeps) (auto simp: list_all_iff)
  have go: "run_id tc' = run_id tc \<and> inv (run_id tc) S w' \<and> ok (oc_status (tc_outcome tc'))"
    if k: "keeps (runBranch en stages)"
      and r: "(case runBranch en stages (tc\<lparr>tc_branch := b\<rparr>) w of (err, tc', w') \<Rightarrow> (err, tc'\<lparr>tc_branch := tc_branch tc\<rparr>, w')) = (err, tc', w')"
    for stages b
  proof -
    obtain e tc1 w1 where rb: "runBranch en stages (tc\<lparr>tc_branch := b\<rparr>) w = (e, tc1, w1)"
      by (cases "runBranch en stages (tc\<lparr>tc_branch := b\<rparr>) w") auto
    from keepsD [OF k _ _ rb, of S] i r rb show ?thesis by auto
  qed
  define name where "name = stringify (en_marshal en) (scope_lookup (run_scope en tc) (split_byte CHR ''.'' (trim_space on)))"
  obtain chosen stages where c: "(case map_of arms name of Some stages \<Rightarrow> (name, stages)
      | None \<Rightarrow> (switchDefault, case map_of arms switchDefault of None \<Rightarrow> [] | Some stages \<Rightarrow> stages)) = (chosen, stages)"
    by (metis surj_pair)
  have "stages = [] \<or> keeps (runBranch en stages)" using c arm by (auto split: option.splits)
  with run i show "run_id tc' = run_id tc \<and> inv (run_id tc) S w' \<and> ok (oc_status (tc_outcome tc'))"
    using go [of stages "joinStepPath (tc_branch tc) chosen"]
    by (auto simp: run_switch_def Let_def name_def [symmetric] c split: if_splits)
qed

text \<open>A compiled definition keeps the invariant when the bodies its factories build do.\<close>

definition registry_keeps :: "body StepRegistry \<Rightarrow> bool" where
  "registry_keeps registry \<longleftrightarrow> (\<forall>ty factory settings body. registry ty = Some factory \<longrightarrow> factory settings = Inr body \<longrightarrow> keeps body)"

lemma run_typed_keeps:
  assumes "registry_keeps registry" "registry ty = Some factory" shows "keeps (run_typed en factory step)"
  unfolding keeps_def
proof (intro allI impI)
  fix tc w err tc' w' S
  assume i: "inv (run_id tc) S w" "ok (oc_status (tc_outcome tc))" and run: "run_typed en factory step tc w = (err, tc', w')"
  show "run_id tc' = run_id tc \<and> inv (run_id tc) S w' \<and> ok (oc_status (tc_outcome tc'))"
  proof (cases "factory (renderSettings (en_marshal en) (en_to_node en) (run_scope en tc) (sr_settings step))")
    case (Inl e)
    with run i show ?thesis by (auto simp: run_typed_def)
  next
    case (Inr body)
    then have "keeps body" using assms unfolding registry_keeps_def by blast
    from keepsD [OF this i] run Inr show ?thesis by (simp add: run_typed_def)
  qed
qed

lemma compile_keeps:
  assumes reg: "registry_keeps registry"
  shows "\<forall>stage. compileStep en registry s = Inr stage \<longrightarrow> keeps (sg_run stage)"
    and "\<forall>stages. compile_steps en registry ss = Inr stages \<longrightarrow> list_all (\<lambda>s. keeps (sg_run s)) stages"
    and "\<forall>kind compiled. compile_arms en registry kind arms = Inr compiled \<longrightarrow> list_all (\<lambda>(name, stages). list_all (\<lambda>s. keeps (sg_run s)) stages) compiled"
proof (induction s and ss and arms rule: walk_step_walkSteps_walk_arms.induct)
  case (1 i ty st w f r par sw)
  note IH = 1
  show ?case
  proof (intro allI impI)
    fix stage assume c: "compileStep en registry (StepRecord i ty st w f r par sw) = Inr stage"
    consider on cases where "sw = Some (on, cases)" | branches where "sw = None" "par = Some branches" | "sw = None" "par = None"
      by (metis option.exhaust surj_pair)
    then show "keeps (sg_run stage)"
    proof cases
      case 1
      with c obtain arms where "compile_arms en registry ''case '' cases = Inr arms"
        and s: "stage = wrapStep en (StepRecord i ty st w f r par sw) (run_switch en on arms)" by (auto simp: Let_def split: sum.splits)
      with \<open>sw = Some (on, cases)\<close> 1 have "keeps (run_switch en on arms)" using IH(2) by (intro run_switch_keeps) blast
      then show ?thesis unfolding s by (rule wrapStep_keeps)
    next
      case 2
      with c obtain arms where "compile_arms en registry ''branch '' branches = Inr arms"
        and s: "stage = wrapStep en (StepRecord i ty st w f r par sw) (run_parallel en arms)" by (auto simp: Let_def split: sum.splits)
      with 2 have "keeps (run_parallel en arms)" using IH(1) by (intro run_parallel_keeps) blast
      then show ?thesis unfolding s by (rule wrapStep_keeps)
    next
      case 3
      with c obtain factory where "registry ty = Some factory"
        and s: "stage = wrapStep en (StepRecord i ty st w f r par sw) (run_typed en factory (StepRecord i ty st w f r par sw))"
        by (auto simp: Let_def split: option.splits sum.splits)
      with reg have "keeps (run_typed en factory (StepRecord i ty st w f r par sw))" by (intro run_typed_keeps)
      then show ?thesis unfolding s by (rule wrapStep_keeps)
    qed
  qed
qed (auto split: sum.splits)

end

section \<open>What a run keeps\<close>

text \<open>The writes of the run itself: the task's fields, the end of an interrupted stage, and the move that settles
  the task.\<close>

locale run_rules = stage_rules en inv opened ok
  for en :: engine and inv :: "int \<Rightarrow> 's \<Rightarrow> world \<Rightarrow> bool" and opened :: "int \<Rightarrow> int \<Rightarrow> 's \<Rightarrow> 's \<Rightarrow> bool" and ok :: "string \<Rightarrow> bool" +
  fixes settled :: "int \<Rightarrow> 's \<Rightarrow> world \<Rightarrow> bool"
  assumes ok_ends: "ok Parked" "ok Completed"
    and updates: "inv i S w \<Longrightarrow> t_id (tc_task tc) = i \<Longrightarrow> store_update en tc w = (r, w') \<Longrightarrow> inv i S w'"
    and interrupts: "inv i S' w \<Longrightarrow> opened i sid S S' \<Longrightarrow> sf_step f = sid \<Longrightarrow> sf_execution f = i \<Longrightarrow> w_done w \<Longrightarrow>
          store_finish_detached en f w = (r, w') \<Longrightarrow> settled i S w'"
    and settles: "inv i S w \<Longrightarrow> ok to \<Longrightarrow> to \<noteq> [] \<Longrightarrow> store_transition en i Running to detail w = (r, w') \<Longrightarrow> settled i S w'"
begin

lemma park_settles:
  assumes "inv (run_id tc) S w" shows "settled (run_id tc) S (snd (park en reason tc w))"
proof -
  let ?tc1 = "tc\<lparr>tc_task := (tc_task tc)\<lparr>t_park_reason := reason\<rparr>\<rparr>"
  obtain r w1 where u: "store_update en ?tc1 w = (r, w1)" by (cases "store_update en ?tc1 w")
  obtain r' w2 where t: "store_transition en (run_id tc) Running Parked reason w1 = (r', w2)"
    by (cases "store_transition en (run_id tc) Running Parked reason w1")
  have "inv (run_id tc) S w1" by (rule updates [OF assms _ u]) simp
  moreover have "Parked \<noteq> []" by (simp add: Parked_def)
  ultimately show ?thesis using settles [OF _ ok_ends(1) _ t] by (simp add: park_def Let_def u t)
qed

lemma finish_settles:
  assumes i: "inv (run_id tc) S w" and o: "ok (oc_status (tc_outcome tc))" "oc_status (tc_outcome tc) \<noteq> []"
  shows "settled (run_id tc) S (snd (finish en tc w))"
proof -
  obtain r w1 where u: "store_update en tc w = (r, w1)" by (cases "store_update en tc w")
  obtain r' w2 where t: "store_transition en (run_id tc) Running (oc_status (tc_outcome tc)) (oc_detail (tc_outcome tc)) w1 = (r', w2)"
    by (cases "store_transition en (run_id tc) Running (oc_status (tc_outcome tc)) (oc_detail (tc_outcome tc)) w1")
  have i1: "inv (run_id tc) S w1" by (rule updates [OF i refl u])
  from settles [OF i1 o t] show ?thesis
    using park_settles [OF i] park_settles [OF i1] by (auto simp: finish_def u t split: option.splits)
qed

lemma record_stage_settles:
  assumes i: "inv (run_id tc) S' w" "opened (run_id tc) sid S S'" "ok (oc_status (tc_outcome tc))"
  shows "case record_stage en stage sid err tc w of Inl ended \<Rightarrow> settled (run_id tc) S (snd ended) | Inr w1 \<Rightarrow> inv (run_id tc) S w1"
proof (cases "w_done w \<and> err \<noteq> None")
  case True
  let ?f = "step_finish sid tc StepInterrupted (the err) 0 None"
  obtain r w1 where "store_finish_detached en ?f w = (r, w1)" by (cases "store_finish_detached en ?f w")
  with interrupts [OF i(1,2), of ?f r w1] True show ?thesis by (simp add: record_stage_def step_finish_def)
next
  case False
  obtain to detail where o: "stageOutcome (tc_skippedWhen tc) err = (to, detail)" by (metis surj_pair)
  have to: "to \<in> {StepSucceeded, StepFailed, StepSkipped, StepInterrupted}"
    using o by (auto simp: stageOutcome_def split: option.splits if_splits)
  let ?f = "step_finish sid tc to detail 0 (resultsAfter en stage err tc)"
  obtain r w1 where f: "store_finish en ?f w = (r, w1)" by (cases "store_finish en ?f w")
  have i1: "inv (run_id tc) S w1"
    by (rule finish_closes [OF i(1,2) _ _ _ _ f]) (use to in \<open>auto simp: step_finish_def\<close>)
  have "case endsRun en stage err tc w1 of Some ended \<Rightarrow> settled (run_id tc) S (snd ended) | None \<Rightarrow> True"
    using park_settles [OF i1] finish_settles [OF i1 i(3)] by (cases err) (simp_all add: endsRun_def)
  then show ?thesis
    using park_settles [OF i1] i1
    by (simp only: record_stage_def False if_False Let_def o prod.case f)
      (cases r; cases "endsRun en stage err tc w1"; simp)
qed

lemma run_stages_settles:
  assumes "list_all (\<lambda>s. keeps (sg_run s)) stages" "inv (run_id tc) S w" "ok (oc_status (tc_outcome tc))"
  shows "settled (run_id tc) S (snd (run_stages en stages tc w))"
  using assms
proof (induction stages arbitrary: tc w)
  case Nil
  then show ?case
    using finish_settles [of "tc\<lparr>tc_outcome := \<lparr>oc_status = Completed, oc_detail = res_summary (tc_stepResult tc)\<rparr>\<rparr>" S w] ok_ends
    by (simp add: Completed_def)
next
  case (Cons stage stages tc0 w)
  let ?tc = "tc0\<lparr>tc_stage := sg_name stage\<rparr>"
  let ?i = "run_id tc0"
  let ?start = "\<lparr>ss_execution = ?i, ss_attempt = t_attempt (tc_task tc0), ss_parent = 0, ss_kind = StepKindStage,
      ss_name = sg_name stage, ss_called = 0\<rparr>"
  obtain ue w1 where u: "store_update en ?tc w = (ue, w1)" by (cases "store_update en ?tc w")
  have i1: "inv ?i S w1" by (rule updates [OF Cons.prems(2) _ u]) simp
  obtain sr w2 where st: "store_start en ?start w1 = (sr, w2)" by (cases "store_start en ?start w1")
  show ?case
  proof (cases ue)
    case (Some e)
    then show ?thesis using park_settles [of ?tc S w1] i1 u by simp
  next
    case None
    show ?thesis
    proof (cases sr)
      case (Inl e)
      with start_fails [OF i1] st have "inv ?i S w2" by blast
      then show ?thesis using park_settles [of ?tc S w2] None Inl u st by simp
    next
      case (Inr sid)
      with start_opens [OF i1, of ?start] st obtain S' where S': "opened ?i sid S S'" "inv ?i S' w2" by auto
      obtain err tc1 w3 where b: "sg_run stage (?tc\<lparr>tc_stepID := sid\<rparr>) w2 = (err, tc1, w3)"
        by (cases "sg_run stage (?tc\<lparr>tc_stepID := sid\<rparr>) w2") auto
      have k: "run_id tc1 = ?i" "inv ?i S' w3" "ok (oc_status (tc_outcome tc1))"
        using keepsD [of "sg_run stage" "?tc\<lparr>tc_stepID := sid\<rparr>" S' w2] b Cons.prems S' by simp_all
      have e: "case record_stage en stage sid err tc1 w3 of Inl ended \<Rightarrow> settled ?i S (snd ended) | Inr w4 \<Rightarrow> inv ?i S w4"
        using record_stage_settles [of tc1 S' w3 sid S stage err] k S'(1) by (simp only: simp_thms)
      have "run_stages en (stage # stages) tc0 w =
          (case record_stage en stage sid err tc1 w3 of Inl ended \<Rightarrow> ended | Inr w4 \<Rightarrow> run_stages en stages tc1 w4)"
        using u st b None Inr by (simp add: Let_def)
      with e Cons.IH [of tc1] Cons.prems(1) k show ?thesis by (auto split: sum.splits)
    qed
  qed
qed

lemma Run_settles:
  assumes "registry_keeps registry" "Compile en registry d = Inr flow" "inv (run_id tc) S w" "ok (oc_status (tc_outcome tc))"
  shows "settled (run_id tc) S (snd (Run en flow tc w))"
proof -
  let ?tc = "tc\<lparr>tc_task := (tc_task tc)\<lparr>t_workflow := wf_name flow\<rparr>, tc_iface := wf_interface flow\<rparr>"
  from assms(1,2) have all: "list_all (\<lambda>s. keeps (sg_run s)) (wf_stages flow)"
    using compile_keeps(2) by (auto simp: Compile_def split: sum.splits)
  show ?thesis
  proof (cases "resumeStages en (wf_stages flow) ?tc")
    case (Inl e)
    then show ?thesis using park_settles [of ?tc S w e] assms(3) by (simp add: Run_def Let_def)
  next
    case (Inr p)
    obtain stages tc1 where p: "p = (stages, tc1)" by (cases p)
    have sub: "set stages \<subseteq> set (wf_stages flow) \<and> run_id tc1 = run_id tc \<and> tc_outcome tc1 = tc_outcome tc"
      using Inr p set_dropWhileD
      by (force simp: resumeStages_def Let_def split: if_splits list.splits option.splits)
    then have "settled (run_id tc1) S (snd (run_stages en stages tc1 w))"
      using all assms(3,4) by (intro run_stages_settles) (auto simp: list_all_iff)
    with sub Inr p show ?thesis by (cases "run_stages en stages tc1 w") (simp add: Run_def Let_def)
  qed
qed

end

section \<open>A run is a history of the store\<close>

definition run_history :: "db \<Rightarrow> int \<Rightarrow> unit \<Rightarrow> world \<Rightarrow> bool" where
  "run_history d i S w \<longleftrightarrow> wf_db (w_db w) \<and> store_step\<^sup>*\<^sup>* d (w_db w)"

lemma run_history_step:
  "run_history d i S w \<Longrightarrow> store_step (w_db w) d' \<Longrightarrow> run_history d i S (w\<lparr>w_db := d'\<rparr>)"
  unfolding run_history_def by (auto intro: rtranclp.rtrancl_into_rtrancl dest: store_step_good good_wf)

lemma StartStep_id: "StartStep st d = Inr (sid, ev, d') \<Longrightarrow> sid = next_step d"
  by (auto simp: StartStep_def q_InsertStepExecution_def q_StartStepExecution_def insertEventQ_def Let_def
      split: if_splits option.splits sum.splits)

interpretation history: run_rules en "run_history d" "\<lambda>_ _ _ _. True" "\<lambda>_. True" "run_history d" for en d
proof unfold_locales
  fix i S w st e w'
  assume "run_history d i S w" "store_start en st w = (Inl e, w')"
  then show "run_history d i S w'" by (auto simp: store_start_def split: if_splits sum.splits)
next
  fix i S w st sid w'
  assume h: "run_history d i S w" and "store_start en st w = (Inr sid, w')"
  then obtain ev d' where s: "StartStep st (w_db w) = Inr (sid, ev, d')" "w' = w\<lparr>w_db := d'\<rparr>"
    by (auto simp: store_start_def split: if_splits sum.splits)
  have "sid \<noteq> 0" using StartStep_id [OF s(1)] h by (simp add: run_history_def wf_db_def)
  with run_history_step [OF h store_step.intros(19) [OF s(1)]] s(2) show "sid \<noteq> 0 \<and> (\<exists>S'. True \<and> run_history d i S' w')" by auto
next
  fix i S' w sid S f r w'
  assume h: "run_history d i S' w" and f: "store_finish en f w = (r, w')"
  then show "run_history d i S w'"
    by (auto simp: store_finish_def store_finish_detached_def split: if_splits sum.splits dest: run_history_step [OF h store_step.intros(20)])
next
  fix i S w kind stage detail data tc
  assume h: "run_history d i S w"
  show "run_history d i S (emit_durable kind stage detail data tc w)"
    using h run_history_step [OF h store_step.intros(17) [OF prod.collapse [symmetric]]] by (simp add: emit_durable_def)
next
  fix i S w choices
  assume "run_history d i S w" then show "run_history d i S (w\<lparr>w_sched := choices\<rparr>)" by (simp add: run_history_def)
next
  fix i S w tc r w'
  assume h: "run_history d i S w" and "store_update en tc w = (r, w')"
  then show "run_history d i S w'"
    by (auto simp: store_update_def split: if_splits sum.splits dest: run_history_step [OF h store_step.intros(8)])
next
  fix i S' w sid S f r w'
  assume h: "run_history d i S' w" and "store_finish_detached en f w = (r, w')"
  then show "run_history d i S w'"
    by (auto simp: store_finish_detached_def split: sum.splits dest: run_history_step [OF h store_step.intros(20)])
next
  fix i S w to detail r w'
  assume h: "run_history d i S w" and "store_transition en i Running to detail w = (r, w')"
  then show "run_history d i S w'"
    by (auto simp: store_transition_def split: if_splits sum.splits dest: run_history_step [OF h store_step.intros(6)])
qed simp_all

end
