(* ===== verification/Workflow_Runs.thy ===== *)
theory Workflow_Runs
  imports Workflow_Engine_Spec
begin

text \<open>
  The two invariants of a run, as interpretations of the engine's rules. \<open>history\<close>: what a run does to the store is
  a sequence of the store's operations. \<open>live\<close>: a run that is not cancelled leaves its task in another status than
  running, and leaves no step open that it opened. The step types of the package that need no agent satisfy the
  rules, so both hold of every workflow built from them and from bodies that keep the same promise.
\<close>

section \<open>A run settles its task\<close>

abbreviation open_rows :: "db \<Rightarrow> step_row set" where
  "open_rows d \<equiv> {s \<in> set (steps d). open_step s}"

lemma wf_db_step_eq: "wf_db d \<Longrightarrow> s \<in> set (steps d) \<Longrightarrow> s' \<in> set (steps d) \<Longrightarrow> s_id s = s_id s' \<Longrightarrow> s = s'"
  by (auto simp: wf_db_def distinct_map dest: inj_onD)

lemma step_by_id_eq: "wf_db d \<Longrightarrow> s \<in> set (steps d) \<Longrightarrow> step_by_id d (s_id s) = Some s"
proof (cases "step_by_id d (s_id s)")
  case None
  assume "s \<in> set (steps d)"
  with None show ?thesis by (auto simp: step_by_id_def find_None_iff)
next
  case (Some q)
  assume "wf_db d" "s \<in> set (steps d)"
  with Some show ?thesis using step_by_id_Some wf_db_step_eq by blast
qed

lemma StartStep_row:
  assumes "StartStep st d = Inr (sid, ev, d')" and "wf_db d"
  shows "\<exists>row. steps d' = steps d @ [row] \<and> s_id row = sid \<and> s_execution row = ss_execution st
    \<and> s_status row = StepRunning \<and> tasks d' = tasks d"
proof -
  from assms(1) obtain ex depth where ex: "task_by_id d (ss_execution st) = Some ex"
    and d': "d' = snd (insertEventQ (stepEvent KindStageStart ex (t_attempt ex) (ss_name st) [])
        (snd (q_StartStepExecution (next_step d) (snd (q_InsertStepExecution (step_row_of ex st depth) d)))))"
    and sid: "sid = next_step d"
    by (rule StartStep_Inr) iprover
  let ?row = "(step_row_of ex st depth)\<lparr>s_id := next_step d, s_status := ''running''\<rparr>"
  have "s_id s \<noteq> next_step d" if "s \<in> set (steps d)" for s
    using assms(2) that by (fastforce simp: wf_db_def step_ok_def)
  then have old: "map (\<lambda>r. if s_id r = next_step d \<and> s_status r = ''pending'' then r\<lparr>s_status := ''running''\<rparr> else r) (steps d) = steps d"
    by (intro map_idI) auto
  have "steps d' = steps d @ [?row]" "tasks d' = tasks d"
    unfolding d' by (simp_all add: q_StartStepExecution_def q_InsertStepExecution_def Let_def update_steps_def old)
  moreover have "t_id ex = ss_execution st" using task_by_id_Some [OF ex] by simp
  ultimately show ?thesis using sid by (intro exI [of _ ?row]) (simp add: step_row_of_def StepRunning_def)
qed

lemma TaskByID_in_scope:
  assumes "task_by_id d i = Some r" "in_scope scope r" "wf_db d"
  shows "TaskByID scope d i = Some r"
proof (cases "TaskByID scope d i")
  case None
  with assms(1,2) show ?thesis by (auto simp: TaskByID_def find_None_iff dest: task_by_id_Some)
next
  case (Some q)
  then have "q \<in> set (tasks d)" "t_id q = i" by (auto simp: TaskByID_def dest: find_SomeD)
  with task_by_id_eq [of d q] assms(1,3) Some show ?thesis by (simp add: wf_db_def)
qed

lemma FinishStep_row:
  assumes "wf_db d" and row: "row \<in> set (steps d)" "s_status row = StepRunning"
    and f: "sf_step f = s_id row" "sf_execution f = s_execution row" "sf_from f = StepRunning"
      "sf_to f \<in> {StepSucceeded, StepFailed, StepSkipped, StepInterrupted}"
    and ex: "task_by_id d (s_execution row) = Some ex" "in_scope scope ex"
  shows "\<exists>ev d'. FinishStep scope ms f d = Inr (ev, d') \<and> tasks d' = tasks d \<and> open_rows d' = open_rows d - {row}"
proof -
  have legal: "CanStepTransition StepRunning (sf_to f)"
    using f(4) by (auto simp: CanStepTransition_def row_of_def stepTransitions_def lifecycle_simps)
  let ?P = "\<lambda>r. s_id r = s_id row \<and> s_status r = StepRunning"
  have "\<not> (\<forall>r\<in>set (steps d). s_id r = s_id row \<longrightarrow> s_status r \<noteq> StepRunning)" using row by blast
  then obtain ev d' where fin: "FinishStep scope ms f d = Inr (ev, d')"
    by (auto simp: FinishStep_def step_by_id_eq [OF assms(1) row(1)] f row(2) legal TaskByID_in_scope [OF ex assms(1)]
        q_FinishStepExecution_def Let_def insertEventQ_def)
  then obtain st :: step_row and ex' :: task_row where d': "d' = snd (insertEventQ (stepEvent KindStageFinish ex' (s_attempt st) (s_name st)
            (stepEventData (sf_to f) ms (sf_detail f))) (snd (q_FinishStepExecution (sf_step f) (sf_from f) (sf_to f)
              (clip (sf_detail f) 4000) (sf_tokens f) (sf_results f) d)))"
    by (rule FinishStep_Inr) iprover
  let ?g = "\<lambda>r. r\<lparr>s_status := sf_to f, s_detail := clip (sf_detail f) 4000, s_tokens := sf_tokens f, s_results := sf_results f\<rparr>"
  have st': "steps d' = map (\<lambda>r. if ?P r then ?g r else r) (steps d)" and t: "tasks d' = tasks d"
    unfolding d' by (simp_all add: q_FinishStepExecution_def Let_def f update_steps_def)
  have closed: "\<not> open_step (?g r)" for r using f(4) by (auto simp: open_step_iff lifecycle_simps)
  have "open_rows d' = open_rows d - {row}"
  proof (intro set_eqI iffI)
    fix s assume "s \<in> open_rows d'"
    then obtain r where r: "r \<in> set (steps d)" "s = (if ?P r then ?g r else r)" "open_step s" unfolding st' by auto
    then have "\<not> ?P r" using closed by auto
    with r row show "s \<in> open_rows d - {row}" by auto
  next
    fix s assume s: "s \<in> open_rows d - {row}"
    then have "\<not> ?P s" using wf_db_step_eq [OF assms(1) _ row(1)] by auto
    with s show "s \<in> open_rows d'" unfolding st' by (auto intro: image_eqI [of _ _ s])
  qed
  with fin t show ?thesis by blast
qed

text \<open>The invariant of a run that goes on: its context is alive, its task is running and in the store's scope,
  and the open steps are the given ones. A callee it waits on ends.\<close>

definition live_run :: "engine \<Rightarrow> int \<Rightarrow> step_row set \<Rightarrow> world \<Rightarrow> bool" where
  "live_run en i S w \<longleftrightarrow> \<not> w_done w \<and> (\<forall>j. \<exists>a. awaitCallee (w_polls w j) = Some a \<and> a \<noteq> Cancelled) \<and> wf_db (w_db w)
     \<and> (\<exists>r. task_by_id (w_db w) i = Some r \<and> t_status r = Running \<and> in_scope (en_scope en) r) \<and> open_rows (w_db w) = S"

definition opened_row :: "int \<Rightarrow> int \<Rightarrow> step_row set \<Rightarrow> step_row set \<Rightarrow> bool" where
  "opened_row i sid S S' \<longleftrightarrow> (\<exists>row. s_id row = sid \<and> s_execution row = i \<and> s_status row = StepRunning \<and> row \<notin> S \<and> S' = insert row S)"

definition run_status :: "string \<Rightarrow> bool" where
  "run_status to \<longleftrightarrow> to = [] \<or> CanTransition Running to"

definition settled_run :: "int \<Rightarrow> step_row set \<Rightarrow> world \<Rightarrow> bool" where
  "settled_run i S w \<longleftrightarrow> (\<exists>r. task_by_id (w_db w) i = Some r \<and> t_status r \<noteq> Running) \<and> open_rows (w_db w) = S"

lemma live_run_db:
  assumes "live_run en i S w" "tasks d = tasks (w_db w)" "wf_db d"
  shows "live_run en i (open_rows d) (w\<lparr>w_db := d\<rparr>)"
  using assms by (auto simp: live_run_def task_by_id_def)

lemma promote_next_review_tasks: "tasks (promote_next_review i d) = tasks (snd (q_PromotePendingReview i d))"
  "steps (promote_next_review i d) = steps d"
  by (simp_all add: promote_next_review_def split_def q_PromotePendingReview_def Let_def)

lemma promote_next_review_settled:
  assumes "task_by_id d i = Some r" "t_status r \<noteq> Running"
  shows "\<exists>q. task_by_id (promote_next_review i d) i = Some q \<and> t_status q \<noteq> Running"
proof -
  have "task_by_id (promote_next_review i d) i = task_by_id (snd (q_PromotePendingReview i d)) i"
    by (rule task_by_id_cong) (rule promote_next_review_tasks)
  also have "\<exists>q. \<dots> = Some q \<and> t_status q \<noteq> Running"
    unfolding q_PromotePendingReview_def Let_def snd_conv
    by (subst task_by_id_update) (use assms in \<open>simp_all add: Running_def\<close>)
  finally show ?thesis .
qed

lemma Transition_settles:
  assumes "live_run en i S w" "CanTransition Running to" "Transition i Running to detail (w_db w) = r"
  shows "\<exists>d'. r = Inr d' \<and> settled_run i S (w\<lparr>w_db := d'\<rparr>)"
proof -
  obtain t where t: "task_by_id (w_db w) i = Some t" "t_status t = Running" using assms(1) by (auto simp: live_run_def)
  let ?P = "\<lambda>r. t_id r = i \<and> t_status r = Running"
  let ?f = "\<lambda>r. r\<lparr>t_status := to, t_park_reason := (if to = ''parked'' then clip detail 4000 else t_park_reason r),
      t_park_class := (if to = ''parked'' then ParkNeedsHuman else t_park_class r)\<rparr>"
  let ?d1 = "q_InsertTransition i Running to (clip detail 4000) (update_tasks ?P ?f (w_db w))"
  have "task_by_id (update_tasks ?P ?f (w_db w)) i = Some (?f t)"
    using t task_by_id_Some [OF t(1)] by (subst task_by_id_update) simp_all
  then have d1: "task_by_id ?d1 i = Some (?f t)" by simp
  have m: "matches ?P (tasks (w_db w)) \<noteq> 0"
    using t(2) task_by_id_Some [OF t(1)] by auto
  have r: "r = Inr (if to = PROpen then promote_next_review i ?d1 else ?d1)"
    unfolding assms(3) [symmetric] Transition_def guarded_write_def guardTransition_def t(1) option.case t(2)
    by (simp only: q_TransitionTask_def Let_def prod.case m assms(2) simp_thms if_False if_True option.case sum.case)
  have ne: "to \<noteq> Running" using assms(2) CanTransition_irrefl by blast
  have "t_status (?f t) \<noteq> Running" using ne by simp
  from promote_next_review_settled [OF d1 this]
  have "settled_run i S (w\<lparr>w_db := promote_next_review i ?d1\<rparr>)"
    using assms(1) by (simp add: settled_run_def live_run_def promote_next_review_tasks)
  moreover have "settled_run i S (w\<lparr>w_db := ?d1\<rparr>)"
    using assms(1) d1 ne by (simp add: settled_run_def live_run_def)
  ultimately show ?thesis using r by (cases "to = PROpen") simp_all
qed

lemma Update_keeps:
  assumes "live_run en i S w" "store_update en tc w = (r, w')"
  shows "live_run en i S w'"
proof -
  have "live_run en i S (w\<lparr>w_db := d'\<rparr>)" if u: "Update t (w_db w) = Inr d'" for t d'
  proof -
    have wf: "wf_db d'" using good_Update u assms(1) by (auto simp: live_run_def good_def)
    have "d' = q_UpdateTask (t\<lparr>t_park_reason := clip (t_park_reason t) 4000\<rparr>) (w_db w)" using u by (auto simp: Update_def split: if_splits)
    then have "task_by_id d' i = map_option (\<lambda>r. if t_id r = t_id t then updated_row (t\<lparr>t_park_reason := clip (t_park_reason t) 4000\<rparr>) r else r) (task_by_id (w_db w) i)"
      "steps d' = steps (w_db w)"
      by (simp_all add: q_UpdateTask_def task_by_id_update updated_row_def Let_def)
    moreover obtain q where "task_by_id (w_db w) i = Some q" "t_status q = Running" "in_scope (en_scope en) q"
      using assms(1) by (auto simp: live_run_def)
    moreover have "t_status (updated_row u q) = t_status q" "in_scope scope (updated_row u q) = in_scope scope q" for u q scope
      by (simp_all add: updated_row_def Let_def in_scope_def split: option.split)
    ultimately show ?thesis using assms(1) wf by (auto simp: live_run_def)
  qed
  with assms show ?thesis by (auto simp: store_update_def split: if_splits sum.splits)
qed

interpretation live: run_rules en "live_run en" opened_row run_status settled_run for en
proof unfold_locales
  show "run_status []" by (simp add: run_status_def)
next
  show "run_status Parked" "run_status Completed"
    by (auto simp: run_status_def CanTransition_iff lifecycle_simps)
next
  fix i S w st e w'
  assume "live_run en i S w" "store_start en st w = (Inl e, w')"
  then show "live_run en i S w'" by (auto simp: store_start_def split: if_splits sum.splits)
next
  fix i S w st sid w'
  assume l: "live_run en i S w" and ex: "ss_execution st = i" and "store_start en st w = (Inr sid, w')"
  then obtain ev d' where s: "StartStep st (w_db w) = Inr (sid, ev, d')" "w' = w\<lparr>w_db := d'\<rparr>"
    by (auto simp: store_start_def split: if_splits sum.splits)
  have wf: "wf_db (w_db w)" using l by (simp add: live_run_def)
  obtain row where row: "steps d' = steps (w_db w) @ [row]" "s_id row = sid" "s_execution row = i" "s_status row = StepRunning"
      "tasks d' = tasks (w_db w)" using StartStep_row [OF s(1) wf] ex by blast
  have "sid \<noteq> 0" "row \<notin> set (steps (w_db w))"
    using StartStep_id [OF s(1)] wf row(2) by (auto simp: wf_db_def step_ok_def)
  moreover have "wf_db d'" using good_StartStep [OF wf s(1)] by (simp add: good_def)
  moreover have "open_rows d' = insert row S" using row l by (auto simp: live_run_def open_step_iff)
  ultimately show "sid \<noteq> 0 \<and> (\<exists>S'. opened_row i sid S S' \<and> live_run en i S' w')"
    using row l live_run_db [OF l row(5)] s(2) by (auto simp: opened_row_def live_run_def)
next
  fix i S' w sid S f r w'
  assume l: "live_run en i S' w" and o: "opened_row i sid S S'" and f: "sf_step f = sid" "sf_execution f = i" "sf_from f = StepRunning"
      "sf_to f \<in> {StepSucceeded, StepFailed, StepSkipped, StepInterrupted}" and fin: "store_finish en f w = (r, w')"
  obtain row where row: "s_id row = sid" "s_execution row = i" "s_status row = StepRunning" "row \<notin> S" "S' = insert row S"
    using o by (auto simp: opened_row_def)
  then have mem: "row \<in> set (steps (w_db w))" using l by (auto simp: live_run_def)
  obtain ex where ex: "task_by_id (w_db w) i = Some ex" "in_scope (en_scope en) ex" using l by (auto simp: live_run_def)
  have wf: "wf_db (w_db w)" using l by (simp add: live_run_def)
  obtain ev d' where d': "FinishStep (en_scope en) (en_duration en) f (w_db w) = Inr (ev, d')" "tasks d' = tasks (w_db w)"
      "open_rows d' = open_rows (w_db w) - {row}"
    using FinishStep_row [OF wf mem row(3), of f ex "en_scope en" "en_duration en"] f row ex by auto
  have "wf_db d'" using good_FinishStep [OF wf d'(1)] by (simp add: good_def)
  moreover have "open_rows d' = S" using d'(3) row(4,5) l by (auto simp: live_run_def)
  moreover have "w' = w\<lparr>w_db := d'\<rparr>" using fin l d'(1) by (simp add: store_finish_def store_finish_detached_def live_run_def)
  ultimately show "live_run en i S w'" using live_run_db [OF l d'(2)] by simp
next
  fix i S w kind stage detail data tc
  assume l: "live_run en i S w"
  then show "live_run en i S (emit_durable kind stage detail data tc w)"
    using good_insertEventQ [THEN good_wf] by (auto simp: emit_durable_def live_run_def task_by_id_def)
next
  fix i S w choices
  assume "live_run en i S w" then show "live_run en i S (w\<lparr>w_sched := choices\<rparr>)" by (simp add: live_run_def)
next
  fix i S w tc r w'
  assume "live_run en i S w" "store_update en tc w = (r, w')"
  then show "live_run en i S w'" by (rule Update_keeps)
next
  fix i S' w sid S f r w'
  assume "live_run en i S' w" "w_done w" then show "settled_run i S w'" by (simp add: live_run_def)
next
  fix i S w to detail r w'
  assume l: "live_run en i S w" and to: "run_status to" "to \<noteq> []" and t: "store_transition en i Running to detail w = (r, w')"
  from Transition_settles [OF l _ refl, of to detail] to obtain d' where "Transition i Running to detail (w_db w) = Inr d'"
    "settled_run i S (w\<lparr>w_db := d'\<rparr>)" by (auto simp: run_status_def)
  with t l show "settled_run i S w'" by (auto simp: store_transition_def live_run_def)
qed

section \<open>The control steps\<close>

text \<open>What the bodies of this package need besides: the outcomes they set are legal, and calls to the forge, writes
  of outputs and the start of a callee keep the invariant.\<close>

locale control_rules = run_rules en inv opened ok settled
  for en :: engine and inv :: "int \<Rightarrow> 's \<Rightarrow> world \<Rightarrow> bool" and opened :: "int \<Rightarrow> int \<Rightarrow> 's \<Rightarrow> 's \<Rightarrow> bool"
    and ok :: "string \<Rightarrow> bool" and settled :: "int \<Rightarrow> 's \<Rightarrow> world \<Rightarrow> bool" +
  assumes ok_controls: "ok Queued" "ok WaitingHuman" "ok Declined"
    and forges: "inv i S w \<Longrightarrow> inv i S (w\<lparr>w_forge := calls\<rparr>)"
    and writes: "inv i S w \<Longrightarrow> inv i S (w\<lparr>w_maps := maps\<rparr>)"
    and calls: "inv i S w \<Longrightarrow> StartCall (en_scope en) i key wfl title body inputs (w_db w) = Inr (r, d) \<Longrightarrow> inv i S (w\<lparr>w_db := d\<rparr>)"
    and cancels: "inv i S' w \<Longrightarrow> opened i sid S S' \<Longrightarrow> awaitCallee (w_polls w j) \<in> {None, Some Cancelled} \<Longrightarrow>
          inv i S (w\<lparr>w_done := True\<rparr>)"
begin

lemma put_outputs_keeps:
  "inv i S w \<Longrightarrow> put_outputs m tc w = (tc', w') \<Longrightarrow> inv i S w' \<and> tc_task tc' = tc_task tc \<and> tc_outcome tc' = tc_outcome tc"
  using writes by (auto simp: put_outputs_def split: option.splits if_splits)

lemma close_call_keeps:
  assumes "inv (run_id tc) S' w" "opened (run_id tc) sid S S'" "sid \<noteq> 0" "to \<in> {StepSucceeded, StepFailed}"
    and "close_call en sid to detail result tc w = (err, tc', w')"
  shows "tc' = tc \<and> inv (run_id tc) S w'"
proof -
  obtain fe w1 where f: "finishChildStep en sid to detail 0 tc w = (fe, w1)" by (cases "finishChildStep en sid to detail 0 tc w")
  have "inv (run_id tc) S w1"
    by (rule finish_closes [of "run_id tc" S' w sid S "step_finish sid tc to detail 0 None" fe])
      (use assms f in \<open>auto simp: finishChildStep_def step_finish_def\<close>)
  with assms(5) f show ?thesis by (auto simp: close_call_def split: option.splits)
qed

lemma finish_call_keeps:
  assumes i: "inv (run_id tc) S' w" "opened (run_id tc) sid S S'" "sid \<noteq> 0" and o: "ok (oc_status (tc_outcome tc))"
    and run: "finish_call en s path j sid tc w = (err, tc', w')"
  shows "run_id tc' = run_id tc \<and> inv (run_id tc) S w' \<and> ok (oc_status (tc_outcome tc'))"
proof -
  obtain r w1 where a: "await_call en s path j tc w = (r, w1)" by (cases "await_call en s path j tc w")
  consider (ended) e where "r = Inl e" "awaitCallee (w_polls w j) \<in> {None, Some Cancelled}" "w1 = w\<lparr>w_done := True\<rparr>"
    | (failed) e where "r = Inl e" "w1 = w" | (finished) outputs where "r = Inr outputs" "inv (run_id tc) S' w1"
    using a emits [OF i(1)] by (auto simp: await_call_def split: option.splits awaited.splits)
  then show ?thesis
  proof cases
    case ended
    with run a cancels [OF i(1,2)] o show ?thesis by (auto simp: finish_call_def)
  next
    case failed
    then show ?thesis
    proof (cases "w_done w")
      case True
      with failed run a i show ?thesis
        using finish_closes [OF i(1,2), of "step_finish sid tc StepFailed [] 0 None"] o
        by (auto simp: finish_call_def store_finish_def step_finish_def)
    next
      case False
      with failed run a have "close_call en sid StepFailed e (Some e) tc w = (err, tc', w')" by (simp add: finish_call_def)
      from close_call_keeps [OF i _ this] o show ?thesis by simp
    qed
  next
    case finished
    obtain m e where p: "publishCalleeOutputs (tc_iface tc) (wc_outputs s) outputs (run_outputs tc w1) = (m, e)" by fastforce
    obtain tc1 w2 where q: "put_outputs m tc w1 = (tc1, w2)" by fastforce
    note k = put_outputs_keeps [OF finished(2) q]
    obtain to detail result tc2 where c: "close_call en sid to detail result tc2 w2 = (err, tc', w')" "to \<in> {StepSucceeded, StepFailed}"
        "tc_task tc2 = tc_task tc" "tc_outcome tc2 = tc_outcome tc"
      using run a finished(1) p q k by (cases e) (auto simp: finish_call_def Let_def)
    have "inv (run_id tc2) S' w2" "opened (run_id tc2) sid S S'" using k i c(3) by simp_all
    from close_call_keeps [OF this i(3) c(2,1)] c(3,4) o show ?thesis by simp
  qed
qed

lemma record_call_keeps: "keeps (record_call en s j)"
  unfolding keeps_def
proof (intro allI impI)
  fix tc w err tc' w' S
  assume i: "inv (run_id tc) S w" and o: "ok (oc_status (tc_outcome tc))" and run: "record_call en s j tc w = (err, tc', w')"
  let ?w1 = "emit_durable KindWorkflowCallStarted (tc_stepPath tc)
      (''started '' @ quote (wc_workflow s) @ '' as task '' @ int_dec j)
      [(''callee_task_id'', EvInt j), (''workflow'', EvText (wc_workflow s)), (''wait'', EvBool (wc_wait s))] tc w"
  let ?st = "\<lparr>ss_execution = run_id tc, ss_attempt = t_attempt (tc_task tc), ss_parent = tc_stepID tc,
    ss_kind = StepKindCall, ss_name = tc_stepPath tc, ss_called = j\<rparr>"
  have w1: "inv (run_id tc) S ?w1" by (rule emits [OF i])
  obtain r w2 where st: "store_start en ?st ?w1 = (r, w2)" by (cases "store_start en ?st ?w1")
  show "run_id tc' = run_id tc \<and> inv (run_id tc) S w' \<and> ok (oc_status (tc_outcome tc'))"
  proof (cases r)
    case (Inl e)
    with run start_fails [OF w1, of ?st] st o show ?thesis by (simp add: record_call_def startCallStep_def)
  next
    case (Inr sid)
    with start_opens [OF w1, of ?st] st obtain S' where S': "sid \<noteq> 0" "opened (run_id tc) sid S S'" "inv (run_id tc) S' w2" by auto
    show ?thesis
    proof (cases "wc_wait s")
      case True
      with run st Inr have "finish_call en s (tc_stepPath tc) j sid tc w2 = (err, tc', w')"
        by (simp add: record_call_def startCallStep_def)
      from finish_call_keeps [OF S'(3,2,1) o this] show ?thesis .
    next
      case False
      with run st Inr have "close_call en sid StepSucceeded (''started '' @ quote (wc_workflow s) @ '' (task '' @ int_dec j @ ''); no wait'') None tc w2
          = (err, tc', w')" by (simp add: record_call_def startCallStep_def)
      from close_call_keeps [OF S'(3,2,1) _ this] o show ?thesis by simp
    qed
  qed
qed

lemma runWorkflowCall_keeps: "keeps (runWorkflowCall en s)"
  unfolding keeps_def
proof (intro allI impI)
  fix tc w err tc' w' S
  assume i: "inv (run_id tc) S w" and o: "ok (oc_status (tc_outcome tc))" and run: "runWorkflowCall en s tc w = (err, tc', w')"
  show "run_id tc' = run_id tc \<and> inv (run_id tc) S w' \<and> ok (oc_status (tc_outcome tc'))"
  proof (cases "tc_stepPath tc = [] \<or> t_call_depth (tc_task tc) + 1 > MaxCallDepth")
    case True
    with run i o show ?thesis by (auto simp: runWorkflowCall_def split: if_splits)
  next
    case False
    show ?thesis
    proof (cases "resolveCallInputs (wc_inputs s) (tc_inputs tc)")
      case (Inl e)
      with run False i o show ?thesis by (simp add: runWorkflowCall_def)
    next
      case (Inr inputs)
      define sc where "sc = StartCall (en_scope en) (run_id tc) (call_key (tc_stepPath tc) (wc_workflow s)) (wc_workflow s)
        (call_title (wc_workflow s) (run_id tc)) (call_body (wc_workflow s) (run_id tc)) (if inputs = [] then [] else en_encode en inputs) (w_db w)"
      have r: "(if w_done w then (Some (call_failed (''start '' @ quote (wc_workflow s) @ '': '' @ ctx_error)), tc, w)
          else case sc of Inl e \<Rightarrow> (Some (call_failed (''start '' @ quote (wc_workflow s) @ '': '' @ en_error en e)), tc, w)
            | Inr (callee, d) \<Rightarrow> record_call en s (t_id callee) tc (w\<lparr>w_db := d\<rparr>)) = (err, tc', w')"
        using run False Inr unfolding runWorkflowCall_def sc_def by (simp only: sum.case if_False) simp
      have c: "run_id tc' = run_id tc \<and> inv (run_id tc) S w' \<and> ok (oc_status (tc_outcome tc'))"
        if "sc = Inr (callee, d)" "record_call en s (t_id callee) tc (w\<lparr>w_db := d\<rparr>) = (err, tc', w')" for callee d
        using keepsD [OF record_call_keeps calls [OF i that(1) [unfolded sc_def]] o that(2)] .
      show ?thesis
      proof (cases sc)
        case (Inl e)
        with r i o show ?thesis by (auto split: if_splits)
      next
        case (Inr p)
        with r i o c [of "fst p" "snd p"] show ?thesis by (cases p) (auto split: if_splits)
      qed
    qed
  qed
qed

lemma ControlStepTypes_keep: "registry_keeps (ControlStepTypes en cd)"
  unfolding registry_keeps_def
proof (intro allI impI)
  fix ty factory settings body
  assume "ControlStepTypes en cd ty = Some factory" and f: "factory settings = Inr body"
  then consider "factory = newHandoffStage cd" | "factory = newApproveStage cd" | "factory = newCloseIssueStage en"
    | "factory = newCommentStage en cd" | "factory = newFinishStage cd" | "factory = newWorkflowCallStage en cd"
    by (auto simp: ControlStepTypes_def split: if_splits)
  then show "keeps body"
  proof cases
    case 1
    with f show ?thesis by (auto simp: newHandoffStage_def keeps_def ok_controls split: option.splits if_splits)
  next
    case 2
    with f show ?thesis by (auto simp: newApproveStage_def keeps_def ok_controls split: option.splits if_splits)
  next
    case 3
    with f show ?thesis by (auto simp: newCloseIssueStage_def call_forge_def keeps_def forges split: if_splits)
  next
    case 4
    with f show ?thesis by (auto simp: newCommentStage_def call_forge_def keeps_def forges Let_def split: option.splits if_splits)
  next
    case 5
    with f show ?thesis
      by (auto simp: newFinishStage_def finishStatuses_def keeps_def Let_def ok_controls ok_ends split: option.splits if_splits)
  next
    case 6
    with f show ?thesis by (auto simp: newWorkflowCallStage_def Let_def runWorkflowCall_keeps split: option.splits)
  qed
qed

lemma registry_keeps_add: "registry_keeps r1 \<Longrightarrow> registry_keeps r2 \<Longrightarrow> registry_keeps (r1 ++ r2)"
  unfolding registry_keeps_def map_add_Some_iff by blast

end

interpretation history: control_rules en "run_history d" "\<lambda>_ _ _ _. True" "\<lambda>_. True" "run_history d" for en d
proof unfold_locales
  fix i S w key wfl title body inputs r d'
  assume h: "run_history d i S w" and "StartCall (en_scope en) i key wfl title body inputs (w_db w) = Inr (r, d')"
  then show "run_history d i S (w\<lparr>w_db := d'\<rparr>)" by (intro run_history_step [OF h] store_step.intros(18))
qed (simp_all add: run_history_def)

lemma StartCall_keeps:
  assumes l: "live_run en i S w" and s: "StartCall sc j key wfl title body inputs (w_db w) = Inr (r, d)"
  shows "live_run en i S (w\<lparr>w_db := d\<rparr>)"
proof -
  have wf: "wf_db (w_db w)" using l by (simp add: live_run_def)
  have "wf_db d" using good_StartCall [OF wf s] by (simp add: good_def)
  moreover have "task_by_id d i = task_by_id (w_db w) i" "steps d = steps (w_db w)" if "task_by_id (w_db w) i = Some q" for q
    using s that by (auto elim!: StartCall_Inr simp: append_task_def task_by_id_def find_append split: option.splits)
  ultimately show ?thesis using l by (auto simp: live_run_def)
qed

interpretation live: control_rules en "live_run en" opened_row run_status settled_run for en
proof unfold_locales
  show "run_status Queued" "run_status WaitingHuman" "run_status Declined"
    by (auto simp: run_status_def CanTransition_iff lifecycle_simps)
next
  fix i S w calls maps
  assume "live_run en i S w"
  then show "live_run en i S (w\<lparr>w_forge := calls\<rparr>)" "live_run en i S (w\<lparr>w_maps := maps\<rparr>)" by (simp_all add: live_run_def)
next
  fix i S' w sid S j
  assume "live_run en i S' w" "awaitCallee (w_polls w j) \<in> {None, Some Cancelled}"
  then show "live_run en i S (w\<lparr>w_done := True\<rparr>)" unfolding live_run_def by (metis insertE option.distinct(1) option.sel singletonD)
qed (rule StartCall_keeps)

section \<open>Bodies of other packages\<close>

text \<open>What a run asks of the bodies it does not know: on a live run they keep the task, leave no step open that they
  opened, do not end the run's context, and set no outcome the lifecycle refuses.\<close>

definition calm_body :: "engine \<Rightarrow> body \<Rightarrow> bool" where
  "calm_body en body \<longleftrightarrow> (\<forall>tc w err tc' w' S. live_run en (run_id tc) S w \<longrightarrow> run_status (oc_status (tc_outcome tc)) \<longrightarrow>
     body tc w = (err, tc', w') \<longrightarrow> run_id tc' = run_id tc \<and> live_run en (run_id tc) S w' \<and> run_status (oc_status (tc_outcome tc')))"

text \<open>Less is asked for the history: a body changes the store by the store's operations, and keeps the task.\<close>

definition recorded_body :: "body \<Rightarrow> bool" where
  "recorded_body body \<longleftrightarrow> (\<forall>tc w err tc' w'. wf_db (w_db w) \<longrightarrow> body tc w = (err, tc', w') \<longrightarrow>
     run_id tc' = run_id tc \<and> wf_db (w_db w') \<and> store_step\<^sup>*\<^sup>* (w_db w) (w_db w'))"

definition bodies :: "(body \<Rightarrow> bool) \<Rightarrow> body StepRegistry \<Rightarrow> bool" where
  "bodies good_body registry \<longleftrightarrow> (\<forall>ty factory settings body. registry ty = Some factory \<longrightarrow> factory settings = Inr body \<longrightarrow> good_body body)"

lemma calm_registry: "bodies (calm_body en) registry \<Longrightarrow> live.registry_keeps en registry"
  unfolding bodies_def live.registry_keeps_def live.keeps_def calm_body_def by blast

lemma recorded_registry:
  assumes "bodies recorded_body registry" shows "history.registry_keeps d registry"
  unfolding history.registry_keeps_def history.keeps_def
proof (intro allI impI)
  fix ty factory settings body tc w err tc' w' S
  assume "registry ty = Some factory" "factory settings = Inr body" and h: "run_history d (run_id tc) S w" and b: "body tc w = (err, tc', w')"
  then have "recorded_body body" using assms unfolding bodies_def by blast
  with h b have "run_id tc' = run_id tc \<and> wf_db (w_db w') \<and> store_step\<^sup>*\<^sup>* (w_db w) (w_db w')"
    unfolding recorded_body_def run_history_def by blast
  with h show "run_id tc' = run_id tc \<and> run_history d (run_id tc) S w' \<and> True"
    unfolding run_history_def by (metis rtranclp_trans)
qed

lemma Run_settles_bodies:
  assumes "Compile en (rest ++ ControlStepTypes en cd) d = Inr flow" and "bodies (calm_body en) rest"
    and "live_run en (run_id tc) (open_rows (w_db w)) w" and "tc_outcome tc = no_outcome"
  shows "\<exists>r. task_by_id (w_db (snd (Run en flow tc w))) (run_id tc) = Some r \<and> t_status r \<noteq> Running
    \<and> open_rows (w_db (snd (Run en flow tc w))) = open_rows (w_db w)"
proof -
  have "live.registry_keeps en (rest ++ ControlStepTypes en cd)"
    by (rule live.registry_keeps_add [OF calm_registry [OF assms(2)] live.ControlStepTypes_keep])
  from live.Run_settles [OF this assms(1,3)] assms(4) show ?thesis
    by (simp add: settled_run_def run_status_def no_outcome_def)
qed



section \<open>A run on a concrete store\<close>

definition plain_texts :: task_texts where
  "plain_texts = \<lparr>tx_unmarshal = (\<lambda>_. None), tx_owner = ''acme'', tx_name = ''app''\<rparr>"

definition plain_engine :: engine where
  "plain_engine = \<lparr>en_scope = None, en_texts = plain_texts, en_marshal = (\<lambda>_. []), en_to_node = (\<lambda>_. None),
     en_encode = (\<lambda>_. ''{}''), en_results = (\<lambda>_. ''{}''), en_load = (\<lambda>_. Some []), en_error = (\<lambda>_. ''store''),
     en_interface_error = (\<lambda>_. ''interface''), en_output_error = (\<lambda>_. ''output''), en_call_error = (\<lambda>_. ''call''), en_duration = 0,
     en_forge = (\<lambda>_. None), en_float_int = id\<rparr>"

text \<open>A run of the claimed task of \<open>db_running\<close>, whose callees complete at the first read.\<close>

definition plain_context :: TaskContext where
  "plain_context = \<lparr>tc_task = claim_row ((issue_row empty_db ''acme'' ''app'' 7 ''Crash on start'' [] [] ''archie'')\<lparr>t_id := 1\<rparr>),
     tc_inputs = [], tc_outputs = None, tc_iface = yd_interface (plain_definition [] []), tc_stepResult = no_result, tc_stepResults = [],
     tc_skippedWhen = [], tc_stage = [], tc_stepID = 0, tc_stepPath = [], tc_branch = [], tc_outcome = no_outcome\<rparr>"

definition plain_world :: world where
  "plain_world = \<lparr>w_db = db_running, w_done = False, w_maps = [], w_sched = [],
     w_polls = (\<lambda>_. [PollStatus Running [] [], PollStatus Completed ''done'' []]), w_forge = []\<rparr>"

text \<open>Two calls side by side, then the end.\<close>

definition settings_node :: yaml where "settings_node = Node MappingNode [] [] []"

definition side_by_side :: YAMLDefinition where
  "side_by_side = plain_definition ''fan'' [StepRecord ''both'' [] no_settings [] [] None
       (Some [(''left'', [StepRecord ''l'' WorkflowCallStepName settings_node [] [] None None None]),
              (''right'', [StepRecord ''r'' WorkflowCallStepName settings_node [] [] None None None])]) None,
     StepRecord ''end'' FinishStepName no_settings [] [] None None None]"

lemma side_by_side_compiles: "\<exists>flow. Compile plain_engine (ControlStepTypes plain_engine calls_b) side_by_side = Inr flow"
proof -
  have nb: "\<not> blank ''b''" by (simp add: not_blank_visible ascii_visible_def byte_of_def)
  have call: "newWorkflowCallStage plain_engine calls_b settings_node = Inr (runWorkflowCall plain_engine (the (dec_call calls_b settings_node)))"
    by (simp add: newWorkflowCallStage_def settings_node_def calls_b_def check_call_settings_def nb)
  have fin: "\<exists>body. newFinishStage calls_b no_settings = Inr body"
    by (simp add: newFinishStage_def decodeSettings_def no_settings_def finishStatuses_def)
  have reg: "ControlStepTypes plain_engine calls_b WorkflowCallStepName = Some (newWorkflowCallStage plain_engine calls_b)"
    "ControlStepTypes plain_engine calls_b FinishStepName = Some (newFinishStage calls_b)"
    by (simp_all add: ControlStepTypes_def go_string_simps)
  from fin obtain body where "newFinishStage calls_b no_settings = Inr body" ..
  with call reg have "\<exists>stages. compile_steps plain_engine (ControlStepTypes plain_engine calls_b) (yd_steps side_by_side) = Inr stages"
    by (simp add: side_by_side_def plain_definition_def Let_def)
  then show ?thesis by (auto simp: Compile_def)
qed

lemma plain_world_live: "live_run plain_engine 1 {} plain_world"
proof -
  have "wf_db db_running" using reachable_db_running reachable_db_wf by blast
  then show ?thesis
    by (simp add: live_run_def plain_world_def callEnded_def callSucceeded_def lifecycle_simps task_by_id_def db_running_tasks
        claim_row_def issue_row_def default_row_def plain_engine_def in_scope_def)
qed



end
