(* ===== verification/Workflow_Runs_Cases.thy ===== *)
theory Workflow_Runs_Cases
  imports Workflow_Runs
begin

text \<open>
  How a run behaves where its parts meet: shutdown in the middle of a stage, a parallel step whose branches write
  outputs, a switch whose last step is skipped, and a retry that resumes after a skipped stage.
\<close>

section \<open>Shutdown\<close>


definition build_step :: StepStart where
  "build_step = \<lparr>ss_execution = 1, ss_attempt = 1, ss_parent = 0, ss_kind = StepKindStage, ss_name = ''build'', ss_called = 0\<rparr>"

lemma db_running_starts: "\<exists>ev d. StartStep build_step db_running = Inr (1, ev, d)"
  by (simp add: StartStep_def build_step_def ValidStepKind_def StepKindStage_def task_by_id_def db_running_tasks claim_row_def issue_row_def
      default_row_def verifyCallStep_def startParent_def CheckStepStart_def q_InsertStepExecution_def q_StartStepExecution_def
      insertEventQ_def Let_def lifecycle_simps)


section \<open>Outputs of parallel branches\<close>

lemma foldl_join_outputs: "tc_outputs (foldl join tc cs) = tc_outputs tc \<and> tc_iface (foldl join tc cs) = tc_iface tc"
  by (induction cs arbitrary: tc) (simp_all add: join_def)

lemma CheckOutputs_none_written:
  assumes "map_of (wi_outputs iface) name = Some spec" "os_required spec" shows "CheckOutputs iface [] \<noteq> None"
  using map_of_SomeD [OF assms(1)] assms(2) first_error_None [of _ "wi_outputs iface"]
  by (fastforce simp: CheckOutputs_def check_values_def)

text \<open>C40: what the branches of a parallel step write is lost to a run that has written nothing before it. Each branch
  allocates its own map of outputs, and the join takes results, usage and outcome only; so after the step the run
  has no output, and a workflow that requires one is parked for a missing output.\<close>

theorem parallel_outputs_lost:
  assumes "tc_outputs tc = None" and "run_parallel en arms tc w = (err, tc', w')"
  shows "run_outputs tc' w' = [] \<and> (\<forall>name spec. map_of (wi_outputs (tc_iface tc)) name = Some spec \<longrightarrow> os_required spec \<longrightarrow>
    validateFinishOutputs (tc_iface tc') (run_outputs tc' w') \<noteq> None)"
proof -
  have "tc_outputs tc' = None \<and> tc_iface tc' = tc_iface tc"
    using assms foldl_join_outputs by (auto simp: run_parallel_def Let_def split: prod.splits)
  then show ?thesis using CheckOutputs_none_written by (auto simp: run_outputs_def validateFinishOutputs_def)
qed

text \<open>A body that writes the output \<open>pr\<close>, and a workflow that requires it.\<close>

definition writes_pr :: body where
  "writes_pr tc w = (case put_outputs [(''pr'', JString ''7'')] tc w of (tc', w') \<Rightarrow> (None, tc', w'))"

definition pr_stage :: Stage where
  "pr_stage = \<lparr>sg_name = ''call'', sg_continue = False, sg_run = writes_pr\<rparr>"

definition pr_context :: TaskContext where
  "pr_context = plain_context\<lparr>tc_iface := (tc_iface plain_context)\<lparr>wi_outputs := [(''pr'', \<lparr>os_type = ''string'', os_required = True\<rparr>)]\<rparr>\<rparr>"

theorem parallel_outputs_lost_witness:
  "\<exists>err tc' w'. run_parallel plain_engine [(''left'', [pr_stage]), (''right'', [])] pr_context plain_world = (err, tc', w')
    \<and> w_maps w' = [[(''pr'', JString ''7'')]] \<and> validateFinishOutputs (tc_iface tc') (run_outputs tc' w') \<noteq> None"
proof -
  obtain err tc' w' where r: "run_parallel plain_engine [(''left'', [pr_stage]), (''right'', [])] pr_context plain_world = (err, tc', w')"
    by (cases "run_parallel plain_engine [(''left'', [pr_stage]), (''right'', [])] pr_context plain_world") auto
  have "w_maps w' = [[(''pr'', JString ''7'')]]"
    using r by (auto simp: run_parallel_def run_branches.simps running_branches_def upt_rec advance_def branch_stage_def pr_stage_def
        startChildStep_def clone_branch_def pr_context_def plain_context_def next_choice_def plain_world_def writes_pr_def put_outputs_def
        branch_outcome_def stageOutcome_def finishChildStep_def no_outcome_def Let_def branch_errors_def split: if_splits)
  moreover have "map_of (wi_outputs (tc_iface pr_context)) ''pr'' = Some \<lparr>os_type = ''string'', os_required = True\<rparr>" "tc_outputs pr_context = None"
    by (simp_all add: pr_context_def plain_context_def)
  ultimately show ?thesis using parallel_outputs_lost [OF _ r] r by auto
qed

section \<open>Steps that are skipped\<close>

text \<open>A switch of two comments, the second under a condition that is false.\<close>

definition comments :: codec where
  "comments = calls_b\<lparr>dec_comment := (\<lambda>_. Some \<lparr>cs_body = ''hello'', cs_on = []\<rparr>)\<rparr>"

definition comment_step :: "string \<Rightarrow> string \<Rightarrow> StepRecord" where
  "comment_step i cond = StepRecord i CommentStepName settings_node cond [] None None None"

definition greet_switch :: StepRecord where
  "greet_switch = StepRecord ''greet'' [] no_settings [] [] None None
     (Some (''inputs.kind'', [(switchDefault, [comment_step ''first'' [], comment_step ''second'' ''inputs.extra''])]))"

text \<open>The two steps, compiled and run in the context of the switch.\<close>

definition greeting :: body where
  "greeting tc w = call_forge plain_engine (Comment (t_owner (tc_task tc)) (t_repo (tc_task tc)) (t_issue (tc_task tc)) ''hello'') tc w"

lemma comment_stage:
  assumes "IsForgeBacked (tc_task tc)" "t_issue (tc_task tc) \<noteq> 0"
  shows "\<exists>body. newCommentStage plain_engine comments settings_node = Inr body \<and> body tc w = greeting tc w"
proof -
  have "\<not> blank ''hello''" by (simp add: not_blank_visible ascii_visible_def byte_of_def)
  then show ?thesis
    using assms by (simp add: newCommentStage_def decodeSettings_def settings_node_def comments_def greeting_def Let_def)
qed

lemma comment_body:
  assumes "IsForgeBacked (tc_task tc)" "t_issue (tc_task tc) \<noteq> 0"
  shows "run_typed plain_engine (newCommentStage plain_engine comments) (comment_step i cond) tc w = greeting tc w"
proof -
  have r: "renderSettings marshal to_node scope settings_node = settings_node" for marshal to_node scope
    by (simp add: renderSettings_def settings_node_def)
  from comment_stage [OF assms] obtain body where "newCommentStage plain_engine comments settings_node = Inr body" "body tc w = greeting tc w" by blast
  then show ?thesis by (simp add: run_typed_def comment_step_def r)
qed

lemma compile_comment:
  "compileStep plain_engine (ControlStepTypes plain_engine comments) (comment_step i cond)
    = Inr (wrapStep plain_engine (comment_step i cond) (run_typed plain_engine (newCommentStage plain_engine comments) (comment_step i cond)))"
proof -
  have "ControlStepTypes plain_engine comments CommentStepName = Some (newCommentStage plain_engine comments)"
    by (simp add: ControlStepTypes_def go_string_simps)
  moreover obtain body where "newCommentStage plain_engine comments settings_node = Inr body"
    using comment_stage [of plain_context plain_world] by (auto simp: plain_context_def IsForgeBacked_def claim_row_def issue_row_def default_row_def)
  ultimately show ?thesis by (simp add: comment_step_def Let_def)
qed

abbreviation entered :: "StepRecord \<Rightarrow> TaskContext \<Rightarrow> TaskContext" where
  "entered step tc \<equiv> tc\<lparr>tc_stepPath := joinStepPath (tc_stepPath tc) (branchStepName (tc_branch tc) (StageName step)),
     tc_stepResult := no_result, tc_skippedWhen := []\<rparr>"

lemma wrapStep_runs:
  assumes "step_runs en step (entered step tc)" "sr_retry step = None" "sr_id step \<noteq> []" "body (entered step tc) w = (None, tc2, w2)"
  shows "sg_run (wrapStep en step body) tc w =
    (None, tc2\<lparr>tc_stepResults := map_put (sr_id step) (tc_stepResult tc2) (tc_stepResults tc2), tc_stepPath := tc_stepPath tc\<rparr>, w2)"
  using assms by (simp add: wrapStep_def runAttempts_def step_attempts_def Let_def)

lemma wrapStep_skips:
  assumes "\<not> step_runs en step (entered step tc)"
  shows "sg_run (wrapStep en step body) tc w = (None, (entered step tc)\<lparr>tc_skippedWhen := sr_when step, tc_stepPath := tc_stepPath tc\<rparr>, w)"
  using assms by (simp add: wrapStep_def Let_def)

lemma branch_stage_succeeds:
  assumes "tc_stepID tc = 0" "sg_run stage tc w = (None, tc1, w1)" "oc_status (tc_outcome tc1) = []"
  shows "branch_stage en stage tc w = (None, tc1\<lparr>tc_stepID := 0\<rparr>, w1)"
proof -
  have "sg_run stage (tc\<lparr>tc_stepID := 0\<rparr>) w = (None, tc1, w1)" using assms(1,2) by (cases tc) simp
  with assms show ?thesis
    by (simp add: branch_stage_def startChildStep_def finishChildStep_def branch_outcome_def stageOutcome_def)
qed

text \<open>A switch that did its work is recorded as skipped when the last step of the chosen case was skipped: the
  mark the nested step leaves in the context is read as the switch's own. Here the first step of the case comments
  on the issue, and the stage still ends as skipped.\<close>

theorem switch_recorded_skipped:
  "\<exists>stage tc' w'. compileStep plain_engine (ControlStepTypes plain_engine comments) greet_switch = Inr stage
     \<and> sg_run stage plain_context plain_world = (None, tc', w')
     \<and> w_forge w' = [Comment ''acme'' ''app'' 7 ''hello'']
     \<and> stageOutcome (tc_skippedWhen tc') None = (StepSkipped, ''inputs.extra'')"
proof -
  let ?stages = "[wrapStep plain_engine (comment_step ''first'' []) (run_typed plain_engine (newCommentStage plain_engine comments) (comment_step ''first'' [])),
    wrapStep plain_engine (comment_step ''second'' ''inputs.extra'') (run_typed plain_engine (newCommentStage plain_engine comments) (comment_step ''second'' ''inputs.extra''))]"
  let ?stage = "wrapStep plain_engine greet_switch (run_switch plain_engine ''inputs.kind'' [(switchDefault, ?stages)])"
  have c: "compileStep plain_engine (ControlStepTypes plain_engine comments) greet_switch = Inr ?stage"
    by (simp add: greet_switch_def compile_comment Let_def)
  have ts: "trim_space ''inputs.extra'' = ''inputs.extra''" "trim_space ''inputs.kind'' = ''inputs.kind''"
    by (rule trim_space_visible; simp add: ascii_visible_def byte_of_def)+
  have on: "split_byte CHR ''.'' (trim_space ''inputs.kind'') = [''inputs'', ''kind'']"
    "parseCondition ''inputs.extra'' = Inr \<lparr>cn_path = ''inputs.extra'', cn_negate = False, cn_operator = [], cn_operand = []\<rparr>"
    by (simp_all add: parseCondition_def ts has_prefix_def)
  have sc: "scope_lookup (run_scope plain_engine tc) [''inputs'', k] = Val JNull" if "tc_inputs tc = []" for tc k
    using that by (simp add: run_scope_def referenceScope_def)
  have sp: "split_byte CHR ''.'' ''inputs.extra'' = [''inputs'', ''extra'']" by simp
  have first: "step_runs plain_engine (comment_step ''first'' []) tc" for tc by (simp add: step_runs_def comment_step_def)
  have second: "\<not> step_runs plain_engine (comment_step ''second'' ''inputs.extra'') tc" if "tc_inputs tc = []" for tc
    using that by (simp add: step_runs_def comment_step_def on holds_def sp sc truthy_def)
  have forge: "IsForgeBacked (tc_task plain_context)" "t_issue (tc_task plain_context) = 7" "t_owner (tc_task plain_context) = ''acme''"
      "t_repo (tc_task plain_context) = ''app''"
    by (simp_all add: plain_context_def IsForgeBacked_def claim_row_def issue_row_def default_row_def)
  have ctx: "tc_inputs plain_context = []" "tc_stepID plain_context = 0" "tc_branch plain_context = []" "tc_stepPath plain_context = []"
      "tc_outcome plain_context = no_outcome" "en_forge plain_engine call = None" "stringify m (Val JNull) = []" for call m
    by (simp_all add: plain_context_def plain_engine_def stringify_def)
  let ?tc = "(entered greet_switch plain_context)\<lparr>tc_branch := joinStepPath [] switchDefault\<rparr>"
  let ?tc1 = "(entered (comment_step ''first'' []) ?tc)\<lparr>tc_stepResults := map_put ''first'' no_result (tc_stepResults ?tc), tc_stepPath := tc_stepPath ?tc\<rparr>"
  let ?w1 = "plain_world\<lparr>w_forge := [Comment ''acme'' ''app'' 7 ''hello'']\<rparr>"
  have greet: "greeting (entered (comment_step ''first'' []) ?tc) plain_world = (None, entered (comment_step ''first'' []) ?tc, ?w1)"
    by (simp add: greeting_def call_forge_def ctx forge plain_world_def)
  have body: "run_typed plain_engine (newCommentStage plain_engine comments) (comment_step ''first'' []) (entered (comment_step ''first'' []) ?tc) plain_world
      = (None, entered (comment_step ''first'' []) ?tc, ?w1)"
    unfolding greet [symmetric] by (rule comment_body) (simp_all add: forge)
  have 1: "sg_run (hd ?stages) ?tc plain_world = (None, ?tc1, ?w1)"
    using wrapStep_runs [of plain_engine "comment_step ''first'' []" ?tc
        "run_typed plain_engine (newCommentStage plain_engine comments) (comment_step ''first'' [])" plain_world, OF first _ _ body]
    by (simp add: comment_step_def)
  let ?tc2 = "?tc1\<lparr>tc_stepID := 0\<rparr>"
  have 2: "sg_run (hd (tl ?stages)) ?tc2 ?w1 = (None, (entered (comment_step ''second'' ''inputs.extra'') ?tc2)\<lparr>tc_skippedWhen := ''inputs.extra'',
      tc_stepPath := tc_stepPath ?tc2\<rparr>, ?w1)"
    using wrapStep_skips [OF second, of ?tc2] ctx by (simp add: comment_step_def)
  have "\<exists>tc'. runBranch plain_engine ?stages ?tc plain_world = (None, tc', ?w1) \<and> tc_skippedWhen tc' = ''inputs.extra''"
    using branch_stage_succeeds [OF _ 1] branch_stage_succeeds [OF _ 2] ctx by (simp add: no_outcome_def)
  then obtain tc2 where "runBranch plain_engine ?stages ?tc plain_world = (None, tc2, ?w1)" "tc_skippedWhen tc2 = ''inputs.extra''" by blast
  then have "run_switch plain_engine ''inputs.kind'' [(switchDefault, ?stages)] (entered greet_switch plain_context) plain_world
      = (None, tc2\<lparr>tc_branch := []\<rparr>, ?w1)"
    by (simp add: run_switch_def on sc ctx switchDefault_def)
  from wrapStep_runs [of plain_engine greet_switch plain_context "run_switch plain_engine ''inputs.kind'' [(switchDefault, ?stages)]" plain_world, OF _ _ _ this] have "\<exists>tc' w'. sg_run ?stage plain_context plain_world = (None, tc', w') \<and> w_forge w' = [Comment ''acme'' ''app'' 7 ''hello'']
      \<and> tc_skippedWhen tc' = ''inputs.extra''"
    using \<open>tc_skippedWhen tc2 = ''inputs.extra''\<close> by (simp add: greet_switch_def step_runs_def)
  with c show ?thesis by (auto simp: stageOutcome_def)
qed

text \<open>A retry cannot resume after a stage that was skipped, although the run moved past it and kept the results for
  such a resume: when every run of the stage before the resume point was skipped, the retry is refused as
  incomplete.\<close>

theorem skipped_stage_blocks_resume:
  assumes "resume_From resume \<noteq> []" "resume_After resume \<noteq> []"
    and "\<forall>s\<in>set (steps d). s_execution s = i \<and> s_depth s = 0 \<and> s_kind s = StepKindStage \<and> s_name s = resume_After resume \<longrightarrow> s_status s = StepSkipped"
    and "guardTransition d i from Queued = None"
  shows "RetryTask i from wfl mode resume d = Inl ErrResumeIncomplete"
proof -
  have "filter (\<lambda>r. s_execution r = i \<and> s_depth r = 0 \<and> s_kind r = ''stage'' \<and> s_name r = resume_After resume
      \<and> s_status r \<in> set [''succeeded'', ''failed'']) (steps d) = []"
    using assms(3) by (auto simp: filter_empty_conv StepKindStage_def StepSkipped_def)
  then have "resumeResults d i resume = Inl ErrResumeIncomplete"
    using assms(1,2) by (simp only: resumeResults_def q_LatestStageResults_def) simp
  with assms(4) show ?thesis by (simp add: RetryTask_def)
qed

definition db_skipped :: db where
  "db_skipped = db_parked\<lparr>steps := map (\<lambda>s. s\<lparr>s_status := StepSkipped, s_detail := ''inputs.extra''\<rparr>) (steps db_parked)\<rparr>"

theorem skipped_stage_blocks_resume_witness:
  "RetryTask 1 Parked [] RetryContinuePushedWork \<lparr>resume_From = ''build'', resume_After = ''plan''\<rparr> db_skipped = Inl ErrResumeIncomplete
    \<and> map s_results (steps db_skipped) = [Some ''{plan}'']"
proof
  have "guardTransition db_skipped 1 Parked Queued = None"
    by (simp add: guardTransition_def db_skipped_def db_parked_def db_running_tasks task_by_id_def claim_row_def CanTransition_iff lifecycle_simps)
  then show "RetryTask 1 Parked [] RetryContinuePushedWork \<lparr>resume_From = ''build'', resume_After = ''plan''\<rparr> db_skipped = Inl ErrResumeIncomplete"
    by (intro skipped_stage_blocks_resume) (simp_all add: db_skipped_def db_parked_def)
qed (simp add: db_skipped_def db_parked_def)

end
