(* ===== verification/Task_Dispatcher.thy ===== *)
theory Task_Dispatcher
  imports Go_Prelude "HOL-Library.Multiset"
begin

text \<open>
  The dispatcher that limits how many tasks run (\<open>daemon/daemon.go\<close>, \<open>taskDispatcher\<close>): a limit over all tasks, one
  task per repository unless the repository allows more, and capacity that a run gives back while it waits on a
  callee and takes again afterwards.

  \<^item> The mutex makes every critical section one step; a definition here is one critical section, a function on the
    dispatcher. What runs between them, the goroutines, is a step relation: a run waits for the baton ahead of
    it, waits for a slot, runs and returns; a resumed run takes its place and its slot again beside it.
  \<^item> A channel is a number; the closed ones are listed. Closing a closed channel is the panic of Go, kept as a flag.
  \<^item> A hold is named by its index, in the order of submission. The two sections of \<open>Submit\<close> are one step: only
    \<open>Wait\<close> reads the counter between them.
\<close>

section \<open>State\<close>

record taskHold =
  hd_repo :: string
  hd_chain :: bool
  hd_baton :: "nat option"
  hd_slot :: bool
  hd_waits :: int
  hd_finished :: bool
  hd_id :: int
  hd_attempt :: int

record taskDispatcher =
  td_limit :: int
  td_active :: int
  td_repoTail :: "nat gomap"
  td_pending :: int
  td_holds :: "(int \<times> nat) list"
  td_heap :: "taskHold list"
  td_next :: nat
  td_closed :: "nat list"
  td_panic :: bool

definition newTaskDispatcher :: "int \<Rightarrow> taskDispatcher" where
  "newTaskDispatcher maxConcurrency = \<lparr>td_limit = maxConcurrency, td_active = 0, td_repoTail = [], td_pending = 0,
     td_holds = [], td_heap = [], td_next = 0, td_closed = [], td_panic = False\<rparr>"

definition set_hold :: "nat \<Rightarrow> (taskHold \<Rightarrow> taskHold) \<Rightarrow> taskDispatcher \<Rightarrow> taskDispatcher" where
  "set_hold h f d = d\<lparr>td_heap := (td_heap d)[h := f (td_heap d ! h)]\<rparr>"

section \<open>Critical sections\<close>

definition joinRepoLocked :: "string \<Rightarrow> nat \<Rightarrow> taskDispatcher \<Rightarrow> nat option \<times> taskDispatcher" where
  "joinRepoLocked repo baton d = (map_of (td_repoTail d) repo, d\<lparr>td_repoTail := map_put repo baton (td_repoTail d)\<rparr>)"

text \<open>The condition \<open>takeSlotLocked\<close> waits for, and what it then writes.\<close>

definition has_room :: "taskDispatcher \<Rightarrow> bool" where
  "has_room d \<longleftrightarrow> \<not> (td_limit d > 0 \<and> td_active d \<ge> td_limit d)"

definition takeSlotLocked :: "taskDispatcher \<Rightarrow> taskDispatcher" where
  "takeSlotLocked d = d\<lparr>td_active := td_active d + 1\<rparr>"

definition drop_slot :: "nat \<Rightarrow> taskDispatcher \<Rightarrow> taskDispatcher" where
  "drop_slot h d =
    (if hd_slot (td_heap d ! h)
     then set_hold h (hd_slot_update (\<lambda>_. False)) (d\<lparr>td_active := td_active d - 1\<rparr>) else d)"

definition drop_baton :: "nat \<Rightarrow> taskDispatcher \<Rightarrow> taskDispatcher" where
  "drop_baton h d = (case hd_baton (td_heap d ! h) of
     None \<Rightarrow> d
   | Some b \<Rightarrow>
       (let repo = hd_repo (td_heap d ! h);
            d1 = d\<lparr>td_closed := b # td_closed d, td_panic := td_panic d \<or> b \<in> set (td_closed d)\<rparr>;
            d2 = (if map_of (td_repoTail d1) repo = Some b
                  then d1\<lparr>td_repoTail := filter (\<lambda>(r, _). r \<noteq> repo) (td_repoTail d1)\<rparr> else d1)
        in set_hold h (hd_baton_update (\<lambda>_. None)) d2))"

definition giveBackLocked :: "nat \<Rightarrow> taskDispatcher \<Rightarrow> taskDispatcher" where
  "giveBackLocked h d = drop_baton h (drop_slot h d)"

definition SetMaxConcurrency :: "int \<Rightarrow> taskDispatcher \<Rightarrow> taskDispatcher" where
  "SetMaxConcurrency maxConcurrency d = d\<lparr>td_limit := maxConcurrency\<rparr>"

definition name_hold :: "nat \<Rightarrow> int \<Rightarrow> int \<Rightarrow> taskDispatcher \<Rightarrow> taskDispatcher" where
  "name_hold h i attempt d =
    (if i = 0 then d
     else set_hold h (\<lambda>hold. hold\<lparr>hd_id := i, hd_attempt := attempt\<rparr>) (d\<lparr>td_holds := map_put i h (td_holds d)\<rparr>))"

definition finishRun :: "nat \<Rightarrow> taskDispatcher \<Rightarrow> taskDispatcher" where
  "finishRun h d =
    (let d1 = set_hold h (hd_finished_update (\<lambda>_. True)) d;
         i = hd_id (td_heap d ! h);
         d2 = (if i \<noteq> 0 \<and> map_of (td_holds d1) i = Some h
               then d1\<lparr>td_holds := filter (\<lambda>(j, _). j \<noteq> i) (td_holds d1)\<rparr> else d1);
         d3 = giveBackLocked h d2
     in d3\<lparr>td_pending := td_pending d3 - 1\<rparr>)"

text \<open>The flag says whether a re-acquire is started.\<close>

definition setCallWaits :: "nat \<Rightarrow> int \<Rightarrow> taskDispatcher \<Rightarrow> taskDispatcher \<times> bool" where
  "setCallWaits h waits d =
    (let hold = td_heap d ! h in
     if map_of (td_holds d) (hd_id hold) \<noteq> Some h \<or> hd_finished hold then (d, False)
     else (let d1 = set_hold h (hd_waits_update (\<lambda>_. waits)) d
           in (if waits > 0 then giveBackLocked h d1 else d1, \<not> waits > 0 \<and> hd_waits hold > 0)))"

section \<open>Goroutines\<close>

text \<open>A submitted run: waiting for the baton ahead, waiting for a slot, in its process, returned. A re-acquire of a
  resumed run: not yet begun, waiting for a baton, waiting for a slot.\<close>

datatype run_phase = Waiting "nat option" | Entering | Process | Returned

datatype resume_phase = Resuming nat | Rejoining nat "nat option" | Retaking nat

definition Submit :: "bool \<Rightarrow> string \<Rightarrow> taskDispatcher \<Rightarrow> run_phase \<times> taskDispatcher" where
  "Submit concurrent repo d =
    (let hold = \<lparr>hd_repo = repo, hd_chain = False, hd_baton = None, hd_slot = False, hd_waits = 0, hd_finished = False,
           hd_id = 0, hd_attempt = 0\<rparr>;
         d1 = d\<lparr>td_pending := td_pending d + 1\<rparr>
     in if concurrent then (Waiting None, d1\<lparr>td_heap := td_heap d @ [hold]\<rparr>)
        else (case joinRepoLocked repo (td_next d)
                (d1\<lparr>td_heap := td_heap d @ [hold\<lparr>hd_chain := True, hd_baton := Some (td_next d)\<rparr>], td_next := td_next d + 1\<rparr>) of
            (previous, d2) \<Rightarrow> (Waiting previous, d2)))"

definition enter_run :: "nat \<Rightarrow> taskDispatcher \<Rightarrow> taskDispatcher" where
  "enter_run h d = set_hold h (hd_slot_update (\<lambda>_. True)) (takeSlotLocked d)"

text \<open>\<open>reacquire\<close> before and after its wait for the baton.\<close>

definition reacquire_join :: "nat \<Rightarrow> taskDispatcher \<Rightarrow> resume_phase option \<times> taskDispatcher" where
  "reacquire_join h d =
    (let hold = td_heap d ! h in
     if hd_finished hold \<or> hd_waits hold > 0 then (None, d)
     else if hd_chain hold \<and> hd_baton hold = None
     then (case joinRepoLocked (hd_repo hold) (td_next d)
             (set_hold h (hd_baton_update (\<lambda>_. Some (td_next d))) (d\<lparr>td_next := td_next d + 1\<rparr>)) of
         (previous, d') \<Rightarrow> (Some (Rejoining h previous), d'))
     else (Some (Rejoining h None), d))"

definition reacquire_slot :: "nat \<Rightarrow> taskDispatcher \<Rightarrow> taskDispatcher" where
  "reacquire_slot h d =
    (let d1 = takeSlotLocked d; hold = td_heap d ! h in
     if hd_slot hold then d1\<lparr>td_active := td_active d1 - 1\<rparr>
     else (let d2 = set_hold h (hd_slot_update (\<lambda>_. True)) d1
           in if hd_finished hold \<or> hd_waits hold > 0 then giveBackLocked h d2 else d2))"

definition released :: "nat option \<Rightarrow> taskDispatcher \<Rightarrow> bool" where
  "released previous d \<longleftrightarrow> (case previous of None \<Rightarrow> True | Some c \<Rightarrow> c \<in> set (td_closed d))"

type_synonym system = "taskDispatcher \<times> run_phase list \<times> resume_phase multiset"

text \<open>The runs.\<close>

inductive run_step :: "system \<Rightarrow> system \<Rightarrow> bool" where
  submit: "Submit concurrent repo d = (ph, d') \<Longrightarrow> run_step (d, ps, rs) (d', ps @ [ph], rs)"
| passed: "h < length ps \<Longrightarrow> ps ! h = Waiting previous \<Longrightarrow> released previous d \<Longrightarrow> run_step (d, ps, rs) (d, ps[h := Entering], rs)"
| enters: "h < length ps \<Longrightarrow> ps ! h = Entering \<Longrightarrow> has_room d \<Longrightarrow> run_step (d, ps, rs) (enter_run h d, ps[h := Process], rs)"
| named: "h < length ps \<Longrightarrow> ps ! h = Process \<Longrightarrow> run_step (d, ps, rs) (name_hold h i attempt d, ps, rs)"
| returns: "h < length ps \<Longrightarrow> ps ! h = Process \<Longrightarrow> run_step (d, ps, rs) (finishRun h d, ps[h := Returned], rs)"

text \<open>The runs, the snapshots of open calls, and the re-acquires they start.\<close>

inductive dispatcher_step :: "system \<Rightarrow> system \<Rightarrow> bool" where
  runs: "run_step s s' \<Longrightarrow> dispatcher_step s s'"
| waits: "h < length ps \<Longrightarrow> setCallWaits h n d = (d', spawn) \<Longrightarrow>
    dispatcher_step (d, ps, rs) (d', ps, if spawn then add_mset (Resuming h) rs else rs)"
| resumes: "reacquire_join h d = (next, d') \<Longrightarrow>
    dispatcher_step (d, ps, add_mset (Resuming h) rs) (d', ps, case next of None \<Rightarrow> rs | Some r \<Rightarrow> add_mset r rs)"
| rejoined: "released previous d \<Longrightarrow>
    dispatcher_step (d, ps, add_mset (Rejoining h previous) rs) (d, ps, add_mset (Retaking h) rs)"
| retakes: "has_room d \<Longrightarrow> dispatcher_step (d, ps, add_mset (Retaking h) rs) (reacquire_slot h d, ps, rs)"

text \<open>A running dispatcher may be resized at any time.\<close>

inductive sized_step :: "system \<Rightarrow> system \<Rightarrow> bool" where
  steps: "dispatcher_step s s' \<Longrightarrow> sized_step s s'"
| resizes: "sized_step (d, ps, rs) (SetMaxConcurrency n d, ps, rs)"

inductive_simps run_step_iff: "run_step (d, ps, rs) s'"

definition start :: "int \<Rightarrow> system" where
  "start limit = (newTaskDispatcher limit, [], {#})"

section \<open>Schedules\<close>

text \<open>A schedule picks the next move of the goroutines; it is refused when the move is not open. It makes the step
  relations executable.\<close>

datatype run_move = Submits bool string | Passes nat | Enters nat | Names nat int int | Returns nat

datatype move = Runs run_move | Waits nat int | Resumes nat | Rejoins nat "nat option" | Retakes nat

fun run_act :: "run_move \<Rightarrow> system \<Rightarrow> system option" where
  "run_act (Submits concurrent repo) (d, ps, rs) = (case Submit concurrent repo d of (ph, d') \<Rightarrow> Some (d', ps @ [ph], rs))"
| "run_act (Passes h) (d, ps, rs) =
    (if h < length ps then (case ps ! h of Waiting previous \<Rightarrow> if released previous d then Some (d, ps[h := Entering], rs) else None | _ \<Rightarrow> None)
     else None)"
| "run_act (Enters h) (d, ps, rs) = (if h < length ps \<and> ps ! h = Entering \<and> has_room d then Some (enter_run h d, ps[h := Process], rs) else None)"
| "run_act (Names h i attempt) (d, ps, rs) = (if h < length ps \<and> ps ! h = Process then Some (name_hold h i attempt d, ps, rs) else None)"
| "run_act (Returns h) (d, ps, rs) = (if h < length ps \<and> ps ! h = Process then Some (finishRun h d, ps[h := Returned], rs) else None)"

definition with_resume :: "resume_phase \<Rightarrow> resume_phase multiset \<Rightarrow> (resume_phase multiset \<Rightarrow> 'a) \<Rightarrow> 'a option" where
  "with_resume r rs k = (if r \<in># rs then Some (k (rs - {#r#})) else None)"

fun act :: "move \<Rightarrow> system \<Rightarrow> system option" where
  "act (Runs m) s = run_act m s"
| "act (Waits h n) (d, ps, rs) =
    (if h < length ps then (case setCallWaits h n d of (d', spawn) \<Rightarrow> Some (d', ps, if spawn then add_mset (Resuming h) rs else rs)) else None)"
| "act (Resumes h) (d, ps, rs) = with_resume (Resuming h) rs
    (\<lambda>rest. case reacquire_join h d of (next, d') \<Rightarrow> (d', ps, case next of None \<Rightarrow> rest | Some r \<Rightarrow> add_mset r rest))"
| "act (Rejoins h previous) (d, ps, rs) =
    (if released previous d then with_resume (Rejoining h previous) rs (\<lambda>rest. (d, ps, add_mset (Retaking h) rest)) else None)"
| "act (Retakes h) (d, ps, rs) = (if has_room d then with_resume (Retaking h) rs (\<lambda>rest. (reacquire_slot h d, ps, rest)) else None)"

fun schedule :: "('m \<Rightarrow> 's \<Rightarrow> 's option) \<Rightarrow> 'm list \<Rightarrow> 's \<Rightarrow> 's option" where
  "schedule f [] s = Some s"
| "schedule f (m # ms) s = (case f m s of None \<Rightarrow> None | Some s' \<Rightarrow> schedule f ms s')"

lemma schedule_steps:
  assumes "\<And>m s s'. f m s = Some s' \<Longrightarrow> R s s'" shows "schedule f ms s = Some t \<Longrightarrow> R\<^sup>*\<^sup>* s t"
proof (induction ms arbitrary: s)
  case (Cons m ms)
  then obtain s' where "f m s = Some s'" "schedule f ms s' = Some t" by (auto split: option.splits)
  with Cons.IH assms show ?case by (blast intro: converse_rtranclp_into_rtranclp)
qed simp

lemma run_act_step: "run_act m s = Some s' \<Longrightarrow> run_step s s'"
  by (induction m s rule: run_act.induct) (auto intro: run_step.intros split: prod.splits if_splits run_phase.splits)

lemma act_step: "act m s = Some s' \<Longrightarrow> dispatcher_step s s'"
proof (induction m s rule: act.induct)
  case (1 m s)
  then show ?case by (auto intro: dispatcher_step.runs run_act_step)
next
  case (2 h n d ps rs)
  then show ?case using dispatcher_step.waits [of h ps n d _ _ rs] by (cases "setCallWaits h n d") (force split: if_splits)
next
  case (3 h d ps rs)
  then show ?case using dispatcher_step.resumes [of h d _ _ ps "rs - {#Resuming h#}"]
    by (cases "reacquire_join h d") (auto simp: with_resume_def split: if_splits)
next
  case (4 h previous d ps rs)
  then show ?case using dispatcher_step.rejoined [of previous d ps h "rs - {#Rejoining h previous#}"]
    by (auto simp: with_resume_def split: if_splits)
next
  case (5 h d ps rs)
  then show ?case using dispatcher_step.retakes [of d ps h "rs - {#Retaking h#}"]
    by (auto simp: with_resume_def split: if_splits)
qed

lemma run_schedule: "schedule run_act ms s = Some t \<Longrightarrow> run_step\<^sup>*\<^sup>* s t"
  by (rule schedule_steps [of run_act]) (rule run_act_step)

lemma dispatcher_schedule: "schedule act ms s = Some t \<Longrightarrow> dispatcher_step\<^sup>*\<^sup>* s t"
  by (rule schedule_steps [of act]) (rule act_step)

lemma sized_schedule: "schedule act ms s = Some t \<Longrightarrow> sized_step\<^sup>*\<^sup>* s t"
  by (rule schedule_steps [of act]) (auto intro: sized_step.steps act_step)

lemmas dispatcher_eval = start_def newTaskDispatcher_def Submit_def joinRepoLocked_def released_def has_room_def enter_run_def takeSlotLocked_def
  set_hold_def name_hold_def setCallWaits_def giveBackLocked_def drop_slot_def drop_baton_def finishRun_def reacquire_join_def
  reacquire_slot_def with_resume_def Let_def

end
