(* ===== verification/Task_Dispatcher_Spec.thy ===== *)
theory Task_Dispatcher_Spec
  imports Task_Dispatcher
begin

text \<open>
  What the dispatcher guarantees: it counts exactly the runs that hold a slot and stays within its limit, closes no
  channel twice, cannot come to a standstill, and gives everything back. One task per repository at a time holds
  as long as no run waits on a callee, and is lost when one does.
\<close>

section \<open>Slots\<close>

fun slots :: "taskHold list \<Rightarrow> int" where
  "slots [] = 0"
| "slots (x # xs) = (if hd_slot x then 1 else 0) + slots xs"

lemma slots_append [simp]: "slots (xs @ ys) = slots xs + slots ys"
  by (induction xs) simp_all

lemma slots_update:
  "h < length xs \<Longrightarrow> slots (xs[h := x]) = slots xs + (if hd_slot x then 1 else 0) - (if hd_slot (xs ! h) then 1 else 0)"
  by (induction xs arbitrary: h) (auto split: nat.splits simp: less_Suc_eq_0_disj)

lemma slots_nonneg: "0 \<le> slots xs"
  by (induction xs) simp_all

lemma slots_pos: "0 < slots xs \<Longrightarrow> \<exists>h < length xs. hd_slot (xs ! h)"
proof (induction xs)
  case (Cons x xs)
  then show ?case by (cases "hd_slot x") (auto intro: exI [of _ 0] exI [of _ "Suc _"])
qed simp

fun unfinished :: "run_phase list \<Rightarrow> int" where
  "unfinished [] = 0"
| "unfinished (p # ps) = (if p = Returned then 0 else 1) + unfinished ps"

lemma unfinished_append [simp]: "unfinished (xs @ ys) = unfinished xs + unfinished ys"
  by (induction xs) simp_all

lemma unfinished_update:
  "h < length ps \<Longrightarrow> unfinished (ps[h := p]) = unfinished ps + (if p = Returned then 0 else 1) - (if ps ! h = Returned then 0 else 1)"
  by (induction ps arbitrary: h) (auto split: nat.splits simp: less_Suc_eq_0_disj)

section \<open>The invariant of the dispatcher\<close>

text \<open>Every channel is closed or is the baton of exactly one hold; the tail of a repository is a baton of it.\<close>

abbreviation baton_of :: "taskDispatcher \<Rightarrow> nat \<Rightarrow> nat option" where
  "baton_of d h \<equiv> hd_baton (td_heap d ! h)"

definition batons_ok :: "taskDispatcher \<Rightarrow> bool" where
  "batons_ok d \<longleftrightarrow> (\<forall>c \<in> set (td_closed d). c < td_next d) \<and>
     (\<forall>h b. h < length (td_heap d) \<longrightarrow> baton_of d h = Some b \<longrightarrow> b < td_next d \<and> b \<notin> set (td_closed d)) \<and>
     (\<forall>h h' b. h < length (td_heap d) \<longrightarrow> h' < length (td_heap d) \<longrightarrow> baton_of d h = Some b \<longrightarrow> baton_of d h' = Some b \<longrightarrow> h = h') \<and>
     (\<forall>c < td_next d. c \<in> set (td_closed d) \<or> (\<exists>h < length (td_heap d). baton_of d h = Some c)) \<and>
     (\<forall>r b. map_of (td_repoTail d) r = Some b \<longrightarrow> (\<exists>h < length (td_heap d). baton_of d h = Some b \<and> hd_repo (td_heap d ! h) = r))"

definition core_inv :: "taskDispatcher \<Rightarrow> bool" where
  "core_inv d \<longleftrightarrow> td_active d = slots (td_heap d) \<and> batons_ok d \<and> \<not> td_panic d"

lemma set_hold_simps [simp]:
  "length (td_heap (set_hold h f d)) = length (td_heap d)"
  "td_active (set_hold h f d) = td_active d" "td_limit (set_hold h f d) = td_limit d" "td_pending (set_hold h f d) = td_pending d"
  "td_repoTail (set_hold h f d) = td_repoTail d" "td_holds (set_hold h f d) = td_holds d" "td_next (set_hold h f d) = td_next d"
  "td_closed (set_hold h f d) = td_closed d" "td_panic (set_hold h f d) = td_panic d"
  by (simp_all add: set_hold_def)

lemma set_hold_nth:
  "h' < length (td_heap d) \<Longrightarrow> td_heap (set_hold h f d) ! h' = (if h = h' then f (td_heap d ! h) else td_heap d ! h')"
  by (simp add: set_hold_def nth_list_update)

lemma batons_ok_cong:
  assumes "length (td_heap d') = length (td_heap d)"
    and "\<And>h. h < length (td_heap d) \<Longrightarrow> baton_of d' h = baton_of d h \<and> hd_repo (td_heap d' ! h) = hd_repo (td_heap d ! h)"
    and "td_next d' = td_next d" "td_closed d' = td_closed d" "td_repoTail d' = td_repoTail d"
  shows "batons_ok d' = batons_ok d"
  using assms unfolding batons_ok_def by (auto; metis)

lemma core_set_hold:
  assumes "core_inv d" "h < length (td_heap d)" "hd_slot (f (td_heap d ! h)) = hd_slot (td_heap d ! h)"
    "hd_baton (f (td_heap d ! h)) = baton_of d h" "hd_repo (f (td_heap d ! h)) = hd_repo (td_heap d ! h)"
  shows "core_inv (set_hold h f d)"
proof -
  have "batons_ok (set_hold h f d) = batons_ok d"
    using assms by (intro batons_ok_cong) (auto simp: set_hold_nth)
  moreover have "slots (td_heap (set_hold h f d)) = slots (td_heap d)"
    using assms by (simp add: set_hold_def slots_update)
  ultimately show ?thesis using assms(1) by (simp add: core_inv_def)
qed

lemma core_fields:
  assumes "core_inv d" "td_heap d' = td_heap d" "td_next d' = td_next d" "td_closed d' = td_closed d" "td_repoTail d' = td_repoTail d"
    "td_active d' = td_active d" "td_panic d' = td_panic d"
  shows "core_inv d'"
  using assms batons_ok_cong [of d' d] by (simp add: core_inv_def)

subsection \<open>Giving back\<close>

lemma drop_slot_core:
  assumes "core_inv d" "h < length (td_heap d)" shows "core_inv (drop_slot h d)"
proof (cases "hd_slot (td_heap d ! h)")
  case True
  let ?d = "set_hold h (hd_slot_update (\<lambda>_. False)) (d\<lparr>td_active := td_active d - 1\<rparr>)"
  have "batons_ok ?d = batons_ok d" using assms(2) by (intro batons_ok_cong) (auto simp: set_hold_nth)
  moreover have "slots (td_heap ?d) = slots (td_heap d) - 1" using assms(2) True by (simp add: set_hold_def slots_update)
  ultimately show ?thesis using assms(1) True by (simp add: core_inv_def drop_slot_def)
qed (use assms in \<open>simp add: drop_slot_def\<close>)

lemma map_of_filter_key: "map_of (filter (\<lambda>(r, _). r \<noteq> k) m) = (map_of m)(k := None)"
  by (induction m) auto

lemma drop_baton_core:
  assumes "core_inv d" "h < length (td_heap d)" shows "core_inv (drop_baton h d)"
proof (cases "baton_of d h")
  case (Some b)
  have ok: "batons_ok d" using assms(1) by (simp add: core_inv_def)
  let ?d = "drop_baton h d"
  have len: "length (td_heap ?d) = length (td_heap d)" and nxt: "td_next ?d = td_next d" and cl: "td_closed ?d = b # td_closed d"
    and act: "td_active ?d = td_active d" and pan: "td_panic ?d = (td_panic d \<or> b \<in> set (td_closed d))"
    using Some by (simp_all add: drop_baton_def Let_def)
  have nth: "baton_of ?d h' = (if h = h' then None else baton_of d h')" "hd_repo (td_heap ?d ! h') = hd_repo (td_heap d ! h')"
    if "h' < length (td_heap d)" for h'
    using Some that by (auto simp: drop_baton_def Let_def set_hold_nth)
  have tail: "map_of (td_repoTail ?d) r = (if map_of (td_repoTail d) (hd_repo (td_heap d ! h)) = Some b \<and> r = hd_repo (td_heap d ! h) then None else map_of (td_repoTail d) r)" for r
    using Some by (simp add: drop_baton_def Let_def map_of_filter_key)
  have own: "h' = h" if "h' < length (td_heap d)" "baton_of d h' = Some b" for h'
    using ok that Some assms(2) unfolding batons_ok_def by blast
  have "slots (td_heap ?d) = slots (td_heap d)"
    using Some assms(2) by (simp add: drop_baton_def Let_def set_hold_def slots_update)
  moreover have "b \<notin> set (td_closed d)" using ok Some assms(2) unfolding batons_ok_def by blast
  moreover have "batons_ok ?d"
  proof -
    have 1: "\<forall>h' b'. h' < length (td_heap ?d) \<longrightarrow> baton_of ?d h' = Some b' \<longrightarrow> b' < td_next ?d \<and> b' \<notin> set (td_closed ?d)"
    proof (intro allI impI)
      fix h' b' assume "h' < length (td_heap ?d)" "baton_of ?d h' = Some b'"
      then have *: "h' < length (td_heap d)" "h \<noteq> h'" "baton_of d h' = Some b'" using nth len by (auto split: if_splits)
      then have "b' \<noteq> b" using own by blast
      with * ok show "b' < td_next ?d \<and> b' \<notin> set (td_closed ?d)" unfolding batons_ok_def nxt cl by auto
    qed
    have 2: "\<forall>h1 h2 b'. h1 < length (td_heap ?d) \<longrightarrow> h2 < length (td_heap ?d) \<longrightarrow> baton_of ?d h1 = Some b' \<longrightarrow> baton_of ?d h2 = Some b' \<longrightarrow> h1 = h2"
      using ok nth len unfolding batons_ok_def by (metis option.distinct(1))
    have 3: "\<forall>c < td_next ?d. c \<in> set (td_closed ?d) \<or> (\<exists>h' < length (td_heap ?d). baton_of ?d h' = Some c)"
    proof (intro allI impI)
      fix c assume "c < td_next ?d"
      with ok consider "c \<in> set (td_closed d)" | h' where "h' < length (td_heap d)" "baton_of d h' = Some c"
        unfolding batons_ok_def nxt by blast
      then show "c \<in> set (td_closed ?d) \<or> (\<exists>h' < length (td_heap ?d). baton_of ?d h' = Some c)"
      proof cases
        case 2
        show ?thesis
        proof (cases "h' = h")
          case False
          with 2 show ?thesis using nth len by auto
        qed (use 2 Some cl in auto)
      qed (simp add: cl)
    qed
    have 4: "\<forall>r b'. map_of (td_repoTail ?d) r = Some b' \<longrightarrow> (\<exists>h' < length (td_heap ?d). baton_of ?d h' = Some b' \<and> hd_repo (td_heap ?d ! h') = r)"
    proof (intro allI impI)
      fix r b' assume "map_of (td_repoTail ?d) r = Some b'"
      then have t: "map_of (td_repoTail d) r = Some b'"
        and g: "\<not> (map_of (td_repoTail d) (hd_repo (td_heap d ! h)) = Some b \<and> r = hd_repo (td_heap d ! h))" using tail by (auto split: if_splits)
      from t ok obtain h' where h': "h' < length (td_heap d)" "baton_of d h' = Some b'" "hd_repo (td_heap d ! h') = r"
        unfolding batons_ok_def by blast
      have "h' \<noteq> h"
      proof
        assume "h' = h"
        with h' Some have "b' = b" "r = hd_repo (td_heap d ! h)" by auto
        with g t show False by simp
      qed
      with h' show "\<exists>h' < length (td_heap ?d). baton_of ?d h' = Some b' \<and> hd_repo (td_heap ?d ! h') = r" using nth len by auto
    qed
    have "\<forall>c \<in> set (td_closed ?d). c < td_next ?d"
      using ok Some assms(2) unfolding batons_ok_def nxt cl by auto
    with 1 2 3 4 show ?thesis unfolding batons_ok_def by blast
  qed
  ultimately show ?thesis using assms(1) act pan by (simp add: core_inv_def)
qed (use assms in \<open>simp add: drop_baton_def\<close>)

lemma drop_slot_length [simp]: "length (td_heap (drop_slot h d)) = length (td_heap d)"
  by (simp add: drop_slot_def)

lemma giveBackLocked_core: "core_inv d \<Longrightarrow> h < length (td_heap d) \<Longrightarrow> core_inv (giveBackLocked h d)"
  by (simp add: giveBackLocked_def drop_slot_core drop_baton_core)

lemma giveBackLocked_nth:
  assumes "h < length (td_heap d)" "h' < length (td_heap d)"
  shows "td_heap (giveBackLocked h d) ! h' = (if h = h' then (td_heap d ! h)\<lparr>hd_slot := False, hd_baton := None\<rparr> else td_heap d ! h')"
proof -
  have "td_heap (drop_slot h d) ! j = (if h = j then (td_heap d ! h)\<lparr>hd_slot := False\<rparr> else td_heap d ! j)" if "j < length (td_heap d)" for j
    using that assms(1) by (auto simp: drop_slot_def set_hold_nth)
  with assms show ?thesis by (auto simp: giveBackLocked_def drop_baton_def Let_def set_hold_nth split: option.splits)
qed

lemma giveBackLocked_fields [simp]:
  "length (td_heap (giveBackLocked h d)) = length (td_heap d)" "td_holds (giveBackLocked h d) = td_holds d"
  "td_pending (giveBackLocked h d) = td_pending d" "td_next (giveBackLocked h d) = td_next d" "td_limit (giveBackLocked h d) = td_limit d"
  by (auto simp: giveBackLocked_def drop_baton_def drop_slot_def Let_def split: option.splits)

lemma giveBackLocked_active: "td_active (giveBackLocked h d) = td_active d - (if hd_slot (td_heap d ! h) then 1 else 0)"
  by (auto simp: giveBackLocked_def drop_baton_def drop_slot_def Let_def split: option.splits)

lemma giveBackLocked_closed:
  assumes "h < length (td_heap d)"
  shows "td_closed (giveBackLocked h d) = (case baton_of d h of None \<Rightarrow> td_closed d | Some b \<Rightarrow> b # td_closed d)"
proof -
  have "baton_of (drop_slot h d) h = baton_of d h" "td_closed (drop_slot h d) = td_closed d"
    using assms by (auto simp: drop_slot_def set_hold_nth)
  then show ?thesis by (auto simp: giveBackLocked_def drop_baton_def Let_def split: option.splits)
qed

subsection \<open>Taking\<close>

text \<open>A fresh baton at the tail of a repository, for a new hold or for one that has none.\<close>

lemma batons_fresh:
  assumes ok: "batons_ok d" and h: "h < length (td_heap d')"
    and old: "\<And>j. j < length (td_heap d') \<Longrightarrow> j \<noteq> h \<Longrightarrow> j < length (td_heap d) \<and> baton_of d' j = baton_of d j \<and> hd_repo (td_heap d' ! j) = hd_repo (td_heap d ! j)"
    and new: "h < length (td_heap d) \<Longrightarrow> baton_of d h = None" "baton_of d' h = Some (td_next d)"
    and len: "length (td_heap d) \<le> length (td_heap d')"
    and f: "td_next d' = Suc (td_next d)" "td_closed d' = td_closed d" "td_repoTail d' = map_put (hd_repo (td_heap d' ! h)) (td_next d) (td_repoTail d)"
  shows "batons_ok d'"
proof -
  have keep: "j < length (td_heap d') \<and> j \<noteq> h \<and> baton_of d' j = Some b \<and> hd_repo (td_heap d' ! j) = hd_repo (td_heap d ! j)"
    if "j < length (td_heap d)" "baton_of d j = Some b" for j b
    using that new(1) old [of j] len by (cases "j = h") auto
  have cases: "j = h \<and> b = td_next d \<or> j \<noteq> h \<and> j < length (td_heap d) \<and> baton_of d j = Some b" if "j < length (td_heap d')" "baton_of d' j = Some b" for j b
    using that old [of j] new(2) by (cases "j = h") auto
  have 1: "\<forall>j b. j < length (td_heap d') \<longrightarrow> baton_of d' j = Some b \<longrightarrow> b < td_next d' \<and> b \<notin> set (td_closed d')"
    using cases ok unfolding batons_ok_def f by (metis less_Suc_eq less_irrefl)
  have 2: "\<forall>j k b. j < length (td_heap d') \<longrightarrow> k < length (td_heap d') \<longrightarrow> baton_of d' j = Some b \<longrightarrow> baton_of d' k = Some b \<longrightarrow> j = k"
    using cases ok unfolding batons_ok_def by (metis less_irrefl)
  have 3: "\<forall>c < td_next d'. c \<in> set (td_closed d') \<or> (\<exists>j < length (td_heap d'). baton_of d' j = Some c)"
    using ok keep h new(2) unfolding batons_ok_def f by (metis less_Suc_eq)
  have 4: "\<forall>r b. map_of (td_repoTail d') r = Some b \<longrightarrow> (\<exists>j < length (td_heap d'). baton_of d' j = Some b \<and> hd_repo (td_heap d' ! j) = r)"
  proof (intro allI impI)
    fix r b assume t: "map_of (td_repoTail d') r = Some b"
    show "\<exists>j < length (td_heap d'). baton_of d' j = Some b \<and> hd_repo (td_heap d' ! j) = r"
    proof (cases "r = hd_repo (td_heap d' ! h)")
      case True
      with t f(3) new(2) h show ?thesis by auto
    next
      case False
      with t f(3) have "map_of (td_repoTail d) r = Some b" by simp
      with ok keep show ?thesis unfolding batons_ok_def by (metis (no_types, lifting))
    qed
  qed
  have "\<forall>c \<in> set (td_closed d'). c < td_next d'" using ok unfolding batons_ok_def f by auto
  with 1 2 3 4 show ?thesis unfolding batons_ok_def by blast
qed

lemma Submit_core:
  assumes "core_inv d" "Submit concurrent repo d = (ph, d')" shows "core_inv d'"
proof (cases concurrent)
  case True
  with assms(2) have d': "td_heap d' = td_heap d @ [\<lparr>hd_repo = repo, hd_chain = False, hd_baton = None, hd_slot = False, hd_waits = 0,
      hd_finished = False, hd_id = 0, hd_attempt = 0\<rparr>]" "td_active d' = td_active d" "td_panic d' = td_panic d" "td_next d' = td_next d"
      "td_closed d' = td_closed d" "td_repoTail d' = td_repoTail d"
    by (auto simp: Submit_def)
  have "batons_ok d'"
    using assms(1) unfolding core_inv_def batons_ok_def d'
    by (auto simp: nth_append less_Suc_eq) (metis less_SucI less_not_refl)+
  with assms(1) d' show ?thesis by (simp add: core_inv_def)
next
  case False
  with assms(2) have d': "td_heap d' = td_heap d @ [\<lparr>hd_repo = repo, hd_chain = True, hd_baton = Some (td_next d), hd_slot = False, hd_waits = 0,
      hd_finished = False, hd_id = 0, hd_attempt = 0\<rparr>]" "td_active d' = td_active d" "td_panic d' = td_panic d" "td_next d' = Suc (td_next d)"
      "td_closed d' = td_closed d" "td_repoTail d' = map_put repo (td_next d) (td_repoTail d)"
    by (auto simp: Submit_def joinRepoLocked_def Let_def)
  have "batons_ok d'"
    by (rule batons_fresh [of d "length (td_heap d)"]) (use assms(1) d' in \<open>auto simp: core_inv_def nth_append\<close>)
  with assms(1) d' show ?thesis by (simp add: core_inv_def)
qed

lemma core_take:
  assumes "core_inv d" "h < length (td_heap d)" "\<not> hd_slot (td_heap d ! h)"
  shows "core_inv (set_hold h (hd_slot_update (\<lambda>_. True)) (takeSlotLocked d))"
proof -
  let ?d = "set_hold h (hd_slot_update (\<lambda>_. True)) (takeSlotLocked d)"
  have "batons_ok ?d = batons_ok d" using assms(2) by (intro batons_ok_cong) (auto simp: set_hold_nth takeSlotLocked_def)
  moreover have "slots (td_heap ?d) = slots (td_heap d) + 1" using assms by (simp add: set_hold_def slots_update takeSlotLocked_def)
  ultimately show ?thesis using assms(1) by (simp add: core_inv_def takeSlotLocked_def)
qed

lemma reacquire_join_core:
  assumes "core_inv d" "h < length (td_heap d)" "reacquire_join h d = (next, d')" shows "core_inv d'"
proof (cases "\<not> (hd_finished (td_heap d ! h) \<or> hd_waits (td_heap d ! h) > 0) \<and> hd_chain (td_heap d ! h) \<and> baton_of d h = None")
  case True
  with assms(3) have d': "td_heap d' = (td_heap d)[h := (td_heap d ! h)\<lparr>hd_baton := Some (td_next d)\<rparr>]" "td_active d' = td_active d"
      "td_panic d' = td_panic d" "td_next d' = Suc (td_next d)" "td_closed d' = td_closed d"
      "td_repoTail d' = map_put (hd_repo (td_heap d ! h)) (td_next d) (td_repoTail d)"
    by (auto simp: reacquire_join_def joinRepoLocked_def Let_def set_hold_def)
  have "batons_ok d'"
    by (rule batons_fresh [of d h]) (use assms(1,2) True d' in \<open>auto simp: core_inv_def\<close>)
  moreover have "slots (td_heap d') = slots (td_heap d)" using assms(2) d' by (simp add: slots_update)
  ultimately show ?thesis using assms(1) d' by (simp add: core_inv_def)
next
  case False
  with assms show ?thesis by (auto simp: reacquire_join_def Let_def split: if_splits)
qed

lemma reacquire_slot_core:
  assumes "core_inv d" "h < length (td_heap d)" shows "core_inv (reacquire_slot h d)"
proof (cases "hd_slot (td_heap d ! h)")
  case True
  then show ?thesis using assms core_fields [OF assms(1)] by (simp add: reacquire_slot_def takeSlotLocked_def)
next
  case False
  with core_take [OF assms] giveBackLocked_core show ?thesis using assms(2) by (simp add: reacquire_slot_def takeSlotLocked_def Let_def)
qed

section \<open>The invariant of the system\<close>

definition hold_ok :: "taskHold \<Rightarrow> run_phase \<Rightarrow> bool" where
  "hold_ok hold ph \<longleftrightarrow> hd_finished hold = (ph = Returned) \<and> (hd_slot hold \<longrightarrow> ph = Process) \<and> (ph = Returned \<longrightarrow> hd_baton hold = None)
     \<and> (\<forall>c. ph = Waiting (Some c) \<longrightarrow> (\<exists>b. hd_baton hold = Some b \<and> c < b))"

definition late :: "run_phase list \<Rightarrow> nat \<Rightarrow> bool" where
  "late ps h \<longleftrightarrow> h < length ps \<and> (ps ! h = Process \<or> ps ! h = Returned)"

fun resumed :: "resume_phase \<Rightarrow> nat" where
  "resumed (Resuming h) = h" | "resumed (Rejoining h p) = h" | "resumed (Retaking h) = h"

definition sys_inv :: "system \<Rightarrow> bool" where
  "sys_inv s = (case s of (d, ps, rs) \<Rightarrow>
     core_inv d \<and> length ps = length (td_heap d) \<and> td_pending d = unfinished ps
     \<and> (\<forall>h < length ps. hold_ok (td_heap d ! h) (ps ! h))
     \<and> (\<forall>i h. map_of (td_holds d) i = Some h \<longrightarrow> late ps h)
     \<and> (\<forall>r \<in># rs. late ps (resumed r))
     \<and> (\<forall>h c. Rejoining h (Some c) \<in># rs \<longrightarrow> c < td_next d))"

lemma sys_invI:
  assumes "core_inv d" "length ps = length (td_heap d)" "td_pending d = unfinished ps"
    "\<And>h. h < length ps \<Longrightarrow> hold_ok (td_heap d ! h) (ps ! h)" "\<And>i h. map_of (td_holds d) i = Some h \<Longrightarrow> late ps h"
    "\<And>r. r \<in># rs \<Longrightarrow> late ps (resumed r)" "\<And>h c. Rejoining h (Some c) \<in># rs \<Longrightarrow> c < td_next d"
  shows "sys_inv (d, ps, rs)"
  using assms unfolding sys_inv_def by blast

lemma sys_invD:
  assumes "sys_inv (d, ps, rs)"
  shows "core_inv d" "length ps = length (td_heap d)" "td_pending d = unfinished ps"
    "\<And>h. h < length ps \<Longrightarrow> hold_ok (td_heap d ! h) (ps ! h)" "\<And>i h. map_of (td_holds d) i = Some h \<Longrightarrow> late ps h"
    "\<And>r. r \<in># rs \<Longrightarrow> late ps (resumed r)" "\<And>h c. Rejoining h (Some c) \<in># rs \<Longrightarrow> c < td_next d"
  using assms unfolding sys_inv_def by blast+

lemma sys_inv_start: "sys_inv (start limit)"
  by (simp add: sys_inv_def start_def newTaskDispatcher_def core_inv_def batons_ok_def)

lemma late_update: "late ps h' \<Longrightarrow> ps ! h \<noteq> Process \<and> ps ! h \<noteq> Returned \<or> ph = Process \<or> ph = Returned \<Longrightarrow> late (ps[h := ph]) h'"
  by (cases "h = h'") (auto simp: late_def)

lemma late_append: "late ps h \<Longrightarrow> late (ps @ qs) h"
  by (auto simp: late_def nth_append)

lemma hold_ok_given_back: "hold_ok hold Process \<Longrightarrow> hold_ok (hold\<lparr>hd_slot := False, hd_baton := None\<rparr>) Process"
  by (simp add: hold_ok_def)

lemma Submit_shape:
  assumes "Submit concurrent repo d = (ph, d')" "core_inv d"
  obtains hold where "td_heap d' = td_heap d @ [hold]" "hold_ok hold ph" "ph \<noteq> Returned" "td_pending d' = td_pending d + 1"
    "td_holds d' = td_holds d" "td_next d \<le> td_next d'"
proof (cases concurrent)
  case True
  with assms(1) that show ?thesis by (auto simp: Submit_def hold_ok_def)
next
  case False
  let ?hold = "\<lparr>hd_repo = repo, hd_chain = True, hd_baton = Some (td_next d), hd_slot = False, hd_waits = 0,
      hd_finished = False, hd_id = 0, hd_attempt = 0\<rparr>"
  have "c < td_next d" if "map_of (td_repoTail d) repo = Some c" for c
    using assms(2) that unfolding core_inv_def batons_ok_def by blast
  with False assms(1) have "hold_ok ?hold ph" by (auto simp: Submit_def joinRepoLocked_def Let_def hold_ok_def)
  with False assms(1) that [of ?hold] show ?thesis by (auto simp: Submit_def joinRepoLocked_def Let_def)
qed

lemma sys_inv_submit:
  assumes i: "sys_inv (d, ps, rs)" and s: "Submit concurrent repo d = (ph, d')" shows "sys_inv (d', ps @ [ph], rs)"
proof -
  note D = sys_invD [OF i]
  obtain hold where new: "td_heap d' = td_heap d @ [hold]" "hold_ok hold ph" "ph \<noteq> Returned" "td_pending d' = td_pending d + 1"
    "td_holds d' = td_holds d" "td_next d \<le> td_next d'" using Submit_shape [OF s D(1)] .
  show ?thesis
  proof (rule sys_invI)
    show "core_inv d'" by (rule Submit_core [OF D(1) s])
    show "hold_ok (td_heap d' ! h) ((ps @ [ph]) ! h)" if "h < length (ps @ [ph])" for h
      using that D(2,4) new(1,2) by (auto simp: nth_append less_Suc_eq)
    show "c < td_next d'" if "Rejoining h (Some c) \<in># rs" for h c using D(7) [OF that] new(6) by simp
  qed (use D new late_append in auto)
qed

lemma sys_inv_passed:
  assumes i: "sys_inv (d, ps, rs)" and h: "h < length ps" "ps ! h = Waiting previous" shows "sys_inv (d, ps[h := Entering], rs)"
proof -
  note D = sys_invD [OF i]
  show ?thesis
  proof (rule sys_invI)
    show "hold_ok (td_heap d ! j) (ps[h := Entering] ! j)" if "j < length (ps[h := Entering])" for j
      using that D(4) [of j] h by (auto simp: nth_list_update hold_ok_def)
  qed (use D h in \<open>auto simp: unfinished_update intro: late_update\<close>)
qed

lemma sys_inv_enters:
  assumes i: "sys_inv (d, ps, rs)" and h: "h < length ps" "ps ! h = Entering" shows "sys_inv (enter_run h d, ps[h := Process], rs)"
proof -
  note D = sys_invD [OF i]
  have f: "td_holds (enter_run h d) = td_holds d" "td_pending (enter_run h d) = td_pending d" "td_next (enter_run h d) = td_next d"
    "length (td_heap (enter_run h d)) = length (td_heap d)"
    "j < length (td_heap d) \<Longrightarrow> td_heap (enter_run h d) ! j = (if h = j then (td_heap d ! h)\<lparr>hd_slot := True\<rparr> else td_heap d ! j)" for j
    by (simp_all add: enter_run_def takeSlotLocked_def set_hold_nth)
  have "\<not> hd_slot (td_heap d ! h)" using D(4) [OF h(1)] h(2) by (simp add: hold_ok_def)
  show ?thesis
  proof (rule sys_invI)
    show "core_inv (enter_run h d)" unfolding enter_run_def using core_take [OF D(1) _ \<open>\<not> hd_slot _\<close>] h D(2) by simp
    show "hold_ok (td_heap (enter_run h d) ! j) (ps[h := Process] ! j)" if "j < length (ps[h := Process])" for j
      using that D(4) [of j] D(2) h f by (auto simp: nth_list_update hold_ok_def)
  qed (use D h f in \<open>auto simp: unfinished_update intro: late_update\<close>)
qed

lemma name_hold_fields:
  assumes "k \<noteq> 0"
  shows "td_holds (name_hold h k attempt d) = map_put k h (td_holds d)" "td_pending (name_hold h k attempt d) = td_pending d"
    "td_next (name_hold h k attempt d) = td_next d" "length (td_heap (name_hold h k attempt d)) = length (td_heap d)"
    "td_heap (name_hold h k attempt d) = (td_heap d)[h := (td_heap d ! h)\<lparr>hd_id := k, hd_attempt := attempt\<rparr>]"
  using assms by (simp_all add: name_hold_def) (simp add: set_hold_def)

lemma sys_inv_named:
  assumes i: "sys_inv (d, ps, rs)" and h: "h < length ps" "ps ! h = Process" shows "sys_inv (name_hold h k attempt d, ps, rs)"
proof (cases "k = 0")
  case False
  note D = sys_invD [OF i]
  let ?d = "name_hold h k attempt d"
  let ?n = "d\<lparr>td_holds := map_put k h (td_holds d)\<rparr>"
  have "core_inv ?n" by (rule core_fields [OF D(1)]) simp_all
  then have core: "core_inv ?d" using False h D(2) by (simp add: name_hold_def core_set_hold)
  note f = name_hold_fields [OF False, of h attempt d]
  show ?thesis
  proof (rule sys_invI)
    show "hold_ok (td_heap ?d ! j) (ps ! j)" if "j < length ps" for j
      using that D(4) [of j] D(2) h f(5) by (cases "h = j") (simp_all add: hold_ok_def)
    show "late ps j" if "map_of (td_holds ?d) m = Some j" for m j
      using that D(5) h f(1) by (auto simp: late_def split: if_splits)
  qed (use D h f core in auto)
qed (use i in \<open>simp add: name_hold_def\<close>)

lemma sys_inv_returns:
  assumes i: "sys_inv (d, ps, rs)" and h: "h < length ps" "ps ! h = Process" shows "sys_inv (finishRun h d, ps[h := Returned], rs)"
proof -
  note D = sys_invD [OF i]
  let ?d = "finishRun h d"
  obtain d2 where d2: "td_heap d2 = (td_heap d)[h := (td_heap d ! h)\<lparr>hd_finished := True\<rparr>]" "core_inv d2" "td_pending d2 = td_pending d" "td_next d2 = td_next d"
      "\<And>m j. map_of (td_holds d2) m = Some j \<Longrightarrow> map_of (td_holds d) m = Some j" "?d = (giveBackLocked h d2)\<lparr>td_pending := td_pending d - 1\<rparr>"
  proof -
    let ?d1 = "set_hold h (hd_finished_update (\<lambda>_. True)) d"
    let ?d2 = "if hd_id (td_heap d ! h) \<noteq> 0 \<and> map_of (td_holds ?d1) (hd_id (td_heap d ! h)) = Some h
        then ?d1\<lparr>td_holds := filter (\<lambda>(j, _). j \<noteq> hd_id (td_heap d ! h)) (td_holds ?d1)\<rparr> else ?d1"
    have "core_inv ?d1" using D(1,2) h by (intro core_set_hold) simp_all
    then have "core_inv ?d2" using core_fields [of ?d1] by simp
    then show ?thesis by (rule that [of ?d2, rotated]) (auto simp: set_hold_def finishRun_def Let_def map_of_filter_key split: if_splits)
  qed
  have len: "length (td_heap d2) = length (td_heap d)" using d2(1) by simp
  have nth: "td_heap ?d ! j = (if h = j then (td_heap d ! h)\<lparr>hd_finished := True, hd_slot := False, hd_baton := None\<rparr> else td_heap d ! j)"
    if "j < length (td_heap d)" for j
    using that d2(6) giveBackLocked_nth [of h d2 j] len d2(1) h D(2) by (auto simp: nth_list_update)
  show ?thesis
  proof (rule sys_invI)
    show "core_inv ?d" using core_fields [OF giveBackLocked_core [OF d2(2), of h]] h D(2) len d2(6) by simp
    show "td_pending ?d = unfinished (ps[h := Returned])" using D(3) h d2(6) by (simp add: unfinished_update)
    show "hold_ok (td_heap ?d ! j) (ps[h := Returned] ! j)" if "j < length (ps[h := Returned])" for j
      using that D(4) [of j] D(2) h nth [of j] by (auto simp: nth_list_update hold_ok_def)
    show "late (ps[h := Returned]) j" if "map_of (td_holds ?d) m = Some j" for m j
    proof -
      from that d2(6) have "map_of (td_holds d2) m = Some j" by simp
      from D(5) [OF d2(5) [OF this]] show ?thesis by (rule late_update) simp
    qed
  qed (use D d2 len late_update in auto)
qed

text \<open>A change of one hold in its process that touches neither the counter of runs nor their names.\<close>

lemma sys_inv_hold:
  assumes i: "sys_inv (d, ps, rs)" and h: "late ps h" and "core_inv d'"
    and f: "length (td_heap d') = length (td_heap d)" "td_pending d' = td_pending d" "td_holds d' = td_holds d" "td_next d \<le> td_next d'"
    and nth: "\<And>j. j < length ps \<Longrightarrow> j \<noteq> h \<Longrightarrow> td_heap d' ! j = td_heap d ! j" "hold_ok (td_heap d' ! h) (ps ! h)"
    and rs: "\<And>r. r \<in># rs' \<Longrightarrow> r \<in># rs \<or> resumed r = h \<and> (\<forall>c. r = Rejoining h (Some c) \<longrightarrow> c < td_next d')"
  shows "sys_inv (d', ps, rs')"
proof (rule sys_invI)
  note D = sys_invD [OF i]
  show "hold_ok (td_heap d' ! j) (ps ! j)" if "j < length ps" for j
    using that D(4) [of j] nth by (cases "j = h") auto
  show "late ps (resumed r)" if "r \<in># rs'" for r using rs [OF that] D(6) h by auto
  show "c < td_next d'" if "Rejoining j (Some c) \<in># rs'" for j c
    using rs [OF that] D(7) [of j c] f(4) by auto
qed (use sys_invD [OF i] assms in auto)

lemma sys_inv_waits:
  assumes i: "sys_inv (d, ps, rs)" and h: "h < length ps" and w: "setCallWaits h n d = (d', spawn)"
  shows "sys_inv (d', ps, if spawn then add_mset (Resuming h) rs else rs)"
proof (cases "map_of (td_holds d) (hd_id (td_heap d ! h)) \<noteq> Some h \<or> hd_finished (td_heap d ! h)")
  case True
  with w i show ?thesis by (auto simp: setCallWaits_def)
next
  case False
  note D = sys_invD [OF i]
  let ?d = "set_hold h (hd_waits_update (\<lambda>_. n)) d"
  have lt: "late ps h" using D(5) False by blast
  then have pr: "ps ! h = Process" using D(4) [OF h] False by (auto simp: late_def hold_ok_def)
  have d': "d' = (if n > 0 then giveBackLocked h ?d else ?d)" using w False by (auto simp: setCallWaits_def Let_def split: if_splits)
  have core: "core_inv ?d" using D(1,2) h by (intro core_set_hold) simp_all
  have nth: "td_heap ?d ! j = (if h = j then (td_heap d ! h)\<lparr>hd_waits := n\<rparr> else td_heap d ! j)" if "j < length ps" for j
    using that D(2) by (simp add: set_hold_nth)
  have ok: "hold_ok (td_heap ?d ! h) Process" using D(4) [OF h] pr nth [OF h] by (simp add: hold_ok_def)
  have gb: "td_heap (giveBackLocked h ?d) ! j = (if h = j then (td_heap ?d ! h)\<lparr>hd_slot := False, hd_baton := None\<rparr> else td_heap ?d ! j)" if "j < length ps" for j
    using giveBackLocked_nth [of h ?d j] that h D(2) by simp
  show ?thesis
  proof (rule sys_inv_hold [OF i lt])
    show "core_inv d'" using core giveBackLocked_core [OF core, of h] h D(2) by (simp add: d')
    show "td_heap d' ! j = td_heap d ! j" if "j < length ps" "j \<noteq> h" for j
      using that nth gb by (simp add: d')
    show "hold_ok (td_heap d' ! h) (ps ! h)"
      using ok gb [OF h] hold_ok_given_back [OF ok] pr by (simp add: d')
  qed (auto simp: d' split: if_splits)
qed

lemma sys_inv_resumes:
  assumes i: "sys_inv (d, ps, add_mset (Resuming h) rs)" and j: "reacquire_join h d = (next, d')"
  shows "sys_inv (d', ps, case next of None \<Rightarrow> rs | Some r \<Rightarrow> add_mset r rs)"
proof -
  note D = sys_invD [OF i]
  have lt: "late ps h" using D(6) [of "Resuming h"] by simp
  then have h: "h < length ps" by (simp add: late_def)
  show ?thesis
  proof (cases "\<not> (hd_finished (td_heap d ! h) \<or> hd_waits (td_heap d ! h) > 0) \<and> hd_chain (td_heap d ! h) \<and> baton_of d h = None")
    case True
    then have pr: "ps ! h = Process" using D(4) [OF h] lt by (auto simp: late_def hold_ok_def)
    obtain previous where nx: "next = Some (Rejoining h previous)" and pv: "previous = map_of (td_repoTail d) (hd_repo (td_heap d ! h))"
      and d': "td_heap d' = (td_heap d)[h := (td_heap d ! h)\<lparr>hd_baton := Some (td_next d)\<rparr>]" "td_next d' = Suc (td_next d)"
        "td_pending d' = td_pending d" "td_holds d' = td_holds d"
      using True j by (auto simp: reacquire_join_def joinRepoLocked_def Let_def set_hold_def)
    have prev: "c < td_next d" if "previous = Some c" for c using that pv D(1) unfolding core_inv_def batons_ok_def by metis
    show ?thesis unfolding nx option.case
    proof (rule sys_inv_hold [OF i lt])
      show "core_inv d'" using reacquire_join_core [OF D(1) _ j] h D(2) by simp
      show "hold_ok (td_heap d' ! h) (ps ! h)" using D(4) [OF h] pr h D(2) d'(1) by (simp add: hold_ok_def)
      show "r \<in># add_mset (Resuming h) rs \<or> resumed r = h \<and> (\<forall>c. r = Rejoining h (Some c) \<longrightarrow> c < td_next d')"
        if "r \<in># add_mset (Rejoining h previous) rs" for r
        using that prev d'(2) by (auto simp: less_Suc_eq)
    qed (use d' in auto)
  next
    case False
    then have "d' = d" "next = None \<or> next = Some (Rejoining h None)" using j by (auto simp: reacquire_join_def Let_def split: if_splits)
    then show ?thesis
      using D(4) [OF h] by (intro sys_inv_hold [OF i lt]) (auto simp: D(1))
  qed
qed

lemma sys_inv_rejoined:
  assumes i: "sys_inv (d, ps, add_mset (Rejoining h previous) rs)" shows "sys_inv (d, ps, add_mset (Retaking h) rs)"
proof -
  note D = sys_invD [OF i]
  have lt: "late ps h" using D(6) [of "Rejoining h previous"] by simp
  then have "hold_ok (td_heap d ! h) (ps ! h)" using D(4) by (simp add: late_def)
  then show ?thesis by (intro sys_inv_hold [OF i lt D(1)]) auto
qed

lemma sys_inv_retakes:
  assumes i: "sys_inv (d, ps, add_mset (Retaking h) rs)" shows "sys_inv (reacquire_slot h d, ps, rs)"
proof -
  note D = sys_invD [OF i]
  have lt: "late ps h" using D(6) [of "Retaking h"] by simp
  then have h: "h < length ps" "h < length (td_heap d)" using D(2) by (simp_all add: late_def)
  have ok: "hold_ok (td_heap d ! h) (ps ! h)" using D(4) [OF h(1)] .
  let ?d = "set_hold h (hd_slot_update (\<lambda>_. True)) (takeSlotLocked d)"
  have nth: "td_heap ?d ! j = (if h = j then (td_heap d ! h)\<lparr>hd_slot := True\<rparr> else td_heap d ! j)" if "j < length ps" for j
    using that D(2) by (simp add: set_hold_nth takeSlotLocked_def)
  have gb: "td_heap (giveBackLocked h ?d) ! j = (if h = j then (td_heap ?d ! h)\<lparr>hd_slot := False, hd_baton := None\<rparr> else td_heap ?d ! j)" if "j < length ps" for j
    using giveBackLocked_nth [of h ?d j] that h D(2) by (simp add: takeSlotLocked_def)
  have rec: "reacquire_slot h d = (if hd_slot (td_heap d ! h) then d else if hd_finished (td_heap d ! h) \<or> hd_waits (td_heap d ! h) > 0 then giveBackLocked h ?d else ?d)"
    by (simp add: reacquire_slot_def takeSlotLocked_def Let_def)
  have new: "hold_ok (td_heap (reacquire_slot h d) ! h) (ps ! h)"
    using ok nth [OF h(1)] gb [OF h(1)] lt by (auto simp: rec hold_ok_def late_def)
  show ?thesis
  proof (rule sys_inv_hold [OF i lt reacquire_slot_core [OF D(1) h(2)]])
    show "td_heap (reacquire_slot h d) ! j = td_heap d ! j" if "j < length ps" "j \<noteq> h" for j
      using that nth gb by (simp add: rec)
  qed (use new in \<open>auto simp: rec takeSlotLocked_def\<close>)
qed

lemma run_step_inv: "run_step s s' \<Longrightarrow> sys_inv s \<Longrightarrow> sys_inv s'"
  by (induction rule: run_step.induct)
    (blast intro: sys_inv_submit sys_inv_passed sys_inv_enters sys_inv_named sys_inv_returns)+

lemma dispatcher_step_inv: "dispatcher_step s s' \<Longrightarrow> sys_inv s \<Longrightarrow> sys_inv s'"
  by (induction rule: dispatcher_step.induct)
    (blast intro: run_step_inv sys_inv_waits sys_inv_resumes sys_inv_rejoined sys_inv_retakes)+

lemma sized_step_inv: "sized_step s s' \<Longrightarrow> sys_inv s \<Longrightarrow> sys_inv s'"
proof (induction rule: sized_step.induct)
  case (resizes d ps rs n)
  have "core_inv (SetMaxConcurrency n d)" by (rule core_fields [OF sys_invD(1) [OF resizes]]) (simp_all add: SetMaxConcurrency_def)
  with resizes show ?case by (simp add: sys_inv_def SetMaxConcurrency_def)
qed (rule dispatcher_step_inv)

lemma reachable_inv: "sized_step\<^sup>*\<^sup>* (start limit) s \<Longrightarrow> sys_inv s"
  by (induction rule: rtranclp_induct) (auto intro: sys_inv_start sized_step_inv)

section \<open>Capacity\<close>

lemma slots_filter: "slots xs = int (length (filter hd_slot xs))"
  by (induction xs) simp_all

lemma unfinished_filter: "unfinished ps = int (length (filter (\<lambda>p. p \<noteq> Returned) ps))"
  by (induction ps) simp_all

definition within_limit :: "taskDispatcher \<Rightarrow> bool" where
  "within_limit d \<longleftrightarrow> td_limit d > 0 \<longrightarrow> td_active d \<le> td_limit d"

lemma room_within: "has_room d \<Longrightarrow> within_limit (takeSlotLocked d)"
  by (auto simp: has_room_def within_limit_def takeSlotLocked_def)

lemma giveBack_within: "within_limit d \<Longrightarrow> within_limit (giveBackLocked h d)"
  by (auto simp: within_limit_def giveBackLocked_active)

lemma within_fields: "td_active d' = td_active d \<Longrightarrow> td_limit d' = td_limit d \<Longrightarrow> within_limit d \<Longrightarrow> within_limit d'"
  by (simp add: within_limit_def)

lemma finishRun_limit: "td_limit (finishRun h d) = td_limit d"
  by (simp add: finishRun_def Let_def)

lemma run_step_limit: "run_step s s' \<Longrightarrow> within_limit (fst s) \<Longrightarrow> within_limit (fst s') \<and> td_limit (fst s') = td_limit (fst s)"
proof (induction rule: run_step.induct)
  case (submit concurrent repo d ph d' ps rs)
  then show ?case by (auto simp: within_limit_def Submit_def joinRepoLocked_def Let_def split: if_splits)
next
  case (enters h ps d rs)
  then show ?case using room_within by (auto simp: within_limit_def enter_run_def takeSlotLocked_def)
next
  case (named h ps d rs i attempt)
  then show ?case by (simp add: within_limit_def name_hold_def)
next
  case (returns h ps d rs)
  then show ?case by (auto simp: finishRun_def Let_def finishRun_limit within_limit_def giveBackLocked_active)
qed simp_all

lemma dispatcher_step_limit: "dispatcher_step s s' \<Longrightarrow> within_limit (fst s) \<Longrightarrow> within_limit (fst s') \<and> td_limit (fst s') = td_limit (fst s)"
proof (induction rule: dispatcher_step.induct)
  case (runs s s')
  then show ?case by (rule run_step_limit)
next
  case (waits h ps n d d' spawn rs)
  then show ?case by (auto simp: setCallWaits_def Let_def within_limit_def giveBackLocked_active split: if_splits)
next
  case (resumes h d "next" d' ps rs)
  then show ?case by (auto simp: reacquire_join_def joinRepoLocked_def Let_def within_limit_def split: if_splits)
next
  case (retakes d ps h rs)
  have "within_limit (takeSlotLocked d)" using room_within retakes(1) .
  with retakes show ?case by (auto simp: reacquire_slot_def Let_def within_limit_def takeSlotLocked_def giveBackLocked_active)
qed simp_all

text \<open>C12: the dispatcher counts exactly. In every interleaving of submissions, runs, waits on callees and re-acquires
  the counter of active tasks is the number of runs that hold a slot, each of them in its process; the counter
  of pending tasks is the number of runs that have not returned; no channel is closed twice; and with a limit
  that is not changed, no more runs hold a slot than it allows.\<close>

theorem dispatcher_capacity:
  assumes "dispatcher_step\<^sup>*\<^sup>* (start limit) (d, ps, rs)"
  shows "td_active d = int (length (filter hd_slot (td_heap d))) \<and> td_pending d = int (length (filter (\<lambda>p. p \<noteq> Returned) ps))
    \<and> (\<forall>h < length ps. hd_slot (td_heap d ! h) \<longrightarrow> ps ! h = Process) \<and> \<not> td_panic d
    \<and> (limit > 0 \<longrightarrow> int (length (filter hd_slot (td_heap d))) \<le> limit)"
proof -
  have i: "sys_inv (d, ps, rs)"
    using reachable_inv assms mono_rtranclp [of dispatcher_step sized_step] by (meson sized_step.steps)
  have "within_limit (fst (start limit)) \<and> td_limit (fst (start limit)) = limit" by (simp add: start_def newTaskDispatcher_def within_limit_def)
  with assms have "within_limit d \<and> td_limit d = limit"
    using rtranclp_induct [of dispatcher_step "start limit" "(d, ps, rs)" "\<lambda>s. within_limit (fst s) \<and> td_limit (fst s) = limit"]
      dispatcher_step_limit by (metis fst_conv)
  moreover note D = sys_invD [OF i]
  moreover have "hd_slot (td_heap d ! h) \<longrightarrow> ps ! h = Process" if "h < length ps" for h using D(4) [OF that] by (simp add: hold_ok_def)
  ultimately show ?thesis by (auto simp: core_inv_def slots_filter unfinished_filter within_limit_def)
qed

text \<open>Two tasks of different repositories under a limit of one.\<close>

definition two_tasks :: "move list" where
  "two_tasks = map Runs [Submits False ''o/a'', Submits False ''o/b'', Passes 0, Passes 1, Enters 1]"

theorem dispatcher_capacity_witness:
  "case schedule act two_tasks (start 1) of None \<Rightarrow> False | Some (d, ps, rs) \<Rightarrow>
     td_active d = int (length (filter hd_slot (td_heap d))) \<and> td_pending d = int (length (filter (\<lambda>p. p \<noteq> Returned) ps)) \<and> td_pending d = 2
     \<and> ps = [Entering, Process] \<and> int (length (filter hd_slot (td_heap d))) \<le> 1"
proof -
  obtain d rs where e: "schedule act two_tasks (start 1) = Some (d, [Entering, Process], rs)" by (auto simp: two_tasks_def dispatcher_eval)
  show ?thesis using dispatcher_capacity [OF dispatcher_schedule [OF e]] by (simp add: e)
qed

section \<open>Progress\<close>

text \<open>What the dispatcher can do by itself, without a new task and without the end of a process.\<close>

fun resume_moves :: "taskDispatcher \<Rightarrow> resume_phase \<Rightarrow> bool" where
  "resume_moves d (Resuming h) = True"
| "resume_moves d (Rejoining h previous) = released previous d"
| "resume_moves d (Retaking h) = has_room d"

fun run_moves :: "taskDispatcher \<Rightarrow> run_phase \<Rightarrow> bool" where
  "run_moves d (Waiting previous) = released previous d"
| "run_moves d Entering = has_room d"
| "run_moves d _ = False"

lemma run_moves_step: "h < length ps \<Longrightarrow> run_moves d (ps ! h) \<Longrightarrow> \<exists>d' ph. run_step (d, ps, rs) (d', ps[h := ph], rs)"
  by (cases "ps ! h") (auto intro: run_step.passed run_step.enters)

lemma resume_moves_step: "r \<in># rs \<Longrightarrow> resume_moves d r \<Longrightarrow> \<exists>d' rs'. dispatcher_step (d, ps, rs) (d', ps, rs')"
proof -
  assume "r \<in># rs" "resume_moves d r"
  then obtain rest where rs: "rs = add_mset r rest" by (metis mset_add)
  with \<open>resume_moves d r\<close> show ?thesis
    by (cases r) (auto intro: dispatcher_step.rejoined dispatcher_step.retakes dispatcher_step.resumes [OF prod.collapse [symmetric]])
qed

lemma blocked_owner:
  assumes i: "sys_inv (d, ps, rs)" and c: "c < td_next d" "c \<notin> set (td_closed d)"
  obtains h where "h < length ps" "baton_of d h = Some c" "ps ! h \<noteq> Returned"
proof -
  note D = sys_invD [OF i]
  from D(1) c obtain h where h: "h < length (td_heap d)" "baton_of d h = Some c" unfolding core_inv_def batons_ok_def by blast
  with D(2) D(4) [of h] that [of h] show ?thesis by (auto simp: hold_ok_def)
qed

text \<open>Without a run in its process every slot is free, so the waiting run with the least baton can move.\<close>

lemma some_run_moves:
  assumes i: "sys_inv (d, ps, rs)" and idle: "\<forall>h < length ps. ps ! h \<noteq> Process" and room: "has_room d"
  shows "h < length ps \<Longrightarrow> ps ! h \<noteq> Returned \<Longrightarrow> baton_of d h = b \<Longrightarrow> \<exists>j < length ps. run_moves d (ps ! j)"
proof (induction "case b of None \<Rightarrow> 0 | Some n \<Rightarrow> Suc n" arbitrary: h b rule: less_induct)
  case less
  note D = sys_invD [OF i]
  show ?case
  proof (cases "run_moves d (ps ! h)")
    case False
    with less.prems idle room obtain c where w: "ps ! h = Waiting (Some c)" "c \<notin> set (td_closed d)"
      by (cases "ps ! h") (auto simp: released_def split: option.splits)
    with D(4) [OF less.prems(1)] less.prems(3) obtain n where n: "b = Some n" "c < n" by (auto simp: hold_ok_def)
    have "n < td_next d" using D(1,2) less.prems n(1) unfolding core_inv_def batons_ok_def by metis
    with n(2) obtain j where "j < length ps" "baton_of d j = Some c" "ps ! j \<noteq> Returned"
      using blocked_owner [OF i _ w(2)] by (metis less_trans)
    with less.hyps [of "Some c" j] n show ?thesis by simp
  qed (use less.prems in blast)
qed

text \<open>C13: the dispatcher never comes to a standstill. In every reachable state with a run that has not returned or a
  re-acquire that has not ended, some run is in its process, or a waiting run or re-acquire can move: nothing
  waits for a baton or a slot that no one is going to give.\<close>

theorem dispatcher_progress:
  assumes "sized_step\<^sup>*\<^sup>* (start limit) (d, ps, rs)" and "(\<exists>h < length ps. ps ! h \<noteq> Returned) \<or> rs \<noteq> {#}"
  shows "(\<exists>h < length ps. ps ! h = Process) \<or> (\<exists>h < length ps. run_moves d (ps ! h)) \<or> (\<exists>r \<in># rs. resume_moves d r)"
proof (rule ccontr)
  assume "\<not> ?thesis"
  then have idle: "\<forall>h < length ps. ps ! h \<noteq> Process" and stuck: "\<forall>h < length ps. \<not> run_moves d (ps ! h)" "\<forall>r \<in># rs. \<not> resume_moves d r" by blast+
  have i: "sys_inv (d, ps, rs)" by (rule reachable_inv [OF assms(1)])
  note D = sys_invD [OF i]
  have "\<not> 0 < slots (td_heap d)"
    using slots_pos [of "td_heap d"] D(2,4) idle by (metis hold_ok_def)
  then have "td_active d = 0" using D(1) slots_nonneg [of "td_heap d"] by (simp add: core_inv_def)
  then have room: "has_room d" by (simp add: has_room_def)
  have none: "ps ! h = Returned" if "h < length ps" for h using some_run_moves [OF i idle room that] stuck(1) by blast
  with assms(2) obtain r where r: "r \<in># rs" by (meson multiset_nonemptyE)
  with stuck(2) room obtain h c where "r = Rejoining h (Some c)" "c \<notin> set (td_closed d)"
    by (cases r) (auto simp: released_def split: option.splits)
  with blocked_owner [OF i D(7)] r none show False by metis
qed

text \<open>A task waits behind another of its repository.\<close>

definition queued_task :: "move list" where
  "queued_task = map Runs [Submits False ''o/a'', Submits False ''o/a'']"

theorem dispatcher_progress_witness:
  "case schedule act queued_task (start 1) of None \<Rightarrow> False | Some (d, ps, rs) \<Rightarrow>
     ps = [Waiting None, Waiting (Some 0)] \<and> ((\<exists>h < length ps. ps ! h = Process) \<or> (\<exists>h < length ps. run_moves d (ps ! h)) \<or> (\<exists>r \<in># rs. resume_moves d r))"
proof -
  obtain d rs where e: "schedule act queued_task (start 1) = Some (d, [Waiting None, Waiting (Some 0)], rs)" by (auto simp: queued_task_def dispatcher_eval)
  have "\<exists>h < length [Waiting None, Waiting (Some 0)]. [Waiting None, Waiting (Some 0)] ! h \<noteq> Returned" by (rule exI [of _ 0]) simp
  then show ?thesis using dispatcher_progress [OF sized_schedule [OF e]] by (simp add: e)
qed

text \<open>Whatever the dispatcher hands out comes back. When every run has returned, no slot is counted, no task is
  pending and no repository has a tail another task would wait for.\<close>

theorem dispatcher_drains:
  assumes "sized_step\<^sup>*\<^sup>* (start limit) (d, ps, rs)" and "\<forall>h < length ps. ps ! h = Returned"
  shows "td_active d = 0 \<and> td_pending d = 0 \<and> map_of (td_repoTail d) repo = None"
proof -
  have i: "sys_inv (d, ps, rs)" by (rule reachable_inv [OF assms(1)])
  note D = sys_invD [OF i]
  have no: "\<not> hd_slot (td_heap d ! h) \<and> baton_of d h = None" if "h < length ps" for h
    using D(4) [OF that] assms(2) that by (auto simp: hold_ok_def)
  have "\<not> 0 < slots (td_heap d)" using slots_pos [of "td_heap d"] no D(2) by metis
  then have "td_active d = 0" using D(1) slots_nonneg [of "td_heap d"] by (simp add: core_inv_def)
  moreover have "filter (\<lambda>p. p \<noteq> Returned) ps = []" using assms(2) by (auto simp: filter_empty_conv in_set_conv_nth)
  then have "td_pending d = 0" using D(3) by (simp add: unfinished_filter)
  moreover have "map_of (td_repoTail d) repo = None"
  proof (rule ccontr)
    assume "map_of (td_repoTail d) repo \<noteq> None"
    then obtain b where "map_of (td_repoTail d) repo = Some b" by blast
    with D(1) obtain h where "h < length (td_heap d)" "baton_of d h = Some b" unfolding core_inv_def batons_ok_def by blast
    with no D(2) show False by simp
  qed
  ultimately show ?thesis by blast
qed

text \<open>A run that waits on a callee, resumes and returns.\<close>

definition waiting_run :: "move list" where
  "waiting_run = [Runs (Submits False ''o/a''), Runs (Passes 0), Runs (Enters 0), Runs (Names 0 7 1), Waits 0 1, Waits 0 0, Resumes 0,
     Rejoins 0 None, Retakes 0, Runs (Returns 0)]"

theorem dispatcher_drains_witness:
  "case schedule act waiting_run (start 1) of None \<Rightarrow> False | Some (d, ps, rs) \<Rightarrow>
     ps = [Returned] \<and> td_active d = 0 \<and> td_pending d = 0 \<and> map_of (td_repoTail d) ''o/a'' = None"
proof -
  obtain d rs where e: "schedule act waiting_run (start 1) = Some (d, [Returned], rs)" by (auto simp: waiting_run_def dispatcher_eval)
  show ?thesis using dispatcher_drains [OF sized_schedule [OF e], of "''o/a''"] by (simp add: e)
qed

end
