(* ===== verification/Task_Dispatcher_Chain.thy ===== *)
theory Task_Dispatcher_Chain
  imports Task_Dispatcher_Spec
begin

text \<open>
  One task per repository: what the chain of batons guarantees as long as no run waits on a callee, and a run of the
  dispatcher in which two tasks of one repository are in their processes.
\<close>

section \<open>The chain of a repository\<close>

definition chain_inv :: "taskDispatcher \<Rightarrow> run_phase list \<Rightarrow> bool" where
  "chain_inv d ps \<longleftrightarrow>
     (\<forall>h < length ps. hd_chain (td_heap d ! h) \<longrightarrow> ps ! h \<noteq> Returned \<longrightarrow> baton_of d h \<noteq> None) \<and>
     (\<forall>h < length ps. \<forall>b. baton_of d h = Some b \<longrightarrow> (\<exists>t. map_of (td_repoTail d) (hd_repo (td_heap d ! h)) = Some t \<and> b \<le> t)) \<and>
     (\<forall>h < length ps. \<forall>p. ps ! h = Waiting (Some p) \<longrightarrow>
        (\<forall>k < length ps. baton_of d k = Some p \<longrightarrow> hd_repo (td_heap d ! k) = hd_repo (td_heap d ! h))) \<and>
     (\<forall>h < length ps. \<forall>k < length ps. \<forall>b c. hd_repo (td_heap d ! h) = hd_repo (td_heap d ! k) \<longrightarrow> baton_of d h = Some b \<longrightarrow>
        baton_of d k = Some c \<longrightarrow> c < b \<longrightarrow> (\<exists>p. ps ! h = Waiting (Some p) \<and> c \<le> p \<and> p \<notin> set (td_closed d)))"

lemma chain_invI:
  assumes "\<And>h. h < length ps \<Longrightarrow> hd_chain (td_heap d ! h) \<Longrightarrow> ps ! h \<noteq> Returned \<Longrightarrow> baton_of d h \<noteq> None"
    and "\<And>h b. h < length ps \<Longrightarrow> baton_of d h = Some b \<Longrightarrow> \<exists>t. map_of (td_repoTail d) (hd_repo (td_heap d ! h)) = Some t \<and> b \<le> t"
    and "\<And>h p k. h < length ps \<Longrightarrow> ps ! h = Waiting (Some p) \<Longrightarrow> k < length ps \<Longrightarrow> baton_of d k = Some p \<Longrightarrow> hd_repo (td_heap d ! k) = hd_repo (td_heap d ! h)"
    and "\<And>h k b c. h < length ps \<Longrightarrow> k < length ps \<Longrightarrow> hd_repo (td_heap d ! h) = hd_repo (td_heap d ! k) \<Longrightarrow> baton_of d h = Some b \<Longrightarrow>
        baton_of d k = Some c \<Longrightarrow> c < b \<Longrightarrow> \<exists>p. ps ! h = Waiting (Some p) \<and> c \<le> p \<and> p \<notin> set (td_closed d)"
  shows "chain_inv d ps"
  using assms unfolding chain_inv_def by blast

lemma chain_invD:
  assumes "chain_inv d ps"
  shows "\<And>h. h < length ps \<Longrightarrow> hd_chain (td_heap d ! h) \<Longrightarrow> ps ! h \<noteq> Returned \<Longrightarrow> baton_of d h \<noteq> None"
    and "\<And>h b. h < length ps \<Longrightarrow> baton_of d h = Some b \<Longrightarrow> \<exists>t. map_of (td_repoTail d) (hd_repo (td_heap d ! h)) = Some t \<and> b \<le> t"
    and "\<And>h p k. h < length ps \<Longrightarrow> ps ! h = Waiting (Some p) \<Longrightarrow> k < length ps \<Longrightarrow> baton_of d k = Some p \<Longrightarrow> hd_repo (td_heap d ! k) = hd_repo (td_heap d ! h)"
    and "\<And>h k b c. h < length ps \<Longrightarrow> k < length ps \<Longrightarrow> hd_repo (td_heap d ! h) = hd_repo (td_heap d ! k) \<Longrightarrow> baton_of d h = Some b \<Longrightarrow>
        baton_of d k = Some c \<Longrightarrow> c < b \<Longrightarrow> \<exists>p. ps ! h = Waiting (Some p) \<and> c \<le> p \<and> p \<notin> set (td_closed d)"
  using assms unfolding chain_inv_def by blast+

text \<open>A change that keeps batons, repositories and channels, and lets a run go on only when what it waited for is
  closed.\<close>

lemma chain_inv_cong:
  assumes c: "chain_inv d ps" and "length ps' = length ps"
    and h: "\<And>h. h < length ps \<Longrightarrow> baton_of d' h = baton_of d h \<and> hd_repo (td_heap d' ! h) = hd_repo (td_heap d ! h) \<and> hd_chain (td_heap d' ! h) = hd_chain (td_heap d ! h)"
    and "td_repoTail d' = td_repoTail d" "td_closed d' = td_closed d"
    and p: "\<And>h. h < length ps \<Longrightarrow> ps' ! h = ps ! h \<or> (ps ! h \<noteq> Returned \<and> ps' ! h \<noteq> Returned \<and> (\<forall>p. ps' ! h \<noteq> Waiting p) \<and> (\<forall>p. ps ! h = Waiting p \<longrightarrow> released p d))"
  shows "chain_inv d' ps'"
proof (rule chain_invI)
  note C = chain_invD [OF c]
  show "baton_of d' j \<noteq> None" if "j < length ps'" "hd_chain (td_heap d' ! j)" "ps' ! j \<noteq> Returned" for j
    using that assms(2) h [of j] p [of j] C(1) [of j] by auto
  show "\<exists>t. map_of (td_repoTail d') (hd_repo (td_heap d' ! j)) = Some t \<and> b \<le> t" if "j < length ps'" "baton_of d' j = Some b" for j b
    using that assms(2,4) h [of j] C(2) [of j b] by auto
  show "hd_repo (td_heap d' ! k) = hd_repo (td_heap d' ! j)" if "j < length ps'" "ps' ! j = Waiting (Some p0)" "k < length ps'" "baton_of d' k = Some p0" for j p0 k
    using that assms(2) h [of j] h [of k] p [of j] C(3) [of j p0 k] by auto
  show "\<exists>q. ps' ! j = Waiting (Some q) \<and> x \<le> q \<and> q \<notin> set (td_closed d')"
    if "j < length ps'" "k < length ps'" "hd_repo (td_heap d' ! j) = hd_repo (td_heap d' ! k)" "baton_of d' j = Some b" "baton_of d' k = Some x" "x < b" for j k b x
  proof -
    from that assms(2) h [of j] h [of k] C(4) [of j k b x] obtain q where q: "ps ! j = Waiting (Some q)" "x \<le> q" "q \<notin> set (td_closed d)" by auto
    with p [of j] that(1) assms(2,5) show ?thesis by (auto simp: released_def)
  qed
qed

lemma finishRun_shape:
  assumes "h < length (td_heap d)"
  shows "\<And>j. j < length (td_heap d) \<Longrightarrow> td_heap (finishRun h d) ! j = (if h = j then (td_heap d ! h)\<lparr>hd_finished := True, hd_slot := False, hd_baton := None\<rparr> else td_heap d ! j)"
    and "td_closed (finishRun h d) = (case baton_of d h of None \<Rightarrow> td_closed d | Some b \<Rightarrow> b # td_closed d)"
    and "map_of (td_repoTail (finishRun h d)) = (case baton_of d h of None \<Rightarrow> map_of (td_repoTail d)
        | Some b \<Rightarrow> if map_of (td_repoTail d) (hd_repo (td_heap d ! h)) = Some b then (map_of (td_repoTail d))(hd_repo (td_heap d ! h) := None) else map_of (td_repoTail d))"
proof -
  obtain d2 where d2: "td_heap d2 = (td_heap d)[h := (td_heap d ! h)\<lparr>hd_finished := True\<rparr>]" "td_closed d2 = td_closed d" "td_repoTail d2 = td_repoTail d"
      "finishRun h d = (giveBackLocked h d2)\<lparr>td_pending := td_pending (giveBackLocked h d2) - 1\<rparr>"
  proof -
    let ?d1 = "set_hold h (hd_finished_update (\<lambda>_. True)) d"
    let ?d2 = "if hd_id (td_heap d ! h) \<noteq> 0 \<and> map_of (td_holds ?d1) (hd_id (td_heap d ! h)) = Some h
      then ?d1\<lparr>td_holds := filter (\<lambda>(j, _). j \<noteq> hd_id (td_heap d ! h)) (td_holds ?d1)\<rparr> else ?d1"
    show ?thesis by (rule that [of ?d2]) (simp_all add: finishRun_def Let_def set_hold_def)
  qed
  have b: "baton_of d2 h = baton_of d h" "hd_repo (td_heap d2 ! h) = hd_repo (td_heap d ! h)" "h < length (td_heap d2)" using d2(1) assms by simp_all
  show "td_heap (finishRun h d) ! j = (if h = j then (td_heap d ! h)\<lparr>hd_finished := True, hd_slot := False, hd_baton := None\<rparr> else td_heap d ! j)"
    if "j < length (td_heap d)" for j
    using that assms d2(1,4) giveBackLocked_nth [OF b(3), of j] by (auto simp: nth_list_update split: if_splits)
  show "td_closed (finishRun h d) = (case baton_of d h of None \<Rightarrow> td_closed d | Some b \<Rightarrow> b # td_closed d)"
    using d2(2,4) giveBackLocked_closed [OF b(3)] b by (simp split: option.splits)
  have ds: "baton_of (drop_slot h d2) h = baton_of d h" "hd_repo (td_heap (drop_slot h d2) ! h) = hd_repo (td_heap d ! h)" "td_repoTail (drop_slot h d2) = td_repoTail d"
    using b d2(3) by (auto simp: drop_slot_def set_hold_nth)
  show "map_of (td_repoTail (finishRun h d)) = (case baton_of d h of None \<Rightarrow> map_of (td_repoTail d)
        | Some b \<Rightarrow> if map_of (td_repoTail d) (hd_repo (td_heap d ! h)) = Some b then (map_of (td_repoTail d))(hd_repo (td_heap d ! h) := None) else map_of (td_repoTail d))"
    using d2(4) ds by (simp add: giveBackLocked_def drop_baton_def Let_def map_of_filter_key split: option.splits)
qed


lemma tail_open:
  assumes "core_inv d" "map_of (td_repoTail d) r = Some t"
  obtains k where "k < length (td_heap d)" "baton_of d k = Some t" "hd_repo (td_heap d ! k) = r" "t \<notin> set (td_closed d)" "t < td_next d"
  using assms unfolding core_inv_def batons_ok_def by blast

lemma baton_unique: "core_inv d \<Longrightarrow> h < length (td_heap d) \<Longrightarrow> k < length (td_heap d) \<Longrightarrow> baton_of d h = Some b \<Longrightarrow> baton_of d k = Some b \<Longrightarrow> h = k"
  unfolding core_inv_def batons_ok_def by blast

lemma baton_open: "core_inv d \<Longrightarrow> h < length (td_heap d) \<Longrightarrow> baton_of d h = Some b \<Longrightarrow> b < td_next d"
  unfolding core_inv_def batons_ok_def by blast

lemma chain_inv_start: "chain_inv (newTaskDispatcher limit) []"
  by (simp add: chain_inv_def)

lemma chain_inv_submit:
  assumes i: "sys_inv (d, ps, rs)" and c: "chain_inv d ps" and s: "Submit concurrent repo d = (ph, d')"
  shows "chain_inv d' (ps @ [ph])"
proof (cases concurrent)
  case True
  note D = sys_invD [OF i] and C = chain_invD [OF c]
  from True s have d': "td_heap d' = td_heap d @ [\<lparr>hd_repo = repo, hd_chain = False, hd_baton = None, hd_slot = False, hd_waits = 0,
      hd_finished = False, hd_id = 0, hd_attempt = 0\<rparr>]" "td_closed d' = td_closed d" "td_repoTail d' = td_repoTail d" "ph = Waiting None"
    by (auto simp: Submit_def)
  show ?thesis
    by (rule chain_invI) (use D(2) C d' in \<open>auto simp: nth_append less_Suc_eq split: if_splits\<close>)
next
  case False
  note D = sys_invD [OF i] and C = chain_invD [OF c]
  from False s have ph: "ph = Waiting (map_of (td_repoTail d) repo)"
    and d': "td_heap d' = td_heap d @ [\<lparr>hd_repo = repo, hd_chain = True, hd_baton = Some (td_next d), hd_slot = False, hd_waits = 0,
      hd_finished = False, hd_id = 0, hd_attempt = 0\<rparr>]" "td_closed d' = td_closed d" "td_repoTail d' = map_put repo (td_next d) (td_repoTail d)"
    by (auto simp: Submit_def joinRepoLocked_def Let_def)
  have less: "b < td_next d" if "j < length ps" "baton_of d j = Some b" for j b using that baton_open [OF D(1)] D(2) by simp
  have old: "td_heap d' ! j = td_heap d ! j" "(ps @ [ph]) ! j = ps ! j" if "j < length ps" for j using that D(2) d'(1) by (simp_all add: nth_append)
  have new: "hd_repo (td_heap d' ! length ps) = repo" "baton_of d' (length ps) = Some (td_next d)" "(ps @ [ph]) ! length ps = ph"
    using D(2) d'(1) by (simp_all add: nth_append)
  have wait: "p < td_next d" if "j < length ps" "ps ! j = Waiting (Some p)" for j p
    using D(4) [OF that(1)] that less by (force simp: hold_ok_def)
  show ?thesis
  proof (rule chain_invI)
    show "baton_of d' j \<noteq> None" if "j < length (ps @ [ph])" "hd_chain (td_heap d' ! j)" "(ps @ [ph]) ! j \<noteq> Returned" for j
      using that C(1) [of j] old [of j] new by (cases "j = length ps") (auto simp: less_Suc_eq)
    show "\<exists>t. map_of (td_repoTail d') (hd_repo (td_heap d' ! j)) = Some t \<and> b \<le> t" if "j < length (ps @ [ph])" "baton_of d' j = Some b" for j b
      using that C(2) [of j b] less [of j b] old [of j] new d'(3) by (cases "j = length ps") (auto simp: less_Suc_eq less_imp_le)
    show "hd_repo (td_heap d' ! k) = hd_repo (td_heap d' ! j)"
      if j: "j < length (ps @ [ph])" "(ps @ [ph]) ! j = Waiting (Some p)" and k: "k < length (ps @ [ph])" "baton_of d' k = Some p" for j p k
    proof (cases "j = length ps")
      case True
      with j new ph have t: "map_of (td_repoTail d) repo = Some p" by simp
      from tail_open [OF D(1) t] obtain k' where k': "k' < length ps" "baton_of d k' = Some p" "hd_repo (td_heap d ! k') = repo" "p < td_next d"
        using D(2) by metis
      with k new have "k < length ps" by (cases "k = length ps") auto
      with k k' old baton_unique [OF D(1), of k k' p] D(2) have "k = k'" by simp
      with k' True new old show ?thesis by simp
    next
      case False
      with j have "j < length ps" by simp
      with j k wait [of j p] new old [of j] have "k < length ps" by (cases "k = length ps") auto
      with \<open>j < length ps\<close> j k old C(3) [of j p k] show ?thesis by simp
    qed
    show "\<exists>p. (ps @ [ph]) ! j = Waiting (Some p) \<and> x \<le> p \<and> p \<notin> set (td_closed d')"
      if j: "j < length (ps @ [ph])" and k: "k < length (ps @ [ph])" and r: "hd_repo (td_heap d' ! j) = hd_repo (td_heap d' ! k)"
        and b: "baton_of d' j = Some b" "baton_of d' k = Some x" "x < b" for j k b x
    proof (cases "j = length ps")
      case True
      with k b new have k: "k < length ps" by (cases "k = length ps") auto
      with C(2) [of k x] b r True new old obtain t where t: "map_of (td_repoTail d) repo = Some t" "x \<le> t" by auto
      with tail_open [OF D(1) t(1)] True new ph d'(2) show ?thesis by auto
    next
      case False
      with j have j: "j < length ps" by simp
      with b less [of j b] new old have "k < length ps" using k by (cases "k = length ps") auto
      with j r b old C(4) [of j k b x] d'(2) show ?thesis by simp
    qed
  qed
qed

lemma chain_inv_returns:
  assumes i: "sys_inv (d, ps, rs)" and c: "chain_inv d ps" and h: "h < length ps" "ps ! h = Process"
  shows "chain_inv (finishRun h d) (ps[h := Returned])"
proof -
  note D = sys_invD [OF i] and C = chain_invD [OF c]
  have hl: "h < length (td_heap d)" using h D(2) by simp
  note S = finishRun_shape [OF hl]
  have heap: "td_heap (finishRun h d) ! j = (if h = j then (td_heap d ! h)\<lparr>hd_finished := True, hd_slot := False, hd_baton := None\<rparr> else td_heap d ! j)"
    if "j < length ps" for j using S(1) that D(2) by simp
  have least: "b < x" if "baton_of d h = Some b" "j < length ps" "j \<noteq> h" "baton_of d j = Some x" "hd_repo (td_heap d ! j) = hd_repo (td_heap d ! h)" for b x j
  proof -
    have "x \<noteq> b" using that h D(2) baton_unique [OF D(1), of h j b] by auto
    moreover have "\<not> x < b" using C(4) [of h j b x] that h by auto
    ultimately show ?thesis by simp
  qed
  show ?thesis
  proof (rule chain_invI)
    show "baton_of (finishRun h d) j \<noteq> None" if "j < length (ps[h := Returned])" "hd_chain (td_heap (finishRun h d) ! j)" "ps[h := Returned] ! j \<noteq> Returned" for j
      using that heap [of j] C(1) [of j] by (cases "h = j") auto
    show "\<exists>t. map_of (td_repoTail (finishRun h d)) (hd_repo (td_heap (finishRun h d) ! j)) = Some t \<and> b \<le> t"
      if "j < length (ps[h := Returned])" "baton_of (finishRun h d) j = Some b" for j b
      using that heap [of j] C(2) [of j b] least [of _ j b] S(3) by (cases "h = j") (force split: option.splits)+
    show "hd_repo (td_heap (finishRun h d) ! k) = hd_repo (td_heap (finishRun h d) ! j)"
      if "j < length (ps[h := Returned])" "ps[h := Returned] ! j = Waiting (Some p)" "k < length (ps[h := Returned])" "baton_of (finishRun h d) k = Some p" for j p k
      using that heap [of j] heap [of k] C(3) [of j p k] by (auto simp: nth_list_update split: if_splits)
    show "\<exists>p. ps[h := Returned] ! j = Waiting (Some p) \<and> x \<le> p \<and> p \<notin> set (td_closed (finishRun h d))"
      if j: "j < length (ps[h := Returned])" and k: "k < length (ps[h := Returned])"
        and r: "hd_repo (td_heap (finishRun h d) ! j) = hd_repo (td_heap (finishRun h d) ! k)"
        and b: "baton_of (finishRun h d) j = Some b" "baton_of (finishRun h d) k = Some x" "x < b" for j k b x
    proof -
      have o: "j \<noteq> h" "k \<noteq> h" "baton_of d j = Some b" "baton_of d k = Some x" "hd_repo (td_heap d ! j) = hd_repo (td_heap d ! k)"
        using j k r b heap [of j] heap [of k] by (auto split: if_splits)
      with C(4) [of j k b x] j k b obtain p where p: "ps ! j = Waiting (Some p)" "x \<le> p" "p \<notin> set (td_closed d)" by auto
      have "baton_of d h \<noteq> Some p"
      proof
        assume bh: "baton_of d h = Some p"
        with C(3) [of j p h] p(1) j h have "hd_repo (td_heap d ! h) = hd_repo (td_heap d ! j)" by simp
        with least [OF bh, of k x] o k p(2) show False by simp
      qed
      with p o S(2) j show ?thesis by (auto split: option.splits)
    qed
  qed
qed

lemma chain_inv_step: "run_step (d, ps, rs) (d', ps', rs') \<Longrightarrow> sys_inv (d, ps, rs) \<Longrightarrow> chain_inv d ps \<Longrightarrow> chain_inv d' ps'"
proof (induction "(d, ps, rs)" "(d', ps', rs')" rule: run_step.induct)
  case (submit concurrent repo ph)
  then show ?case by (blast intro: chain_inv_submit)
next
  case (passed h previous)
  then show ?case by (intro chain_inv_cong [OF \<open>chain_inv d ps\<close>]) (auto simp: nth_list_update split: if_splits)
next
  case (enters h)
  then show ?case using sys_invD(2) [OF \<open>sys_inv (d, ps, rs)\<close>]
    by (intro chain_inv_cong [OF \<open>chain_inv d ps\<close>]) (auto simp: nth_list_update enter_run_def takeSlotLocked_def set_hold_nth split: if_splits)
next
  case (named h k attempt)
  then show ?case using sys_invD(2) [OF \<open>sys_inv (d, ps, rs)\<close>]
    by (intro chain_inv_cong [OF \<open>chain_inv d ps\<close>]) (auto simp: name_hold_def set_hold_nth split: if_splits)
next
  case (returns h)
  then show ?case by (blast intro: chain_inv_returns)
qed

lemma run_reachable: "run_step\<^sup>*\<^sup>* (start limit) s \<Longrightarrow> sys_inv s \<and> chain_inv (fst s) (fst (snd s))"
proof (induction rule: rtranclp_induct)
  case base
  show ?case using sys_inv_start [of limit] chain_inv_start [of limit] by (simp add: start_def)
next
  case (step s s')
  then show ?case using run_step_inv [of s s'] chain_inv_step by (cases s; cases s') (metis fst_conv snd_conv)
qed

text \<open>C14: one task per repository at a time. As long as no run waits on a callee, of two different runs of one
  repository that both keep to its chain at most one has passed the baton ahead of it and has not returned: at
  most one is entering or in its process, in every interleaving of submissions, entries and returns.\<close>

theorem one_task_per_repo:
  assumes "run_step\<^sup>*\<^sup>* (start limit) (d, ps, rs)" and "h < length ps" "k < length ps" "h \<noteq> k"
    and "hd_chain (td_heap d ! h)" "hd_chain (td_heap d ! k)" "hd_repo (td_heap d ! h) = hd_repo (td_heap d ! k)"
  shows "\<not> (ps ! h \<in> {Entering, Process} \<and> ps ! k \<in> {Entering, Process})"
proof
  assume a: "ps ! h \<in> {Entering, Process} \<and> ps ! k \<in> {Entering, Process}"
  have i: "sys_inv (d, ps, rs)" and c: "chain_inv d ps" using run_reachable [OF assms(1)] by simp_all
  note D = sys_invD [OF i] and C = chain_invD [OF c]
  obtain b x where b: "baton_of d h = Some b" and x: "baton_of d k = Some x"
    using C(1) [of h] C(1) [of k] assms a by auto
  then have "b \<noteq> x" using baton_unique [OF D(1), of h k b] D(2) assms by auto
  with C(4) [of h k b x] C(4) [of k h x b] assms b x a show False by (cases "x < b") auto
qed

theorem one_task_per_repo_witness:
  "case schedule run_act [Submits False ''o/a'', Submits False ''o/a'', Passes 0, Enters 0] (start 0) of None \<Rightarrow> False | Some (d, ps, rs) \<Rightarrow>
     ps = [Process, Waiting (Some 0)] \<and> \<not> (ps ! 0 \<in> {Entering, Process} \<and> ps ! 1 \<in> {Entering, Process})"
proof -
  let ?ms = "[Submits False ''o/a'', Submits False ''o/a'', Passes 0, Enters 0]"
  obtain d rs where e: "schedule run_act ?ms (start 0) = Some (d, [Process, Waiting (Some 0)], rs)"
    and d: "hd_chain (td_heap d ! 0)" "hd_chain (td_heap d ! 1)" "hd_repo (td_heap d ! 0) = hd_repo (td_heap d ! 1)"
    by (auto simp: dispatcher_eval)
  show ?thesis using one_task_per_repo [OF run_schedule [OF e], of 0 1] d unfolding e by simp
qed

section \<open>When a run waits on a callee\<close>

text \<open>Task 0 waits on a callee and gives its place back; task 1 takes the repository. Task 0 resumes and queues behind
  task 1, task 2 behind task 0. Task 0 returns before it has its place again, which closes the baton task 2
  waits for.\<close>

definition shared_run :: "move list" where
  "shared_run = [Runs (Submits False ''o/a''), Runs (Passes 0), Runs (Enters 0), Runs (Names 0 7 1), Waits 0 1,
     Runs (Submits False ''o/a''), Runs (Passes 1), Runs (Enters 1), Waits 0 0, Resumes 0, Runs (Submits False ''o/a''),
     Runs (Returns 0), Runs (Passes 2), Runs (Enters 2)]"

text \<open>C38: two tasks of one repository can be in their processes at once, with neither waiting on a callee and none
  allowed to run concurrently. A run that resumed and returns closes the baton it took on resuming, although the
  task ahead of that baton is still running, so the task behind it starts.\<close>

theorem repo_shared:
  "\<exists>d ps rs. dispatcher_step\<^sup>*\<^sup>* (start 0) (d, ps, rs) \<and> ps ! 1 = Process \<and> ps ! 2 = Process \<and> length ps = 3
     \<and> hd_chain (td_heap d ! 1) \<and> hd_chain (td_heap d ! 2) \<and> hd_repo (td_heap d ! 1) = hd_repo (td_heap d ! 2)
     \<and> hd_waits (td_heap d ! 1) = 0 \<and> hd_waits (td_heap d ! 2) = 0"
proof -
  obtain d rs where e: "schedule act shared_run (start 0) = Some (d, [Returned, Process, Process], rs)"
    and d: "hd_chain (td_heap d ! 1)" "hd_chain (td_heap d ! 2)" "hd_repo (td_heap d ! 1) = hd_repo (td_heap d ! 2)"
      "hd_waits (td_heap d ! 1) = 0" "hd_waits (td_heap d ! 2) = 0"
    by (auto simp: shared_run_def dispatcher_eval)
  show ?thesis using dispatcher_schedule [OF e] d by (intro exI [of _ d] exI [of _ "[Returned, Process, Process]"] exI [of _ rs]) simp
qed

end
