(* ===== verification/Go_Time.thy ===== *)
theory Go_Time
  imports Go_Prelude
begin

text \<open>
  What the scheduler uses of Go's \<open>time\<close>: an instant counted in nanoseconds from the zero time, midnight UTC of
  January 1 of year 1, with a location of a fixed offset (\<open>time.UTC\<close>, \<open>time.FixedZone\<close>, and what a time read from
  RFC 3339 text carries); the Gregorian calendar of \<open>Date\<close>, \<open>Year\<close>, \<open>Month\<close>, \<open>Day\<close> and \<open>Weekday\<close>; and
  \<open>Truncate\<close>, which rounds the instant and not the local time. The lemmas show that the calendar is a bijection
  between day numbers and valid dates.
\<close>

section \<open>Instants\<close>

abbreviation (input) second :: int where "second \<equiv> 1000000000"
abbreviation (input) minute :: int where "minute \<equiv> 60000000000"
abbreviation (input) hour :: int where "hour \<equiv> 3600000000000"
abbreviation (input) day :: int where "day \<equiv> 86400000000000"

record go_time =
  tm_ns :: int
  tm_off :: int

definition tm_add :: "go_time \<Rightarrow> int \<Rightarrow> go_time" where
  "tm_add t d = t\<lparr>tm_ns := tm_ns t + d\<rparr>"

definition tm_truncate :: "go_time \<Rightarrow> int \<Rightarrow> go_time" where
  "tm_truncate t d = t\<lparr>tm_ns := tm_ns t - tm_ns t mod d\<rparr>"

definition tm_utc :: "go_time \<Rightarrow> go_time" where
  "tm_utc t = t\<lparr>tm_off := 0\<rparr>"

definition tm_zero :: "go_time \<Rightarrow> bool" where
  "tm_zero t \<longleftrightarrow> tm_ns t = 0"

definition local_ns :: "go_time \<Rightarrow> int" where
  "local_ns t = tm_ns t + tm_off t * second"

definition tm_hour :: "go_time \<Rightarrow> int" where
  "tm_hour t = local_ns t mod day div hour"

definition tm_minute :: "go_time \<Rightarrow> int" where
  "tm_minute t = local_ns t mod hour div minute"

text \<open>January 1 of year 1 was a Monday; Sunday is 0.\<close>

definition tm_weekday :: "go_time \<Rightarrow> int" where
  "tm_weekday t = (local_ns t div day + 1) mod 7"

section \<open>Calendar\<close>

definition leap :: "int \<Rightarrow> bool" where
  "leap y \<longleftrightarrow> y mod 4 = 0 \<and> (y mod 100 \<noteq> 0 \<or> y mod 400 = 0)"

definition month_lengths :: "int \<Rightarrow> int list" where
  "month_lengths y = [31, if leap y then 29 else 28, 31, 30, 31, 30, 31, 31, 30, 31, 30, 31]"

text \<open>The number of days before January 1 of a year, and the year of a day number.\<close>

definition year_start :: "int \<Rightarrow> int" where
  "year_start y = 365 * (y - 1) + (y - 1) div 4 - (y - 1) div 100 + (y - 1) div 400"

definition year_of :: "int \<Rightarrow> int" where
  "year_of n =
    (let r = n mod 146097; c = min 3 (r div 36524); r2 = r - 36524 * c; q = r2 div 1461; r3 = r2 - 1461 * q; s = min 3 (r3 div 365)
     in 400 * (n div 146097) + 100 * c + 4 * q + s + 1)"

fun month_walk :: "int list \<Rightarrow> int \<Rightarrow> int \<Rightarrow> int \<times> int" where
  "month_walk [] m d = (m, d + 1)"
| "month_walk (l # ls) m d = (if d < l then (m, d + 1) else month_walk ls (m + 1) (d - l))"

definition civil :: "int \<Rightarrow> int \<times> int \<times> int" where
  "civil n = (year_of n, month_walk (month_lengths (year_of n)) 1 (n - year_start (year_of n)))"

definition month_start :: "int \<Rightarrow> int \<Rightarrow> int" where
  "month_start y m = sum_list (take (nat (m - 1)) (month_lengths y))"

text \<open>A month outside 1 to 12 is carried into the year, as \<open>Date\<close> does.\<close>

definition date_days :: "int \<Rightarrow> int \<Rightarrow> int \<Rightarrow> int" where
  "date_days y m d =
    (let y' = y + (m - 1) div 12; m' = (m - 1) mod 12 + 1 in year_start y' + month_start y' m' + d - 1)"

definition tm_date :: "go_time \<Rightarrow> int \<times> int \<times> int" where
  "tm_date t = civil (local_ns t div day)"

definition tm_year :: "go_time \<Rightarrow> int" where "tm_year t = fst (tm_date t)"
definition tm_month :: "go_time \<Rightarrow> int" where "tm_month t = fst (snd (tm_date t))"
definition tm_day :: "go_time \<Rightarrow> int" where "tm_day t = snd (snd (tm_date t))"

text \<open>\<open>time.Date\<close> at midnight.\<close>

definition Date :: "int \<Rightarrow> int \<Rightarrow> int \<Rightarrow> int \<Rightarrow> go_time" where
  "Date y m d off = \<lparr>tm_ns = date_days y m d * day - off * second, tm_off = off\<rparr>"

text \<open>\<open>AddDate\<close> on a time at midnight.\<close>

definition AddDate :: "go_time \<Rightarrow> int \<Rightarrow> int \<Rightarrow> int \<Rightarrow> go_time" where
  "AddDate t years months days = Date (tm_year t + years) (tm_month t + months) (tm_day t + days) (tm_off t)"

section \<open>The calendar is exact\<close>

lemma year_start_decomp:
  assumes "0 \<le> c" "c \<le> 3" "0 \<le> q" "q \<le> 24" "0 \<le> s" "s \<le> 3"
  shows "year_start (400 * a + 100 * c + 4 * q + s + 1) = 146097 * a + 36524 * c + 1461 * q + 365 * s"
proof -
  let ?y = "400 * a + 100 * c + 4 * q + s"
  have "?y div 4 = 100 * a + 25 * c + q" by (rule int_div_pos_eq [of _ _ _ s]) (use assms in auto)
  moreover have "?y div 100 = 4 * a + c" by (rule int_div_pos_eq [of _ _ _ "4 * q + s"]) (use assms in auto)
  moreover have "?y div 400 = a" by (rule int_div_pos_eq [of _ _ _ "100 * c + 4 * q + s"]) (use assms in auto)
  ultimately show ?thesis by (simp add: year_start_def)
qed

lemma div_pred: "0 < k \<Longrightarrow> (y :: int) div k = (y - 1) div k + (if k dvd y then 1 else 0)"
proof (cases "k dvd y")
  case True
  assume "0 < k"
  from True obtain j where "y = k * j" by blast
  moreover from this have "(y - 1) div k = j - 1" using \<open>0 < k\<close> by (intro int_div_pos_eq [of _ _ _ "k - 1"]) (auto simp: algebra_simps)
  ultimately show ?thesis using \<open>0 < k\<close> by simp
next
  case False
  assume k: "0 < k"
  have "y mod k \<noteq> 0" "0 \<le> y mod k" "y mod k < k" using False k by (auto simp: dvd_eq_mod_eq_0)
  then have "(y - 1) div k = y div k" by (intro int_div_pos_eq [of _ _ _ "y mod k - 1"]) (simp_all add: algebra_simps)
  with False show ?thesis by simp
qed

lemma leap_dvd: "leap y \<longleftrightarrow> 4 dvd y \<and> (\<not> 100 dvd y \<or> 400 dvd y)"
  by (simp add: leap_def dvd_eq_mod_eq_0)

lemma year_length_arith:
  fixes y :: int
  assumes "d4 = a + (if p then 1 else 0)" "d100 = b + (if q then 1 else 0)" "d400 = c + (if r then 1 else 0)" "q \<longrightarrow> p" "r \<longrightarrow> q"
  shows "365 * y + d4 - d100 + d400 = 365 * (y - 1) + a - b + c + (if p \<and> (\<not> q \<or> r) then 366 else 365)"
  unfolding assms(1-3) using assms(4,5) by (cases p; cases q; cases r) (simp_all add: algebra_simps)

lemma year_length: "year_start (y + 1) = year_start y + (if leap y then 366 else 365)"
proof -
  have d: "(4 :: int) dvd 100" "(100 :: int) dvd 400" by simp_all
  have m: "100 dvd y \<longrightarrow> 4 dvd y" "400 dvd y \<longrightarrow> 100 dvd y" using dvd_trans [OF d(1), of y] dvd_trans [OF d(2), of y] by blast+
  have p: "(0 :: int) < 4" "(0 :: int) < 100" "(0 :: int) < 400" by simp_all
  show ?thesis unfolding year_start_def leap_dvd add_diff_cancel_right'
    by (rule year_length_arith [OF div_pred [OF p(1)] div_pred [OF p(2)] div_pred [OF p(3)] m])
qed

lemma year_start_mono: "y \<le> y' \<Longrightarrow> year_start y \<le> year_start y'"
proof (induction y' rule: int_ge_induct)
  case (step i)
  then show ?case using year_length [of i] by (simp split: if_splits)
qed simp

lemma year_of_start: "year_start (year_of n) \<le> n \<and> n < year_start (year_of n + 1)"
proof -
  define a r where "a = n div 146097" and "r = n mod 146097"
  have r: "n = 146097 * a + r" "0 \<le> r" "r < 146097" by (simp_all add: a_def r_def)
  define c where "c = min 3 (r div 36524)"
  have c: "0 \<le> c" "c \<le> 3" "36524 * c \<le> r" "c < 3 \<longrightarrow> r < 36524 * (c + 1)" using r unfolding c_def by (auto simp: min_def)
  define q where "q = (r - 36524 * c) div 1461"
  have q: "0 \<le> q" "1461 * q \<le> r - 36524 * c" "r - 36524 * c < 1461 * (q + 1)" using c unfolding q_def by (auto simp: pos_imp_zdiv_nonneg_iff)
  have "q \<le> 24" using q c r by (cases "c < 3") auto
  define s where "s = min 3 ((r - 36524 * c - 1461 * q) div 365)"
  have s: "0 \<le> s" "s \<le> 3" "365 * s \<le> r - 36524 * c - 1461 * q" "s < 3 \<longrightarrow> r - 36524 * c - 1461 * q < 365 * (s + 1)"
    using q unfolding s_def by (auto simp: min_def)
  have y: "year_of n = 400 * a + 100 * c + 4 * q + s + 1" by (simp add: year_of_def a_def r_def c_def q_def s_def Let_def)
  have start: "year_start (year_of n) = 146097 * a + 36524 * c + 1461 * q + 365 * s" unfolding y using year_start_decomp c q s \<open>q \<le> 24\<close> by blast
  have "leap (year_of n)" if "s = 3" "q < 24 \<or> c = 3"
  proof -
    have y4: "year_of n = 4 * (100 * a + 25 * c + q + 1)" using that(1) y by simp
    have "400 dvd year_of n" if "100 dvd year_of n"
    proof -
      from that have "100 dvd 4 * q + 4" using dvd_diff [of 100 "year_of n" "400 * a + 100 * c"] unfolding y4 by (simp add: algebra_simps)
      then have "q = 24" using q(1) \<open>q \<le> 24\<close> by presburger
      with \<open>q < 24 \<or> c = 3\<close> y4 show ?thesis by simp
    qed
    with y4 show ?thesis by (auto simp: leap_dvd)
  qed
  then have "n < year_start (year_of n) + (if leap (year_of n) then 366 else 365)"
    using start r c q s \<open>q \<le> 24\<close> by (cases "s = 3"; cases "q < 24"; cases "c = 3") (auto split: if_splits)
  with start s r show ?thesis by (simp add: year_length)
qed

lemma year_of_eq:
  assumes "year_start y \<le> n" "n < year_start (y + 1)" shows "year_of n = y"
proof (rule ccontr)
  assume "year_of n \<noteq> y"
  then consider "year_of n + 1 \<le> y" | "y + 1 \<le> year_of n" by linarith
  then show False using year_start_mono year_of_start [of n] assms by cases force+
qed

lemma month_walk_at:
  "k < length ls \<Longrightarrow> 0 \<le> d \<Longrightarrow> d < ls ! k \<Longrightarrow> (\<forall>l \<in> set ls. 0 < l) \<Longrightarrow> month_walk ls m (sum_list (take k ls) + d) = (m + int k, d + 1)"
proof (induction ls arbitrary: k m)
  case (Cons l ls)
  show ?case
  proof (cases k)
    case (Suc j)
    have "0 \<le> sum_list (take j ls)" using Cons.prems by (intro sum_list_nonneg) (fastforce dest: in_set_takeD)
    moreover have "month_walk ls (m + 1) (sum_list (take j ls) + d) = (m + 1 + int j, d + 1)" using Cons Suc by simp
    ultimately show ?thesis using Suc Cons.prems by (simp add: algebra_simps)
  qed (use Cons.prems in simp)
qed simp

lemma month_walk_ex:
  fixes d :: int shows "0 \<le> d \<Longrightarrow> d < sum_list ls \<Longrightarrow> \<exists>k < length ls. 0 \<le> d - sum_list (take k ls) \<and> d - sum_list (take k ls) < ls ! k"
proof (induction ls arbitrary: d)
  case (Cons l ls)
  show ?case
  proof (cases "d < l")
    case False
    then have "0 \<le> d - l" "d - l < sum_list ls" using Cons.prems by simp_all
    from Cons.IH [OF this] obtain k where "k < length ls" "0 \<le> d - l - sum_list (take k ls)" "d - l - sum_list (take k ls) < ls ! k" by blast
    then show ?thesis by (intro exI [of _ "Suc k"]) auto
  qed (use Cons.prems in \<open>auto intro!: exI [of _ 0]\<close>)
qed simp

lemma month_lengths_facts: "length (month_lengths y) = 12" "\<forall>l \<in> set (month_lengths y). 0 < l" "sum_list (month_lengths y) = (if leap y then 366 else 365)"
  by (simp_all add: month_lengths_def)

text \<open>A valid date is the date of exactly its day number.\<close>

definition valid_date :: "int \<Rightarrow> int \<Rightarrow> int \<Rightarrow> bool" where
  "valid_date y m d \<longleftrightarrow> 1 \<le> m \<and> m \<le> 12 \<and> 1 \<le> d \<and> d \<le> month_lengths y ! nat (m - 1)"

lemma month_start_end:
  assumes "1 \<le> m" "m \<le> 12"
  shows "0 \<le> month_start y m" "month_start y m + month_lengths y ! nat (m - 1) \<le> (if leap y then 366 else 365)"
    "m < 12 \<Longrightarrow> month_start y (m + 1) = month_start y m + month_lengths y ! nat (m - 1)"
    "m = 12 \<Longrightarrow> month_start y m + month_lengths y ! nat (m - 1) = (if leap y then 366 else 365)"
proof -
  have "nat (m - 1) \<in> {0..<12}" using assms by auto
  then show "0 \<le> month_start y m" "month_start y m + month_lengths y ! nat (m - 1) \<le> (if leap y then 366 else 365)"
    by (auto simp: month_start_def month_lengths_def atLeastLessThan_def numeral_eq_Suc less_Suc_eq_le le_Suc_eq)
  show "month_start y (m + 1) = month_start y m + month_lengths y ! nat (m - 1)" if "m < 12"
  proof -
    have "nat (m + 1 - 1) = Suc (nat (m - 1))" "nat (m - 1) < length (month_lengths y)" using assms that month_lengths_facts(1) by auto
    then show ?thesis by (simp add: month_start_def take_Suc_conv_app_nth)
  qed
  show "month_start y m + month_lengths y ! nat (m - 1) = (if leap y then 366 else 365)" if "m = 12"
    using that by (simp add: month_start_def month_lengths_def)
qed

lemma civil_date:
  assumes "valid_date y m d" shows "civil (year_start y + month_start y m + d - 1) = (y, m, d)"
proof -
  let ?n = "year_start y + month_start y m + d - 1"
  have m: "1 \<le> m" "m \<le> 12" "1 \<le> d" "d \<le> month_lengths y ! nat (m - 1)" using assms by (auto simp: valid_date_def)
  note M = month_start_end [OF m(1,2), of y]
  have "year_of ?n = y" by (rule year_of_eq) (use M m in \<open>auto simp: year_length split: if_splits\<close>)
  moreover have "month_walk (month_lengths y) 1 (month_start y m + (d - 1)) = (1 + int (nat (m - 1)), d - 1 + 1)"
    unfolding month_start_def by (rule month_walk_at) (use m month_lengths_facts in auto)
  ultimately show ?thesis using m by (simp add: civil_def algebra_simps)
qed

lemma civil_valid:
  assumes "civil n = (y, m, d)" shows "valid_date y m d \<and> n = year_start y + month_start y m + d - 1"
proof -
  have y: "y = year_of n" using assms by (simp add: civil_def)
  have "0 \<le> n - year_start y" "n - year_start y < sum_list (month_lengths y)"
    using year_of_start [of n] year_length [of y] by (auto simp: y month_lengths_facts split: if_splits)
  from month_walk_ex [OF this] obtain k where k: "k < 12" "0 \<le> n - year_start y - sum_list (take k (month_lengths y))"
    "n - year_start y - sum_list (take k (month_lengths y)) < month_lengths y ! k" by (auto simp: month_lengths_facts)
  let ?d = "n - year_start y - sum_list (take k (month_lengths y)) + 1"
  have v: "valid_date y (int k + 1) ?d" using k by (simp add: valid_date_def)
  have "n = year_start y + month_start y (int k + 1) + ?d - 1" by (simp add: month_start_def)
  with civil_date [OF v] assms have "m = int k + 1" "d = ?d" by auto
  with v show ?thesis by (simp add: month_start_def)
qed

lemma tm_date_eq: "tm_date t = (tm_year t, tm_month t, tm_day t)"
  by (simp add: tm_year_def tm_month_def tm_day_def)

lemma tm_valid: "valid_date (tm_year t) (tm_month t) (tm_day t)"
  and tm_days: "local_ns t div day = year_start (tm_year t) + month_start (tm_year t) (tm_month t) + tm_day t - 1"
  using civil_valid [of "local_ns t div day" "tm_year t" "tm_month t" "tm_day t"] tm_date_eq [of t] by (simp_all add: tm_date_def)

lemma tm_ranges:
  "0 \<le> tm_minute t" "tm_minute t < 60" "0 \<le> tm_hour t" "tm_hour t < 24" "1 \<le> tm_month t" "tm_month t \<le> 12" "0 \<le> tm_weekday t" "tm_weekday t < 7"
  "1 \<le> tm_day t" "tm_day t \<le> 31"
proof -
  have "0 \<le> local_ns t mod day" "local_ns t mod day < day" "0 \<le> local_ns t mod hour" "local_ns t mod hour < hour" by simp_all
  then show "0 \<le> tm_minute t" "tm_minute t < 60" "0 \<le> tm_hour t" "tm_hour t < 24" by (simp_all add: tm_minute_def tm_hour_def div_pos_pos_trivial pos_imp_zdiv_nonneg_iff; linarith)+
  show "1 \<le> tm_month t" "tm_month t \<le> 12" "1 \<le> tm_day t" using tm_valid [of t] by (simp_all add: valid_date_def)
  show "0 \<le> tm_weekday t" "tm_weekday t < 7" by (simp_all add: tm_weekday_def)
  have "month_lengths y ! k \<le> 31" if "k < 12" for y k
    using that by (auto simp: month_lengths_def numeral_eq_Suc less_Suc_eq)
  moreover have "nat (tm_month t - 1) < 12" using tm_valid [of t] by (auto simp: valid_date_def nat_less_iff)
  ultimately have "month_lengths (tm_year t) ! nat (tm_month t - 1) \<le> 31" by blast
  with tm_valid [of t] show "tm_day t \<le> 31" by (simp add: valid_date_def)
qed

text \<open>The first of the following month: the days up to it are in the same month.\<close>

lemma date_days_next:
  assumes "1 \<le> m" "m \<le> 12" shows "date_days y (m + 1) 1 = year_start y + month_start y m + month_lengths y ! nat (m - 1)"
proof (cases "m = 12")
  case True
  then show ?thesis using month_start_end(4) [OF assms True, of y] by (simp add: date_days_def year_length month_start_def)
next
  case False
  with assms have "m div 12 = 0" "m mod 12 = m" by auto
  with False assms month_start_end(3) [OF assms, of y] show ?thesis by (simp add: date_days_def Let_def)
qed

lemma civil_same_month:
  assumes "civil n = (y, m, d)" "n \<le> n'" "n' < date_days y (m + 1) 1"
  shows "civil n' = (y, m, d + (n' - n))"
proof -
  note v = civil_valid [OF assms(1)]
  then have m: "1 \<le> m" "m \<le> 12" by (simp_all add: valid_date_def)
  have "valid_date y m (d + (n' - n))" using v assms(2,3) date_days_next [OF m, of y] by (simp add: valid_date_def)
  from civil_date [OF this] v show ?thesis by (simp add: algebra_simps)
qed

end
