(* ===== verification/Cron.thy ===== *)
theory Cron
  imports Go_Time "HOL-Library.Word"
begin

text \<open>
  When a scheduled job is due (\<open>domain/scheduling\<close>: \<open>cron.go\<close>, \<open>schedule.go\<close>): cron expressions parsed into bit masks,
  the scan for the next matching minute, and the interval, cron and one-shot schedules over them. The texts of
  errors are left out; which sentinel they wrap is kept.
\<close>

unbundle bit_operations_syntax

section \<open>Cron expressions\<close>

type_synonym cronSlots = "64 word"

definition slot_has :: "cronSlots \<Rightarrow> int \<Rightarrow> bool" where
  "slot_has s v \<longleftrightarrow> v \<ge> 0 \<and> v < 64 \<and> s AND push_bit (nat v) 1 \<noteq> 0"

record cronSpec =
  cs_minutes :: cronSlots
  cs_hours :: cronSlots
  cs_days :: cronSlots
  cs_months :: cronSlots
  cs_weekdays :: cronSlots

definition due :: "cronSpec \<Rightarrow> go_time \<Rightarrow> bool" where
  "due c t \<longleftrightarrow> slot_has (cs_minutes c) (tm_minute t) \<and> slot_has (cs_hours c) (tm_hour t) \<and> slot_has (cs_days c) (tm_day t) \<and>
     slot_has (cs_months c) (tm_month t) \<and> slot_has (cs_weekdays c) (tm_weekday t)"

definition cronMacros :: "string gomap" where
  "cronMacros =
    [(''@yearly'', ''0 0 1 1 *''), (''@annually'', ''0 0 1 1 *''), (''@monthly'', ''0 0 1 * *''), (''@weekly'', ''0 0 * * 0''),
     (''@daily'', ''0 0 * * *''), (''@midnight'', ''0 0 * * *''), (''@hourly'', ''0 * * * *'')]"

definition cronValue :: "string \<Rightarrow> int \<Rightarrow> int \<Rightarrow> int option" where
  "cronValue s lo hi = (case atoi s of None \<Rightarrow> None | Some v \<Rightarrow> if v < lo \<or> v > hi then None else Some v)"

definition cronRange :: "string \<Rightarrow> bool \<Rightarrow> int \<Rightarrow> int \<Rightarrow> (int \<times> int) option" where
  "cronRange base stepped lo hi =
    (if base = ''*'' then Some (lo, hi)
     else (case cut_byte base CHR ''-'' of (fr, to, ranged) \<Rightarrow>
       if \<not> ranged \<and> stepped then None
       else (case cronValue fr lo hi of
           None \<Rightarrow> None
         | Some first \<Rightarrow>
             if \<not> ranged then Some (first, first)
             else (case cronValue to first hi of None \<Rightarrow> None | Some final \<Rightarrow> Some (first, final)))))"

text \<open>The step of a part: one without a slash.\<close>

definition cron_step :: "string \<Rightarrow> bool \<Rightarrow> int \<Rightarrow> int option" where
  "cron_step stepText stepped hi =
    (if stepped then (case atoi stepText of None \<Rightarrow> None | Some n \<Rightarrow> if n < 1 \<or> n > hi then None else Some n) else Some 1)"

text \<open>The loop that sets the bits; the step is positive.\<close>

function cron_fill :: "int \<Rightarrow> int \<Rightarrow> int \<Rightarrow> cronSlots \<Rightarrow> cronSlots" where
  "cron_fill v final step slots =
    (if v \<le> final \<and> 0 < step then cron_fill (v + step) final step (slots OR push_bit (nat v) 1) else slots)"
  by pat_completeness auto
termination by (relation "measure (\<lambda>(v, final, step, _). nat (final + 1 - v))") auto

declare cron_fill.simps [simp del]

fun cron_parts :: "string list \<Rightarrow> int \<Rightarrow> int \<Rightarrow> cronSlots \<Rightarrow> cronSlots option" where
  "cron_parts [] lo hi slots = Some slots"
| "cron_parts (part # parts) lo hi slots =
    (case cut_byte part CHR ''/'' of (base, stepText, stepped) \<Rightarrow>
      (case cron_step stepText stepped hi of
         None \<Rightarrow> None
       | Some step \<Rightarrow> (case cronRange base stepped lo hi of
           None \<Rightarrow> None
         | Some (first, final) \<Rightarrow> cron_parts parts lo hi (cron_fill first final step slots))))"

definition parseCronSegment :: "string \<Rightarrow> int \<Rightarrow> int \<Rightarrow> cronSlots option" where
  "parseCronSegment segment lo hi = cron_parts (split_byte CHR '','' segment) lo hi 0"

definition parseCron :: "string \<Rightarrow> cronSpec option" where
  "parseCron expr =
    (case split_byte CHR '' '' (case map_of cronMacros expr of None \<Rightarrow> expr | Some macro \<Rightarrow> macro) of
       [f0, f1, f2, f3, f4] \<Rightarrow>
         (case (parseCronSegment f0 0 59, parseCronSegment f1 0 23, parseCronSegment f2 1 31, parseCronSegment f3 1 12, parseCronSegment f4 0 6) of
            (Some mi, Some h, Some d, Some mo, Some w) \<Rightarrow>
              Some \<lparr>cs_minutes = mi, cs_hours = h, cs_days = d, cs_months = mo, cs_weekdays = w\<rparr>
          | _ \<Rightarrow> None)
     | _ \<Rightarrow> None)"

datatype schedule_error = ErrInvalidSpec | ErrScheduleUnsupported

definition parseCronSpec :: "string \<Rightarrow> schedule_error + cronSpec" where
  "parseCronSpec expr = (case parseCron expr of None \<Rightarrow> Inl ErrInvalidSpec | Some spec \<Rightarrow> Inr spec)"

section \<open>The next matching minute\<close>

definition cronHorizon :: int where
  "cronHorizon = 5 * 365 * 24 * hour"

definition next_month :: "go_time \<Rightarrow> go_time" where
  "next_month t = AddDate (Date (tm_year t) (tm_month t) 1 (tm_off t)) 0 1 0"

definition next_hour :: "go_time \<Rightarrow> go_time" where
  "next_hour t = tm_truncate (tm_add t hour) hour"

lemma local_Date [simp]: "local_ns (Date y m d off) = date_days y m d * day" "tm_off (Date y m d off) = off"
  by (simp_all add: local_ns_def Date_def)

lemma tm_date_Date:
  assumes "valid_date y m d" shows "tm_date (Date y m d off) = (y, m, d)"
proof -
  have "(m - 1) div 12 = 0" "(m - 1) mod 12 = m - 1" using assms by (auto simp: valid_date_def)
  then have "date_days y m d = year_start y + month_start y m + d - 1" by (simp add: date_days_def)
  with civil_date [OF assms] show ?thesis by (simp add: tm_date_def)
qed

lemma next_month_eq: "next_month t = Date (tm_year t) (tm_month t + 1) 1 (tm_off t)"
proof -
  have "valid_date (tm_year t) (tm_month t) 1" using tm_valid [of t] by (auto simp: valid_date_def)
  from tm_date_Date [OF this, of "tm_off t"] show ?thesis
    by (simp add: next_month_def AddDate_def tm_year_def tm_month_def tm_day_def)
qed

lemma next_month_after: "local_ns t div day < local_ns (next_month t) div day" "tm_off (next_month t) = tm_off t"
proof -
  have m: "1 \<le> tm_month t" "tm_month t \<le> 12" and "tm_day t \<le> month_lengths (tm_year t) ! nat (tm_month t - 1)"
    using tm_valid [of t] by (simp_all add: valid_date_def)
  with tm_days [of t] date_days_next [OF m, of "tm_year t"] show "local_ns t div day < local_ns (next_month t) div day"
    by (simp add: next_month_eq)
qed (simp add: next_month_eq)

lemma next_month_later: "tm_ns t < tm_ns (next_month t)"
proof -
  have "local_ns t < local_ns (next_month t)" using next_month_after(1) [of t] zdiv_mono1 [of "local_ns (next_month t)" "local_ns t" day] by linarith
  then show ?thesis using next_month_after(2) [of t] by (simp add: local_ns_def)
qed

lemma next_hour_later: "tm_ns t < tm_ns (next_hour t)" "tm_off (next_hour t) = tm_off t"
proof -
  have "(tm_ns t + hour) mod hour < hour" by simp
  then show "tm_ns t < tm_ns (next_hour t)" by (simp add: next_hour_def tm_truncate_def tm_add_def)
qed (simp add: next_hour_def tm_truncate_def tm_add_def)

function cron_scan :: "cronSpec \<Rightarrow> go_time \<Rightarrow> int \<Rightarrow> schedule_error + go_time" where
  "cron_scan sched t limit =
    (if tm_ns t < limit then
       (if due sched t then Inr t
        else if \<not> slot_has (cs_months sched) (tm_month t) then cron_scan sched (next_month t) limit
        else if \<not> slot_has (cs_hours sched) (tm_hour t) then cron_scan sched (next_hour t) limit
        else cron_scan sched (tm_add t minute) limit)
     else Inl ErrInvalidSpec)"
  by pat_completeness auto
termination
  by (relation "measure (\<lambda>(_, t, limit). nat (limit - tm_ns t))")
    (use next_month_later next_hour_later in \<open>auto simp: tm_add_def nat_less_eq_zless\<close>)

declare cron_scan.simps [simp del]

definition nextCronRun :: "cronSpec \<Rightarrow> go_time \<Rightarrow> schedule_error + go_time" where
  "nextCronRun sched fr = cron_scan sched (tm_add (tm_truncate fr minute) minute) (tm_ns (tm_add fr cronHorizon))"

section \<open>Schedules\<close>

record Schedule =
  sc_kind :: string
  sc_interval :: int
  sc_cron :: string
  sc_at :: "go_time option"
  sc_start :: go_time

definition ScheduleInterval :: string where "ScheduleInterval = ''interval''"
definition ScheduleCron :: string where "ScheduleCron = ''cron''"
definition ScheduleOnce :: string where "ScheduleOnce = ''once''"

definition ValidateSchedule :: "Schedule \<Rightarrow> schedule_error option" where
  "ValidateSchedule s =
    (if sc_kind s = '''' \<or> sc_kind s = ScheduleInterval then (if sc_interval s \<le> 0 then Some ErrInvalidSpec else None)
     else if sc_kind s = ScheduleCron then (case parseCronSpec (sc_cron s) of Inl e \<Rightarrow> Some e | Inr _ \<Rightarrow> None)
     else if sc_kind s = ScheduleOnce then (if sc_at s = None then Some ErrInvalidSpec else None)
     else Some ErrInvalidSpec)"

definition resolve :: "Schedule \<Rightarrow> Schedule" where
  "resolve s = (if sc_kind s = '''' then s\<lparr>sc_kind := ScheduleInterval\<rparr> else s)"

definition firstRun :: "Schedule \<Rightarrow> go_time \<Rightarrow> schedule_error + go_time" where
  "firstRun s now =
    (let kind = sc_kind (resolve s) in
     if kind = ScheduleInterval then
       (if \<not> tm_zero (sc_start s) then Inr (tm_add (sc_start s) (sc_interval s)) else Inr (tm_add now (sc_interval s)))
     else if kind = ScheduleOnce then (case sc_at s of None \<Rightarrow> Inl ErrScheduleUnsupported | Some t \<Rightarrow> Inr t)
     else if kind = ScheduleCron then
       (case parseCronSpec (sc_cron s) of
          Inl e \<Rightarrow> Inl e
        | Inr sched \<Rightarrow> nextCronRun sched (if \<not> tm_zero (sc_start s) then sc_start s else now))
     else Inl ErrScheduleUnsupported)"

definition nextRun :: "Schedule \<Rightarrow> go_time \<Rightarrow> schedule_error + go_time" where
  "nextRun s lastRun =
    (let kind = sc_kind (resolve s) in
     if kind = ScheduleInterval then Inr (tm_add lastRun (sc_interval s))
     else if kind = ScheduleOnce then Inl ErrScheduleUnsupported
     else if kind = ScheduleCron then
       (case parseCronSpec (sc_cron s) of Inl e \<Rightarrow> Inl e | Inr sched \<Rightarrow> nextCronRun sched lastRun)
     else Inl ErrScheduleUnsupported)"

end
