(* ===== verification/Resource_Store.thy ===== *)
theory Resource_Store
  imports Go_Time Access
begin

text \<open>
  Control-plane documents (\<open>infrastructure/postgres/resources.go\<close>, \<open>app/controlplane\<close>: \<open>registry.go\<close>,
  \<open>controlplane.go\<close>): one document per org and kind with its ledger of revisions and its audit trail, optimistic
  writes that are idempotent per request id, the commands that validate a document before it is stored, and the
  seeding of documents at start.

  \<^item> A document is a value; its JSON text is left out, and with it the check that the text is JSON.
  \<^item> \<open>PutResource\<close> holds an advisory lock per org and kind for its transaction, so it is one step; an error leaves
    the tables as they were.
  \<^item> The SQL function \<open>audit_json_diff\<close> is the argument \<open>diff\<close>, SHA-256 the argument \<open>hash\<close>, and the rules of
    \<open>checkOrgWrite\<close> for model and provider documents the argument \<open>orgCheck\<close>.
\<close>

section \<open>Tables\<close>

record 'v resource_row =
  rr_org :: string
  rr_kind :: string
  rr_value :: 'v
  rr_version :: int
  rr_updated :: go_time

record 'v StoredResource =
  rv_org :: string
  rv_kind :: string
  rv_value :: 'v
  rv_version :: int
  rv_actor :: string
  rv_source :: string
  rv_request :: string
  rv_expected :: int
  rv_current :: int
  rv_at :: go_time

record 'v ResourceWrite =
  rw_org :: string
  rw_kind :: string
  rw_value :: 'v
  rw_actor :: string
  rw_source :: string
  rw_request :: string
  rw_expected :: int
  rw_at :: go_time

record 'v resource_audit =
  au_key :: string
  au_field :: string
  au_old :: "'v option"
  au_new :: "'v option"
  au_version :: int
  au_actor :: string
  au_source :: string
  au_request :: string
  au_at :: go_time

type_synonym 'v audit_diff = "'v option \<Rightarrow> 'v \<Rightarrow> (string \<times> 'v option \<times> 'v option) list"

record 'v resource_db =
  rd_rows :: "'v resource_row list"
  rd_history :: "'v StoredResource list"
  rd_audit :: "'v resource_audit list"

datatype resource_error = InvalidResourceKey | ErrResourceNotFound | ErrResourceVersionConflict | DatabaseRefused

definition ResourceAuditKey :: "string \<Rightarrow> string \<Rightarrow> string" where
  "ResourceAuditKey orgID kind = (if orgID = DefaultOrgID then kind else orgID @ ''/'' @ kind)"

section \<open>Statements\<close>

definition row_at :: "string \<Rightarrow> string \<Rightarrow> 'v resource_row \<Rightarrow> bool" where
  "row_at orgID kind r \<longleftrightarrow> rr_org r = orgID \<and> rr_kind r = kind"

definition revision_at :: "string \<Rightarrow> string \<Rightarrow> 'v StoredResource \<Rightarrow> bool" where
  "revision_at orgID kind r \<longleftrightarrow> rv_org r = orgID \<and> rv_kind r = kind"

definition q_ResourceByKind :: "string \<Rightarrow> string \<Rightarrow> 'v resource_db \<Rightarrow> 'v resource_row option" where
  "q_ResourceByKind orgID kind d = find (row_at orgID kind) (rd_rows d)"

definition q_ResourceByRequest :: "string \<Rightarrow> string \<Rightarrow> string \<Rightarrow> 'v resource_db \<Rightarrow> 'v StoredResource option" where
  "q_ResourceByRequest orgID kind request d = find (\<lambda>r. revision_at orgID kind r \<and> rv_request r = request) (rd_history d)"

text \<open>The primary key of the rows is the org and the kind.\<close>

definition q_InsertResource :: "'v resource_row \<Rightarrow> 'v resource_db \<Rightarrow> ('v resource_row \<times> 'v resource_db) option" where
  "q_InsertResource r d =
    (if list_ex (row_at (rr_org r) (rr_kind r)) (rd_rows d) then None else Some (r, d\<lparr>rd_rows := rd_rows d @ [r]\<rparr>))"

definition q_UpdateResource :: "string \<Rightarrow> string \<Rightarrow> 'v \<Rightarrow> go_time \<Rightarrow> int \<Rightarrow> 'v resource_db \<Rightarrow> ('v resource_row \<times> 'v resource_db) option" where
  "q_UpdateResource orgID kind v at_time version d =
    (case find (\<lambda>r. row_at orgID kind r \<and> rr_version r = version) (rd_rows d) of
       None \<Rightarrow> None
     | Some r \<Rightarrow>
         (let r' = r\<lparr>rr_value := v, rr_version := rr_version r + 1, rr_updated := at_time\<rparr>
          in Some (r', d\<lparr>rd_rows := map (\<lambda>x. if row_at orgID kind x \<and> rr_version x = version then r' else x) (rd_rows d)\<rparr>)))"

text \<open>The ledger has a unique index on org, kind and request.\<close>

definition q_InsertResourceHistory :: "'v StoredResource \<Rightarrow> 'v resource_db \<Rightarrow> 'v resource_db option" where
  "q_InsertResourceHistory h d =
    (if q_ResourceByRequest (rv_org h) (rv_kind h) (rv_request h) d \<noteq> None then None else Some (d\<lparr>rd_history := rd_history d @ [h]\<rparr>))"

text \<open>The previous revision is read by a subquery, which fails when it has more than one row.\<close>

definition q_InsertResourceAudit :: "'v audit_diff \<Rightarrow> int \<Rightarrow> 'v StoredResource \<Rightarrow> 'v resource_db \<Rightarrow> 'v resource_db option" where
  "q_InsertResourceAudit diff previous h d =
    (let old = filter (\<lambda>r. revision_at (rv_org h) (rv_kind h) r \<and> rv_version r = previous) (rd_history d) in
     if length old > 1 then None
     else Some (d\<lparr>rd_audit := rd_audit d @ map (\<lambda>(field, was, now). \<lparr>au_key = ResourceAuditKey (rv_org h) (rv_kind h),
         au_field = field, au_old = was, au_new = now, au_version = rv_version h, au_actor = rv_actor h, au_source = rv_source h,
         au_request = rv_request h, au_at = rv_at h\<rparr>) (diff (map_option rv_value (case old of [] \<Rightarrow> None | r # _ \<Rightarrow> Some r)) (rv_value h))\<rparr>))"

section \<open>Operations\<close>

definition checkResourceKey :: "string \<Rightarrow> string \<Rightarrow> bool" where
  "checkResourceKey orgID kind \<longleftrightarrow> \<not> (orgID = '''' \<or> kind = '''' \<or> CHR ''/'' \<in> set orgID \<or> CHR ''/'' \<in> set kind)"

definition resourceFromCurrent :: "'v resource_row \<Rightarrow> 'v StoredResource" where
  "resourceFromCurrent r = \<lparr>rv_org = rr_org r, rv_kind = rr_kind r, rv_value = rr_value r, rv_version = rr_version r, rv_actor = '''',
     rv_source = '''', rv_request = '''', rv_expected = 0, rv_current = 0, rv_at = rr_updated r\<rparr>"

definition read_resource :: "string \<Rightarrow> string \<Rightarrow> 'v resource_db \<Rightarrow> resource_error + 'v StoredResource" where
  "read_resource orgID kind d =
    (if \<not> checkResourceKey orgID kind then Inl InvalidResourceKey
     else (case q_ResourceByKind orgID kind d of None \<Rightarrow> Inl ErrResourceNotFound | Some r \<Rightarrow> Inr (resourceFromCurrent r)))"

definition ResourceHistory :: "string \<Rightarrow> string \<Rightarrow> nat \<Rightarrow> 'v resource_db \<Rightarrow> resource_error + 'v StoredResource list" where
  "ResourceHistory orgID kind limit d =
    (if \<not> checkResourceKey orgID kind then Inl InvalidResourceKey
     else (let entries = sort_key (\<lambda>r. - rv_version r) (filter (revision_at orgID kind) (rd_history d))
           in Inr (if limit = 0 then entries else take limit entries)))"

definition appendResourceRevision :: "'v audit_diff \<Rightarrow> go_time \<Rightarrow> 'v ResourceWrite \<Rightarrow> int \<Rightarrow> 'v resource_db \<Rightarrow>
    resource_error + ('v StoredResource \<times> 'v resource_db)" where
  "appendResourceRevision diff now w current d =
    (let at_time = (if tm_zero (rw_at w) then tm_utc now else tm_utc (rw_at w));
         written = (if current = 0
           then q_InsertResource \<lparr>rr_org = rw_org w, rr_kind = rw_kind w, rr_value = rw_value w, rr_version = 1, rr_updated = at_time\<rparr> d
           else q_UpdateResource (rw_org w) (rw_kind w) (rw_value w) at_time current d)
     in case written of
          None \<Rightarrow> Inl DatabaseRefused
        | Some (row, d1) \<Rightarrow>
            (let h = \<lparr>rv_org = rw_org w, rv_kind = rw_kind w, rv_value = rw_value w, rv_version = rr_version row, rv_actor = rw_actor w,
                   rv_source = rw_source w, rv_request = rw_request w, rv_expected = rw_expected w, rv_current = current, rv_at = at_time\<rparr>
             in case q_InsertResourceHistory h d1 of
                  None \<Rightarrow> Inl DatabaseRefused
                | Some d2 \<Rightarrow> (case q_InsertResourceAudit diff current h d2 of
                    None \<Rightarrow> Inl DatabaseRefused
                  | Some d3 \<Rightarrow> Inr (h, d3))))"

definition replayedResource :: "'v StoredResource \<Rightarrow> 'v resource_db \<Rightarrow> resource_error + ('v StoredResource \<times> 'v resource_db)" where
  "replayedResource existing d = (case q_ResourceByKind (rv_org existing) (rv_kind existing) d of
     None \<Rightarrow> (case q_InsertResource \<lparr>rr_org = rv_org existing, rr_kind = rv_kind existing, rr_value = rv_value existing,
           rr_version = rv_version existing, rr_updated = rv_at existing\<rparr> d of
         None \<Rightarrow> Inl DatabaseRefused
       | Some (_, d') \<Rightarrow> Inr (existing, d'))
   | Some _ \<Rightarrow> Inr (existing, d))"

definition PutResource :: "'v audit_diff \<Rightarrow> go_time \<Rightarrow> 'v ResourceWrite \<Rightarrow> 'v resource_db \<Rightarrow> resource_error + ('v StoredResource \<times> 'v resource_db)" where
  "PutResource diff now w d =
    (if \<not> checkResourceKey (rw_org w) (rw_kind w) then Inl InvalidResourceKey
     else (case q_ResourceByRequest (rw_org w) (rw_kind w) (rw_request w) d of
         Some existing \<Rightarrow> replayedResource existing d
       | None \<Rightarrow>
           (let current = (case q_ResourceByKind (rw_org w) (rw_kind w) d of None \<Rightarrow> 0 | Some r \<Rightarrow> rr_version r)
            in if current \<noteq> rw_expected w then Inl ErrResourceVersionConflict
               else appendResourceRevision diff now w current d)))"

section \<open>Definitions of resources\<close>

record ('v, 'e) Definition =
  df_kind :: string
  df_validate :: "'v \<Rightarrow> 'e option"
  df_normalize :: "('v \<Rightarrow> 'e + 'v) option"
  df_seed :: 'v
  df_shipped :: bool

definition Decode :: "('v, 'e) Definition \<Rightarrow> 'v \<Rightarrow> 'e + 'v" where
  "Decode df input = (case df_validate df input of
     Some e \<Rightarrow> Inl e
   | None \<Rightarrow> (case df_normalize df of None \<Rightarrow> Inr input | Some f \<Rightarrow> f input))"

text \<open>What a client of the control plane gets: the status code of \<open>mapError\<close>, read back by \<open>ClientError\<close>.\<close>

datatype client_error = ErrValidation | ErrNotFound | ErrVersionConflict | ErrUnavailable

definition mapError :: "resource_error \<Rightarrow> client_error" where
  "mapError e = (case e of ErrResourceNotFound \<Rightarrow> ErrNotFound | ErrResourceVersionConflict \<Rightarrow> ErrVersionConflict | _ \<Rightarrow> ErrUnavailable)"

definition find_definition :: "('v, 'e) Definition list \<Rightarrow> string \<Rightarrow> ('v, 'e) Definition option" where
  "find_definition dfs kind = find (\<lambda>df. df_kind df = kind) dfs"

definition Command :: "('v, 'e) Definition list \<Rightarrow> 'v audit_diff \<Rightarrow> (string \<Rightarrow> string \<Rightarrow> 'v \<Rightarrow> client_error option) \<Rightarrow> go_time \<Rightarrow> string \<Rightarrow>
    'v ResourceWrite \<Rightarrow> 'v resource_db \<Rightarrow> client_error + ('v StoredResource \<times> 'v resource_db)" where
  "Command dfs diff orgCheck now command w d = (case find_definition dfs (rw_kind w) of
     None \<Rightarrow> Inl ErrNotFound
   | Some df \<Rightarrow>
       if command \<noteq> ''replace'' then Inl ErrNotFound
       else if rw_actor w = '''' \<or> rw_source w = '''' \<or> rw_request w = '''' then Inl ErrValidation
       else (case Decode df (rw_value w) of
           Inl _ \<Rightarrow> Inl ErrValidation
         | Inr v \<Rightarrow> (case orgCheck (rw_org w) (rw_kind w) v of
             Some e \<Rightarrow> Inl e
           | None \<Rightarrow> (case PutResource diff now (w\<lparr>rw_value := v, rw_at := tm_utc now\<rparr>) d of
               Inl e \<Rightarrow> Inl (mapError e)
             | Inr r \<Rightarrow> Inr r))))"

section \<open>Seeding\<close>

definition seedActor :: string where "seedActor = ''system:migration''"
definition seedSource :: string where "seedSource = ''legacy-config''"

definition seedRequestID :: "('v \<Rightarrow> string) \<Rightarrow> string \<Rightarrow> 'v \<Rightarrow> string" where
  "seedRequestID hash kind v = ''import:'' @ kind @ '':'' @ hash v"

definition seededValue :: "('v, 'e) Definition \<Rightarrow> 'e + 'v" where
  "seededValue df = Decode df (df_seed df)"

definition seedWroteNewest :: "string \<Rightarrow> string \<Rightarrow> 'v resource_db \<Rightarrow> resource_error + bool" where
  "seedWroteNewest orgID kind d = (case ResourceHistory orgID kind 1 d of
     Inl e \<Rightarrow> Inl e
   | Inr [] \<Rightarrow> Inr False
   | Inr (h # _) \<Rightarrow> Inr (rv_actor h = seedActor \<and> rv_source h = seedSource))"

definition shippedValueIsStale :: "string \<Rightarrow> ('v, 'e) Definition \<Rightarrow> 'v resource_db \<Rightarrow> resource_error + bool" where
  "shippedValueIsStale orgID df d = (if \<not> df_shipped df then Inr False else seedWroteNewest orgID (df_kind df) d)"

datatype 'e seed_error = SeedRefusal 'e | SeedFailed resource_error

definition write_seed :: "'v audit_diff \<Rightarrow> ('v \<Rightarrow> string) \<Rightarrow> go_time \<Rightarrow> string \<Rightarrow> string \<Rightarrow> 'v \<Rightarrow> int \<Rightarrow> 'v resource_db \<Rightarrow>
    'e seed_error + (int \<times> 'v resource_db)" where
  "write_seed diff hash now orgID kind v expected d =
    (case PutResource diff now \<lparr>rw_org = orgID, rw_kind = kind, rw_value = v, rw_actor = seedActor, rw_source = seedSource,
         rw_request = seedRequestID hash kind v, rw_expected = expected, rw_at = tm_utc now\<rparr> d of
       Inl e \<Rightarrow> Inl (SeedFailed e)
     | Inr (r, d') \<Rightarrow> Inr (rv_version r, d'))"

definition seedKind :: "'v audit_diff \<Rightarrow> ('v \<Rightarrow> string) \<Rightarrow> go_time \<Rightarrow> string \<Rightarrow> ('v, 'e) Definition \<Rightarrow> 'v resource_db \<Rightarrow>
    'e seed_error + (int \<times> 'v resource_db)" where
  "seedKind diff hash now orgID df d =
    (let stored = read_resource orgID (df_kind df) d in
     case stored of
       Inl e \<Rightarrow>
         if e \<noteq> ErrResourceNotFound then Inl (SeedFailed e)
         else (case seededValue df of
             Inl e \<Rightarrow> Inl (SeedRefusal e)
           | Inr v \<Rightarrow> write_seed diff hash now orgID (df_kind df) v 0 d)
     | Inr r \<Rightarrow> (case seededValue df of
           Inl e \<Rightarrow> Inl (SeedRefusal e)
         | Inr v \<Rightarrow>
             if rv_value r = v then Inr (rv_version r, d)
             else (case shippedValueIsStale orgID df d of
                 Inl e \<Rightarrow> Inl (SeedFailed e)
               | Inr refresh \<Rightarrow>
                   if \<not> refresh then Inr (rv_version r, d)
                   else write_seed diff hash now orgID (df_kind df) v (rv_version r) d)))"

text \<open>The kinds are seeded in order; a seed that is refused is skipped, a failed write ends the import. The second
  loop refreshes the shipped workflow documents of the other orgs.\<close>

fun import_kinds :: "'v audit_diff \<Rightarrow> ('v \<Rightarrow> string) \<Rightarrow> go_time \<Rightarrow> ('v, 'e) Definition list \<Rightarrow> 'v resource_db \<Rightarrow>
    'e seed_error + ((string \<times> int) list \<times> (string \<times> 'e) list \<times> 'v resource_db)" where
  "import_kinds diff hash now [] d = Inr ([], [], d)"
| "import_kinds diff hash now (df # dfs) d =
    (case seedKind diff hash now DefaultOrgID df d of
       Inl (SeedFailed e) \<Rightarrow> Inl (SeedFailed e)
     | Inl (SeedRefusal e) \<Rightarrow>
         (case import_kinds diff hash now dfs d of
            Inl e' \<Rightarrow> Inl e' | Inr (versions, skipped, d') \<Rightarrow> Inr (versions, (df_kind df, e) # skipped, d'))
     | Inr (version, d1) \<Rightarrow>
         (case import_kinds diff hash now dfs d1 of
            Inl e' \<Rightarrow> Inl e' | Inr (versions, skipped, d') \<Rightarrow> Inr ((df_kind df, version) # versions, skipped, d')))"

fun import_orgs :: "'v audit_diff \<Rightarrow> ('v \<Rightarrow> string) \<Rightarrow> go_time \<Rightarrow> ('v, 'e) Definition \<Rightarrow> 'v resource_row list \<Rightarrow> 'v resource_db \<Rightarrow>
    'e seed_error + 'v resource_db" where
  "import_orgs diff hash now df [] d = Inr d"
| "import_orgs diff hash now df (r # rs) d =
    (if rr_org r = DefaultOrgID \<or> rr_kind r \<noteq> df_kind df then import_orgs diff hash now df rs d
     else (case seedKind diff hash now (rr_org r) df d of Inl e \<Rightarrow> Inl e | Inr (_, d') \<Rightarrow> import_orgs diff hash now df rs d'))"

definition ImportConfig :: "'v audit_diff \<Rightarrow> ('v \<Rightarrow> string) \<Rightarrow> go_time \<Rightarrow> ('v, 'e) Definition list \<Rightarrow> ('v, 'e) Definition \<Rightarrow> 'v resource_db \<Rightarrow>
    'e seed_error + ((string \<times> int) list \<times> (string \<times> 'e) list \<times> 'v resource_db)" where
  "ImportConfig diff hash now dfs workflows d = (case import_kinds diff hash now dfs d of
     Inl e \<Rightarrow> Inl e
   | Inr (versions, skipped, d1) \<Rightarrow> (case import_orgs diff hash now workflows (rd_rows d1) d1 of
       Inl e \<Rightarrow> Inl e
     | Inr d2 \<Rightarrow> Inr (versions, skipped, d2)))"

end
