(* ===== verification/Schedule_Document.thy ===== *)
theory Schedule_Document
  imports Cron Resource_Store
begin

text \<open>
  Scheduled jobs as the control plane stores them and as they are delivered: \<open>domain/scheduling\<close> (\<open>jobspec.go\<close>,
  \<open>contract.go\<close>, \<open>guard.go\<close>), the schedules document (\<open>app/controlplane/schedules.go\<close>), the job source over it
  (\<open>app/archied/scheduling.go\<close>) and the delivery router (\<open>infrastructure/crondelivery\<close>).

  \<^item> The clock is an argument. Sending a chat message and submitting a task are arguments that say whether they
    succeed; what they were given is kept in the world.
  \<^item> \<open>MarkRun\<close> reads and replaces the document in two calls. What other writers do in between, in each attempt, is
    the list \<open>others\<close>.
\<close>

section \<open>Jobs\<close>

definition KindChat :: string where "KindChat = ''chat''"
definition KindScheduledWorkflow :: string where "KindScheduledWorkflow = ''workflow''"

record Target =
  tg_channel :: string
  tg_chat :: string

record JobSpec =
  jb_id :: string
  jb_pool :: string
  jb_detail :: string
  jb_kind :: string
  jb_schedule :: Schedule
  jb_target :: Target
  jb_text :: string
  jb_next :: go_time
  jb_last :: "go_time option"
  jb_created :: go_time
  jb_updated :: go_time

definition PoolParallel :: string where "PoolParallel = ''parallel''"
definition PoolSequential :: string where "PoolSequential = ''sequential''"

definition ValidatePool :: "string \<Rightarrow> bool" where
  "ValidatePool p \<longleftrightarrow> p = '''' \<or> p = PoolParallel \<or> p = PoolSequential"

definition resolve_pool :: "string \<Rightarrow> string" where
  "resolve_pool p = (if p = '''' then PoolSequential else p)"

record Job =
  job_id :: string
  job_pool :: string
  job_detail :: string

definition ValidateJob :: "Job \<Rightarrow> bool" where
  "ValidateJob j \<longleftrightarrow> trim_space (job_id j) \<noteq> '''' \<and> ValidatePool (job_pool j)"

section \<open>Dangerous payloads\<close>

text \<open>The expression \<open>(?i)\b(?:...)\b\<close>: whole words in any case. Go folds \<open>s\<close> and \<open>k\<close> with one character each outside
  ASCII, the long s and the Kelvin sign; a word boundary looks at ASCII word characters only.\<close>

definition danger_words :: "string list" where
  "danger_words = [''archied restart'', ''systemctl'', ''launchctl'', ''pkill'', ''mkfs'', ''dd'', ''shutdown'', ''reboot'']"

definition upper_char :: "char \<Rightarrow> char" where
  "upper_char c = (if is_lower c then char_of (byte_of c - 32) else c)"

definition folds :: "char \<Rightarrow> string list" where
  "folds c = [[c], [upper_char c]] @ (if c = CHR ''s'' then [[CHR 0xC5, CHR 0xBF]] else []) @
     (if c = CHR ''k'' then [[CHR 0xE2, CHR 0x84, CHR 0xAA]] else [])"

fun fold_match :: "string \<Rightarrow> string \<Rightarrow> string option" where
  "fold_match [] t = Some t"
| "fold_match (c # cs) t = (case find (has_prefix t) (folds c) of None \<Rightarrow> None | Some w \<Rightarrow> fold_match cs (drop (length w) t))"

definition word_char :: "char \<Rightarrow> bool" where
  "word_char c \<longleftrightarrow> is_lower c \<or> is_upper c \<or> is_digit c \<or> c = CHR ''_''"

definition word_ends :: "string \<Rightarrow> string \<Rightarrow> bool" where
  "word_ends before rest \<longleftrightarrow> (before \<noteq> [] \<and> word_char (last before)) \<noteq> (rest \<noteq> [] \<and> word_char (hd rest))"

fun danger_scan :: "string \<Rightarrow> string \<Rightarrow> bool" where
  "danger_scan before [] = False"
| "danger_scan before (c # t) \<longleftrightarrow>
    list_ex (\<lambda>w. case fold_match w (c # t) of
        None \<Rightarrow> False
      | Some rest \<Rightarrow> word_ends before (c # t) \<and> word_ends (take (length (c # t) - length rest) (c # t)) rest) danger_words
    \<or> danger_scan (before @ [c]) t"

definition dangerousPayload :: "string \<Rightarrow> bool" where
  "dangerousPayload text = danger_scan [] text"

section \<open>The document\<close>

datatype document_error = ErrDangerousCommand | MissingID | DuplicateID | ChatIncomplete | UnsupportedKind | BadSchedule schedule_error | BadPool

definition RefuseDangerousJob :: "JobSpec \<Rightarrow> document_error option" where
  "RefuseDangerousJob j = (if dangerousPayload (jb_text j) then Some ErrDangerousCommand else None)"

definition validate_job :: "string list \<Rightarrow> JobSpec \<Rightarrow> document_error option" where
  "validate_job seen j = (case RefuseDangerousJob j of
     Some e \<Rightarrow> Some e
   | None \<Rightarrow>
       if trim_space (jb_id j) = '''' then Some MissingID
       else if jb_id j \<in> set seen then Some DuplicateID
       else if jb_kind j \<noteq> KindScheduledWorkflow \<and> jb_kind j \<noteq> KindChat then Some UnsupportedKind
       else if jb_kind j = KindChat \<and> (tg_channel (jb_target j) = '''' \<or> tg_chat (jb_target j) = '''' \<or> trim_space (jb_text j) = '''') then Some ChatIncomplete
       else (case ValidateSchedule (jb_schedule j) of
           Some e \<Rightarrow> Some (BadSchedule e)
         | None \<Rightarrow> if \<not> ValidatePool (jb_pool j) then Some BadPool else None))"

fun validate_from :: "string list \<Rightarrow> JobSpec list \<Rightarrow> document_error option" where
  "validate_from seen [] = None"
| "validate_from seen (j # js) = (case validate_job seen j of Some e \<Rightarrow> Some e | None \<Rightarrow> validate_from (jb_id j # seen) js)"

definition validateSchedules :: "JobSpec list \<Rightarrow> document_error option" where
  "validateSchedules jobs = validate_from [] jobs"

definition normalize_job :: "go_time \<Rightarrow> JobSpec \<Rightarrow> document_error + JobSpec" where
  "normalize_job now j =
    (let s = resolve (jb_schedule j);
         stamp = (\<lambda>j. j\<lparr>jb_created := if tm_zero (jb_created j) then now else jb_created j, jb_updated := now\<rparr>)
     in if tm_zero (jb_next j) then
          (case firstRun s now of
             Inl e \<Rightarrow> Inl (BadSchedule e)
           | Inr t \<Rightarrow> Inr (stamp (j\<lparr>jb_schedule := s, jb_next := tm_utc t\<rparr>)))
        else Inr (stamp (j\<lparr>jb_schedule := s\<rparr>)))"

fun normalize_jobs :: "go_time \<Rightarrow> JobSpec list \<Rightarrow> document_error + JobSpec list" where
  "normalize_jobs now [] = Inr []"
| "normalize_jobs now (j # js) = (case normalize_job now j of
     Inl e \<Rightarrow> Inl e
   | Inr j' \<Rightarrow> (case normalize_jobs now js of Inl e \<Rightarrow> Inl e | Inr js' \<Rightarrow> Inr (j' # js')))"

definition normalizeSchedules :: "go_time \<Rightarrow> JobSpec list \<Rightarrow> document_error + JobSpec list" where
  "normalizeSchedules now jobs = normalize_jobs (tm_utc now) jobs"

definition SchedulesKind :: string where "SchedulesKind = ''schedules''"

definition scheduleDefinition :: "go_time \<Rightarrow> (JobSpec list, document_error) Definition" where
  "scheduleDefinition now = \<lparr>df_kind = SchedulesKind, df_validate = validateSchedules, df_normalize = Some (normalizeSchedules now),
     df_seed = [], df_shipped = False\<rparr>"

section \<open>The job source\<close>

text \<open>The calls of the client: a query and a replace of the schedules of the org of the request.\<close>

type_synonym schedule_db = "JobSpec list resource_db"

definition Schedules :: "string \<Rightarrow> schedule_db \<Rightarrow> client_error + (JobSpec list \<times> int)" where
  "Schedules orgID d = (case read_resource orgID SchedulesKind d of
     Inl e \<Rightarrow> Inl (mapError e)
   | Inr r \<Rightarrow> Inr (rv_value r, rv_version r))"

definition ReplaceSchedules :: "JobSpec list audit_diff \<Rightarrow> go_time \<Rightarrow> string \<Rightarrow> JobSpec list \<Rightarrow> int \<Rightarrow> string \<Rightarrow> string \<Rightarrow> string \<Rightarrow>
    schedule_db \<Rightarrow> client_error + (JobSpec list StoredResource \<times> schedule_db)" where
  "ReplaceSchedules diff now orgID jobs expected actor src request d =
    Command [scheduleDefinition now] diff (\<lambda>_ _ _. None) now ''replace''
      \<lparr>rw_org = orgID, rw_kind = SchedulesKind, rw_value = jobs, rw_actor = actor, rw_source = src, rw_request = request,
       rw_expected = expected, rw_at = tm_utc now\<rparr> d"

definition get_job :: "string \<Rightarrow> string \<Rightarrow> schedule_db \<Rightarrow> client_error + JobSpec option" where
  "get_job orgID i d = (case Schedules orgID d of Inl e \<Rightarrow> Inl e | Inr (jobs, _) \<Rightarrow> Inr (find (\<lambda>j. jb_id j = i) jobs))"

definition Due :: "string \<Rightarrow> go_time \<Rightarrow> schedule_db \<Rightarrow> client_error + Job list" where
  "Due orgID now d = (case Schedules orgID d of
     Inl e \<Rightarrow> Inl e
   | Inr (jobs, _) \<Rightarrow> Inr (map (\<lambda>j. \<lparr>job_id = jb_id j, job_pool = jb_pool j, job_detail = jb_detail j\<rparr>)
       (filter (\<lambda>j. \<not> tm_ns (jb_next j) > tm_ns now) jobs)))"

datatype mark_error = MarkClient client_error | MarkSchedule schedule_error | ErrJobNotFound

text \<open>The job with the id is advanced, a one-shot is removed.\<close>

fun advance :: "string \<Rightarrow> go_time \<Rightarrow> JobSpec list \<Rightarrow> mark_error + JobSpec list" where
  "advance i runAt [] = Inl ErrJobNotFound"
| "advance i runAt (j # js) =
    (if jb_id j \<noteq> i then (case advance i runAt js of Inl e \<Rightarrow> Inl e | Inr js' \<Rightarrow> Inr (j # js'))
     else if sc_kind (resolve (jb_schedule j)) = ScheduleOnce then Inr js
     else (case nextRun (jb_schedule j) runAt of
         Inl e \<Rightarrow> Inl (MarkSchedule e)
       | Inr t \<Rightarrow> Inr (j\<lparr>jb_last := Some (tm_utc runAt), jb_next := tm_utc t\<rparr> # js)))"

text \<open>\<open>UnixNano\<close>, for the years in which it fits 64 bits.\<close>

definition run_request :: "string \<Rightarrow> go_time \<Rightarrow> string" where
  "run_request i runAt = ''schedule-run:'' @ i @ '':'' @ int_dec (tm_ns runAt - 62135596800 * second)"

fun mark_attempts :: "JobSpec list audit_diff \<Rightarrow> go_time \<Rightarrow> string \<Rightarrow> nat \<Rightarrow> (schedule_db \<Rightarrow> schedule_db) list \<Rightarrow> string \<Rightarrow> go_time \<Rightarrow>
    schedule_db \<Rightarrow> mark_error option \<times> schedule_db" where
  "mark_attempts diff now orgID 0 others i runAt d = (Some (MarkClient ErrVersionConflict), d)"
| "mark_attempts diff now orgID (Suc n) others i runAt d =
    (case Schedules orgID d of
       Inl e \<Rightarrow> (Some (MarkClient e), d)
     | Inr (jobs, version) \<Rightarrow> (case advance i runAt jobs of
         Inl e \<Rightarrow> (Some e, d)
       | Inr jobs' \<Rightarrow>
           (let d1 = (case others of [] \<Rightarrow> d | f # _ \<Rightarrow> f d) in
            case ReplaceSchedules diff now orgID jobs' version ''system:scheduler'' ''scheduler'' (run_request i runAt) d1 of
              Inr (_, d2) \<Rightarrow> (None, d2)
            | Inl e \<Rightarrow>
                if e = ErrVersionConflict then mark_attempts diff now orgID n (case others of [] \<Rightarrow> [] | _ # fs \<Rightarrow> fs) i runAt d1
                else (Some (MarkClient e), d1))))"

definition MarkRun :: "JobSpec list audit_diff \<Rightarrow> go_time \<Rightarrow> string \<Rightarrow> (schedule_db \<Rightarrow> schedule_db) list \<Rightarrow> string \<Rightarrow> go_time \<Rightarrow>
    schedule_db \<Rightarrow> mark_error option \<times> schedule_db" where
  "MarkRun diff now orgID others i runAt d = mark_attempts diff now orgID 4 others i runAt d"

section \<open>Delivery\<close>

record delivery_world =
  dv_db :: schedule_db
  dv_messages :: "(Target \<times> string) list"
  dv_tasks :: "(string \<times> string) list"
  dv_refused :: "(string \<times> string) list"

record delivery_config =
  dc_diff :: "JobSpec list audit_diff"
  dc_org :: string
  dc_workflows :: bool
  dc_courier :: "Target \<Rightarrow> string \<Rightarrow> bool"
  dc_submit :: "string \<Rightarrow> string \<Rightarrow> bool"

datatype run_error = RunCancelled | RunLookup client_error | SpecMissing | DeliveryFailed | RecordFailed mark_error

definition hydrate :: "string \<Rightarrow> Job \<Rightarrow> schedule_db \<Rightarrow> run_error + JobSpec" where
  "hydrate orgID job d = (case get_job orgID (job_id job) d of
     Inl e \<Rightarrow> Inl (RunLookup e)
   | Inr None \<Rightarrow> Inl SpecMissing
   | Inr (Some spec) \<Rightarrow> Inr spec)"

definition chat_Run :: "delivery_config \<Rightarrow> bool \<Rightarrow> Job \<Rightarrow> delivery_world \<Rightarrow> run_error option \<times> delivery_world" where
  "chat_Run cf cancelled job w =
    (if cancelled then (Some RunCancelled, w)
     else (case hydrate (dc_org cf) job (dv_db w) of
         Inl e \<Rightarrow> (Some e, w)
       | Inr spec \<Rightarrow>
           if dc_courier cf (jb_target spec) (jb_text spec) then (None, w\<lparr>dv_messages := dv_messages w @ [(jb_target spec, jb_text spec)]\<rparr>)
           else (Some DeliveryFailed, w)))"

definition workflow_Run :: "delivery_config \<Rightarrow> bool \<Rightarrow> Job \<Rightarrow> delivery_world \<Rightarrow> run_error option \<times> delivery_world" where
  "workflow_Run cf cancelled job w =
    (if cancelled then (Some RunCancelled, w)
     else (case hydrate (dc_org cf) job (dv_db w) of
         Inl e \<Rightarrow> (Some e, w)
       | Inr spec \<Rightarrow>
           (let title = (if trim_space (jb_detail spec) = '''' then job_id job else trim_space (jb_detail spec)) in
            if dc_submit cf title (jb_text spec) then (None, w\<lparr>dv_tasks := dv_tasks w @ [(title, jb_text spec)]\<rparr>)
            else (Some DeliveryFailed, w))))"

text \<open>A one-shot is never reported as unsupported by \<open>MarkRun\<close>, but the router ignores that error.\<close>

definition recordRun :: "delivery_config \<Rightarrow> go_time \<Rightarrow> (schedule_db \<Rightarrow> schedule_db) list \<Rightarrow> Job \<Rightarrow> delivery_world \<Rightarrow> run_error option \<times> delivery_world" where
  "recordRun cf now others job w =
    (case MarkRun (dc_diff cf) now (dc_org cf) others (job_id job) now (dv_db w) of
       (r, d) \<Rightarrow> (case r of
           None \<Rightarrow> None
         | Some e \<Rightarrow> if e = MarkSchedule ErrScheduleUnsupported then None else Some (RecordFailed e), w\<lparr>dv_db := d\<rparr>))"

definition router_Run :: "delivery_config \<Rightarrow> bool \<Rightarrow> go_time \<Rightarrow> (schedule_db \<Rightarrow> schedule_db) list \<Rightarrow> Job \<Rightarrow> delivery_world \<Rightarrow>
    run_error option \<times> delivery_world" where
  "router_Run cf cancelled now others job w =
    (if cancelled then (Some RunCancelled, w)
     else (case hydrate (dc_org cf) job (dv_db w) of
         Inl e \<Rightarrow> (Some e, w)
       | Inr spec \<Rightarrow>
           (let kind = (if jb_kind spec = '''' then KindChat else jb_kind spec) in
            if kind = KindChat \<or> (kind = KindScheduledWorkflow \<and> dc_workflows cf) then
              (case (if kind = KindChat then chat_Run cf cancelled job w else workflow_Run cf cancelled job w) of
                 (Some e, w1) \<Rightarrow> (Some e, w1)
               | (None, w1) \<Rightarrow> recordRun cf now others job w1)
            else (None, w\<lparr>dv_refused := dv_refused w @ [(job_id job, kind)]\<rparr>))))"

end
