(* ===== verification/Cron_Spec.thy ===== *)
theory Cron_Spec
  imports Cron
begin

text \<open>
  What cron schedules guarantee: a parsed field has exactly the values its text names, and the scan finds the first
  matching minute within five years. The scan skips whole hours of the instant, so in a zone that is not a whole
  number of hours from UTC it misses matches; and five years are not enough for every expression that matches.
\<close>

section \<open>Slots\<close>

lemma slot_has_bit: "0 \<le> v \<Longrightarrow> v < 64 \<Longrightarrow> slot_has s v \<longleftrightarrow> bit s (nat v)"
  by (simp add: slot_has_def push_bit_eq_mult and_exp_eq_0_iff_not_bit)

lemma slot_has_range: "slot_has s v \<Longrightarrow> 0 \<le> v \<and> v < 64"
  by (simp add: slot_has_def)

lemma slot_has_zero [simp]: "\<not> slot_has 0 v"
  by (simp add: slot_has_def)

lemma slot_has_set:
  assumes "0 \<le> w" "w < 64" shows "slot_has (s OR push_bit (nat w) 1) v \<longleftrightarrow> slot_has s v \<or> v = w"
proof (cases "0 \<le> v \<and> v < 64")
  case True
  have "bit (push_bit (nat w) 1 :: cronSlots) (nat v) \<longleftrightarrow> v = w" using True assms by (auto simp: push_bit_eq_mult bit_exp_iff)
  then show ?thesis using True by (simp add: slot_has_bit bit_or_iff)
qed (use assms slot_has_range in blast)

lemma cron_fill_has:
  "0 \<le> v \<Longrightarrow> final < 64 \<Longrightarrow> 0 < step \<Longrightarrow>
   slot_has (cron_fill v final step slots) w \<longleftrightarrow> slot_has slots w \<or> (v \<le> w \<and> w \<le> final \<and> (w - v) mod step = 0)"
proof (induction v final step slots rule: cron_fill.induct)
  case (1 v final step slots)
  show ?case
  proof (cases "v \<le> final")
    case True
    have "slot_has (cron_fill v final step slots) w \<longleftrightarrow>
        slot_has (slots OR push_bit (nat v) 1) w \<or> (v + step \<le> w \<and> w \<le> final \<and> (w - (v + step)) mod step = 0)"
      using 1 True by (subst cron_fill.simps) simp
    moreover have "slot_has (slots OR push_bit (nat v) 1) w \<longleftrightarrow> slot_has slots w \<or> w = v" using slot_has_set 1 True by simp
    moreover have "(w - (v + step)) mod step = (w - v) mod step" by (simp add: diff_diff_add [symmetric])
    moreover have "v \<le> w \<and> (w - v) mod step = 0 \<longleftrightarrow> w = v \<or> (v + step \<le> w \<and> (w - v) mod step = 0)"
    proof -
      have "step \<le> w - v" if "v < w" "(w - v) mod step = 0" using that 1(4) zdvd_imp_le [of step "w - v"] by (simp add: dvd_eq_mod_eq_0)
      then show ?thesis using 1(4) by (cases "w = v") auto
    qed
    ultimately show ?thesis using True by auto
  next
    case False
    then show ?thesis by (subst cron_fill.simps) auto
  qed
qed

section \<open>Fields\<close>

text \<open>What one part of a field names: a star, a number or a range, with a step.\<close>

definition part_means :: "int \<Rightarrow> int \<Rightarrow> string \<Rightarrow> int \<Rightarrow> bool" where
  "part_means lo hi part v = (case cut_byte part CHR ''/'' of (base, stepText, stepped) \<Rightarrow>
     \<exists>first final step. cron_step stepText stepped hi = Some step \<and> cronRange base stepped lo hi = Some (first, final) \<and>
       first \<le> v \<and> v \<le> final \<and> (v - first) mod step = 0)"

lemma cron_step_pos: "cron_step stepText stepped hi = Some step \<Longrightarrow> 0 < step"
  by (auto simp: cron_step_def split: if_splits option.splits)

lemma cronRange_bounds: "cronRange base stepped lo hi = Some (first, final) \<Longrightarrow> lo \<le> hi \<Longrightarrow> lo \<le> first \<and> first \<le> final \<and> final \<le> hi"
  by (auto simp: cronRange_def cronValue_def split: if_splits option.splits prod.splits)

lemma cron_parts_has:
  "cron_parts parts lo hi slots = Some s \<Longrightarrow> 0 \<le> lo \<Longrightarrow> lo \<le> hi \<Longrightarrow> hi < 64 \<Longrightarrow>
   slot_has s v \<longleftrightarrow> slot_has slots v \<or> (\<exists>part \<in> set parts. part_means lo hi part v)"
proof (induction parts lo hi slots rule: cron_parts.induct)
  case (2 part parts lo hi slots)
  obtain base stepText stepped where c: "cut_byte part CHR ''/'' = (base, stepText, stepped)" by (metis prod_cases3)
  with 2(2) obtain step first final where s: "cron_step stepText stepped hi = Some step" "cronRange base stepped lo hi = Some (first, final)"
    "cron_parts parts lo hi (cron_fill first final step slots) = Some s" by (auto split: option.splits)
  note b = cron_step_pos [OF s(1)] cronRange_bounds [OF s(2) 2(4)]
  have "slot_has s v \<longleftrightarrow> slot_has (cron_fill first final step slots) v \<or> (\<exists>part \<in> set parts. part_means lo hi part v)"
    using 2(1) [OF c [symmetric] refl s(1) s(2) refl s(3)] 2(3-5) by simp
  also have "slot_has (cron_fill first final step slots) v \<longleftrightarrow> slot_has slots v \<or> (first \<le> v \<and> v \<le> final \<and> (v - first) mod step = 0)"
    using b 2(3,5) by (intro cron_fill_has) auto
  finally show ?case using c s by (auto simp: part_means_def)
qed simp

text \<open>The field of a cron expression, as the list of its parts.\<close>

definition field_means :: "int \<Rightarrow> int \<Rightarrow> string \<Rightarrow> int \<Rightarrow> bool" where
  "field_means lo hi field v \<longleftrightarrow> (\<exists>part \<in> set (split_byte CHR '','' field). part_means lo hi part v)"

lemma parseCronSegment_has:
  "parseCronSegment field lo hi = Some s \<Longrightarrow> 0 \<le> lo \<Longrightarrow> lo \<le> hi \<Longrightarrow> hi < 64 \<Longrightarrow> slot_has s v \<longleftrightarrow> field_means lo hi field v"
  unfolding parseCronSegment_def field_means_def using cron_parts_has by force

lemma parseCronSegment_nonempty:
  assumes "parseCronSegment field lo hi = Some s" "0 \<le> lo" "lo \<le> hi" "hi < 64" shows "\<exists>v. lo \<le> v \<and> v \<le> hi \<and> slot_has s v"
proof -
  obtain part parts where p: "split_byte CHR '','' field = part # parts" using split_byte_nonempty by (meson list.exhaust)
  obtain base stepText stepped where c: "cut_byte part CHR ''/'' = (base, stepText, stepped)" by (metis prod_cases3)
  with assms(1) p obtain step first final where s: "cron_step stepText stepped hi = Some step" "cronRange base stepped lo hi = Some (first, final)"
    by (auto simp: parseCronSegment_def split: option.splits)
  have "part_means lo hi part first" using c s cronRange_bounds [OF s(2) assms(3)] by (auto simp: part_means_def)
  then have "slot_has s first" using parseCronSegment_has [OF assms] p by (auto simp: field_means_def)
  with cronRange_bounds [OF s(2) assms(3)] show ?thesis by force
qed

text \<open>The fields a cron expression or a macro stands for.\<close>

definition cron_fields :: "string \<Rightarrow> string list" where
  "cron_fields expr = split_byte CHR '' '' (case map_of cronMacros expr of None \<Rightarrow> expr | Some macro \<Rightarrow> macro)"

lemma parseCron_fields:
  assumes "parseCron expr = Some c"
  obtains f0 f1 f2 f3 f4 where "cron_fields expr = [f0, f1, f2, f3, f4]" "parseCronSegment f0 0 59 = Some (cs_minutes c)"
    "parseCronSegment f1 0 23 = Some (cs_hours c)" "parseCronSegment f2 1 31 = Some (cs_days c)"
    "parseCronSegment f3 1 12 = Some (cs_months c)" "parseCronSegment f4 0 6 = Some (cs_weekdays c)"
  using assms by (auto simp: parseCron_def cron_fields_def split: list.splits option.splits)

lemma due_fields:
  assumes "parseCron expr = Some c"
  shows "due c t \<longleftrightarrow> field_means 0 59 (cron_fields expr ! 0) (tm_minute t) \<and> field_means 0 23 (cron_fields expr ! 1) (tm_hour t)
    \<and> field_means 1 31 (cron_fields expr ! 2) (tm_day t) \<and> field_means 1 12 (cron_fields expr ! 3) (tm_month t)
    \<and> field_means 0 6 (cron_fields expr ! 4) (tm_weekday t)"
  by (rule parseCron_fields [OF assms]) (simp add: due_def parseCronSegment_has)

section \<open>The grammar of cron expressions\<close>

text \<open>One part of a field, with the first value, the last value and the step it stands for: a star, a number, a
  range of two numbers, and a star or a range with a step. Numbers are those \<open>strconv.Atoi\<close> reads, within the
  bounds of the field.\<close>

inductive cron_part :: "int \<Rightarrow> int \<Rightarrow> string \<Rightarrow> int \<Rightarrow> int \<Rightarrow> int \<Rightarrow> bool" for lo hi where
  star: "cron_part lo hi ''*'' lo hi 1"
| star_step: "atoi n = Some k \<Longrightarrow> 1 \<le> k \<Longrightarrow> k \<le> hi \<Longrightarrow> cron_part lo hi (''*/'' @ n) lo hi k"
| single: "atoi n = Some a \<Longrightarrow> lo \<le> a \<Longrightarrow> a \<le> hi \<Longrightarrow> CHR ''-'' \<notin> set n \<Longrightarrow> CHR ''/'' \<notin> set n \<Longrightarrow> cron_part lo hi n a a 1"
| range: "atoi x = Some a \<Longrightarrow> atoi y = Some b \<Longrightarrow> lo \<le> a \<Longrightarrow> a \<le> b \<Longrightarrow> a \<le> hi \<Longrightarrow> b \<le> hi \<Longrightarrow> CHR ''-'' \<notin> set x
    \<Longrightarrow> CHR ''/'' \<notin> set x \<Longrightarrow> CHR ''/'' \<notin> set y \<Longrightarrow> cron_part lo hi (x @ ''-'' @ y) a b 1"
| range_step: "atoi x = Some a \<Longrightarrow> atoi y = Some b \<Longrightarrow> lo \<le> a \<Longrightarrow> a \<le> b \<Longrightarrow> a \<le> hi \<Longrightarrow> b \<le> hi \<Longrightarrow> CHR ''-'' \<notin> set x
    \<Longrightarrow> CHR ''/'' \<notin> set x \<Longrightarrow> CHR ''/'' \<notin> set y \<Longrightarrow> atoi n = Some k \<Longrightarrow> 1 \<le> k \<Longrightarrow> k \<le> hi
    \<Longrightarrow> cron_part lo hi (x @ ''-'' @ y @ ''/'' @ n) a b k"

text \<open>A field is a list of parts between commas; it names the values that one of its parts reaches.\<close>

definition field_ok :: "int \<Rightarrow> int \<Rightarrow> string \<Rightarrow> bool" where
  "field_ok lo hi field \<longleftrightarrow> (\<forall>part \<in> set (split_byte CHR '','' field). \<exists>first final step. cron_part lo hi part first final step)"

definition field_names :: "int \<Rightarrow> int \<Rightarrow> string \<Rightarrow> int \<Rightarrow> bool" where
  "field_names lo hi field v \<longleftrightarrow> (\<exists>part \<in> set (split_byte CHR '','' field). \<exists>first final step.
     cron_part lo hi part first final step \<and> first \<le> v \<and> v \<le> final \<and> step dvd (v - first))"

definition expand_macro :: "string \<Rightarrow> string" where
  "expand_macro expr =
    (if expr = ''@yearly'' \<or> expr = ''@annually'' then ''0 0 1 1 *''
     else if expr = ''@monthly'' then ''0 0 1 * *''
     else if expr = ''@weekly'' then ''0 0 * * 0''
     else if expr = ''@daily'' \<or> expr = ''@midnight'' then ''0 0 * * *''
     else if expr = ''@hourly'' then ''0 * * * *''
     else expr)"

text \<open>An expression is five fields between single blanks, or a macro; a time is due when each of its five
  parts is named.\<close>

definition fields_of :: "string \<Rightarrow> string list" where
  "fields_of expr = split_byte CHR '' '' (expand_macro expr)"

definition cron_wf :: "string \<Rightarrow> bool" where
  "cron_wf expr \<longleftrightarrow> length (fields_of expr) = 5 \<and> field_ok 0 59 (fields_of expr ! 0) \<and> field_ok 0 23 (fields_of expr ! 1)
     \<and> field_ok 1 31 (fields_of expr ! 2) \<and> field_ok 1 12 (fields_of expr ! 3) \<and> field_ok 0 6 (fields_of expr ! 4)"

definition cron_means :: "string \<Rightarrow> go_time \<Rightarrow> bool" where
  "cron_means expr t \<longleftrightarrow> field_names 0 59 (fields_of expr ! 0) (tm_minute t) \<and> field_names 0 23 (fields_of expr ! 1) (tm_hour t)
     \<and> field_names 1 31 (fields_of expr ! 2) (tm_day t) \<and> field_names 1 12 (fields_of expr ! 3) (tm_month t)
     \<and> field_names 0 6 (fields_of expr ! 4) (tm_weekday t)"

lemma cut_byte_found: "c \<notin> set x \<Longrightarrow> cut_byte (x @ c # y) c = (x, y, True)"
proof -
  assume "c \<notin> set x"
  then have "index_byte (x @ c # y) c = Some (length x)" by (simp add: index_byte_Some)
  then show ?thesis by (simp add: cut_byte_def)
qed

lemma cut_byte_absent: "c \<notin> set x \<Longrightarrow> cut_byte x c = (x, [], False)"
  by (simp add: cut_byte_def index_byte_None [THEN iffD2])

lemma cut_byte_cases:
  fixes s :: string
  obtains (absent) "c \<notin> set s" "cut_byte s c = (s, [], False)"
  | (found) x y where "s = x @ c # y" "c \<notin> set x" "cut_byte s c = (x, y, True)"
proof (cases "c \<in> set s")
  case True
  then obtain x y where "s = x @ c # y" "c \<notin> set x" using split_list_first by metis
  then show thesis using found cut_byte_found by blast
qed (use absent cut_byte_absent in blast)

lemma atoi_chars: "atoi n = Some k \<Longrightarrow> x \<in> set n \<Longrightarrow> is_digit x \<or> x = CHR ''-'' \<or> x = CHR ''+''"
  by (cases n) (auto simp: atoi_def Let_def list_all_iff split: if_splits)

lemma atoi_no_star: "atoi n = Some k \<Longrightarrow> n \<noteq> ''*'' \<and> CHR ''/'' \<notin> set n"
  using atoi_chars [of n k] by (force simp: char_class_defs)

text \<open>The parser reads exactly the grammar.\<close>

lemma cron_part_parsed:
  assumes "cron_part lo hi part first final step"
  shows "case cut_byte part CHR ''/'' of (base, stepText, stepped) \<Rightarrow>
    cron_step stepText stepped hi = Some step \<and> cronRange base stepped lo hi = Some (first, final)"
  using assms
proof cases
  case star
  then show ?thesis by (simp add: cut_byte_def cron_step_def cronRange_def)
next
  case (star_step n)
  have "cut_byte (''*/'' @ n) CHR ''/'' = (''*'', n, True)" using cut_byte_found [of "CHR ''/''" "''*''" n] by simp
  with star_step show ?thesis by (simp add: cron_step_def cronRange_def)
next
  case single
  then have "part \<noteq> ''*''" "cut_byte part CHR ''/'' = (part, [], False)" "cut_byte part CHR ''-'' = (part, [], False)"
    using atoi_no_star [of part first] by (simp_all only: cut_byte_absent simp_thms)
  with single show ?thesis by (simp add: cron_step_def cronRange_def cronValue_def)
next
  case (range x y)
  have "x @ ''-'' @ y \<noteq> ''*''" by (cases x) simp_all
  with range show ?thesis
    using cut_byte_absent [of "CHR ''/''" "x @ ''-'' @ y"] cut_byte_found [of "CHR ''-''" x y]
    by (simp add: cron_step_def cronRange_def cronValue_def)
next
  case (range_step x y n)
  have "x @ ''-'' @ y \<noteq> ''*''" by (cases x) simp_all
  with range_step show ?thesis
    using cut_byte_found [of "CHR ''/''" "x @ ''-'' @ y" n] cut_byte_found [of "CHR ''-''" x y]
    by (simp add: cron_step_def cronRange_def cronValue_def)
qed

lemma cronRange_forms:
  assumes "cronRange base stepped lo hi = Some (first, final)"
  obtains (star) "base = ''*''" "first = lo" "final = hi"
  | (single) "\<not> stepped" "CHR ''-'' \<notin> set base" "atoi base = Some first" "final = first" "lo \<le> first" "first \<le> hi"
  | (range) x y where "base = x @ ''-'' @ y" "CHR ''-'' \<notin> set x" "atoi x = Some first" "atoi y = Some final" "lo \<le> first"
      "first \<le> final" "first \<le> hi" "final \<le> hi"
proof (cases "base = ''*''")
  case True
  then show thesis using assms star by (simp add: cronRange_def)
next
  case False
  show thesis
  proof (rule cut_byte_cases [of "CHR ''-''" base])
    assume "CHR ''-'' \<notin> set base" "cut_byte base CHR ''-'' = (base, [], False)"
    then show thesis using assms False single by (auto simp: cronRange_def cronValue_def split: if_splits option.splits)
  next
    fix x y assume "base = x @ CHR ''-'' # y" "CHR ''-'' \<notin> set x" "cut_byte base CHR ''-'' = (x, y, True)"
    then show thesis using assms False range [of x y] by (auto simp: cronRange_def cronValue_def split: if_splits option.splits)
  qed
qed

lemma parsed_cron_part:
  assumes "cut_byte part CHR ''/'' = (base, stepText, stepped)" "cron_step stepText stepped hi = Some step"
    "cronRange base stepped lo hi = Some (first, final)"
  shows "cron_part lo hi part first final step"
proof (rule cut_byte_cases [of "CHR ''/''" part])
  assume absent: "CHR ''/'' \<notin> set part" "cut_byte part CHR ''/'' = (part, [], False)"
  then have p: "base = part" "\<not> stepped" "step = 1" using assms(1,2) by (auto simp: cron_step_def)
  from assms(3) show ?thesis
  proof (cases rule: cronRange_forms)
    case star
    then show ?thesis using p cron_part.star by simp
  next
    case single
    then show ?thesis using p absent(1) cron_part.single by simp
  next
    case (range x y)
    then show ?thesis using p absent(1) cron_part.range [of x first y final] by auto
  qed
next
  fix b n assume "part = b @ CHR ''/'' # n" "CHR ''/'' \<notin> set b" "cut_byte part CHR ''/'' = (b, n, True)"
  then have p: "base = b" "stepText = n" "stepped" "part = base @ ''/'' @ n" "CHR ''/'' \<notin> set base" using assms(1) by auto
  then have k: "atoi n = Some step" "1 \<le> step" "step \<le> hi" using assms(2) by (auto simp: cron_step_def split: option.splits if_splits)
  from assms(3) show ?thesis
  proof (cases rule: cronRange_forms)
    case star
    then show ?thesis using p k cron_part.star_step [of n step hi lo] by simp
  next
    case single
    then show ?thesis using p by simp
  next
    case (range x y)
    then show ?thesis using p k cron_part.range_step [of x first y final lo hi n step] by auto
  qed
qed

lemma field_means_names: "field_means lo hi field v \<longleftrightarrow> field_names lo hi field v"
proof -
  have "part_means lo hi part v \<longleftrightarrow> (\<exists>first final step. cron_part lo hi part first final step \<and> first \<le> v \<and> v \<le> final \<and> step dvd (v - first))"
    for part
  proof -
    obtain base stepText stepped where c: "cut_byte part CHR ''/'' = (base, stepText, stepped)" by (metis prod_cases3)
    have "cron_part lo hi part first final step \<longleftrightarrow> cron_step stepText stepped hi = Some step \<and> cronRange base stepped lo hi = Some (first, final)"
      for first final step
      using cron_part_parsed [of lo hi part first final step] parsed_cron_part [OF c] c by auto
    then show ?thesis by (simp add: part_means_def c dvd_eq_mod_eq_0 conj_assoc)
  qed
  then show ?thesis by (simp add: field_means_def field_names_def)
qed

lemma cron_parts_ok:
  "cron_parts parts lo hi slots \<noteq> None \<longleftrightarrow> (\<forall>part \<in> set parts. \<exists>first final step. cron_part lo hi part first final step)"
proof (induction parts lo hi slots rule: cron_parts.induct)
  case (2 part parts lo hi slots)
  obtain base stepText stepped where c: "cut_byte part CHR ''/'' = (base, stepText, stepped)" by (metis prod_cases3)
  show ?case
  proof (cases "\<exists>first final step. cron_part lo hi part first final step")
    case True
    then obtain first final step where s: "cron_step stepText stepped hi = Some step" "cronRange base stepped lo hi = Some (first, final)"
      using cron_part_parsed c by fastforce
    show ?thesis using 2 [OF c [symmetric] refl s(1) s(2) refl] c s True by simp
  next
    case False
    then have "cron_step stepText stepped hi = None \<or> cronRange base stepped lo hi = None"
      using parsed_cron_part [OF c, of hi _ lo] by (metis not_None_eq prod.collapse)
    then show ?thesis using False c by (auto split: option.splits)
  qed
qed simp

lemma expand_macro_table: "(case map_of cronMacros expr of None \<Rightarrow> expr | Some macro \<Rightarrow> macro) = expand_macro expr"
  by (simp add: cronMacros_def expand_macro_def)

lemma cron_fields_spec: "cron_fields expr = fields_of expr"
  by (simp only: cron_fields_def fields_of_def expand_macro_table)

lemma parseCron_wf: "parseCron expr \<noteq> None \<longleftrightarrow> cron_wf expr"
proof -
  have seg: "parseCronSegment field lo hi \<noteq> None \<longleftrightarrow> field_ok lo hi field" for field lo hi
    by (simp only: parseCronSegment_def field_ok_def cron_parts_ok)
  show ?thesis
  proof (cases "length (fields_of expr) = 5")
    case True
    then obtain f0 f1 f2 f3 f4 where f: "fields_of expr = [f0, f1, f2, f3, f4]" by (auto simp: length_Suc_conv eval_nat_numeral)
    have "parseCron expr \<noteq> None \<longleftrightarrow> parseCronSegment f0 0 59 \<noteq> None \<and> parseCronSegment f1 0 23 \<noteq> None
        \<and> parseCronSegment f2 1 31 \<noteq> None \<and> parseCronSegment f3 1 12 \<noteq> None \<and> parseCronSegment f4 0 6 \<noteq> None"
      unfolding parseCron_def expand_macro_table f [unfolded fields_of_def] by (auto split: option.splits)
    then show ?thesis unfolding seg by (simp add: cron_wf_def f)
  next
    case False
    then have "parseCron expr = None"
      unfolding parseCron_def expand_macro_table fields_of_def by (auto split: list.splits)
    then show ?thesis using False by (simp add: cron_wf_def)
  qed
qed

text \<open>C18: a cron expression means what its fields say. The parser accepts exactly the expressions of the grammar:
  five fields between single blanks or one of the macros, each field a list of stars, numbers and ranges,
  stars and ranges with a step, all within the bounds of the field. And the bit masks lose nothing: a time is
  due exactly when its minute, hour, day, month and weekday are each named by a part of their field; a star
  names every value of the field, a range both its ends, a step every so manyth value from the start, and day
  of month and day of week must both match.\<close>

theorem cron_due_exact:
  "(parseCron expr \<noteq> None \<longleftrightarrow> cron_wf expr) \<and> (parseCron expr = Some c \<longrightarrow> (due c t \<longleftrightarrow> cron_means expr t))"
  using parseCron_wf due_fields [of expr c t] unfolding cron_fields_spec field_means_names cron_means_def by blast

lemma daily_parses: "parseCron ''0 9 * * *'' \<noteq> None" "parseCron ''0 0 1 1 1'' \<noteq> None"
  by (simp_all add: parseCron_def cronMacros_def parseCronSegment_def cut_byte_def cron_step_def cronRange_def cronValue_def
      atoi_def digits_value_def byte_of_def is_digit_def Let_def)

theorem cron_due_exact_witness:
  "\<exists>c. parseCron ''0 9 * * *'' = Some c \<and> cron_wf ''0 9 * * *'' \<and> (due c (Date 2024 1 1 0) \<longleftrightarrow> cron_means ''0 9 * * *'' (Date 2024 1 1 0))"
proof -
  obtain c where c: "parseCron ''0 9 * * *'' = Some c" using daily_parses(1) by blast
  then show ?thesis using cron_due_exact [of "''0 9 * * *''" c "Date 2024 1 1 0"] by blast
qed

section \<open>The scan\<close>

text \<open>Minutes of the instant, in a location.\<close>

definition minute_at :: "int \<Rightarrow> go_time \<Rightarrow> bool" where
  "minute_at off u \<longleftrightarrow> tm_off u = off \<and> tm_ns u mod minute = 0"

lemma minute_mult: "tm_ns u mod minute = 0 \<longleftrightarrow> minute dvd tm_ns u"
  by (simp add: dvd_eq_mod_eq_0)

lemma tm_month_until:
  assumes "tm_off u = tm_off t" "tm_ns t \<le> tm_ns u" "tm_ns u < tm_ns (next_month t)" shows "tm_month u = tm_month t"
proof -
  have le: "local_ns t \<le> local_ns u" using assms(1,2) by (simp add: local_ns_def)
  have "local_ns u < date_days (tm_year t) (tm_month t + 1) 1 * day"
    using assms(1,3) by (simp add: next_month_eq Date_def local_ns_def)
  then have "local_ns u div day < date_days (tm_year t) (tm_month t + 1) 1" by (simp add: div_less_iff_less_mult)
  with civil_same_month [of "local_ns t div day" "tm_year t" "tm_month t" "tm_day t" "local_ns u div day"] tm_date_eq [of t] zdiv_mono1 [OF le]
  show ?thesis by (simp add: tm_date_def tm_month_def)
qed

lemma tm_hour_div: "tm_hour t = local_ns t div hour mod 24"
proof -
  have "local_ns t mod (hour * 24) = hour * (local_ns t div hour mod 24) + local_ns t mod hour" by (rule zmod_zmult2_eq) simp
  then show ?thesis by (simp add: tm_hour_def)
qed

lemma next_hour_ns: "tm_ns (next_hour t) = (tm_ns t div hour + 1) * hour"
  by (simp add: next_hour_def tm_truncate_def tm_add_def minus_mod_eq_div_mult)

text \<open>With an offset of whole hours the hours of the instant are the hours of the location.\<close>

lemma tm_hour_until:
  assumes "3600 dvd tm_off t" "tm_off u = tm_off t" "tm_ns t \<le> tm_ns u" "tm_ns u < tm_ns (next_hour t)" shows "tm_hour u = tm_hour t"
proof -
  obtain k where k: "tm_off t = 3600 * k" using assms(1) by blast
  have h: "local_ns x div hour = tm_ns x div hour + k" if "tm_off x = tm_off t" for x
  proof -
    have "local_ns x = tm_ns x + k * hour" using that k by (simp add: local_ns_def)
    then show ?thesis by simp
  qed
  from assms(4) next_hour_ns [of t] have "tm_ns u div hour < tm_ns t div hour + 1" by (simp add: div_less_iff_less_mult)
  with zdiv_mono1 [OF assms(3), of hour] have "tm_ns u div hour = tm_ns t div hour" by simp
  then show ?thesis using h [of t] h [of u] assms(2) by (simp add: tm_hour_div)
qed


definition none_due :: "cronSpec \<Rightarrow> int \<Rightarrow> int \<Rightarrow> int \<Rightarrow> bool" where
  "none_due sched off a b \<longleftrightarrow> (\<forall>u. minute_at off u \<longrightarrow> a \<le> tm_ns u \<longrightarrow> tm_ns u < b \<longrightarrow> \<not> due sched u)"

definition first_due :: "cronSpec \<Rightarrow> int \<Rightarrow> int \<Rightarrow> int \<Rightarrow> schedule_error + go_time \<Rightarrow> bool" where
  "first_due sched off a limit r = (case r of
     Inl e \<Rightarrow> e = ErrInvalidSpec \<and> none_due sched off a limit
   | Inr t \<Rightarrow> minute_at off t \<and> a \<le> tm_ns t \<and> tm_ns t < limit \<and> due sched t \<and> none_due sched off a (tm_ns t))"

lemma first_due_later: "first_due sched off b limit r \<Longrightarrow> none_due sched off a b \<Longrightarrow> a \<le> b \<Longrightarrow> first_due sched off a limit r"
  by (auto simp: first_due_def none_due_def split: sum.splits)

lemma none_due_month:
  "\<not> slot_has (cs_months sched) (tm_month t) \<Longrightarrow> none_due sched (tm_off t) (tm_ns t) (tm_ns (next_month t))"
  unfolding none_due_def minute_at_def due_def by (metis tm_month_until)

lemma none_due_hour:
  "3600 dvd tm_off t \<Longrightarrow> \<not> slot_has (cs_hours sched) (tm_hour t) \<Longrightarrow> none_due sched (tm_off t) (tm_ns t) (tm_ns (next_hour t))"
  unfolding none_due_def minute_at_def due_def by (metis tm_hour_until)

lemma none_due_minute:
  assumes "minute_at (tm_off t) t" "\<not> due sched t" shows "none_due sched (tm_off t) (tm_ns t) (tm_ns (tm_add t minute))"
proof -
  have "u = t" if "minute_at (tm_off t) u" "tm_ns t \<le> tm_ns u" "tm_ns u < tm_ns t + minute" for u
  proof -
    have "minute dvd tm_ns u - tm_ns t" using that assms(1) by (auto simp: minute_at_def minute_mult)
    then have "tm_ns u = tm_ns t" using that zdvd_imp_le [of minute "tm_ns u - tm_ns t"] by linarith
    with that(1) show ?thesis by (simp add: minute_at_def)
  qed
  with assms(2) show ?thesis by (force simp: none_due_def tm_add_def)
qed

lemma minute_at_moves:
  assumes "3600 dvd tm_off t" "minute_at (tm_off t) t"
  shows "minute_at (tm_off t) (next_month t)" "minute_at (tm_off t) (next_hour t)" "minute_at (tm_off t) (tm_add t minute)"
proof -
  obtain k where k: "tm_off t = 3600 * k" using assms(1) by blast
  have "tm_ns (next_month t) = minute * (date_days (tm_year t) (tm_month t + 1) 1 * 1440 - 60 * k)" by (simp add: next_month_eq Date_def k)
  then show "minute_at (tm_off t) (next_month t)" using next_month_after(2) [of t] by (simp add: minute_at_def)
  have "tm_ns (next_hour t) = minute * (60 * (tm_ns t div hour + 1))" by (simp add: next_hour_ns)
  then show "minute_at (tm_off t) (next_hour t)" using next_hour_later(2) [of t] by (simp add: minute_at_def)
  show "minute_at (tm_off t) (tm_add t minute)" using assms(2) by (simp add: minute_at_def tm_add_def)
qed

lemma cron_scan_first:
  "3600 dvd tm_off t \<Longrightarrow> minute_at (tm_off t) t \<Longrightarrow> first_due sched (tm_off t) (tm_ns t) limit (cron_scan sched t limit)"
proof (induction sched t limit rule: cron_scan.induct)
  case (1 sched t limit)
  note M = minute_at_moves [OF 1(4,5)]
  show ?case
  proof (cases "tm_ns t < limit \<and> \<not> due sched t")
    case True
    then have now: "tm_ns t < limit" "\<not> due sched t" by simp_all
    consider "\<not> slot_has (cs_months sched) (tm_month t)"
      | "slot_has (cs_months sched) (tm_month t)" "\<not> slot_has (cs_hours sched) (tm_hour t)"
      | "slot_has (cs_months sched) (tm_month t)" "slot_has (cs_hours sched) (tm_hour t)" by blast
    then show ?thesis
    proof cases
      case 1
      with now "1.IH"(1) "1.prems" M(1) next_month_after(2) [of t] next_month_later [of t] none_due_month [of sched t] show ?thesis
        by (subst cron_scan.simps) (simp add: first_due_later)
    next
      case 2
      with now "1.IH"(2) "1.prems" M(2) next_hour_later [of t] none_due_hour [of t sched] show ?thesis
        by (subst cron_scan.simps) (simp add: first_due_later)
    next
      case 3
      have "first_due sched (tm_off t) (tm_ns (tm_add t minute)) limit (cron_scan sched (tm_add t minute) limit)"
        using 3 now "1.IH"(3) "1.prems" M(3) by (simp add: tm_add_def)
      from first_due_later [OF this none_due_minute [OF "1.prems"(2) now(2)]] 3 now show ?thesis
        by (subst cron_scan.simps) (simp add: tm_add_def)
    qed
  next
    case False
    then show ?thesis using 1(5) by (subst cron_scan.simps) (auto simp: first_due_def none_due_def)
  qed
qed

lemma nextCronRun_first:
  assumes "3600 dvd tm_off fr"
  shows "case nextCronRun sched fr of
      Inr t \<Rightarrow> minute_at (tm_off fr) t \<and> tm_ns fr < tm_ns t \<and> tm_ns t < tm_ns fr + cronHorizon \<and> due sched t
        \<and> (\<forall>u. minute_at (tm_off fr) u \<longrightarrow> tm_ns fr < tm_ns u \<longrightarrow> tm_ns u < tm_ns t \<longrightarrow> \<not> due sched u)
    | Inl e \<Rightarrow> e = ErrInvalidSpec
        \<and> (\<forall>u. minute_at (tm_off fr) u \<longrightarrow> tm_ns fr < tm_ns u \<longrightarrow> tm_ns u < tm_ns fr + cronHorizon \<longrightarrow> \<not> due sched u)"
proof -
  let ?t = "tm_add (tm_truncate fr minute) minute"
  have t: "tm_off ?t = tm_off fr" "tm_ns ?t = (tm_ns fr div minute + 1) * minute"
    by (simp_all add: tm_add_def tm_truncate_def minus_mod_eq_div_mult)
  then have "minute_at (tm_off ?t) ?t" by (simp add: minute_at_def)
  from cron_scan_first [OF _ this, of sched "tm_ns fr + cronHorizon"] assms t(1)
  have "first_due sched (tm_off fr) (tm_ns ?t) (tm_ns fr + cronHorizon) (nextCronRun sched fr)"
    by (simp add: nextCronRun_def tm_add_def)
  moreover have "tm_ns fr < tm_ns u \<longleftrightarrow> tm_ns ?t \<le> tm_ns u" if "minute_at (tm_off fr) u" for u
  proof -
    have "minute dvd tm_ns u" using that by (simp add: minute_at_def minute_mult)
    then obtain j where "tm_ns u = minute * j" by (rule dvdE)
    then obtain k where k: "tm_ns u = k * minute" by simp
    have "tm_ns fr < k * minute \<longleftrightarrow> tm_ns fr div minute < k" by (intro iffI; linarith)
    with k t(2) show ?thesis by auto
  qed
  ultimately show ?thesis by (simp add: first_due_def none_due_def split: sum.splits)
qed




section \<open>Zones that are not whole hours from UTC\<close>

lemmas field_eval = field_means_def part_means_def cut_byte_def cron_step_def cronRange_def cronValue_def atoi_def digits_value_def byte_of_def is_digit_def
  Let_def

lemma field_star: "field_means lo hi ''*'' v \<longleftrightarrow> lo \<le> v \<and> v \<le> hi"
  by (auto simp: field_eval)

lemma field_numbers:
  "field_means 0 59 ''0'' v \<longleftrightarrow> v = 0" "field_means 0 23 ''9'' v \<longleftrightarrow> v = 9" "field_means 0 23 ''0'' v \<longleftrightarrow> v = 0"
  "field_means 1 31 ''1'' v \<longleftrightarrow> v = 1" "field_means 1 12 ''1'' v \<longleftrightarrow> v = 1" "field_means 0 6 ''1'' v \<longleftrightarrow> v = 1"
  by (auto simp: field_eval)

lemma daily_fields: "cron_fields ''0 9 * * *'' = [''0'', ''9'', ''*'', ''*'', ''*'']"
  by (simp add: cron_fields_def cronMacros_def)

lemma daily_slots:
  assumes "parseCron ''0 9 * * *'' = Some c"
  shows "due c t \<longleftrightarrow> tm_minute t = 0 \<and> tm_hour t = 9" "slot_has (cs_months c) (tm_month t)" "slot_has (cs_hours c) v \<longleftrightarrow> v = 9"
proof -
  show "due c t \<longleftrightarrow> tm_minute t = 0 \<and> tm_hour t = 9"
    using due_fields [OF assms, of t] tm_ranges [of t] by (simp add: daily_fields field_star field_numbers)
  show "slot_has (cs_months c) (tm_month t)" "slot_has (cs_hours c) v \<longleftrightarrow> v = 9"
    by (rule parseCron_fields [OF assms]; use tm_ranges [of t] in \<open>simp add: daily_fields parseCronSegment_has field_star field_numbers\<close>)+
qed

text \<open>Minutes of the day in a location.\<close>

lemma local_minutes:
  assumes "local_ns t = n * minute" shows "tm_minute t = n mod 60" "tm_hour t = n div 60 mod 24"
proof -
  have "local_ns t mod (minute * 60) = minute * (n mod 60)" unfolding assms by (subst zmod_zmult2_eq) simp_all
  then show "tm_minute t = n mod 60" by (simp add: tm_minute_def)
  have "local_ns t div (minute * 60) = n div 60" unfolding assms by (subst zdiv_zmult2_eq) simp_all
  then show "tm_hour t = n div 60 mod 24" by (simp add: tm_hour_div)
qed

lemma cron_scan_misses:
  assumes "P t" and "\<And>t. P t \<Longrightarrow> \<not> due sched t" and "\<And>t. P t \<Longrightarrow> slot_has (cs_months sched) (tm_month t)"
    and "\<And>t. P t \<Longrightarrow> \<not> slot_has (cs_hours sched) (tm_hour t) \<Longrightarrow> P (next_hour t)"
    and "\<And>t. P t \<Longrightarrow> slot_has (cs_hours sched) (tm_hour t) \<Longrightarrow> P (tm_add t minute)"
  shows "cron_scan sched t limit = Inl ErrInvalidSpec"
  using assms
proof (induction sched t limit rule: cron_scan.induct)
  case (1 sched t limit)
  then show ?case by (subst cron_scan.simps) (simp split: if_split)
qed

definition off_nine :: "go_time \<Rightarrow> bool" where
  "off_nine t \<longleftrightarrow> tm_off t = 19800 \<and> tm_ns t mod minute = 0 \<and> \<not> (tm_minute t = 0 \<and> tm_hour t = 9)"

lemma off_nine_minutes: "off_nine t \<Longrightarrow> \<exists>n. local_ns t = n * minute \<and> \<not> (n mod 60 = 0 \<and> n div 60 mod 24 = 9)"
proof -
  assume o: "off_nine t"
  then have "minute dvd tm_ns t" by (simp add: off_nine_def minute_mult)
  then obtain j where "tm_ns t = minute * j" by (rule dvdE)
  with o have l: "local_ns t = (j + 330) * minute" by (simp add: local_ns_def off_nine_def)
  from local_minutes [OF l] o l show ?thesis unfolding off_nine_def by metis
qed

lemma off_nine_hour: "off_nine t \<Longrightarrow> off_nine (next_hour t)"
proof -
  assume o: "off_nine t"
  have "local_ns (next_hour t) = ((tm_ns t div hour + 6) * 60 + 30) * minute"
    using o by (simp add: local_ns_def next_hour_ns next_hour_later off_nine_def algebra_simps)
  from local_minutes(1) [OF this] have "tm_minute (next_hour t) = 30" by simp
  moreover have "tm_ns (next_hour t) = minute * (60 * (tm_ns t div hour + 1))" by (simp add: next_hour_ns)
  ultimately show ?thesis using o next_hour_later(2) [of t] by (simp add: off_nine_def)
qed

lemma minute_after:
  assumes "n div 60 mod 24 = (9 :: int)" "n mod 60 \<noteq> 0" shows "\<not> ((n + 1) mod 60 = 0 \<and> (n + 1) div 60 mod 24 = 9)"
proof (cases "n mod 60 = 59")
  case True
  then have "n + 1 = (n div 60 + 1) * 60" using div_mult_mod_eq [of n 60] by (simp only: distrib_right)
  then have "(n + 1) div 60 = n div 60 + 1" by simp
  moreover have "(n div 60 + 1) mod 24 = (9 + 1) mod 24" using assms(1) by (metis mod_add_left_eq)
  ultimately show ?thesis by simp
next
  case False
  moreover have "0 \<le> n mod 60" "n mod 60 < 60" by simp_all
  ultimately have "(n mod 60 + 1) mod 60 = n mod 60 + 1" by simp
  then have "(n + 1) mod 60 = n mod 60 + 1" by (metis mod_add_left_eq)
  with \<open>0 \<le> n mod 60\<close> show ?thesis by simp
qed

lemma off_nine_minute:
  assumes "off_nine t" "tm_hour t = 9" shows "off_nine (tm_add t minute)"
proof -
  obtain n where n: "local_ns t = n * minute" "\<not> (n mod 60 = 0 \<and> n div 60 mod 24 = 9)" using off_nine_minutes [OF assms(1)] by blast
  have m: "local_ns (tm_add t minute) = (n + 1) * minute" using n(1) by (simp add: local_ns_def tm_add_def)
  have "n div 60 mod 24 = 9" "n mod 60 \<noteq> 0" using local_minutes [OF n(1)] assms(2) n(2) by auto
  then have "\<not> ((n + 1) mod 60 = 0 \<and> (n + 1) div 60 mod 24 = 9)" by (rule minute_after)
  with local_minutes [OF m] assms(1) show ?thesis by (simp add: off_nine_def tm_add_def)
qed

lemma next_nine:
  "\<exists>u. minute_at 19800 u \<and> tm_ns fr < tm_ns u \<and> tm_ns u \<le> tm_ns fr + day \<and> tm_minute u = 0 \<and> tm_hour u = 9"
proof -
  let ?u = "\<lambda>d. \<lparr>tm_ns = ((d * 24 + 9) * 60 - 330) * minute, tm_off = 19800\<rparr>"
  have l: "local_ns (?u d) = (d * 24 + 9) * 60 * minute" for d by (simp add: local_ns_def)
  have h: "minute_at 19800 (?u d) \<and> tm_minute (?u d) = 0 \<and> tm_hour (?u d) = 9" for d
  proof -
    have "(d * 24 + 9) * 60 mod 60 = 0" "(d * 24 + 9) * 60 div 60 mod 24 = 9" by simp_all
    then show ?thesis using local_minutes [OF l, of d] by (simp add: minute_at_def)
  qed
  let ?d = "(tm_ns fr - 210 * minute) div day + 1"
  have "tm_ns fr < tm_ns (?u ?d) \<and> tm_ns (?u ?d) \<le> tm_ns fr + day" by simp linarith
  with h show ?thesis by blast
qed

lemma half_hour_zone_scan:
  assumes "parseCron ''0 9 * * *'' = Some c" "tm_off fr = 19800" "\<not> due c (tm_add (tm_truncate fr minute) minute)"
  shows "nextCronRun c fr = Inl ErrInvalidSpec"
proof -
  note D = daily_slots [OF assms(1)]
  have "off_nine (tm_add (tm_truncate fr minute) minute)"
    using assms(2,3) by (simp add: off_nine_def D tm_add_def tm_truncate_def minus_mod_eq_div_mult)
  then show ?thesis unfolding nextCronRun_def
  proof (rule cron_scan_misses)
    show "off_nine (next_hour t)" if "off_nine t" for t using off_nine_hour [OF that] .
    show "off_nine (tm_add t minute)" if "off_nine t" "slot_has (cs_hours c) (tm_hour t)" for t
      using off_nine_minute [OF that(1)] that(2) by (simp add: D)
  qed (simp_all add: D off_nine_def)
qed

text \<open>In a zone half an hour off, a daily job at nine has no next run. With the offset of +05:30 and the schedule
  \<open>0 9 * * *\<close> every day has a nine o'clock, but unless the scan happens to start on it, its jumps land on the half
  hours and it gives up after five years with an error.\<close>

theorem half_hour_zone_misses:
  assumes "parseCron ''0 9 * * *'' = Some c" "tm_off fr = 19800" "\<not> due c (tm_add (tm_truncate fr minute) minute)"
  shows "(\<exists>u. minute_at 19800 u \<and> tm_ns fr < tm_ns u \<and> tm_ns u \<le> tm_ns fr + day \<and> due c u) \<and> nextCronRun c fr = Inl ErrInvalidSpec"
  using next_nine [of fr] half_hour_zone_scan [OF assms] by (simp add: daily_slots [OF assms(1)])

theorem half_hour_zone_misses_witness:
  "\<exists>c. parseCron ''0 9 * * *'' = Some c \<and> (\<exists>u. minute_at 19800 u \<and> tm_ns (Date 2024 1 1 19800) < tm_ns u
     \<and> tm_ns u \<le> tm_ns (Date 2024 1 1 19800) + day \<and> due c u) \<and> nextCronRun c (Date 2024 1 1 19800) = Inl ErrInvalidSpec"
proof -
  obtain c where c: "parseCron ''0 9 * * *'' = Some c" using daily_parses(1) by blast
  have "\<not> due c (tm_add (tm_truncate (Date 2024 1 1 19800) minute) minute)"
    by (simp add: daily_slots [OF c] tm_hour_def tm_minute_def local_ns_def tm_add_def tm_truncate_def Date_def date_days_def month_start_def year_start_def)
  with half_hour_zone_misses [OF c, of "Date 2024 1 1 19800"] c show ?thesis by simp
qed

section \<open>Five years\<close>

lemma new_year_due:
  assumes "parseCron ''0 0 1 1 1'' = Some c"
  shows "due c t \<longleftrightarrow> tm_minute t = 0 \<and> tm_hour t = 0 \<and> tm_day t = 1 \<and> tm_month t = 1 \<and> tm_weekday t = 1"
  using due_fields [OF assms, of t] by (simp add: cron_fields_def cronMacros_def field_numbers)

lemma midnight:
  assumes "local_ns t mod minute = 0" "tm_minute t = 0" "tm_hour t = 0" shows "local_ns t mod day = 0"
proof -
  define k where "k = local_ns t div minute"
  have n: "local_ns t = k * minute" using assms(1) div_mult_mod_eq [of "local_ns t" minute] by (simp add: k_def)
  have "k mod 60 = 0" "k div 60 mod 24 = 0" using local_minutes [OF n] assms(2,3) by simp_all
  then have "k mod (60 * 24) = 0" by (subst zmod_zmult2_eq) simp_all
  moreover have "local_ns t mod (1440 * minute) = k mod 1440 * minute" unfolding n by (rule mult_mod_left [symmetric])
  ultimately show ?thesis by simp
qed

text \<open>A satisfiable expression can be refused. January 1 was a Monday in 2018 and is again in 2024: after the
  run of 2018 the schedule \<open>0 0 1 1 1\<close> has no next run, because five years are scanned.\<close>

theorem horizon_too_short:
  assumes "parseCron ''0 0 1 1 1'' = Some c"
  shows "due c (Date 2018 1 1 0) \<and> due c (Date 2024 1 1 0) \<and> nextCronRun c (Date 2018 1 1 0) = Inl ErrInvalidSpec"
proof -
  let ?fr = "Date 2018 1 1 0"
  have "valid_date y 1 1" for y by (simp add: valid_date_def month_lengths_def)
  note dt = tm_date_Date [OF this]
  have dd: "date_days y 1 1 = year_start y" for y by (simp add: date_days_def month_start_def)
  have d: "due c (Date y 1 1 0) \<longleftrightarrow> (year_start y + 1) mod 7 = 1" for y
    by (simp add: new_year_due [OF assms] tm_minute_def tm_hour_def tm_weekday_def tm_day_def tm_month_def dt dd)
  have "False" if t: "minute_at 0 t" "tm_ns ?fr < tm_ns t" "tm_ns t < tm_ns ?fr + cronHorizon" "due c t" for t
  proof -
    have td: "tm_minute t = 0" "tm_hour t = 0" "tm_day t = 1" "tm_month t = 1" "tm_weekday t = 1" using t(4) by (simp_all add: new_year_due [OF assms])
    let ?y = "tm_year t"
    have l: "local_ns t = tm_ns t" using t(1) by (simp add: local_ns_def minute_at_def)
    have y: "tm_ns t div day = year_start ?y" using tm_days [of t] td l by (simp add: month_start_def)
    have "year_start 2018 * day < tm_ns t" "tm_ns t < (year_start 2018 + 1825) * day"
      using t(2,3) by (simp_all add: Date_def dd cronHorizon_def)
    moreover have "tm_ns t = year_start ?y * day"
    proof -
      have "tm_ns t mod day = 0" using midnight [OF _ td(1,2)] t(1) l by (simp add: minute_at_def)
      then show ?thesis using y div_mult_mod_eq [of "tm_ns t" day] by (simp only: add_0_right)
    qed
    ultimately have b: "year_start 2018 < year_start ?y" "year_start ?y < year_start 2018 + 1825" by simp_all
    have "2018 < ?y" using b(1) year_start_mono [of ?y 2018] by linarith
    moreover have "?y < 2023" using b(2) year_start_mono [of 2023 ?y] by (simp add: year_start_def) 
    ultimately have "?y \<in> {2019, 2020, 2021, 2022}" by auto
    moreover have "(year_start ?y + 1) mod 7 = 1" using td(5) l y by (simp add: tm_weekday_def)
    ultimately show False by (auto simp: year_start_def)
  qed
  moreover have "3600 dvd tm_off ?fr" by simp
  from nextCronRun_first [OF this, of c] have "case nextCronRun c ?fr of
      Inr t \<Rightarrow> minute_at 0 t \<and> tm_ns ?fr < tm_ns t \<and> tm_ns t < tm_ns ?fr + cronHorizon \<and> due c t
    | Inl e \<Rightarrow> e = ErrInvalidSpec" by (auto split: sum.splits)
  ultimately have "nextCronRun c ?fr = Inl ErrInvalidSpec" by (cases "nextCronRun c ?fr") auto
  moreover have "due c ?fr" "due c (Date 2024 1 1 0)" unfolding d by (simp_all add: year_start_def)
  ultimately show ?thesis by blast
qed

theorem horizon_too_short_witness:
  "\<exists>c. parseCron ''0 0 1 1 1'' = Some c \<and> due c (Date 2024 1 1 0) \<and> nextCronRun c (Date 2018 1 1 0) = Inl ErrInvalidSpec"
proof -
  obtain c where c: "parseCron ''0 0 1 1 1'' = Some c" using daily_parses(2) by blast
  with horizon_too_short [OF c] show ?thesis by blast
qed

end
