(* ===== verification/Resource_Store_Spec.thy ===== *)
theory Resource_Store_Spec
  imports Resource_Store
begin

text \<open>
  The documents of the control plane are a versioned register: one list of revisions per org and kind, appended to by
  the writer that knows its length, with a repeated request answered by the revision it made. The seeding of
  shipped documents relies on the same request ids, and loses a value that comes back.
\<close>

section \<open>The register\<close>

definition ledger :: "string \<Rightarrow> string \<Rightarrow> 'v resource_db \<Rightarrow> 'v StoredResource list" where
  "ledger orgID kind d = filter (revision_at orgID kind) (rd_history d)"

definition ledger_ok :: "'v resource_row option \<Rightarrow> 'v StoredResource list \<Rightarrow> bool" where
  "ledger_ok row l \<longleftrightarrow> map rv_version l = map int [1..<Suc (length l)] \<and> distinct (map rv_request l) \<and>
     (case row of None \<Rightarrow> l = [] | Some r \<Rightarrow> l \<noteq> [] \<and> rr_value r = rv_value (last l) \<and> rr_version r = int (length l))"

definition resource_inv :: "'v resource_db \<Rightarrow> bool" where
  "resource_inv d \<longleftrightarrow> (\<forall>orgID kind. ledger_ok (q_ResourceByKind orgID kind d) (ledger orgID kind d)) \<and>
     distinct (map (\<lambda>r. (rr_org r, rr_kind r)) (rd_rows d))"

text \<open>The abstract register: the values and requests of the revisions, oldest first.\<close>

type_synonym 'v revision_list = "('v \<times> string) list"

definition revisions :: "string \<Rightarrow> string \<Rightarrow> 'v resource_db \<Rightarrow> 'v revision_list" where
  "revisions orgID kind d = map (\<lambda>r. (rv_value r, rv_request r)) (ledger orgID kind d)"

text \<open>A write: the revision it made before, a conflict, or a new revision. The answer is a version and a value.\<close>

fun position :: "('a \<Rightarrow> bool) \<Rightarrow> 'a list \<Rightarrow> nat option" where
  "position P [] = None"
| "position P (x # xs) = (if P x then Some 0 else map_option Suc (position P xs))"

definition put_spec :: "'v \<Rightarrow> string \<Rightarrow> int \<Rightarrow> 'v revision_list \<Rightarrow> ((int \<times> 'v) \<times> 'v revision_list) option" where
  "put_spec v request expected l = (case position (\<lambda>(_, q). q = request) l of
     Some i \<Rightarrow> Some ((int i + 1, fst (l ! i)), l)
   | None \<Rightarrow> if expected \<noteq> int (length l) then None else Some ((int (length l) + 1, v), l @ [(v, request)]))"

lemma position_Some: "position P xs = Some i \<Longrightarrow> i < length xs \<and> P (xs ! i) \<and> find P xs = Some (xs ! i)"
proof (induction xs arbitrary: i)
  case (Cons x xs)
  then show ?case by (cases "P x") auto
qed simp

lemma position_None: "position P xs = None \<longleftrightarrow> find P xs = None"
  by (induction xs) auto

lemma position_fresh: "request \<notin> snd ` set l \<Longrightarrow> position (\<lambda>(_, q). q = request) l = None"
  by (induction l) auto

lemma position_snoc: "position P xs = None \<Longrightarrow> P x \<Longrightarrow> position P (xs @ [x]) = Some (length xs)"
  by (induction xs) (auto split: if_splits)

lemma position_map: "position P (map f xs) = position (P \<circ> f) xs"
  by (induction xs) auto

lemma find_filter: "find (\<lambda>x. P x \<and> Q x) xs = find Q (filter P xs)"
  by (induction xs) auto

lemma request_in_ledger: "q_ResourceByRequest orgID kind request d = find (\<lambda>r. rv_request r = request) (ledger orgID kind d)"
  by (simp add: q_ResourceByRequest_def ledger_def find_filter)

lemma resource_inv_ledger: "resource_inv d \<Longrightarrow> ledger_ok (q_ResourceByKind orgID kind d) (ledger orgID kind d)"
  by (simp add: resource_inv_def)

lemma ledger_version: "ledger_ok row l \<Longrightarrow> i < length l \<Longrightarrow> rv_version (l ! i) = int i + 1"
proof -
  assume l: "ledger_ok row l" and i: "i < length l"
  then have "map rv_version l ! i = map int [1..<Suc (length l)] ! i" by (simp add: ledger_ok_def)
  with i show ?thesis by (simp add: nth_append del: upt_Suc)
qed

lemma ledger_current: "ledger_ok row l \<Longrightarrow> (case row of None \<Rightarrow> 0 | Some r \<Rightarrow> rr_version r) = int (length l)"
  by (auto simp: ledger_ok_def split: option.splits)

section \<open>Writes keep the invariant\<close>

lemma ledger_old: "ledger_ok row l \<Longrightarrow> length (filter (\<lambda>r. rv_version r = v) l) \<le> 1"
proof -
  assume "ledger_ok row l"
  then have "distinct (map rv_version l)" by (simp add: ledger_ok_def distinct_map del: upt_Suc)
  then show ?thesis by (induction l) (auto simp: filter_empty_conv image_iff)
qed

lemma ledger_ok_snoc:
  assumes "ledger_ok row l" "rv_version h = int (length l) + 1" "find (\<lambda>r. rv_request r = rv_request h) l = None"
    "rr_value r = rv_value h" "rr_version r = rv_version h"
  shows "ledger_ok (Some r) (l @ [h])"
proof -
  have "rv_request h \<notin> rv_request ` set l" using assms(3) by (auto simp: find_None_iff)
  with assms show ?thesis by (auto simp: ledger_ok_def)
qed

text \<open>One row of a table with distinct keys is replaced.\<close>

lemma find_row_update:
  assumes "distinct (map (\<lambda>r. (rr_org r, rr_kind r)) rows)" "find (\<lambda>r. row_at o1 k1 r \<and> rr_version r = v) rows = Some r"
    "rr_org r' = o1" "rr_kind r' = k1"
  shows "find (row_at o2 k2) (map (\<lambda>x. if row_at o1 k1 x \<and> rr_version x = v then r' else x) rows) =
      (if o1 = o2 \<and> k1 = k2 then Some r' else find (row_at o2 k2) rows)"
    "map (\<lambda>r. (rr_org r, rr_kind r)) (map (\<lambda>x. if row_at o1 k1 x \<and> rr_version x = v then r' else x) rows) = map (\<lambda>r. (rr_org r, rr_kind r)) rows"
proof -
  show "map (\<lambda>r. (rr_org r, rr_kind r)) (map (\<lambda>x. if row_at o1 k1 x \<and> rr_version x = v then r' else x) rows) = map (\<lambda>r. (rr_org r, rr_kind r)) rows"
    using assms(3,4) by (auto simp: row_at_def)
  show "find (row_at o2 k2) (map (\<lambda>x. if row_at o1 k1 x \<and> rr_version x = v then r' else x) rows) =
      (if o1 = o2 \<and> k1 = k2 then Some r' else find (row_at o2 k2) rows)"
    using assms(1,2)
  proof (induction rows)
    case (Cons x rows)
    show ?case
    proof (cases "row_at o1 k1 x \<and> rr_version x = v")
      case True
      then have "map (\<lambda>y. if row_at o1 k1 y \<and> rr_version y = v then r' else y) rows = rows"
        using Cons.prems(1) by (intro map_idI) (auto simp: row_at_def image_iff)
      with True assms(3,4) show ?thesis by (auto simp: row_at_def)
    next
      case False
      then have f: "find (\<lambda>r. row_at o1 k1 r \<and> rr_version r = v) rows = Some r" using Cons.prems(2) by auto
      then have "(o1, k1) \<in> (\<lambda>r. (rr_org r, rr_kind r)) ` set rows" by (auto simp: find_Some_iff row_at_def image_iff)
      then have n: "\<not> row_at o1 k1 x" using Cons.prems(1) by (auto simp: row_at_def)
      have "distinct (map (\<lambda>r. (rr_org r, rr_kind r)) rows)" using Cons.prems(1) by simp
      from Cons.IH [OF this f] n show ?thesis by (cases "row_at o2 k2 x"; cases "o1 = o2 \<and> k1 = k2") auto
    qed
  qed simp
qed

text \<open>What an accepted write does to the tables.\<close>

lemma appendResourceRevision_lands:
  assumes inv: "resource_inv d" and new: "q_ResourceByRequest (rw_org w) (rw_kind w) (rw_request w) d = None"
    and cur: "current = int (length (ledger (rw_org w) (rw_kind w) d))"
  obtains h d' where "appendResourceRevision diff now w current d = Inr (h, d')" "rv_version h = current + 1" "rv_value h = rw_value w"
    "rv_request h = rw_request w" "rd_history d' = rd_history d @ [h]" "revision_at (rw_org w) (rw_kind w) h"
    "resource_inv d'"
proof -
  let ?o = "rw_org w" and ?k = "rw_kind w" and ?l = "ledger (rw_org w) (rw_kind w) d"
  define at_time where "at_time = (if tm_zero (rw_at w) then tm_utc now else tm_utc (rw_at w))"
  let ?h = "\<lparr>rv_org = ?o, rv_kind = ?k, rv_value = rw_value w, rv_version = current + 1, rv_actor = rw_actor w,
     rv_source = rw_source w, rv_request = rw_request w, rv_expected = rw_expected w, rv_current = current, rv_at = at_time\<rparr>"
  have ok: "ledger_ok (q_ResourceByKind ?o ?k d) ?l" by (rule resource_inv_ledger [OF inv])
  have dist: "distinct (map (\<lambda>r. (rr_org r, rr_kind r)) (rd_rows d))" using inv by (simp add: resource_inv_def)
  obtain row rows where row: "(if current = 0
        then q_InsertResource \<lparr>rr_org = ?o, rr_kind = ?k, rr_value = rw_value w, rr_version = 1, rr_updated = at_time\<rparr> d
        else q_UpdateResource ?o ?k (rw_value w) at_time current d) = Some (row, d\<lparr>rd_rows := rows\<rparr>)"
      "rr_value row = rw_value w" "rr_version row = current + 1" "distinct (map (\<lambda>r. (rr_org r, rr_kind r)) rows)"
      "\<And>o2 k2. find (row_at o2 k2) rows = (if ?o = o2 \<and> ?k = k2 then Some row else q_ResourceByKind o2 k2 d)"
  proof (cases "q_ResourceByKind ?o ?k d")
    case None
    let ?r = "\<lparr>rr_org = ?o, rr_kind = ?k, rr_value = rw_value w, rr_version = 1, rr_updated = at_time\<rparr>"
    have c0: "current = 0" using ok None cur by (simp add: ledger_ok_def)
    have no: "\<not> list_ex (row_at ?o ?k) (rd_rows d)" using None by (simp add: q_ResourceByKind_def find_None_iff list_ex_iff)
    then have "(?o, ?k) \<notin> (\<lambda>r. (rr_org r, rr_kind r)) ` set (rd_rows d)" by (auto simp: list_ex_iff row_at_def)
    with dist have "distinct (map (\<lambda>r. (rr_org r, rr_kind r)) (rd_rows d @ [?r]))" by simp
    moreover have "find (row_at o2 k2) (rd_rows d @ [?r]) = (if ?o = o2 \<and> ?k = k2 then Some ?r else q_ResourceByKind o2 k2 d)" for o2 k2
      using None by (auto simp: find_append q_ResourceByKind_def row_at_def split: option.splits)
    moreover have "q_InsertResource ?r d = Some (?r, d\<lparr>rd_rows := rd_rows d @ [?r]\<rparr>)" using no by (simp add: q_InsertResource_def)
    ultimately show ?thesis using that [of ?r "rd_rows d @ [?r]"] c0 by simp
  next
    case (Some r)
    have c: "current \<noteq> 0" "rr_version r = current" using ok Some cur by (auto simp: ledger_ok_def)
    have f: "find (\<lambda>r. row_at ?o ?k r \<and> rr_version r = current) (rd_rows d) = Some r"
      using Some c(2) by (auto simp: q_ResourceByKind_def find_Some_iff)
    have rk: "rr_org r = ?o" "rr_kind r = ?k" using f by (auto simp: find_Some_iff row_at_def)
    let ?r = "r\<lparr>rr_value := rw_value w, rr_version := rr_version r + 1, rr_updated := at_time\<rparr>"
    let ?rows = "map (\<lambda>x. if row_at ?o ?k x \<and> rr_version x = current then ?r else x) (rd_rows d)"
    note U = find_row_update [OF dist f, of ?r]
    have "distinct (map (\<lambda>r. (rr_org r, rr_kind r)) ?rows)" by (subst U(2)) (use rk dist in simp_all)
    moreover have "find (row_at o2 k2) ?rows = (if ?o = o2 \<and> ?k = k2 then Some ?r else q_ResourceByKind o2 k2 d)" for o2 k2
      using U(1) rk by (simp add: q_ResourceByKind_def)
    moreover have "q_UpdateResource ?o ?k (rw_value w) at_time current d = Some (?r, d\<lparr>rd_rows := ?rows\<rparr>)" using f by (simp add: q_UpdateResource_def Let_def)
    ultimately show ?thesis using that [of ?r ?rows] c by simp
  qed
  have hist: "q_InsertResourceHistory ?h (d\<lparr>rd_rows := rows\<rparr>) = Some (d\<lparr>rd_rows := rows, rd_history := rd_history d @ [?h]\<rparr>)"
    using new by (simp add: q_InsertResourceHistory_def q_ResourceByRequest_def)
  let ?old = "filter (\<lambda>r. revision_at ?o ?k r \<and> rv_version r = current) (rd_history d @ [?h])"
  have "length ?old \<le> 1" using ledger_old [OF ok, of current] by (simp add: ledger_def)
  then obtain aud where aud: "q_InsertResourceAudit diff current ?h (d\<lparr>rd_rows := rows, rd_history := rd_history d @ [?h]\<rparr>) =
      Some (d\<lparr>rd_rows := rows, rd_history := rd_history d @ [?h], rd_audit := aud\<rparr>)"
    by (simp add: q_InsertResourceAudit_def Let_def)
  let ?d = "d\<lparr>rd_rows := rows, rd_history := rd_history d @ [?h], rd_audit := aud\<rparr>"
  have "appendResourceRevision diff now w current d = Inr (?h, ?d)"
    unfolding appendResourceRevision_def Let_def at_time_def [symmetric] row(1) using row(3) hist aud by simp
  moreover have "resource_inv ?d" unfolding resource_inv_def
  proof (intro conjI allI)
    fix o2 k2
    show "ledger_ok (q_ResourceByKind o2 k2 ?d) (ledger o2 k2 ?d)"
    proof (cases "?o = o2 \<and> ?k = k2")
      case True
      have "ledger_ok (Some row) (?l @ [?h])"
        by (rule ledger_ok_snoc [OF ok]) (use row cur new request_in_ledger [of ?o ?k "rw_request w" d] in simp_all)
      with True row(5) show ?thesis by (simp add: q_ResourceByKind_def ledger_def revision_at_def)
    next
      case False
      then have "ledger o2 k2 ?d = ledger o2 k2 d" by (auto simp: ledger_def revision_at_def)
      with False row(5) resource_inv_ledger [OF inv, of o2 k2] show ?thesis by (auto simp: q_ResourceByKind_def)
    qed
  qed (use row(4) in simp)
  ultimately show ?thesis using that [of ?h ?d] by (simp add: revision_at_def)
qed

section \<open>Refinement\<close>

lemma put_spec_replay:
  assumes "ledger_ok row l" "position (\<lambda>(_, q). q = request) (map (\<lambda>r. (rv_value r, rv_request r)) l) = Some i"
  shows "find (\<lambda>r. rv_request r = request) l = Some (l ! i) \<and> rv_version (l ! i) = int i + 1 \<and> i < length l"
proof -
  have "position (\<lambda>r. rv_request r = request) l = Some i" using assms(2) by (simp add: position_map comp_def)
  from position_Some [OF this] show ?thesis using ledger_version [OF assms(1)] by blast
qed

lemma PutResource_register:
  assumes "resource_inv d" "checkResourceKey (rw_org w) (rw_kind w)"
  shows "case PutResource diff now w d of
      Inl e \<Rightarrow> e = ErrResourceVersionConflict \<and> put_spec (rw_value w) (rw_request w) (rw_expected w) (revisions (rw_org w) (rw_kind w) d) = None
    | Inr (r, d') \<Rightarrow> put_spec (rw_value w) (rw_request w) (rw_expected w) (revisions (rw_org w) (rw_kind w) d)
          = Some ((rv_version r, rv_value r), revisions (rw_org w) (rw_kind w) d') \<and> resource_inv d'
        \<and> (\<forall>orgID kind. (orgID, kind) \<noteq> (rw_org w, rw_kind w) \<longrightarrow> revisions orgID kind d' = revisions orgID kind d)
        \<and> map_option rr_value (q_ResourceByKind (rw_org w) (rw_kind w) d')
          = map_option fst (case revisions (rw_org w) (rw_kind w) d' of [] \<Rightarrow> None | l \<Rightarrow> Some (last l))"
proof -
  let ?o = "rw_org w" and ?k = "rw_kind w" and ?l = "ledger (rw_org w) (rw_kind w) d"
  have ok: "ledger_ok (q_ResourceByKind ?o ?k d) ?l" by (rule resource_inv_ledger [OF assms(1)])
  have newest: "map_option rr_value (q_ResourceByKind ?o ?k x) = map_option fst (case revisions ?o ?k x of [] \<Rightarrow> None | l \<Rightarrow> Some (last l))"
    if "resource_inv x" for x
    using resource_inv_ledger [OF that, of ?o ?k]
    by (cases "ledger ?o ?k x") (auto simp: ledger_ok_def revisions_def last_map split: option.splits)
  show ?thesis
  proof (cases "position (\<lambda>(_, q). q = rw_request w) (revisions ?o ?k d)")
    case (Some i)
    then have f: "find (\<lambda>r. rv_request r = rw_request w) ?l = Some (?l ! i)" "rv_version (?l ! i) = int i + 1" "i < length ?l"
      using put_spec_replay [OF ok, of "rw_request w" i] by (simp_all add: revisions_def)
    then have "revision_at ?o ?k (?l ! i)" using nth_mem [of i ?l] by (auto simp: ledger_def)
    moreover have "q_ResourceByKind ?o ?k d \<noteq> None" using ok f(3) by (auto simp: ledger_ok_def split: option.splits)
    ultimately have "replayedResource (?l ! i) d = Inr (?l ! i, d)" by (auto simp: replayedResource_def revision_at_def)
    with f(1) assms(2) have "PutResource diff now w d = Inr (?l ! i, d)" by (simp add: PutResource_def request_in_ledger)
    with Some f newest [OF assms(1)] assms(1) show ?thesis by (simp add: put_spec_def revisions_def)
  next
    case None
    then have "find (\<lambda>r. rv_request r = rw_request w) ?l = None"
      by (simp add: revisions_def position_map comp_def position_None)
    then have new: "q_ResourceByRequest ?o ?k (rw_request w) d = None" by (simp add: request_in_ledger)
    have cur: "(case q_ResourceByKind ?o ?k d of None \<Rightarrow> 0 | Some r \<Rightarrow> rr_version r) = int (length ?l)" by (rule ledger_current [OF ok])
    show ?thesis
    proof (cases "rw_expected w = int (length ?l)")
      case True
      obtain h d' where a: "appendResourceRevision diff now w (int (length ?l)) d = Inr (h, d')" "rv_version h = int (length ?l) + 1"
        "rv_value h = rw_value w" "rv_request h = rw_request w" "rd_history d' = rd_history d @ [h]" "revision_at ?o ?k h" "resource_inv d'"
        using appendResourceRevision_lands [OF assms(1) new refl] by blast
      have rv: "revisions ?o ?k d' = revisions ?o ?k d @ [(rw_value w, rw_request w)]" using a by (simp add: revisions_def ledger_def)
      have "revisions orgID kind d' = revisions orgID kind d" if "(orgID, kind) \<noteq> (?o, ?k)" for orgID kind
        using that a(5,6) by (auto simp: revisions_def ledger_def revision_at_def)
      moreover have "PutResource diff now w d = Inr (h, d')" using new cur True a(1) assms(2) by (simp add: PutResource_def)
      moreover have "put_spec (rw_value w) (rw_request w) (rw_expected w) (revisions ?o ?k d) = Some ((rv_version h, rv_value h), revisions ?o ?k d')"
        using None True a(2,3) rv by (simp add: put_spec_def revisions_def)
      ultimately show ?thesis using a(7) newest [OF a(7)] by simp
    next
      case False
      then have "PutResource diff now w d = Inl ErrResourceVersionConflict" using new cur assms(2) by (simp add: PutResource_def)
      with None False show ?thesis by (simp add: put_spec_def revisions_def)
    qed
  qed
qed

text \<open>C15: the store of documents is a versioned register. On every database of the invariant, which every write keeps,
  \<open>PutResource\<close> answers and leaves the revisions of its org and kind exactly as the register does: a repeated
  request gets the revision it made, a writer that expects another version than the current one is refused with
  nothing written, and any other write becomes the next revision, and the current document; no other document
  changes.\<close>

theorem PutResource_refines:
  assumes "resource_inv d" "checkResourceKey (rw_org w) (rw_kind w)"
  shows "case PutResource diff now w d of
      Inl e \<Rightarrow> e = ErrResourceVersionConflict \<and> put_spec (rw_value w) (rw_request w) (rw_expected w) (revisions (rw_org w) (rw_kind w) d) = None
    | Inr (r, d') \<Rightarrow> put_spec (rw_value w) (rw_request w) (rw_expected w) (revisions (rw_org w) (rw_kind w) d)
          = Some ((rv_version r, rv_value r), revisions (rw_org w) (rw_kind w) d') \<and> resource_inv d'
        \<and> (\<forall>orgID kind. (orgID, kind) \<noteq> (rw_org w, rw_kind w) \<longrightarrow> revisions orgID kind d' = revisions orgID kind d)
        \<and> map_option rr_value (q_ResourceByKind (rw_org w) (rw_kind w) d')
          = map_option fst (case revisions (rw_org w) (rw_kind w) d' of [] \<Rightarrow> None | l \<Rightarrow> Some (last l))"
  by (rule PutResource_register [OF assms])

section \<open>The interface\<close>

text \<open>What a client of a versioned register relies on, and what follows for it: a request that is new lands exactly on
  the version its writer knows, a repeated request changes nothing, and of two writers that know the same version one
  is refused.\<close>

locale versioned_register =
  fixes inv :: "'s \<Rightarrow> bool" and revs :: "'s \<Rightarrow> 'v revision_list" and put :: "'v \<Rightarrow> string \<Rightarrow> int \<Rightarrow> 's \<Rightarrow> 'e + ((int \<times> 'v) \<times> 's)"
  assumes put_refused: "inv s \<Longrightarrow> put v q n s = Inl e \<Longrightarrow> put_spec v q n (revs s) = None"
    and put_accepted: "inv s \<Longrightarrow> put v q n s = Inr (a, s') \<Longrightarrow> put_spec v q n (revs s) = Some (a, revs s') \<and> inv s'"
begin

lemma put_fresh:
  assumes "inv s" "q \<notin> snd ` set (revs s)" "put v q n s = Inr (a, s')"
  shows "n = int (length (revs s)) \<and> revs s' = revs s @ [(v, q)] \<and> a = (n + 1, v) \<and> inv s'"
  using put_accepted [OF assms(1,3)] position_fresh [OF assms(2)] by (auto simp: put_spec_def split: if_splits)

lemma put_lands:
  assumes "inv s" "put_spec v q n (revs s) = Some (a, l)"
  shows "\<exists>s'. put v q n s = Inr (a, s') \<and> revs s' = l \<and> inv s'"
proof (cases "put v q n s")
  case (Inl e)
  with put_refused [OF assms(1) Inl] assms(2) show ?thesis by simp
next
  case (Inr r)
  obtain b s' where r: "r = (b, s')" by (cases r)
  with put_accepted [OF assms(1), of v q n b s'] Inr assms(2) show ?thesis by auto
qed

lemma put_again:
  assumes "inv s" "put v q n s = Inr (a, s')" "put v' q n' s' = Inr (b, s'')"
  shows "b = a \<and> revs s'' = revs s'"
proof -
  have p: "put_spec v q n (revs s) = Some (a, revs s')" "inv s'" using put_accepted [OF assms(1,2)] by simp_all
  have "put_spec v' q n' (revs s') = Some (b, revs s'')" using put_accepted [OF p(2) assms(3)] by simp
  note again = this
  show ?thesis
  proof (cases "position (\<lambda>(_, r). r = q) (revs s)")
    case (Some i)
    with p(1) again show ?thesis by (auto simp: put_spec_def)
  next
    case None
    with p(1) have "revs s' = revs s @ [(v, q)]" "a = (int (length (revs s)) + 1, v)" by (auto simp: put_spec_def split: if_splits)
    moreover have "position (\<lambda>(_, r). r = q) (revs s @ [(v, q)]) = Some (length (revs s))" using position_snoc [OF None] by simp
    ultimately show ?thesis using again by (auto simp: put_spec_def)
  qed
qed

lemma one_writer:
  assumes "inv s" "q \<notin> snd ` set (revs s)" "q' \<notin> snd ` set (revs s)" "q \<noteq> q'" "put v q n s = Inr (a, s')"
  shows "\<exists>e. put v' q' n s' = Inl e"
proof (cases "put v' q' n s'")
  case (Inr r)
  obtain b s'' where r: "r = (b, s'')" by (cases r)
  note F = put_fresh [OF assms(1,2,5)]
  have "q' \<notin> snd ` set (revs s')" using F assms(3,4) by auto
  with put_fresh [of s' q' v' n b s''] F Inr r show ?thesis by simp
qed blast

end

text \<open>The store of documents is such a register, for the org and kind of a write.\<close>

definition put_document :: "'v audit_diff \<Rightarrow> go_time \<Rightarrow> 'v ResourceWrite \<Rightarrow> 'v \<Rightarrow> string \<Rightarrow> int \<Rightarrow> 'v resource_db \<Rightarrow>
    resource_error + ((int \<times> 'v) \<times> 'v resource_db)" where
  "put_document diff now w v q n d = (case PutResource diff now (w\<lparr>rw_value := v, rw_request := q, rw_expected := n\<rparr>) d of
     Inl e \<Rightarrow> Inl e | Inr (r, d') \<Rightarrow> Inr ((rv_version r, rv_value r), d'))"

interpretation documents: versioned_register "\<lambda>d. resource_inv d \<and> checkResourceKey (rw_org w) (rw_kind w)" "revisions (rw_org w) (rw_kind w)"
  "put_document diff now w" for diff :: "'v audit_diff" and now and w :: "'v ResourceWrite"
proof unfold_locales
  fix s s' :: "'v resource_db" and v :: 'v and a :: "int \<times> 'v" and q n e
  let ?w = "w\<lparr>rw_value := v, rw_request := q, rw_expected := n\<rparr>"
  assume i: "resource_inv s \<and> checkResourceKey (rw_org w) (rw_kind w)"
  then have "resource_inv s" "checkResourceKey (rw_org ?w) (rw_kind ?w)" by simp_all
  note R = PutResource_register [OF this, of diff now]
  show "put_spec v q n (revisions (rw_org w) (rw_kind w) s) = None" if "put_document diff now w v q n s = Inl e"
    using R that by (auto simp: put_document_def split: sum.splits)
  show "put_spec v q n (revisions (rw_org w) (rw_kind w) s) = Some (a, revisions (rw_org w) (rw_kind w) s') \<and>
      resource_inv s' \<and> checkResourceKey (rw_org w) (rw_kind w)" if "put_document diff now w v q n s = Inr (a, s')"
    using R that i by (auto simp: put_document_def split: sum.splits)
qed

lemma put_document_eq: "PutResource diff now w d = Inr (r, d') \<Longrightarrow>
    put_document diff now w (rw_value w) (rw_request w) (rw_expected w) d = Inr ((rv_version r, rv_value r), d')"
  by (simp add: put_document_def)

definition no_documents :: "'v resource_db" where
  "no_documents = \<lparr>rd_rows = [], rd_history = [], rd_audit = []\<rparr>"

lemma no_documents_inv: "resource_inv no_documents"
  by (simp add: resource_inv_def no_documents_def q_ResourceByKind_def ledger_def ledger_ok_def)

definition first_write :: "string ResourceWrite" where
  "first_write = \<lparr>rw_org = ''o'', rw_kind = ''schedules'', rw_value = ''[]'', rw_actor = ''a'', rw_source = ''s'', rw_request = ''q1'',
     rw_expected = 0, rw_at = \<lparr>tm_ns = 1, tm_off = 0\<rparr>\<rparr>"

theorem PutResource_refines_witness:
  "case PutResource (\<lambda>_ _. []) \<lparr>tm_ns = 1, tm_off = 0\<rparr> first_write no_documents of
     Inl e \<Rightarrow> False
   | Inr (r, d') \<Rightarrow> put_spec ''[]'' ''q1'' 0 [] = Some ((rv_version r, rv_value r), revisions ''o'' ''schedules'' d') \<and> resource_inv d'"
proof -
  have k: "checkResourceKey (rw_org first_write) (rw_kind first_write)" by (simp add: first_write_def checkResourceKey_def)
  have r: "revisions ''o'' ''schedules'' (no_documents :: string resource_db) = []" by (simp add: revisions_def ledger_def no_documents_def)
  have "put_spec ''[]'' ''q1'' 0 [] \<noteq> None" by (simp add: put_spec_def)
  with PutResource_refines [OF no_documents_inv k, of "\<lambda>_ _. []" "\<lparr>tm_ns = 1, tm_off = 0\<rparr>"] r show ?thesis
    by (auto simp: first_write_def split: sum.splits)
qed

section \<open>Audit keys\<close>

lemma ResourceAuditKey_inj:
  assumes "checkResourceKey o1 k1" "checkResourceKey o2 k2" "ResourceAuditKey o1 k1 = ResourceAuditKey o2 k2"
  shows "o1 = o2 \<and> k1 = k2"
  using assms append_Cons_eq_iff [of "CHR ''/''" o1 k1 o2 k2]
  by (cases "o1 = DefaultOrgID"; cases "o2 = DefaultOrgID") (auto simp: ResourceAuditKey_def checkResourceKey_def)

section \<open>Seeds\<close>

text \<open>A document as its seed: the definition of a shipped document in a build.\<close>

definition shipped :: "string \<Rightarrow> 'v \<Rightarrow> ('v, 'e) Definition" where
  "shipped kind v = \<lparr>df_kind = kind, df_validate = \<lambda>_. None, df_normalize = None, df_seed = v, df_shipped = True\<rparr>"

lemma seededValue_shipped [simp]: "seededValue (shipped kind v) = Inr v" "df_kind (shipped kind v) = kind" "df_shipped (shipped kind v)"
  by (simp_all add: seededValue_def Decode_def shipped_def)

text \<open>C39: a shipped document that comes back is not stored. A build ships a document, the next build ships another, and
  a third start of the first build finds the second document, which the seed wrote, and writes its own again: the
  request id is the one of the first revision, so the write is answered by that revision and changes nothing. The
  import reports version 1 while the store serves the other document at version 2.\<close>

theorem seed_rollback_lost:
  assumes "hash v1 \<noteq> hash v2" "checkResourceKey orgID kind"
  shows "\<exists>d1 d2. seedKind diff hash now orgID (shipped kind v1) no_documents = Inr (1, d1)
    \<and> seedKind diff hash now orgID (shipped kind v2) d1 = Inr (2, d2)
    \<and> seedKind diff hash now orgID (shipped kind v1) d2 = Inr (1, d2)
    \<and> map_option rr_value (q_ResourceByKind orgID kind d2) = Some v2 \<and> map_option rr_version (q_ResourceByKind orgID kind d2) = Some 2"
  using assms
  by (auto simp: seedKind_def write_seed_def PutResource_def read_resource_def q_ResourceByKind_def no_documents_def q_ResourceByRequest_def
      appendResourceRevision_def q_InsertResource_def q_UpdateResource_def q_InsertResourceHistory_def q_InsertResourceAudit_def
      resourceFromCurrent_def shippedValueIsStale_def seedWroteNewest_def ResourceHistory_def row_at_def revision_at_def
      replayedResource_def seedRequestID_def Let_def)

theorem seed_rollback_lost_witness:
  "\<exists>d1 d2. seedKind (\<lambda>_ _. []) (\<lambda>v. v) \<lparr>tm_ns = 1, tm_off = 0\<rparr> ''o'' (shipped ''w'' ''a'') no_documents = Inr (1, d1)
    \<and> seedKind (\<lambda>_ _. []) (\<lambda>v. v) \<lparr>tm_ns = 1, tm_off = 0\<rparr> ''o'' (shipped ''w'' ''b'') d1 = Inr (2, d2)
    \<and> seedKind (\<lambda>_ _. []) (\<lambda>v. v) \<lparr>tm_ns = 1, tm_off = 0\<rparr> ''o'' (shipped ''w'' ''a'') d2 = Inr (1, d2)"
  using seed_rollback_lost [of "\<lambda>v. v" "''a''" "''b''" "''o''" "''w''" "\<lambda>_ _. []" "\<lparr>tm_ns = 1, tm_off = 0\<rparr>"]
  by (auto simp: checkResourceKey_def)

end
