(* ===== verification/Schedule_Document_Spec.thy ===== *)
theory Schedule_Document_Spec
  imports Schedule_Document Cron_Spec Resource_Store_Spec "HOL-Library.Sublist"
begin

text \<open>
  What the schedules document guarantees: only jobs that validate are stored, and recording a run loses no concurrent
  edit. Where the next run cannot be computed the run is not recorded, and the job is delivered at every tick.
\<close>

section \<open>Stored jobs\<close>

text \<open>A stored job can be run: it has an id, a kind that is delivered, a pool there is and a schedule of one of the
  three forms; a message has a channel, a chat and a text; and the payload names no dangerous command.\<close>

definition schedule_ok :: "Schedule \<Rightarrow> bool" where
  "schedule_ok c \<longleftrightarrow> (sc_kind c = '''' \<or> sc_kind c = ''interval'') \<and> 0 < sc_interval c
     \<or> sc_kind c = ''cron'' \<and> cron_wf (sc_cron c) \<or> sc_kind c = ''once'' \<and> sc_at c \<noteq> None"

definition job_ok :: "JobSpec \<Rightarrow> bool" where
  "job_ok j \<longleftrightarrow> trim_space (jb_id j) \<noteq> '''' \<and> \<not> dangerousPayload (jb_text j) \<and> (jb_kind j = ''chat'' \<or> jb_kind j = ''workflow'')
     \<and> (jb_kind j = ''chat'' \<longrightarrow> tg_channel (jb_target j) \<noteq> '''' \<and> tg_chat (jb_target j) \<noteq> '''' \<and> trim_space (jb_text j) \<noteq> '''')
     \<and> jb_pool j \<in> {'''', ''parallel'', ''sequential''} \<and> schedule_ok (jb_schedule j)"

lemma ValidateSchedule_ok: "ValidateSchedule c = None \<longleftrightarrow> schedule_ok c"
proof -
  have "(case parseCronSpec e of Inl x \<Rightarrow> Some x | Inr _ \<Rightarrow> None) = None \<longleftrightarrow> cron_wf e" for e
    using parseCron_wf [of e] by (auto simp: parseCronSpec_def split: option.splits)
  then show ?thesis
    by (simp add: ValidateSchedule_def schedule_ok_def ScheduleInterval_def ScheduleCron_def ScheduleOnce_def)
qed

lemma validate_job_ok: "validate_job seen j = None \<Longrightarrow> job_ok j \<and> jb_id j \<notin> set seen"
  by (auto simp: validate_job_def RefuseDangerousJob_def job_ok_def ValidateSchedule_ok [symmetric] ValidatePool_def KindChat_def
      KindScheduledWorkflow_def PoolParallel_def PoolSequential_def split: if_splits option.splits)

lemma validate_from_ok:
  "validate_from seen jobs = None \<Longrightarrow> (\<forall>j \<in> set jobs. job_ok j) \<and> distinct (map jb_id jobs) \<and> set (map jb_id jobs) \<inter> set seen = {}"
proof (induction seen jobs rule: validate_from.induct)
  case (2 seen j js)
  then have "validate_job seen j = None" "validate_from (jb_id j # seen) js = None" by (auto split: option.splits)
  with 2 validate_job_ok [of seen j] show ?case by auto
qed simp

lemma schedule_ok_resolve: "schedule_ok (resolve s) = schedule_ok s" "sc_kind (resolve s) \<noteq> ''''"
  by (auto simp: schedule_ok_def resolve_def ScheduleInterval_def)

lemma normalize_job_keeps:
  assumes "normalize_job now j = Inr j'"
  shows "jb_id j' = jb_id j" "sc_kind (jb_schedule j') \<noteq> ''''" "jb_schedule j' = resolve (jb_schedule j)" "jb_pool j' = jb_pool j"
    "\<not> tm_zero (jb_next j) \<Longrightarrow> jb_next j' = jb_next j" "jb_target j' = jb_target j" "jb_text j' = jb_text j" "jb_kind j' = jb_kind j" "jb_last j' = jb_last j"
  using assms by (auto simp: normalize_job_def Let_def schedule_ok_resolve split: if_splits sum.splits)

lemma normalize_job_ok: "normalize_job now j = Inr j' \<Longrightarrow> job_ok j' = job_ok j"
  unfolding job_ok_def by (simp only: normalize_job_keeps schedule_ok_resolve)

lemma normalize_jobs_keeps:
  "normalize_jobs now jobs = Inr jobs' \<Longrightarrow> list_all2 (\<lambda>j j'. normalize_job now j = Inr j') jobs jobs'"
  by (induction now jobs arbitrary: jobs' rule: normalize_jobs.induct) (auto split: sum.splits)

definition document_ok :: "JobSpec list \<Rightarrow> bool" where
  "document_ok jobs \<longleftrightarrow> (\<forall>j \<in> set jobs. job_ok j \<and> sc_kind (jb_schedule j) \<noteq> '''') \<and> distinct (map jb_id jobs)"

lemma normalize_ids: "list_all2 (\<lambda>j j'. normalize_job now j = Inr j') jobs jobs' \<Longrightarrow> map jb_id jobs' = map jb_id jobs"
  by (induction rule: list_all2_induct) (auto simp: normalize_job_keeps)

lemma Decode_schedules:
  assumes "Decode (scheduleDefinition now) jobs = Inr jobs'"
  shows "document_ok jobs' \<and> list_all2 (\<lambda>j j'. normalize_job (tm_utc now) j = Inr j') jobs jobs'"
proof -
  from assms have v: "validate_from [] jobs = None" and n: "normalize_jobs (tm_utc now) jobs = Inr jobs'"
    by (auto simp: Decode_def scheduleDefinition_def validateSchedules_def normalizeSchedules_def split: option.splits)
  note k = normalize_jobs_keeps [OF n]
  have "job_ok j' \<and> sc_kind (jb_schedule j') \<noteq> ''''" if "j' \<in> set jobs'" for j'
  proof -
    from that obtain i where i: "i < length jobs'" "j' = jobs' ! i" by (auto simp: in_set_conv_nth)
    have "normalize_job (tm_utc now) (jobs ! i) = Inr j'" "jobs ! i \<in> set jobs"
      using list_all2_nthD2 [OF k i(1)] i list_all2_lengthD [OF k] by simp_all
    with validate_from_ok [OF v] normalize_job_keeps(2) normalize_job_ok show ?thesis by blast
  qed
  with validate_from_ok [OF v] normalize_ids [OF k] k show ?thesis by (simp add: document_ok_def)
qed

text \<open>Only documents that passed are stored.\<close>

definition schedules_ok :: "schedule_db \<Rightarrow> bool" where
  "schedules_ok d \<longleftrightarrow> resource_inv d \<and> (\<forall>orgID. \<forall>r \<in> set (ledger orgID SchedulesKind d). document_ok (rv_value r))"

lemma find_definition_schedules [simp]: "find_definition [scheduleDefinition now] SchedulesKind = Some (scheduleDefinition now)"
  by (simp add: find_definition_def scheduleDefinition_def)

lemma mapError_conflict [simp]: "mapError e = ErrVersionConflict \<longleftrightarrow> e = ErrResourceVersionConflict"
  by (auto simp: mapError_def split: resource_error.splits)

lemma ReplaceSchedules_put:
  assumes "ReplaceSchedules diff now orgID jobs expected actor src request d = Inr (r, d')"
  obtains jobs' w where "Decode (scheduleDefinition now) jobs = Inr jobs'" "PutResource diff now w d = Inr (r, d')" "rw_value w = jobs'"
    "rw_org w = orgID" "rw_kind w = SchedulesKind" "rw_request w = request" "rw_expected w = expected"
proof -
  from assms obtain jobs' where j: "Decode (scheduleDefinition now) jobs = Inr jobs'"
    by (auto simp: ReplaceSchedules_def Command_def split: if_splits sum.splits)
  with assms show ?thesis by (intro that) (auto simp: ReplaceSchedules_def Command_def split: if_splits sum.splits)
qed

lemma ledger_revisions: "revisions orgID kind d' = revisions orgID kind d @ x \<Longrightarrow> map rv_value (ledger orgID kind d') = map rv_value (ledger orgID kind d) @ map fst x"
proof -
  have "map fst (revisions orgID kind x) = map rv_value (ledger orgID kind x)" for x :: "'a resource_db" by (simp add: revisions_def comp_def)
  then show "revisions orgID kind d' = revisions orgID kind d @ x \<Longrightarrow> ?thesis" by (metis map_append)
qed

lemma put_spec_cases:
  "put_spec v request expected l = Some ((n, x), l') \<Longrightarrow> l' = l \<or> l' = l @ [(v, request)] \<and> n = int (length l) + 1 \<and> x = v"
  by (auto simp: put_spec_def split: option.splits if_splits)


text \<open>A write the register accepts is stored.\<close>

lemma ReplaceSchedules_lands:
  assumes "resource_inv d" "checkResourceKey orgID SchedulesKind" "Decode (scheduleDefinition now) jobs = Inr jobs'"
    "actor \<noteq> []" "src \<noteq> []" "request \<noteq> []" "put_spec jobs' request expected (revisions orgID SchedulesKind d) = Some (a, l)"
  obtains r d' where "ReplaceSchedules diff now orgID jobs expected actor src request d = Inr (r, d')"
    "revisions orgID SchedulesKind d' = l" "resource_inv d'"
proof -
  let ?w = "\<lparr>rw_org = orgID, rw_kind = SchedulesKind, rw_value = jobs', rw_actor = actor, rw_source = src, rw_request = request,
     rw_expected = expected, rw_at = tm_utc now\<rparr>"
  have "checkResourceKey (rw_org ?w) (rw_kind ?w)" using assms(2) by simp
  with documents.put_lands [of d ?w jobs' request expected a l diff now] assms(1,7) obtain r d' where
    "PutResource diff now ?w d = Inr (r, d')" "revisions orgID SchedulesKind d' = l" "resource_inv d'"
    by (auto simp: put_document_def split: sum.splits)
  with assms that [of r d'] show ?thesis by (simp add: ReplaceSchedules_def Command_def)
qed

lemma Schedules_revisions:
  assumes "resource_inv d" "checkResourceKey orgID SchedulesKind" "revisions orgID SchedulesKind d \<noteq> []"
  shows "Schedules orgID d = Inr (fst (last (revisions orgID SchedulesKind d)), int (length (revisions orgID SchedulesKind d)))"
  using assms resource_inv_ledger [OF assms(1), of orgID SchedulesKind]
  by (auto simp: Schedules_def read_resource_def resourceFromCurrent_def ledger_ok_def revisions_def last_map split: option.splits)

text \<open>A document with an hourly message.\<close>

definition some_time :: go_time where
  "some_time = \<lparr>tm_ns = 63840000000 * second, tm_off = 0\<rparr>"

definition hourly :: Schedule where
  "hourly = \<lparr>sc_kind = ''interval'', sc_interval = hour, sc_cron = [], sc_at = None, sc_start = \<lparr>tm_ns = 0, tm_off = 0\<rparr>\<rparr>"

definition hourly_job :: JobSpec where
  "hourly_job = \<lparr>jb_id = ''j'', jb_pool = [], jb_detail = [], jb_kind = ''chat'', jb_schedule = hourly,
     jb_target = \<lparr>tg_channel = ''c'', tg_chat = ''1''\<rparr>, jb_text = ''hi'', jb_next = some_time, jb_last = None,
     jb_created = some_time, jb_updated = some_time\<rparr>"

lemmas document_eval = Decode_def scheduleDefinition_def validateSchedules_def validate_job_def RefuseDangerousJob_def ValidatePool_def
  ValidateSchedule_def KindChat_def KindScheduledWorkflow_def ScheduleInterval_def ScheduleOnce_def ScheduleCron_def normalizeSchedules_def
  normalize_job_def resolve_def tm_zero_def tm_utc_def tm_add_def Let_def

lemma hi_safe: "\<not> dangerousPayload ''hi''"
  by code_simp

lemma visible_texts: "trim_space ''j'' = ''j''" "trim_space ''hi'' = ''hi''"
  by (rule trim_space_visible; simp add: ascii_visible_def byte_of_def)+

lemma hourly_decodes: "Decode (scheduleDefinition some_time) [hourly_job] = Inr [hourly_job]"
  by (simp add: document_eval hourly_job_def hourly_def some_time_def hi_safe visible_texts)

lemma schedules_key: "checkResourceKey ''o'' SchedulesKind"
  by (simp add: checkResourceKey_def SchedulesKind_def)

lemma no_revisions: "revisions orgID kind no_documents = []"
  by (simp add: revisions_def ledger_def no_documents_def)

lemma hourly_stored:
  obtains r d' where "ReplaceSchedules (\<lambda>_ _. []) some_time ''o'' [hourly_job] 0 ''a'' ''s'' ''q'' no_documents = Inr (r, d')"
    "revisions ''o'' SchedulesKind d' = [([hourly_job], ''q'')]" "resource_inv d'"
proof -
  have "put_spec [hourly_job] ''q'' 0 (revisions ''o'' SchedulesKind no_documents) = Some ((1, [hourly_job]), [([hourly_job], ''q'')])"
    by (simp add: put_spec_def no_revisions)
  from ReplaceSchedules_lands [OF no_documents_inv schedules_key hourly_decodes _ _ _ this, of "''a''" "''s''" "\<lambda>_ _. []"] that show ?thesis by auto
qed


section \<open>Recording a run\<close>

lemma Schedules_last:
  assumes "resource_inv d" "Schedules orgID d = Inr (jobs, version)"
  shows "revisions orgID SchedulesKind d \<noteq> []" "jobs = fst (last (revisions orgID SchedulesKind d))" "version = int (length (revisions orgID SchedulesKind d))"
proof -
  have "q_ResourceByKind orgID SchedulesKind d \<noteq> None" using assms(2) by (auto simp: Schedules_def read_resource_def split: if_splits sum.splits option.splits)
  then obtain row where row: "q_ResourceByKind orgID SchedulesKind d = Some row" by blast
  with assms(2) have "jobs = rr_value row" "version = rr_version row"
    by (auto simp: Schedules_def read_resource_def resourceFromCurrent_def split: if_splits)
  with row resource_inv_ledger [OF assms(1), of orgID SchedulesKind] show "revisions orgID SchedulesKind d \<noteq> []"
    "jobs = fst (last (revisions orgID SchedulesKind d))" "version = int (length (revisions orgID SchedulesKind d))"
    by (auto simp: ledger_ok_def revisions_def last_map)
qed

text \<open>Other writers append revisions of their own.\<close>

definition other_writer :: "string \<Rightarrow> string \<Rightarrow> (schedule_db \<Rightarrow> schedule_db) \<Rightarrow> bool" where
  "other_writer orgID request f \<longleftrightarrow> (\<forall>d. resource_inv d \<longrightarrow> resource_inv (f d) \<and>
     (\<exists>x. revisions orgID SchedulesKind (f d) = revisions orgID SchedulesKind d @ x \<and> request \<notin> snd ` set x))"

lemma other_writer_next:
  assumes "\<forall>f \<in> set others. other_writer orgID request f" "resource_inv d"
  obtains x where "resource_inv (case others of [] \<Rightarrow> d | f # _ \<Rightarrow> f d)"
    "revisions orgID SchedulesKind (case others of [] \<Rightarrow> d | f # _ \<Rightarrow> f d) = revisions orgID SchedulesKind d @ x" "request \<notin> snd ` set x"
proof (cases others)
  case Nil
  with assms(2) that [of "[]"] show ?thesis by simp
next
  case (Cons f fs)
  with assms that show ?thesis by (auto simp: other_writer_def)
qed

lemma mark_attempts_append:
  assumes "resource_inv d" "checkResourceKey orgID SchedulesKind" "\<forall>f \<in> set others. other_writer orgID (run_request i runAt) f"
    "run_request i runAt \<notin> snd ` set (revisions orgID SchedulesKind d)" "mark_attempts diff now orgID n others i runAt d = (None, d')"
  shows "\<exists>x jobs' jobs''. revisions orgID SchedulesKind d' = revisions orgID SchedulesKind d @ x @ [(jobs'', run_request i runAt)]
    \<and> advance i runAt (fst (last (revisions orgID SchedulesKind d @ x))) = Inr jobs' \<and> Decode (scheduleDefinition now) jobs' = Inr jobs''"
  using assms
proof (induction n arbitrary: others d)
  case (Suc n)
  let ?req = "run_request i runAt"
  obtain jobs version jobs' where s: "Schedules orgID d = Inr (jobs, version)" "advance i runAt jobs = Inr jobs'"
    using Suc.prems(5) by (auto split: sum.splits prod.splits)
  define d1 where "d1 = (case others of [] \<Rightarrow> d | f # _ \<Rightarrow> f d)"
  obtain x where x: "resource_inv d1" "revisions orgID SchedulesKind d1 = revisions orgID SchedulesKind d @ x" "?req \<notin> snd ` set x"
    using other_writer_next [OF Suc.prems(3,1)] unfolding d1_def by blast
  note L = Schedules_last [OF Suc.prems(1) s(1)]
  have fresh: "?req \<notin> snd ` set (revisions orgID SchedulesKind d1)" using x(2,3) Suc.prems(4) by auto
  show ?case
  proof (cases "ReplaceSchedules diff now orgID jobs' version ''system:scheduler'' ''scheduler'' ?req d1")
    case (Inr rd)
    then obtain r d2 where rd: "ReplaceSchedules diff now orgID jobs' version ''system:scheduler'' ''scheduler'' ?req d1 = Inr (r, d2)" by (cases rd) auto
    with Suc.prems(5) s have d2: "d' = d2" by (simp add: d1_def [symmetric] Let_def)
    obtain jobs'' w where w: "Decode (scheduleDefinition now) jobs' = Inr jobs''" "PutResource diff now w d1 = Inr (r, d2)" "rw_value w = jobs''"
      "rw_org w = orgID" "rw_kind w = SchedulesKind" "rw_request w = ?req" "rw_expected w = version" using ReplaceSchedules_put [OF rd] by metis
    have "version = int (length (revisions orgID SchedulesKind d1))" "revisions orgID SchedulesKind d2 = revisions orgID SchedulesKind d1 @ [(jobs'', ?req)]"
      using documents.put_fresh [OF _ _ put_document_eq [OF w(2)]] x(1) fresh w Suc.prems(2) by simp_all
    with L x(2) have "x = []" "revisions orgID SchedulesKind d2 = revisions orgID SchedulesKind d @ [(jobs'', ?req)]" by simp_all
    with d2 L(2) s(2) have "revisions orgID SchedulesKind d' = revisions orgID SchedulesKind d @ [] @ [(jobs'', ?req)]"
      "advance i runAt (fst (last (revisions orgID SchedulesKind d @ []))) = Inr jobs'" by simp_all
    with w(1) show ?thesis by blast
  next
    case (Inl e)
    with Suc.prems(5) s have e: "mark_attempts diff now orgID n (case others of [] \<Rightarrow> [] | _ # fs \<Rightarrow> fs) i runAt d1 = (None, d')"
      by (auto simp: d1_def [symmetric] Let_def split: if_splits)
    have "\<forall>f \<in> set (case others of [] \<Rightarrow> [] | _ # fs \<Rightarrow> fs). other_writer orgID ?req f" using Suc.prems(3) by (cases others) auto
    from Suc.IH [OF x(1) Suc.prems(2) this fresh e] x(2) show ?thesis by (metis append.assoc)
  qed
qed simp

text \<open>What a write does to a job it does not mean to change: the schedule is resolved, the time of the update is
  stamped, and a creation or next run that was never set is filled in.\<close>

definition restamped :: "go_time \<Rightarrow> JobSpec \<Rightarrow> JobSpec \<Rightarrow> bool" where
  "restamped now j j' \<longleftrightarrow> jb_id j' = jb_id j \<and> jb_pool j' = jb_pool j \<and> jb_detail j' = jb_detail j \<and> jb_kind j' = jb_kind j
     \<and> jb_target j' = jb_target j \<and> jb_text j' = jb_text j \<and> jb_last j' = jb_last j \<and> jb_schedule j' = resolve (jb_schedule j)
     \<and> jb_updated j' = tm_utc now \<and> (\<not> tm_zero (jb_created j) \<longrightarrow> jb_created j' = jb_created j)
     \<and> (\<not> tm_zero (jb_next j) \<longrightarrow> jb_next j' = jb_next j)"

text \<open>The document after a run: all jobs but the one that ran are kept, in their order; that one is removed if it
  was a one-shot and else has its last and next run.\<close>

definition run_recorded :: "go_time \<Rightarrow> string \<Rightarrow> go_time \<Rightarrow> JobSpec list \<Rightarrow> JobSpec list \<Rightarrow> bool" where
  "run_recorded now i runAt jobs written \<longleftrightarrow>
    (\<exists>before j after before' after'. jobs = before @ j # after \<and> jb_id j = i \<and> i \<notin> jb_id ` set before
       \<and> list_all2 (restamped now) before before' \<and> list_all2 (restamped now) after after'
       \<and> (if sc_kind (jb_schedule j) = ''once'' then written = before' @ after'
          else (\<exists>t j'. nextRun (jb_schedule j) runAt = Inr t \<and> written = before' @ j' # after'
            \<and> restamped now (j\<lparr>jb_last := Some (tm_utc runAt), jb_next := tm_utc t\<rparr>) j')))"

lemma normalize_restamped: "normalize_job (tm_utc now) j = Inr j' \<Longrightarrow> restamped now j j'"
  by (auto simp: normalize_job_def restamped_def Let_def split: if_splits sum.splits)

lemma resolve_once: "sc_kind (resolve c) = ScheduleOnce \<longleftrightarrow> sc_kind c = ''once''"
  by (simp add: resolve_def ScheduleInterval_def ScheduleOnce_def)

lemma advance_splits:
  "advance i runAt jobs = Inr jobs' \<Longrightarrow> \<exists>before j after. jobs = before @ j # after \<and> jb_id j = i \<and> i \<notin> jb_id ` set before
     \<and> (if sc_kind (jb_schedule j) = ''once'' then jobs' = before @ after
        else (\<exists>t. nextRun (jb_schedule j) runAt = Inr t \<and> jobs' = before @ j\<lparr>jb_last := Some (tm_utc runAt), jb_next := tm_utc t\<rparr> # after))"
proof (induction i runAt jobs arbitrary: jobs' rule: advance.induct)
  case (2 i runAt j js)
  show ?case
  proof (cases "jb_id j = i")
    case True
    then show ?thesis using 2(2) by (intro exI [of _ "[]"] exI [of _ j] exI [of _ js]) (auto simp: resolve_once split: if_splits sum.splits)
  next
    case False
    then obtain js' where a: "advance i runAt js = Inr js'" "jobs' = j # js'" using 2(2) by (auto split: sum.splits)
    from 2(1) [OF False a(1)] obtain before k after where "js = before @ k # after" "jb_id k = i" "i \<notin> jb_id ` set before"
      and out: "if sc_kind (jb_schedule k) = ''once'' then js' = before @ after
        else (\<exists>t. nextRun (jb_schedule k) runAt = Inr t \<and> js' = before @ k\<lparr>jb_last := Some (tm_utc runAt), jb_next := tm_utc t\<rparr> # after)" by blast
    then show ?thesis using False a(2)
      by (intro exI [of _ "j # before"] exI [of _ k] exI [of _ after]) (auto split: if_splits)
  qed
qed simp

lemma advance_recorded:
  assumes "advance i runAt jobs = Inr jobs'" "Decode (scheduleDefinition now) jobs' = Inr written"
  shows "run_recorded now i runAt jobs written"
proof -
  from advance_splits [OF assms(1)] obtain before j after where j: "jobs = before @ j # after" "jb_id j = i" "i \<notin> jb_id ` set before"
    and out: "if sc_kind (jb_schedule j) = ''once'' then jobs' = before @ after
        else (\<exists>t. nextRun (jb_schedule j) runAt = Inr t \<and> jobs' = before @ j\<lparr>jb_last := Some (tm_utc runAt), jb_next := tm_utc t\<rparr> # after)" by blast
  have all: "list_all2 (restamped now) jobs' written"
    using Decode_schedules [OF assms(2)] normalize_restamped by (auto elim: list_all2_mono)
  show ?thesis
  proof (cases "sc_kind (jb_schedule j) = ''once''")
    case True
    with out all obtain before' after' where "written = before' @ after'" "list_all2 (restamped now) before before'" "list_all2 (restamped now) after after'"
      by (auto simp: list_all2_append1)
    then show ?thesis using j True unfolding run_recorded_def
      by - (rule exI [of _ before], rule exI [of _ j], rule exI [of _ after], rule exI [of _ before'], rule exI [of _ after'], simp)
  next
    case False
    with out obtain t where t: "nextRun (jb_schedule j) runAt = Inr t" "jobs' = before @ j\<lparr>jb_last := Some (tm_utc runAt), jb_next := tm_utc t\<rparr> # after" by auto
    from all obtain before' j' after' where w: "written = before' @ j' # after'" "list_all2 (restamped now) before before'"
        "list_all2 (restamped now) after after'" "restamped now (j\<lparr>jb_last := Some (tm_utc runAt), jb_next := tm_utc t\<rparr>) j'"
      unfolding t(2) by (auto simp: list_all2_append1 list_all2_Cons1)
    show ?thesis unfolding run_recorded_def
      by (rule exI [of _ before], rule exI [of _ j], rule exI [of _ after], rule exI [of _ before'], rule exI [of _ after']) (use j w t(1) False in auto)
  qed
qed

text \<open>Replacing the schedules is such a writer, under any request of its own.\<close>

definition replaced :: "JobSpec list audit_diff \<Rightarrow> go_time \<Rightarrow> string \<Rightarrow> JobSpec list \<Rightarrow> int \<Rightarrow> string \<Rightarrow> string \<Rightarrow> string \<Rightarrow> schedule_db \<Rightarrow> schedule_db" where
  "replaced diff now orgID jobs expected actor src request d =
    (case ReplaceSchedules diff now orgID jobs expected actor src request d of Inr (_, d') \<Rightarrow> d' | Inl _ \<Rightarrow> d)"

lemma replaced_writer:
  assumes "checkResourceKey orgID SchedulesKind" "request \<noteq> request'"
  shows "other_writer orgID request' (replaced diff now orgID jobs expected actor src request)"
  unfolding other_writer_def
proof (intro allI impI)
  fix d :: schedule_db assume inv: "resource_inv d"
  let ?d = "replaced diff now orgID jobs expected actor src request d"
  show "resource_inv ?d \<and> (\<exists>x. revisions orgID SchedulesKind ?d = revisions orgID SchedulesKind d @ x \<and> request' \<notin> snd ` set x)"
  proof (cases "ReplaceSchedules diff now orgID jobs expected actor src request d")
    case (Inl e)
    then have "?d = d" by (simp add: replaced_def)
    then show ?thesis using inv by (intro conjI exI [of _ "[]"]) simp_all
  next
    case (Inr rd)
    obtain r d' where rd: "rd = (r, d')" by fastforce
    then have d': "?d = d'" using Inr by (simp add: replaced_def)
    obtain jobs' w where w: "PutResource diff now w d = Inr (r, d')" "rw_value w = jobs'" "rw_org w = orgID" "rw_kind w = SchedulesKind" "rw_request w = request"
      using ReplaceSchedules_put Inr rd by metis
    have R: "put_spec jobs' request (rw_expected w) (revisions orgID SchedulesKind d) = Some ((rv_version r, rv_value r), revisions orgID SchedulesKind d')"
      "resource_inv d'"
      using PutResource_register [OF inv, of w diff now] w assms(1) by simp_all
    from put_spec_cases [OF R(1)] show ?thesis unfolding d'
    proof
      assume "revisions orgID SchedulesKind d' = revisions orgID SchedulesKind d"
      then show "resource_inv d' \<and> (\<exists>x. revisions orgID SchedulesKind d' = revisions orgID SchedulesKind d @ x \<and> request' \<notin> snd ` set x)"
        using R(2) by (intro conjI exI [of _ "[]"]) simp_all
    next
      assume "revisions orgID SchedulesKind d' = revisions orgID SchedulesKind d @ [(jobs', request)] \<and> rv_version r = int (length (revisions orgID SchedulesKind d)) + 1 \<and> rv_value r = jobs'"
      then show "resource_inv d' \<and> (\<exists>x. revisions orgID SchedulesKind d' = revisions orgID SchedulesKind d @ x \<and> request' \<notin> snd ` set x)"
        using R(2) assms(2) by (intro conjI exI [of _ "[(jobs', request)]"]) simp_all
    qed
  qed
qed

text \<open>C19: recording a run loses no edit. Whatever other writers do between the read and the write of each attempt, each
  writer appending revisions under requests of its own, a run that is recorded is the next revision after the
  newest document there is, and every revision of the others stays in the ledger. In it every other job of that
  newest document is kept, in its order, with only the stamps of a write; the job that ran is removed if it is a
  one-shot, and else carries the run and the next one.\<close>

theorem MarkRun_keeps_edits:
  assumes "resource_inv d" "checkResourceKey orgID SchedulesKind" "\<forall>f \<in> set others. other_writer orgID (run_request i runAt) f"
    "run_request i runAt \<notin> snd ` set (revisions orgID SchedulesKind d)" "MarkRun diff now orgID others i runAt d = (None, d')"
  shows "\<exists>x written. revisions orgID SchedulesKind d' = revisions orgID SchedulesKind d @ x @ [(written, run_request i runAt)]
    \<and> run_recorded now i runAt (fst (last (revisions orgID SchedulesKind d @ x))) written"
  using mark_attempts_append [OF assms(1-4)] assms(5) advance_recorded unfolding MarkRun_def by blast

text \<open>The operator adds a second job while the run of the first is being recorded.\<close>

definition second_job :: JobSpec where "second_job = hourly_job\<lparr>jb_id := ''k''\<rparr>"

definition hourly_ran :: JobSpec where
  "hourly_ran = hourly_job\<lparr>jb_last := Some some_time, jb_next := \<lparr>tm_ns = 63840000000 * second + hour, tm_off = 0\<rparr>\<rparr>"

lemma k_visible: "trim_space ''k'' = ''k''"
  by (rule trim_space_visible; simp add: ascii_visible_def byte_of_def)+

lemma hourly_advances:
  "advance ''j'' some_time [hourly_job] = Inr [hourly_ran]"
  "advance ''j'' some_time [hourly_job, second_job] = Inr [hourly_ran, second_job]"
  "Decode (scheduleDefinition some_time) [hourly_ran] = Inr [hourly_ran]"
  "Decode (scheduleDefinition some_time) [hourly_job, second_job] = Inr [hourly_job, second_job]"
  "Decode (scheduleDefinition some_time) [hourly_ran, second_job] = Inr [hourly_ran, second_job]"
  by (simp_all add: hourly_ran_def second_job_def hourly_job_def hourly_def some_time_def resolve_def ScheduleOnce_def ScheduleInterval_def nextRun_def
      tm_add_def tm_utc_def) (simp_all add: document_eval hi_safe visible_texts k_visible)

lemma ReplaceSchedules_conflict:
  assumes "resource_inv d" "checkResourceKey orgID SchedulesKind" "Decode (scheduleDefinition now) jobs = Inr jobs'"
    "actor \<noteq> []" "src \<noteq> []" "request \<noteq> []" "put_spec jobs' request expected (revisions orgID SchedulesKind d) = None"
  shows "ReplaceSchedules diff now orgID jobs expected actor src request d = Inl ErrVersionConflict"
proof -
  let ?w = "\<lparr>rw_org = orgID, rw_kind = SchedulesKind, rw_value = jobs', rw_actor = actor, rw_source = src, rw_request = request,
     rw_expected = expected, rw_at = tm_utc now\<rparr>"
  have "PutResource diff now ?w d = Inl ErrResourceVersionConflict"
    using PutResource_register [OF assms(1), of ?w diff now] assms(2,7) by (auto split: sum.splits prod.splits)
  then show ?thesis using assms(3-6) by (simp add: ReplaceSchedules_def Command_def mapError_def)
qed

theorem MarkRun_keeps_edits_witness:
  "\<exists>d d'. revisions ''o'' SchedulesKind d = [([hourly_job], ''q'')]
    \<and> MarkRun (\<lambda>_ _. []) some_time ''o'' [replaced (\<lambda>_ _. []) some_time ''o'' [hourly_job, second_job] 1 ''a'' ''s'' ''e''] ''j'' some_time d = (None, d')
    \<and> (\<exists>x written. revisions ''o'' SchedulesKind d' = revisions ''o'' SchedulesKind d @ x @ [(written, run_request ''j'' some_time)]
      \<and> run_recorded some_time ''j'' some_time (fst (last (revisions ''o'' SchedulesKind d @ x))) written)
    \<and> fst (last (revisions ''o'' SchedulesKind d')) = [hourly_ran, second_job]"
proof -
  let ?q = "run_request ''j'' some_time" and ?edit = "replaced (\<lambda>_ _. []) some_time ''o'' [hourly_job, second_job] 1 ''a'' ''s'' ''e''"
  let ?l = "[([hourly_job], ''q''), ([hourly_job, second_job], ''e'')]"
  obtain d where d: "revisions ''o'' SchedulesKind d = [([hourly_job], ''q'')]" "resource_inv d" using hourly_stored by metis
  have q: "?q \<noteq> ''q''" "?q \<noteq> []" "?q \<noteq> ''e''" by (simp_all add: run_request_def)
  have s: "Schedules ''o'' d = Inr ([hourly_job], 1)" using Schedules_revisions [OF d(2) schedules_key] d(1) by simp
  have "put_spec [hourly_job, second_job] ''e'' 1 (revisions ''o'' SchedulesKind d) = Some ((2, [hourly_job, second_job]), ?l)"
    using d(1) by (simp add: put_spec_def)
  then obtain r1 d1 where d1: "ReplaceSchedules (\<lambda>_ _. []) some_time ''o'' [hourly_job, second_job] 1 ''a'' ''s'' ''e'' d = Inr (r1, d1)"
    "revisions ''o'' SchedulesKind d1 = ?l" "resource_inv d1"
    using ReplaceSchedules_lands [OF d(2) schedules_key hourly_advances(4)] by (metis list.distinct(1))
  have s1: "Schedules ''o'' d1 = Inr ([hourly_job, second_job], 2)" using Schedules_revisions [OF d1(3) schedules_key] d1(2) by simp
  have lost: "ReplaceSchedules (\<lambda>_ _. []) some_time ''o'' [hourly_ran] 1 ''system:scheduler'' ''scheduler'' ?q d1 = Inl ErrVersionConflict"
    by (rule ReplaceSchedules_conflict [OF d1(3) schedules_key hourly_advances(3)]) (use q d1(2) in \<open>simp_all add: put_spec_def\<close>)
  have "put_spec [hourly_ran, second_job] ?q 2 (revisions ''o'' SchedulesKind d1) = Some ((3, [hourly_ran, second_job]), ?l @ [([hourly_ran, second_job], ?q)])"
    using d1(2) q by (simp add: put_spec_def)
  then obtain r2 d2 where d2: "ReplaceSchedules (\<lambda>_ _. []) some_time ''o'' [hourly_ran, second_job] 2 ''system:scheduler'' ''scheduler'' ?q d1 = Inr (r2, d2)"
    "revisions ''o'' SchedulesKind d2 = ?l @ [([hourly_ran, second_job], ?q)]"
    using ReplaceSchedules_lands [OF d1(3) schedules_key hourly_advances(5) _ _ q(2)] by (metis list.distinct(1))
  have e: "?edit d = d1" by (simp add: replaced_def d1(1))
  have m: "MarkRun (\<lambda>_ _. []) some_time ''o'' [?edit] ''j'' some_time d = (None, d2)"
    using s s1 hourly_advances(1,2) lost d2(1) by (simp add: MarkRun_def numeral_eq_Suc e)
  have fresh: "?q \<notin> snd ` set (revisions ''o'' SchedulesKind d)" using d(1) q(1) by simp
  have w: "\<forall>f \<in> set [?edit]. other_writer ''o'' ?q f" using replaced_writer [OF schedules_key, of "''e''" ?q] q(3) by simp
  have last: "fst (last (revisions ''o'' SchedulesKind d2)) = [hourly_ran, second_job]" using d2(2) by simp
  from MarkRun_keeps_edits [OF d(2) schedules_key w fresh m] d(1) m last show ?thesis by blast
qed

section \<open>A run that cannot be recorded\<close>

lemma advance_fails:
  "find (\<lambda>j. jb_id j = i) jobs = Some spec \<Longrightarrow> sc_kind (resolve (jb_schedule spec)) \<noteq> ScheduleOnce \<Longrightarrow> nextRun (jb_schedule spec) runAt = Inl e \<Longrightarrow>
   advance i runAt jobs = Inl (MarkSchedule e)"
  by (induction jobs) (auto split: if_splits)

lemma MarkRun_fails:
  "Schedules orgID d = Inr (jobs, version) \<Longrightarrow> advance i runAt jobs = Inl e \<Longrightarrow> MarkRun diff now orgID others i runAt d = (Some e, d)"
  by (simp add: MarkRun_def numeral_eq_Suc)

text \<open>A job whose kind has no runner is refused without an error and stays due.\<close>

lemma refused_job_succeeds:
  assumes "Schedules (dc_org cf) (dv_db w) = Inr (jobs, version)" "find (\<lambda>j. jb_id j = job_id job) jobs = Some spec"
    "jb_kind spec = KindScheduledWorkflow" "\<not> dc_workflows cf"
  shows "router_Run cf False now others job w = (None, w\<lparr>dv_refused := dv_refused w @ [(job_id job, KindScheduledWorkflow)]\<rparr>)"
  using assms by (simp add: router_Run_def hydrate_def get_job_def KindScheduledWorkflow_def KindChat_def)

definition nine_daily :: "JobSpec \<Rightarrow> bool" where
  "nine_daily j \<longleftrightarrow> jb_kind j = KindChat \<and> sc_kind (jb_schedule j) = ScheduleCron \<and> sc_cron (jb_schedule j) = ''0 9 * * *''"

lemma nine_daily_next:
  assumes "nine_daily j" "parseCron ''0 9 * * *'' = Some c" "tm_off t = 19800" "\<not> due c (tm_add (tm_truncate t minute) minute)"
  shows "nextRun (jb_schedule j) t = Inl ErrInvalidSpec" "sc_kind (resolve (jb_schedule j)) \<noteq> ScheduleOnce"
  using assms half_hour_zone_scan [OF assms(2-4)]
  by (auto simp: nine_daily_def nextRun_def resolve_def ScheduleCron_def ScheduleInterval_def ScheduleOnce_def parseCronSpec_def)

text \<open>The deliveries of a job at the given times.\<close>

definition deliveries :: "delivery_config \<Rightarrow> Job \<Rightarrow> go_time list \<Rightarrow> delivery_world \<Rightarrow> delivery_world" where
  "deliveries cf job ts w = fold (\<lambda>t w. snd (router_Run cf False t [] job w)) ts w"

lemma nine_daily_run:
  assumes "Schedules (dc_org cf) (dv_db w) = Inr (jobs, version)" "find (\<lambda>j. jb_id j = job_id job) jobs = Some spec" "nine_daily spec"
    "dc_courier cf (jb_target spec) (jb_text spec)" "parseCron ''0 9 * * *'' = Some c" "tm_off t = 19800"
    "\<not> due c (tm_add (tm_truncate t minute) minute)"
  shows "router_Run cf False t others job w =
    (Some (RecordFailed (MarkSchedule ErrInvalidSpec)), w\<lparr>dv_messages := dv_messages w @ [(jb_target spec, jb_text spec)]\<rparr>)"
proof -
  note N = nine_daily_next [OF assms(3,5-7)]
  have "advance (job_id job) t jobs = Inl (MarkSchedule ErrInvalidSpec)" by (rule advance_fails [OF assms(2) N(2,1)])
  from MarkRun_fails [OF assms(1) this] assms show ?thesis
    by (simp add: router_Run_def hydrate_def get_job_def chat_Run_def recordRun_def nine_daily_def KindChat_def)
qed

text \<open>In a zone half an hour off a daily message is sent at every tick. A chat job with the schedule \<open>0 9 * * *\<close> that is
  delivered in a zone of +05:30 has no computable next run, so the run is not recorded: the document stays as it
  was, the job is due at every later time, and every tick sends the message again.\<close>

theorem daily_message_repeats:
  assumes "Schedules (dc_org cf) (dv_db w) = Inr (jobs, version)" "find (\<lambda>j. jb_id j = job_id job) jobs = Some spec" "nine_daily spec"
    "dc_courier cf (jb_target spec) (jb_text spec)" "parseCron ''0 9 * * *'' = Some c"
    "\<forall>t \<in> set ts. tm_off t = 19800 \<and> \<not> due c (tm_add (tm_truncate t minute) minute)"
  shows "deliveries cf job ts w = w\<lparr>dv_messages := dv_messages w @ replicate (length ts) (jb_target spec, jb_text spec)\<rparr>
    \<and> (\<forall>now. tm_ns (jb_next spec) \<le> tm_ns now \<longrightarrow> (\<exists>due_jobs. Due (dc_org cf) now (dv_db (deliveries cf job ts w)) = Inr due_jobs
        \<and> job_id job \<in> job_id ` set due_jobs))"
proof -
  have d: "deliveries cf job ts w = w\<lparr>dv_messages := dv_messages w @ replicate (length ts) (jb_target spec, jb_text spec)\<rparr>"
    using assms(1,6)
  proof (induction ts arbitrary: w)
    case (Cons t ts)
    let ?w = "w\<lparr>dv_messages := dv_messages w @ [(jb_target spec, jb_text spec)]\<rparr>"
    have "router_Run cf False t [] job w = (Some (RecordFailed (MarkSchedule ErrInvalidSpec)), ?w)"
      by (rule nine_daily_run [OF Cons.prems(1) assms(2-5)]) (use Cons.prems in simp_all)
    with Cons.IH [of ?w] Cons.prems show ?case by (simp add: deliveries_def)
  qed (simp add: deliveries_def)
  have "spec \<in> set jobs" "jb_id spec = job_id job" using assms(2) by (auto simp: find_Some_iff)
  then show ?thesis using d assms(1) by (auto simp: Due_def image_iff)
qed

definition nine_job :: JobSpec where
  "nine_job = hourly_job\<lparr>jb_schedule := hourly\<lparr>sc_kind := ''cron'', sc_cron := ''0 9 * * *''\<rparr>\<rparr>"

definition nine_world :: delivery_world where
  "nine_world = \<lparr>dv_db = \<lparr>rd_rows = [\<lparr>rr_org = ''o'', rr_kind = ''schedules'', rr_value = [nine_job], rr_version = 1, rr_updated = some_time\<rparr>],
     rd_history = [], rd_audit = []\<rparr>, dv_messages = [], dv_tasks = [], dv_refused = []\<rparr>"

definition always :: delivery_config where
  "always = \<lparr>dc_diff = \<lambda>_ _. [], dc_org = ''o'', dc_workflows = False, dc_courier = \<lambda>_ _. True, dc_submit = \<lambda>_ _. True\<rparr>"

theorem daily_message_repeats_witness:
  "dv_messages (deliveries always \<lparr>job_id = ''j'', job_pool = [], job_detail = []\<rparr> [Date 2024 1 1 19800, Date 2024 1 2 19800] nine_world) =
   [(jb_target nine_job, ''hi''), (jb_target nine_job, ''hi'')]"
proof -
  obtain c where c: "parseCron ''0 9 * * *'' = Some c" using daily_parses(1) by blast
  have t: "\<forall>t \<in> set [Date 2024 1 1 19800, Date 2024 1 2 19800]. tm_off t = 19800 \<and> \<not> due c (tm_add (tm_truncate t minute) minute)"
    by (simp add: daily_slots [OF c] tm_hour_def tm_minute_def local_ns_def tm_add_def tm_truncate_def Date_def date_days_def month_start_def year_start_def)
  have s: "Schedules (dc_org always) (dv_db nine_world) = Inr ([nine_job], 1)"
    using schedules_key by (simp add: Schedules_def read_resource_def q_ResourceByKind_def row_at_def resourceFromCurrent_def nine_world_def always_def SchedulesKind_def)
  have f: "find (\<lambda>j. jb_id j = job_id \<lparr>job_id = ''j'', job_pool = [], job_detail = []\<rparr>) [nine_job] = Some nine_job"
    by (simp add: nine_job_def hourly_job_def)
  have n: "nine_daily nine_job" by (simp add: nine_daily_def nine_job_def hourly_job_def hourly_def KindChat_def ScheduleCron_def)
  have "dc_courier always (jb_target nine_job) (jb_text nine_job)" by (simp add: always_def)
  from daily_message_repeats [OF s f n this c t] show ?thesis by (simp add: nine_world_def nine_job_def hourly_job_def)
qed

end
