(* ===== verification/Schedule_Engine.thy ===== *)
theory Schedule_Engine
  imports Schedule_Document "HOL-Library.Multiset"
begin

text \<open>
  The ticker engine (\<open>domain/scheduling/ticker.go\<close>): what is due is dispatched to a sequential worker with a bounded
  queue or to parallel goroutines under a limit, and a job that is queued or running is not dispatched again. The
  mutex and the channels make each step atomic; the goroutines are a step relation. The theorems show that a job
  never overlaps itself in any interleaving.
\<close>

section \<open>Configuration\<close>

record EngineConfig =
  ec_interval :: int
  ec_maxParallel :: int
  ec_jobTimeout :: int

definition DefaultEngineConfig :: EngineConfig where
  "DefaultEngineConfig = \<lparr>ec_interval = minute, ec_maxParallel = 4, ec_jobTimeout = hour\<rparr>"

definition ValidateConfig :: "EngineConfig \<Rightarrow> bool" where
  "ValidateConfig c \<longleftrightarrow> \<not> ec_interval c < 0 \<and> \<not> ec_maxParallel c < 0 \<and> \<not> ec_jobTimeout c < 0"

definition withDefaults :: "EngineConfig \<Rightarrow> EngineConfig" where
  "withDefaults c =
    \<lparr>ec_interval = if ec_interval c = 0 then ec_interval DefaultEngineConfig else ec_interval c,
     ec_maxParallel = if ec_maxParallel c = 0 then ec_maxParallel DefaultEngineConfig else ec_maxParallel c,
     ec_jobTimeout = if ec_jobTimeout c = 0 then ec_jobTimeout DefaultEngineConfig else ec_jobTimeout c\<rparr>"

definition sequentialQueueDepth :: nat where
  "sequentialQueueDepth = 256"

section \<open>State\<close>

text \<open>A parallel run waits for a slot, runs, and has given its slot back but is not yet released.\<close>

datatype engine_event = KindJobRun string | JobErrorSource | JobErrorDispatch string | JobErrorRun string

record Engine_state =
  en_cfg :: EngineConfig
  en_queue :: "Job list"
  en_active :: "string list"
  en_waiting :: "Job list"
  en_running :: "Job list"
  en_ending :: "Job list"
  en_worker :: "Job option"
  en_started :: bool
  en_stopped :: bool
  en_cancelled :: bool
  en_ticking :: bool
  en_working :: bool
  en_events :: "engine_event list"

definition NewEngine :: "bool \<Rightarrow> bool \<Rightarrow> EngineConfig \<Rightarrow> Engine_state option" where
  "NewEngine hasSource hasRunner cfg =
    (if \<not> hasSource \<or> \<not> hasRunner \<or> \<not> ValidateConfig cfg then None
     else Some \<lparr>en_cfg = withDefaults cfg, en_queue = [], en_active = [], en_waiting = [], en_running = [], en_ending = [], en_worker = None,
       en_started = False, en_stopped = False, en_cancelled = False, en_ticking = False, en_working = False, en_events = []\<rparr>)"

definition start_engine :: "Engine_state \<Rightarrow> Engine_state option" where
  "start_engine e = (if en_stopped e \<or> en_started e then None else Some (e\<lparr>en_started := True, en_ticking := True, en_working := True\<rparr>))"

text \<open>\<open>Stop\<close> cancels the context of the loops; a second stop, and the stop of an engine that was not started, does
  nothing.\<close>

definition stop_engine :: "Engine_state \<Rightarrow> Engine_state" where
  "stop_engine e = (if \<not> en_started e then e else e\<lparr>en_started := False, en_stopped := True\<rparr>)"

definition claim :: "string \<Rightarrow> Engine_state \<Rightarrow> bool \<times> Engine_state" where
  "claim i e = (if i \<in> set (en_active e) then (False, e) else (True, e\<lparr>en_active := i # en_active e\<rparr>))"

definition release :: "string \<Rightarrow> Engine_state \<Rightarrow> Engine_state" where
  "release i e = e\<lparr>en_active := filter (\<lambda>x. x \<noteq> i) (en_active e)\<rparr>"

definition emit_event :: "engine_event \<Rightarrow> Engine_state \<Rightarrow> Engine_state" where
  "emit_event ev e = e\<lparr>en_events := en_events e @ [ev]\<rparr>"

definition dispatch_job :: "Job \<Rightarrow> Engine_state \<Rightarrow> Engine_state" where
  "dispatch_job job e =
    (if \<not> ValidateJob job then emit_event (JobErrorDispatch (job_id job)) e
     else (case claim (job_id job) e of
         (False, e1) \<Rightarrow> e1
       | (True, e1) \<Rightarrow>
           if resolve_pool (job_pool job) = PoolParallel then e1\<lparr>en_waiting := en_waiting e1 @ [job]\<rparr>
           else if length (en_queue e1) < sequentialQueueDepth then e1\<lparr>en_queue := en_queue e1 @ [job]\<rparr>
           else emit_event (JobErrorDispatch (job_id job)) (release (job_id job) e1)))"

text \<open>The outcome of a run as the event it leaves: an error, a panic and a timeout are errors.\<close>

definition run_event :: "bool \<Rightarrow> Job \<Rightarrow> engine_event" where
  "run_event ok job = (if ok then KindJobRun (job_id job) else JobErrorRun (job_id job))"

definition drop_nth :: "nat \<Rightarrow> 'a list \<Rightarrow> 'a list" where
  "drop_nth i xs = take i xs @ drop (Suc i) xs"

section \<open>Steps\<close>

text \<open>The context of the loops descends from the one \<open>Start\<close> was given: it is done once the engine is stopped or
  that context is cancelled, which may happen at any time.\<close>

definition loop_done :: "Engine_state \<Rightarrow> bool" where
  "loop_done e \<longleftrightarrow> en_stopped e \<or> en_started e \<and> en_cancelled e"

text \<open>A select that finds both its context done and a job ready may take either.\<close>

inductive engine_step :: "Engine_state \<Rightarrow> Engine_state \<Rightarrow> bool" where
  starts: "start_engine e = Some e' \<Longrightarrow> engine_step e e'"
| stops: "engine_step e (stop_engine e)"
| cancels: "engine_step e (e\<lparr>en_cancelled := True\<rparr>)"
| source_fails: "en_ticking e \<Longrightarrow> engine_step e (emit_event JobErrorSource e)"
| dispatches: "en_ticking e \<Longrightarrow> engine_step e (dispatch_job job e)"
| tick_ends: "en_ticking e \<Longrightarrow> loop_done e \<Longrightarrow> engine_step e (e\<lparr>en_ticking := False\<rparr>)"
| enters: "i < length (en_waiting e) \<Longrightarrow> int (length (en_running e)) < ec_maxParallel (en_cfg e) \<Longrightarrow>
    engine_step e (e\<lparr>en_waiting := drop_nth i (en_waiting e), en_running := en_running e @ [en_waiting e ! i]\<rparr>)"
| abandons: "i < length (en_waiting e) \<Longrightarrow> loop_done e \<Longrightarrow>
    engine_step e (release (job_id (en_waiting e ! i)) (e\<lparr>en_waiting := drop_nth i (en_waiting e)\<rparr>))"
| run_ends: "i < length (en_running e) \<Longrightarrow> engine_step e
    (emit_event (run_event ok (en_running e ! i)) (e\<lparr>en_running := drop_nth i (en_running e), en_ending := en_ending e @ [en_running e ! i]\<rparr>))"
| releases: "i < length (en_ending e) \<Longrightarrow> engine_step e (release (job_id (en_ending e ! i)) (e\<lparr>en_ending := drop_nth i (en_ending e)\<rparr>))"
| takes: "en_working e \<Longrightarrow> en_worker e = None \<Longrightarrow> en_queue e = job # jobs \<Longrightarrow> engine_step e (e\<lparr>en_queue := jobs, en_worker := Some job\<rparr>)"
| worker_ends: "en_worker e = Some job \<Longrightarrow> engine_step e
    (release (job_id job) (emit_event (run_event ok job) (e\<lparr>en_worker := None\<rparr>)))"
| work_ends: "en_working e \<Longrightarrow> en_worker e = None \<Longrightarrow> loop_done e \<Longrightarrow> engine_step e (e\<lparr>en_working := False\<rparr>)"

section \<open>No job overlaps itself\<close>

definition live_jobs :: "Engine_state \<Rightarrow> Job list" where
  "live_jobs e = en_queue e @ en_waiting e @ en_running e @ en_ending e @ (case en_worker e of None \<Rightarrow> [] | Some j \<Rightarrow> [j])"

abbreviation live_ids :: "Engine_state \<Rightarrow> string list" where
  "live_ids e \<equiv> map job_id (live_jobs e)"

definition engine_inv :: "Engine_state \<Rightarrow> bool" where
  "engine_inv e \<longleftrightarrow> distinct (live_ids e) \<and> set (live_ids e) = set (en_active e) \<and> int (length (en_running e)) \<le> ec_maxParallel (en_cfg e)
     \<and> length (en_queue e) \<le> sequentialQueueDepth \<and> 0 < ec_maxParallel (en_cfg e)"

lemma drop_nth_split: "i < length xs \<Longrightarrow> mset xs = add_mset (xs ! i) (mset (drop_nth i xs))"
proof -
  assume "i < length xs"
  then have "xs = take i xs @ xs ! i # drop (Suc i) xs" by (rule id_take_nth_drop)
  then have "mset xs = mset (take i xs @ xs ! i # drop (Suc i) xs)" by simp
  then show ?thesis by (simp add: drop_nth_def)
qed

lemma length_drop_nth: "i < length xs \<Longrightarrow> length (drop_nth i xs) = length xs - 1"
  by (simp add: drop_nth_def)

text \<open>The invariant only depends on the live jobs as a multiset.\<close>

lemma engine_inv_moved:
  assumes "engine_inv e" "mset (live_jobs e') = mset (live_jobs e)" "en_active e' = en_active e" "en_cfg e' = en_cfg e"
    "int (length (en_running e')) \<le> ec_maxParallel (en_cfg e)" "length (en_queue e') \<le> length (en_queue e)"
  shows "engine_inv e'"
proof -
  have "mset (live_ids e') = mset (live_ids e)" using assms(2) by simp
  then have "distinct (live_ids e') = distinct (live_ids e)" "set (live_ids e') = set (live_ids e)"
    by (metis mset_eq_imp_distinct_iff) (metis \<open>mset (live_ids e') = _\<close> mset_eq_setD)
  with assms show ?thesis by (simp add: engine_inv_def)
qed

lemma engine_inv_released:
  assumes "engine_inv e" "mset (live_jobs e) = add_mset job (mset (live_jobs e'))" "en_active e' = filter (\<lambda>x. x \<noteq> job_id job) (en_active e)"
    "en_cfg e' = en_cfg e" "length (en_running e') \<le> length (en_running e)" "length (en_queue e') \<le> length (en_queue e)"
  shows "engine_inv e'"
proof -
  have m: "mset (live_ids e) = mset (job_id job # live_ids e')" using assms(2) by simp
  have d: "distinct (job_id job # live_ids e')" using assms(1) m unfolding engine_inv_def by (metis mset_eq_imp_distinct_iff)
  have "set (live_ids e) = set (job_id job # live_ids e')" using m by (metis mset_eq_setD)
  moreover have "set (live_ids e) = set (en_active e)" using assms(1) by (simp add: engine_inv_def)
  ultimately have "set (en_active e) = insert (job_id job) (set (live_ids e'))" by simp
  moreover have "set (en_active e') = set (en_active e) - {job_id job}" unfolding assms(3) by auto
  moreover have "job_id job \<notin> set (live_ids e')" using d by simp
  ultimately have "set (live_ids e') = set (en_active e')" by (metis Diff_insert_absorb)
  with d have "distinct (live_ids e')" "set (live_ids e') = set (en_active e')" by simp_all
  with assms(1,4-6) show ?thesis by (simp add: engine_inv_def)
qed

lemma engine_inv_dispatch:
  assumes "engine_inv e" shows "engine_inv (dispatch_job job e)"
proof (cases "ValidateJob job \<and> job_id job \<notin> set (en_active e)")
  case True
  then have c: "claim (job_id job) e = (True, e\<lparr>en_active := job_id job # en_active e\<rparr>)" by (simp add: claim_def)
  have fresh: "job_id job \<notin> set (live_ids e)" using True assms unfolding engine_inv_def by blast
  have f: "filter (\<lambda>x. x \<noteq> job_id job) (en_active e) = en_active e" using True by (auto simp: filter_id_conv)
  consider "resolve_pool (job_pool job) = PoolParallel" | "resolve_pool (job_pool job) \<noteq> PoolParallel" "length (en_queue e) < sequentialQueueDepth"
    | "resolve_pool (job_pool job) \<noteq> PoolParallel" "\<not> length (en_queue e) < sequentialQueueDepth" by blast
  then show ?thesis
  proof cases
    case 1
    then show ?thesis using True c fresh assms by (auto simp: dispatch_job_def engine_inv_def live_jobs_def)
  next
    case 2
    then show ?thesis using True c fresh assms by (auto simp: dispatch_job_def engine_inv_def live_jobs_def)
  next
    case 3
    then show ?thesis using True c f assms by (simp add: dispatch_job_def engine_inv_def live_jobs_def release_def emit_event_def)
  qed
next
  case False
  then show ?thesis using assms by (auto simp: dispatch_job_def claim_def emit_event_def engine_inv_def live_jobs_def)
qed

lemma engine_inv_fields: "engine_inv e \<Longrightarrow> live_jobs e' = live_jobs e \<Longrightarrow> en_active e' = en_active e \<Longrightarrow> en_cfg e' = en_cfg e \<Longrightarrow>
    en_running e' = en_running e \<Longrightarrow> en_queue e' = en_queue e \<Longrightarrow> engine_inv e'"
  by (rule engine_inv_moved [of e]) (auto simp: engine_inv_def)

lemma engine_step_inv: "engine_step e e' \<Longrightarrow> engine_inv e \<Longrightarrow> engine_inv e'"
proof (induction rule: engine_step.induct)
  case (starts e e')
  then have e': "e' = e\<lparr>en_started := True, en_ticking := True, en_working := True\<rparr>" by (simp add: start_engine_def split: if_splits)
  show ?case unfolding e' by (rule engine_inv_fields [OF starts(2)]) (simp_all add: live_jobs_def)
next
  case (stops e)
  show ?case by (rule engine_inv_fields [OF stops]) (simp_all add: stop_engine_def live_jobs_def)
next
  case (dispatches e job)
  then show ?case using engine_inv_dispatch by blast
next
  case (enters i e)
  show ?case by (rule engine_inv_moved [OF enters(3)]) (use enters(2) in \<open>simp_all add: live_jobs_def drop_nth_split [OF enters(1)]\<close>)
next
  case (abandons i e)
  show ?case by (rule engine_inv_released [OF abandons(3)]) (simp_all add: live_jobs_def release_def drop_nth_split [OF abandons(1)])
next
  case (run_ends i e ok)
  have "int (length (drop_nth i (en_running e))) \<le> ec_maxParallel (en_cfg e)"
    using run_ends(2) length_drop_nth [OF run_ends(1)] unfolding engine_inv_def by linarith
  then show ?case by (intro engine_inv_moved [OF run_ends(2)]) (simp_all add: live_jobs_def emit_event_def drop_nth_split [OF run_ends(1)])
next
  case (releases i e)
  show ?case by (rule engine_inv_released [OF releases(2)]) (simp_all add: live_jobs_def release_def drop_nth_split [OF releases(1)])
next
  case (takes e job jobs)
  show ?case by (rule engine_inv_moved [OF takes(4)]) (use takes in \<open>simp_all add: live_jobs_def engine_inv_def\<close>)
next
  case (worker_ends e job ok)
  show ?case by (rule engine_inv_released [OF worker_ends(2)]) (use worker_ends(1) in \<open>simp_all add: live_jobs_def release_def emit_event_def\<close>)
qed (auto intro: engine_inv_fields simp: live_jobs_def emit_event_def)

lemma NewEngine_inv: "NewEngine hasSource hasRunner cfg = Some e \<Longrightarrow> engine_inv e \<and> en_cfg e = withDefaults cfg"
  by (auto simp: NewEngine_def engine_inv_def live_jobs_def withDefaults_def DefaultEngineConfig_def ValidateConfig_def split: if_splits)

lemma engine_reachable: "engine_step\<^sup>*\<^sup>* e0 e \<Longrightarrow> engine_inv e0 \<Longrightarrow> engine_inv e"
  by (induction rule: rtranclp_induct) (auto intro: engine_step_inv)

text \<open>C16: a job never overlaps itself. In every interleaving of ticks, runs, releases and a stop, the jobs that are queued,
  wait for a slot or run, in the sequential worker or in parallel, have different ids, the parallel runs stay within
  the configured limit, which is at least one, and the queue within its depth.\<close>

theorem engine_no_overlap:
  assumes "NewEngine hasSource hasRunner cfg = Some e0" "engine_step\<^sup>*\<^sup>* e0 e"
  shows "distinct (map job_id (en_queue e @ en_waiting e @ en_running e @ (case en_worker e of None \<Rightarrow> [] | Some j \<Rightarrow> [j])))
    \<and> int (length (en_running e)) \<le> ec_maxParallel (en_cfg e) \<and> 1 \<le> ec_maxParallel (en_cfg e) \<and> length (en_queue e) \<le> 256"
proof -
  have "engine_inv e" using engine_reachable [OF assms(2)] NewEngine_inv [OF assms(1)] by blast
  then show ?thesis by (auto simp: engine_inv_def live_jobs_def sequentialQueueDepth_def)
qed

definition two_jobs :: "Job list" where
  "two_jobs = [\<lparr>job_id = ''a'', job_pool = ''parallel'', job_detail = []\<rparr>, \<lparr>job_id = ''b'', job_pool = [], job_detail = []\<rparr>]"

theorem engine_no_overlap_witness:
  "\<exists>e0 e. NewEngine True True \<lparr>ec_interval = 0, ec_maxParallel = 0, ec_jobTimeout = 0\<rparr> = Some e0 \<and> engine_step\<^sup>*\<^sup>* e0 e
     \<and> map job_id (en_waiting e) = [''a''] \<and> map job_id (en_queue e) = [''b''] \<and> 1 \<le> ec_maxParallel (en_cfg e)"
proof -
  let ?cfg = "\<lparr>ec_interval = 0, ec_maxParallel = 0, ec_jobTimeout = 0\<rparr>"
  obtain e0 where n: "NewEngine True True ?cfg = Some e0" by (simp add: NewEngine_def ValidateConfig_def)
  then have e0: "en_queue e0 = []" "en_waiting e0 = []" "en_active e0 = []" "\<not> en_started e0" "\<not> en_stopped e0" by (auto simp: NewEngine_def split: if_splits)
  let ?e1 = "e0\<lparr>en_started := True, en_ticking := True, en_working := True\<rparr>"
  have "trim_space ''a'' = ''a''" "trim_space ''b'' = ''b''" by (rule trim_space_visible; simp add: ascii_visible_def byte_of_def)+
  then have v: "\<forall>j \<in> set two_jobs. ValidateJob j" by (simp add: two_jobs_def ValidateJob_def ValidatePool_def PoolParallel_def)
  define e2 where "e2 = dispatch_job (two_jobs ! 0) ?e1"
  define e3 where "e3 = dispatch_job (two_jobs ! 1) e2"
  have e2: "e2 = ?e1\<lparr>en_active := [''a''], en_waiting := [two_jobs ! 0]\<rparr>"
    using v e0 by (simp add: e2_def dispatch_job_def two_jobs_def claim_def resolve_pool_def PoolParallel_def)
  have e3: "e3 = e2\<lparr>en_active := [''b'', ''a''], en_queue := [two_jobs ! 1]\<rparr>"
    using v e0 unfolding e3_def e2 by (simp add: dispatch_job_def two_jobs_def claim_def resolve_pool_def PoolParallel_def PoolSequential_def sequentialQueueDepth_def)
  have "engine_step e0 ?e1" using e0 by (intro engine_step.starts) (simp add: start_engine_def)
  moreover have "engine_step ?e1 e2" unfolding e2_def by (rule engine_step.dispatches) simp
  moreover have "engine_step e2 e3" unfolding e3_def by (rule engine_step.dispatches) (simp add: e2)
  ultimately have r: "engine_step\<^sup>*\<^sup>* e0 e3" by (meson converse_rtranclp_into_rtranclp rtranclp.rtrancl_refl)
  from engine_no_overlap [OF n r] have m: "1 \<le> ec_maxParallel (en_cfg e3)" by blast
  have w: "map job_id (en_waiting e3) = [''a'']" "map job_id (en_queue e3) = [''b'']" by (simp_all add: e3 e2 two_jobs_def)
  show ?thesis by (intro exI conjI) (rule n, rule r, rule w(1), rule w(2), rule m)
qed

end
