(* ===== verification/Package_Descriptor.thy ===== *)
theory Package_Descriptor
  imports Go_Prelude "HOL-Library.Word"
begin

unbundle bit_operations_syntax

text \<open>
  Store packages (\<open>domain/storepkg\<close>: \<open>descriptor.go\<close>, \<open>authority.go\<close>, \<open>catalogue.go\<close>; \<open>infrastructure/storepkg/registry.go\<close>):
  the descriptor of a package with its contributions, requirements, authority and files, what \<open>Validate\<close> refuses, the
  order on authorities, the catalogue, and what a fetch from a registry checks of a manifest and its layer.

  \<^item> \<open>path.Clean\<close>, \<open>path.Ext\<close> and \<open>path.Base\<close> are the definitions \<open>path_clean\<close>, \<open>path_ext\<close> and \<open>path_base\<close>, on the
    segments between slashes.
  \<^item> File modes are 32 bit words; the octal masks \<open>0o100\<close>, \<open>0o111\<close> and \<open>0o777\<close> are 64, 73 and 511.
  \<^item> The YAML decoder, the JSON of an OCI manifest, SHA-256 and the tar and gzip readers are arguments;
    \<open>untar\<close> is also where a media type that is no layer is refused. The size limits of a transfer are left out.
\<close>

section \<open>Paths\<close>

text \<open>One segment, on the segments kept so far with the last one first.\<close>

definition clean_step :: "bool \<Rightarrow> string list \<Rightarrow> string \<Rightarrow> string list" where
  "clean_step rooted kept part =
    (if part = [] \<or> part = ''.'' then kept
     else if part \<noteq> ''..'' then part # kept
     else (case kept of
         [] \<Rightarrow> if rooted then [] else [''..'']
       | x # xs \<Rightarrow> if x = ''..'' then part # kept else xs))"

definition clean_parts :: "bool \<Rightarrow> string list \<Rightarrow> string \<Rightarrow> string list" where
  "clean_parts rooted kept s = foldl (clean_step rooted) kept (split_byte CHR ''/'' s)"

fun join_path :: "string list \<Rightarrow> string" where
  "join_path [] = []"
| "join_path [p] = p"
| "join_path (p # q # ps) = p @ CHR ''/'' # join_path (q # ps)"

definition path_is_abs :: "string \<Rightarrow> bool" where
  "path_is_abs s \<longleftrightarrow> has_prefix s ''/''"

definition path_clean :: "string \<Rightarrow> string" where
  "path_clean s =
    (let rooted = path_is_abs s; out = join_path (rev (clean_parts rooted [] s)) in
     if rooted then CHR ''/'' # out else if out = [] then ''.'' else out)"

definition path_ext :: "string \<Rightarrow> string" where
  "path_ext s = (let final = takeWhile (\<lambda>c. c \<noteq> CHR ''/'') (rev s) in
     if CHR ''.'' \<in> set final then CHR ''.'' # rev (takeWhile (\<lambda>c. c \<noteq> CHR ''.'') final) else [])"

definition path_base :: "string \<Rightarrow> string" where
  "path_base s =
    (if s = [] then ''.''
     else (let trimmed = dropWhile (\<lambda>c. c = CHR ''/'') (rev s) in
       if trimmed = [] then ''/'' else rev (takeWhile (\<lambda>c. c \<noteq> CHR ''/'') trimmed)))"

section \<open>Descriptors\<close>

definition APIVersion :: string where "APIVersion = ''dev.archie.package.v1''"

definition is_hex :: "char \<Rightarrow> bool" where
  "is_hex c \<longleftrightarrow> is_digit c \<or> 97 \<le> byte_of c \<and> byte_of c \<le> 102"

definition digestPattern :: "string \<Rightarrow> bool" where
  "digestPattern s \<longleftrightarrow> has_prefix s ''sha256:'' \<and> length s = 71 \<and> list_all is_hex (drop 7 s)"

record Extension =
  ex_surface :: string
  ex_path :: string

record Contributions =
  cb_workflows :: "string list"
  cb_prompts :: "string list"
  cb_skills :: "string list"
  cb_mcpServers :: "string list"
  cb_defaults :: "string list"
  cb_playbooks :: "string list"
  cb_profiles :: "string list"
  cb_extensions :: "Extension list"

record PackageRef =
  pr_name :: string
  pr_digest :: string

record Authority =
  au_credentials :: "string list"
  au_egress :: "string list"
  au_forge :: "string list"
  au_triggers :: "string list"
  au_tools :: "string list"
  au_env :: "string list"

record File =
  fl_path :: string
  fl_mode :: "32 word"

record Descriptor =
  ds_apiVersion :: string
  ds_displayName :: string
  ds_description :: string
  ds_version :: string
  ds_contributes :: Contributions
  ds_requires :: "PackageRef list"
  ds_authority :: Authority
  ds_files :: "File list"

datatype descriptor_error =
    BadAPIVersion | NoDisplayName | NoVersion | NoContribution
  | RequireNoName nat | RequireBadDigest string
  | BadForgePermission string | BlankGrant string nat
  | ExtensionSurface nat string | ExtensionUndeclared nat string | ExtensionNotExecutable nat string | ExtensionTwice nat string
  | FilePath nat | FileExecutable nat | FileHostCode nat
  | DescriptorYAML

section \<open>Authority\<close>

definition listCovers :: "string list \<Rightarrow> string list \<Rightarrow> bool" where
  "listCovers have want \<longleftrightarrow> list_all (\<lambda>grant. grant \<in> set have) want"

definition Covers :: "Authority \<Rightarrow> Authority \<Rightarrow> bool" where
  "Covers a b \<longleftrightarrow> listCovers (au_credentials a) (au_credentials b) \<and> listCovers (au_egress a) (au_egress b)
     \<and> listCovers (au_forge a) (au_forge b) \<and> listCovers (au_triggers a) (au_triggers b)
     \<and> listCovers (au_tools a) (au_tools b) \<and> listCovers (au_env a) (au_env b)"

definition no_authority :: Authority where
  "no_authority = \<lparr>au_credentials = [], au_egress = [], au_forge = [], au_triggers = [], au_tools = [], au_env = []\<rparr>"

definition validForgePermission :: "string \<Rightarrow> bool" where
  "validForgePermission permission \<longleftrightarrow> permission \<in> {''read'', ''comment'', ''review'', ''push'', ''open_pr''}"

definition check_grants :: "string \<Rightarrow> string list \<Rightarrow> descriptor_error option" where
  "check_grants name grants = first_error (\<lambda>(i, grant). guard_err (blank grant) (BlankGrant name i) None) (enumerate 0 grants)"

definition ValidateAuthority :: "Authority \<Rightarrow> descriptor_error option" where
  "ValidateAuthority a =
    seq_err (first_error (\<lambda>permission. guard_err (\<not> validForgePermission permission) (BadForgePermission permission) None) (au_forge a))
      (first_error (\<lambda>(name, grants). check_grants name grants)
        [(''credential service'', au_credentials a), (''egress host'', au_egress a), (''trigger'', au_triggers a),
         (''tool'', au_tools a), (''env var'', au_env a)])"

section \<open>Validation\<close>

definition validSurface :: "string \<Rightarrow> bool" where
  "validSurface surface \<longleftrightarrow> surface = ''secretengine'' \<or> surface = ''forge'' \<or> surface = ''channel''"

definition hasContribution :: "Descriptor \<Rightarrow> bool" where
  "hasContribution d = (let c = ds_contributes d in
     length (cb_workflows c) + length (cb_prompts c) + length (cb_skills c) + length (cb_mcpServers c) + length (cb_defaults c)
     + length (cb_playbooks c) + length (cb_profiles c) + length (cb_extensions c) > 0)"

text \<open>The modes by path: a path listed twice keeps the last mode.\<close>

definition file_modes :: "File list \<Rightarrow> (string \<times> 32 word) list" where
  "file_modes files = fold (\<lambda>f m. map_put (fl_path f) (fl_mode f) m) files []"

fun extension_paths :: "(string \<times> 32 word) list \<Rightarrow> nat \<Rightarrow> Extension list \<Rightarrow> string list \<Rightarrow> descriptor_error + string list" where
  "extension_paths modes i [] paths = Inr paths"
| "extension_paths modes i (e # es) paths =
    (if \<not> validSurface (ex_surface e) then Inl (ExtensionSurface i (ex_surface e))
     else (case map_of modes (ex_path e) of
         None \<Rightarrow> Inl (ExtensionUndeclared i (ex_path e))
       | Some mode \<Rightarrow>
           if mode AND 64 = 0 then Inl (ExtensionNotExecutable i (ex_path e))
           else if ex_path e \<in> set paths then Inl (ExtensionTwice i (ex_path e))
           else extension_paths modes (Suc i) es (ex_path e # paths)))"

definition validateExtensions :: "Descriptor \<Rightarrow> descriptor_error + string list" where
  "validateExtensions d = extension_paths (file_modes (ds_files d)) 0 (cb_extensions (ds_contributes d)) []"

definition host_code_extensions :: "string list" where
  "host_code_extensions = [''.go'', ''.sh'', ''.bash'', ''.zsh'', ''.fish'', ''.ksh'', ''.csh'', ''.py'', ''.pyw'', ''.rb'', ''.pl'',
     ''.pm'', ''.php'', ''.lua'', ''.tcl'', ''.r'', ''.js'', ''.mjs'', ''.cjs'', ''.ts'', ''.bat'', ''.cmd'', ''.ps1'']"

text \<open>\<open>strings.ToLower\<close> as far as it can give one of these texts: besides the letters of ASCII the Kelvin sign has the
  lower case \<open>k\<close> and the capital i with a dot the lower case \<open>i\<close>; every other character outside ASCII stays outside.\<close>

fun lower_to_ascii :: "string \<Rightarrow> string" where
  "lower_to_ascii [] = []"
| "lower_to_ascii (c # s) =
    (if has_prefix (c # s) [CHR 0xE2, CHR 0x84, CHR 0xAA] then CHR ''k'' # lower_to_ascii (drop 2 s)
     else if has_prefix (c # s) [CHR 0xC4, CHR 0xB0] then CHR ''i'' # lower_to_ascii (drop 1 s)
     else lower_char c # lower_to_ascii s)"

definition isHostCodePath :: "string \<Rightarrow> bool" where
  "isHostCodePath file \<longleftrightarrow> lower_to_ascii (path_ext file) \<in> set host_code_extensions"

definition validateFile :: "nat \<Rightarrow> File \<Rightarrow> bool \<Rightarrow> descriptor_error option" where
  "validateFile i file extension =
    (let clean = path_clean (fl_path file) in
     guard_err (fl_path file = [] \<or> clean = ''.'' \<or> clean = ''..'' \<or> has_prefix clean ''../'' \<or> path_is_abs (fl_path file)) (FilePath i)
      (if extension then None
       else guard_err (fl_mode file AND 73 \<noteq> 0) (FileExecutable i)
             (guard_err (isHostCodePath clean) (FileHostCode i) None)))"

definition check_require :: "nat \<times> PackageRef \<Rightarrow> descriptor_error option" where
  "check_require = (\<lambda>(i, ref). guard_err (blank (pr_name ref)) (RequireNoName i)
     (guard_err (\<not> digestPattern (pr_digest ref)) (RequireBadDigest (pr_name ref)) None))"

definition ValidateDescriptor :: "Descriptor \<Rightarrow> descriptor_error option" where
  "ValidateDescriptor d =
    guard_err (ds_apiVersion d \<noteq> APIVersion) BadAPIVersion
    (guard_err (blank (ds_displayName d)) NoDisplayName
    (guard_err (blank (ds_version d)) NoVersion
    (guard_err (\<not> hasContribution d) NoContribution
    (seq_err (first_error check_require (enumerate 0 (ds_requires d)))
    (seq_err (ValidateAuthority (ds_authority d))
    (case validateExtensions d of
       Inl e \<Rightarrow> Some e
     | Inr executable \<Rightarrow>
         first_error (\<lambda>(i, file). validateFile i file (fl_path file \<in> set executable)) (enumerate 0 (ds_files d))))))))"

text \<open>\<open>Decode\<close>: one YAML document with known fields only, and nothing after it. The decoder gives the first document
  and whether the stream ends there.\<close>

definition DecodeDescriptor :: "(string \<Rightarrow> (Descriptor \<times> bool) option) \<Rightarrow> string \<Rightarrow> descriptor_error + Descriptor" where
  "DecodeDescriptor yaml raw = (case yaml raw of
     None \<Rightarrow> Inl DescriptorYAML
   | Some (d, ends) \<Rightarrow>
       if \<not> ends then Inl DescriptorYAML
       else (case ValidateDescriptor d of Some e \<Rightarrow> Inl e | None \<Rightarrow> Inr d))"

section \<open>The catalogue\<close>

record CatalogueEntry =
  ce_name :: string
  ce_surface :: string
  ce_version :: string
  ce_description :: string
  ce_reference :: string
  ce_digest :: string

datatype catalogue_error = EntryIncomplete string | EntryDigest string | EntryTwice string

fun check_catalogue :: "CatalogueEntry list \<Rightarrow> string list \<Rightarrow> catalogue_error option" where
  "check_catalogue [] seen = None"
| "check_catalogue (e # es) seen =
    (if ce_name e = [] \<or> ce_reference e = [] then Some (EntryIncomplete (ce_name e))
     else if \<not> digestPattern (ce_digest e) then Some (EntryDigest (ce_name e))
     else if ce_name e \<in> set seen then Some (EntryTwice (ce_name e))
     else check_catalogue es (ce_name e # seen))"

definition ValidateCatalogue :: "CatalogueEntry list \<Rightarrow> catalogue_error option" where
  "ValidateCatalogue packages = check_catalogue packages []"

section \<open>The layer of a package\<close>

record tar_header =
  th_name :: string
  th_regular :: bool
  th_mode :: "64 word"
  th_content :: string

text \<open>What the packages \<open>compress/gzip\<close> and \<open>archive/tar\<close> and the OCI media types contribute. A stream is its bytes and
  whether it ends there or fails. \<open>lc_gunzip\<close> is None when the header is refused; \<open>lc_tar\<close> gives the entries that
  are read and whether the archive ends behind them or the next read fails.\<close>

type_synonym byte_stream = "string \<times> bool"

record layer_codecs =
  lc_tar_type :: string
  lc_gzip_type :: string
  lc_gunzip :: "string \<Rightarrow> byte_stream option"
  lc_tar :: "byte_stream \<Rightarrow> tar_header list \<times> bool"

text \<open>\<open>FilesFromLayer\<close>: the regular files by name, the last entry of a name winning. A gzipped layer is recognised by its
  first two bytes.\<close>

definition FilesFromLayer :: "layer_codecs \<Rightarrow> string \<Rightarrow> (string gomap) option" where
  "FilesFromLayer lc layer =
    (case (if take 2 layer = [CHR 0x1F, CHR 0x8B] then lc_gunzip lc layer else Some (layer, True)) of
       None \<Rightarrow> None
     | Some stream \<Rightarrow> (case lc_tar lc stream of (hs, ends) \<Rightarrow>
         if ends then Some (fold (\<lambda>h m. if th_regular h then map_put (th_name h) (th_content h) m else m) hs []) else None))"

datatype layer_error = LayerGzip | LayerMediaType string | LayerRead | LayerNotRegular string | LayerUnsafePath string | LayerUndeclared string | LayerMode string | LayerMissing

definition validateLayerEntry :: "tar_header \<Rightarrow> (string \<times> 32 word) list \<Rightarrow> string list \<Rightarrow> layer_error option" where
  "validateLayerEntry h declared found =
    guard_err (\<not> th_regular h) (LayerNotRegular (th_name h))
    (guard_err (path_clean (th_name h) \<noteq> th_name h \<or> has_prefix (th_name h) ''../'') (LayerUnsafePath (th_name h))
    (case map_of declared (th_name h) of
       None \<Rightarrow> Some (LayerUndeclared (th_name h))
     | Some mode \<Rightarrow>
         guard_err (th_name h \<in> set found) (LayerUndeclared (th_name h))
         (guard_err ((ucast (th_mode h AND 511) :: 32 word) \<noteq> mode AND 511) (LayerMode (th_name h)) None)))"

fun check_layer :: "tar_header list \<Rightarrow> (string \<times> 32 word) list \<Rightarrow> string list \<Rightarrow> layer_error + string list" where
  "check_layer [] declared found = Inr found"
| "check_layer (h # hs) declared found = (case validateLayerEntry h declared found of
     Some e \<Rightarrow> Inl e
   | None \<Rightarrow> check_layer hs declared (th_name h # found))"

definition maxPackageBytes :: nat where "maxPackageBytes = 67108864"

text \<open>\<open>io.LimitReader\<close>: a longer stream ends at the limit.\<close>

definition limit_stream :: "nat \<Rightarrow> byte_stream \<Rightarrow> byte_stream" where
  "limit_stream n st = (if length (fst st) > n then (take n (fst st), True) else st)"

text \<open>The reader the media type of the layer selects.\<close>

definition layer_stream :: "layer_codecs \<Rightarrow> string \<Rightarrow> string \<Rightarrow> layer_error + byte_stream" where
  "layer_stream lc mediaType layer =
    (if mediaType = lc_tar_type lc then Inr (layer, True)
     else if mediaType = lc_gzip_type lc then (case lc_gunzip lc layer of None \<Rightarrow> Inl LayerGzip | Some st \<Rightarrow> Inr st)
     else Inl (LayerMediaType mediaType))"

definition validateLayer :: "layer_codecs \<Rightarrow> string \<Rightarrow> string \<Rightarrow> File list \<Rightarrow> layer_error option" where
  "validateLayer lc layer mediaType files = (case layer_stream lc mediaType layer of
     Inl e \<Rightarrow> Some e
   | Inr st \<Rightarrow> (case lc_tar lc (limit_stream (maxPackageBytes + 1) st) of (hs, ends) \<Rightarrow>
       (case check_layer hs (file_modes files) [] of
          Inl e \<Rightarrow> Some e
        | Inr found \<Rightarrow>
            guard_err (\<not> ends) LayerRead
            (guard_err (length found \<noteq> length files) LayerMissing None))))"

section \<open>Fetching\<close>

record oci_manifest =
  om_schema :: int
  om_layers :: "(int \<times> string \<times> string) list"
  om_descriptor :: "string option"

datatype fetch_error = ManifestDigest | ManifestJSON | ManifestShape | LayerDigest | AnnotationMissing
  | FetchDescriptor descriptor_error | FetchLayer layer_error

definition decodeOCI :: "(string \<Rightarrow> string) \<Rightarrow> (string \<Rightarrow> oci_manifest option) \<Rightarrow> (string \<Rightarrow> (Descriptor \<times> bool) option) \<Rightarrow>
    layer_codecs \<Rightarrow> string \<Rightarrow> string \<Rightarrow> string \<Rightarrow> fetch_error + (Descriptor \<times> string)" where
  "decodeOCI contentDigest json yaml lc manifest layer pin =
    (if contentDigest manifest \<noteq> pin then Inl ManifestDigest
     else (case json manifest of
         None \<Rightarrow> Inl ManifestJSON
       | Some img \<Rightarrow>
           (case om_layers img of
              [(blobSize, digest, mediaType)] \<Rightarrow>
                if om_schema img \<noteq> 2 then Inl ManifestShape
                else if blobSize \<noteq> int (length layer) \<or> digest \<noteq> contentDigest layer then Inl LayerDigest
                else (case om_descriptor img of
                    None \<Rightarrow> Inl AnnotationMissing
                  | Some raw \<Rightarrow> (case DecodeDescriptor yaml raw of
                      Inl e \<Rightarrow> Inl (FetchDescriptor e)
                    | Inr descriptor \<Rightarrow> (case validateLayer lc layer mediaType (ds_files descriptor) of
                        Some e \<Rightarrow> Inl (FetchLayer e)
                      | None \<Rightarrow> Inr (descriptor, layer))))
            | _ \<Rightarrow> Inl ManifestShape)))"

end
