(* ===== verification/Package_Store.thy ===== *)
theory Package_Store
  imports Package_Descriptor "HOL-Library.Product_Lexorder"
begin

text \<open>
  The tables of installed packages (\<open>infrastructure/postgres\<close>: \<open>installed_packages.go\<close>, \<open>package_contributions.go\<close> and the
  statements sqlc generates for them): the pinned packages of an org with their requirements on each other, and the
  ledger of the entries each package put into the org's documents.

  \<^item> A transaction is one step that leaves the tables as they were when it fails; \<open>Install\<close>, \<open>Replace\<close> and \<open>Remove\<close> hold an
    advisory lock per org.
  \<^item> The primary keys, the two foreign keys of a requirement (its package: cascade, what it requires: restrict), the
    cascading key of the ledger and the checks on digest and update policy are those of the migrations 0012, 0023 and
    0043. A package's own requirements cascade before the restriction is checked, in the order the keys were created.
  \<^item> A descriptor or an authority is stored as a value; its JSON is left out.
\<close>

section \<open>Rows\<close>

record Pin =
  pn_reference :: string
  pn_digest :: string

record Installed =
  in_org :: string
  in_name :: string
  in_reference :: string
  in_digest :: string
  in_descriptor :: Descriptor
  in_layer :: string
  in_policy :: string
  in_accepted :: "Authority option"
  in_pending :: "Pin option"
  in_pendingAuthority :: "Authority option"
  in_previous :: "Pin option"
  in_previousAccepted :: "Authority option"

record package_row =
  pk_org :: string
  pk_name :: string
  pk_reference :: string
  pk_digest :: string
  pk_descriptor :: Descriptor
  pk_layer :: string
  pk_policy :: string
  pk_accepted :: "Authority option"
  pk_pending_reference :: "string option"
  pk_pending_digest :: "string option"
  pk_pending_authority :: "Authority option"
  pk_previous_reference :: "string option"
  pk_previous_digest :: "string option"
  pk_previous_accepted :: "Authority option"

record requirement_row =
  rq_org :: string
  rq_package :: string
  rq_required :: string
  rq_digest :: string

record contribution_row =
  lg_org :: string
  lg_package :: string
  lg_family :: string
  lg_entry :: string

record package_db =
  pd_rows :: "package_row list"
  pd_requirements :: "requirement_row list"
  pd_ledger :: "contribution_row list"

datatype package_error =
    PkgNotFound | PkgAlreadyInstalled | PkgRequired | PkgDatabase
  | PkgIdentity | PkgInvalid descriptor_error
  | RequirementMissing string | RequirementDigest string

definition PolicyManual :: string where "PolicyManual = ''manual''"
definition PolicyAuto :: string where "PolicyAuto = ''auto''"

section \<open>Statements\<close>

definition package_at :: "string \<Rightarrow> string \<Rightarrow> package_row \<Rightarrow> bool" where
  "package_at orgID name r \<longleftrightarrow> pk_org r = orgID \<and> pk_name r = name"

definition q_GetInstalledPackage :: "string \<Rightarrow> string \<Rightarrow> package_db \<Rightarrow> package_row option" where
  "q_GetInstalledPackage orgID name db = find (package_at orgID name) (pd_rows db)"

datatype pg_error = UniqueViolation | ForeignKeyViolation | RestrictViolation | CheckViolation

definition q_InsertInstalledPackage :: "Installed \<Rightarrow> package_db \<Rightarrow> pg_error + package_db" where
  "q_InsertInstalledPackage p db =
    (if \<not> digestPattern (in_digest p) \<or> \<not> (in_policy p = PolicyManual \<or> in_policy p = PolicyAuto) then Inl CheckViolation
     else if q_GetInstalledPackage (in_org p) (in_name p) db \<noteq> None then Inl UniqueViolation
     else Inr (db\<lparr>pd_rows := pd_rows db @ [\<lparr>pk_org = in_org p, pk_name = in_name p, pk_reference = in_reference p, pk_digest = in_digest p,
       pk_descriptor = in_descriptor p, pk_layer = in_layer p, pk_policy = in_policy p, pk_accepted = None, pk_pending_reference = None,
       pk_pending_digest = None, pk_pending_authority = None, pk_previous_reference = None, pk_previous_digest = None,
       pk_previous_accepted = None\<rparr>]\<rparr>))"

definition q_InsertInstalledRequirement :: "requirement_row \<Rightarrow> package_db \<Rightarrow> pg_error + package_db" where
  "q_InsertInstalledRequirement r db =
    (if list_ex (\<lambda>x. rq_org x = rq_org r \<and> rq_package x = rq_package r \<and> rq_required x = rq_required r) (pd_requirements db)
     then Inl UniqueViolation
     else if q_GetInstalledPackage (rq_org r) (rq_package r) db = None \<or> q_GetInstalledPackage (rq_org r) (rq_required r) db = None
     then Inl ForeignKeyViolation
     else Inr (db\<lparr>pd_requirements := pd_requirements db @ [r]\<rparr>))"

text \<open>An update of the rows at a key, with how many it touched.\<close>

definition update_package :: "string \<Rightarrow> string \<Rightarrow> (package_row \<Rightarrow> package_row) \<Rightarrow> package_db \<Rightarrow> nat \<times> package_db" where
  "update_package orgID name f db =
    (length (filter (package_at orgID name) (pd_rows db)),
     db\<lparr>pd_rows := map (\<lambda>r. if package_at orgID name r then f r else r) (pd_rows db)\<rparr>)"

definition q_AcceptInstalledPackageAuthority :: "string \<Rightarrow> string \<Rightarrow> Authority \<Rightarrow> package_db \<Rightarrow> nat \<times> package_db" where
  "q_AcceptInstalledPackageAuthority orgID name authority = update_package orgID name (\<lambda>r. r\<lparr>pk_accepted := Some authority\<rparr>)"

definition q_SetInstalledPackagePending :: "string \<Rightarrow> string \<Rightarrow> Pin \<Rightarrow> Authority \<Rightarrow> package_db \<Rightarrow> nat \<times> package_db" where
  "q_SetInstalledPackagePending orgID name pending declared = update_package orgID name
     (\<lambda>r. r\<lparr>pk_pending_reference := Some (pn_reference pending), pk_pending_digest := Some (pn_digest pending),
       pk_pending_authority := Some declared\<rparr>)"

text \<open>The right-hand sides of the statement read the row as it was.\<close>

definition replaced_row :: "Installed \<Rightarrow> package_row \<Rightarrow> package_row" where
  "replaced_row p r = r\<lparr>pk_previous_reference := Some (pk_reference r), pk_previous_digest := Some (pk_digest r),
     pk_previous_accepted := pk_accepted r, pk_reference := in_reference p, pk_digest := in_digest p, pk_descriptor := in_descriptor p,
     pk_layer := in_layer p, pk_accepted := in_accepted p, pk_pending_reference := None, pk_pending_digest := None,
     pk_pending_authority := None\<rparr>"

definition q_ReplaceInstalledPackage :: "Installed \<Rightarrow> package_db \<Rightarrow> pg_error + (nat \<times> package_db)" where
  "q_ReplaceInstalledPackage p db =
    (if \<not> digestPattern (in_digest p) \<and> q_GetInstalledPackage (in_org p) (in_name p) db \<noteq> None then Inl CheckViolation
     else Inr (update_package (in_org p) (in_name p) (replaced_row p) db))"

definition q_SetInstalledPackageUpdatePolicy :: "string \<Rightarrow> string \<Rightarrow> string \<Rightarrow> package_db \<Rightarrow> pg_error + (nat \<times> package_db)" where
  "q_SetInstalledPackageUpdatePolicy orgID name policy db =
    (if \<not> (policy = PolicyManual \<or> policy = PolicyAuto) \<and> q_GetInstalledPackage orgID name db \<noteq> None then Inl CheckViolation
     else Inr (update_package orgID name (\<lambda>r. r\<lparr>pk_policy := policy\<rparr>) db))"

definition q_DeleteInstalledRequirements :: "string \<Rightarrow> string \<Rightarrow> package_db \<Rightarrow> package_db" where
  "q_DeleteInstalledRequirements orgID name db =
    db\<lparr>pd_requirements := filter (\<lambda>r. \<not> (rq_org r = orgID \<and> rq_package r = name)) (pd_requirements db)\<rparr>"

definition q_CountInstalledDependents :: "string \<Rightarrow> string \<Rightarrow> package_db \<Rightarrow> nat" where
  "q_CountInstalledDependents orgID name db = length (filter (\<lambda>r. rq_org r = orgID \<and> rq_required r = name) (pd_requirements db))"

definition q_DeleteInstalledPackage :: "string \<Rightarrow> string \<Rightarrow> package_db \<Rightarrow> pg_error + (nat \<times> package_db)" where
  "q_DeleteInstalledPackage orgID name db =
    (let rows = filter (package_at orgID name) (pd_rows db);
         db1 = q_DeleteInstalledRequirements orgID name db in
     if rows = [] then Inr (0, db)
     else if q_CountInstalledDependents orgID name db1 > 0 then Inl RestrictViolation
     else Inr (length rows, db1\<lparr>pd_rows := filter (\<lambda>r. \<not> package_at orgID name r) (pd_rows db1),
       pd_ledger := filter (\<lambda>r. \<not> (lg_org r = orgID \<and> lg_package r = name)) (pd_ledger db1)\<rparr>))"

definition q_InsertInstalledPackageContribution :: "contribution_row \<Rightarrow> package_db \<Rightarrow> pg_error + package_db" where
  "q_InsertInstalledPackageContribution r db =
    (if r \<in> set (pd_ledger db) then Inr db
     else if q_GetInstalledPackage (lg_org r) (lg_package r) db = None then Inl ForeignKeyViolation
     else Inr (db\<lparr>pd_ledger := pd_ledger db @ [r]\<rparr>))"

section \<open>Installed packages\<close>

definition pinOf :: "string option \<Rightarrow> string option \<Rightarrow> Pin option" where
  "pinOf reference digest = (case (reference, digest) of (Some r, Some d) \<Rightarrow> Some \<lparr>pn_reference = r, pn_digest = d\<rparr> | _ \<Rightarrow> None)"

definition installedFromRow :: "package_row \<Rightarrow> Installed" where
  "installedFromRow r = \<lparr>in_org = pk_org r, in_name = pk_name r, in_reference = pk_reference r, in_digest = pk_digest r,
     in_descriptor = pk_descriptor r, in_layer = pk_layer r, in_policy = pk_policy r, in_accepted = pk_accepted r,
     in_pending = pinOf (pk_pending_reference r) (pk_pending_digest r), in_pendingAuthority = pk_pending_authority r,
     in_previous = pinOf (pk_previous_reference r) (pk_previous_digest r), in_previousAccepted = pk_previous_accepted r\<rparr>"

fun checkInstalledRequirements :: "string \<Rightarrow> PackageRef list \<Rightarrow> package_db \<Rightarrow> package_error option" where
  "checkInstalledRequirements orgID [] db = None"
| "checkInstalledRequirements orgID (required # refs) db = (case q_GetInstalledPackage orgID (pr_name required) db of
     None \<Rightarrow> Some (RequirementMissing (pr_name required))
   | Some existing \<Rightarrow>
       if pk_digest existing \<noteq> pr_digest required then Some (RequirementDigest (pr_name required))
       else checkInstalledRequirements orgID refs db)"

fun insertInstalledRequirements :: "string \<Rightarrow> string \<Rightarrow> PackageRef list \<Rightarrow> package_db \<Rightarrow> package_error + package_db" where
  "insertInstalledRequirements orgID name [] db = Inr db"
| "insertInstalledRequirements orgID name (required # refs) db =
    (case q_InsertInstalledRequirement \<lparr>rq_org = orgID, rq_package = name, rq_required = pr_name required, rq_digest = pr_digest required\<rparr> db of
       Inl _ \<Rightarrow> Inl PkgDatabase
     | Inr db1 \<Rightarrow> insertInstalledRequirements orgID name refs db1)"

definition InstallRow :: "Installed \<Rightarrow> package_db \<Rightarrow> package_error + package_db" where
  "InstallRow p db =
    (if in_org p = [] \<or> in_name p = [] \<or> in_reference p = [] \<or> in_digest p = [] then Inl PkgIdentity
     else (case ValidateDescriptor (in_descriptor p) of
         Some e \<Rightarrow> Inl (PkgInvalid e)
       | None \<Rightarrow> (case checkInstalledRequirements (in_org p) (ds_requires (in_descriptor p)) db of
           Some e \<Rightarrow> Inl e
         | None \<Rightarrow> (case q_InsertInstalledPackage p db of
             Inl e \<Rightarrow> Inl (if e = UniqueViolation then PkgAlreadyInstalled else PkgDatabase)
           | Inr db1 \<Rightarrow> insertInstalledRequirements (in_org p) (in_name p) (ds_requires (in_descriptor p)) db1))))"

definition GetRow :: "string \<Rightarrow> string \<Rightarrow> package_db \<Rightarrow> package_error + Installed" where
  "GetRow orgID name db = (case q_GetInstalledPackage orgID name db of None \<Rightarrow> Inl PkgNotFound | Some r \<Rightarrow> Inr (installedFromRow r))"

definition ListRows :: "string \<Rightarrow> package_db \<Rightarrow> Installed list" where
  "ListRows orgID db = map installedFromRow (sort_key pk_name (filter (\<lambda>r. pk_org r = orgID) (pd_rows db)))"

definition RemoveRow :: "string \<Rightarrow> string \<Rightarrow> package_db \<Rightarrow> package_error + package_db" where
  "RemoveRow orgID name db = (case q_DeleteInstalledPackage orgID name db of
     Inl e \<Rightarrow> Inl (if e = RestrictViolation then PkgRequired else PkgDatabase)
   | Inr (rows, db1) \<Rightarrow> if rows = 0 then Inl PkgNotFound else Inr db1)"

text \<open>What the statements that report their rows answer.\<close>

definition touched :: "nat \<times> package_db \<Rightarrow> package_error + package_db" where
  "touched r = (if fst r = 0 then Inl PkgNotFound else Inr (snd r))"

definition AcceptRow :: "string \<Rightarrow> string \<Rightarrow> Authority \<Rightarrow> package_db \<Rightarrow> package_error + package_db" where
  "AcceptRow orgID name authority db =
    (if orgID = [] \<or> name = [] then Inl PkgIdentity
     else (case ValidateAuthority authority of
         Some e \<Rightarrow> Inl (PkgInvalid e)
       | None \<Rightarrow> touched (q_AcceptInstalledPackageAuthority orgID name authority db)))"

definition SetPending :: "string \<Rightarrow> string \<Rightarrow> Pin \<Rightarrow> Authority \<Rightarrow> package_db \<Rightarrow> package_error + package_db" where
  "SetPending orgID name pending declared db = touched (q_SetInstalledPackagePending orgID name pending declared db)"

definition ReplacePackage :: "Installed \<Rightarrow> package_db \<Rightarrow> package_error + package_db" where
  "ReplacePackage p db = (case ValidateDescriptor (in_descriptor p) of
     Some e \<Rightarrow> Inl (PkgInvalid e)
   | None \<Rightarrow>
       if q_CountInstalledDependents (in_org p) (in_name p) db > 0 then Inl PkgRequired
       else (case checkInstalledRequirements (in_org p) (ds_requires (in_descriptor p)) db of
           Some e \<Rightarrow> Inl e
         | None \<Rightarrow> (case q_ReplaceInstalledPackage p db of
             Inl _ \<Rightarrow> Inl PkgDatabase
           | Inr (rows, db1) \<Rightarrow>
               if rows = 0 then Inl PkgNotFound
               else insertInstalledRequirements (in_org p) (in_name p) (ds_requires (in_descriptor p))
                      (q_DeleteInstalledRequirements (in_org p) (in_name p) db1))))"

definition SetUpdatePolicy :: "string \<Rightarrow> string \<Rightarrow> string \<Rightarrow> package_db \<Rightarrow> package_error + package_db" where
  "SetUpdatePolicy orgID name policy db = (case q_SetInstalledPackageUpdatePolicy orgID name policy db of
     Inl _ \<Rightarrow> Inl PkgDatabase
   | Inr r \<Rightarrow> touched r)"

definition ListAutoUpdate :: "package_db \<Rightarrow> (string \<times> string) list" where
  "ListAutoUpdate db = sort (map (\<lambda>r. (pk_org r, pk_name r)) (filter (\<lambda>r. pk_policy r = PolicyAuto) (pd_rows db)))"

section \<open>The ledger of contributions\<close>

type_synonym ProjectionEntry = "string \<times> string"

fun record_entries :: "string \<Rightarrow> string \<Rightarrow> ProjectionEntry list \<Rightarrow> package_db \<Rightarrow> package_error + package_db" where
  "record_entries orgID name [] db = Inr db"
| "record_entries orgID name ((family, entry) # es) db =
    (case q_InsertInstalledPackageContribution \<lparr>lg_org = orgID, lg_package = name, lg_family = family, lg_entry = entry\<rparr> db of
       Inl _ \<Rightarrow> Inl PkgDatabase
     | Inr db1 \<Rightarrow> record_entries orgID name es db1)"

definition RecordEntries :: "string \<Rightarrow> string \<Rightarrow> ProjectionEntry list \<Rightarrow> package_db \<Rightarrow> package_error + package_db" where
  "RecordEntries orgID name entries db = (if orgID = [] \<or> name = [] then Inl PkgIdentity else record_entries orgID name entries db)"

definition Entries :: "string \<Rightarrow> string \<Rightarrow> package_db \<Rightarrow> ProjectionEntry list" where
  "Entries orgID name db = map (\<lambda>r. (lg_family r, lg_entry r)) (filter (\<lambda>r. lg_org r = orgID \<and> lg_package r = name) (pd_ledger db))"

definition Forget :: "string \<Rightarrow> string \<Rightarrow> string \<Rightarrow> package_db \<Rightarrow> package_db" where
  "Forget orgID name family db =
    db\<lparr>pd_ledger := filter (\<lambda>r. \<not> (lg_org r = orgID \<and> lg_package r = name \<and> lg_family r = family)) (pd_ledger db)\<rparr>"

end
