(* ===== verification/Package_Projection.thy ===== *)
theory Package_Projection
  imports Package_Store Resource_Store Workflow_Collection
begin

text \<open>
  How a package reaches the documents of its org (\<open>app/controlplane\<close>: \<open>package_projection.go\<close>, \<open>skills.go\<close>, \<open>playbooks.go\<close>,
  \<open>profiles_projector.go\<close>, \<open>workflow_projector.go\<close>; \<open>app/statestore/server.go\<close>): the optimistic edit of a document, the
  projector of a list of entries with its two families, and the projectors of agent profiles and workflows.

  \<^item> The documents are those of \<open>Resource_Store\<close>. What other writers do between a read and the write that follows it is
    the list \<open>pw_others\<close> of the world, one element per write.
  \<^item> \<open>pw_clock\<close> is the clock in nanoseconds; two projections never read the same value.
  \<^item> The YAML of a file, the parser of \<open>SKILL.md\<close>, the playbook compiler and the shipped workflows are arguments, and so
    is the validation of a collection of workflows, which \<open>Workflow_Collection\<close> defines.
  \<^item> \<open>strconv.Quote\<close> is written out for ASCII; other bytes are kept.
\<close>

section \<open>The world of a package\<close>

record 'v package_world =
  pw_db :: package_db
  pw_docs :: "'v resource_db"
  pw_clock :: nat
  pw_others :: "('v resource_db \<Rightarrow> 'v resource_db) list"

datatype projection_error =
    ProjectResource resource_error
  | ErrContributionCollision string
  | ContributionInvalid string
  | DocumentInvalid
  | LedgerFailed package_error

definition others_write :: "'v package_world \<Rightarrow> 'v package_world" where
  "others_write w = (case pw_others w of [] \<Rightarrow> w | f # fs \<Rightarrow> w\<lparr>pw_docs := f (pw_docs w), pw_others := fs\<rparr>)"

definition digit36 :: "nat \<Rightarrow> char" where
  "digit36 n = char_of (if n < 10 then 48 + n else 87 + n)"

fun nat_base36 :: "nat \<Rightarrow> string" where
  "nat_base36 n = (if n < 36 then [digit36 n] else nat_base36 (n div 36) @ [digit36 (n mod 36)])"

declare nat_base36.simps [simp del]

section \<open>Editing a document\<close>

definition projectionActor :: string where "projectionActor = ''archie-state-store''"
definition projectWriteAttempts :: nat where "projectWriteAttempts = 3"

definition project_write :: "string \<Rightarrow> string \<Rightarrow> string \<Rightarrow> string \<Rightarrow> 'v \<Rightarrow> int \<Rightarrow> 'v ResourceWrite" where
  "project_write orgID kind source requestID v version = \<lparr>rw_org = orgID, rw_kind = kind, rw_value = v, rw_actor = projectionActor,
     rw_source = source, rw_request = requestID, rw_expected = version, rw_at = \<lparr>tm_ns = 0, tm_off = 0\<rparr>\<rparr>"

text \<open>What the loop reads: the document with its version, none at version 0, or an error.\<close>

definition read_current :: "string \<Rightarrow> string \<Rightarrow> 'v resource_db \<Rightarrow> resource_error + ('v option \<times> int)" where
  "read_current orgID kind d = (case read_resource orgID kind d of
     Inl ErrResourceNotFound \<Rightarrow> Inr (None, 0)
   | Inl e \<Rightarrow> Inl e
   | Inr r \<Rightarrow> Inr (Some (rv_value r), rv_version r))"

text \<open>The loop, with the number of attempts that are left after this one.\<close>

fun project_attempts :: "'v audit_diff \<Rightarrow> go_time \<Rightarrow> (string \<Rightarrow> string \<Rightarrow> 'v resource_db \<Rightarrow> resource_error + ('v option \<times> int)) \<Rightarrow> string \<Rightarrow>
    string \<Rightarrow> string \<Rightarrow> string \<Rightarrow> ('v option \<Rightarrow> projection_error + 'v) \<Rightarrow> nat \<Rightarrow> 'v package_world \<Rightarrow> projection_error option \<times> 'v package_world" where
  "project_attempts diff now rd orgID kind source requestID edit left w = (case rd orgID kind (pw_docs w) of
     Inl e \<Rightarrow> (Some (ProjectResource e), w)
   | Inr (current, version) \<Rightarrow> (case edit current of
       Inl e \<Rightarrow> (Some e, w)
     | Inr v \<Rightarrow>
         (let w1 = others_write w in
          case PutResource diff now (project_write orgID kind source requestID v version) (pw_docs w1) of
            Inr (_, d) \<Rightarrow> (None, w1\<lparr>pw_docs := d\<rparr>)
          | Inl e \<Rightarrow>
              if e = ErrResourceVersionConflict \<and> 0 < left
              then project_attempts diff now rd orgID kind source requestID edit (left - 1) w1
              else (Some (ProjectResource e), w1))))"

declare project_attempts.simps [simp del]

definition request_id :: "string \<Rightarrow> nat \<Rightarrow> string" where
  "request_id requestPrefix nanos = requestPrefix @ CHR '':'' # nat_base36 nanos"

definition projectDocument :: "'v audit_diff \<Rightarrow> go_time \<Rightarrow> string \<Rightarrow> string \<Rightarrow> string \<Rightarrow> string \<Rightarrow> ('v option \<Rightarrow> projection_error + 'v) \<Rightarrow>
    'v package_world \<Rightarrow> projection_error option \<times> 'v package_world" where
  "projectDocument diff now orgID kind source requestPrefix edit w =
    project_attempts diff now read_current orgID kind source (request_id requestPrefix (pw_clock w)) edit (projectWriteAttempts - 1)
      (w\<lparr>pw_clock := pw_clock w + 1\<rparr>)"

section \<open>Projectors\<close>

record 'v projector =
  pj_apply :: "string \<Rightarrow> string \<Rightarrow> string \<Rightarrow> string gomap \<Rightarrow> 'v package_world \<Rightarrow> projection_error option \<times> 'v package_world"
  pj_withdraw :: "string \<Rightarrow> string \<Rightarrow> string \<Rightarrow> 'v package_world \<Rightarrow> projection_error option \<times> 'v package_world"

text \<open>The end of every \<open>Apply\<close>: the entries go into the ledger once the document is written.\<close>

definition then_record :: "string \<Rightarrow> string \<Rightarrow> ProjectionEntry list \<Rightarrow> projection_error option \<times> 'v package_world \<Rightarrow>
    projection_error option \<times> 'v package_world" where
  "then_record orgID name recorded r = (case r of
     (Some e, w) \<Rightarrow> (Some e, w)
   | (None, w) \<Rightarrow> (case RecordEntries orgID name recorded (pw_db w) of
       Inl e \<Rightarrow> (Some (LedgerFailed e), w)
     | Inr db \<Rightarrow> (None, w\<lparr>pw_db := db\<rparr>)))"

text \<open>The end of every \<open>Withdraw\<close>.\<close>

definition then_forget :: "string \<Rightarrow> string \<Rightarrow> string \<Rightarrow> projection_error option \<times> 'v package_world \<Rightarrow> projection_error option \<times> 'v package_world" where
  "then_forget orgID name family r = (case r of
     (Some e, w) \<Rightarrow> (Some e, w)
   | (None, w) \<Rightarrow> (None, w\<lparr>pw_db := Forget orgID name family (pw_db w)\<rparr>))"

definition withdrawn_ids :: "string \<Rightarrow> string \<Rightarrow> string \<Rightarrow> package_db \<Rightarrow> string list" where
  "withdrawn_ids orgID name family db = map snd (filter (\<lambda>e. fst e = family) (Entries orgID name db))"

definition package_source :: "string \<Rightarrow> string \<Rightarrow> string" where
  "package_source name digest = ''package:'' @ name @ ''@'' @ digest"

definition withdraw_source :: "string \<Rightarrow> string \<Rightarrow> string" where
  "withdraw_source name digest = ''package-withdraw:'' @ name @ ''@'' @ digest"

subsection \<open>Lists of entries\<close>

record ('v, 'e) listFamily =
  lf_kind :: string
  lf_family :: string
  lf_decode :: "'v option \<Rightarrow> ('e list) option"
  lf_encode :: "'e list \<Rightarrow> 'v option"
  lf_id :: "'e \<Rightarrow> string"
  lf_parse :: "string \<Rightarrow> string \<Rightarrow> 'e option"

fun parse_contents :: "(string \<Rightarrow> string \<Rightarrow> 'e option) \<Rightarrow> string gomap \<Rightarrow> projection_error + 'e list" where
  "parse_contents parse [] = Inr []"
| "parse_contents parse ((contentName, content) # cs) = (case parse contentName content of
     None \<Rightarrow> Inl (ContributionInvalid contentName)
   | Some entry \<Rightarrow> (case parse_contents parse cs of Inl e \<Rightarrow> Inl e | Inr es \<Rightarrow> Inr (entry # es)))"

definition encoded :: "'v option \<Rightarrow> projection_error + 'v" where
  "encoded v = (case v of None \<Rightarrow> Inl DocumentInvalid | Some x \<Rightarrow> Inr x)"

definition list_merge :: "('v, 'e) listFamily \<Rightarrow> 'e list \<Rightarrow> 'v option \<Rightarrow> projection_error + 'v" where
  "list_merge fam incoming current = (case lf_decode fam current of
     None \<Rightarrow> Inl DocumentInvalid
   | Some entries \<Rightarrow> (case find (\<lambda>have. lf_id fam have \<in> set (map (lf_id fam) incoming)) entries of
       Some have \<Rightarrow> Inl (ErrContributionCollision (lf_id fam have))
     | None \<Rightarrow> encoded (lf_encode fam (entries @ incoming))))"

definition list_Apply :: "'v audit_diff \<Rightarrow> go_time \<Rightarrow> ('v, 'e) listFamily \<Rightarrow> string \<Rightarrow> string \<Rightarrow> string \<Rightarrow> string gomap \<Rightarrow>
    'v package_world \<Rightarrow> projection_error option \<times> 'v package_world" where
  "list_Apply diff now fam orgID name digest contents w = (case parse_contents (lf_parse fam) contents of
     Inl e \<Rightarrow> (Some e, w)
   | Inr incoming \<Rightarrow>
       then_record orgID name (map (\<lambda>e. (lf_family fam, lf_id fam e)) incoming)
         (projectDocument diff now orgID (lf_kind fam) (package_source name digest) (''package-project:'' @ digest) (list_merge fam incoming) w))"

definition list_drop :: "('v, 'e) listFamily \<Rightarrow> string list \<Rightarrow> 'v option \<Rightarrow> projection_error + 'v" where
  "list_drop fam withdrawn current = (case lf_decode fam current of
     None \<Rightarrow> Inl DocumentInvalid
   | Some entries \<Rightarrow> encoded (lf_encode fam (filter (\<lambda>e. lf_id fam e \<notin> set withdrawn) entries)))"

definition list_Withdraw :: "'v audit_diff \<Rightarrow> go_time \<Rightarrow> ('v, 'e) listFamily \<Rightarrow> string \<Rightarrow> string \<Rightarrow> string \<Rightarrow> 'v package_world \<Rightarrow>
    projection_error option \<times> 'v package_world" where
  "list_Withdraw diff now fam orgID name digest w =
    (let withdrawn = withdrawn_ids orgID name (lf_family fam) (pw_db w) in
     if withdrawn = [] then (None, w)
     else then_forget orgID name (lf_family fam)
       (projectDocument diff now orgID (lf_kind fam) (withdraw_source name digest) (''package-withdraw:'' @ digest) (list_drop fam withdrawn) w))"

definition newListProjector :: "'v audit_diff \<Rightarrow> go_time \<Rightarrow> ('v, 'e) listFamily \<Rightarrow> 'v projector" where
  "newListProjector diff now fam = \<lparr>pj_apply = list_Apply diff now fam, pj_withdraw = list_Withdraw diff now fam\<rparr>"

section \<open>Documents\<close>

record SkillEntry =
  sk_name :: string
  sk_content :: string

record PlaybookEntry =
  pb_id :: string
  pb_yaml :: string

record agentProfile =
  ap_image :: string
  ap_kit :: string
  ap_adapter :: string
  ap_tools :: "string list"

record profileFile = agentProfile +
  pf_name :: string

datatype org_document =
    SkillsDoc "SkillEntry list"
  | PlaybooksDoc "PlaybookEntry list"
  | ProfilesDoc "agentProfile gomap"
  | WorkflowsDoc "WorkflowDefinitionEntry list"
  | OtherDoc string

record projection_env =
  pe_diff :: "org_document audit_diff"
  pe_now :: go_time
  pe_skill :: "string \<Rightarrow> string option"
  pe_compile :: "PlaybookEntry list \<Rightarrow> bool"
  pe_profile :: "string \<Rightarrow> profileFile option"
  pe_packageOf :: "string \<Rightarrow> string option"
  pe_definitionID :: "string \<Rightarrow> string option"
  pe_check :: "WorkflowDefinitionEntry list \<Rightarrow> definition_error option"
  pe_shipped :: "WorkflowDefinitionEntry list"

definition FamilyWorkflows :: string where "FamilyWorkflows = ''workflows''"
definition FamilyPrompts :: string where "FamilyPrompts = ''prompts''"
definition FamilySkills :: string where "FamilySkills = ''skills''"
definition FamilyMCPServer :: string where "FamilyMCPServer = ''mcpServers''"
definition FamilyDefaults :: string where "FamilyDefaults = ''defaults''"
definition FamilyPlaybooks :: string where "FamilyPlaybooks = ''playbooks''"
definition FamilyProfiles :: string where "FamilyProfiles = ''profiles''"

subsection \<open>Skills\<close>

fun validateSkills :: "(string \<Rightarrow> string option) \<Rightarrow> SkillEntry list \<Rightarrow> string list \<Rightarrow> bool" where
  "validateSkills parse [] seen \<longleftrightarrow> True"
| "validateSkills parse (e # es) seen \<longleftrightarrow>
     \<not> (sk_name e = [] \<or> sk_name e \<in> set seen) \<and> parse (sk_content e) = Some (sk_name e) \<and> validateSkills parse es (sk_name e # seen)"

definition decodeSkills :: "org_document option \<Rightarrow> (SkillEntry list) option" where
  "decodeSkills v = (case v of None \<Rightarrow> Some [] | Some (SkillsDoc es) \<Rightarrow> Some es | _ \<Rightarrow> None)"

definition encodeSkills :: "(string \<Rightarrow> string option) \<Rightarrow> SkillEntry list \<Rightarrow> org_document option" where
  "encodeSkills parse es = (if validateSkills parse es [] then Some (SkillsDoc es) else None)"

definition parse_skill :: "(string \<Rightarrow> string option) \<Rightarrow> string \<Rightarrow> string \<Rightarrow> SkillEntry option" where
  "parse_skill parse contentName content = (case parse content of
     None \<Rightarrow> None
   | Some name \<Rightarrow> if name = [] then None else Some \<lparr>sk_name = name, sk_content = content\<rparr>)"

definition skill_family :: "projection_env \<Rightarrow> (org_document, SkillEntry) listFamily" where
  "skill_family env = \<lparr>lf_kind = ''skills'', lf_family = FamilySkills, lf_decode = decodeSkills, lf_encode = encodeSkills (pe_skill env),
     lf_id = sk_name, lf_parse = parse_skill (pe_skill env)\<rparr>"

subsection \<open>Playbooks\<close>

fun playbook_ids_ok :: "PlaybookEntry list \<Rightarrow> string list \<Rightarrow> bool" where
  "playbook_ids_ok [] seen \<longleftrightarrow> True"
| "playbook_ids_ok (e # es) seen \<longleftrightarrow> \<not> (pb_id e = [] \<or> pb_id e \<in> set seen) \<and> playbook_ids_ok es (pb_id e # seen)"

definition CompilePlaybooks :: "(PlaybookEntry list \<Rightarrow> bool) \<Rightarrow> PlaybookEntry list \<Rightarrow> bool" where
  "CompilePlaybooks compiles es \<longleftrightarrow> playbook_ids_ok es [] \<and> compiles es"

definition decodePlaybooks :: "org_document option \<Rightarrow> (PlaybookEntry list) option" where
  "decodePlaybooks v = (case v of None \<Rightarrow> Some [] | Some (PlaybooksDoc es) \<Rightarrow> Some es | _ \<Rightarrow> None)"

definition encodePlaybooks :: "(PlaybookEntry list \<Rightarrow> bool) \<Rightarrow> PlaybookEntry list \<Rightarrow> org_document option" where
  "encodePlaybooks compiles es = (if CompilePlaybooks compiles es then Some (PlaybooksDoc es) else None)"

definition playbook_family :: "projection_env \<Rightarrow> (org_document, PlaybookEntry) listFamily" where
  "playbook_family env = \<lparr>lf_kind = ''eda-playbooks'', lf_family = FamilyPlaybooks, lf_decode = decodePlaybooks,
     lf_encode = encodePlaybooks (pe_compile env), lf_id = pb_id,
     lf_parse = (\<lambda>name content. Some \<lparr>pb_id = path_base name, pb_yaml = content\<rparr>)\<rparr>"

subsection \<open>Agent profiles\<close>

definition IsKit :: "'a agentProfile_scheme \<Rightarrow> bool" where
  "IsKit p \<longleftrightarrow> ap_kit p \<noteq> []"

definition ValidateAgentProfiles :: "agentProfile gomap \<Rightarrow> bool" where
  "ValidateAgentProfiles profiles = list_all (\<lambda>(name, p). \<not> blank name \<and> \<not> (IsKit p \<and> ap_image p \<noteq> []) \<and> \<not> (\<not> IsKit p \<and> ap_adapter p \<noteq> [])
     \<and> \<not> (IsKit p \<and> \<not> contains_sub (ap_kit p) ''@sha256:'') \<and> list_all (\<lambda>tool. \<not> blank tool) (ap_tools p)) profiles"

definition decodeProfiles :: "org_document option \<Rightarrow> (agentProfile gomap) option" where
  "decodeProfiles v = (case v of None \<Rightarrow> Some [] | Some (ProfilesDoc ps) \<Rightarrow> Some ps | _ \<Rightarrow> None)"

definition encodeProfiles :: "agentProfile gomap \<Rightarrow> projection_error + org_document" where
  "encodeProfiles profiles = (if ValidateAgentProfiles profiles then Inr (ProfilesDoc profiles) else Inl DocumentInvalid)"

definition truncate_profile :: "profileFile \<Rightarrow> agentProfile" where
  "truncate_profile f = \<lparr>ap_image = ap_image f, ap_kit = ap_kit f, ap_adapter = ap_adapter f, ap_tools = ap_tools f\<rparr>"

fun parse_profiles :: "(string \<Rightarrow> profileFile option) \<Rightarrow> string gomap \<Rightarrow> agentProfile gomap \<Rightarrow> string list \<Rightarrow>
    projection_error + (agentProfile gomap \<times> string list)" where
  "parse_profiles yaml [] incoming recorded = Inr (incoming, recorded)"
| "parse_profiles yaml ((contentName, content) # cs) incoming recorded = (case yaml content of
     None \<Rightarrow> Inl (ContributionInvalid contentName)
   | Some file \<Rightarrow>
       if pf_name file = [] then Inl (ContributionInvalid contentName)
       else parse_profiles yaml cs (map_put (pf_name file) (truncate_profile file) incoming) (recorded @ [pf_name file]))"

fun merge_profiles :: "agentProfile gomap \<Rightarrow> agentProfile gomap \<Rightarrow> projection_error + agentProfile gomap" where
  "merge_profiles [] profiles = Inr profiles"
| "merge_profiles ((profile, v) # ps) profiles =
    (if map_of profiles profile \<noteq> None then Inl (ErrContributionCollision profile) else merge_profiles ps (map_put profile v profiles))"

definition profiles_merge :: "agentProfile gomap \<Rightarrow> org_document option \<Rightarrow> projection_error + org_document" where
  "profiles_merge incoming current = (case decodeProfiles current of
     None \<Rightarrow> Inl DocumentInvalid
   | Some profiles \<Rightarrow> (case merge_profiles incoming profiles of Inl e \<Rightarrow> Inl e | Inr merged \<Rightarrow> encodeProfiles merged))"

definition profiles_drop :: "string list \<Rightarrow> org_document option \<Rightarrow> projection_error + org_document" where
  "profiles_drop withdrawn current = (case decodeProfiles current of
     None \<Rightarrow> Inl DocumentInvalid
   | Some profiles \<Rightarrow> encodeProfiles (filter (\<lambda>(profile, _). profile \<notin> set withdrawn) profiles))"

definition profiles_Apply :: "projection_env \<Rightarrow> string \<Rightarrow> string \<Rightarrow> string \<Rightarrow> string gomap \<Rightarrow> org_document package_world \<Rightarrow>
    projection_error option \<times> org_document package_world" where
  "profiles_Apply env orgID name digest contents w = (case parse_profiles (pe_profile env) contents [] [] of
     Inl e \<Rightarrow> (Some e, w)
   | Inr (incoming, recorded) \<Rightarrow>
       then_record orgID name (map (Pair FamilyProfiles) recorded)
         (projectDocument (pe_diff env) (pe_now env) orgID ''agent-profiles'' (package_source name digest) (''package-project:'' @ digest)
            (profiles_merge incoming) w))"

definition profiles_Withdraw :: "projection_env \<Rightarrow> string \<Rightarrow> string \<Rightarrow> string \<Rightarrow> org_document package_world \<Rightarrow>
    projection_error option \<times> org_document package_world" where
  "profiles_Withdraw env orgID name digest w =
    (let withdrawn = withdrawn_ids orgID name FamilyProfiles (pw_db w) in
     if withdrawn = [] then (None, w)
     else then_forget orgID name FamilyProfiles
       (projectDocument (pe_diff env) (pe_now env) orgID ''agent-profiles'' (withdraw_source name digest) (''package-withdraw:'' @ digest)
          (profiles_drop withdrawn) w))"

subsection \<open>Workflows\<close>

definition quote_char :: "char \<Rightarrow> string" where
  "quote_char c =
    (let b = byte_of c; hex = (\<lambda>n. char_of (if n < 10 then 48 + n else 87 + n :: nat)) in
     if c = CHR 0x22 then [CHR 0x5C, CHR 0x22]
     else if c = CHR 0x5C then [CHR 0x5C, CHR 0x5C]
     else if b = 7 then [CHR 0x5C, CHR ''a''] else if b = 8 then [CHR 0x5C, CHR ''b''] else if b = 9 then [CHR 0x5C, CHR ''t'']
     else if b = 10 then [CHR 0x5C, CHR ''n''] else if b = 11 then [CHR 0x5C, CHR ''v''] else if b = 12 then [CHR 0x5C, CHR ''f'']
     else if b = 13 then [CHR 0x5C, CHR ''r'']
     else if b < 32 \<or> b = 127 then [CHR 0x5C, CHR ''x'', hex (b div 16), hex (b mod 16)]
     else [c])"

definition go_quote :: "string \<Rightarrow> string" where
  "go_quote s = CHR 0x22 # concat (map quote_char s) @ [CHR 0x22]"

definition encodeWorkflowDefinitions :: "(WorkflowDefinitionEntry list \<Rightarrow> definition_error option) \<Rightarrow> WorkflowDefinitionEntry list \<Rightarrow>
    projection_error + org_document" where
  "encodeWorkflowDefinitions check es = (case check es of Some _ \<Rightarrow> Inl DocumentInvalid | None \<Rightarrow> Inr (WorkflowsDoc es))"

text \<open>What the projector starts from: the shipped definitions at version 0 when there is no document, and the empty
  collection at version 0 when it cannot be read or does not validate.\<close>

definition collection :: "projection_env \<Rightarrow> string \<Rightarrow> string \<Rightarrow> org_document resource_db \<Rightarrow> resource_error + (org_document option \<times> int)" where
  "collection env orgID kind d = Inr (case read_resource orgID kind d of
     Inl ErrResourceNotFound \<Rightarrow> (Some (WorkflowsDoc (pe_shipped env)), 0)
   | Inl _ \<Rightarrow> (Some (WorkflowsDoc []), 0)
   | Inr r \<Rightarrow> (case rv_value r of
       WorkflowsDoc es \<Rightarrow> if pe_check env es = None then (Some (WorkflowsDoc es), rv_version r) else (Some (WorkflowsDoc []), 0)
     | _ \<Rightarrow> (Some (WorkflowsDoc []), 0)))"

definition mergeContribution :: "WorkflowDefinitionEntry list \<Rightarrow> WorkflowDefinitionEntry list \<Rightarrow> projection_error + WorkflowDefinitionEntry list" where
  "mergeContribution base contributed = (case find (\<lambda>e. we_id e \<in> set (map we_id contributed)) base of
     Some e \<Rightarrow> Inl (ErrContributionCollision (we_id e))
   | None \<Rightarrow> Inr (base @ contributed))"

fun parse_workflows :: "projection_env \<Rightarrow> string \<Rightarrow> string gomap \<Rightarrow> projection_error + WorkflowDefinitionEntry list" where
  "parse_workflows env name [] = Inr []"
| "parse_workflows env name ((contentName, content) # cs) = (case DefinitionID (pe_definitionID env) content of
     Inl _ \<Rightarrow> Inl (ContributionInvalid contentName)
   | Inr i \<Rightarrow>
       if PackageOf (pe_packageOf env) content \<noteq> [] then Inl (ContributionInvalid contentName)
       else (case parse_workflows env name cs of
           Inl e \<Rightarrow> Inl e
         | Inr es \<Rightarrow> Inr (\<lparr>we_id = i, we_yaml = ''package: '' @ go_quote name @ [CHR 0x0A] @ content\<rparr> # es)))"

definition workflows_edit :: "projection_env \<Rightarrow> (WorkflowDefinitionEntry list \<Rightarrow> projection_error + WorkflowDefinitionEntry list) \<Rightarrow>
    org_document option \<Rightarrow> projection_error + org_document" where
  "workflows_edit env merge current = (case current of
     Some (WorkflowsDoc es) \<Rightarrow> (case merge es of Inl e \<Rightarrow> Inl e | Inr merged \<Rightarrow> encodeWorkflowDefinitions (pe_check env) merged)
   | _ \<Rightarrow> Inl DocumentInvalid)"

definition workflows_write :: "projection_env \<Rightarrow> string \<Rightarrow> string \<Rightarrow> string \<Rightarrow>
    (WorkflowDefinitionEntry list \<Rightarrow> projection_error + WorkflowDefinitionEntry list) \<Rightarrow> org_document package_world \<Rightarrow>
    projection_error option \<times> org_document package_world" where
  "workflows_write env orgID source requestPrefix merge w =
    project_attempts (pe_diff env) (pe_now env) (collection env) orgID ''workflow-definitions'' source
      (request_id requestPrefix (pw_clock w)) (workflows_edit env merge) (projectWriteAttempts - 1) (w\<lparr>pw_clock := pw_clock w + 1\<rparr>)"

definition workflows_Apply :: "projection_env \<Rightarrow> string \<Rightarrow> string \<Rightarrow> string \<Rightarrow> string gomap \<Rightarrow> org_document package_world \<Rightarrow>
    projection_error option \<times> org_document package_world" where
  "workflows_Apply env orgID name digest contents w = (case parse_workflows env name contents of
     Inl e \<Rightarrow> (Some e, w)
   | Inr entries \<Rightarrow>
       then_record orgID name (map (\<lambda>e. (FamilyWorkflows, we_id e)) entries)
         (workflows_write env orgID (package_source name digest) (''package-project:'' @ digest) (\<lambda>base. mergeContribution base entries) w))"

definition workflows_Withdraw :: "projection_env \<Rightarrow> string \<Rightarrow> string \<Rightarrow> string \<Rightarrow> org_document package_world \<Rightarrow>
    projection_error option \<times> org_document package_world" where
  "workflows_Withdraw env orgID name digest w =
    (let withdrawn = withdrawn_ids orgID name FamilyWorkflows (pw_db w) in
     if withdrawn = [] then (None, w)
     else then_forget orgID name FamilyWorkflows
       (workflows_write env orgID (withdraw_source name digest) (''package-withdraw:'' @ digest)
          (\<lambda>base. Inr (filter (\<lambda>e. we_id e \<notin> set withdrawn) base)) w))"

section \<open>The projectors of the State Store\<close>

definition newPackageProjections :: "projection_env \<Rightarrow> (org_document projector) gomap" where
  "newPackageProjections env =
    [(FamilyWorkflows, \<lparr>pj_apply = workflows_Apply env, pj_withdraw = workflows_Withdraw env\<rparr>),
     (FamilySkills, newListProjector (pe_diff env) (pe_now env) (skill_family env)),
     (FamilyPlaybooks, newListProjector (pe_diff env) (pe_now env) (playbook_family env)),
     (FamilyProfiles, \<lparr>pj_apply = profiles_Apply env, pj_withdraw = profiles_Withdraw env\<rparr>)]"

end
