(* ===== verification/Package_Service.thy ===== *)
theory Package_Service
  imports Package_Projection Task_Rows
begin

text \<open>
  The life of an installed package (\<open>domain/storepkg\<close>: \<open>installed.go\<close>, \<open>update.go\<close>, \<open>contributions.go\<close>, \<open>catalogue.go\<close>) and
  what a run of a package's workflow is allowed (\<open>daemon\<close>: \<open>package_tools.go\<close>, \<open>package_trigger.go\<close>;
  \<open>app/archied/installed_authorities.go\<close>).

  \<^item> Each call of a store, a projector or the registry is one step; an operation is their sequence, on a world that
    carries what failed operations left behind.
  \<^item> The registry is the argument \<open>svc_fetch\<close> (see \<open>decodeOCI\<close> for what it checks), the archive readers \<open>svc_layers\<close>, the catalogue
    \<open>svc_catalogue\<close>: none configured, or the verified list, or a fetch that failed.
  \<^item> \<open>errors.Join\<close> is \<open>SvcJoined\<close> with the errors that are not nil.
\<close>

section \<open>Contributions\<close>

definition families :: "string list" where
  "families = [FamilyWorkflows, FamilyPrompts, FamilySkills, FamilyMCPServer, FamilyDefaults, FamilyPlaybooks, FamilyProfiles]"

definition familyNames :: "Contributions \<Rightarrow> string \<Rightarrow> string list" where
  "familyNames c family =
    (if family = FamilyWorkflows then cb_workflows c
     else if family = FamilyPrompts then cb_prompts c
     else if family = FamilySkills then cb_skills c
     else if family = FamilyMCPServer then cb_mcpServers c
     else if family = FamilyDefaults then cb_defaults c
     else if family = FamilyPlaybooks then cb_playbooks c
     else if family = FamilyProfiles then cb_profiles c
     else [])"

datatype service_error =
    SvcStore package_error | SvcFields | SvcDigest | SvcFetch | SvcInvalid descriptor_error
  | SvcRequirement string package_error | SvcRequirementDigest string
  | SvcLayer | SvcNotAFile string string | SvcNotDeclared string string
  | SvcProject string projection_error | SvcWithdraw string projection_error
  | ErrAuthorityNotDeclared | ErrCatalogueUnavailable | SvcCatalogue | SvcNotInCatalogue
  | ErrInvalidPolicy | ErrNoPendingUpdate | ErrNoPrevious
  | SvcJoined "service_error list"

record 'v Service =
  svc_fetch :: "string \<Rightarrow> string \<Rightarrow> (Descriptor \<times> string) option"
  svc_layers :: layer_codecs
  svc_projections :: "('v projector) gomap"
  svc_catalogue :: "CatalogueEntry list option option"

fun resolve_names :: "Descriptor \<Rightarrow> string gomap \<Rightarrow> string \<Rightarrow> string list \<Rightarrow> string gomap \<Rightarrow> service_error + string gomap" where
  "resolve_names descriptor files family [] contents = Inr contents"
| "resolve_names descriptor files family (name # names) contents = (case map_of files name of
     None \<Rightarrow> Inl (SvcNotAFile family name)
   | Some content \<Rightarrow>
       if \<not> list_ex (\<lambda>f. fl_path f = name) (ds_files descriptor) then Inl (SvcNotDeclared family name)
       else resolve_names descriptor files family names (map_put name content contents))"

definition familyContents :: "'v Service \<Rightarrow> Descriptor \<Rightarrow> string \<Rightarrow> string \<Rightarrow> service_error + string gomap" where
  "familyContents s descriptor layer family =
    (let names = familyNames (ds_contributes descriptor) family in
     if names = [] then Inr []
     else (case FilesFromLayer (svc_layers s) layer of
         None \<Rightarrow> Inl SvcLayer
       | Some files \<Rightarrow> resolve_names descriptor files family names []))"

fun resolve_families :: "'v Service \<Rightarrow> Descriptor \<Rightarrow> string \<Rightarrow> string list \<Rightarrow> service_error + (string gomap) gomap" where
  "resolve_families s descriptor layer [] = Inr []"
| "resolve_families s descriptor layer (family # fs) =
    (if map_of (svc_projections s) family = None then resolve_families s descriptor layer fs
     else (case familyContents s descriptor layer family of
         Inl e \<Rightarrow> Inl e
       | Inr entries \<Rightarrow> (case resolve_families s descriptor layer fs of
           Inl e \<Rightarrow> Inl e
         | Inr rest \<Rightarrow> Inr (if entries = [] then rest else (family, entries) # rest))))"

definition resolveFamilyContents :: "'v Service \<Rightarrow> Descriptor \<Rightarrow> string \<Rightarrow> service_error + (string gomap) gomap" where
  "resolveFamilyContents s descriptor layer = resolve_families s descriptor layer families"

fun project_families :: "'v Service \<Rightarrow> Installed \<Rightarrow> (string gomap) gomap \<Rightarrow> string list \<Rightarrow> 'v package_world \<Rightarrow>
    service_error option \<times> 'v package_world" where
  "project_families s i contents [] w = (None, w)"
| "project_families s i contents (family # fs) w =
    (case (map_of contents family, map_of (svc_projections s) family) of
       (Some entries, Some projector) \<Rightarrow>
         if entries = [] then project_families s i contents fs w
         else (case pj_apply projector (in_org i) (in_name i) (in_digest i) entries w of
             (Some e, w1) \<Rightarrow> (Some (SvcProject family e), w1)
           | (None, w1) \<Rightarrow> project_families s i contents fs w1)
     | _ \<Rightarrow> project_families s i contents fs w)"

definition project :: "'v Service \<Rightarrow> Installed \<Rightarrow> (string gomap) gomap \<Rightarrow> 'v package_world \<Rightarrow> service_error option \<times> 'v package_world" where
  "project s i contents w = project_families s i contents families w"

fun withdraw_families :: "'v Service \<Rightarrow> Installed \<Rightarrow> string list \<Rightarrow> 'v package_world \<Rightarrow> service_error option \<times> 'v package_world" where
  "withdraw_families s i [] w = (None, w)"
| "withdraw_families s i (family # fs) w = (case map_of (svc_projections s) family of
     None \<Rightarrow> withdraw_families s i fs w
   | Some projector \<Rightarrow> (case pj_withdraw projector (in_org i) (in_name i) (in_digest i) w of
       (Some e, w1) \<Rightarrow> (Some (SvcWithdraw family e), w1)
     | (None, w1) \<Rightarrow> withdraw_families s i fs w1))"

definition withdraw :: "'v Service \<Rightarrow> Installed \<Rightarrow> 'v package_world \<Rightarrow> service_error option \<times> 'v package_world" where
  "withdraw s i w = withdraw_families s i families w"

section \<open>Installation and removal\<close>

definition on_db :: "(package_db \<Rightarrow> package_error + package_db) \<Rightarrow> 'v package_world \<Rightarrow> service_error option \<times> 'v package_world" where
  "on_db f w = (case f (pw_db w) of Inl e \<Rightarrow> (Some (SvcStore e), w) | Inr db \<Rightarrow> (None, w\<lparr>pw_db := db\<rparr>))"

text \<open>\<open>return s.Store.Get(ctx, orgID, name)\<close>\<close>

definition then_get :: "string \<Rightarrow> string \<Rightarrow> 'v package_world \<Rightarrow> (service_error + Installed) \<times> 'v package_world" where
  "then_get orgID name w = (case GetRow orgID name (pw_db w) of Inl e \<Rightarrow> (Inl (SvcStore e), w) | Inr i \<Rightarrow> (Inr i, w))"

definition join_errors :: "service_error option list \<Rightarrow> service_error" where
  "join_errors es = SvcJoined (List.map_filter id es)"

fun check_requires :: "string \<Rightarrow> PackageRef list \<Rightarrow> package_db \<Rightarrow> service_error option" where
  "check_requires orgID [] db = None"
| "check_requires orgID (required # refs) db = (case GetRow orgID (pr_name required) db of
     Inl e \<Rightarrow> Some (SvcRequirement (pr_name required) e)
   | Inr dependency \<Rightarrow>
       if in_digest dependency \<noteq> pr_digest required then Some (SvcRequirementDigest (pr_name required))
       else check_requires orgID refs db)"

definition new_installed :: "string \<Rightarrow> string \<Rightarrow> string \<Rightarrow> string \<Rightarrow> Descriptor \<Rightarrow> string \<Rightarrow> string \<Rightarrow> Installed" where
  "new_installed orgID name reference digest descriptor layer policy = \<lparr>in_org = orgID, in_name = name, in_reference = reference,
     in_digest = digest, in_descriptor = descriptor, in_layer = layer, in_policy = policy, in_accepted = None, in_pending = None,
     in_pendingAuthority = None, in_previous = None, in_previousAccepted = None\<rparr>"

text \<open>The part of \<open>Install\<close> that writes: the row, then the contributions, which are taken out again with the row when one
  cannot be projected.\<close>

definition install_resolved :: "'v Service \<Rightarrow> Installed \<Rightarrow> (string gomap) gomap \<Rightarrow> 'v package_world \<Rightarrow> (service_error + Installed) \<times> 'v package_world" where
  "install_resolved s i contents w = (case on_db (InstallRow i) w of
     (Some e, w1) \<Rightarrow> (Inl e, w1)
   | (None, w1) \<Rightarrow> (case project s i contents w1 of
       (None, w2) \<Rightarrow> (Inr i, w2)
     | (Some e, w2) \<Rightarrow>
         (let (e2, w3) = withdraw s i w2; (e3, w4) = on_db (RemoveRow (in_org i) (in_name i)) w3
          in (Inl (join_errors [Some e, e2, e3]), w4))))"

definition Install :: "'v Service \<Rightarrow> string \<Rightarrow> string \<Rightarrow> string \<Rightarrow> string \<Rightarrow> 'v package_world \<Rightarrow> (service_error + Installed) \<times> 'v package_world" where
  "Install s orgID name reference digest w =
    (if blank orgID \<or> blank name \<or> blank reference then (Inl SvcFields, w)
     else if \<not> digestPattern digest then (Inl SvcDigest, w)
     else (case svc_fetch s reference digest of
         None \<Rightarrow> (Inl SvcFetch, w)
       | Some (descriptor, layer) \<Rightarrow>
           (case seq_err (map_option SvcInvalid (ValidateDescriptor descriptor)) (check_requires orgID (ds_requires descriptor) (pw_db w)) of
              Some e \<Rightarrow> (Inl e, w)
            | None \<Rightarrow> (case resolveFamilyContents s descriptor layer of
                Inl e \<Rightarrow> (Inl e, w)
              | Inr contents \<Rightarrow> install_resolved s (new_installed orgID name reference digest descriptor layer PolicyManual) contents w))))"

definition RemovePackage :: "'v Service \<Rightarrow> string \<Rightarrow> string \<Rightarrow> 'v package_world \<Rightarrow> service_error option \<times> 'v package_world" where
  "RemovePackage s orgID name w =
    (if blank orgID \<or> blank name then (Some SvcFields, w)
     else (case GetRow orgID name (pw_db w) of
         Inl e \<Rightarrow> (Some (SvcStore e), w)
       | Inr i \<Rightarrow> (case withdraw s i w of
           (Some e, w1) \<Rightarrow> (Some e, w1)
         | (None, w1) \<Rightarrow> on_db (RemoveRow orgID name) w1)))"

definition AcceptPackageAuthority :: "string \<Rightarrow> string \<Rightarrow> Authority \<Rightarrow> 'v package_world \<Rightarrow> (service_error + Installed) \<times> 'v package_world" where
  "AcceptPackageAuthority orgID name accepted w =
    (if blank orgID \<or> blank name then (Inl SvcFields, w)
     else (case ValidateAuthority accepted of
         Some e \<Rightarrow> (Inl (SvcInvalid e), w)
       | None \<Rightarrow> (case GetRow orgID name (pw_db w) of
           Inl e \<Rightarrow> (Inl (SvcStore e), w)
         | Inr i \<Rightarrow>
             if \<not> Covers (ds_authority (in_descriptor i)) accepted then (Inl ErrAuthorityNotDeclared, w)
             else (case on_db (AcceptRow orgID name accepted) w of
                 (Some e, w1) \<Rightarrow> (Inl e, w1)
               | (None, w1) \<Rightarrow> then_get orgID name w1))))"

section \<open>Updates\<close>

definition ListCatalogue :: "'v Service \<Rightarrow> service_error + CatalogueEntry list" where
  "ListCatalogue s = (case svc_catalogue s of
     None \<Rightarrow> Inl ErrCatalogueUnavailable
   | Some None \<Rightarrow> Inl SvcCatalogue
   | Some (Some packages) \<Rightarrow> Inr packages)"

definition catalogue_entry :: "'v Service \<Rightarrow> string \<Rightarrow> service_error + CatalogueEntry" where
  "catalogue_entry s name = (case ListCatalogue s of
     Inl e \<Rightarrow> Inl e
   | Inr packages \<Rightarrow> (case find (\<lambda>e. ce_name e = name) packages of None \<Rightarrow> Inl SvcNotInCatalogue | Some e \<Rightarrow> Inr e))"

definition InstallFromCatalogue :: "'v Service \<Rightarrow> string \<Rightarrow> string \<Rightarrow> 'v package_world \<Rightarrow> (service_error + Installed) \<times> 'v package_world" where
  "InstallFromCatalogue s orgID name w = (case catalogue_entry s name of
     Inl e \<Rightarrow> (Inl e, w)
   | Inr entry \<Rightarrow> Install s orgID (ce_name entry) (ce_reference entry) (ce_digest entry) w)"

definition Widens :: "Installed \<Rightarrow> Authority \<Rightarrow> bool" where
  "Widens i next \<longleftrightarrow> \<not> Covers (case in_accepted i of None \<Rightarrow> no_authority | Some a \<Rightarrow> a) next"

definition prepare :: "'v Service \<Rightarrow> string \<Rightarrow> string \<Rightarrow> Pin \<Rightarrow> service_error + (Installed \<times> (string gomap) gomap)" where
  "prepare s orgID name pin = (case svc_fetch s (pn_reference pin) (pn_digest pin) of
     None \<Rightarrow> Inl SvcFetch
   | Some (descriptor, layer) \<Rightarrow> (case ValidateDescriptor descriptor of
       Some e \<Rightarrow> Inl (SvcInvalid e)
     | None \<Rightarrow> (case resolveFamilyContents s descriptor layer of
         Inl e \<Rightarrow> Inl e
       | Inr contents \<Rightarrow> Inr (new_installed orgID name (pn_reference pin) (pn_digest pin) descriptor layer [], contents))))"

definition restore :: "'v Service \<Rightarrow> Installed \<Rightarrow> 'v package_world \<Rightarrow> service_error option \<times> 'v package_world" where
  "restore s i w = (case resolveFamilyContents s (in_descriptor i) (in_layer i) of
     Inl e \<Rightarrow> (Some e, w)
   | Inr contents \<Rightarrow> project s i contents w)"

definition swap :: "'v Service \<Rightarrow> Installed \<Rightarrow> Installed \<Rightarrow> (string gomap) gomap \<Rightarrow> 'v package_world \<Rightarrow> (service_error + Installed) \<times> 'v package_world" where
  "swap s i next contents w = (case withdraw s i w of
     (Some e, w1) \<Rightarrow> (Inl e, w1)
   | (None, w1) \<Rightarrow>
       (let (e, w2) = (case project s next contents w1 of
            (Some e, w2) \<Rightarrow> (Some e, w2)
          | (None, w2) \<Rightarrow> on_db (ReplacePackage next) w2)
        in case e of
             None \<Rightarrow> then_get (in_org i) (in_name i) w2
           | Some err \<Rightarrow> (let (e2, w3) = withdraw s next w2; (e3, w4) = restore s i w3 in (Inl (join_errors [Some err, e2, e3]), w4))))"

definition UpdatePackage :: "'v Service \<Rightarrow> string \<Rightarrow> string \<Rightarrow> 'v package_world \<Rightarrow> (service_error + Installed) \<times> 'v package_world" where
  "UpdatePackage s orgID name w = (case GetRow orgID name (pw_db w) of
     Inl e \<Rightarrow> (Inl (SvcStore e), w)
   | Inr i \<Rightarrow> (case catalogue_entry s name of
       Inl e \<Rightarrow> (Inl e, w)
     | Inr entry \<Rightarrow>
         (let pin = \<lparr>pn_reference = ce_reference entry, pn_digest = ce_digest entry\<rparr> in
          if pn_digest pin = in_digest i \<or> (case in_pending i of None \<Rightarrow> False | Some p \<Rightarrow> pn_digest p = pn_digest pin) then (Inr i, w)
          else (case prepare s orgID name pin of
              Inl e \<Rightarrow> (Inl e, w)
            | Inr (next, contents) \<Rightarrow>
                if Widens i (ds_authority (in_descriptor next))
                then (case on_db (SetPending orgID name pin (ds_authority (in_descriptor next))) w of
                    (Some e, w1) \<Rightarrow> (Inl e, w1)
                  | (None, w1) \<Rightarrow> then_get orgID name w1)
                else swap s i (next\<lparr>in_accepted := in_accepted i\<rparr>) contents w))))"

definition ApprovePackageUpdate :: "'v Service \<Rightarrow> string \<Rightarrow> string \<Rightarrow> 'v package_world \<Rightarrow> (service_error + Installed) \<times> 'v package_world" where
  "ApprovePackageUpdate s orgID name w = (case GetRow orgID name (pw_db w) of
     Inl e \<Rightarrow> (Inl (SvcStore e), w)
   | Inr i \<Rightarrow> (case in_pending i of
       None \<Rightarrow> (Inl ErrNoPendingUpdate, w)
     | Some pin \<Rightarrow> (case prepare s orgID name pin of
         Inl e \<Rightarrow> (Inl e, w)
       | Inr (next, contents) \<Rightarrow> swap s i (next\<lparr>in_accepted := Some (ds_authority (in_descriptor next))\<rparr>) contents w)))"

definition RollbackPackage :: "'v Service \<Rightarrow> string \<Rightarrow> string \<Rightarrow> 'v package_world \<Rightarrow> (service_error + Installed) \<times> 'v package_world" where
  "RollbackPackage s orgID name w = (case GetRow orgID name (pw_db w) of
     Inl e \<Rightarrow> (Inl (SvcStore e), w)
   | Inr i \<Rightarrow> (case in_previous i of
       None \<Rightarrow> (Inl ErrNoPrevious, w)
     | Some pin \<Rightarrow> (case prepare s orgID name pin of
         Inl e \<Rightarrow> (Inl e, w)
       | Inr (next, contents) \<Rightarrow> swap s i (next\<lparr>in_accepted := in_previousAccepted i\<rparr>) contents w)))"

definition SetPackageUpdatePolicy :: "string \<Rightarrow> string \<Rightarrow> string \<Rightarrow> 'v package_world \<Rightarrow> (service_error + Installed) \<times> 'v package_world" where
  "SetPackageUpdatePolicy orgID name policy w =
    (if policy \<noteq> PolicyManual \<and> policy \<noteq> PolicyAuto then (Inl ErrInvalidPolicy, w)
     else (case on_db (SetUpdatePolicy orgID name policy) w of
         (Some e, w1) \<Rightarrow> (Inl e, w1)
       | (None, w1) \<Rightarrow> then_get orgID name w1))"

text \<open>One that fails does not stop the rest.\<close>

fun update_each :: "'v Service \<Rightarrow> (string \<times> string) list \<Rightarrow> 'v package_world \<Rightarrow> service_error list \<times> 'v package_world" where
  "update_each s [] w = ([], w)"
| "update_each s ((orgID, name) # refs) w =
    (let (r, w1) = UpdatePackage s orgID name w; (es, w2) = update_each s refs w1
     in ((case r of Inl e \<Rightarrow> e # es | Inr _ \<Rightarrow> es), w2))"

definition UpdateAuto :: "'v Service \<Rightarrow> 'v package_world \<Rightarrow> service_error list \<times> 'v package_world" where
  "UpdateAuto s w = update_each s (ListAutoUpdate (pw_db w)) w"

section \<open>What a run is allowed\<close>

definition AcceptedAuthority :: "string \<Rightarrow> string \<Rightarrow> package_db \<Rightarrow> package_error + Authority" where
  "AcceptedAuthority orgID name db = (case GetRow orgID name db of
     Inl e \<Rightarrow> Inl e
   | Inr i \<Rightarrow> Inr (case in_accepted i of None \<Rightarrow> no_authority | Some a \<Rightarrow> a))"

text \<open>None offers every tool. \<open>authorities\<close> is None when the daemon has no source of authorities.\<close>

definition toolAllowlist :: "(string \<Rightarrow> string option) \<Rightarrow> (string \<Rightarrow> package_error + Authority) option \<Rightarrow> task_row \<Rightarrow> string list \<Rightarrow> (string list) option" where
  "toolAllowlist unmarshal authorities task profileTools =
    (let name = PackageOf unmarshal (t_def_yaml task) in
     if name = [] then (if profileTools = [] then None else Some profileTools)
     else (let accepted = (case authorities of
              None \<Rightarrow> []
            | Some f \<Rightarrow> (case f name of Inl _ \<Rightarrow> [] | Inr authority \<Rightarrow> au_tools authority))
           in Some (filter (\<lambda>tool. profileTools = [] \<or> tool \<in> set profileTools) accepted)))"

definition startTriggers :: "task_row \<Rightarrow> string list" where
  "startTriggers task =
    [''source:'' @ (if t_source task = [] then ''forge'' else t_source task)]
    @ (if t_call_parent task \<noteq> 0 then [''call''] else [])
    @ (if t_binding task \<noteq> [] then [''binding:'' @ t_binding task] else [])
    @ map (\<lambda>label. ''label:'' @ label) (filter (\<lambda>label. label \<noteq> []) (map trim_space (split_byte CHR '','' (t_labels task))))"

datatype trigger_error = NoAuthorities string | AuthorityUnavailable string package_error | TriggerNotAccepted string "string list"

definition checkPackageTrigger :: "(string \<Rightarrow> string option) \<Rightarrow> (string \<Rightarrow> package_error + Authority) option \<Rightarrow> task_row \<Rightarrow> trigger_error option" where
  "checkPackageTrigger unmarshal authorities task =
    (let name = PackageOf unmarshal (t_def_yaml task) in
     if name = [] then None
     else (case authorities of
         None \<Rightarrow> Some (NoAuthorities name)
       | Some f \<Rightarrow> (case f name of
           Inl e \<Rightarrow> Some (AuthorityUnavailable name e)
         | Inr authority \<Rightarrow>
             if list_ex (\<lambda>accepted. accepted \<in> set (startTriggers task)) (au_triggers authority) then None
             else Some (TriggerNotAccepted name (startTriggers task)))))"

end
