(* ===== verification/Package_Descriptor_Spec.thy ===== *)
theory Package_Descriptor_Spec
  imports Package_Descriptor
begin

unbundle bit_operations_syntax

text \<open>
  What validation gives: authorities are ordered by inclusion, the files of a package that validates stay inside the
  directory it is unpacked in and are declarative but for its declared extensions, and a layer that was fetched carries
  exactly the declared files.
\<close>

section \<open>Authority\<close>

lemma listCovers_iff: "listCovers have want \<longleftrightarrow> set want \<subseteq> set have"
  by (auto simp: listCovers_def list_all_iff)

lemma Covers_refl [simp]: "Covers a a"
  by (simp add: Covers_def listCovers_iff)

lemma Covers_trans: "Covers a b \<Longrightarrow> Covers b c \<Longrightarrow> Covers a c"
  by (auto simp: Covers_def listCovers_iff)

lemma Covers_nothing [simp]: "Covers a no_authority"
  by (simp add: Covers_def listCovers_iff no_authority_def)

section \<open>Paths\<close>

text \<open>Where a path leads from a directory, whose segments are \<open>base\<close>.\<close>

definition resolve_in :: "string list \<Rightarrow> string \<Rightarrow> string list" where
  "resolve_in base s = rev (clean_parts True (rev base) s)"

definition ordinary :: "string \<Rightarrow> bool" where
  "ordinary p \<longleftrightarrow> p \<noteq> [] \<and> p \<noteq> ''.'' \<and> p \<noteq> ''..''"

lemma clean_step_cases:
  "p = [] \<or> p = ''.'' \<Longrightarrow> clean_step r kept p = kept"
  "ordinary p \<Longrightarrow> clean_step r kept p = p # kept"
  "ordinary q \<Longrightarrow> clean_step r (q # kept) ''..'' = kept"
  "clean_step True [] ''..'' = []"
  "clean_step False (replicate n ''..'') ''..'' = replicate (Suc n) ''..''"
  by (auto simp: clean_step_def ordinary_def) (cases n; simp)

lemma relative_shape:
  "\<exists>n ord. foldl (clean_step False) [] parts = ord @ replicate n ''..'' \<and> (\<forall>p\<in>set ord. ordinary p)
     \<and> ((\<forall>p\<in>set base. ordinary p) \<longrightarrow> foldl (clean_step True) base parts = ord @ drop n base)"
proof (induction parts rule: rev_induct)
  case Nil
  show ?case by (rule exI [of _ 0], rule exI [of _ "[]"]) simp
next
  case (snoc p parts)
  then obtain n ord where IH: "foldl (clean_step False) [] parts = ord @ replicate n ''..''" "\<forall>p\<in>set ord. ordinary p"
    "(\<forall>p\<in>set base. ordinary p) \<longrightarrow> foldl (clean_step True) base parts = ord @ drop n base" by blast
  consider "p = [] \<or> p = ''.''" | "ordinary p" | "p = ''..''" "ord = []" | q qs where "p = ''..''" "ord = q # qs"
    by (cases ord) (auto simp: ordinary_def)
  then show ?case
  proof cases
    case 1
    then show ?thesis using IH by (intro exI [of _ n] exI [of _ ord]) (simp add: clean_step_cases(1))
  next
    case 2
    then show ?thesis using IH by (intro exI [of _ n] exI [of _ "p # ord"]) (simp add: clean_step_cases(2))
  next
    case 3
    have "clean_step True (drop n base) ''..'' = drop (Suc n) base" if b: "\<forall>p\<in>set base. ordinary p"
    proof (cases "drop n base")
      case (Cons q qs)
      then have "ordinary q" using b in_set_dropD [of q n base] by auto
      then show ?thesis using Cons by (simp add: clean_step_cases(3) drop_Suc flip: tl_drop)
    qed (simp add: clean_step_cases(4))
    then show ?thesis using IH 3 by (intro exI [of _ "Suc n"] exI [of _ "[]"]) (auto simp: clean_step_cases(5))
  next
    case 4
    then show ?thesis using IH by (intro exI [of _ n] exI [of _ qs]) (auto simp: clean_step_cases(3))
  qed
qed

lemma join_path_up: "join_path (''..'' # ps) = ''..'' \<or> has_prefix (join_path (''..'' # ps)) ''../''"
  by (cases ps) (auto simp: has_prefix_def)

lemma relative_path_inside:
  assumes rel: "\<not> path_is_abs s" and ok: "path_clean s \<noteq> ''.''" "path_clean s \<noteq> ''..''" "\<not> has_prefix (path_clean s) ''../''"
    and base: "\<forall>p\<in>set base. ordinary p"
  shows "\<exists>rest. rest \<noteq> [] \<and> resolve_in base s = base @ rest"
proof -
  let ?parts = "split_byte CHR ''/'' s"
  obtain n ord where k: "foldl (clean_step False) [] ?parts = ord @ replicate n ''..''"
    "foldl (clean_step True) (rev base) ?parts = ord @ drop n (rev base)"
    using relative_shape [of ?parts "rev base"] base by auto
  have c: "path_clean s = (let out = join_path (replicate n ''..'' @ rev ord) in if out = [] then ''.'' else out)"
    using rel k by (simp add: path_clean_def clean_parts_def Let_def)
  have n: "n = 0"
  proof (rule ccontr)
    assume "n \<noteq> 0"
    then obtain m where "n = Suc m" by (cases n) auto
    then show False using c ok join_path_up [of "replicate m ''..'' @ rev ord"] by (auto simp: Let_def split: if_splits)
  qed
  moreover have "ord \<noteq> []" using c n ok by auto
  ultimately show ?thesis using k by (intro exI [of _ "rev ord"]) (simp add: resolve_in_def clean_parts_def)
qed

section \<open>Files\<close>

lemma file_modes_dom: "fst ` set (file_modes files) = fl_path ` set files"
proof -
  have "fst ` set (fold (\<lambda>f m. map_put (fl_path f) (fl_mode f) m) files m) = fst ` set m \<union> fl_path ` set files" for m
    by (induction files arbitrary: m) auto
  then show ?thesis by (simp add: file_modes_def)
qed

lemma file_modes_file: "map_of (file_modes files) p = Some mode \<Longrightarrow> \<exists>f\<in>set files. fl_path f = p \<and> fl_mode f = mode"
proof -
  have "map_of (fold (\<lambda>f m. map_put (fl_path f) (fl_mode f) m) files m) p = Some mode \<Longrightarrow>
      map_of m p = Some mode \<or> (\<exists>f\<in>set files. fl_path f = p \<and> fl_mode f = mode)" for m
  proof (induction files arbitrary: m)
    case (Cons f files)
    show ?case using Cons.IH [of "map_put (fl_path f) (fl_mode f) m"] Cons.prems by (auto split: if_splits)
  qed simp
  then show "map_of (file_modes files) p = Some mode \<Longrightarrow> ?thesis" by (fastforce simp: file_modes_def)
qed

lemma extension_paths_declared:
  "extension_paths modes i es paths = Inr ps \<Longrightarrow>
   set ps = set paths \<union> ex_path ` set es \<and> (\<forall>e\<in>set es. validSurface (ex_surface e))"
  by (induction modes i es paths rule: extension_paths.induct) (auto split: if_splits option.splits)

text \<open>A file that is executable or host code is one of the extensions the package declares, of a surface the host has a
  contract for.\<close>

definition declared_extension :: "Descriptor \<Rightarrow> string \<Rightarrow> bool" where
  "declared_extension d p \<longleftrightarrow> (\<exists>e\<in>set (cb_extensions (ds_contributes d)). ex_path e = p \<and> validSurface (ex_surface e))"

lemma valid_file:
  assumes ok: "ValidateDescriptor d = None" and f: "f \<in> set (ds_files d)"
  shows "fl_path f \<noteq> []" "\<not> path_is_abs (fl_path f)" "path_clean (fl_path f) \<noteq> ''.''" "path_clean (fl_path f) \<noteq> ''..''"
    "\<not> has_prefix (path_clean (fl_path f)) ''../''"
    "fl_mode f AND 73 \<noteq> 0 \<or> isHostCodePath (path_clean (fl_path f)) \<Longrightarrow> declared_extension d (fl_path f)"
proof -
  obtain ps where ps: "validateExtensions d = Inr ps"
    "\<forall>x\<in>set (enumerate 0 (ds_files d)). (case x of (i, file) \<Rightarrow> validateFile i file (fl_path file \<in> set ps)) = None"
    using ok by (auto simp: ValidateDescriptor_def split: sum.splits)
  obtain i where "(i, f) \<in> set (enumerate 0 (ds_files d))" using f by (metis imageE map_snd_enumerate prod.collapse set_map)
  then have v: "validateFile i f (fl_path f \<in> set ps) = None" using ps(2) by fastforce
  have e: "set ps = ex_path ` set (cb_extensions (ds_contributes d))" "\<forall>e\<in>set (cb_extensions (ds_contributes d)). validSurface (ex_surface e)"
    using ps(1) extension_paths_declared by (fastforce simp: validateExtensions_def)+
  show "fl_path f \<noteq> []" "\<not> path_is_abs (fl_path f)" "path_clean (fl_path f) \<noteq> ''.''" "path_clean (fl_path f) \<noteq> ''..''"
    "\<not> has_prefix (path_clean (fl_path f)) ''../''" using v by (auto simp: validateFile_def Let_def)
  show "declared_extension d (fl_path f)" if "fl_mode f AND 73 \<noteq> 0 \<or> isHostCodePath (path_clean (fl_path f))"
    using v e that by (auto simp: validateFile_def Let_def declared_extension_def split: if_splits)
qed

section \<open>Layers\<close>

lemma check_layer_found:
  assumes "check_layer hs declared found = Inr names" "distinct found" "set found \<subseteq> fst ` set declared"
  shows "set names = set found \<union> th_name ` set hs \<and> distinct names \<and> set names \<subseteq> fst ` set declared \<and> distinct (map th_name hs)
    \<and> length names = length found + length hs
    \<and> (\<forall>h\<in>set hs. th_name h \<notin> set found \<and> th_regular h \<and> (\<exists>mode. map_of declared (th_name h) = Some mode
          \<and> (ucast (th_mode h AND 511) :: 32 word) = mode AND 511))"
  using assms
proof (induction hs arbitrary: found)
  case (Cons h hs)
  obtain mode where m: "th_regular h" "map_of declared (th_name h) = Some mode" "th_name h \<notin> set found"
    "(ucast (th_mode h AND 511) :: 32 word) = mode AND 511" "check_layer hs declared (th_name h # found) = Inr names"
    using Cons.prems(1) by (auto simp: validateLayerEntry_def split: option.splits)
  have "fst ` set declared \<supseteq> set (th_name h # found)" using Cons.prems(3) m(2) by (auto dest: map_of_SomeD intro: rev_image_eqI)
  then show ?case using Cons.IH [OF m(5)] Cons.prems(2) m by auto
qed simp

lemma permission_bits:
  fixes w :: "64 word" and mode :: "32 word"
  assumes "ucast (w AND 511) = mode AND 511" "w AND 73 \<noteq> 0"
  shows "mode AND 73 \<noteq> 0"
proof
  assume z: "mode AND 73 = 0"
  have "(ucast (w AND 73) :: 32 word) = ucast (w AND 511) AND 73"
    by (simp add: unsigned_and_eq and.assoc)
  also have "\<dots> = mode AND 73" unfolding assms(1) by (simp add: and.assoc)
  finally have "unat (ucast (w AND 73) :: 32 word) = 0" using z by simp
  then have "unat (w AND 73) mod 2 ^ 32 = 0" by (simp add: unsigned_ucast_eq take_bit_eq_mod)
  moreover have "w AND 73 \<le> 73" by (rule word_and_le1)
  ultimately have "unat (w AND 73) = 0" by (simp add: word_le_nat_alt)
  then show False using assms(2) by (simp only: unat_eq_zero)
qed

lemma validated_layer:
  assumes "validateLayer lc layer mediaType files = None"
  obtains st hs where "layer_stream lc mediaType layer = Inr st" "lc_tar lc (limit_stream (maxPackageBytes + 1) st) = (hs, True)"
    "distinct (map th_name hs)" "distinct (map fl_path files)" "th_name ` set hs = fl_path ` set files"
    "\<And>h. h \<in> set hs \<Longrightarrow> th_regular h \<and> (\<exists>f\<in>set files. fl_path f = th_name h \<and> ucast (th_mode h AND 511) = fl_mode f AND 511)"
proof -
  obtain st hs names where st: "layer_stream lc mediaType layer = Inr st" "lc_tar lc (limit_stream (maxPackageBytes + 1) st) = (hs, True)"
    and h: "True" "check_layer hs (file_modes files) [] = Inr names" "length names = length files"
    using assms by (auto simp: validateLayer_def guard_err_def split: option.splits sum.splits prod.splits if_splits)
  note n = check_layer_found [OF h(2), simplified]
  have sub: "th_name ` set hs \<subseteq> fl_path ` set files" using n by (auto simp: file_modes_dom)
  have card: "card (th_name ` set hs) = length files" using n h(3) distinct_card [of names] by simp
  then have "card (fl_path ` set files) = length files"
    using sub by (metis card_length card_mono finite_imageI finite_set le_antisym length_map list.set_map)
  then have "distinct (map fl_path files)" "th_name ` set hs = fl_path ` set files"
    using sub card by (simp_all add: card_distinct card_subset_eq)
  then show ?thesis using that [OF st] n file_modes_file by metis
qed

text \<open>C21: Whatever a registry answers, a package that was fetched has in its layer, read as its media type says, exactly
  the files its descriptor declares, each once and as a regular file; unpacked in any directory each stays inside
  it; and a file that can be executed is one of the extensions the descriptor declares, of a surface the host has a
  contract for.\<close>

theorem fetched_package_contained:
  assumes ok: "decodeOCI contentDigest json yaml lc manifest layer pin = Inr (d, content)" and base: "\<forall>p\<in>set base. ordinary p"
  shows "\<exists>img mediaType st hs. json manifest = Some img \<and> om_layers img = [(int (length content), contentDigest content, mediaType)]
    \<and> layer_stream lc mediaType content = Inr st \<and> lc_tar lc (limit_stream (maxPackageBytes + 1) st) = (hs, True)
    \<and> distinct (map th_name hs) \<and> th_name ` set hs = fl_path ` set (ds_files d)
    \<and> (\<forall>h\<in>set hs. th_regular h \<and> (\<exists>rest. rest \<noteq> [] \<and> resolve_in base (th_name h) = base @ rest)
        \<and> (th_mode h AND 73 \<noteq> 0 \<longrightarrow> declared_extension d (th_name h)))"
proof -
  obtain img mediaType where m: "json manifest = Some img" "om_layers img = [(int (length content), contentDigest content, mediaType)]"
    and v: "ValidateDescriptor d = None" "validateLayer lc content mediaType (ds_files d) = None"
    using ok by (auto simp: decodeOCI_def DecodeDescriptor_def split: if_splits option.splits list.splits sum.splits prod.splits)
  obtain st hs where st: "layer_stream lc mediaType content = Inr st" "lc_tar lc (limit_stream (maxPackageBytes + 1) st) = (hs, True)"
    and h: "True" "distinct (map th_name hs)" "th_name ` set hs = fl_path ` set (ds_files d)"
    "\<And>h. h \<in> set hs \<Longrightarrow> th_regular h \<and> (\<exists>f\<in>set (ds_files d). fl_path f = th_name h \<and> ucast (th_mode h AND 511) = fl_mode f AND 511)"
    using validated_layer [OF v(2)] by metis
  have "th_regular h \<and> (\<exists>rest. rest \<noteq> [] \<and> resolve_in base (th_name h) = base @ rest) \<and> (th_mode h AND 73 \<noteq> 0 \<longrightarrow> declared_extension d (th_name h))"
    if in_layer: "h \<in> set hs" for h
  proof -
    obtain f where f: "f \<in> set (ds_files d)" "fl_path f = th_name h" "ucast (th_mode h AND 511) = fl_mode f AND 511" "th_regular h"
      using h(4) [OF in_layer] by auto
    show ?thesis using relative_path_inside [OF valid_file(2-5) [OF v(1) f(1)] base] valid_file(6) [OF v(1) f(1)] permission_bits [OF f(3)] f
      by auto
  qed
  with h st m show ?thesis by blast
qed

definition demo_digest :: string where
  "demo_digest = ''sha256:'' @ replicate 64 CHR ''a''"

definition demo_contributions :: Contributions where
  "demo_contributions = \<lparr>cb_workflows = [], cb_prompts = [], cb_skills = [''s/SKILL.md''], cb_mcpServers = [], cb_defaults = [],
     cb_playbooks = [], cb_profiles = [], cb_extensions = [\<lparr>ex_surface = ''forge'', ex_path = ''bin/f''\<rparr>]\<rparr>"

definition demo_descriptor :: Descriptor where
  "demo_descriptor = \<lparr>ds_apiVersion = APIVersion, ds_displayName = ''Demo'', ds_description = [], ds_version = ''1'',
     ds_contributes = demo_contributions, ds_requires = [], ds_authority = no_authority\<lparr>au_tools := [''grep'']\<rparr>,
     ds_files = [\<lparr>fl_path = ''s/SKILL.md'', fl_mode = 420\<rparr>, \<lparr>fl_path = ''bin/f'', fl_mode = 493\<rparr>]\<rparr>"

definition demo_layer :: "tar_header list" where
  "demo_layer = [\<lparr>th_name = ''bin/f'', th_regular = True, th_mode = 493, th_content = ''elf''\<rparr>,
     \<lparr>th_name = ''s/SKILL.md'', th_regular = True, th_mode = 420, th_content = ''text''\<rparr>]"

definition demo_codecs :: layer_codecs where
  "demo_codecs = \<lparr>lc_tar_type = ''tar'', lc_gzip_type = ''gzip'', lc_gunzip = (\<lambda>_. None), lc_tar = (\<lambda>_. (demo_layer, True))\<rparr>"

definition demo_fetch :: "fetch_error + (Descriptor \<times> string)" where
  "demo_fetch = decodeOCI (\<lambda>_. demo_digest) (\<lambda>_. Some \<lparr>om_schema = 2, om_layers = [(5, demo_digest, ''tar'')], om_descriptor = Some ''y''\<rparr>)
     (\<lambda>_. Some (demo_descriptor, True)) demo_codecs ''m'' ''layer'' demo_digest"

lemma demo_texts: "\<not> blank ''Demo''" "\<not> blank ''1''" "\<not> blank ''grep''"
  by (rule not_blank_visible; simp add: ascii_visible_def byte_of_def)+

lemma demo_paths: "path_clean ''s/SKILL.md'' = ''s/SKILL.md''" "path_clean ''bin/f'' = ''bin/f''" "path_ext ''s/SKILL.md'' = ''.md''"
  "file_modes (ds_files demo_descriptor) = [(''s/SKILL.md'', 420), (''bin/f'', 493)]"
  by code_simp+

lemma demo_valid: "ValidateDescriptor demo_descriptor = None"
proof -
  have "ValidateAuthority (ds_authority demo_descriptor) = None"
    by (simp add: ValidateAuthority_def check_grants_def demo_descriptor_def no_authority_def demo_texts)
  moreover have "validateExtensions demo_descriptor = Inr [''bin/f'']"
    unfolding validateExtensions_def demo_paths(4) by (simp add: demo_descriptor_def demo_contributions_def validSurface_def)
  moreover have "validateFile 0 \<lparr>fl_path = ''s/SKILL.md'', fl_mode = 420\<rparr> False = None" "validateFile 1 \<lparr>fl_path = ''bin/f'', fl_mode = 493\<rparr> True = None"
    by (simp_all add: validateFile_def demo_paths has_prefix_def path_is_abs_def isHostCodePath_def host_code_extensions_def
        lower_char_def byte_of_def)
  ultimately show ?thesis
    by (simp add: ValidateDescriptor_def demo_texts hasContribution_def demo_descriptor_def demo_contributions_def Let_def)
qed

lemma demo_layer_ok: "validateLayer demo_codecs ''layer'' ''tar'' (ds_files demo_descriptor) = None"
  unfolding validateLayer_def demo_paths(4)
  by (simp add: layer_stream_def demo_codecs_def demo_layer_def validateLayerEntry_def demo_paths has_prefix_def) (simp add: demo_descriptor_def)

lemma demo_fetch_ok: "demo_fetch = Inr (demo_descriptor, ''layer'')"
  by (simp add: demo_fetch_def decodeOCI_def DecodeDescriptor_def demo_valid demo_layer_ok)

theorem fetched_package_contained_witness:
  "demo_fetch = Inr (demo_descriptor, ''layer'') \<and> (\<exists>h\<in>set demo_layer. th_mode h AND 73 \<noteq> 0 \<and> declared_extension demo_descriptor (th_name h))"
proof -
  have "\<exists>img mediaType st hs. (\<lambda>_. Some \<lparr>om_schema = 2, om_layers = [(5, demo_digest, ''tar'')], om_descriptor = Some ''y''\<rparr>) ''m'' = Some img
    \<and> om_layers img = [(int (length ''layer''), (\<lambda>_. demo_digest) ''layer'', mediaType)]
    \<and> layer_stream demo_codecs mediaType ''layer'' = Inr st \<and> lc_tar demo_codecs (limit_stream (maxPackageBytes + 1) st) = (hs, True)
    \<and> distinct (map th_name hs) \<and> th_name ` set hs = fl_path ` set (ds_files demo_descriptor)
    \<and> (\<forall>h\<in>set hs. th_regular h \<and> (\<exists>rest. rest \<noteq> [] \<and> resolve_in [''srv''] (th_name h) = [''srv''] @ rest)
        \<and> (th_mode h AND 73 \<noteq> 0 \<longrightarrow> declared_extension demo_descriptor (th_name h)))"
    by (rule fetched_package_contained [OF demo_fetch_ok [unfolded demo_fetch_def]]) (simp add: ordinary_def)
  then have "\<forall>h\<in>set demo_layer. th_mode h AND 73 \<noteq> 0 \<longrightarrow> declared_extension demo_descriptor (th_name h)"
    by (auto simp: demo_codecs_def)
  then show ?thesis using demo_fetch_ok by (simp add: demo_layer_def)
qed

end
