(* ===== verification/Package_Service_Spec.thy ===== *)
theory Package_Service_Spec
  imports Package_Service Package_Descriptor_Spec
begin

text \<open>
  What holds of the installed packages of every org along every run of the service: the tables keep their invariant,
  what a package requires is installed at the digest it names, and a package holds only the authority an operator
  accepted for it. The projectors enter through the locale \<open>package_projectors\<close>: they may change documents and the ledger
  of contributions, and not the packages.
\<close>

section \<open>Reading the table after a statement\<close>

lemma get_row: "q_GetInstalledPackage orgID name db = Some r \<Longrightarrow> r \<in> set (pd_rows db) \<and> pk_org r = orgID \<and> pk_name r = name"
  by (auto simp: q_GetInstalledPackage_def package_at_def dest: find_SomeD)

lemma get_none: "q_GetInstalledPackage orgID name db = None \<longleftrightarrow> (\<forall>r\<in>set (pd_rows db). \<not> package_at orgID name r)"
  by (auto simp: q_GetInstalledPackage_def find_None_iff)

definition row_key :: "package_row \<Rightarrow> string \<times> string" where
  "row_key r = (pk_org r, pk_name r)"

lemma row_get:
  assumes "distinct (map row_key (pd_rows db))" "r \<in> set (pd_rows db)"
  shows "q_GetInstalledPackage (pk_org r) (pk_name r) db = Some r"
proof -
  have "distinct (map row_key rows) \<Longrightarrow> r \<in> set rows \<Longrightarrow> find (package_at (pk_org r) (pk_name r)) rows = Some r" for rows
    by (induction rows) (auto simp: package_at_def row_key_def image_iff)
  then show ?thesis using assms by (simp add: q_GetInstalledPackage_def)
qed

lemma get_append: "q_GetInstalledPackage o1 n1 (db\<lparr>pd_rows := pd_rows db @ [r]\<rparr>) =
    (case q_GetInstalledPackage o1 n1 db of Some x \<Rightarrow> Some x | None \<Rightarrow> if row_key r = (o1, n1) then Some r else None)"
  by (auto simp: q_GetInstalledPackage_def find_append package_at_def row_key_def split: option.splits)

lemma get_update:
  assumes "\<And>r. row_key (f r) = row_key r"
  shows "q_GetInstalledPackage o1 n1 (snd (update_package o2 n2 f db)) =
      (if (o1, n1) = (o2, n2) then map_option f (q_GetInstalledPackage o1 n1 db) else q_GetInstalledPackage o1 n1 db)"
    and "map row_key (pd_rows (snd (update_package o2 n2 f db))) = map row_key (pd_rows db)"
    and "pd_requirements (snd (update_package o2 n2 f db)) = pd_requirements db"
    and "fst (update_package o2 n2 f db) \<noteq> 0 \<longleftrightarrow> q_GetInstalledPackage o2 n2 db \<noteq> None"
proof -
  have k: "pk_org (f r) = pk_org r" "pk_name (f r) = pk_name r" for r using assms [of r] by (auto simp: row_key_def)
  have "find (package_at o1 n1) (map (\<lambda>r. if package_at o2 n2 r then f r else r) rows) =
      (if (o1, n1) = (o2, n2) then map_option f (find (package_at o1 n1) rows) else find (package_at o1 n1) rows)" for rows
    by (induction rows) (auto simp: package_at_def [abs_def] k)
  then show "q_GetInstalledPackage o1 n1 (snd (update_package o2 n2 f db)) =
      (if (o1, n1) = (o2, n2) then map_option f (q_GetInstalledPackage o1 n1 db) else q_GetInstalledPackage o1 n1 db)"
    by (simp add: q_GetInstalledPackage_def update_package_def)
  show "fst (update_package o2 n2 f db) \<noteq> 0 \<longleftrightarrow> q_GetInstalledPackage o2 n2 db \<noteq> None"
    by (auto simp: update_package_def q_GetInstalledPackage_def find_None_iff filter_empty_conv)
qed (auto simp: update_package_def assms)

lemma insertInstalledRequirements_rows:
  "insertInstalledRequirements orgID name refs db = Inr db' \<Longrightarrow>
   pd_rows db' = pd_rows db \<and> pd_ledger db' = pd_ledger db \<and>
   pd_requirements db' = pd_requirements db @ map (\<lambda>ref. \<lparr>rq_org = orgID, rq_package = name, rq_required = pr_name ref, rq_digest = pr_digest ref\<rparr>) refs"
  by (induction refs arbitrary: db) (auto simp: q_InsertInstalledRequirement_def split: sum.splits if_splits)

lemma checkInstalledRequirements_met:
  "checkInstalledRequirements orgID refs db = None \<longleftrightarrow>
   (\<forall>ref\<in>set refs. \<exists>r. q_GetInstalledPackage orgID (pr_name ref) db = Some r \<and> pk_digest r = pr_digest ref)"
  by (induction refs) (auto split: option.splits)

section \<open>The invariant of the tables\<close>

definition row_refs :: "package_row \<Rightarrow> (string \<times> string) set" where
  "row_refs r = (\<lambda>ref. (pr_name ref, pr_digest ref)) ` set (ds_requires (pk_descriptor r))"

definition row_ok :: "package_row \<Rightarrow> bool" where
  "row_ok r \<longleftrightarrow> ValidateDescriptor (pk_descriptor r) = None \<and> digestPattern (pk_digest r) \<and> (pk_policy r = PolicyManual \<or> pk_policy r = PolicyAuto)"

definition requirement_set :: "string \<Rightarrow> string \<Rightarrow> package_db \<Rightarrow> (string \<times> string) set" where
  "requirement_set orgID name db = (\<lambda>q. (rq_required q, rq_digest q)) ` {q \<in> set (pd_requirements db). rq_org q = orgID \<and> rq_package q = name}"

text \<open>The requirement rows of a package are what its descriptor requires, and each on another package is met by an
  installed package at exactly that digest.\<close>

definition requirements_met :: "package_db \<Rightarrow> bool" where
  "requirements_met db \<longleftrightarrow> (\<forall>orgID name required digest. (required, digest) \<in> requirement_set orgID name db \<longrightarrow> required \<noteq> name \<longrightarrow>
     (\<exists>r. q_GetInstalledPackage orgID required db = Some r \<and> pk_digest r = digest))"

definition package_inv :: "package_db \<Rightarrow> bool" where
  "package_inv db \<longleftrightarrow> distinct (map row_key (pd_rows db)) \<and> (\<forall>r\<in>set (pd_rows db). row_ok r) \<and>
     (\<forall>orgID name. requirement_set orgID name db = (case q_GetInstalledPackage orgID name db of None \<Rightarrow> {} | Some r \<Rightarrow> row_refs r)) \<and>
     requirements_met db"

definition same_packages :: "package_db \<Rightarrow> package_db \<Rightarrow> bool" where
  "same_packages db db' \<longleftrightarrow> pd_rows db' = pd_rows db \<and> pd_requirements db' = pd_requirements db"

lemma same_packages_refl [simp]: "same_packages db db"
  by (simp add: same_packages_def)

lemma same_packages_trans: "same_packages a b \<Longrightarrow> same_packages b c \<Longrightarrow> same_packages a c"
  by (simp add: same_packages_def)

lemma same_packages_get: "same_packages db db' \<Longrightarrow> q_GetInstalledPackage orgID name db' = q_GetInstalledPackage orgID name db"
  by (simp add: same_packages_def q_GetInstalledPackage_def)

lemma same_packages_inv: "same_packages db db' \<Longrightarrow> package_inv db' = package_inv db"
  by (simp add: package_inv_def requirements_met_def same_packages_get) (simp add: same_packages_def requirement_set_def)

lemma InstallRow_effect:
  assumes "InstallRow p db = Inr db'"
  obtains r where "pd_rows db' = pd_rows db @ [r]" "row_key r = (in_org p, in_name p)" "pk_accepted r = None" "pk_previous_accepted r = None"
    "row_ok r" "pk_descriptor r = in_descriptor p" "pk_digest r = in_digest p"
    "q_GetInstalledPackage (in_org p) (in_name p) db = None"
    "checkInstalledRequirements (in_org p) (ds_requires (in_descriptor p)) db = None"
    "pd_requirements db' = pd_requirements db @ map (\<lambda>ref. \<lparr>rq_org = in_org p, rq_package = in_name p, rq_required = pr_name ref,
       rq_digest = pr_digest ref\<rparr>) (ds_requires (in_descriptor p))"
proof -
  obtain db1 where i: "q_InsertInstalledPackage p db = Inr db1" "ValidateDescriptor (in_descriptor p) = None"
    "checkInstalledRequirements (in_org p) (ds_requires (in_descriptor p)) db = None"
    "insertInstalledRequirements (in_org p) (in_name p) (ds_requires (in_descriptor p)) db1 = Inr db'"
    using assms by (auto simp: InstallRow_def split: if_splits option.splits sum.splits)
  note j = insertInstalledRequirements_rows [OF i(4)]
  have d: "digestPattern (in_digest p)" "in_policy p = PolicyManual \<or> in_policy p = PolicyAuto"
    "q_GetInstalledPackage (in_org p) (in_name p) db = None" using i(1) by (auto simp: q_InsertInstalledPackage_def split: if_splits)
  show ?thesis
    by (rule that [of "last (pd_rows db1)"]) (use i j d in \<open>auto simp: q_InsertInstalledPackage_def row_key_def row_ok_def split: if_splits\<close>)
qed

lemma ReplacePackage_effect:
  assumes "ReplacePackage p db = Inr db'"
  obtains db1 where "db1 = snd (update_package (in_org p) (in_name p) (replaced_row p) db)" "pd_rows db' = pd_rows db1"
    "ValidateDescriptor (in_descriptor p) = None" "digestPattern (in_digest p)"
    "q_GetInstalledPackage (in_org p) (in_name p) db \<noteq> None"
    "q_CountInstalledDependents (in_org p) (in_name p) db = 0"
    "checkInstalledRequirements (in_org p) (ds_requires (in_descriptor p)) db = None"
    "pd_requirements db' = filter (\<lambda>r. \<not> (rq_org r = in_org p \<and> rq_package r = in_name p)) (pd_requirements db)
       @ map (\<lambda>ref. \<lparr>rq_org = in_org p, rq_package = in_name p, rq_required = pr_name ref, rq_digest = pr_digest ref\<rparr>) (ds_requires (in_descriptor p))"
proof -
  have k: "row_key (replaced_row p r) = row_key r" for r by (simp add: row_key_def replaced_row_def)
  obtain n db1 where i: "q_ReplaceInstalledPackage p db = Inr (n, db1)" "n \<noteq> 0" "ValidateDescriptor (in_descriptor p) = None"
    "q_CountInstalledDependents (in_org p) (in_name p) db = 0" "checkInstalledRequirements (in_org p) (ds_requires (in_descriptor p)) db = None"
    "insertInstalledRequirements (in_org p) (in_name p) (ds_requires (in_descriptor p)) (q_DeleteInstalledRequirements (in_org p) (in_name p) db1) = Inr db'"
    using assms by (auto simp: ReplacePackage_def split: if_splits option.splits sum.splits)
  have u: "update_package (in_org p) (in_name p) (replaced_row p) db = (n, db1)" using i(1) by (auto simp: q_ReplaceInstalledPackage_def split: if_splits)
  then have g: "q_GetInstalledPackage (in_org p) (in_name p) db \<noteq> None" using get_update(4) [OF k, of "in_org p" "in_name p" db] i(2) by simp
  show ?thesis
    by (rule that [of db1]) (use i u g insertInstalledRequirements_rows [OF i(6)] get_update(3) [OF k, of "in_org p" "in_name p" db] in
      \<open>auto simp: q_DeleteInstalledRequirements_def q_ReplaceInstalledPackage_def split: if_splits\<close>)
qed

lemma requirement_set_add:
  assumes "pd_requirements db' = qs @ map (\<lambda>ref. \<lparr>rq_org = o1, rq_package = n1, rq_required = pr_name ref, rq_digest = pr_digest ref\<rparr>) refs"
  shows "requirement_set o2 n2 db' = (\<lambda>q. (rq_required q, rq_digest q)) ` {q \<in> set qs. rq_org q = o2 \<and> rq_package q = n2}
    \<union> (if (o2, n2) = (o1, n1) then (\<lambda>ref. (pr_name ref, pr_digest ref)) ` set refs else {})"
proof -
  have l: "requirement_set o2 n2 db' = set (map (\<lambda>q. (rq_required q, rq_digest q)) (filter (\<lambda>q. rq_org q = o2 \<and> rq_package q = n2) (pd_requirements db')))"
    by (simp add: requirement_set_def)
  have r: "filter (\<lambda>q. rq_org q = o2 \<and> rq_package q = n2) (map (\<lambda>ref. \<lparr>rq_org = o1, rq_package = n1, rq_required = pr_name ref,
      rq_digest = pr_digest ref\<rparr>) refs) = (if (o2, n2) = (o1, n1) then map (\<lambda>ref. \<lparr>rq_org = o1, rq_package = n1, rq_required = pr_name ref,
      rq_digest = pr_digest ref\<rparr>) refs else [])"
    by (induction refs) simp_all
  show ?thesis unfolding l assms filter_append r map_append set_append by (cases "(o2, n2) = (o1, n1)") (auto simp: image_image)
qed

lemma inv_requirements: "package_inv db \<Longrightarrow> requirements_met db"
  unfolding package_inv_def by (elim conjE)

lemma inv_met:
  assumes "package_inv db" "(required, digest) \<in> requirement_set orgID name db" "required \<noteq> name"
  shows "\<exists>r. q_GetInstalledPackage orgID required db = Some r \<and> pk_digest r = digest"
  using inv_requirements [OF assms(1)] assms(2,3) unfolding requirements_met_def by blast

lemma InstallRow_inv:
  assumes inv: "package_inv db" and ok: "InstallRow p db = Inr db'"
  shows "package_inv db'"
proof -
  obtain r where r: "pd_rows db' = pd_rows db @ [r]" "row_key r = (in_org p, in_name p)" "pk_accepted r = None" "pk_previous_accepted r = None"
    "row_ok r" "pk_descriptor r = in_descriptor p" "pk_digest r = in_digest p"
    "q_GetInstalledPackage (in_org p) (in_name p) db = None"
    "checkInstalledRequirements (in_org p) (ds_requires (in_descriptor p)) db = None"
    "pd_requirements db' = pd_requirements db @ map (\<lambda>ref. \<lparr>rq_org = in_org p, rq_package = in_name p, rq_required = pr_name ref,
       rq_digest = pr_digest ref\<rparr>) (ds_requires (in_descriptor p))"
    by (rule InstallRow_effect [OF ok])
  have g: "q_GetInstalledPackage o1 n1 db' = (case q_GetInstalledPackage o1 n1 db of Some x \<Rightarrow> Some x
      | None \<Rightarrow> if (in_org p, in_name p) = (o1, n1) then Some r else None)" for o1 n1
    using get_append [of o1 n1 db r] r(1,2) by (auto simp: q_GetInstalledPackage_def)
  have q: "requirement_set o1 n1 db' = requirement_set o1 n1 db \<union> (if (o1, n1) = (in_org p, in_name p) then row_refs r else {})" for o1 n1
    using requirement_set_add [OF r(10), of o1 n1] r(6) by (simp add: requirement_set_def row_refs_def)
  have "distinct (map row_key (pd_rows db'))" using inv r(1,2,8) by (auto simp: package_inv_def get_none package_at_def row_key_def)
  moreover have "requirement_set o1 n1 db' = (case q_GetInstalledPackage o1 n1 db' of None \<Rightarrow> {} | Some r \<Rightarrow> row_refs r)" for o1 n1
    using inv r(8) by (auto simp: g q package_inv_def split: option.splits)
  moreover have "\<exists>x. q_GetInstalledPackage o1 required db' = Some x \<and> pk_digest x = digest"
    if "(required, digest) \<in> requirement_set o1 n1 db'" "required \<noteq> n1" for o1 n1 required digest
  proof -
    have "\<exists>x. q_GetInstalledPackage o1 required db = Some x \<and> pk_digest x = digest"
      using inv_met [OF inv _ that(2)] that(1) r(6,9) unfolding q checkInstalledRequirements_met row_refs_def by (auto split: if_splits)
    then show ?thesis by (auto simp: g)
  qed
  moreover have "\<forall>x\<in>set (pd_rows db'). row_ok x" using inv r(1,5) by (auto simp: package_inv_def)
  ultimately show ?thesis unfolding package_inv_def requirements_met_def by blast
qed

lemma ReplacePackage_inv:
  assumes inv: "package_inv db" and ok: "ReplacePackage p db = Inr db'"
  shows "package_inv db'"
proof -
  let ?o = "in_org p" and ?n = "in_name p"
  have k: "row_key (replaced_row p r) = row_key r" for r by (simp add: row_key_def replaced_row_def)
  obtain db1 where d: "db1 = snd (update_package ?o ?n (replaced_row p) db)" "pd_rows db' = pd_rows db1"
    "ValidateDescriptor (in_descriptor p) = None" "digestPattern (in_digest p)" "q_GetInstalledPackage ?o ?n db \<noteq> None"
    "q_CountInstalledDependents ?o ?n db = 0" "checkInstalledRequirements ?o (ds_requires (in_descriptor p)) db = None"
    "pd_requirements db' = filter (\<lambda>r. \<not> (rq_org r = ?o \<and> rq_package r = ?n)) (pd_requirements db)
       @ map (\<lambda>ref. \<lparr>rq_org = ?o, rq_package = ?n, rq_required = pr_name ref, rq_digest = pr_digest ref\<rparr>) (ds_requires (in_descriptor p))"
    by (rule ReplacePackage_effect [OF ok])
  have g: "q_GetInstalledPackage o1 n1 db' = (if (o1, n1) = (?o, ?n) then map_option (replaced_row p) (q_GetInstalledPackage o1 n1 db)
      else q_GetInstalledPackage o1 n1 db)" for o1 n1
    using get_update(1) [OF k, of o1 n1 ?o ?n db] d(1,2) by (simp add: q_GetInstalledPackage_def)
  have refs: "row_refs (replaced_row p r) = (\<lambda>ref. (pr_name ref, pr_digest ref)) ` set (ds_requires (in_descriptor p))" for r
    by (simp add: row_refs_def replaced_row_def)
  have q: "requirement_set o1 n1 db' = (if (o1, n1) = (?o, ?n) then (\<lambda>ref. (pr_name ref, pr_digest ref)) ` set (ds_requires (in_descriptor p))
      else requirement_set o1 n1 db)" for o1 n1
    using requirement_set_add [OF d(8), of o1 n1] by (auto simp: requirement_set_def)
  have nodep: "(?n, digest) \<notin> requirement_set ?o n1 db" for n1 digest
    using d(6) by (auto simp: q_CountInstalledDependents_def requirement_set_def filter_empty_conv)
  have "requirement_set o1 n1 db' = (case q_GetInstalledPackage o1 n1 db' of None \<Rightarrow> {} | Some r \<Rightarrow> row_refs r)" for o1 n1
    using inv d(5) by (auto simp: g q refs package_inv_def split: option.splits)
  moreover have "\<exists>x. q_GetInstalledPackage o1 required db' = Some x \<and> pk_digest x = digest"
    if m: "(required, digest) \<in> requirement_set o1 n1 db'" "required \<noteq> n1" for o1 n1 required digest
  proof (cases "(o1, n1) = (?o, ?n)")
    case True
    then have "\<exists>x. q_GetInstalledPackage o1 required db = Some x \<and> pk_digest x = digest" using m(1) d(7)
      by (auto simp: q checkInstalledRequirements_met)
    then show ?thesis using True m(2) by (simp add: g)
  next
    case False
    then have i: "(required, digest) \<in> requirement_set o1 n1 db" using m(1) by (simp only: q if_False)
    then have "(o1, required) \<noteq> (?o, ?n)" using nodep by auto
    moreover have "\<exists>x. q_GetInstalledPackage o1 required db = Some x \<and> pk_digest x = digest"
      by (rule inv_met [OF inv i m(2)])
    ultimately show ?thesis by (auto simp: g)
  qed
  moreover have "\<forall>x\<in>set (pd_rows db'). row_ok x" using inv d(1-4) by (auto simp: package_inv_def update_package_def row_ok_def replaced_row_def)
  moreover have "distinct (map row_key (pd_rows db'))" using inv d(1,2) get_update(2) [OF k, of ?o ?n db] by (simp add: package_inv_def)
  ultimately show ?thesis unfolding package_inv_def requirements_met_def by blast
qed

lemma RemoveRow_effect:
  assumes "RemoveRow orgID name db = Inr db'"
  shows "pd_rows db' = filter (\<lambda>r. \<not> package_at orgID name r) (pd_rows db)"
    "pd_requirements db' = filter (\<lambda>r. \<not> (rq_org r = orgID \<and> rq_package r = name)) (pd_requirements db)"
    "\<forall>q\<in>set (pd_requirements db'). \<not> (rq_org q = orgID \<and> rq_required q = name)"
  using assms by (auto simp: RemoveRow_def q_DeleteInstalledPackage_def q_DeleteInstalledRequirements_def q_CountInstalledDependents_def
      filter_empty_conv Let_def split: if_splits sum.splits)

lemma RemoveRow_inv:
  assumes inv: "package_inv db" and ok: "RemoveRow orgID name db = Inr db'"
  shows "package_inv db'"
proof -
  note e = RemoveRow_effect [OF ok]
  have "find (package_at o1 n1) (filter (\<lambda>r. \<not> package_at orgID name r) rows) =
      (if (o1, n1) = (orgID, name) then None else find (package_at o1 n1) rows)" for o1 n1 rows
    by (induction rows) (auto simp: package_at_def [abs_def])
  then have g: "q_GetInstalledPackage o1 n1 db' = (if (o1, n1) = (orgID, name) then None else q_GetInstalledPackage o1 n1 db)" for o1 n1
    by (simp add: q_GetInstalledPackage_def e(1))
  have q: "requirement_set o1 n1 db' = (if (o1, n1) = (orgID, name) then {} else requirement_set o1 n1 db)" for o1 n1
    by (auto simp: requirement_set_def e(2))
  have "\<exists>x. q_GetInstalledPackage o1 required db' = Some x \<and> pk_digest x = digest"
    if m: "(required, digest) \<in> requirement_set o1 n1 db'" "required \<noteq> n1" for o1 n1 required digest
  proof -
    have "(o1, required) \<noteq> (orgID, name)" using m(1) e(3) by (auto simp: requirement_set_def)
    moreover have "\<exists>x. q_GetInstalledPackage o1 required db = Some x \<and> pk_digest x = digest"
      using inv_met [OF inv _ m(2)] m(1) by (auto simp: q split: if_splits)
    ultimately show ?thesis by (auto simp: g)
  qed
  moreover have "requirement_set o1 n1 db' = (case q_GetInstalledPackage o1 n1 db' of None \<Rightarrow> {} | Some r \<Rightarrow> row_refs r)" for o1 n1
    using inv by (auto simp: g q package_inv_def)
  moreover have "distinct (map row_key (pd_rows db'))" "\<forall>x\<in>set (pd_rows db'). row_ok x"
    using inv by (auto simp: package_inv_def e(1) distinct_map_filter)
  ultimately show ?thesis unfolding package_inv_def requirements_met_def by blast
qed

text \<open>The statements that change neither key nor pin nor descriptor of a row.\<close>

lemma update_package_inv:
  assumes inv: "package_inv db" and f: "\<And>r. row_key (f r) = row_key r" "\<And>r. pk_digest (f r) = pk_digest r" "\<And>r. pk_descriptor (f r) = pk_descriptor r"
    and ok: "\<And>r. row_ok r \<Longrightarrow> row_ok (f r)"
  shows "package_inv (snd (update_package orgID name f db))"
proof -
  note g = get_update(1) [OF f(1), of _ _ orgID name db] get_update(2) [OF f(1), of orgID name db]
  have refs: "row_refs (f r) = row_refs r" for r by (simp add: row_refs_def f(3))
  have req: "requirement_set o1 n1 (snd (update_package orgID name f db)) = requirement_set o1 n1 db" for o1 n1
    by (simp add: requirement_set_def update_package_def)
  have "requirement_set o1 n1 db = (case q_GetInstalledPackage o1 n1 (snd (update_package orgID name f db)) of None \<Rightarrow> {} | Some r \<Rightarrow> row_refs r)" for o1 n1
    using inv by (auto simp: g(1) refs package_inv_def split: option.splits)
  moreover have "\<exists>x. q_GetInstalledPackage o1 required (snd (update_package orgID name f db)) = Some x \<and> pk_digest x = digest"
    if m: "(required, digest) \<in> requirement_set o1 n1 db" "required \<noteq> n1" for o1 n1 required digest
  proof -
    obtain x where "q_GetInstalledPackage o1 required db = Some x" "pk_digest x = digest" using inv_met [OF inv m] by auto
    then show ?thesis by (auto simp: g(1) f(2))
  qed
  moreover have "\<forall>x\<in>set (pd_rows (snd (update_package orgID name f db))). row_ok x" using inv ok by (auto simp: package_inv_def update_package_def)
  moreover have "distinct (map row_key (pd_rows (snd (update_package orgID name f db))))" using inv g(2) by (simp add: package_inv_def)
  ultimately show ?thesis unfolding package_inv_def requirements_met_def req by blast
qed

section \<open>What the operator granted\<close>

text \<open>A grant is the key of a package with an authority an operator accepted for it.\<close>

type_synonym grants = "((string \<times> string) \<times> Authority) set"

definition granted :: "grants \<Rightarrow> package_row \<Rightarrow> bool" where
  "granted G r \<longleftrightarrow> (\<forall>a. pk_accepted r = Some a \<or> pk_previous_accepted r = Some a \<longrightarrow> (row_key r, a) \<in> G)"

definition packages_ok :: "grants \<Rightarrow> package_db \<Rightarrow> bool" where
  "packages_ok G db \<longleftrightarrow> package_inv db \<and> (\<forall>r\<in>set (pd_rows db). granted G r)"

lemma granted_mono: "granted G r \<Longrightarrow> G \<subseteq> G' \<Longrightarrow> granted G' r"
  by (auto simp: granted_def)

lemma packages_ok_same: "same_packages db db' \<Longrightarrow> packages_ok G db' = packages_ok G db"
  by (simp add: packages_ok_def same_packages_inv) (simp add: same_packages_def)

lemma packages_ok_mono: "packages_ok G db \<Longrightarrow> G \<subseteq> G' \<Longrightarrow> packages_ok G' db"
  by (auto simp: packages_ok_def intro: granted_mono)

lemma packages_ok_get: "packages_ok G db \<Longrightarrow> q_GetInstalledPackage orgID name db = Some r \<Longrightarrow> granted G r \<and> row_key r = (orgID, name)"
  by (auto simp: packages_ok_def row_key_def dest: get_row)

lemma packages_ok_update:
  assumes ok: "packages_ok G db" and f: "\<And>r. row_key (f r) = row_key r" "\<And>r. pk_digest (f r) = pk_digest r" "\<And>r. pk_descriptor (f r) = pk_descriptor r"
    and keep: "\<And>r. row_ok r \<Longrightarrow> row_ok (f r)" and G: "G \<subseteq> G'" "\<And>r. row_key r = (orgID, name) \<Longrightarrow> granted G r \<Longrightarrow> granted G' (f r)"
  shows "packages_ok G' (snd (update_package orgID name f db))"
proof -
  have "package_inv (snd (update_package orgID name f db))" using ok by (intro update_package_inv f keep) (auto simp: packages_ok_def)
  moreover have "granted G' r" if "r \<in> set (pd_rows (snd (update_package orgID name f db)))" for r
    using that ok G by (auto simp: packages_ok_def update_package_def package_at_def row_key_def intro: granted_mono split: if_splits)
  ultimately show ?thesis by (simp add: packages_ok_def)
qed

lemma InstallRow_ok:
  assumes ok: "packages_ok G db" and i: "InstallRow p db = Inr db'"
  shows "packages_ok {g \<in> G. fst g \<noteq> (in_org p, in_name p)} db'"
proof -
  obtain r where r: "pd_rows db' = pd_rows db @ [r]" "row_key r = (in_org p, in_name p)" "pk_accepted r = None" "pk_previous_accepted r = None"
    "q_GetInstalledPackage (in_org p) (in_name p) db = None" by (rule InstallRow_effect [OF i])
  have "row_key x \<noteq> (in_org p, in_name p)" if "x \<in> set (pd_rows db)" for x
    using that r(5) by (auto simp: get_none package_at_def row_key_def)
  then show ?thesis using InstallRow_inv [OF _ i] ok r by (auto simp: packages_ok_def granted_def)
qed

lemma ReplacePackage_ok:
  assumes ok: "packages_ok G db" and i: "ReplacePackage p db = Inr db'" and a: "\<And>a. in_accepted p = Some a \<Longrightarrow> ((in_org p, in_name p), a) \<in> G'"
    and G: "G \<subseteq> G'"
  shows "packages_ok G' db'" "\<exists>r. q_GetInstalledPackage (in_org p) (in_name p) db' = Some r \<and> pk_descriptor r = in_descriptor p"
proof -
  have k: "row_key (replaced_row p r) = row_key r" for r by (simp add: row_key_def replaced_row_def)
  obtain db1 where d: "db1 = snd (update_package (in_org p) (in_name p) (replaced_row p) db)" "pd_rows db' = pd_rows db1"
    "q_GetInstalledPackage (in_org p) (in_name p) db \<noteq> None" by (rule ReplacePackage_effect [OF i])
  have g: "granted G' (replaced_row p r)" if "granted G r" "row_key r = (in_org p, in_name p)" for r
    using that a G by (auto simp: granted_def replaced_row_def row_key_def)
  have "granted G' r" if "r \<in> set (pd_rows db')" for r
    using that ok G g unfolding d by (auto simp: packages_ok_def update_package_def package_at_def row_key_def intro: granted_mono split: if_splits)
  then show "packages_ok G' db'" using ReplacePackage_inv [OF _ i] ok by (auto simp: packages_ok_def)
  have "q_GetInstalledPackage (in_org p) (in_name p) db' = map_option (replaced_row p) (q_GetInstalledPackage (in_org p) (in_name p) db)"
    using get_update(1) [OF k, of "in_org p" "in_name p" "in_org p" "in_name p" db] d(1,2) by (simp add: q_GetInstalledPackage_def)
  then show "\<exists>r. q_GetInstalledPackage (in_org p) (in_name p) db' = Some r \<and> pk_descriptor r = in_descriptor p"
    using d(3) by (auto simp: replaced_row_def)
qed

lemma RemoveRow_ok: "packages_ok G db \<Longrightarrow> RemoveRow orgID name db = Inr db' \<Longrightarrow> packages_ok G db'"
  by (auto simp: packages_ok_def RemoveRow_inv RemoveRow_effect(1))

lemma installed_granted:
  assumes "packages_ok G db" "GetRow orgID name db = Inr i"
  shows "in_org i = orgID" "in_name i = name" "in_accepted i = Some a \<Longrightarrow> ((orgID, name), a) \<in> G" "in_previousAccepted i = Some a \<Longrightarrow> ((orgID, name), a) \<in> G"
proof -
  obtain r where r: "q_GetInstalledPackage orgID name db = Some r" "i = installedFromRow r" using assms(2) by (auto simp: GetRow_def split: option.splits)
  then show "in_org i = orgID" "in_name i = name" "in_accepted i = Some a \<Longrightarrow> ((orgID, name), a) \<in> G" "in_previousAccepted i = Some a \<Longrightarrow> ((orgID, name), a) \<in> G"
    using packages_ok_get [OF assms(1) r(1)] by (auto simp: installedFromRow_def granted_def row_key_def)
qed

lemma prepare_key: "prepare s orgID name pin = Inr (p, contents) \<Longrightarrow> in_org p = orgID \<and> in_name p = name"
  by (auto simp: prepare_def new_installed_def split: option.splits sum.splits)

lemma on_db_cases: "on_db f w = (e, w') \<Longrightarrow> (e \<noteq> None \<and> w' = w) \<or> (e = None \<and> f (pw_db w) = Inr (pw_db w'))"
  by (auto simp: on_db_def split: sum.splits)

lemma then_get_world [simp]: "snd (then_get orgID name w) = w"
  by (simp add: then_get_def split: sum.splits)

lemma then_get_pair: "then_get orgID name w = (r, w') \<Longrightarrow> w' = w"
  by (metis snd_conv then_get_world)

lemma touched_update: "touched (update_package orgID name f db) = Inr db' \<Longrightarrow> db' = snd (update_package orgID name f db) \<and> fst (update_package orgID name f db) \<noteq> 0"
  by (auto simp: touched_def split: if_splits)

lemma SetPending_ok: "packages_ok G db \<Longrightarrow> SetPending orgID name pin declared db = Inr db' \<Longrightarrow> packages_ok G db'"
  unfolding SetPending_def q_SetInstalledPackagePending_def
  by (drule touched_update) (auto simp: row_key_def row_ok_def granted_def intro!: packages_ok_update)

lemma SetUpdatePolicy_ok:
  "packages_ok G db \<Longrightarrow> policy = PolicyManual \<or> policy = PolicyAuto \<Longrightarrow> SetUpdatePolicy orgID name policy db = Inr db' \<Longrightarrow> packages_ok G db'"
  unfolding SetUpdatePolicy_def q_SetInstalledPackageUpdatePolicy_def
  by (auto simp: row_key_def row_ok_def granted_def dest!: touched_update intro!: packages_ok_update split: if_splits)

lemma AcceptRow_ok:
  assumes "packages_ok G db" "AcceptRow orgID name a db = Inr db'"
  shows "packages_ok (insert ((orgID, name), a) G) db'" "q_GetInstalledPackage orgID name db' \<noteq> None"
proof -
  let ?f = "\<lambda>r. r\<lparr>pk_accepted := Some a\<rparr>"
  have k: "row_key (?f r) = row_key r" for r by (simp add: row_key_def)
  have u: "db' = snd (update_package orgID name ?f db)" "fst (update_package orgID name ?f db) \<noteq> 0"
    using assms(2) by (auto simp: AcceptRow_def q_AcceptInstalledPackageAuthority_def dest!: touched_update split: if_splits option.splits)
  show "packages_ok (insert ((orgID, name), a) G) db'" unfolding u(1)
    by (rule packages_ok_update [OF assms(1)]) (auto simp: row_key_def row_ok_def granted_def)
  show "q_GetInstalledPackage orgID name db' \<noteq> None"
    using u get_update(1) [OF k, of orgID name orgID name db] get_update(4) [OF k, of orgID name db] by auto
qed

lemma AcceptPackageAuthority_ok:
  assumes ok: "packages_ok G (pw_db w)" and r: "AcceptPackageAuthority orgID name a w = (r, w')"
  shows "packages_ok (case r of Inl _ \<Rightarrow> G | Inr _ \<Rightarrow> insert ((orgID, name), a) G) (pw_db w')"
proof (cases "w' = w \<and> (\<exists>e. r = Inl e)")
  case False
  then have "AcceptRow orgID name a (pw_db w) = Inr (pw_db w') \<and> (r, w') = then_get orgID name w'"
    using r by (auto simp: AcceptPackageAuthority_def on_db_def then_get_def split: if_splits option.splits sum.splits)
  with AcceptRow_ok [OF ok, of orgID name a "pw_db w'"] show ?thesis by (auto simp: then_get_def GetRow_def split: sum.splits option.splits)
qed (use ok in auto)

lemma SetPackageUpdatePolicy_ok:
  assumes ok: "packages_ok G (pw_db w)" and r: "SetPackageUpdatePolicy orgID name policy w = (r, w')"
  shows "packages_ok G (pw_db w')"
proof (cases "on_db (SetUpdatePolicy orgID name policy) w")
  case (Pair e w1)
  have "w' = w \<or> w' = w1 \<and> e = None \<and> (policy = PolicyManual \<or> policy = PolicyAuto)"
    using r Pair on_db_cases [OF Pair] by (auto simp: SetPackageUpdatePolicy_def split: if_splits option.splits dest: then_get_pair)
  with on_db_cases [OF Pair] ok SetUpdatePolicy_ok [OF ok] show ?thesis by auto
qed

section \<open>The projectors a service relies on\<close>

locale package_projectors =
  fixes s :: "'v Service"
  assumes applied: "map_of (svc_projections s) family = Some p \<Longrightarrow>
      same_packages (pw_db w) (pw_db (snd (pj_apply p orgID name digest contents w)))"
    and withdrawn: "map_of (svc_projections s) family = Some p \<Longrightarrow> same_packages (pw_db w) (pw_db (snd (pj_withdraw p orgID name digest w)))"
begin

lemma project_families_keep: "same_packages (pw_db w) (pw_db (snd (project_families s i contents fs w)))"
proof (induction fs arbitrary: w)
  case (Cons family fs)
  show ?case using Cons.IH applied [of family]
    by (auto split: option.splits prod.splits intro: same_packages_trans) (metis same_packages_trans snd_conv)+
qed simp

lemma project_keep: "same_packages (pw_db w) (pw_db (snd (project s i contents w)))"
  by (simp add: project_def project_families_keep)

lemma withdraw_families_keep: "same_packages (pw_db w) (pw_db (snd (withdraw_families s i fs w)))"
proof (induction fs arbitrary: w)
  case (Cons family fs)
  show ?case using Cons.IH withdrawn [of family]
    by (auto split: option.splits prod.splits intro: same_packages_trans) (metis same_packages_trans snd_conv)+
qed simp

lemma withdraw_keep: "same_packages (pw_db w) (pw_db (snd (withdraw s i w)))"
  by (simp add: withdraw_def withdraw_families_keep)

lemma restore_keep: "same_packages (pw_db w) (pw_db (snd (restore s i w)))"
  by (auto simp: restore_def project_keep split: sum.splits)

lemma keep_pair: "project s i contents w = (e, w') \<Longrightarrow> same_packages (pw_db w) (pw_db w')" "withdraw s i w = (e, w') \<Longrightarrow> same_packages (pw_db w) (pw_db w')"
  "restore s i w = (e, w') \<Longrightarrow> same_packages (pw_db w) (pw_db w')"
  using project_keep [of w i contents] withdraw_keep [of w i] restore_keep [of w i] by simp_all

text \<open>A swap either leaves the packages as they were, or replaces the one it is about.\<close>

lemma swap_cases:
  assumes "swap s i p contents w = (r, w')" and key: "in_org p = in_org i" "in_name p = in_name i"
    and ok: "packages_ok G (pw_db w)" and a: "\<And>a. in_accepted p = Some a \<Longrightarrow> ((in_org i, in_name i), a) \<in> G'" and G: "G \<subseteq> G'"
  shows "(\<exists>e. r = Inl e) \<and> same_packages (pw_db w) (pw_db w')
    \<or> (\<exists>j. r = Inr j \<and> in_descriptor j = in_descriptor p) \<and> packages_ok G' (pw_db w')"
proof (cases "withdraw s i w")
  case (Pair e0 w1)
  note w1 = keep_pair(2) [OF Pair]
  show ?thesis
  proof (cases e0)
    case (Some e)
    then show ?thesis using assms(1) Pair w1 by (auto simp: swap_def)
  next
    case None
    obtain e1 w2 where 2: "project s p contents w1 = (e1, w2)" by fastforce
    have w2: "same_packages (pw_db w) (pw_db w2)" using w1 keep_pair(1) [OF 2] by (rule same_packages_trans)
    then have ok2: "packages_ok G (pw_db w2)" using ok by (simp add: packages_ok_same)
    have undo: "same_packages (pw_db w) (pw_db w')" if "withdraw s p w2 = (x, w3)" "restore s i w3 = (y, w')" for x w3 y
      using w2 keep_pair(2) [OF that(1)] keep_pair(3) [OF that(2)] by (blast intro: same_packages_trans)
    show ?thesis
    proof (cases "e1 = None \<and> (\<exists>db. ReplacePackage p (pw_db w2) = Inr db)")
      case True
      then obtain db where db: "e1 = None" "ReplacePackage p (pw_db w2) = Inr db" by auto
      have "packages_ok G' db" "\<exists>r. q_GetInstalledPackage (in_org i) (in_name i) db = Some r \<and> pk_descriptor r = in_descriptor p"
        using ReplacePackage_ok [OF ok2 db(2), of G'] a G key by auto
      then show ?thesis using assms(1) Pair None 2 db
        by (auto simp: swap_def on_db_def then_get_def GetRow_def installedFromRow_def split: option.splits)
    next
      case False
      then show ?thesis using assms(1) Pair None 2 undo
        by (cases e1; cases "ReplacePackage p (pw_db w2)") (auto simp: swap_def on_db_def split: prod.splits)
    qed
  qed
qed

lemma RemovePackage_ok:
  assumes ok: "packages_ok G (pw_db w)" and r: "RemovePackage s orgID name w = (e, w')"
  shows "packages_ok G (pw_db w')"
proof (cases "GetRow orgID name (pw_db w)")
  case (Inr i)
  obtain e1 w1 where 1: "withdraw s i w = (e1, w1)" by fastforce
  obtain e2 w2 where 2: "on_db (RemoveRow orgID name) w1 = (e2, w2)" by fastforce
  have "packages_ok G (pw_db w1)" using ok packages_ok_same [OF keep_pair(2) [OF 1]] by simp
  moreover from this have "packages_ok G (pw_db w2)" using on_db_cases [OF 2] by (auto intro: RemoveRow_ok)
  moreover have "w' = w \<or> w' = w1 \<or> w' = w2" using r Inr 1 2 by (auto simp: RemovePackage_def split: if_splits option.splits)
  ultimately show ?thesis using ok by auto
qed (use r ok in \<open>auto simp: RemovePackage_def split: if_splits\<close>)

lemma install_resolved_ok:
  assumes ok: "packages_ok G (pw_db w)" and r: "install_resolved s i contents w = (r, w')"
  shows "packages_ok (case r of Inl _ \<Rightarrow> G | Inr _ \<Rightarrow> {g \<in> G. fst g \<noteq> (in_org i, in_name i)}) (pw_db w')"
proof -
  let ?H = "{g \<in> G. fst g \<noteq> (in_org i, in_name i)}"
  obtain e1 w1 where 1: "on_db (InstallRow i) w = (e1, w1)" by fastforce
  show ?thesis
  proof (cases e1)
    case (Some e)
    then show ?thesis using r 1 ok on_db_cases [OF 1] by (auto simp: install_resolved_def)
  next
    case None
    obtain e2 w2 where 2: "project s i contents w1 = (e2, w2)" by fastforce
    obtain e3 w3 where 3: "withdraw s i w2 = (e3, w3)" by fastforce
    obtain e4 w4 where 4: "on_db (RemoveRow (in_org i) (in_name i)) w3 = (e4, w4)" by fastforce
    have w2: "packages_ok ?H (pw_db w2)" using on_db_cases [OF 1] None InstallRow_ok [OF ok] packages_ok_same [OF keep_pair(1) [OF 2]] by simp
    then have "packages_ok ?H (pw_db w4)" using packages_ok_same [OF keep_pair(2) [OF 3]] on_db_cases [OF 4] by (auto intro: RemoveRow_ok)
    then have "packages_ok G (pw_db w4)" by (rule packages_ok_mono) auto
    then show ?thesis using r 1 None 2 3 4 w2 by (auto simp: install_resolved_def split: option.splits)
  qed
qed

lemma Install_ok:
  assumes ok: "packages_ok G (pw_db w)" and r: "Install s orgID name reference digest w = (r, w')"
  shows "packages_ok (case r of Inl _ \<Rightarrow> G | Inr _ \<Rightarrow> {g \<in> G. fst g \<noteq> (orgID, name)}) (pw_db w')"
proof (cases "w' = w \<and> (\<exists>e. r = Inl e)")
  case False
  then obtain d layer contents where "install_resolved s (new_installed orgID name reference digest d layer PolicyManual) contents w = (r, w')"
    using r by (auto simp: Install_def split: if_splits option.splits sum.splits)
  from install_resolved_ok [OF ok this] show ?thesis by (simp add: new_installed_def split: sum.splits)
qed (use ok in auto)

lemma InstallFromCatalogue_ok:
  assumes ok: "packages_ok G (pw_db w)" and r: "InstallFromCatalogue s orgID name w = (r, w')"
  shows "packages_ok (case r of Inl _ \<Rightarrow> G | Inr _ \<Rightarrow> {g \<in> G. fst g \<noteq> (orgID, name)}) (pw_db w')"
proof (cases "catalogue_entry s name")
  case (Inr entry)
  then have "ce_name entry = name" by (auto simp: catalogue_entry_def split: sum.splits option.splits dest: find_SomeD)
  with Inr r Install_ok [OF ok] show ?thesis by (simp add: InstallFromCatalogue_def)
qed (use ok r in \<open>auto simp: InstallFromCatalogue_def\<close>)

lemma UpdatePackage_ok:
  assumes ok: "packages_ok G (pw_db w)" and r: "UpdatePackage s orgID name w = (r, w')"
  shows "packages_ok G (pw_db w')"
proof (cases "w' = w")
  case False
  then obtain i entry p contents where i: "GetRow orgID name (pw_db w) = Inr i" "catalogue_entry s name = Inr entry"
    "prepare s orgID name \<lparr>pn_reference = ce_reference entry, pn_digest = ce_digest entry\<rparr> = Inr (p, contents)"
    using r by (auto simp: UpdatePackage_def Let_def split: sum.splits if_splits)
  note k = installed_granted [OF ok i(1)] prepare_key [OF i(3)]
  let ?set = "SetPending orgID name \<lparr>pn_reference = ce_reference entry, pn_digest = ce_digest entry\<rparr> (ds_authority (in_descriptor p))"
  obtain e1 w1 where 1: "on_db ?set w = (e1, w1)" by fastforce
  have "w' = w1 \<or> swap s i (p\<lparr>in_accepted := in_accepted i\<rparr>) contents w = (r, w')"
    using r i 1 False by (auto simp: UpdatePackage_def Let_def split: if_splits option.splits dest: then_get_pair)
  then show ?thesis
  proof
    assume "w' = w1"
    with on_db_cases [OF 1] ok show ?thesis by (auto intro: SetPending_ok)
  next
    assume "swap s i (p\<lparr>in_accepted := in_accepted i\<rparr>) contents w = (r, w')"
    from swap_cases [OF this _ _ ok, of G] k show ?thesis using ok packages_ok_same by auto
  qed
qed (use ok in simp)

lemma update_each_ok: "packages_ok G (pw_db w) \<Longrightarrow> packages_ok G (pw_db (snd (update_each s refs w)))"
proof (induction refs arbitrary: w)
  case (Cons ref refs)
  obtain r w1 where u: "UpdatePackage s (fst ref) (snd ref) w = (r, w1)" by fastforce
  from Cons.IH [OF UpdatePackage_ok [OF Cons.prems u]] u show ?case by (cases ref) (auto split: prod.splits)
qed simp

lemma RollbackPackage_ok:
  assumes ok: "packages_ok G (pw_db w)" and r: "RollbackPackage s orgID name w = (r, w')"
  shows "packages_ok G (pw_db w')"
proof (cases "w' = w")
  case False
  then obtain i pin p contents where i: "GetRow orgID name (pw_db w) = Inr i" "prepare s orgID name pin = Inr (p, contents)"
    "swap s i (p\<lparr>in_accepted := in_previousAccepted i\<rparr>) contents w = (r, w')"
    using r by (auto simp: RollbackPackage_def split: sum.splits option.splits)
  from swap_cases [OF i(3) _ _ ok, of G] installed_granted [OF ok i(1)] prepare_key [OF i(2)] show ?thesis using ok packages_ok_same by auto
qed (use ok in simp)

lemma ApprovePackageUpdate_ok:
  assumes ok: "packages_ok G (pw_db w)" and r: "ApprovePackageUpdate s orgID name w = (r, w')"
  shows "packages_ok (case r of Inl _ \<Rightarrow> G | Inr i \<Rightarrow> insert ((orgID, name), ds_authority (in_descriptor i)) G) (pw_db w')"
proof (cases "w' = w \<and> (\<exists>e. r = Inl e)")
  case False
  then obtain i pin p contents where i: "GetRow orgID name (pw_db w) = Inr i" "prepare s orgID name pin = Inr (p, contents)"
    "swap s i (p\<lparr>in_accepted := Some (ds_authority (in_descriptor p))\<rparr>) contents w = (r, w')"
    using r by (auto simp: ApprovePackageUpdate_def split: sum.splits option.splits)
  note k = installed_granted(1,2) [OF ok i(1)] prepare_key [OF i(2)]
  from swap_cases [OF i(3) _ _ ok _ subset_insertI [of G "((orgID, name), ds_authority (in_descriptor p))"]] k
  consider e where "r = Inl e" "same_packages (pw_db w) (pw_db w')"
    | j where "r = Inr j" "in_descriptor j = in_descriptor p" "packages_ok (insert ((orgID, name), ds_authority (in_descriptor p)) G) (pw_db w')" by auto
  then show ?thesis using ok by cases (simp_all add: packages_ok_same)
qed (use ok in auto)

end

text \<open>What a withdrawal promises beside: it takes its family out of the ledger, and nothing into it.\<close>

locale package_withdrawals = package_projectors +
  assumes forgets: "map_of (svc_projections s) family = Some p \<Longrightarrow> pj_withdraw p orgID name digest w = (None, w') \<Longrightarrow>
      withdrawn_ids orgID name family (pw_db w') = []"
    and only_forgets: "map_of (svc_projections s) family = Some p \<Longrightarrow> pj_withdraw p orgID name digest w = (e, w') \<Longrightarrow>
      set (pd_ledger (pw_db w')) \<subseteq> set (pd_ledger (pw_db w))"
begin

lemma withdrawn_ids_subset:
  "set (pd_ledger db') \<subseteq> set (pd_ledger db) \<Longrightarrow> withdrawn_ids orgID name family db = [] \<Longrightarrow> withdrawn_ids orgID name family db' = []"
  by (fastforce simp: withdrawn_ids_def Entries_def filter_empty_conv)

lemma withdraw_families_ledger:
  assumes "withdraw_families s i fs w = (None, w')"
  shows "set (pd_ledger (pw_db w')) \<subseteq> set (pd_ledger (pw_db w)) \<and>
    (\<forall>family\<in>set fs. map_of (svc_projections s) family \<noteq> None \<longrightarrow> withdrawn_ids (in_org i) (in_name i) family (pw_db w') = [])"
  using assms
proof (induction fs arbitrary: w)
  case (Cons family fs)
  show ?case
  proof (cases "map_of (svc_projections s) family")
    case None
    then show ?thesis using Cons by auto
  next
    case (Some p)
    then obtain w1 where w1: "pj_withdraw p (in_org i) (in_name i) (in_digest i) w = (None, w1)" "withdraw_families s i fs w1 = (None, w')"
      using Cons.prems by (auto split: prod.splits option.splits)
    from Cons.IH [OF w1(2)] forgets [OF Some w1(1)] only_forgets [OF Some w1(1)] withdrawn_ids_subset show ?thesis by auto
  qed
qed simp

text \<open>A removal that is refused because another package requires this one has already taken its contributions out.\<close>

lemma refused_removal:
  assumes "\<not> blank orgID" "\<not> blank name" and i: "GetRow orgID name (pw_db w) = Inr i" and w: "withdraw s i w = (None, w')"
    and q: "q \<in> set (pd_requirements (pw_db w))" "rq_org q = orgID" "rq_required q = name" "rq_package q \<noteq> name"
  shows "RemovePackage s orgID name w = (Some (SvcStore PkgRequired), w') \<and> GetRow orgID name (pw_db w') = Inr i
    \<and> (\<forall>family\<in>set families. map_of (svc_projections s) family \<noteq> None \<longrightarrow> withdrawn_ids orgID name family (pw_db w') = [])"
proof -
  note k = keep_pair(2) [OF w]
  obtain r where r: "q_GetInstalledPackage orgID name (pw_db w) = Some r" "i = installedFromRow r" using i by (auto simp: GetRow_def split: option.splits)
  have key: "in_org i = orgID" "in_name i = name" using get_row [OF r(1)] r(2) by (auto simp: installedFromRow_def)
  have "filter (package_at orgID name) (pd_rows (pw_db w')) \<noteq> []" using get_row [OF r(1)] k by (auto simp: same_packages_def package_at_def filter_empty_conv)
  moreover have "q_CountInstalledDependents orgID name (q_DeleteInstalledRequirements orgID name (pw_db w')) > 0"
    using q k by (auto simp: same_packages_def q_CountInstalledDependents_def q_DeleteInstalledRequirements_def filter_empty_conv)
  ultimately have "RemoveRow orgID name (pw_db w') = Inl PkgRequired" by (simp add: RemoveRow_def q_DeleteInstalledPackage_def Let_def)
  then show ?thesis using assms(1,2) i w key withdraw_families_ledger [of i families w w'] same_packages_get [OF k]
    by (auto simp: RemovePackage_def on_db_def withdraw_def GetRow_def)
qed

end

end
