(* ===== verification/Package_Runs.thy ===== *)
theory Package_Runs
  imports Package_Service_Spec
begin

text \<open>
  Runs of the package service of the State Store, whose projectors satisfy the laws of \<open>package_projectors\<close>: in every order
  of installs, removals, acceptances, updates, approvals and rollbacks, whatever the registry and the catalogue answer and
  whatever happens to the documents. Operations follow one another; two at the same time are not modelled.
\<close>

section \<open>The projectors leave the packages alone\<close>

lemma project_attempts_db: "pw_db (snd (project_attempts diff now rd orgID kind source requestID edit left w)) = pw_db w"
proof (induction left arbitrary: w)
  case (Suc left)
  have o: "pw_db (others_write w) = pw_db w" by (simp add: others_write_def split: list.splits)
  show ?case by (subst project_attempts.simps) (auto simp: Let_def o Suc.IH split: sum.splits)
qed (subst project_attempts.simps, auto simp: Let_def others_write_def split: sum.splits list.splits)

lemma projectDocument_db: "projectDocument diff now orgID kind source requestPrefix edit w = (e, w') \<Longrightarrow> pw_db w' = pw_db w"
  using project_attempts_db [of diff now read_current orgID kind source _ edit _ "w\<lparr>pw_clock := pw_clock w + 1\<rparr>"]
  by (simp add: projectDocument_def) (metis snd_conv)

lemma workflows_write_db: "workflows_write env orgID source requestPrefix merge w = (e, w') \<Longrightarrow> pw_db w' = pw_db w"
  using project_attempts_db [of "pe_diff env" "pe_now env" "collection env" orgID _ source _ _ _ "w\<lparr>pw_clock := pw_clock w + 1\<rparr>"]
  by (simp add: workflows_write_def) (metis snd_conv)

lemma record_entries_packages: "record_entries orgID name es db = Inr db' \<Longrightarrow> same_packages db db'"
proof (induction es arbitrary: db)
  case (Cons e es)
  obtain db1 where d: "q_InsertInstalledPackageContribution \<lparr>lg_org = orgID, lg_package = name, lg_family = fst e, lg_entry = snd e\<rparr> db = Inr db1"
    "record_entries orgID name es db1 = Inr db'" using Cons.prems by (cases e) (auto split: sum.splits)
  have "same_packages db db1" using d(1) by (auto simp: q_InsertInstalledPackageContribution_def same_packages_def split: if_splits)
  with Cons.IH [OF d(2)] show ?case by (blast intro: same_packages_trans)
qed simp

lemma then_record_packages: "pw_db (snd r) = db \<Longrightarrow> same_packages db (pw_db (snd (then_record orgID name recorded r)))"
  by (auto simp: then_record_def RecordEntries_def split: prod.splits option.splits sum.splits if_splits intro: record_entries_packages)

lemma then_forget_packages: "pw_db (snd r) = db \<Longrightarrow> same_packages db (pw_db (snd (then_forget orgID name family r)))"
  by (auto simp: then_forget_def Forget_def same_packages_def split: prod.splits option.splits)

lemma document_snd: "pw_db (snd (projectDocument diff now orgID kind source requestPrefix edit w)) = pw_db w"
  "pw_db (snd (workflows_write env orgID source requestPrefix merge w)) = pw_db w"
  by (metis projectDocument_db prod.collapse) (metis workflows_write_db prod.collapse)

definition stateStoreService :: "projection_env \<Rightarrow> (string \<Rightarrow> string \<Rightarrow> (Descriptor \<times> string) option) \<Rightarrow> layer_codecs \<Rightarrow>
    CatalogueEntry list option option \<Rightarrow> org_document Service" where
  "stateStoreService env fetch layers catalogue =
    \<lparr>svc_fetch = fetch, svc_layers = layers, svc_projections = newPackageProjections env, svc_catalogue = catalogue\<rparr>"

interpretation state_store_packages: package_projectors "stateStoreService env fetch layers catalogue"
proof
  fix family p w orgID name digest contents
  assume "map_of (svc_projections (stateStoreService env fetch layers catalogue)) family = Some p"
  then consider "p = \<lparr>pj_apply = workflows_Apply env, pj_withdraw = workflows_Withdraw env\<rparr>"
    | "p = newListProjector (pe_diff env) (pe_now env) (skill_family env)"
    | "p = newListProjector (pe_diff env) (pe_now env) (playbook_family env)"
    | "p = \<lparr>pj_apply = profiles_Apply env, pj_withdraw = profiles_Withdraw env\<rparr>"
    by (auto simp: stateStoreService_def newPackageProjections_def split: if_splits)
  then show "same_packages (pw_db w) (pw_db (snd (pj_apply p orgID name digest contents w)))"
    "same_packages (pw_db w) (pw_db (snd (pj_withdraw p orgID name digest w)))"
    by (cases; auto simp: workflows_Apply_def profiles_Apply_def newListProjector_def list_Apply_def workflows_Withdraw_def profiles_Withdraw_def
        list_Withdraw_def Let_def document_snd split: sum.splits intro!: then_record_packages then_forget_packages)+
qed

lemma forget_ledger: "set (pd_ledger (Forget orgID name family db)) \<subseteq> set (pd_ledger db)" "withdrawn_ids orgID name family (Forget orgID name family db) = []"
  by (auto simp: Forget_def withdrawn_ids_def Entries_def filter_empty_conv)

lemma then_forget_ledger:
  assumes "then_forget orgID name family r = (e, w')" "pw_db (snd r) = db"
  shows "set (pd_ledger (pw_db w')) \<subseteq> set (pd_ledger db)" "e = None \<Longrightarrow> withdrawn_ids orgID name family (pw_db w') = []"
  using assms forget_ledger [of orgID name family db] by (auto simp: then_forget_def split: prod.splits option.splits)

lemma withdraw_by_document:
  assumes "(if withdrawn_ids orgID name family (pw_db w) = [] then (None, w) else then_forget orgID name family r) = (e, w')" "pw_db (snd r) = pw_db w"
  shows "set (pd_ledger (pw_db w')) \<subseteq> set (pd_ledger (pw_db w)) \<and> (e = None \<longrightarrow> withdrawn_ids orgID name family (pw_db w') = [])"
  using assms then_forget_ledger [of orgID name family r e w' "pw_db w"] by (cases "withdrawn_ids orgID name family (pw_db w) = []") auto

lemma withdraw_ledger:
  assumes "map_of (newPackageProjections env) family = Some p" "pj_withdraw p orgID name digest w = (e, w')"
  shows "set (pd_ledger (pw_db w')) \<subseteq> set (pd_ledger (pw_db w)) \<and> (e = None \<longrightarrow> withdrawn_ids orgID name family (pw_db w') = [])"
proof -
  consider "family = FamilyWorkflows" "workflows_Withdraw env orgID name digest w = (e, w')"
    | "family = FamilySkills" "list_Withdraw (pe_diff env) (pe_now env) (skill_family env) orgID name digest w = (e, w')"
    | "family = FamilyPlaybooks" "list_Withdraw (pe_diff env) (pe_now env) (playbook_family env) orgID name digest w = (e, w')"
    | "family = FamilyProfiles" "profiles_Withdraw env orgID name digest w = (e, w')"
    using assms by (auto simp: newPackageProjections_def newListProjector_def split: if_splits)
  then show ?thesis
  proof cases
    case 1
    show ?thesis unfolding 1(1) by (rule withdraw_by_document [OF 1(2) [unfolded workflows_Withdraw_def Let_def] document_snd(2)])
  next
    case 2
    show ?thesis unfolding 2(1) by (rule withdraw_by_document [OF 2(2) [unfolded list_Withdraw_def Let_def skill_family_def listFamily.select_convs] document_snd(1)])
  next
    case 3
    show ?thesis unfolding 3(1) by (rule withdraw_by_document [OF 3(2) [unfolded list_Withdraw_def Let_def playbook_family_def listFamily.select_convs] document_snd(1)])
  next
    case 4
    show ?thesis unfolding 4(1) by (rule withdraw_by_document [OF 4(2) [unfolded profiles_Withdraw_def Let_def] document_snd(1)])
  qed
qed

interpretation state_store_withdrawals: package_withdrawals "stateStoreService env fetch layers catalogue"
  by unfold_locales (use withdraw_ledger in \<open>fastforce simp: stateStoreService_def\<close>)+

section \<open>Runs\<close>

definition no_packages :: package_db where
  "no_packages = \<lparr>pd_rows = [], pd_requirements = [], pd_ledger = []\<rparr>"

text \<open>The grants grow when an operator accepts an authority or approves an update, by the authority accepted or declared;
  a fresh install starts without any.\<close>

inductive package_run :: "grants \<Rightarrow> org_document package_world \<Rightarrow> bool" where
  start: "pw_db w = no_packages \<Longrightarrow> package_run {} w"
| install: "package_run G w \<Longrightarrow> Install (stateStoreService env fetch layers catalogue) orgID name reference digest w = (r, w') \<Longrightarrow>
    package_run (case r of Inl _ \<Rightarrow> G | Inr _ \<Rightarrow> {g \<in> G. fst g \<noteq> (orgID, name)}) w'"
| install_from_catalogue: "package_run G w \<Longrightarrow> InstallFromCatalogue (stateStoreService env fetch layers catalogue) orgID name w = (r, w') \<Longrightarrow>
    package_run (case r of Inl _ \<Rightarrow> G | Inr _ \<Rightarrow> {g \<in> G. fst g \<noteq> (orgID, name)}) w'"
| remove: "package_run G w \<Longrightarrow> RemovePackage (stateStoreService env fetch layers catalogue) orgID name w = (e, w') \<Longrightarrow> package_run G w'"
| accept: "package_run G w \<Longrightarrow> AcceptPackageAuthority orgID name a w = (r, w') \<Longrightarrow>
    package_run (case r of Inl _ \<Rightarrow> G | Inr _ \<Rightarrow> insert ((orgID, name), a) G) w'"
| update: "package_run G w \<Longrightarrow> UpdatePackage (stateStoreService env fetch layers catalogue) orgID name w = (r, w') \<Longrightarrow> package_run G w'"
| update_auto: "package_run G w \<Longrightarrow> UpdateAuto (stateStoreService env fetch layers catalogue) w = (es, w') \<Longrightarrow> package_run G w'"
| approve: "package_run G w \<Longrightarrow> ApprovePackageUpdate (stateStoreService env fetch layers catalogue) orgID name w = (r, w') \<Longrightarrow>
    package_run (case r of Inl _ \<Rightarrow> G | Inr i \<Rightarrow> insert ((orgID, name), ds_authority (in_descriptor i)) G) w'"
| rollback: "package_run G w \<Longrightarrow> RollbackPackage (stateStoreService env fetch layers catalogue) orgID name w = (r, w') \<Longrightarrow> package_run G w'"
| policy: "package_run G w \<Longrightarrow> SetPackageUpdatePolicy orgID name p w = (r, w') \<Longrightarrow> package_run G w'"
| documents: "package_run G w \<Longrightarrow> package_run G (w\<lparr>pw_docs := d, pw_clock := n, pw_others := fs\<rparr>)"

lemma no_packages_ok: "packages_ok {} no_packages"
  by (simp add: packages_ok_def package_inv_def requirements_met_def requirement_set_def no_packages_def q_GetInstalledPackage_def)

lemma package_run_ok: "package_run G w \<Longrightarrow> packages_ok G (pw_db w)"
proof (induction rule: package_run.induct)
  case start
  then show ?case by (simp add: no_packages_ok)
next
  case install
  show ?case by (rule state_store_packages.Install_ok [OF install.IH install.hyps(2)])
next
  case install_from_catalogue
  show ?case by (rule state_store_packages.InstallFromCatalogue_ok [OF install_from_catalogue.IH install_from_catalogue.hyps(2)])
next
  case remove
  show ?case by (rule state_store_packages.RemovePackage_ok [OF remove.IH remove.hyps(2)])
next
  case accept
  show ?case by (rule AcceptPackageAuthority_ok [OF accept.IH accept.hyps(2)])
next
  case update
  show ?case by (rule state_store_packages.UpdatePackage_ok [OF update.IH update.hyps(2)])
next
  case approve
  show ?case by (rule state_store_packages.ApprovePackageUpdate_ok [OF approve.IH approve.hyps(2)])
next
  case rollback
  show ?case by (rule state_store_packages.RollbackPackage_ok [OF rollback.IH rollback.hyps(2)])
next
  case policy
  show ?case by (rule SetPackageUpdatePolicy_ok [OF policy.IH policy.hyps(2)])
next
  case (update_auto G w env fetch layers catalogue es w')
  then show ?case using state_store_packages.update_each_ok [of G w env fetch layers catalogue "ListAutoUpdate (pw_db w)"]
    by (simp add: UpdateAuto_def)
qed simp

lemma run_requirement:
  assumes "package_run G w" "r \<in> set (pd_rows (pw_db w))" "ref \<in> set (ds_requires (pk_descriptor r))" "pr_name ref \<noteq> pk_name r"
  shows "\<exists>x. q_GetInstalledPackage (pk_org r) (pr_name ref) (pw_db w) = Some x \<and> pk_digest x = pr_digest ref"
proof -
  have inv: "package_inv (pw_db w)" using package_run_ok [OF assms(1)] by (simp add: packages_ok_def)
  then have "q_GetInstalledPackage (pk_org r) (pk_name r) (pw_db w) = Some r" using assms(2) by (intro row_get) (auto simp: package_inv_def)
  then have "(pr_name ref, pr_digest ref) \<in> requirement_set (pk_org r) (pk_name r) (pw_db w)"
    using inv assms(3) by (auto simp: package_inv_def row_refs_def)
  from inv_met [OF inv this assms(4)] show ?thesis .
qed

text \<open>C1: In every state the operations of the package service reach one after another, whatever registry and catalogue
  answered and in whatever order packages were installed, updated, rolled back and removed, an installed package has a
  descriptor that validates, and each package other than itself it requires is installed in its org at exactly the digest it
  names.\<close>

theorem requirements_stay_pinned:
  assumes "package_run G w" "r \<in> set (pd_rows (pw_db w))"
  shows "ValidateDescriptor (pk_descriptor r) = None
    \<and> (\<forall>ref\<in>set (ds_requires (pk_descriptor r)). pr_name ref \<noteq> pk_name r \<longrightarrow>
      (\<exists>x. q_GetInstalledPackage (pk_org r) (pr_name ref) (pw_db w) = Some x \<and> pk_digest x = pr_digest ref))"
  using package_run_ok [OF assms(1)] assms(2) run_requirement [OF assms] by (auto simp: packages_ok_def package_inv_def row_ok_def)

text \<open>C1: After any sequence of operations of the package service, a run of a package's workflow stays within what an
  operator granted that package since it was installed: each
  tool it is offered, and the trigger that started it when the trigger check lets it run, is named by one authority
  that was accepted for the package or declared by an update that was approved. No update, automatic update,
  rollback or reinstallation widens it.\<close>

theorem package_runs_within_grants:
  assumes run: "package_run G w" and pkg: "PackageOf unmarshal (t_def_yaml task) = name" "name \<noteq> []"
  shows "(\<exists>tools. toolAllowlist unmarshal (Some (\<lambda>n. AcceptedAuthority orgID n (pw_db w))) task profileTools = Some tools
      \<and> (\<forall>tool\<in>set tools. (\<exists>a. ((orgID, name), a) \<in> G \<and> tool \<in> set (au_tools a)) \<and> (profileTools = [] \<or> tool \<in> set profileTools)))
    \<and> (checkPackageTrigger unmarshal (Some (\<lambda>n. AcceptedAuthority orgID n (pw_db w))) task = None \<longrightarrow>
      (\<exists>a trigger. ((orgID, name), a) \<in> G \<and> trigger \<in> set (au_triggers a) \<and> trigger \<in> set (startTriggers task)))"
proof (cases "AcceptedAuthority orgID name (pw_db w)")
  case (Inl e)
  then show ?thesis using pkg by (simp add: toolAllowlist_def checkPackageTrigger_def Let_def)
next
  case (Inr a)
  have "((orgID, name), a) \<in> G \<or> a = no_authority"
    using Inr installed_granted(3) [OF package_run_ok [OF run], of orgID name] by (auto simp: AcceptedAuthority_def split: sum.splits option.splits)
  then show ?thesis
  proof
    assume "((orgID, name), a) \<in> G"
    then show ?thesis using pkg Inr by (auto simp: toolAllowlist_def checkPackageTrigger_def Let_def list_ex_iff)
  next
    assume "a = no_authority"
    then show ?thesis using pkg Inr by (simp add: toolAllowlist_def checkPackageTrigger_def Let_def no_authority_def)
  qed
qed

text \<open>C1: A package that another one requires cannot be removed, but the attempt takes its contributions out of the org's
  documents before the store refuses: when the withdrawal succeeds, the answer is that the package is required, the
  package is still installed, and the ledger of contributions has no entry of it in any family.\<close>

theorem required_package_stripped:
  assumes "\<not> blank orgID" "\<not> blank name" "GetRow orgID name (pw_db w) = Inr i"
    and "withdraw (stateStoreService env fetch layers catalogue) i w = (None, w')"
    and "q \<in> set (pd_requirements (pw_db w))" "rq_org q = orgID" "rq_required q = name" "rq_package q \<noteq> name"
  shows "RemovePackage (stateStoreService env fetch layers catalogue) orgID name w = (Some (SvcStore PkgRequired), w')
    \<and> GetRow orgID name (pw_db w') = Inr i
    \<and> (\<forall>family\<in>{FamilyWorkflows, FamilySkills, FamilyPlaybooks, FamilyProfiles}. withdrawn_ids orgID name family (pw_db w') = [])"
  using state_store_withdrawals.refused_removal [OF assms] by (auto simp: stateStoreService_def newPackageProjections_def families_def)

section \<open>A package and one that requires it\<close>

definition base_digest :: string where "base_digest = ''sha256:'' @ replicate 64 CHR ''a''"
definition top_digest :: string where "top_digest = ''sha256:'' @ replicate 64 CHR ''b''"

definition no_contributions :: Contributions where
  "no_contributions = \<lparr>cb_workflows = [], cb_prompts = [], cb_skills = [], cb_mcpServers = [], cb_defaults = [], cb_playbooks = [],
     cb_profiles = [], cb_extensions = []\<rparr>"

definition base_descriptor :: Descriptor where
  "base_descriptor = \<lparr>ds_apiVersion = APIVersion, ds_displayName = ''Base'', ds_description = [], ds_version = ''1'',
     ds_contributes = no_contributions\<lparr>cb_skills := [''skill'']\<rparr>, ds_requires = [], ds_authority = no_authority\<lparr>au_tools := [''grep'']\<rparr>,
     ds_files = [\<lparr>fl_path = ''skill'', fl_mode = 420\<rparr>]\<rparr>"

definition top_descriptor :: Descriptor where
  "top_descriptor = \<lparr>ds_apiVersion = APIVersion, ds_displayName = ''Top'', ds_description = [], ds_version = ''1'',
     ds_contributes = no_contributions\<lparr>cb_prompts := [''p'']\<rparr>, ds_requires = [\<lparr>pr_name = ''base'', pr_digest = base_digest\<rparr>],
     ds_authority = no_authority, ds_files = []\<rparr>"

definition demo_env :: projection_env where
  "demo_env = \<lparr>pe_diff = (\<lambda>_ _. []), pe_now = \<lparr>tm_ns = 1, tm_off = 0\<rparr>, pe_skill = Some, pe_compile = (\<lambda>_. True), pe_profile = (\<lambda>_. None),
     pe_packageOf = Some, pe_definitionID = Some, pe_check = (\<lambda>_. None), pe_shipped = []\<rparr>"

definition demo_service :: "org_document Service" where
  "demo_service = stateStoreService demo_env
     (\<lambda>reference _. if reference = ''r/base'' then Some (base_descriptor, ''x'') else Some (top_descriptor, []))
     \<lparr>lc_tar_type = ''tar'', lc_gzip_type = ''gzip'', lc_gunzip = (\<lambda>_. None),
      lc_tar = (\<lambda>st. (if fst st = ''x'' then [\<lparr>th_name = ''skill'', th_regular = True, th_mode = 420, th_content = ''lint''\<rparr>] else [], True))\<rparr> None"

definition demo_start :: "org_document package_world" where
  "demo_start = \<lparr>pw_db = no_packages, pw_docs = \<lparr>rd_rows = [], rd_history = [], rd_audit = []\<rparr>, pw_clock = 5, pw_others = []\<rparr>"

definition base_row :: package_row where
  "base_row = \<lparr>pk_org = ''o'', pk_name = ''base'', pk_reference = ''r/base'', pk_digest = base_digest, pk_descriptor = base_descriptor,
     pk_layer = ''x'', pk_policy = PolicyManual, pk_accepted = None, pk_pending_reference = None, pk_pending_digest = None,
     pk_pending_authority = None, pk_previous_reference = None, pk_previous_digest = None, pk_previous_accepted = None\<rparr>"

definition base_installed :: Installed where
  "base_installed = new_installed ''o'' ''base'' ''r/base'' base_digest base_descriptor ''x'' PolicyManual"

lemma demo_visible: "\<not> blank ''Base''" "\<not> blank ''Top''" "\<not> blank ''1''" "\<not> blank ''grep''" "\<not> blank ''o''" "\<not> blank ''base''" "\<not> blank ''top''"
  "\<not> blank ''r/base''" "\<not> blank ''r/top''"
  by (rule not_blank_visible; simp add: ascii_visible_def byte_of_def)+

lemma demo_digests: "digestPattern base_digest" "digestPattern top_digest"
  by code_simp+

lemma demo_skill_path: "path_clean ''skill'' = ''skill''" "path_ext ''skill'' = []"
  by code_simp+

lemma base_valid: "ValidateDescriptor base_descriptor = None"
proof -
  have "ValidateAuthority (ds_authority base_descriptor) = None"
    by (simp add: ValidateAuthority_def check_grants_def base_descriptor_def no_authority_def demo_visible)
  moreover have "validateFile 0 \<lparr>fl_path = ''skill'', fl_mode = 420\<rparr> False = None"
    by (simp add: validateFile_def demo_skill_path has_prefix_def path_is_abs_def isHostCodePath_def host_code_extensions_def to_lower_def)
  ultimately show ?thesis
    by (simp add: ValidateDescriptor_def validateExtensions_def demo_visible hasContribution_def base_descriptor_def no_contributions_def Let_def)
qed

lemma top_valid: "ValidateDescriptor top_descriptor = None"
proof -
  have "ValidateAuthority (ds_authority top_descriptor) = None"
    by (simp add: ValidateAuthority_def check_grants_def top_descriptor_def no_authority_def)
  then show ?thesis
    by (simp add: ValidateDescriptor_def validateExtensions_def demo_visible hasContribution_def top_descriptor_def no_contributions_def Let_def
        check_require_def demo_digests)
qed

lemmas demo_families = families_def FamilyWorkflows_def FamilyPrompts_def FamilySkills_def FamilyMCPServer_def FamilyDefaults_def
  FamilyPlaybooks_def FamilyProfiles_def familyNames_def newPackageProjections_def

lemma base_contents: "resolveFamilyContents demo_service base_descriptor ''x'' = Inr [(''skills'', [(''skill'', ''lint'')])]"
  by (simp add: resolveFamilyContents_def demo_service_def stateStoreService_def demo_families familyContents_def FilesFromLayer_def
      base_descriptor_def no_contributions_def Let_def)

lemma top_contents: "resolveFamilyContents demo_service top_descriptor [] = Inr []"
  by (simp add: resolveFamilyContents_def demo_service_def stateStoreService_def demo_families familyContents_def
      top_descriptor_def no_contributions_def Let_def)

lemma base_inserted: "InstallRow base_installed no_packages = Inr \<lparr>pd_rows = [base_row], pd_requirements = [], pd_ledger = []\<rparr>"
proof -
  have "ds_requires base_descriptor = []" by (simp add: base_descriptor_def)
  then show ?thesis using demo_digests(1) base_valid
    by (simp add: InstallRow_def base_installed_def new_installed_def no_packages_def q_InsertInstalledPackage_def q_GetInstalledPackage_def base_row_def)
       (simp add: base_digest_def)
qed

text \<open>The document of skills, written by the base package at clock 5 and emptied by its withdrawal at clock 6.\<close>

definition skills_revision :: "SkillEntry list \<Rightarrow> string \<Rightarrow> string \<Rightarrow> int \<Rightarrow> org_document StoredResource" where
  "skills_revision es source request version = \<lparr>rv_org = ''o'', rv_kind = ''skills'', rv_value = SkillsDoc es, rv_version = version,
     rv_actor = projectionActor, rv_source = source, rv_request = request, rv_expected = version - 1, rv_current = version - 1,
     rv_at = \<lparr>tm_ns = 1, tm_off = 0\<rparr>\<rparr>"

definition skills_row :: "SkillEntry list \<Rightarrow> int \<Rightarrow> org_document resource_row" where
  "skills_row es version = \<lparr>rr_org = ''o'', rr_kind = ''skills'', rr_value = SkillsDoc es, rr_version = version, rr_updated = \<lparr>tm_ns = 1, tm_off = 0\<rparr>\<rparr>"

definition lint :: SkillEntry where
  "lint = \<lparr>sk_name = ''lint'', sk_content = ''lint''\<rparr>"

lemma lint_fields [simp]: "sk_name lint = ''lint''" "sk_content lint = ''lint''"
  by (simp_all add: lint_def)

definition lint_written :: "org_document StoredResource" where
  "lint_written = skills_revision [lint] (package_source ''base'' base_digest) (request_id (''package-project:'' @ base_digest) 5) 1"

definition lint_docs :: "org_document resource_db" where
  "lint_docs = \<lparr>rd_rows = [skills_row [lint] 1], rd_history = [lint_written], rd_audit = []\<rparr>"

lemma lint_put: "PutResource (\<lambda>_ _. []) \<lparr>tm_ns = 1, tm_off = 0\<rparr> (project_write ''o'' ''skills'' (package_source ''base'' base_digest)
    (request_id (''package-project:'' @ base_digest) 5) (SkillsDoc [lint]) 0) \<lparr>rd_rows = [], rd_history = [], rd_audit = []\<rparr> = Inr (lint_written, lint_docs)"
  by (simp add: PutResource_def project_write_def checkResourceKey_def q_ResourceByRequest_def q_ResourceByKind_def appendResourceRevision_def
      q_InsertResource_def q_InsertResourceHistory_def q_InsertResourceAudit_def tm_zero_def tm_utc_def Let_def lint_docs_def lint_written_def
      skills_row_def skills_revision_def)

lemma lint_gone_put: "\<exists>h docs. PutResource (\<lambda>_ _. []) \<lparr>tm_ns = 1, tm_off = 0\<rparr> (project_write ''o'' ''skills'' (withdraw_source ''base'' base_digest)
    (request_id (''package-withdraw:'' @ base_digest) n) (SkillsDoc []) 1) lint_docs = Inr (h, docs) \<and> rd_rows docs = [skills_row [] 2]"
  by (simp add: PutResource_def project_write_def checkResourceKey_def q_ResourceByRequest_def q_ResourceByKind_def appendResourceRevision_def
      q_UpdateResource_def q_InsertResourceHistory_def q_InsertResourceAudit_def tm_zero_def tm_utc_def Let_def lint_docs_def lint_written_def
      skills_row_def skills_revision_def revision_at_def row_at_def request_id_def)

definition lint_row :: contribution_row where
  "lint_row = \<lparr>lg_org = ''o'', lg_package = ''base'', lg_family = ''skills'', lg_entry = ''lint''\<rparr>"

definition lint_db :: package_db where
  "lint_db = \<lparr>pd_rows = [base_row], pd_requirements = [], pd_ledger = [lint_row]\<rparr>"

definition lint_world :: "org_document package_world" where
  "lint_world = \<lparr>pw_db = lint_db, pw_docs = lint_docs, pw_clock = 6, pw_others = []\<rparr>"

lemma lint_applied:
  "list_Apply (pe_diff demo_env) (pe_now demo_env) (skill_family demo_env) ''o'' ''base'' base_digest [(''skill'', ''lint'')]
     (demo_start\<lparr>pw_db := \<lparr>pd_rows = [base_row], pd_requirements = [], pd_ledger = []\<rparr>\<rparr>) = (None, lint_world)"
  using lint_put
  by (simp add: list_Apply_def skill_family_def demo_env_def parse_skill_def projectDocument_def project_attempts.simps [of _ _ _ _ _ _ _ _ 2]
      projectWriteAttempts_def demo_start_def read_current_def read_resource_def checkResourceKey_def q_ResourceByKind_def list_merge_def
      decodeSkills_def encodeSkills_def encoded_def others_write_def then_record_def RecordEntries_def q_InsertInstalledPackageContribution_def
      q_GetInstalledPackage_def package_at_def base_row_def lint_world_def lint_db_def lint_row_def FamilySkills_def Let_def flip: lint_def)

lemma demo_projections: "map_of (svc_projections demo_service) family =
    (if family = ''workflows'' then Some \<lparr>pj_apply = workflows_Apply demo_env, pj_withdraw = workflows_Withdraw demo_env\<rparr>
     else if family = ''skills'' then Some (newListProjector (pe_diff demo_env) (pe_now demo_env) (skill_family demo_env))
     else if family = ''playbooks'' then Some (newListProjector (pe_diff demo_env) (pe_now demo_env) (playbook_family demo_env))
     else if family = ''profiles'' then Some \<lparr>pj_apply = profiles_Apply demo_env, pj_withdraw = profiles_Withdraw demo_env\<rparr> else None)"
  by (simp add: demo_service_def stateStoreService_def demo_families)

lemma base_installs: "Install demo_service ''o'' ''base'' ''r/base'' base_digest demo_start = (Inr base_installed, lint_world)"
proof -
  have f: "svc_fetch demo_service ''r/base'' base_digest = Some (base_descriptor, ''x'')" by (simp add: demo_service_def stateStoreService_def)
  have key: "in_org base_installed = ''o''" "in_name base_installed = ''base''" "in_digest base_installed = base_digest"
    by (simp_all add: base_installed_def new_installed_def)
  have "project demo_service base_installed [(''skills'', [(''skill'', ''lint'')])] (demo_start\<lparr>pw_db := \<lparr>pd_rows = [base_row], pd_requirements = [],
      pd_ledger = []\<rparr>\<rparr>) = (None, lint_world)"
    using lint_applied by (simp add: project_def demo_families demo_projections key newListProjector_def)
  moreover have "on_db (InstallRow base_installed) demo_start = (None, demo_start\<lparr>pw_db := \<lparr>pd_rows = [base_row], pd_requirements = [], pd_ledger = []\<rparr>\<rparr>)"
    using base_inserted by (simp add: on_db_def demo_start_def)
  ultimately have "install_resolved demo_service base_installed [(''skills'', [(''skill'', ''lint'')])] demo_start = (Inr base_installed, lint_world)"
    by (simp add: install_resolved_def)
  moreover have "ds_requires base_descriptor = []" by (simp add: base_descriptor_def)
  ultimately show ?thesis using f base_contents base_valid demo_digests(1) demo_visible by (simp add: Install_def base_installed_def)
qed

definition top_row :: package_row where
  "top_row = base_row\<lparr>pk_name := ''top'', pk_reference := ''r/top'', pk_digest := top_digest, pk_descriptor := top_descriptor, pk_layer := []\<rparr>"

definition top_world :: "org_document package_world" where
  "top_world = lint_world\<lparr>pw_db := \<lparr>pd_rows = [base_row, top_row],
     pd_requirements = [\<lparr>rq_org = ''o'', rq_package = ''top'', rq_required = ''base'', rq_digest = base_digest\<rparr>], pd_ledger = [lint_row]\<rparr>\<rparr>"

definition top_installed :: Installed where
  "top_installed = new_installed ''o'' ''top'' ''r/top'' top_digest top_descriptor [] PolicyManual"

lemma base_found: "q_GetInstalledPackage ''o'' ''base'' lint_db = Some base_row"
  by (simp add: q_GetInstalledPackage_def lint_db_def package_at_def base_row_def)

lemma base_row_fields [simp]: "pk_org base_row = ''o''" "pk_name base_row = ''base''" "pk_digest base_row = base_digest" "pk_descriptor base_row = base_descriptor"
  "pk_org top_row = ''o''" "pk_name top_row = ''top''" "pk_digest top_row = top_digest" "pk_descriptor top_row = top_descriptor"
  by (simp_all add: base_row_def top_row_def)

lemma top_inserted: "InstallRow top_installed lint_db = Inr (pw_db top_world)"
proof -
  have r: "ds_requires top_descriptor = [\<lparr>pr_name = ''base'', pr_digest = base_digest\<rparr>]" by (simp add: top_descriptor_def)
  have "q_InsertInstalledPackage top_installed lint_db = Inr (lint_db\<lparr>pd_rows := [base_row, top_row]\<rparr>)"
    using demo_digests(2)
    by (simp add: q_InsertInstalledPackage_def top_installed_def new_installed_def q_GetInstalledPackage_def lint_db_def package_at_def)
       (simp add: top_row_def base_row_def)
  moreover have "top_digest \<noteq> []" by (simp add: top_digest_def)
  ultimately show ?thesis using r top_valid base_found
    by (simp add: InstallRow_def top_installed_def new_installed_def q_InsertInstalledRequirement_def q_GetInstalledPackage_def lint_db_def package_at_def
        top_world_def lint_world_def)
qed

lemma top_installs: "Install demo_service ''o'' ''top'' ''r/top'' top_digest lint_world = (Inr top_installed, top_world)"
proof -
  have f: "svc_fetch demo_service ''r/top'' top_digest = Some (top_descriptor, [])" by (simp add: demo_service_def stateStoreService_def)
  have "project demo_service top_installed [] top_world = (None, top_world)" by (simp add: project_def families_def)
  moreover have "on_db (InstallRow top_installed) lint_world = (None, top_world)"
    using top_inserted by (simp add: on_db_def lint_world_def top_world_def)
  ultimately have "install_resolved demo_service top_installed [] lint_world = (Inr top_installed, top_world)" by (simp add: install_resolved_def)
  moreover have "check_requires ''o'' (ds_requires top_descriptor) lint_db = None"
    using base_found by (simp add: top_descriptor_def GetRow_def installedFromRow_def)
  ultimately show ?thesis using f top_contents top_valid demo_digests(2) demo_visible by (simp add: Install_def top_installed_def lint_world_def)
qed

lemma lint_withdrawn: "\<exists>w'. withdraw demo_service (installedFromRow base_row) top_world = (None, w') \<and> rd_rows (pw_docs w') = [skills_row [] 2]"
proof -
  have key: "in_org (installedFromRow base_row) = ''o''" "in_name (installedFromRow base_row) = ''base''" "in_digest (installedFromRow base_row) = base_digest"
    by (simp_all add: installedFromRow_def)
  have ids: "withdrawn_ids ''o'' ''base'' family (pw_db top_world) = (if family = ''skills'' then [''lint''] else [])" for family
    by (simp add: withdrawn_ids_def Entries_def top_world_def lint_row_def)
  have read: "read_current ''o'' ''skills'' (pw_docs top_world) = Inr (Some (SkillsDoc [lint]), 1)"
    by (simp add: read_current_def read_resource_def checkResourceKey_def q_ResourceByKind_def top_world_def lint_world_def lint_docs_def skills_row_def
        row_at_def resourceFromCurrent_def)
  have drop: "list_drop (skill_family demo_env) [''lint''] (Some (SkillsDoc [lint])) = Inr (SkillsDoc [])"
    by (simp add: list_drop_def skill_family_def decodeSkills_def encodeSkills_def encoded_def)
  obtain h docs where put: "PutResource (\<lambda>_ _. []) \<lparr>tm_ns = 1, tm_off = 0\<rparr> (project_write ''o'' ''skills'' (withdraw_source ''base'' base_digest)
    (request_id (''package-withdraw:'' @ base_digest) 6) (SkillsDoc []) 1) lint_docs = Inr (h, docs)" "rd_rows docs = [skills_row [] 2]"
    using lint_gone_put by blast
  have doc: "projectDocument (pe_diff demo_env) (pe_now demo_env) ''o'' ''skills'' (withdraw_source ''base'' base_digest) (''package-withdraw:'' @ base_digest)
      (list_drop (skill_family demo_env) [''lint'']) top_world = (None, top_world\<lparr>pw_clock := 7, pw_docs := docs\<rparr>)"
    using read drop put(1)
    by (simp add: projectDocument_def project_attempts.simps [of _ _ _ _ _ _ _ _ 2] projectWriteAttempts_def others_write_def demo_env_def
        top_world_def lint_world_def Let_def)
  let ?w = "top_world\<lparr>pw_clock := 7, pw_docs := docs, pw_db := Forget ''o'' ''base'' ''skills'' (pw_db top_world)\<rparr>"
  have skills: "list_Withdraw (pe_diff demo_env) (pe_now demo_env) (skill_family demo_env) ''o'' ''base'' base_digest top_world = (None, ?w)"
    using doc ids [of "''skills''"] by (simp add: list_Withdraw_def skill_family_def FamilySkills_def then_forget_def Let_def)
  have none: "withdrawn_ids ''o'' ''base'' family (pw_db ?w) = []" for family
    by (simp add: withdrawn_ids_def Entries_def Forget_def top_world_def lint_row_def)
  then have "list_Withdraw (pe_diff demo_env) (pe_now demo_env) (playbook_family demo_env) ''o'' ''base'' base_digest ?w = (None, ?w)"
    by (simp add: list_Withdraw_def Let_def)
  then have "withdraw demo_service (installedFromRow base_row) top_world = (None, ?w)"
    using skills ids none by (simp add: withdraw_def demo_families demo_projections key newListProjector_def workflows_Withdraw_def profiles_Withdraw_def)
  with put(2) show ?thesis by auto
qed

theorem required_package_stripped_witness:
  "\<exists>w'. RemovePackage demo_service ''o'' ''base'' top_world = (Some (SvcStore PkgRequired), w')
    \<and> rd_rows (pw_docs top_world) = [skills_row [lint] 1] \<and> rd_rows (pw_docs w') = [skills_row [] 2]"
proof -
  obtain w' where w: "withdraw demo_service (installedFromRow base_row) top_world = (None, w')" "rd_rows (pw_docs w') = [skills_row [] 2]"
    using lint_withdrawn by blast
  have "GetRow ''o'' ''base'' (pw_db top_world) = Inr (installedFromRow base_row)"
    by (simp add: GetRow_def q_GetInstalledPackage_def top_world_def package_at_def)
  note required_package_stripped [OF demo_visible(5,6) this w(1) [unfolded demo_service_def], folded demo_service_def,
    of "\<lparr>rq_org = ''o'', rq_package = ''top'', rq_required = ''base'', rq_digest = base_digest\<rparr>"]
  then show ?thesis using w(2) by (simp add: top_world_def lint_world_def lint_docs_def)
qed

lemma demo_run: "package_run {} top_world"
proof -
  have "package_run {} demo_start" by (rule package_run.start) (simp add: demo_start_def)
  from package_run.install [OF this base_installs [unfolded demo_service_def]] have "package_run {} lint_world" by simp
  from package_run.install [OF this top_installs [unfolded demo_service_def]] show ?thesis by simp
qed

theorem requirements_stay_pinned_witness:
  "package_run {} top_world \<and> top_row \<in> set (pd_rows (pw_db top_world))
    \<and> (\<exists>x. q_GetInstalledPackage ''o'' ''base'' (pw_db top_world) = Some x \<and> pk_digest x = base_digest)"
proof -
  have "top_row \<in> set (pd_rows (pw_db top_world))" by (simp add: top_world_def)
  from requirements_stay_pinned [OF demo_run this] this show ?thesis using demo_run by (auto simp: top_descriptor_def)
qed

definition grep_authority :: Authority where "grep_authority = no_authority\<lparr>au_tools := [''grep'']\<rparr>"

lemma grep_accepted: "\<exists>i w. AcceptPackageAuthority ''o'' ''base'' grep_authority top_world = (Inr i, w)
    \<and> AcceptedAuthority ''o'' ''base'' (pw_db w) = Inr grep_authority"
proof -
  have v: "ValidateAuthority grep_authority = None"
    by (simp add: ValidateAuthority_def check_grants_def grep_authority_def no_authority_def demo_visible)
  have c: "Covers (ds_authority base_descriptor) grep_authority" by (simp add: base_descriptor_def grep_authority_def)
  let ?db = "(pw_db top_world)\<lparr>pd_rows := [base_row\<lparr>pk_accepted := Some grep_authority\<rparr>, top_row]\<rparr>"
  have a: "AcceptRow ''o'' ''base'' grep_authority (pw_db top_world) = Inr ?db"
    using v by (simp add: AcceptRow_def touched_def q_AcceptInstalledPackageAuthority_def update_package_def top_world_def package_at_def)
  have g: "GetRow ''o'' ''base'' (pw_db top_world) = Inr (installedFromRow base_row)"
    "GetRow ''o'' ''base'' ?db = Inr (installedFromRow (base_row\<lparr>pk_accepted := Some grep_authority\<rparr>))"
    by (simp_all add: GetRow_def q_GetInstalledPackage_def top_world_def package_at_def)
  have "AcceptPackageAuthority ''o'' ''base'' grep_authority top_world =
      (Inr (installedFromRow (base_row\<lparr>pk_accepted := Some grep_authority\<rparr>)), top_world\<lparr>pw_db := ?db\<rparr>)"
    using v c a g demo_visible by (simp add: AcceptPackageAuthority_def on_db_def then_get_def installedFromRow_def)
  then show ?thesis using g(2) by (auto simp: AcceptedAuthority_def installedFromRow_def)
qed

theorem package_runs_within_grants_witness:
  "\<exists>G w. package_run G w \<and> toolAllowlist Some (Some (\<lambda>n. AcceptedAuthority ''o'' n (pw_db w))) (default_row\<lparr>t_def_yaml := ''base''\<rparr>) [] = Some [''grep'']
    \<and> (\<exists>a. ((''o'', ''base''), a) \<in> G \<and> ''grep'' \<in> set (au_tools a))"
proof -
  obtain i w where a: "AcceptPackageAuthority ''o'' ''base'' grep_authority top_world = (Inr i, w)"
    "AcceptedAuthority ''o'' ''base'' (pw_db w) = Inr grep_authority" using grep_accepted by blast
  from package_run.accept [OF demo_run a(1)] have run: "package_run {((''o'', ''base''), grep_authority)} w" by simp
  have t: "toolAllowlist Some (Some (\<lambda>n. AcceptedAuthority ''o'' n (pw_db w))) (default_row\<lparr>t_def_yaml := ''base''\<rparr>) [] = Some [''grep'']"
    using a(2) by (simp add: toolAllowlist_def PackageOf_def Let_def grep_authority_def)
  have "PackageOf Some (t_def_yaml (default_row\<lparr>t_def_yaml := ''base''\<rparr>)) = ''base''" by (simp add: PackageOf_def)
  from package_runs_within_grants [OF run this, of "''o''" "[]"] t run show ?thesis by auto
qed

end
