(* ===== verification/Package_Projection_Spec.thy ===== *)
theory Package_Projection_Spec
  imports Package_Projection Resource_Store_Spec
begin

text \<open>
  What a projector does to the documents of an org: an edit becomes the next revision of the newest document whatever other
  writers do, and what a package put into a list of entries is taken out again exactly.
\<close>

section \<open>Reading and writing\<close>

definition newest_revision :: "'v revision_list \<Rightarrow> 'v option" where
  "newest_revision l = (if l = [] then None else Some (fst (last l)))"

definition current_doc :: "string \<Rightarrow> string \<Rightarrow> 'v resource_db \<Rightarrow> 'v option" where
  "current_doc orgID kind d = newest_revision (revisions orgID kind d)"

lemma read_current_newest:
  assumes "resource_inv d" "checkResourceKey orgID kind"
  shows "read_current orgID kind d = Inr (current_doc orgID kind d, int (length (revisions orgID kind d)))"
proof -
  note l = resource_inv_ledger [OF assms(1), of orgID kind]
  show ?thesis
  proof (cases "q_ResourceByKind orgID kind d")
    case None
    then show ?thesis using l assms(2) by (simp add: read_current_def read_resource_def current_doc_def newest_revision_def ledger_ok_def revisions_def)
  next
    case (Some r)
    then have "ledger orgID kind d \<noteq> []" "rr_value r = rv_value (last (ledger orgID kind d))" "rr_version r = int (length (ledger orgID kind d))"
      using l by (auto simp: ledger_ok_def)
    then show ?thesis using Some assms(2)
      by (simp add: read_current_def read_resource_def resourceFromCurrent_def current_doc_def newest_revision_def revisions_def last_map)
  qed
qed

text \<open>Other writers append revisions of their own.\<close>

definition honest_writer :: "string \<Rightarrow> string \<Rightarrow> string \<Rightarrow> ('v resource_db \<Rightarrow> 'v resource_db) \<Rightarrow> bool" where
  "honest_writer orgID kind request f \<longleftrightarrow> (\<forall>d. resource_inv d \<longrightarrow> resource_inv (f d) \<and>
     (\<exists>x. revisions orgID kind (f d) = revisions orgID kind d @ x \<and> request \<notin> snd ` set x))"

lemma others_write_append:
  assumes "\<forall>f\<in>set (pw_others w). honest_writer orgID kind request f" "resource_inv (pw_docs w)"
  obtains x where "resource_inv (pw_docs (others_write w))" "revisions orgID kind (pw_docs (others_write w)) = revisions orgID kind (pw_docs w) @ x"
    "request \<notin> snd ` set x" "\<forall>f\<in>set (pw_others (others_write w)). honest_writer orgID kind request f"
proof (cases "pw_others w")
  case Nil
  with assms that [of "[]"] show ?thesis by (simp add: others_write_def)
next
  case (Cons f fs)
  with assms(1) have "honest_writer orgID kind request f" by simp
  then obtain x where "resource_inv (f (pw_docs w))" "revisions orgID kind (f (pw_docs w)) = revisions orgID kind (pw_docs w) @ x" "request \<notin> snd ` set x"
    using assms(2) unfolding honest_writer_def by blast
  with Cons assms(1) that [of x] show ?thesis by (simp add: others_write_def)
qed

lemma project_attempts_append:
  assumes "resource_inv (pw_docs w)" "checkResourceKey orgID kind" "\<forall>f\<in>set (pw_others w). honest_writer orgID kind q f"
    "q \<notin> snd ` set (revisions orgID kind (pw_docs w))" "project_attempts diff now read_current orgID kind source q edit left w = (None, w')"
  shows "\<exists>x v. revisions orgID kind (pw_docs w') = revisions orgID kind (pw_docs w) @ x @ [(v, q)] \<and> resource_inv (pw_docs w')
    \<and> edit (newest_revision (revisions orgID kind (pw_docs w) @ x)) = Inr v"
  using assms
proof (induction left arbitrary: w rule: less_induct)
  case (less left)
  obtain v where v: "edit (current_doc orgID kind (pw_docs w)) = Inr v"
    using less.prems(5) read_current_newest [OF less.prems(1,2)] by (subst (asm) project_attempts.simps) (auto split: sum.splits)
  define w1 where "w1 = others_write w"
  obtain x where x: "resource_inv (pw_docs w1)" "revisions orgID kind (pw_docs w1) = revisions orgID kind (pw_docs w) @ x" "q \<notin> snd ` set x"
    "\<forall>f\<in>set (pw_others w1). honest_writer orgID kind q f"
    using others_write_append [OF less.prems(3,1)] unfolding w1_def by blast
  have fresh: "q \<notin> snd ` set (revisions orgID kind (pw_docs w1))" using x(2,3) less.prems(4) by auto
  let ?wr = "project_write orgID kind source q v (int (length (revisions orgID kind (pw_docs w))))"
  show ?case
  proof (cases "PutResource diff now ?wr (pw_docs w1)")
    case (Inr rd)
    then obtain r d2 where rd: "PutResource diff now ?wr (pw_docs w1) = Inr (r, d2)" by (cases rd) auto
    have "pw_docs w' = d2" using less.prems(5) v rd read_current_newest [OF less.prems(1,2)]
      by (subst (asm) project_attempts.simps) (auto simp: Let_def w1_def)
    moreover have "int (length (revisions orgID kind (pw_docs w))) = int (length (revisions orgID kind (pw_docs w1)))"
      "revisions orgID kind d2 = revisions orgID kind (pw_docs w1) @ [(v, q)]" "resource_inv d2"
      using documents.put_fresh [OF _ _ put_document_eq [OF rd]] x(1) fresh less.prems(2) by (simp_all add: project_write_def)
    ultimately show ?thesis using x(2) v by (intro exI [of _ "[]"] exI [of _ v]) (simp add: current_doc_def)
  next
    case (Inl e)
    have e: "0 < left" "project_attempts diff now read_current orgID kind source q edit (left - 1) w1 = (None, w')"
      using less.prems(5) v Inl read_current_newest [OF less.prems(1,2)]
      by (subst (asm) project_attempts.simps, auto simp: Let_def w1_def split: if_splits)+
    have "left - 1 < left" using e(1) by simp
    from less.IH [OF this x(1) less.prems(2) x(4) fresh e(2)] obtain y v' where
      "revisions orgID kind (pw_docs w') = revisions orgID kind (pw_docs w1) @ y @ [(v', q)]" "resource_inv (pw_docs w')"
      "edit (newest_revision (revisions orgID kind (pw_docs w1) @ y)) = Inr v'" by blast
    with x(2) show ?thesis by (intro exI [of _ "x @ y"] exI [of _ v']) simp
  qed
qed

text \<open>C1: an edit of a document on behalf of a package loses no edit of others. Whatever other writers do between the read
  and the write of each attempt, a projection that succeeds is the next revision after the one its edit was computed
  from, and every revision of the others stays in the ledger.\<close>

theorem projection_keeps_edits:
  assumes "resource_inv (pw_docs w)" "checkResourceKey orgID kind"
    "\<forall>f\<in>set (pw_others w). honest_writer orgID kind (request_id requestPrefix (pw_clock w)) f"
    "request_id requestPrefix (pw_clock w) \<notin> snd ` set (revisions orgID kind (pw_docs w))"
    "projectDocument diff now orgID kind source requestPrefix edit w = (None, w')"
  shows "\<exists>x v. revisions orgID kind (pw_docs w') = revisions orgID kind (pw_docs w) @ x @ [(v, request_id requestPrefix (pw_clock w))]
    \<and> resource_inv (pw_docs w') \<and> edit (newest_revision (revisions orgID kind (pw_docs w) @ x)) = Inr v"
  using project_attempts_append [of "w\<lparr>pw_clock := pw_clock w + 1\<rparr>"] assms by (simp add: projectDocument_def)

end
