(* ===== verification/Spec2Isabelle.thy ===== *)
theory Spec2Isabelle
  imports Task_Actions_Cases Event_Type_Proposals Field_Mapping_Spec Capture_Intake Dispatch_Drain Workflow_Call_Spec Workflow_Runs_Cases Task_Dispatcher_Chain Schedule_Document_Spec Schedule_Engine Package_Runs Package_Projection_Spec
begin

text \<open>
  A verification of the core of archie-core, a daemon that turns events and requests into tasks, runs each task
  as a workflow of steps and lets operators act on it. The development follows an event from the webhook
  that brings it to the task it starts, and a task from its creation to its end.

  \<^bold>\<open>The parts and where they are modelled.\<close>

  \<^item> \<open>Go_Prelude\<close>: what the theories share. Go strings are byte lists, maps are association lists with distinct
    keys, errors are values of a sum or option; the string functions the sources use are executable
    definitions with their lemmas.
  \<^item> \<open>Task_State\<close> (\<open>internal/taskstate\<close>): the statuses, operator actions, transition tables of tasks and steps,
    retry modes and catalogs.
  \<^item> \<open>Task_Rows\<close> (\<open>infrastructure/postgres/postgresdb\<close>): the rows of the State Store and one definition per
    statement. \<open>Task_Store\<close> (\<open>infrastructure/postgres/store.go\<close>, \<open>steps.go\<close>): every operation that writes tasks and
    steps, with its errors. \<open>Task_Store_Inv\<close> has the invariant and that each operation keeps it,
    \<open>Task_Store_Runs\<close> the step relation with one rule per operation and its reachable states,
    \<open>Task_Store_Behaviour\<close> and \<open>Task_Store_Recovery\<close> what single operations do on every branch.
  \<^item> \<open>Review_Gate\<close> (\<open>workflow/task/review_gate.go\<close>) and \<open>Task_Actions\<close> (\<open>domain/taskactions/service.go\<close>): the
    operator actions against a store interface. \<open>Task_Actions_Spec\<close> states that interface as the locale
    \<open>action_store\<close>, proves the service correct inside it and interprets it on the PostgreSQL store of
    \<open>Task_Store\<close>; \<open>Task_Actions_Cases\<close> has single actions.
  \<^item> \<open>Event_Type\<close> (\<open>domain/eventtype\<close>, \<open>edastore_eventtypes.go\<close>): rules, matching, overlap, signatures and
    proposals, and the table under the overlap check; \<open>Event_Type_Lookup\<close>, \<open>Event_Type_Rules\<close> and
    \<open>Event_Type_Proposals\<close> their properties.
  \<^item> \<open>Field_Mapping\<close> (\<open>domain/mapping\<close>): payload paths and typed fields; \<open>Field_Mapping_Spec\<close> their resolution
    against a schema.
  \<^item> \<open>Workflow_Interface\<close> (\<open>workflow/task/interface.go\<close>, \<open>enablement.go\<close>): declared inputs and outputs and the
    per-org switch. \<open>Binding\<close> (\<open>domain/binding\<close>, \<open>daemon/binding_target.go\<close>): what a binding starts and with
    which inputs; \<open>Binding_Spec\<close> what a saved binding can still be refused for.
  \<^item> \<open>Access\<close> (\<open>domain/access\<close>, \<open>domain/org\<close>, \<open>infrastructure/access\<close>): policies, principals and the engine;
    \<open>Access_Spec\<close> the policy chain it implements, as the locale \<open>access_chain\<close> interpreted on the engine.
    \<open>Policy_Store\<close> (\<open>postgres/access.go\<close>, \<open>statestore/policy_guard.go\<close>): the stored policies behind the lockout
    guard.
  \<^item> \<open>Webhook_Guard\<close> (\<open>internal/webhookguard\<close>) and \<open>Capture_Intake\<close> (\<open>infrastructure/captureintake\<close>): the signature
    check, the token bucket, redaction, and the handler that stores what arrives. \<open>Webhook_Guard_Spec\<close> has
    their bounds.
  \<^item> \<open>EDA_Store\<close> (\<open>postgres/edastore.go\<close>, \<open>sources.go\<close>, \<open>domain/source\<close>): sources, captures, mappings, bindings and
    the dispatch ledgers. \<open>Dispatch\<close> (\<open>daemon/daemon.go\<close>, from \<open>dispatchBindings\<close> on): the cycle that offers
    captures to bindings and starts tasks in the State Store. \<open>Dispatch_Inv\<close> has one lemma per function,
    \<open>Dispatch_Cycle\<close> lifts them through the loops, \<open>Dispatch_Runs\<close> defines runs that interleave every operation
    on the tables, the store and the policies with cycles, \<open>Dispatch_Spec\<close> and \<open>Dispatch_Drain\<close> prove what
    they guarantee.

  \<^item> \<open>Workflow_Call\<close> (\<open>domain/workflow/workflow_call.go\<close>, \<open>outputs.go\<close>), \<open>Workflow_References\<close> (\<open>step_refs.go\<close>),
    \<open>Workflow_Definition\<close> and \<open>Workflow_Collection\<close> (\<open>definition.go\<close>, \<open>step_flow.go\<close>, \<open>control_steps.go\<close>): what a saved
    collection of workflows has passed, and how calls start and wait for their callees. \<open>Workflow_Definition_Spec\<close>
    and \<open>Workflow_Call_Spec\<close>: saved calls end, are typed, and have paths of their own.
  \<^item> \<open>Workflow_Engine\<close> (\<open>workflow.go\<close>, \<open>step_flow.go\<close>, \<open>control_steps.go\<close>, \<open>finish_step.go\<close>): the run of a task through
    its stages, with retries, parallel and switch steps, handoffs, gates and cancellation, against the State Store.
    \<open>Workflow_Engine_Spec\<close> states what a stage and a run may do to the store as the locales \<open>stage_rules\<close> and
    \<open>run_rules\<close>; \<open>Workflow_Runs\<close> extends them by \<open>control_rules\<close> and interprets them twice, for the history of the
    store and for the task that is run; \<open>Workflow_Runs_Cases\<close> has single runs.
  \<^item> \<open>Task_Dispatcher\<close> (\<open>daemon/daemon.go\<close>, \<open>taskDispatcher\<close>): slots and repository chains as critical sections with the
    goroutines between them as a step relation; \<open>Task_Dispatcher_Spec\<close> its capacity and progress,
    \<open>Task_Dispatcher_Chain\<close> the order of one repository.
  \<^item> \<open>Go_Time\<close>: instants, fixed offsets and the calendar of Go's \<open>time\<close>. \<open>Cron\<close> (\<open>domain/scheduling/cron.go\<close>,
    \<open>schedule.go\<close>): expressions and the scan for the next run; \<open>Cron_Spec\<close> what they mean.
  \<^item> \<open>Resource_Store\<close> (\<open>postgres/resources.go\<close>, \<open>app/controlplane/registry.go\<close>, \<open>controlplane.go\<close>): the documents of the
    control plane, the replace command and the seeding. \<open>Resource_Store_Spec\<close> states the versioned register they
    are as the locale \<open>versioned_register\<close> and interprets it on \<open>PutResource\<close>.
  \<^item> \<open>Schedule_Document\<close> (\<open>app/controlplane/schedules.go\<close>, \<open>app/archied/scheduling.go\<close>, \<open>infrastructure/crondelivery\<close>):
    scheduled jobs, stored, marked as run and delivered; \<open>Schedule_Document_Spec\<close> what is kept.
    \<open>Schedule_Engine\<close> (\<open>domain/scheduling/ticker.go\<close>): the ticker with its two pools.
  \<^item> \<open>Package_Descriptor\<close> (\<open>domain/storepkg\<close>, \<open>infrastructure/storepkg/registry.go\<close>): what a package declares and what a
    fetch checks of it; \<open>Package_Descriptor_Spec\<close> what a package that passed can contain.

  \<^bold>\<open>How the parts interact.\<close> \<open>Capture_Intake\<close> calls \<open>InsertCapture\<close> of \<open>EDA_Store\<close>, which types the event
  by \<open>Identify\<close> of \<open>Event_Type\<close>; a dispatch cycle reads captures, bindings and mappings, resolves fields with
  \<open>Field_Mapping\<close>, checks \<open>Binding\<close> and \<open>Workflow_Interface\<close>, asks the engine of \<open>Access\<close>, claims in the ledger and
  calls \<open>EnqueueBindingTask\<close> of \<open>Task_Store\<close>. A queued task waits in \<open>Task_Dispatcher\<close> and is then run by
  \<open>Workflow_Engine\<close>, which moves it and its steps with the operations of \<open>Task_Store\<close> and starts callees through
  \<open>Workflow_Call\<close>; operators move tasks through \<open>Task_Actions\<close>, which refines the lifecycle of \<open>Task_State\<close>.
  Scheduled jobs are read from and written back to \<open>Resource_Store\<close> by \<open>Schedule_Document\<close>, with the next run of
  \<open>Cron\<close>, when \<open>Schedule_Engine\<close> runs them.

  \<^bold>\<open>What is proved\<close>, with the claim ids of the manifest. The State Store keeps its invariant along every run and
  rewrites no history (C1, C2), operator actions reach the targets of the lifecycle and refuse without effect
  (C3, C28), and single operations do exactly what they promise (C24 to C27). The access engine implements the
  policy chain (C5) and the guard keeps every org manageable (C8). On the way of an event: only trusted events
  may dispatch (C7), senders are rate-limited (C33), stored payloads are redacted (C34), an event has one type
  (C29), proposals separate (C30), mappings resolve exactly (C31), an armed binding was reviewed (C9), a workflow
  switch keeps to its org (C35), a binding fires at most once per delivery (C4) and only when justified (C6), and
  the backlog drains (C32) unless forged events block it (C36). A run of a task settles it and is a history of
  store operations (C10, C11), saved calls end and are typed (C22, C23), a shutdown leaves the task running (C37)
  and parallel branches lose outputs (C40). The dispatcher counts exactly, makes progress and keeps one task per
  repository (C12 to C14) until a run waits on a callee (C38). Documents are a versioned register (C15) whose
  seeds can be lost (C39); cron schedules mean what they say and find the next run (C17, C18) in zones of whole
  hours, and \<open>Schedule_Document_Spec.daily_message_repeats\<close> shows what happens in others; schedules stay valid, no edit is lost to a recorded run and no
  job overlaps itself (C16, C19, C20). A fetched package contains what it declares and nothing executable beside
  its extensions (C21). Theorems that are not claims, among them
  \<open>Task_Store_Recovery.RecoverStale_exact\<close>, \<open>Workflow_Definition_Spec.call_paths_distinct\<close> and
  \<open>Cron_Spec.horizon_too_short\<close>, stand in the theories of their components.

  \<^bold>\<open>Choices.\<close> Every definition is executable and total. \<open>CancelExecution\<close> through waiting callees takes the number
  of open tasks as fuel, and C24 proves that it is enough; the walk through callees takes the number of
  workflows of the collection, and C22 proves that a saved collection needs no more; the scan of \<open>Cron\<close> and the
  engine's loops end by a measure. Goroutines are step relations in which every interleaving is a run; channels
  are numbers or lists. A time zone is a fixed offset. Code outside the repository, the JSON, YAML and CEL
  libraries, Cedar, the HMAC, SHA-256, ciphers and random ids, is a parameter of the definitions that use it.
  Times are integers and the token balance of the limiter is a rational. Database failures that the tables do
  not cause are left out.

  \<^bold>\<open>Not modelled\<close>: the running of agents, git worktrees, containers and forges, the RPC and HTTP transports, the
  web interface and chat channels, configuration and logging, because they are I/O around the parts above; of
  the daemon the intake of forge events, review reactions and shutdown; of the control plane the other kinds of
  document; the installation of packages, playbooks, memory and messaging.
\<close>

end
